(* ===== verification/Prelude.thy ===== *)
theory Prelude
  imports Main "HOL-Library.Word"
begin

text \<open>
  Shared vocabulary of the development: machine types of the 32-bit ARM build, the
  three-valued outcome of a C function that may report failure or dereference a bad
  pointer, and generic lemmas on words, lists and maps that the component theories use.
\<close>

unbundle bit_operations_syntax

named_theorems light_simps "unfolding rules of the lights module"

type_synonym u8 = "8 word"
type_synonym u16 = "16 word"
type_synonym u32 = "32 word"
type_synonym u64 = "64 word"

section \<open>Outcomes of a C call\<close>

text \<open>
  \<open>Ok x\<close>: the call returns normally with \<open>x\<close> (its out-parameters filled in).
  \<open>Fail\<close>: the call returns \<open>false\<close>.
  \<open>Fault\<close>: the call dereferences memory that is not readable.
\<close>

datatype 'a outcome = Ok 'a | Fail | Fault

fun bindo :: "'a outcome \<Rightarrow> ('a \<Rightarrow> 'b outcome) \<Rightarrow> 'b outcome" where
  "bindo (Ok x) f = f x"
| "bindo Fail f = Fail"
| "bindo Fault f = Fault"

definition of_option :: "'a option \<Rightarrow> 'a outcome" where
  "of_option x = (case x of None \<Rightarrow> Fail | Some y \<Rightarrow> Ok y)"

lemma of_option_simps [simp]: "of_option None = Fail" "of_option (Some x) = Ok x"
  by (simp_all add: of_option_def)

lemma of_option_not_fault [simp]: "of_option x \<noteq> Fault"
  by (cases x) simp_all

lemma of_option_Ok_iff [simp]: "of_option x = Ok y \<longleftrightarrow> x = Some y"
  by (cases x) simp_all

lemma bindo_eq_Ok: "bindo m f = Ok y \<longleftrightarrow> (\<exists>x. m = Ok x \<and> f x = Ok y)"
  by (cases m) simp_all

lemma bindo_eq_Fault: "bindo m f = Fault \<longleftrightarrow> m = Fault \<or> (\<exists>x. m = Ok x \<and> f x = Fault)"
  by (cases m) simp_all

lemma bindo_cong [fundef_cong]:
  "m = m' \<Longrightarrow> (\<And>x. m' = Ok x \<Longrightarrow> f x = f' x) \<Longrightarrow> bindo m f = bindo m' f'"
  by (cases m') simp_all

section \<open>Words\<close>

lemma unat_u32_less: "unat (w :: u32) < 4294967296"
  using unsigned_less [of w, where ?'a = nat] by simp

lemma unat_add_u32: "unat a + unat b < 4294967296 \<Longrightarrow> unat (a + b :: u32) = unat a + unat b"
  by (simp add: unat_word_ariths)

lemma word_le_add_u32:
  "unat a + unat b < 4294967296 \<Longrightarrow> (a :: u32) \<le> a + b"
  by (simp add: word_le_nat_alt unat_add_u32)

lemma sint_small:
  assumes "unat (w :: u32) \<le> n" "n < 2147483648"
  shows "sint w = int (unat w)"
proof -
  have "unat w < 2147483648" using assms by linarith
  then have "int (unat w) < int 2147483648" by (simp only: of_nat_less_iff)
  then have "uint w < 2 ^ 31" by simp
  then have "signed_take_bit 31 (uint w) = uint w"
    by (intro signed_take_bit_int_eq_self) (simp_all add: order_trans [OF _ uint_ge_0])
  then show ?thesis by (simp add: sint_uint)
qed

end
