(* ===== verification/CLib.thy ===== *)
theory CLib
  imports Prelude
begin

text \<open>
  The parts of the C library the modelled code calls on strings: a C string is the list of its
  characters before the terminator. \<open>unsigned long\<close> has 32 bits, as in the ARM build.
\<close>

definition NUL :: char where "NUL = CHR 0x00"

definition c_isspace :: "char \<Rightarrow> bool" where
  "c_isspace c \<longleftrightarrow> c \<in> {CHR '' '', CHR 0x09, CHR 0x0A, CHR 0x0B, CHR 0x0C, CHR 0x0D}"

text \<open>\<open>strncmp(s, t, n) == 0\<close>\<close>

definition strncmp_eq :: "string \<Rightarrow> string \<Rightarrow> nat \<Rightarrow> bool" where
  "strncmp_eq s t n \<longleftrightarrow> take n s = take n t"

text \<open>\<open>strstr(s, t) != NULL\<close>\<close>

fun strstr :: "string \<Rightarrow> string \<Rightarrow> bool" where
  "strstr [] t = (t = [])"
| "strstr (c # cs) t = (take (length t) (c # cs) = t \<or> strstr cs t)"

lemma strstr_iff: "strstr s t \<longleftrightarrow> (\<exists>u v. s = u @ t @ v)"
proof (induction s)
  case Nil
  then show ?case by auto
next
  case (Cons c cs)
  show ?case
  proof
    assume "strstr (c # cs) t"
    then consider "take (length t) (c # cs) = t" | "strstr cs t" by auto
    then show "\<exists>u v. c # cs = u @ t @ v"
    proof cases
      case 1
      then have "c # cs = [] @ t @ drop (length t) (c # cs)"
        by (metis append_Nil append_take_drop_id)
      then show ?thesis by blast
    next
      case 2
      then obtain u v where "cs = u @ t @ v" using Cons.IH by blast
      then have "c # cs = (c # u) @ t @ v" by simp
      then show ?thesis by blast
    qed
  next
    assume "\<exists>u v. c # cs = u @ t @ v"
    then obtain u v where eq: "c # cs = u @ t @ v" by blast
    show "strstr (c # cs) t"
    proof (cases u)
      case Nil
      then have "take (length t) (c # cs) = t" using eq by simp
      then show ?thesis by simp
    next
      case (Cons a u')
      then have "cs = u' @ t @ v" using eq by simp
      then show ?thesis using Cons.IH by auto
    qed
  qed
qed

section \<open>strtoul\<close>

definition digit_val :: "char \<Rightarrow> nat" where
  "digit_val c =
     (let n = of_char c in
      if 48 \<le> n \<and> n \<le> 57 then n - 48
      else if 97 \<le> n \<and> n \<le> 122 then n - 87
      else if 65 \<le> n \<and> n \<le> 90 then n - 55
      else 99)"

definition is_digit :: "nat \<Rightarrow> char \<Rightarrow> bool" where
  "is_digit base c \<longleftrightarrow> digit_val c < base"

fun digits_val :: "nat \<Rightarrow> nat \<Rightarrow> string \<Rightarrow> nat" where
  "digits_val base acc [] = acc"
| "digits_val base acc (c # cs) = digits_val base (acc * base + digit_val c) cs"

definition strip_sign :: "string \<Rightarrow> bool \<times> string" where
  "strip_sign s =
     (case s of [] \<Rightarrow> (False, s)
      | c # r \<Rightarrow> if c = CHR ''-'' then (True, r) else if c = CHR ''+'' then (False, r) else (False, s))"

definition has_hex_prefix :: "string \<Rightarrow> bool" where
  "has_hex_prefix s =
     (case s of z # x # d # _ \<Rightarrow> z = CHR ''0'' \<and> (x = CHR ''x'' \<or> x = CHR ''X'') \<and> is_digit 16 d
      | _ \<Rightarrow> False)"

definition pick_base :: "nat \<Rightarrow> string \<Rightarrow> nat \<times> string" where
  "pick_base base s =
     (if (base = 0 \<or> base = 16) \<and> has_hex_prefix s then (16, drop 2 s)
      else if base = 0 then ((case s of c # _ \<Rightarrow> if c = CHR ''0'' then 8 else 10 | [] \<Rightarrow> 10), s)
      else (base, s))"

text \<open>The value returned and the string at \<open>*endptr\<close>.\<close>

definition strtoul :: "string \<Rightarrow> nat \<Rightarrow> u32 \<times> string" where
  "strtoul s base =
     (let s1 = dropWhile c_isspace s;
          (neg, s2) = strip_sign s1;
          (b, s3) = pick_base base s2;
          ds = takeWhile (is_digit b) s3;
          n = digits_val b 0 ds
      in if ds = [] then (0, s)
         else if n > 4294967295 then (0xffffffff, dropWhile (is_digit b) s3)
         else (if neg then - of_nat n else of_nat n, dropWhile (is_digit b) s3))"

text \<open>\<open>strtoull(s, &end, 16)\<close>, 64 bits wide in every build.\<close>

definition strtoull_hex :: "string \<Rightarrow> u64" where
  "strtoull_hex s =
     (let (neg, s2) = strip_sign (dropWhile c_isspace s);
          (b, s3) = pick_base 16 s2;
          n = digits_val b 0 (takeWhile (is_digit b) s3)
      in if n > 18446744073709551615 then - 1 else if neg then - of_nat n else of_nat n)"

section \<open>Printing and scanning decimal numbers\<close>

text \<open>\<open>%d\<close> of the \<open>printf\<close> family.\<close>

fun dec_nat :: "nat \<Rightarrow> string" where
  "dec_nat n = (if n < 10 then [char_of (48 + n)]
                else dec_nat (n div 10) @ [char_of (48 + n mod 10)])"

declare dec_nat.simps [simp del]

definition sprintf_d :: "int \<Rightarrow> string" where
  "sprintf_d v = (if v < 0 then CHR ''-'' # dec_nat (nat (- v)) else dec_nat (nat v))"

lemma dec_nat_length: "n < 10 ^ Suc k \<Longrightarrow> length (dec_nat n) \<le> Suc k"
proof (induction k arbitrary: n)
  case 0
  then show ?case by (simp add: dec_nat.simps)
next
  case (Suc k)
  then have "n div 10 < 10 ^ Suc k" by (simp add: less_mult_imp_div_less)
  then have "length (dec_nat (n div 10)) \<le> Suc k" by (rule Suc.IH)
  then show ?case by (subst dec_nat.simps) simp
qed

text \<open>
  \<open>%d\<close> of the \<open>scanf\<close> family: white space and a sign are skipped, the value saturates at
  the bounds of a 32-bit \<open>int\<close>; \<open>None\<close> is a matching failure. The second component is the
  rest of the input.
\<close>

definition INT32_MIN :: int where "INT32_MIN = - 2147483648"

definition INT32_MAX :: int where "INT32_MAX = 2147483647"

definition clamp_int :: "int \<Rightarrow> int" where
  "clamp_int v = max INT32_MIN (min INT32_MAX v)"

definition scan_d :: "string \<Rightarrow> (int \<times> string) option" where
  "scan_d s =
     (let (neg, s1) = strip_sign (dropWhile c_isspace s);
          ds = takeWhile (is_digit 10) s1;
          n = int (digits_val 10 0 ds)
      in if ds = [] then None
         else Some (clamp_int (if neg then - n else n), dropWhile (is_digit 10) s1))"

text \<open>
  \<open>sscanf\<close> with a format of integer fields and literal characters: the values converted, in
  order, up to the first field or character that does not match.
\<close>

datatype scan_item = Field | Literal char

fun sscanf :: "scan_item list \<Rightarrow> string \<Rightarrow> int list" where
  "sscanf [] s = []"
| "sscanf (Literal c # fmt) s =
     (case s of [] \<Rightarrow> [] | x # rest \<Rightarrow> if x = c then sscanf fmt rest else [])"
| "sscanf (Field # fmt) s =
     (case scan_d s of None \<Rightarrow> [] | Some (v, rest) \<Rightarrow> v # sscanf fmt rest)"

definition atoi :: "string \<Rightarrow> int" where
  "atoi s = (case scan_d s of None \<Rightarrow> 0 | Some (v, rest) \<Rightarrow> v)"

lemma digits_val_append: "digits_val b acc (xs @ [c]) = digits_val b acc xs * b + digit_val c"
  by (induction xs arbitrary: acc) simp_all

lemma digit_val_char: "d < 10 \<Longrightarrow> digit_val (char_of (48 + d)) = d"
  by (simp add: digit_val_def)

lemma dec_nat_digits:
  "digits_val 10 0 (dec_nat n) = n \<and> (\<forall>c \<in> set (dec_nat n). is_digit 10 c) \<and> dec_nat n \<noteq> []"
proof (induction n rule: dec_nat.induct)
  case (1 n)
  show ?case
  proof (cases "n < 10")
    case True
    then show ?thesis
      by (subst dec_nat.simps, subst dec_nat.simps, subst dec_nat.simps)
        (simp add: digit_val_char is_digit_def)
  next
    case False
    then have "dec_nat n = dec_nat (n div 10) @ [char_of (48 + n mod 10)]"
      by (subst dec_nat.simps) simp
    then show ?thesis
      using 1 False by (simp add: digits_val_append digit_val_char is_digit_def)
  qed
qed

lemma digit_not_special: "is_digit 10 c \<Longrightarrow> \<not> c_isspace c \<and> c \<noteq> CHR ''-'' \<and> c \<noteq> CHR ''+''"
  by (auto simp: is_digit_def digit_val_def c_isspace_def Let_def split: if_splits)

text \<open>Scanning gives back what was printed, when no digit follows.\<close>

definition no_digit_first :: "string \<Rightarrow> bool" where
  "no_digit_first s \<longleftrightarrow> (case s of [] \<Rightarrow> True | c # _ \<Rightarrow> \<not> is_digit 10 c)"

definition int32 :: "int \<Rightarrow> bool" where
  "int32 v \<longleftrightarrow> INT32_MIN \<le> v \<and> v \<le> INT32_MAX"

lemma clamp_int32 [simp]: "int32 v \<Longrightarrow> clamp_int v = v"
  by (simp add: int32_def clamp_int_def)

lemma take_digits:
  assumes "no_digit_first rest"
  shows "takeWhile (is_digit 10) (dec_nat n @ rest) = dec_nat n"
    "dropWhile (is_digit 10) (dec_nat n @ rest) = rest"
proof -
  have "takeWhile (is_digit 10) rest = [] \<and> dropWhile (is_digit 10) rest = rest"
    using assms by (cases rest) (auto simp: no_digit_first_def)
  moreover have "\<forall>c \<in> set (dec_nat n). is_digit 10 c" using dec_nat_digits by blast
  ultimately show "takeWhile (is_digit 10) (dec_nat n @ rest) = dec_nat n"
    "dropWhile (is_digit 10) (dec_nat n @ rest) = rest" by simp_all
qed

lemma dec_nat_head:
  obtains c ds where "dec_nat n = c # ds" "is_digit 10 c"
  using dec_nat_digits [of n] by (cases "dec_nat n") auto

lemma scan_d_sprintf_d:
  assumes "int32 v" "no_digit_first rest"
  shows "scan_d (sprintf_d v @ rest) = Some (v, rest)"
proof (cases "v < 0")
  case True
  have "strip_sign (dropWhile c_isspace (sprintf_d v @ rest)) = (True, dec_nat (nat (- v)) @ rest)"
    using True by (simp add: sprintf_d_def c_isspace_def strip_sign_def)
  then show ?thesis using True assms take_digits [OF assms(2), of "nat (- v)"] dec_nat_digits [of "nat (- v)"]
    by (simp add: scan_d_def)
next
  case False
  obtain c ds where c: "dec_nat (nat v) = c # ds" "is_digit 10 c" by (rule dec_nat_head)
  have "strip_sign (dropWhile c_isspace (sprintf_d v @ rest)) = (False, dec_nat (nat v) @ rest)"
    using False c digit_not_special [OF c(2)] by (simp add: sprintf_d_def strip_sign_def)
  then show ?thesis using False assms take_digits [OF assms(2), of "nat v"] dec_nat_digits [of "nat v"]
    by (simp add: scan_d_def)
qed

lemma no_digit_first_simps [simp]:
  "no_digit_first []" "no_digit_first (CHR '','' # s)" "no_digit_first (CHR 0x0A # s)"
  by (simp_all add: no_digit_first_def is_digit_def digit_val_def)

lemma sprintf_d_head:
  obtains c s where "sprintf_d v = c # s" "c = CHR ''-'' \<or> is_digit 10 c"
proof (cases "v < 0")
  case False
  obtain c ds where "dec_nat (nat v) = c # ds" "is_digit 10 c" by (rule dec_nat_head)
  then show ?thesis using False by (intro that [of c ds]) (simp_all add: sprintf_d_def)
qed (use that in \<open>simp add: sprintf_d_def\<close>)

lemmas strtoul_eval = strtoul_def strip_sign_def pick_base_def has_hex_prefix_def is_digit_def
  digit_val_def c_isspace_def Let_def

section \<open>strtol\<close>

text \<open>\<open>strtol\<close>: the value saturates at the bounds of a 32-bit \<open>long\<close>; the rest is \<open>*endptr\<close>.\<close>

definition strtol :: "string \<Rightarrow> nat \<Rightarrow> int \<times> string" where
  "strtol s base =
     (let (neg, s2) = strip_sign (dropWhile c_isspace s);
          (b, s3) = pick_base base s2;
          ds = takeWhile (is_digit b) s3;
          n = int (digits_val b 0 ds)
      in if ds = [] then (0, s)
         else (clamp_int (if neg then - n else n), dropWhile (is_digit b) s3))"

lemma strtol_sprintf_d:
  assumes "int32 v" "no_digit_first rest"
  shows "strtol (sprintf_d v @ rest) 10 = (v, rest)"
proof (cases "v < 0")
  case True
  have "strip_sign (dropWhile c_isspace (sprintf_d v @ rest)) = (True, dec_nat (nat (- v)) @ rest)"
    using True by (simp add: sprintf_d_def c_isspace_def strip_sign_def)
  then show ?thesis using True assms take_digits [OF assms(2), of "nat (- v)"] dec_nat_digits [of "nat (- v)"]
    by (simp add: strtol_def pick_base_def)
next
  case False
  obtain c ds where c: "dec_nat (nat v) = c # ds" "is_digit 10 c" by (rule dec_nat_head)
  have "strip_sign (dropWhile c_isspace (sprintf_d v @ rest)) = (False, dec_nat (nat v) @ rest)"
    using False c digit_not_special [OF c(2)] by (simp add: sprintf_d_def strip_sign_def)
  then show ?thesis using False assms take_digits [OF assms(2), of "nat v"] dec_nat_digits [of "nat v"]
    by (simp add: strtol_def pick_base_def)
qed

section \<open>Hexadecimal numbers\<close>

definition upper_digit :: "nat \<Rightarrow> char" where
  "upper_digit d = char_of (if d < 10 then 48 + d else 55 + d)"

definition lower_digit :: "nat \<Rightarrow> char" where
  "lower_digit d = char_of (if d < 10 then 48 + d else 87 + d)"

text \<open>\<open>%0wX\<close> of a number of \<open>w\<close> hexadecimal digits.\<close>

fun hex_digits :: "nat \<Rightarrow> nat \<Rightarrow> nat list" where
  "hex_digits 0 n = []"
| "hex_digits (Suc w) n = hex_digits w (n div 16) @ [n mod 16]"

definition print_02x :: "u8 \<Rightarrow> string" where
  "print_02x x = map lower_digit (hex_digits 2 (unat x))"

end
