(* ===== verification/UnwindMem.thy ===== *)
theory UnwindMem
  imports CLib
begin

text \<open>
  How the unwinder of \<open>src/proprietary/external/libudf/unwind\<close> reads memory: the map list
  of \<open>map_info.c\<close>, the word readers, the search for the main thread's stack in the
  text of \<open>/proc/self/task/PID/maps\<close> and \<open>/proc/self/stat\<close> (\<open>ptrace.c\<close>), and the frame
  buffer of \<open>backtrace-helper.c\<close>.

  The memory of the process that is unwound is a parameter: a function from addresses to the
  32-bit word stored there, or \<open>None\<close> where nothing is mapped.
\<close>

type_synonym memory_image = "u32 \<Rightarrow> u32 option"

section \<open>map_info.c: the list of mappings\<close>

record map_info =
  mi_start :: u32
  mi_end :: u32
  is_readable :: bool
  is_writable :: bool
  is_executable :: bool
  mi_data :: "(u32 \<times> u32) option" \<comment> \<open>\<open>map_info_data_t\<close>: exidx start and size\<close>

fun find_map_info :: "map_info list \<Rightarrow> u32 \<Rightarrow> map_info option" where
  "find_map_info [] addr = None"
| "find_map_info (mi # rest) addr =
     (if \<not> (addr \<ge> mi_start mi \<and> addr < mi_end mi) then find_map_info rest addr else Some mi)"

definition is_readable_map :: "map_info list \<Rightarrow> u32 \<Rightarrow> bool" where
  "is_readable_map milist addr =
     (case find_map_info milist addr of None \<Rightarrow> False | Some mi \<Rightarrow> is_readable mi)"

definition is_writable_map :: "map_info list \<Rightarrow> u32 \<Rightarrow> bool" where
  "is_writable_map milist addr =
     (case find_map_info milist addr of None \<Rightarrow> False | Some mi \<Rightarrow> is_writable mi)"

definition is_executable_map :: "map_info list \<Rightarrow> u32 \<Rightarrow> bool" where
  "is_executable_map milist addr =
     (case find_map_info milist addr of None \<Rightarrow> False | Some mi \<Rightarrow> is_executable mi)"

definition acquire_my_map_info_list :: "map_info list" where
  "acquire_my_map_info_list = []" \<comment> \<open>the source returns NULL\<close>

definition covers :: "map_info \<Rightarrow> u32 \<Rightarrow> bool" where
  "covers mi addr \<longleftrightarrow> mi_start mi \<le> addr \<and> addr < mi_end mi"

lemma find_map_info_eq_find: "find_map_info ms addr = List.find (\<lambda>mi. covers mi addr) ms"
  by (induction ms) (auto simp: covers_def)

lemma find_map_info_SomeD:
  assumes "find_map_info ms addr = Some mi"
  shows "mi \<in> set ms" "covers mi addr"
  using assms by (auto simp: find_map_info_eq_find find_Some_iff)

lemma find_map_info_None_iff: "find_map_info ms addr = None \<longleftrightarrow> (\<forall>mi \<in> set ms. \<not> covers mi addr)"
  by (auto simp: find_map_info_eq_find find_None_iff)

text \<open>Mappings that do not overlap: any mapping that covers the address is the one found.\<close>

definition maps_disjoint :: "map_info list \<Rightarrow> bool" where
  "maps_disjoint ms \<longleftrightarrow>
     (\<forall>a \<in> set ms. \<forall>b \<in> set ms. a = b \<or> mi_end a \<le> mi_start b \<or> mi_end b \<le> mi_start a)"

lemma maps_disjoint_unique:
  assumes "maps_disjoint ms" "a \<in> set ms" "b \<in> set ms" "covers a addr" "covers b addr"
  shows "a = b"
  using assms by (fastforce simp: maps_disjoint_def covers_def)

section \<open>ptrace.c: reading words\<close>

record memory =
  mem_tid :: int
  mem_maps :: "map_info list"

definition init_memory :: "map_info list \<Rightarrow> memory" where
  "init_memory milist = \<lparr>mem_tid = -1, mem_maps = milist\<rparr>"

definition init_memory_ptrace :: "int \<Rightarrow> memory" where
  "init_memory_ptrace tid = \<lparr>mem_tid = tid, mem_maps = []\<rparr>"

text \<open>
  The load of \<open>d15_get_word\<close> is marked with a magic word after the instruction, so that a
  faulting load is skipped and the register keeps its initial value \<open>0xdeadaee0\<close>.
\<close>

definition load_poison :: u32 where
  "load_poison = 0xdeadaee0"

definition d15_get_word :: "memory_image \<Rightarrow> u32 \<Rightarrow> u32" where
  "d15_get_word img addr = (case img addr of None \<Rightarrow> load_poison | Some v \<Rightarrow> v)"

text \<open>
  \<open>ptrace(PTRACE_PEEKTEXT)\<close> returns the word, or -1 with \<open>errno\<close> set when the address is
  not mapped in the traced process: the pair is the returned word and whether \<open>errno\<close> is set.
\<close>

definition ptrace_peek :: "memory_image \<Rightarrow> u32 \<Rightarrow> u32 \<times> bool" where
  "ptrace_peek img addr = (case img addr of None \<Rightarrow> (0xffffffff, True) | Some v \<Rightarrow> (v, False))"

text \<open>The first component is the C return value, the second is \<open>*out_value\<close>.\<close>

definition try_get_word_raw :: "memory_image \<Rightarrow> memory \<Rightarrow> u32 \<Rightarrow> bool \<times> u32" where
  "try_get_word_raw img m ptr =
     (if ptr AND 3 \<noteq> 0 then (False, 0xffffffff)
      else if mem_tid m < 0 then
        (let out = d15_get_word img ptr
         in if out \<noteq> 0xdeadaee0 then (True, out) else (False, 0xffffffff))
      else
        (let (out, errno) = ptrace_peek img ptr
         in if out = 0xffffffff \<and> errno then (False, out) else (True, out)))"

definition try_get_word :: "memory_image \<Rightarrow> memory \<Rightarrow> u32 \<Rightarrow> u32 option" where
  "try_get_word img m ptr =
     (let (ok, v) = try_get_word_raw img m ptr in if ok then Some v else None)"

lemma try_get_word_eq:
  "try_get_word img m ptr =
     (if ptr AND 3 \<noteq> 0 then None
      else if mem_tid m < 0 then
        (case img ptr of None \<Rightarrow> None | Some v \<Rightarrow> if v = load_poison then None else Some v)
      else img ptr)"
  by (simp add: try_get_word_def try_get_word_raw_def d15_get_word_def ptrace_peek_def
      load_poison_def Let_def split: option.splits)

lemma try_get_word_SomeD: "try_get_word img m ptr = Some v \<Longrightarrow> img ptr = Some v \<and> ptr AND 3 = 0"
  by (auto simp: try_get_word_eq split: if_splits option.splits)

lemma try_get_word_misaligned [simp]: "ptr AND 3 \<noteq> 0 \<Longrightarrow> try_get_word img m ptr = None"
  by (simp add: try_get_word_eq)

text \<open>
  The tail of \<open>try_get_word_stack\<close>: a word is read without any protection once the address lies between the
  two bounds that \<open>ubrd_get_stack\<close> reports, both ends included: the read itself faults when
  nothing is mapped at the address.
\<close>

record stack_bounds =
  sb_start :: u32 \<comment> \<open>\<open>pthread_stack_start\<close>: the high end\<close>
  sb_end :: u32 \<comment> \<open>\<open>pthread_stack_end\<close>: the low end\<close>

definition stack_word :: "memory_image \<Rightarrow> stack_bounds \<Rightarrow> u32 \<Rightarrow> u32 outcome" where
  "stack_word img sb ptr =
     (if ptr \<ge> sb_end sb \<and> ptr \<le> sb_start sb
      then (case img ptr of None \<Rightarrow> Fault | Some v \<Rightarrow> Ok v)
      else Fail)"

definition stack_mapped :: "memory_image \<Rightarrow> stack_bounds \<Rightarrow> bool" where
  "stack_mapped img sb \<longleftrightarrow> (\<forall>p. sb_end sb \<le> p \<and> p \<le> sb_start sb \<longrightarrow> img p \<noteq> None)"

lemma stack_word_no_fault:
  "stack_mapped img sb \<Longrightarrow> stack_word img sb ptr \<noteq> Fault"
  by (auto simp: stack_word_def stack_mapped_def split: option.splits)

lemma stack_word_OkD:
  "stack_word img sb ptr = Ok v \<Longrightarrow> sb_end sb \<le> ptr \<and> ptr \<le> sb_start sb \<and> img ptr = Some v"
  by (auto simp: stack_word_def split: if_splits option.splits)

section \<open>ptrace.c: where the stack of the current thread lies\<close>

text \<open>
  \<open>ubrd_get_main_thread_stack\<close> reads \<open>/proc/self/task/PID/maps\<close> character by character
  into a buffer of 1024 characters and stops at the line of the \<open>[stack]\<close> mapping. A write
  past the end of the buffer is \<open>Fault\<close>. \<open>Ok\<close> carries the buffer when the end of the
  file is reached, and the address when the line was found (32-bit format of the line).
\<close>

definition LINE_SIZE :: nat where "LINE_SIZE = 1024"

definition line_put :: "string \<Rightarrow> nat \<Rightarrow> char \<Rightarrow> string outcome" where
  "line_put line i c = (if i < LINE_SIZE then Ok (line[i := c]) else Fault)"

definition c_str_at :: "string \<Rightarrow> nat \<Rightarrow> string" where
  "c_str_at line k = takeWhile (\<lambda>c. c \<noteq> NUL) (drop k line)"

definition stack_of_line :: "string \<Rightarrow> u32" where
  "stack_of_line line =
     fst (strtoul (c_str_at (line[7 := CHR ''0'', 8 := CHR ''x'', 17 := NUL]) 7) 16)"

fun scan_maps :: "string \<Rightarrow> string \<Rightarrow> nat \<Rightarrow> (string \<times> u32 option) outcome" where
  "scan_maps [] line i = Ok (line, None)"
| "scan_maps (c # cs) line i =
     (if c = CHR 0x0A then
        bindo (line_put line i NUL) (\<lambda>line'.
          if i > 21 + 7 \<and> strncmp_eq (c_str_at line' (i - 7)) ''[stack]'' 7
          then Ok (line', Some (stack_of_line line'))
          else scan_maps cs line' 0)
      else bindo (line_put line i c) (\<lambda>line'. scan_maps cs line' (Suc i)))"

text \<open>The 28th field of \<open>/proc/self/stat\<close>, the fallback; \<open>j\<close> counts the blanks seen.\<close>

fun scan_stat :: "string \<Rightarrow> string \<Rightarrow> nat \<Rightarrow> nat \<Rightarrow> string outcome" where
  "scan_stat [] line i j = Ok line"
| "scan_stat (c # cs) line i j =
     (if c = CHR '' '' then
        (if Suc j = 28 then line_put line i NUL else scan_stat cs line i (Suc j))
      else if j = 27 then bindo (line_put line i c) (\<lambda>line'. scan_stat cs line' (Suc i) j)
      else scan_stat cs line i j)"

text \<open>
  What the function finds in its surroundings: whether \<open>libc.so\<close> with its \<open>open\<close> and
  \<open>close\<close> can be loaded, the text of the two proc files (\<open>None\<close> when they cannot be
  opened), and the buffer as \<open>snprintf\<close> left it.
\<close>

record proc_env =
  pe_libc :: bool
  pe_maps :: "string option"
  pe_stat :: "string option"
  pe_line :: string
  pe_pid :: int
  pe_tid :: int
  pe_attr_base :: u32
  pe_attr_size :: u32

definition ubrd_get_main_thread_stack :: "proc_env \<Rightarrow> (u32 \<times> u32) outcome" where
  "ubrd_get_main_thread_stack pe =
     (if \<not> pe_libc pe then Fail
      else case pe_maps pe of None \<Rightarrow> Fail
      | Some maps \<Rightarrow> bindo (scan_maps maps (pe_line pe) 0) (\<lambda>(line, found).
          case found of Some start \<Rightarrow> Ok (start, 8 * 1024 * 1024)
          | None \<Rightarrow>
            (case pe_stat pe of None \<Rightarrow> Fail
             | Some stat \<Rightarrow> bindo (scan_stat stat (line[0 := NUL]) 0 0) (\<lambda>line'.
                 if line' ! 0 \<noteq> NUL
                 then Ok (fst (strtoul (c_str_at line' 0) 10), 8 * 1024 * 1024)
                 else Fail))))"

text \<open>The static variables \<open>_main_thread_stack_start\<close>, \<open>_main_thread_stack_size\<close> and \<open>ubrd_pid\<close>.\<close>

record stack_cache =
  main_start :: u32
  main_size :: u32
  cached_pid :: int

definition reset_for_process :: "proc_env \<Rightarrow> stack_cache \<Rightarrow> stack_cache" where
  "reset_for_process pe st =
     (if pe_pid pe \<noteq> cached_pid st
      then st\<lparr>cached_pid := pe_pid pe, main_start := 0, main_size := 0\<rparr> else st)"

text \<open>
  \<open>Ok (bounds, cache)\<close> where the C function returns 0 and fills the two out-parameters;
  on -1 the caller's initial values (both 0) stay, which \<open>try_get_word_stack\<close> then uses.
\<close>

definition ubrd_get_stack ::
  "proc_env \<Rightarrow> stack_cache \<Rightarrow> (stack_bounds option \<times> stack_cache) outcome" where
  "ubrd_get_stack pe st0 =
     (let st = reset_for_process pe st0;
          main_bounds = (\<lambda>s. Some \<lparr>sb_start = main_start s, sb_end = main_start s - main_size s\<rparr>)
      in if pe_tid pe = pe_pid pe then
           (if main_start st = 0 then
              (case ubrd_get_main_thread_stack pe of
                 Fault \<Rightarrow> Fault
               | Fail \<Rightarrow> Ok (None, st)
               | Ok (a, sz) \<Rightarrow>
                   (let st' = st\<lparr>main_start := a, main_size := sz\<rparr> in Ok (main_bounds st', st')))
            else Ok (main_bounds st, st))
         else Ok (Some \<lparr>sb_start = pe_attr_base pe + pe_attr_size pe, sb_end = pe_attr_base pe\<rparr>, st))"

definition zero_bounds :: stack_bounds where
  "zero_bounds = \<lparr>sb_start = 0, sb_end = 0\<rparr>"

definition reported :: "stack_bounds option \<Rightarrow> stack_bounds" where
  "reported r = (case r of None \<Rightarrow> zero_bounds | Some sb \<Rightarrow> sb)"

definition try_get_word_stack ::
  "memory_image \<Rightarrow> proc_env \<Rightarrow> stack_cache \<Rightarrow> u32 \<Rightarrow> (u32 outcome \<times> stack_cache) outcome" where
  "try_get_word_stack img pe st ptr =
     bindo (ubrd_get_stack pe st) (\<lambda>(r, st').
       Ok (stack_word img (reported r) ptr, st'))"

text \<open>The static variables only save the scan: with the same proc files, the next call reports the same.\<close>

lemma ubrd_get_stack_again:
  assumes "ubrd_get_stack pe st = Ok (r, st')"
  shows "ubrd_get_stack pe st' = Ok (r, st')"
proof -
  have reset: "reset_for_process pe (reset_for_process pe st) = reset_for_process pe st"
    by (simp add: reset_for_process_def)
  have set: "reset_for_process pe ((reset_for_process pe st)\<lparr>main_start := a, main_size := sz\<rparr>)
      = (reset_for_process pe st)\<lparr>main_start := a, main_size := sz\<rparr>" for a sz
    by (simp add: reset_for_process_def)
  show ?thesis using assms
    by (auto simp: ubrd_get_stack_def Let_def reset set split: if_splits outcome.splits)
qed

text \<open>No line of the map file and not all of \<open>/proc/self/stat\<close> overflow the buffer: then the scans stay inside it.\<close>

fun lines_fit :: "nat \<Rightarrow> string \<Rightarrow> bool" where
  "lines_fit i [] = True"
| "lines_fit i (c # cs) = (i < LINE_SIZE \<and> lines_fit (if c = CHR 0x0A then 0 else Suc i) cs)"

definition proc_fits :: "proc_env \<Rightarrow> bool" where
  "proc_fits pe \<longleftrightarrow> (\<forall>m. pe_maps pe = Some m \<longrightarrow> lines_fit 0 m) \<and> (\<forall>s. pe_stat pe = Some s \<longrightarrow> length s \<le> LINE_SIZE)"

lemma scan_maps_fits: "lines_fit i maps \<Longrightarrow> \<exists>r. scan_maps maps line i = Ok r"
proof (induction maps line i rule: scan_maps.induct)
  case (2 c cs line i)
  then show ?case by (cases "c = CHR 0x0A") (auto simp: line_put_def)
qed simp

lemma scan_stat_fits: "i + length stat \<le> LINE_SIZE \<Longrightarrow> \<exists>r. scan_stat stat line i j = Ok r"
  by (induction stat line i j rule: scan_stat.induct) (auto simp: line_put_def)

lemma ubrd_get_stack_fits:
  assumes "proc_fits pe"
  obtains r st' where "ubrd_get_stack pe st = Ok (r, st')"
proof -
  have "ubrd_get_main_thread_stack pe \<noteq> Fault"
  proof (cases "pe_maps pe")
    case (Some maps)
    then obtain line found where m: "scan_maps maps (pe_line pe) 0 = Ok (line, found)"
      using assms scan_maps_fits [of 0 maps "pe_line pe"] by (auto simp: proc_fits_def)
    show ?thesis
    proof (cases "pe_stat pe")
      case (Some stat)
      then obtain line' where "scan_stat stat (line[0 := NUL]) 0 0 = Ok line'"
        using assms scan_stat_fits [of 0 stat "line[0 := NUL]" 0] by (auto simp: proc_fits_def)
      then show ?thesis using m Some \<open>pe_maps pe = Some maps\<close> by (simp add: ubrd_get_main_thread_stack_def split: option.split)
    qed (use m Some in \<open>simp add: ubrd_get_main_thread_stack_def split: option.split\<close>)
  qed (simp add: ubrd_get_main_thread_stack_def)
  then have "\<exists>x. ubrd_get_stack pe st = Ok x"
    by (auto simp: ubrd_get_stack_def Let_def split: outcome.splits)
  then show ?thesis using that by auto
qed

section \<open>backtrace-helper.c: the frame buffer\<close>

text \<open>
  The caller's \<open>backtrace\<close> array as far as it is filled, and the number of frames that were
  skipped. \<open>returned_frames\<close> of the source is the length of \<open>bt_frames\<close>.
\<close>

record frame_buffer =
  bt_frames :: "u32 list"
  ignored_frames :: nat

definition add_backtrace_entry :: "u32 \<Rightarrow> nat \<Rightarrow> nat \<Rightarrow> frame_buffer \<Rightarrow> frame_buffer" where
  "add_backtrace_entry pc ignore_depth max_depth fb =
     (if ignored_frames fb < ignore_depth then fb\<lparr>ignored_frames := ignored_frames fb + 1\<rparr>
      else if length (bt_frames fb) \<ge> max_depth then fb
      else fb\<lparr>bt_frames := bt_frames fb @ [pc]\<rparr>)"

definition empty_frames :: frame_buffer where
  "empty_frames = \<lparr>bt_frames = [], ignored_frames = 0\<rparr>"

lemma add_backtrace_entry_bound:
  "length (bt_frames fb) \<le> max_depth \<Longrightarrow>
   length (bt_frames (add_backtrace_entry pc ign max_depth fb)) \<le> max_depth"
  by (simp add: add_backtrace_entry_def)

lemma add_backtrace_entry_ignored:
  "ignored_frames fb \<le> ign \<Longrightarrow> ignored_frames (add_backtrace_entry pc ign max_depth fb) \<le> ign"
  by (simp add: add_backtrace_entry_def)

text \<open>Every call makes progress while there is room: the measure of the unwinding loop.\<close>

definition frame_room :: "nat \<Rightarrow> nat \<Rightarrow> frame_buffer \<Rightarrow> nat" where
  "frame_room ign max_depth fb = (ign - ignored_frames fb) + (max_depth - length (bt_frames fb))"

lemma frame_room_decreases:
  "length (bt_frames fb) < max_depth \<Longrightarrow>
   frame_room ign max_depth (add_backtrace_entry pc ign max_depth fb) < frame_room ign max_depth fb"
  by (auto simp: frame_room_def add_backtrace_entry_def)

end
