(* ===== verification/ArmUnwind.thy ===== *)
theory ArmUnwind
  imports UnwindMem
begin

text \<open>
  The ARM unwinder of \<open>src/proprietary/external/libudf/unwind/arch-arm/backtrace-arm.c\<close>:
  the search of the exception index table, the byte stream of unwinding instructions, the
  abstract machine that executes them, and the loop that collects the frames.

  A function of the source that returns a bool and changes the register state in place returns
  the pair of both: the loop goes on to read the link register after a failed step, so the
  registers a failed step leaves behind matter.
\<close>

section \<open>State and surroundings\<close>

record unwind_state =
  gregs :: "nat \<Rightarrow> u32" \<comment> \<open>\<open>gregs[16]\<close>\<close>

definition R_SP :: nat where "R_SP = 13"
definition R_LR :: nat where "R_LR = 14"
definition R_PC :: nat where "R_PC = 15"

definition EXIDX_CANTUNWIND :: u32 where "EXIDX_CANTUNWIND = 1"

text \<open>
  What an unwinding run reads: the memory of the unwound task (\<open>ue_target\<close>), the memory of the
  unwinding process itself (\<open>ue_self\<close>, which \<open>try_get_word_stack\<close> always reads), what
  \<open>ubrd_get_stack\<close> finds in that process and its static variables, the map list, and Bionic's \<open>__gnu_Unwind_Find_exidx\<close>, which is not part of the
  repository: it maps a pc to the start and the entry count of the index table.
\<close>

record unwind_env =
  ue_target :: memory_image
  ue_self :: memory_image
  ue_mem :: memory
  ue_maps :: "map_info list"
  ue_proc :: proc_env
  ue_cache :: stack_cache
  ue_find_exidx :: "u32 \<Rightarrow> u32 \<times> u32"

definition get_word :: "unwind_env \<Rightarrow> u32 \<Rightarrow> u32 option" where
  "get_word e ptr = try_get_word (ue_target e) (ue_mem e) ptr"

text \<open>
  \<open>try_get_word_stack\<close> asks \<open>ubrd_get_stack\<close> for the bounds at every word. The static variables it leaves
  need not be carried on: the next call reports the same from them (\<open>ubrd_get_stack_again\<close>).
\<close>

definition get_word_stack :: "unwind_env \<Rightarrow> u32 \<Rightarrow> u32 outcome" where
  "get_word_stack e ptr = bindo (try_get_word_stack (ue_self e) (ue_proc e) (ue_cache e) ptr) (\<lambda>(w, cache). w)"

definition set_reg :: "unwind_state \<Rightarrow> nat \<Rightarrow> u32 \<Rightarrow> unwind_state" where
  "set_reg st r v = st\<lparr>gregs := (gregs st)(r := v)\<rparr>"

lemma gregs_set_reg [simp]: "gregs (set_reg st r v) = (gregs st)(r := v)"
  by (simp add: set_reg_def)

section \<open>The exception index table\<close>

text \<open>Transforms a 31-bit place-relative offset to an absolute address.\<close>

definition prel_to_absolute :: "u32 \<Rightarrow> u32 \<Rightarrow> u32" where
  "prel_to_absolute place prel_offset = place + signed_drop_bit 1 (push_bit 1 prel_offset)"

definition find_exidx :: "unwind_env \<Rightarrow> u32 \<Rightarrow> u32 \<times> u32" where
  "find_exidx e pc = ue_find_exidx e pc"

text \<open>One round of the binary search at \<open>index\<close>: go on to the left, to the right, or stop with a handler.\<close>

datatype probe = ProbeLeft | ProbeRight | ProbeStop u32

definition exidx_probe :: "unwind_env \<Rightarrow> u32 \<Rightarrow> u32 \<Rightarrow> u32 \<Rightarrow> u32 \<Rightarrow> probe" where
  "exidx_probe e exidx_start exidx_size pc index =
     (let entry = exidx_start + index * 8 in
      case get_word e entry of None \<Rightarrow> ProbeStop 0
      | Some entry_prel_pc \<Rightarrow>
        if pc < prel_to_absolute entry entry_prel_pc then ProbeLeft
        else
          (let found =
             (let entry_handler_ptr = entry + 4 in
              case get_word e entry_handler_ptr of None \<Rightarrow> ProbeStop 0
              | Some entry_handler \<Rightarrow>
                if entry_handler AND 0x80000000 \<noteq> 0 then ProbeStop entry_handler_ptr
                else if entry_handler \<noteq> EXIDX_CANTUNWIND
                  then ProbeStop (prel_to_absolute entry_handler_ptr entry_handler)
                else ProbeStop 0)
           in if index + 1 < exidx_size then
                (let next_entry = entry + 8 in
                 case get_word e next_entry of None \<Rightarrow> ProbeStop 0
                 | Some next_entry_prel_pc \<Rightarrow>
                   if pc \<ge> prel_to_absolute next_entry next_entry_prel_pc then ProbeRight else found)
              else found))"

fun exidx_search :: "nat \<Rightarrow> unwind_env \<Rightarrow> u32 \<Rightarrow> u32 \<Rightarrow> u32 \<Rightarrow> u32 \<Rightarrow> u32 \<Rightarrow> u32 option" where
  "exidx_search 0 e exidx_start exidx_size pc low high = None"
| "exidx_search (Suc fuel) e exidx_start exidx_size pc low high =
     (if low < high then
        (let index = (low + high) div 2 in
         case exidx_probe e exidx_start exidx_size pc index of
           ProbeLeft \<Rightarrow> exidx_search fuel e exidx_start exidx_size pc low index
         | ProbeRight \<Rightarrow> exidx_search fuel e exidx_start exidx_size pc (index + 1) high
         | ProbeStop handler \<Rightarrow> Some handler)
      else Some 0)"

definition exidx_section :: "unwind_env \<Rightarrow> u32 \<Rightarrow> u32 \<times> u32" where
  "exidx_section e pc =
     (if mem_tid (ue_mem e) < 0 then find_exidx e pc
      else case find_map_info (ue_maps e) pc of
        None \<Rightarrow> (0, 0)
      | Some mi \<Rightarrow> (case mi_data mi of None \<Rightarrow> (0, 0) | Some data \<Rightarrow> data))"

text \<open>\<open>None\<close>: the search is still running when its fuel, one more than the table size, is spent.\<close>

definition get_exception_handler :: "unwind_env \<Rightarrow> u32 \<Rightarrow> u32 option" where
  "get_exception_handler e pc =
     (if pc = 0 then Some 0
      else
        (let (exidx_start, exidx_size) = exidx_section e pc in
         if exidx_start \<noteq> 0
         then exidx_search (Suc (unat exidx_size)) e exidx_start exidx_size pc 0 exidx_size
         else Some 0))"

section \<open>The byte stream\<close>

record byte_stream =
  bs_ptr :: u32
  bs_word :: u32

definition try_next_byte :: "unwind_env \<Rightarrow> byte_stream \<Rightarrow> (u8 \<times> byte_stream) option" where
  "try_next_byte e bs =
     (let k = bs_ptr bs AND 3;
          advance = (\<lambda>b. b\<lparr>bs_ptr := bs_ptr b + 1\<rparr>)
      in if k = 0 then
           (case get_word e (bs_ptr bs) of
              None \<Rightarrow> None
            | Some w \<Rightarrow> Some (ucast (drop_bit 24 w), advance (bs\<lparr>bs_word := w\<rparr>)))
         else if k = 1 then Some (ucast (drop_bit 16 (bs_word bs)), advance bs)
         else if k = 2 then Some (ucast (drop_bit 8 (bs_word bs)), advance bs)
         else Some (ucast (bs_word bs), advance bs))"

section \<open>Popping registers\<close>

fun pop_loop ::
  "unwind_env \<Rightarrow> u32 \<Rightarrow> nat list \<Rightarrow> u32 \<Rightarrow> bool \<Rightarrow> unwind_state \<Rightarrow>
   (bool \<times> u32 \<times> bool \<times> unwind_state) outcome" where
  "pop_loop e msk [] sp sp_updated st = Ok (True, sp, sp_updated, st)"
| "pop_loop e msk (i # is) sp sp_updated st =
     (if bit msk i then
        (case get_word_stack e sp of
           Fault \<Rightarrow> Fault
         | Fail \<Rightarrow> Ok (False, sp, sp_updated, st)
         | Ok v \<Rightarrow> pop_loop e msk is (sp + 4) (sp_updated \<or> i = R_SP) (set_reg st i v))
      else pop_loop e msk is sp sp_updated st)"

definition try_pop_registers ::
  "unwind_env \<Rightarrow> unwind_state \<Rightarrow> u32 \<Rightarrow> (bool \<times> unwind_state) outcome" where
  "try_pop_registers e st msk =
     bindo (pop_loop e msk [0..<16] (gregs st R_SP) False st) (\<lambda>(ok, sp, sp_updated, st').
       Ok (ok, if ok \<and> \<not> sp_updated then set_reg st' R_SP sp else st'))"

text \<open>The search of at most 16 stack words for the current pc: \<open>Ok None\<close> when none matches.\<close>

fun find_pc_on_stack :: "unwind_env \<Rightarrow> nat \<Rightarrow> u32 \<Rightarrow> u32 \<Rightarrow> u32 option outcome" where
  "find_pc_on_stack e 0 sp pc = Ok None"
| "find_pc_on_stack e (Suc n) sp pc =
     bindo (get_word_stack e sp) (\<lambda>v.
       if v = pc then Ok (Some sp) else find_pc_on_stack e n (sp + 4) pc)"

definition try_pop_Stack_ForNotSaveInASM ::
  "unwind_env \<Rightarrow> unwind_state \<Rightarrow> (bool \<times> unwind_state) outcome" where
  "try_pop_Stack_ForNotSaveInASM e st =
     (case get_word_stack e (gregs st R_SP - 4) of
        Fault \<Rightarrow> Fault
      | Fail \<Rightarrow> Ok (False, st)
      | Ok tmp \<Rightarrow>
          if tmp = gregs st R_PC then Ok (True, st)
          else
            (case find_pc_on_stack e 16 (gregs st R_SP) (gregs st R_PC) of
               Fault \<Rightarrow> Fault
             | Fail \<Rightarrow> Ok (False, st)
             | Ok None \<Rightarrow> Ok (True, st)
             | Ok (Some sp) \<Rightarrow> Ok (True, set_reg st R_SP (sp + 4))))"

section \<open>The unwinding instructions\<close>

text \<open>
  The effect of one instruction: go on with the remaining byte count, the registers, the stream
  and the \<open>pc_was_set\<close> flag; finish; return false with the registers as they are; or crash.
\<close>

datatype step_result =
    StepNext nat unwind_state byte_stream bool
  | StepFinish unwind_state bool
  | StepRefuse unwind_state
  | StepCrash

definition with_op2 ::
  "unwind_env \<Rightarrow> nat \<Rightarrow> unwind_state \<Rightarrow> byte_stream \<Rightarrow>
   (nat \<Rightarrow> u8 \<Rightarrow> byte_stream \<Rightarrow> step_result) \<Rightarrow> step_result" where
  "with_op2 e sz st bs k =
     (if sz = 0 then StepRefuse st
      else case try_next_byte e bs of
        None \<Rightarrow> StepRefuse st
      | Some (op2, bs') \<Rightarrow> k (sz - 1) op2 bs')"

definition pop_step ::
  "unwind_env \<Rightarrow> nat \<Rightarrow> unwind_state \<Rightarrow> byte_stream \<Rightarrow> u32 \<Rightarrow> bool \<Rightarrow> step_result" where
  "pop_step e sz st bs msk pc_set =
     (case try_pop_registers e st msk of
        Ok (True, st') \<Rightarrow> StepNext sz st' bs pc_set
      | Ok (False, st') \<Rightarrow> StepRefuse st'
      | _ \<Rightarrow> StepCrash)"

definition add_sp :: "unwind_state \<Rightarrow> u32 \<Rightarrow> unwind_state" where
  "add_sp st d = set_reg st R_SP (gregs st R_SP + d)"

definition popcount8 :: "u8 \<Rightarrow> nat" where
  "popcount8 w = length (filter (bit w) [0..<8])"

text \<open>
  The do-while loop of the uleb128 operand of \<open>0xb2\<close>. The shift count is not bounded by the
  source; a left shift by 32 or more yields 0, as the ARM register-controlled shift does.
\<close>

fun uleb_loop ::
  "unwind_env \<Rightarrow> nat \<Rightarrow> u32 \<Rightarrow> nat \<Rightarrow> byte_stream \<Rightarrow> (u32 \<times> nat \<times> byte_stream) option" where
  "uleb_loop e 0 val shift bs = None"
| "uleb_loop e (Suc sz) val shift bs =
     (case try_next_byte e bs of
        None \<Rightarrow> None
      | Some (op2, bs') \<Rightarrow>
          let val' = val OR push_bit shift (ucast op2 AND 0x7f)
          in if op2 AND 0x80 \<noteq> 0 then uleb_loop e sz val' (shift + 7) bs'
             else Some (val', sz, bs'))"

definition reg_mask_r4 :: "u8 \<Rightarrow> u32" where
  "reg_mask_r4 op = drop_bit (7 - unat (op AND 0x07)) 0x0ff0 AND 0x0ff0"

definition exec_op ::
  "unwind_env \<Rightarrow> nat \<Rightarrow> u8 \<Rightarrow> unwind_state \<Rightarrow> byte_stream \<Rightarrow> bool \<Rightarrow> step_result" where
  "exec_op e sz op st bs pc_set =
     (if op AND 0xc0 = 0x00 then
        StepNext sz (add_sp st (push_bit 2 (ucast op AND 0x3f) + 4)) bs pc_set
      else if op AND 0xc0 = 0x40 then
        StepNext sz (set_reg st R_SP (gregs st R_SP - push_bit 2 (ucast op AND 0x3f) - 4)) bs pc_set
      else if op AND 0xf0 = 0x80 then
        with_op2 e sz st bs (\<lambda>sz op2 bs.
          let msk = push_bit 12 (ucast op AND 0x0f) OR push_bit 4 (ucast op2) in
          if msk \<noteq> 0 then pop_step e sz st bs msk (pc_set \<or> bit msk R_PC)
          else StepRefuse st)
      else if op AND 0xf0 = 0x90 then
        (if op \<noteq> 0x9d \<and> op \<noteq> 0x9f then
           (if op = 0x97 \<and> gregs st (unat (op AND 0x0f)) AND 0xffff0000 = 0
            then StepNext sz (set_reg st R_SP (gregs st 0x0c)) bs pc_set
            else StepNext sz (set_reg st R_SP (gregs st (unat (op AND 0x0f)))) bs pc_set)
         else StepRefuse st)
      else if op AND 0xf8 = 0xa0 then pop_step e sz st bs (reg_mask_r4 op) pc_set
      else if op AND 0xf8 = 0xa8 then pop_step e sz st bs (reg_mask_r4 op OR 0x4000) pc_set
      else if op = 0xb0 then StepFinish st pc_set
      else if op = 0xb1 then
        with_op2 e sz st bs (\<lambda>sz op2 bs.
          if op2 \<noteq> 0x00 \<and> op2 AND 0xf0 = 0x00 then pop_step e sz st bs (ucast op2) pc_set
          else StepRefuse st)
      else if op = 0xb2 then
        (case uleb_loop e sz 0 0 bs of
           None \<Rightarrow> StepRefuse st
         | Some (val, sz', bs') \<Rightarrow>
             StepNext sz' (add_sp st (push_bit 2 val + 0x204)) bs' pc_set)
      else if op = 0xb3 then
        with_op2 e sz st bs (\<lambda>sz op2 bs.
          StepNext sz (add_sp st ((ucast op2 AND 0x0f) * 8 + 12)) bs pc_set)
      else if op AND 0xf8 = 0xb8 then
        StepNext sz (add_sp st ((ucast op AND 0x07) * 8 + 12)) bs pc_set
      else if op AND 0xf8 = 0xc0 then
        StepNext sz (add_sp st ((ucast op AND 0x07) * 8 + 8)) bs pc_set
      else if op = 0xc6 then
        with_op2 e sz st bs (\<lambda>sz op2 bs.
          StepNext sz (add_sp st ((ucast op2 AND 0x0f) * 8 + 8)) bs pc_set)
      else if op = 0xc7 then
        with_op2 e sz st bs (\<lambda>sz op2 bs.
          if op2 \<noteq> 0x00 \<and> op2 AND 0xf0 = 0x00
          then StepNext sz (add_sp st (of_nat (popcount8 op2) * 4)) bs pc_set
          else StepRefuse st)
      else if op = 0xc8 then
        with_op2 e sz st bs (\<lambda>sz op2 bs.
          StepNext sz (add_sp st ((ucast op2 AND 0x0f) * 8 + 8)) bs pc_set)
      else if op = 0xc9 then
        with_op2 e sz st bs (\<lambda>sz op2 bs.
          StepNext sz (add_sp st ((ucast op2 AND 0x0f) * 8 + 8)) bs pc_set)
      else if op AND 0xf8 = 0xd0 then
        StepNext sz (add_sp st ((ucast op AND 0x07) * 8 + 8)) bs pc_set
      else StepRefuse st)"

section \<open>The built-in personality routines\<close>

lemma uleb_loop_size: "uleb_loop e sz val shift bs = Some (v, sz', bs') \<Longrightarrow> sz' < sz"
  by (induction e sz val shift bs arbitrary: v sz' bs' rule: uleb_loop.induct)
     (force simp: Let_def split: option.splits if_splits)+

lemma pop_step_NextD: "pop_step e sz st bs msk pc_set = StepNext n st' bs' pc' \<Longrightarrow> n = sz"
  by (auto simp: pop_step_def split: outcome.splits bool.splits)

lemma with_op2_NextD:
  assumes "with_op2 e sz st bs k = StepNext n st' bs' pc'"
  obtains op2 bs2 where "0 < sz" "try_next_byte e bs = Some (op2, bs2)"
    "k (sz - 1) op2 bs2 = StepNext n st' bs' pc'"
  using assms by (auto simp: with_op2_def split: if_splits option.splits)

lemma exec_op_size: "exec_op e sz op st bs pc_set = StepNext n st' bs' pc' \<Longrightarrow> n \<le> sz"
  by (auto simp: exec_op_def Let_def split: if_splits option.splits
      elim!: with_op2_NextD dest!: uleb_loop_size pop_step_NextD)

datatype pr_result = PrDone unwind_state bool | PrRefuse unwind_state | PrCrash

function pr_loop ::
  "unwind_env \<Rightarrow> nat \<Rightarrow> unwind_state \<Rightarrow> byte_stream \<Rightarrow> bool \<Rightarrow> pr_result" where
  "pr_loop e 0 st bs pc_set = PrDone st pc_set"
| "pr_loop e (Suc sz) st bs pc_set =
     (case try_next_byte e bs of
        None \<Rightarrow> PrRefuse st
      | Some (op, bs') \<Rightarrow>
          (case exec_op e sz op st bs' pc_set of
             StepNext sz' st' bs'' pc' \<Rightarrow> pr_loop e sz' st' bs'' pc'
           | StepFinish st' pc' \<Rightarrow> PrDone st' pc'
           | StepRefuse st' \<Rightarrow> PrRefuse st'
           | StepCrash \<Rightarrow> PrCrash))"
  by pat_completeness auto
termination
  by (relation "measure (\<lambda>(e, sz, st, bs, pc). sz)") (auto dest!: exec_op_size)

definition pr_size :: "unwind_env \<Rightarrow> byte_stream \<Rightarrow> nat \<Rightarrow> (nat \<times> byte_stream) option" where
  "pr_size e bs pr_index =
     (if pr_index = 0 then Some (3, bs)
      else if pr_index = 1 \<or> pr_index = 2 then
        (case try_next_byte e bs of None \<Rightarrow> None
         | Some (size_byte, bs') \<Rightarrow> Some (unat size_byte * 4 + 2, bs'))
      else None)"

definition execute_personality_routine ::
  "unwind_env \<Rightarrow> unwind_state \<Rightarrow> byte_stream \<Rightarrow> nat \<Rightarrow> (bool \<times> unwind_state) outcome" where
  "execute_personality_routine e st bs pr_index =
     (case pr_size e bs pr_index of
        None \<Rightarrow> Ok (False, st)
      | Some (sz, bs') \<Rightarrow>
          (case pr_loop e sz st bs' False of
             PrDone st' pc_was_set \<Rightarrow>
               Ok (True, if pc_was_set then st' else set_reg st' R_PC (gregs st' R_LR))
           | PrRefuse st' \<Rightarrow> Ok (False, st')
           | PrCrash \<Rightarrow> Fault))"

section \<open>Rewinding the program counter\<close>

definition try_get_half_word :: "unwind_env \<Rightarrow> u32 \<Rightarrow> u16 option" where
  "try_get_half_word e pc =
     (case get_word e (pc AND NOT 2) of
        None \<Rightarrow> None
      | Some w \<Rightarrow> Some (if pc AND 2 \<noteq> 0 then ucast (drop_bit 16 w) else ucast (w AND 0xffff)))"

definition half_word_has :: "unwind_env \<Rightarrow> u32 \<Rightarrow> u16 \<Rightarrow> bool" where
  "half_word_has e pc bits =
     (case try_get_half_word e pc of None \<Rightarrow> False | Some h \<Rightarrow> h AND bits = bits)"

definition rewind_pc_arch :: "unwind_env \<Rightarrow> u32 \<Rightarrow> u32" where
  "rewind_pc_arch e pc =
     (if pc AND 1 \<noteq> 0 then
        (if half_word_has e (pc - 5) 0xf000 \<and> half_word_has e (pc - 3) 0xe000
         then pc - 4 else pc - 2)
      else pc - 4)"

section \<open>Collecting the frames\<close>

text \<open>
  One round of the loop of \<open>unwind_backtrace_common\<close>. \<open>UwHang\<close> stands for an index search
  that does not end.
\<close>

datatype uw_result =
    UwContinue unwind_state frame_buffer
  | UwBreak unwind_state frame_buffer
  | UwCrash
  | UwHang

definition unwind_step ::
  "unwind_env \<Rightarrow> nat \<Rightarrow> nat \<Rightarrow> bool \<Rightarrow> unwind_state \<Rightarrow> frame_buffer \<Rightarrow> uw_result" where
  "unwind_step e ign max_depth first st fb0 =
     (if gregs st R_PC < 0x100000 then UwBreak st fb0
      else
        (let pc = (if first then gregs st R_PC else rewind_pc_arch e (gregs st R_PC));
             fb = add_backtrace_entry pc ign max_depth fb0
         in case get_exception_handler e pc of
              None \<Rightarrow> UwHang
            | Some handler \<Rightarrow>
              if handler = 0 then
                (if first \<and> gregs st R_LR \<noteq> 0 \<and> gregs st R_LR \<noteq> gregs st R_PC
                 then UwContinue (set_reg st R_PC (gregs st R_LR)) fb
                 else UwBreak st fb)
              else
                (case try_next_byte e \<lparr>bs_ptr = handler, bs_word = 0\<rparr> of
                   None \<Rightarrow> UwBreak st fb
                 | Some (pr, bs) \<Rightarrow>
                   if pr AND 0xf0 \<noteq> 0x80 then UwBreak st fb
                   else
                     (case execute_personality_routine e st bs (unat (pr AND 0x0f)) of
                        Fault \<Rightarrow> UwCrash
                      | Fail \<Rightarrow> UwBreak st fb
                      | Ok (False, st1) \<Rightarrow> UwBreak st1 fb
                      | Ok (True, st1) \<Rightarrow>
                        (case (if length (bt_frames fb) = 1
                               then try_pop_Stack_ForNotSaveInASM e st1 else Ok (True, st1)) of
                           Ok (_, st2) \<Rightarrow>
                             if gregs st2 R_PC = 0 then UwBreak st2 fb else UwContinue st2 fb
                         | _ \<Rightarrow> UwCrash)))))"

datatype uw_end = UwEnd unwind_state frame_buffer | UwEndCrash | UwEndHang

text \<open>The fuel bounds the rounds; \<open>UwEndHang\<close> when it is spent.\<close>

fun unwind_loop ::
  "nat \<Rightarrow> unwind_env \<Rightarrow> nat \<Rightarrow> nat \<Rightarrow> bool \<Rightarrow> unwind_state \<Rightarrow> frame_buffer \<Rightarrow> uw_end" where
  "unwind_loop 0 e ign max_depth first st fb = UwEndHang"
| "unwind_loop (Suc fuel) e ign max_depth first st fb =
     (if length (bt_frames fb) < max_depth then
        (case unwind_step e ign max_depth first st fb of
           UwContinue st' fb' \<Rightarrow> unwind_loop fuel e ign max_depth False st' fb'
         | UwBreak st' fb' \<Rightarrow> UwEnd st' fb'
         | UwCrash \<Rightarrow> UwEndCrash
         | UwHang \<Rightarrow> UwEndHang)
      else UwEnd st fb)"

definition add_lr_frame ::
  "unwind_env \<Rightarrow> nat \<Rightarrow> nat \<Rightarrow> unwind_state \<Rightarrow> frame_buffer \<Rightarrow> frame_buffer" where
  "add_lr_frame e ign max_depth st fb =
     (if length (bt_frames fb) < max_depth \<and> gregs st R_LR \<noteq> 0
         \<and> gregs st R_LR \<noteq> gregs st R_PC \<and> is_executable_map (ue_maps e) (gregs st R_LR)
      then add_backtrace_entry (rewind_pc_arch e (gregs st R_LR)) ign max_depth fb
      else fb)"

datatype uw_outcome = UwFrames frame_buffer | UwFault | UwNonterm

definition unwind_backtrace_common ::
  "unwind_env \<Rightarrow> unwind_state \<Rightarrow> nat \<Rightarrow> nat \<Rightarrow> uw_outcome" where
  "unwind_backtrace_common e st ign max_depth =
     (case unwind_loop (Suc (ign + max_depth)) e ign max_depth True st empty_frames of
        UwEnd st' fb \<Rightarrow> UwFrames (add_lr_frame e ign max_depth st' fb)
      | UwEndCrash \<Rightarrow> UwFault
      | UwEndHang \<Rightarrow> UwNonterm)"

text \<open>
  The three entry points: from the registers of the calling thread, from the machine context
  of a signal, and from the registers \<open>PTRACE_GETREGS\<close> reports (\<open>None\<close> when it fails, for
  which the C function returns -1).
\<close>

definition local_env :: "unwind_env \<Rightarrow> map_info list \<Rightarrow> unwind_env" where
  "local_env e milist = e\<lparr>ue_target := ue_self e, ue_mem := init_memory milist, ue_maps := milist\<rparr>"

definition regs_of_list :: "u32 list \<Rightarrow> unwind_state" where
  "regs_of_list rs = \<lparr>gregs = (\<lambda>i. if i < length rs then rs ! i else 0)\<rparr>"

definition unwind_backtrace_signal_arch_selfnogcc ::
  "unwind_env \<Rightarrow> u32 list \<Rightarrow> map_info list \<Rightarrow> nat \<Rightarrow> nat \<Rightarrow> uw_outcome" where
  "unwind_backtrace_signal_arch_selfnogcc e cpu_regs milist ign max_depth =
     unwind_backtrace_common (local_env e milist) (regs_of_list cpu_regs) ign max_depth"

record mcontext =
  arm_r :: "u32 list" \<comment> \<open>\<open>arm_r0\<close> to \<open>arm_r10\<close>\<close>
  arm_fp :: u32
  arm_ip :: u32
  arm_sp :: u32
  arm_lr :: u32
  arm_pc :: u32

definition unwind_backtrace_signal_arch ::
  "unwind_env \<Rightarrow> mcontext \<Rightarrow> map_info list \<Rightarrow> nat \<Rightarrow> nat \<Rightarrow> uw_outcome" where
  "unwind_backtrace_signal_arch e uc milist ign max_depth =
     unwind_backtrace_common (local_env e milist)
       (regs_of_list (take 11 (arm_r uc) @ [arm_fp uc, arm_ip uc, arm_sp uc, arm_lr uc, arm_pc uc]))
       ign max_depth"

definition unwind_backtrace_ptrace_arch ::
  "unwind_env \<Rightarrow> int \<Rightarrow> u32 list option \<Rightarrow> map_info list \<Rightarrow> nat \<Rightarrow> nat \<Rightarrow> uw_outcome option" where
  "unwind_backtrace_ptrace_arch e tid uregs milist ign max_depth =
     (case uregs of None \<Rightarrow> None
      | Some rs \<Rightarrow>
          Some (unwind_backtrace_common (e\<lparr>ue_mem := init_memory_ptrace tid, ue_maps := milist\<rparr>)
                  (regs_of_list (take 16 rs)) ign max_depth))"

definition libudf_unwind_backtrace :: "unwind_env \<Rightarrow> u32 list \<Rightarrow> nat \<Rightarrow> nat \<Rightarrow> uw_outcome" where
  "libudf_unwind_backtrace e cpu_regs ign max_depth =
     unwind_backtrace_signal_arch_selfnogcc e cpu_regs acquire_my_map_info_list ign max_depth"

section \<open>backtrace.c: collecting frames from the compiler's unwinder\<close>

text \<open>
  \<open>_Unwind_Backtrace\<close> belongs to the compiler's runtime: it calls the callback once per frame,
  with the instruction pointers \<open>ips\<close>, until the callback asks it to stop. The result says
  whether it was the callback that stopped it.
\<close>

definition unwind_backtrace_callback ::
  "unwind_env \<Rightarrow> nat \<Rightarrow> nat \<Rightarrow> u32 \<Rightarrow> frame_buffer \<Rightarrow> bool \<times> frame_buffer" where
  "unwind_backtrace_callback e ign max_depth pc fb =
     (let fb' = (if pc \<noteq> 0 then add_backtrace_entry (rewind_pc_arch e pc) ign max_depth fb else fb)
      in (length (bt_frames fb') < max_depth, fb'))"

fun run_callback ::
  "unwind_env \<Rightarrow> nat \<Rightarrow> nat \<Rightarrow> u32 list \<Rightarrow> frame_buffer \<Rightarrow> bool \<times> frame_buffer" where
  "run_callback e ign max_depth [] fb = (True, fb)"
| "run_callback e ign max_depth (pc # ips) fb =
     (let (go, fb') = unwind_backtrace_callback e ign max_depth pc fb
      in if go then run_callback e ign max_depth ips fb' else (False, fb'))"

definition libudf_unwind_backtrace_gcc ::
  "unwind_env \<Rightarrow> u32 list \<Rightarrow> bool \<Rightarrow> nat \<Rightarrow> nat \<Rightarrow> int \<times> frame_buffer" where
  "libudf_unwind_backtrace_gcc e ips at_end ign max_depth =
     (let (_, fb) = run_callback (local_env e acquire_my_map_info_list) ign max_depth ips empty_frames
      in if bt_frames fb \<noteq> [] then (int (length (bt_frames fb)), fb)
         else (if at_end then 0 else -1, fb))"

end
