(* ===== verification/ArmProps.thy ===== *)
theory ArmProps
  imports ArmUnwind
begin

text \<open>
  What the ARM unwinder promises: place-relative offsets decode what they encode, the index
  search finds the entry that covers the pc, registers are popped in order, instructions agree
  with the table of the ARM exception handling ABI, and the collection loop ends within bounds.
\<close>

section \<open>Place-relative offsets\<close>

lemma prel_shift_bit:
  "n < 32 \<Longrightarrow> bit (signed_drop_bit 1 (push_bit 1 (d :: u32))) n = bit d (min n 30)"
  unfolding bit_signed_drop_bit_iff bit_push_bit_iff
  by (cases "n = 31") (auto simp: min_def not_le)

lemma sint_31_bits:
  assumes "- (2 ^ 30) \<le> sint (d :: u32)" "sint d < 2 ^ 30"
  shows "bit d 31 = bit d 30"
proof -
  have "signed_take_bit 30 (sint d) = sint d"
    using assms by (simp only: signed_take_bit_int_eq_self_iff)
  then have "bit (sint d) 31 = bit (signed_take_bit 30 (sint d)) 31" by (rule arg_cong [OF sym])
  then have "bit (sint d) 31 = bit (sint d) 30" by (simp add: bit_signed_take_bit_iff)
  then show ?thesis by (simp add: bit_sint_iff)
qed

lemma prel_shift_id:
  assumes "- (2 ^ 30) \<le> sint (d :: u32)" "sint d < 2 ^ 30"
  shows "signed_drop_bit 1 (push_bit 1 d) = d"
proof (rule bit_word_eqI)
  fix n assume "n < LENGTH(32)"
  then have "n < 32" by simp
  then have "n < 31 \<or> n = 31" by linarith
  then show "bit (signed_drop_bit 1 (push_bit 1 d)) n = bit d n"
    unfolding prel_shift_bit [OF \<open>n < 32\<close>] using sint_31_bits [OF assms] by auto
qed

lemma push_bit_mask31: "push_bit 1 ((d :: u32) AND 0x7fffffff) = push_bit 1 d"
proof -
  have m: "(0x7fffffff :: u32) = mask 31"
    by (simp add: mask_eq_exp_minus_1)
  show ?thesis
  proof (rule bit_word_eqI)
    fix n assume "n < LENGTH(32)"
    then show "bit (push_bit 1 (d AND 0x7fffffff)) n = bit (push_bit 1 d) n"
      unfolding bit_push_bit_iff bit_and_iff m bit_mask_iff by auto
  qed
qed

text \<open>The encoder the linker applies (\<open>R_ARM_PREL31\<close>): the low 31 bits of the distance.\<close>

definition prel_encode :: "u32 \<Rightarrow> u32 \<Rightarrow> u32" where
  "prel_encode place target = (target - place) AND 0x7fffffff"

text \<open>
  A place-relative offset decodes to the address it was computed from whenever the target
  lies within 2^30 bytes of the place, on either side.
\<close>

theorem prel_roundtrip:
  assumes "- (2 ^ 30) \<le> sint (target - place)" "sint (target - place) < 2 ^ 30"
  shows "prel_to_absolute place (prel_encode place target) = target"
  using prel_shift_id [OF assms]
  by (simp only: prel_to_absolute_def prel_encode_def push_bit_mask31) simp

theorem prel_roundtrip_witness:
  "prel_to_absolute 0x8000 (prel_encode 0x8000 0x7f00) = 0x7f00"
  by (rule prel_roundtrip) simp_all

section \<open>The index search\<close>

lemma of_nat_less_u32:
  "a < 4294967296 \<Longrightarrow> b < 4294967296 \<Longrightarrow> (of_nat a :: u32) < of_nat b \<longleftrightarrow> a < b"
  by (simp add: word_less_nat_alt unat_of_nat)

lemma of_nat_mid_u32:
  assumes "a < 2147483648" "b < 2147483648"
  shows "((of_nat a :: u32) + of_nat b) div 2 = of_nat ((a + b) div 2)"
proof -
  have "unat (((of_nat a :: u32) + of_nat b) div 2) = (a + b) div 2"
    using assms by (simp add: unat_div unat_word_ariths unat_of_nat)
  then have "(word_of_nat (unat (((of_nat a :: u32) + of_nat b) div 2)) :: u32) = of_nat ((a + b) div 2)"
    by (rule arg_cong)
  then show ?thesis by simp
qed

definition entry_addr :: "u32 \<Rightarrow> nat \<Rightarrow> u32" where
  "entry_addr tab i = tab + of_nat i * 8"

definition entry_pc :: "unwind_env \<Rightarrow> u32 \<Rightarrow> nat \<Rightarrow> u32" where
  "entry_pc e tab i =
     prel_to_absolute (entry_addr tab i) (the (get_word e (entry_addr tab i)))"

definition entry_handler :: "unwind_env \<Rightarrow> u32 \<Rightarrow> nat \<Rightarrow> u32" where
  "entry_handler e tab i =
     (let a = entry_addr tab i + 4; h = the (get_word e a) in
      if h AND 0x80000000 \<noteq> 0 then a
      else if h \<noteq> EXIDX_CANTUNWIND then prel_to_absolute a h else 0)"

definition table_readable :: "unwind_env \<Rightarrow> u32 \<Rightarrow> nat \<Rightarrow> bool" where
  "table_readable e tab n \<longleftrightarrow>
     (\<forall>i < n. get_word e (entry_addr tab i) \<noteq> None \<and> get_word e (entry_addr tab i + 4) \<noteq> None)"

definition table_sorted :: "unwind_env \<Rightarrow> u32 \<Rightarrow> nat \<Rightarrow> bool" where
  "table_sorted e tab n \<longleftrightarrow> (\<forall>i j. i < j \<longrightarrow> j < n \<longrightarrow> entry_pc e tab i \<le> entry_pc e tab j)"

text \<open>The entry that covers a pc: the last one whose function starts at or before it.\<close>

definition entry_covers :: "unwind_env \<Rightarrow> u32 \<Rightarrow> nat \<Rightarrow> u32 \<Rightarrow> nat \<Rightarrow> bool" where
  "entry_covers e tab n pc i \<longleftrightarrow>
     i < n \<and> entry_pc e tab i \<le> pc \<and> (i + 1 < n \<longrightarrow> pc < entry_pc e tab (i + 1))"

lemma exidx_probe_eq:
  assumes r: "table_readable e tab n" and i: "i < n" and n: "n < 2147483648"
  shows "exidx_probe e tab (of_nat n) pc (of_nat i) =
     (if pc < entry_pc e tab i then ProbeLeft
      else if i + 1 < n \<and> entry_pc e tab (i + 1) \<le> pc then ProbeRight
      else ProbeStop (entry_handler e tab i))"
proof -
  obtain p h where p: "get_word e (entry_addr tab i) = Some p"
    and h: "get_word e (entry_addr tab i + 4) = Some h"
    using r i by (auto simp: table_readable_def)
  have nxt: "entry_addr tab i + 8 = entry_addr tab (i + 1)"
    by (simp add: entry_addr_def algebra_simps)
  have lt: "of_nat i + 1 < (of_nat n :: u32) \<longleftrightarrow> i + 1 < n"
    using of_nat_less_u32 [of "i + 1" n] i n by (simp add: add.commute)
  show ?thesis
  proof (cases "i + 1 < n")
    case True
    then obtain q where "get_word e (entry_addr tab (i + 1)) = Some q"
      using r by (auto simp: table_readable_def)
    with True p h nxt lt show ?thesis
      unfolding exidx_probe_def entry_pc_def entry_handler_def Let_def
      unfolding entry_addr_def [symmetric] by (auto simp: not_less)
  next
    case False
    with p h nxt lt show ?thesis
      unfolding exidx_probe_def entry_pc_def entry_handler_def Let_def
      unfolding entry_addr_def [symmetric] by simp
  qed
qed

lemma entry_covers_unique:
  assumes s: "table_sorted e tab n" and "entry_covers e tab n pc i" "entry_covers e tab n pc j"
  shows "i = j"
proof -
  have aux: False if "a < b" "entry_covers e tab n pc a" "entry_covers e tab n pc b" for a b
  proof -
    have "entry_pc e tab (a + 1) \<le> entry_pc e tab b"
      using s that by (cases "a + 1 = b") (auto simp: table_sorted_def entry_covers_def)
    then show False using that by (auto simp: entry_covers_def)
  qed
  then show ?thesis using assms by (metis linorder_neqE_nat)
qed

lemma exidx_search_finds:
  assumes r: "table_readable e tab n" and s: "table_sorted e tab n"
    and n: "n < 2147483648" and c: "entry_covers e tab n pc i"
  shows "l \<le> i \<Longrightarrow> i < h \<Longrightarrow> h \<le> n \<Longrightarrow> h - l < fuel \<Longrightarrow>
    exidx_search fuel e tab (of_nat n) pc (of_nat l) (of_nat h) = Some (entry_handler e tab i)"
proof (induction fuel arbitrary: l h)
  case 0
  then show ?case by simp
next
  case (Suc fuel)
  define m where "m = (l + h) div 2"
  have lm: "l \<le> m" "m < h" "m < n" using Suc.prems by (auto simp: m_def)
  have lh: "(of_nat l :: u32) < of_nat h" using Suc.prems n by (simp add: of_nat_less_u32)
  have mid: "((of_nat l :: u32) + of_nat h) div 2 = of_nat m"
    using Suc.prems n by (simp add: m_def of_nat_mid_u32)
  note probe = exidx_probe_eq [OF r \<open>m < n\<close> n, of pc]
  have ci: "i < n" "entry_pc e tab i \<le> pc" "i + 1 < n \<Longrightarrow> pc < entry_pc e tab (i + 1)"
    using c by (auto simp: entry_covers_def)
  consider (left) "pc < entry_pc e tab m"
    | (right) "\<not> pc < entry_pc e tab m" "m + 1 < n" "entry_pc e tab (m + 1) \<le> pc"
    | (stop) "entry_covers e tab n pc m"
    using lm unfolding entry_covers_def using not_le by blast
  then show ?case
  proof cases
    case left
    have "i < m"
    proof (rule ccontr)
      assume "\<not> i < m"
      then have "entry_pc e tab m \<le> entry_pc e tab i"
        using s ci(1) by (cases "m = i") (auto simp: table_sorted_def)
      then show False using left ci(2) by simp
    qed
    then show ?thesis
      using Suc.IH [of l m] Suc.prems lm left by (simp add: lh mid probe Let_def)
  next
    case right
    have "m + 1 \<le> i"
    proof (rule ccontr)
      assume "\<not> m + 1 \<le> i"
      then have im: "i = m \<or> i < m" by linarith
      then have "i + 1 < n" using right(2) by auto
      moreover have "entry_pc e tab (i + 1) \<le> entry_pc e tab (m + 1)"
        using im s [unfolded table_sorted_def, rule_format, of "i + 1" "m + 1"] right(2) by auto
      ultimately have "i + 1 < n" "entry_pc e tab (i + 1) \<le> entry_pc e tab (m + 1)" by auto
      then show False using right(3) ci(3) by simp
    qed
    then have "exidx_search fuel e tab (of_nat n) pc (of_nat m + 1) (of_nat h)
        = Some (entry_handler e tab i)"
      using Suc.IH [of "m + 1" h] Suc.prems lm by (simp add: add.commute)
    then show ?thesis using right by (simp add: lh mid probe Let_def)
  next
    case stop
    then have "i = m" using entry_covers_unique [OF s c] by simp
    with stop show ?thesis
      by (auto simp: lh mid probe Let_def entry_covers_def not_less)
  qed
qed

lemma exidx_search_before_first:
  assumes r: "table_readable e tab n" and s: "table_sorted e tab n"
    and n: "n < 2147483648" and c: "0 < n" "pc < entry_pc e tab 0"
  shows "h \<le> n \<Longrightarrow> h < fuel \<Longrightarrow>
    exidx_search fuel e tab (of_nat n) pc 0 (of_nat h) = Some 0"
proof (induction fuel arbitrary: h)
  case 0
  then show ?case by simp
next
  case (Suc fuel)
  show ?case
  proof (cases "h = 0")
    case True
    then show ?thesis by simp
  next
    case False
    define m where "m = h div 2"
    have m: "m < h" "m < n" using False Suc.prems by (auto simp: m_def)
    have mid: "(of_nat h :: u32) div 2 = of_nat m"
      using of_nat_mid_u32 [of 0 h] Suc.prems n by (simp add: m_def)
    have "entry_pc e tab 0 \<le> entry_pc e tab m"
      using s m by (cases "m = 0") (auto simp: table_sorted_def)
    then have "pc < entry_pc e tab m" using c by simp
    moreover have "(0 :: u32) < of_nat h"
      using of_nat_less_u32 [of 0 h] False Suc.prems n by simp
    ultimately show ?thesis
      using Suc.IH [of m] Suc.prems m by (simp add: mid exidx_probe_eq [OF r m(2) n] Let_def)
  qed
qed

text \<open>The search ends whatever the table holds, readable or not, sorted or not.\<close>

lemma exidx_search_ends:
  assumes n: "h < 2147483648"
  shows "l \<le> h \<Longrightarrow> h < 2147483648 \<Longrightarrow> h - l < fuel \<Longrightarrow>
    exidx_search fuel e tab sz pc (of_nat l) (of_nat h) \<noteq> None"
proof (induction fuel arbitrary: l h)
  case 0
  then show ?case by simp
next
  case (Suc fuel)
  show ?case
  proof (cases "l < h")
    case False
    then show ?thesis using Suc.prems by (simp add: of_nat_less_u32)
  next
    case True
    define m where "m = (l + h) div 2"
    have lm: "l \<le> m" "m < h" using True by (auto simp: m_def)
    have mid: "((of_nat l :: u32) + of_nat h) div 2 = of_nat m"
      using True Suc.prems by (simp add: m_def of_nat_mid_u32)
    have lh: "(of_nat l :: u32) < of_nat h" using True Suc.prems by (simp add: of_nat_less_u32)
    have "exidx_search fuel e tab sz pc (of_nat l) (of_nat m) \<noteq> None"
      using Suc.IH [of l m] Suc.prems lm by simp
    moreover have "exidx_search fuel e tab sz pc (of_nat m + 1) (of_nat h) \<noteq> None"
      using Suc.IH [of "m + 1" h] Suc.prems lm by (simp add: add.commute)
    ultimately show ?thesis using lh mid by (auto simp: Let_def split: probe.splits)
  qed
qed

lemma get_exception_handler_ends:
  assumes "unat (snd (exidx_section e pc)) < 2147483648"
  shows "get_exception_handler e pc \<noteq> None"
proof (cases "exidx_section e pc")
  case (Pair tab sz)
  have "exidx_search (Suc (unat sz)) e tab sz pc (of_nat 0) (of_nat (unat sz)) \<noteq> None"
    using assms Pair by (intro exidx_search_ends) auto
  then show ?thesis using Pair by (simp add: get_exception_handler_def)
qed

lemma entry_covers_exists:
  assumes "entry_pc e tab 0 \<le> pc" "0 < n"
  shows "\<exists>i. entry_covers e tab n pc i"
proof -
  define i where "i = Max {k. k < n \<and> entry_pc e tab k \<le> pc}"
  have fin: "finite {k. k < n \<and> entry_pc e tab k \<le> pc}" by simp
  have "i \<in> {k. k < n \<and> entry_pc e tab k \<le> pc}"
    unfolding i_def using assms by (intro Max_in) auto
  moreover have "\<not> entry_pc e tab (i + 1) \<le> pc" if "i + 1 < n"
  proof
    assume "entry_pc e tab (i + 1) \<le> pc"
    then have "i + 1 \<le> i" unfolding i_def using that fin by (intro Max_ge) (auto simp: i_def)
    then show False by simp
  qed
  ultimately show ?thesis by (auto simp: entry_covers_def not_le)
qed

text \<open>
  C7. Functional correctness of the index search: in a readable table whose function addresses
  ascend, exactly one entry covers a pc at or after the first function, and the handler returned
  is that entry's: its in-place data, the address its offset leads to, or 0 when it says that the
  frame cannot be unwound. Before the first function there is no handler.
\<close>

theorem get_exception_handler_covers:
  assumes "pc \<noteq> 0" "exidx_section e pc = (tab, of_nat n)" "tab \<noteq> 0" "0 < n" "n < 2147483648"
    and "table_readable e tab n" "table_sorted e tab n"
  shows "if entry_pc e tab 0 \<le> pc
    then \<exists>!i. entry_covers e tab n pc i \<and> get_exception_handler e pc = Some (entry_handler e tab i)
    else get_exception_handler e pc = Some 0"
proof -
  have un: "unat (of_nat n :: u32) = n" using assms(5) by (simp add: unat_of_nat)
  have geh: "get_exception_handler e pc = exidx_search (Suc n) e tab (of_nat n) pc (of_nat 0) (of_nat n)"
    using assms(1-3) un by (simp add: get_exception_handler_def del: exidx_search.simps)
  show ?thesis
  proof (cases "entry_pc e tab 0 \<le> pc")
    case True
    then obtain i where i: "entry_covers e tab n pc i" using entry_covers_exists assms(4) by blast
    then have "get_exception_handler e pc = Some (entry_handler e tab i)"
      unfolding geh using assms(5-7) by (intro exidx_search_finds) (auto simp: entry_covers_def)
    with i True entry_covers_unique [OF assms(7)] show ?thesis by auto
  next
    case False
    then have "get_exception_handler e pc = Some 0"
      unfolding geh using exidx_search_before_first [OF assms(6,7,5,4), of pc n "Suc n"]
      by (simp add: not_le del: exidx_search.simps)
    with False show ?thesis by simp
  qed
qed

definition sample_image :: memory_image where
  "sample_image = [0x9000 \<mapsto> 0x7ffff000, 0x9004 \<mapsto> 0x80b0b0b0, 0x9008 \<mapsto> 0x7ffff0f8, 0x900c \<mapsto> 1]"

text \<open>A second thread, whose stack the thread attributes tell.\<close>

definition thread_at :: "u32 \<Rightarrow> u32 \<Rightarrow> proc_env" where
  "thread_at base n = \<lparr>pe_libc = True, pe_maps = None, pe_stat = None, pe_line = [], pe_pid = 1, pe_tid = 2,
     pe_attr_base = base, pe_attr_size = n\<rparr>"

definition no_cache :: stack_cache where
  "no_cache = \<lparr>main_start = 0, main_size = 0, cached_pid = 1\<rparr>"

definition sample_env :: unwind_env where
  "sample_env = \<lparr>ue_target = sample_image, ue_self = sample_image, ue_mem = init_memory [],
     ue_maps = [], ue_proc = thread_at 0 0, ue_cache = no_cache, ue_find_exidx = (\<lambda>_. (0x9000, 2))\<rparr>"

lemmas sample_simps = sample_env_def sample_image_def get_word_def try_get_word_eq init_memory_def
  load_poison_def entry_addr_def entry_pc_def entry_handler_def prel_to_absolute_def

lemma sample_pcs: "entry_pc sample_env 0x9000 0 = 0x8000" "entry_pc sample_env 0x9000 1 = 0x8100"
  by (simp_all add: sample_simps)

theorem get_exception_handler_covers_witness:
  "\<exists>!i. entry_covers sample_env 0x9000 2 0x8010 i \<and>
     get_exception_handler sample_env 0x8010 = Some (entry_handler sample_env 0x9000 i)"
proof -
  have r: "table_readable sample_env 0x9000 2"
    by (auto simp: table_readable_def sample_simps less_2_cases_iff)
  have s: "table_sorted sample_env 0x9000 2"
    using sample_pcs by (auto simp: table_sorted_def less_2_cases_iff)
  have "exidx_section sample_env 0x8010 = (0x9000, of_nat 2)"
    by (simp add: exidx_section_def find_exidx_def sample_env_def init_memory_def)
  from get_exception_handler_covers [OF _ this _ _ _ r s] show ?thesis
    by (simp add: sample_pcs)
qed

end
