(* ===== verification/ArmInsns.thy ===== *)
theory ArmInsns
  imports ArmProps
begin

text \<open>
  The instructions of the unwinder against the table of the ARM exception handling ABI, the
  order in which registers are popped, and the order of the bytes of the instruction stream.
\<close>

section \<open>The byte stream\<close>

lemma and3_mod: "unat ((w :: u32) AND 3) = unat w mod 4"
proof -
  have "w AND 3 = take_bit 2 w" by (simp add: take_bit_eq_mask mask_eq_exp_minus_1)
  then show ?thesis by (simp add: unsigned_take_bit_eq take_bit_eq_mod unat_mod)
qed

lemma unat_add_mod4: "unat ((p :: u32) + q) mod 4 = (unat p + unat q) mod 4"
  by (simp add: unat_word_ariths mod_mod_cancel)

lemma aligned_add_and3:
  assumes "(p :: u32) AND 3 = 0"
  shows "(p + of_nat k) AND 3 = of_nat (k mod 4)"
proof -
  have "unat p mod 4 = 0" using assms and3_mod [of p] by simp
  moreover have "unat (of_nat k :: u32) mod 4 = k mod 4"
    by (simp add: unat_of_nat mod_mod_cancel)
  ultimately have "unat ((p + of_nat k) AND 3) = k mod 4"
    unfolding and3_mod unat_add_mod4 by (metis add.left_neutral mod_add_cong mod_mod_trivial)
  then have "(word_of_nat (unat ((p + of_nat k) AND 3)) :: u32) = word_of_nat (k mod 4)"
    by (rule arg_cong)
  then show ?thesis by simp
qed

fun next_bytes :: "unwind_env \<Rightarrow> nat \<Rightarrow> byte_stream \<Rightarrow> (u8 list \<times> byte_stream) option" where
  "next_bytes e 0 bs = Some ([], bs)"
| "next_bytes e (Suc n) bs =
     (case try_next_byte e bs of None \<Rightarrow> None
      | Some (b, bs') \<Rightarrow>
          (case next_bytes e n bs' of None \<Rightarrow> None | Some (r, bs'') \<Rightarrow> Some (b # r, bs'')))"

text \<open>Byte \<open>k\<close> of the stream that starts at the aligned address \<open>p\<close>: most significant byte first.\<close>

definition stream_byte :: "unwind_env \<Rightarrow> u32 \<Rightarrow> nat \<Rightarrow> u8" where
  "stream_byte e p k =
     ucast (drop_bit (24 - 8 * (k mod 4)) (the (get_word e (p + of_nat (4 * (k div 4))))))"

definition stream_at :: "unwind_env \<Rightarrow> u32 \<Rightarrow> nat \<Rightarrow> byte_stream \<Rightarrow> bool" where
  "stream_at e p k bs \<longleftrightarrow>
     bs_ptr bs = p + of_nat k \<and>
     (k mod 4 \<noteq> 0 \<longrightarrow> get_word e (p + of_nat (4 * (k div 4))) = Some (bs_word bs))"

definition words_readable :: "unwind_env \<Rightarrow> u32 \<Rightarrow> nat \<Rightarrow> bool" where
  "words_readable e p n \<longleftrightarrow> (\<forall>k < n. get_word e (p + of_nat (4 * (k div 4))) \<noteq> None)"

lemma mod4_cases: "(k :: nat) mod 4 = 0 \<or> k mod 4 = 1 \<or> k mod 4 = 2 \<or> k mod 4 = 3"
  by presburger

lemma div4_Suc: "(k :: nat) mod 4 \<noteq> 3 \<Longrightarrow> Suc k div 4 = k div 4"
  by presburger

lemma try_next_byte_at:
  assumes p: "p AND 3 = 0" and s: "stream_at e p k bs"
    and r: "get_word e (p + of_nat (4 * (k div 4))) \<noteq> None"
  shows "\<exists>bs'. try_next_byte e bs = Some (stream_byte e p k, bs') \<and> stream_at e p (Suc k) bs'"
proof -
  obtain w where w: "get_word e (p + of_nat (4 * (k div 4))) = Some w" using r by blast
  have a: "bs_ptr bs AND 3 = of_nat (k mod 4)"
    using s aligned_add_and3 [OF p] by (simp add: stream_at_def)
  show ?thesis
  proof (cases "k mod 4 = 0")
    case True
    then have "4 * (k div 4) = k" by presburger
    with True w s a show ?thesis
      by (auto simp: try_next_byte_def stream_byte_def stream_at_def div4_Suc add.assoc)
  next
    case False
    then have bw: "bs_word bs = w" using s w by (simp add: stream_at_def)
    show ?thesis
    proof (cases "k mod 4 = 3")
      case True
      then have "Suc k mod 4 = 0" by presburger
      with True w s a bw show ?thesis
        by (simp add: try_next_byte_def stream_byte_def stream_at_def Let_def)
    next
      case F3: False
      with False mod4_cases [of k] have "k mod 4 = 1 \<or> k mod 4 = 2" by linarith
      with F3 w s a bw show ?thesis
        by (auto simp: try_next_byte_def stream_byte_def stream_at_def Let_def div4_Suc)
    qed
  qed
qed

lemma next_bytes_at:
  assumes p: "p AND 3 = 0"
  shows "stream_at e p k bs \<Longrightarrow> (\<forall>j < k + n. k \<le> j \<longrightarrow> get_word e (p + of_nat (4 * (j div 4))) \<noteq> None)
    \<Longrightarrow> \<exists>bs'. next_bytes e n bs = Some (map (stream_byte e p) [k..<k + n], bs') \<and> stream_at e p (k + n) bs'"
proof (induction n arbitrary: k bs)
  case 0
  then show ?case by simp
next
  case (Suc n)
  obtain bs1 where 1: "try_next_byte e bs = Some (stream_byte e p k, bs1)" "stream_at e p (Suc k) bs1"
    using try_next_byte_at [OF p Suc.prems(1)] Suc.prems(2) by auto
  obtain bs2 where 2: "next_bytes e n bs1 = Some (map (stream_byte e p) [Suc k..<Suc k + n], bs2)"
    "stream_at e p (Suc k + n) bs2"
    using Suc.IH [OF 1(2)] Suc.prems(2) by auto
  have "[k..<k + Suc n] = k # [Suc k..<Suc k + n]" by (simp add: upt_rec)
  with 1 2 show ?case by simp
qed

text \<open>
  The stream of unwinding instructions is read word by word and, within a word, from the most
  significant byte to the least, whatever the number of bytes taken; no word is read that does
  not hold one of them.
\<close>

theorem next_bytes_big_endian:
  assumes "p AND 3 = 0" "words_readable e p n"
  shows "map_option fst (next_bytes e n \<lparr>bs_ptr = p, bs_word = w\<rparr>) = Some (map (stream_byte e p) [0..<n])"
proof -
  have "stream_at e p 0 \<lparr>bs_ptr = p, bs_word = w\<rparr>" by (simp add: stream_at_def)
  from next_bytes_at [OF assms(1) this, of n] assms(2) show ?thesis
    by (auto simp: words_readable_def)
qed

theorem next_bytes_big_endian_witness:
  "map_option fst (next_bytes sample_env 3 \<lparr>bs_ptr = 0x9000, bs_word = 0\<rparr>)
     = Some (map (stream_byte sample_env 0x9000) [0..<3]) \<and>
   map (stream_byte sample_env 0x9000) [0..<3] = [0x7f, 0xff, 0xf0]"
proof -
  have "words_readable sample_env 0x9000 3"
    by (simp add: words_readable_def sample_simps)
  from next_bytes_big_endian [OF _ this] show ?thesis
    by (simp add: stream_byte_def sample_simps upt_rec)
qed

section \<open>Popping registers\<close>

definition popped_regs :: "u32 \<Rightarrow> nat list" where
  "popped_regs msk = filter (bit msk) [0..<16]"

lemma pop_loop_ok:
  "distinct is \<Longrightarrow>
   (\<forall>k < length (filter (bit m) is). get_word_stack e (sp + of_nat k * 4) = Ok (v k)) \<Longrightarrow>
   \<exists>st'. pop_loop e m is sp u st =
       Ok (True, sp + of_nat (length (filter (bit m) is)) * 4, u \<or> R_SP \<in> set (filter (bit m) is), st')
     \<and> (\<forall>k < length (filter (bit m) is). gregs st' (filter (bit m) is ! k) = v k)
     \<and> (\<forall>r. r \<notin> set (filter (bit m) is) \<longrightarrow> gregs st' r = gregs st r)"
proof (induction "is" arbitrary: sp u st v)
  case Nil
  then show ?case by simp
next
  case (Cons i "is")
  show ?case
  proof (cases "bit m i")
    case False
    then show ?thesis using Cons.IH [of sp v u st] Cons.prems by auto
  next
    case True
    have rd: "get_word_stack e sp = Ok (v 0)" using Cons.prems(2) True by fastforce
    have "\<forall>k < length (filter (bit m) is). get_word_stack e ((sp + 4) + of_nat k * 4) = Ok (v (Suc k))"
      using Cons.prems(2) True by (auto simp: algebra_simps dest: spec [where x = "Suc _"])
    from Cons.IH [OF _ this, of "u \<or> i = R_SP" "set_reg st i (v 0)"] Cons.prems(1)
    obtain st' where st': "pop_loop e m is (sp + 4) (u \<or> i = R_SP) (set_reg st i (v 0)) =
        Ok (True, sp + 4 + of_nat (length (filter (bit m) is)) * 4,
            (u \<or> i = R_SP) \<or> R_SP \<in> set (filter (bit m) is), st')"
      "\<forall>k < length (filter (bit m) is). gregs st' (filter (bit m) is ! k) = v (Suc k)"
      "\<forall>r. r \<notin> set (filter (bit m) is) \<longrightarrow> gregs st' r = gregs (set_reg st i (v 0)) r"
      by auto
    then show ?thesis using True rd Cons.prems(1)
      by (auto simp: algebra_simps nth_Cons split: nat.split)
  qed
qed

text \<open>
  Popping under a mask loads the registers of the mask in ascending order from ascending
  stack words, leaves every other register alone, and moves the stack pointer past the words
  read unless the stack pointer itself was among the registers popped.
\<close>

theorem try_pop_registers_ok:
  assumes "\<forall>k < length (popped_regs msk). get_word_stack e (gregs st R_SP + of_nat k * 4) = Ok (v k)"
  shows "\<exists>st'. try_pop_registers e st msk = Ok (True, st')
    \<and> (\<forall>k < length (popped_regs msk). gregs st' (popped_regs msk ! k) = v k)
    \<and> (\<forall>r. r \<notin> set (popped_regs msk) \<longrightarrow> r \<noteq> R_SP \<longrightarrow> gregs st' r = gregs st r)
    \<and> (\<not> bit msk R_SP \<longrightarrow> gregs st' R_SP = gregs st R_SP + of_nat (length (popped_regs msk)) * 4)"
proof -
  obtain st1 where 1: "pop_loop e msk [0..<16] (gregs st R_SP) False st =
      Ok (True, gregs st R_SP + of_nat (length (popped_regs msk)) * 4, R_SP \<in> set (popped_regs msk), st1)"
    "\<forall>k < length (popped_regs msk). gregs st1 (popped_regs msk ! k) = v k"
    "\<forall>r. r \<notin> set (popped_regs msk) \<longrightarrow> gregs st1 r = gregs st r"
    using pop_loop_ok [of "[0..<16]" msk e "gregs st R_SP" v False st] assms
    by (auto simp: popped_regs_def)
  have sp: "R_SP \<in> set (popped_regs msk) \<longleftrightarrow> bit msk R_SP"
    by (auto simp: popped_regs_def R_SP_def)
  show ?thesis
  proof (cases "bit msk R_SP")
    case True
    then show ?thesis using 1 sp by (auto simp: try_pop_registers_def)
  next
    case False
    then have "\<forall>k < length (popped_regs msk). popped_regs msk ! k \<noteq> R_SP"
      using sp nth_mem by metis
    then show ?thesis using 1 sp False by (auto simp: try_pop_registers_def)
  qed
qed

definition stack_env :: unwind_env where
  "stack_env = sample_env\<lparr>ue_self := [0x7000 \<mapsto> 0x11, 0x7004 \<mapsto> 0x22, 0x7008 \<mapsto> 0x33],
     ue_proc := thread_at 0x7000 0x1000\<rparr>"

definition stack_state :: unwind_state where
  "stack_state = \<lparr>gregs = (\<lambda>_. 0)(13 := 0x7000)\<rparr>"

theorem try_pop_registers_ok_witness:
  "\<exists>st'. try_pop_registers stack_env stack_state 0x4010 = Ok (True, st') \<and>
     gregs st' 4 = 0x11 \<and> gregs st' 14 = 0x22 \<and> gregs st' 13 = 0x7008"
proof -
  have p: "popped_regs 0x4010 = [4, 14]"
    by (simp add: popped_regs_def upt_rec)
  have "\<forall>k < length (popped_regs 0x4010).
      get_word_stack stack_env (gregs stack_state R_SP + of_nat k * 4) = Ok ([0x11, 0x22] ! k)"
    by (auto simp: p less_Suc_eq get_word_stack_def try_get_word_stack_def ubrd_get_stack_def reset_for_process_def
        reported_def stack_word_def stack_env_def stack_state_def sample_env_def thread_at_def no_cache_def R_SP_def)
  from try_pop_registers_ok [OF this] show ?thesis
    by (auto simp: p R_SP_def stack_state_def All_less_Suc)
qed

section \<open>The instruction table of the ABI\<close>

text \<open>
  The unwinding instructions by ranges of their first byte, in the words of the comments of
  \<open>execute_personality_routine\<close> (EHABI, table 4). \<open>InsnSetVsp n\<close> is ``vsp = r[n]'', the pops of
  coprocessor registers carry the number of double words; a \<open>2\<close> marks an operand byte.
\<close>

datatype insn =
    InsnAddVsp u32 | InsnSubVsp u32 | InsnPopMask2 | InsnSetVsp nat | InsnReserved
  | InsnPopR4 u32 | InsnFinish | InsnPopLow2 | InsnAddUleb2 | InsnSpare
  | InsnPopVfpX2 | InsnPopVfpX u32 | InsnPopWmmx u32 | InsnPopWmmx2 | InsnPopWcgr2
  | InsnPopVfp2 | InsnPopVfp u32

definition r4_upto :: "nat \<Rightarrow> u32" where
  "r4_upto k = push_bit 4 (mask (Suc k))"

definition abi_decode :: "u8 \<Rightarrow> insn" where
  "abi_decode op =
     (if op < 0x40 then InsnAddVsp (4 * ucast op + 4)
      else if op < 0x80 then InsnSubVsp (4 * ucast (op - 0x40) + 4)
      else if op < 0x90 then InsnPopMask2
      else if op = 0x9d \<or> op = 0x9f then InsnReserved
      else if op < 0xa0 then InsnSetVsp (unat (op - 0x90))
      else if op < 0xa8 then InsnPopR4 (r4_upto (unat (op - 0xa0)))
      else if op < 0xb0 then InsnPopR4 (r4_upto (unat (op - 0xa8)) OR 0x4000)
      else if op = 0xb0 then InsnFinish
      else if op = 0xb1 then InsnPopLow2
      else if op = 0xb2 then InsnAddUleb2
      else if op = 0xb3 then InsnPopVfpX2
      else if op < 0xb8 then InsnSpare
      else if op < 0xc0 then InsnPopVfpX (ucast (op - 0xb8))
      else if op < 0xc6 then InsnPopWmmx (ucast (op - 0xc0))
      else if op = 0xc6 then InsnPopWmmx2
      else if op = 0xc7 then InsnPopWcgr2
      else if op < 0xca then InsnPopVfp2
      else if op < 0xd0 then InsnSpare
      else if op < 0xd8 then InsnPopVfp (ucast (op - 0xd0))
      else InsnSpare)"

definition abi_exec ::
  "unwind_env \<Rightarrow> nat \<Rightarrow> u8 \<Rightarrow> unwind_state \<Rightarrow> byte_stream \<Rightarrow> bool \<Rightarrow> step_result" where
  "abi_exec e sz op st bs pc_set =
     (case abi_decode op of
        InsnAddVsp d \<Rightarrow> StepNext sz (add_sp st d) bs pc_set
      | InsnSubVsp d \<Rightarrow> StepNext sz (add_sp st (- d)) bs pc_set
      | InsnPopMask2 \<Rightarrow>
          with_op2 e sz st bs (\<lambda>sz op2 bs.
            let msk = push_bit 12 (ucast (op - 0x80)) OR push_bit 4 (ucast op2) in
            if msk \<noteq> 0 then pop_step e sz st bs msk (pc_set \<or> bit msk R_PC) else StepRefuse st)
      | InsnSetVsp n \<Rightarrow> StepNext sz (set_reg st R_SP (gregs st n)) bs pc_set
      | InsnReserved \<Rightarrow> StepRefuse st
      | InsnPopR4 msk \<Rightarrow> pop_step e sz st bs msk pc_set
      | InsnFinish \<Rightarrow> StepFinish st pc_set
      | InsnPopLow2 \<Rightarrow>
          with_op2 e sz st bs (\<lambda>sz op2 bs.
            if 0 < op2 \<and> op2 < 0x10 then pop_step e sz st bs (ucast op2) pc_set else StepRefuse st)
      | InsnAddUleb2 \<Rightarrow>
          (case uleb_loop e sz 0 0 bs of None \<Rightarrow> StepRefuse st
           | Some (val, sz', bs') \<Rightarrow> StepNext sz' (add_sp st (4 * val + 0x204)) bs' pc_set)
      | InsnSpare \<Rightarrow> StepRefuse st
      | InsnPopVfpX2 \<Rightarrow>
          with_op2 e sz st bs (\<lambda>sz op2 bs. StepNext sz (add_sp st (8 * ucast (op2 AND 0xf) + 12)) bs pc_set)
      | InsnPopVfpX n \<Rightarrow> StepNext sz (add_sp st (8 * n + 12)) bs pc_set
      | InsnPopWmmx n \<Rightarrow> StepNext sz (add_sp st (8 * n + 8)) bs pc_set
      | InsnPopWmmx2 \<Rightarrow>
          with_op2 e sz st bs (\<lambda>sz op2 bs. StepNext sz (add_sp st (8 * ucast (op2 AND 0xf) + 8)) bs pc_set)
      | InsnPopWcgr2 \<Rightarrow>
          with_op2 e sz st bs (\<lambda>sz op2 bs.
            if 0 < op2 \<and> op2 < 0x10
            then StepNext sz (add_sp st (4 * of_nat (popcount8 op2))) bs pc_set else StepRefuse st)
      | InsnPopVfp2 \<Rightarrow>
          with_op2 e sz st bs (\<lambda>sz op2 bs. StepNext sz (add_sp st (8 * ucast (op2 AND 0xf) + 8)) bs pc_set)
      | InsnPopVfp n \<Rightarrow> StepNext sz (add_sp st (8 * n + 8)) bs pc_set)"

lemma hi_nat:
  assumes m: "0 < m"
  shows "(u :: nat) - u mod m = m * k \<longleftrightarrow> m * k \<le> u \<and> u < m * k + m"
proof -
  have u: "u = m * (u div m) + u mod m" "u mod m < m" using m by simp_all
  have "u - u mod m = m * k \<longleftrightarrow> u div m = k" using m by (simp add: minus_mod_eq_mult_div)
  also have "\<dots> \<longleftrightarrow> m * k \<le> u \<and> u < m * k + m"
  proof
    assume "u div m = k"
    then show "m * k \<le> u \<and> u < m * k + m" using u by auto
  next
    assume "m * k \<le> u \<and> u < m * k + m"
    then show "u div m = k" by (intro div_nat_eqI) (auto simp: mult.commute)
  qed
  finally show ?thesis .
qed

lemma u8_lo:
  fixes op :: u8
  shows "unat (op AND 0x3f) = unat op mod 64" "unat (op AND 0x0f) = unat op mod 16"
    "unat (op AND 0x07) = unat op mod 8"
proof -
  have "op AND 0x3f = op mod 64" "op AND 0x0f = op mod 16" "op AND 0x07 = op mod 8"
    using take_bit_eq_mask [of 6 op] take_bit_eq_mask [of 4 op] take_bit_eq_mask [of 3 op]
    by (simp_all add: take_bit_eq_mod mask_eq_exp_minus_1)
  then show "unat (op AND 0x3f) = unat op mod 64" "unat (op AND 0x0f) = unat op mod 16"
    "unat (op AND 0x07) = unat op mod 8"
    by (simp_all only: unat_mod) simp_all
qed

lemma unat_ucast_u8: "unat (ucast (x :: u8) :: u32) = unat x"
proof -
  have "unat x < 2 ^ 32" using unsigned_less [of x, where ?'a = nat] by simp
  then show ?thesis by (simp add: unsigned_ucast_eq take_bit_nat_eq_self)
qed

lemma u32_lo:
  fixes op :: u8
  shows "unat ((ucast op :: u32) AND 0x3f) = unat op mod 64"
    "unat ((ucast op :: u32) AND 0x0f) = unat op mod 16"
    "unat ((ucast op :: u32) AND 0x07) = unat op mod 8"
proof -
  have u: "unat (ucast op :: u32) = unat op" by (rule unat_ucast_u8)
  have "(ucast op :: u32) AND 0x3f = ucast op mod 64" "(ucast op :: u32) AND 0x0f = ucast op mod 16"
    "(ucast op :: u32) AND 0x07 = ucast op mod 8"
    using take_bit_eq_mask [of 6 "ucast op :: u32"] take_bit_eq_mask [of 4 "ucast op :: u32"]
      take_bit_eq_mask [of 3 "ucast op :: u32"]
    by (simp_all add: take_bit_eq_mod mask_eq_exp_minus_1)
  then show "unat ((ucast op :: u32) AND 0x3f) = unat op mod 64"
    "unat ((ucast op :: u32) AND 0x0f) = unat op mod 16"
    "unat ((ucast op :: u32) AND 0x07) = unat op mod 8"
    by (simp_all only: unat_mod u) simp_all
qed

lemma u8_hi_aux:
  fixes op :: u8
  assumes "unat (op AND lo) = unat op mod m" "op AND hi = op - (op AND lo)"
  shows "unat (op AND hi) = unat op - unat op mod m"
proof -
  have "(op AND lo) \<le> op" by (rule word_and_le2)
  then show ?thesis unfolding assms(2) by (simp add: unat_sub assms(1))
qed

lemma u8_hi:
  fixes op :: u8
  shows "unat (op AND 0xc0) = unat op - unat op mod 64"
    "unat (op AND 0xf0) = unat op - unat op mod 16"
    "unat (op AND 0xf8) = unat op - unat op mod 8"
proof -
  have d: "op - (op AND m) = op AND NOT m" for m
  proof -
    have "op - (op AND m) = op AND NOT (op AND m)"
      by (rule disjunctive_diff) (simp add: bit_and_iff)
    also have "\<dots> = op AND NOT m" by (rule bit_word_eqI) (auto simp: bit_simps)
    finally show ?thesis .
  qed
  have n: "NOT (0x3f :: u8) = 0xc0" "NOT (0x0f :: u8) = 0xf0" "NOT (0x07 :: u8) = 0xf8"
    by code_simp+
  show "unat (op AND 0xc0) = unat op - unat op mod 64"
    by (rule u8_hi_aux [OF u8_lo(1)]) (simp only: d n)
  show "unat (op AND 0xf0) = unat op - unat op mod 16"
    by (rule u8_hi_aux [OF u8_lo(2)]) (simp only: d n)
  show "unat (op AND 0xf8) = unat op - unat op mod 8"
    by (rule u8_hi_aux [OF u8_lo(3)]) (simp only: d n)
qed

lemma u8_eq: "(x :: u8) = y \<longleftrightarrow> unat x = unat y"
  by (rule word_unat_eq_iff)

lemma op_masks:
  fixes op :: u8
  shows "op AND 0xc0 = 0x00 \<longleftrightarrow> op < 0x40"
    and "op AND 0xc0 = 0x40 \<longleftrightarrow> 0x40 \<le> op \<and> op < 0x80"
    and "op AND 0xf0 = 0x80 \<longleftrightarrow> 0x80 \<le> op \<and> op < 0x90"
    and "op AND 0xf0 = 0x90 \<longleftrightarrow> 0x90 \<le> op \<and> op < 0xa0"
    and "op AND 0xf0 = 0x00 \<longleftrightarrow> op < 0x10"
    and "op AND 0xf8 = 0xa0 \<longleftrightarrow> 0xa0 \<le> op \<and> op < 0xa8"
    and "op AND 0xf8 = 0xa8 \<longleftrightarrow> 0xa8 \<le> op \<and> op < 0xb0"
    and "op AND 0xf8 = 0xb8 \<longleftrightarrow> 0xb8 \<le> op \<and> op < 0xc0"
    and "op AND 0xf8 = 0xc0 \<longleftrightarrow> 0xc0 \<le> op \<and> op < 0xc8"
    and "op AND 0xf8 = 0xd0 \<longleftrightarrow> 0xd0 \<le> op \<and> op < 0xd8"
  unfolding u8_eq u8_hi word_le_nat_alt word_less_nat_alt
  using hi_nat [of 64 "unat op" 0] hi_nat [of 64 "unat op" 1] hi_nat [of 16 "unat op" 8]
    hi_nat [of 16 "unat op" 9] hi_nat [of 16 "unat op" 0] hi_nat [of 8 "unat op" 20]
    hi_nat [of 8 "unat op" 21] hi_nat [of 8 "unat op" 23] hi_nat [of 8 "unat op" 24]
    hi_nat [of 8 "unat op" 26]
  by simp_all

lemma nat_mod_window: "m * k \<le> (u :: nat) \<Longrightarrow> u < m * k + m \<Longrightarrow> u mod m = u - m * k"
  by (metis add.commute le_add_diff_inverse less_diff_conv2 mod_less mod_mult_self2)

lemma ucast_sub_u8:
  "(c :: u8) \<le> op \<Longrightarrow> unat (ucast (op - c) :: u32) = unat op - unat c"
  by (simp add: unat_ucast_u8 unat_sub)

lemma u32_eq: "(x :: u32) = y \<longleftrightarrow> unat x = unat y"
  by (rule word_unat_eq_iff)

lemma op_operands:
  fixes op :: u8
  shows "op < 0x40 \<Longrightarrow> (ucast op AND 0x3f :: u32) = ucast op"
    and "0x40 \<le> op \<Longrightarrow> op < 0x80 \<Longrightarrow> (ucast op AND 0x3f :: u32) = ucast (op - 0x40)"
    and "0x80 \<le> op \<Longrightarrow> op < 0x90 \<Longrightarrow> (ucast op AND 0x0f :: u32) = ucast (op - 0x80)"
    and "0x90 \<le> op \<Longrightarrow> op < 0xa0 \<Longrightarrow> op AND 0x0f = op - 0x90"
    and "0xa0 \<le> op \<Longrightarrow> op < 0xa8 \<Longrightarrow> op AND 0x07 = op - 0xa0"
    and "0xa8 \<le> op \<Longrightarrow> op < 0xb0 \<Longrightarrow> op AND 0x07 = op - 0xa8"
    and "0xb8 \<le> op \<Longrightarrow> op < 0xc0 \<Longrightarrow> (ucast op AND 0x07 :: u32) = ucast (op - 0xb8)"
    and "0xc0 \<le> op \<Longrightarrow> op < 0xc8 \<Longrightarrow> (ucast op AND 0x07 :: u32) = ucast (op - 0xc0)"
    and "0xd0 \<le> op \<Longrightarrow> op < 0xd8 \<Longrightarrow> (ucast op AND 0x07 :: u32) = ucast (op - 0xd0)"
    and "(ucast op AND 0x0f :: u32) = ucast (op AND 0x0f)"
  using nat_mod_window [of 64 1 "unat op"] nat_mod_window [of 16 8 "unat op"]
    nat_mod_window [of 16 9 "unat op"] nat_mod_window [of 8 20 "unat op"]
    nat_mod_window [of 8 21 "unat op"] nat_mod_window [of 8 23 "unat op"]
    nat_mod_window [of 8 24 "unat op"] nat_mod_window [of 8 26 "unat op"]
  unfolding u8_eq u32_eq u32_lo u8_lo
  by (simp_all add: ucast_sub_u8 unat_sub unat_ucast_u8 u8_lo word_le_nat_alt word_less_nat_alt)

lemma reg_mask_r4_eq:
  assumes "op AND 0x07 = c" "unat c < 8"
  shows "reg_mask_r4 op = r4_upto (unat c)"
proof -
  have "\<forall>k \<in> set [0..<8]. drop_bit (7 - k) (0x0ff0 :: u32) AND 0x0ff0 = push_bit 4 (mask (Suc k))"
    by (simp add: upt_rec mask_eq_exp_minus_1)
  then show ?thesis using assms by (simp add: reg_mask_r4_def r4_upto_def)
qed

lemma reg_mask_r4_range:
  fixes op :: u8
  shows "0xa0 \<le> op \<Longrightarrow> op < 0xa8 \<Longrightarrow> reg_mask_r4 op = r4_upto (unat (op - 0xa0))"
    and "0xa8 \<le> op \<Longrightarrow> op < 0xb0 \<Longrightarrow> reg_mask_r4 op = r4_upto (unat (op - 0xa8))"
  by (rule reg_mask_r4_eq [OF op_operands(5)] reg_mask_r4_eq [OF op_operands(6)];
      simp add: unat_sub word_le_nat_alt word_less_nat_alt)+

lemma rng:
  "(c :: u8) \<le> op \<longleftrightarrow> unat c \<le> unat op" "op < c \<longleftrightarrow> unat op < unat c"
  "op = c \<longleftrightarrow> unat op = unat c"
  by (simp_all add: word_le_nat_alt word_less_nat_alt u8_eq)

lemma op2_nz: "(op2 :: u8) \<noteq> 0 \<longleftrightarrow> 0 < op2"
  by (rule word_neq_0_conv)

lemmas abi_defs = exec_op_def abi_exec_def abi_decode_def op_masks Let_def op2_nz

lemma u8_point: "(c :: u8) \<le> op \<Longrightarrow> op < d \<Longrightarrow> unat d = Suc (unat c) \<Longrightarrow> op = c"
  unfolding rng by simp

lemma exec_abi_ranges:
  fixes op :: u8
  shows
    "op < 0x40 \<Longrightarrow> exec_op e sz op st bs pc_set = abi_exec e sz op st bs pc_set"
    and "0x40 \<le> op \<Longrightarrow> op < 0x80 \<Longrightarrow> exec_op e sz op st bs pc_set = abi_exec e sz op st bs pc_set"
    and "0x80 \<le> op \<Longrightarrow> op < 0x90 \<Longrightarrow> exec_op e sz op st bs pc_set = abi_exec e sz op st bs pc_set"
    and "0x90 \<le> op \<Longrightarrow> op < 0xa0 \<Longrightarrow> (op = 0x97 \<longrightarrow> gregs st 7 AND 0xffff0000 \<noteq> 0) \<Longrightarrow> exec_op e sz op st bs pc_set = abi_exec e sz op st bs pc_set"
    and "0xa0 \<le> op \<Longrightarrow> op < 0xa8 \<Longrightarrow> exec_op e sz op st bs pc_set = abi_exec e sz op st bs pc_set"
    and "0xa8 \<le> op \<Longrightarrow> op < 0xb0 \<Longrightarrow> exec_op e sz op st bs pc_set = abi_exec e sz op st bs pc_set"
    and "0xb0 \<le> op \<Longrightarrow> op < 0xb1 \<Longrightarrow> exec_op e sz op st bs pc_set = abi_exec e sz op st bs pc_set"
    and "0xb1 \<le> op \<Longrightarrow> op < 0xb2 \<Longrightarrow> exec_op e sz op st bs pc_set = abi_exec e sz op st bs pc_set"
    and "0xb2 \<le> op \<Longrightarrow> op < 0xb3 \<Longrightarrow> exec_op e sz op st bs pc_set = abi_exec e sz op st bs pc_set"
    and "0xb3 \<le> op \<Longrightarrow> op < 0xb4 \<Longrightarrow> exec_op e sz op st bs pc_set = abi_exec e sz op st bs pc_set"
    and "0xb4 \<le> op \<Longrightarrow> op < 0xb8 \<Longrightarrow> exec_op e sz op st bs pc_set = abi_exec e sz op st bs pc_set"
    and "0xb8 \<le> op \<Longrightarrow> op < 0xc0 \<Longrightarrow> exec_op e sz op st bs pc_set = abi_exec e sz op st bs pc_set"
    and "0xc0 \<le> op \<Longrightarrow> op < 0xc6 \<Longrightarrow> exec_op e sz op st bs pc_set = abi_exec e sz op st bs pc_set"
    and "0xc8 \<le> op \<Longrightarrow> op < 0xc9 \<Longrightarrow> exec_op e sz op st bs pc_set = abi_exec e sz op st bs pc_set"
    and "0xc9 \<le> op \<Longrightarrow> op < 0xca \<Longrightarrow> exec_op e sz op st bs pc_set = abi_exec e sz op st bs pc_set"
    and "0xca \<le> op \<Longrightarrow> op < 0xd0 \<Longrightarrow> exec_op e sz op st bs pc_set = abi_exec e sz op st bs pc_set"
    and "0xd0 \<le> op \<Longrightarrow> op < 0xd8 \<Longrightarrow> exec_op e sz op st bs pc_set = abi_exec e sz op st bs pc_set"
    and "0xd8 \<le> op \<Longrightarrow> exec_op e sz op st bs pc_set = abi_exec e sz op st bs pc_set"
proof -
  show "exec_op e sz op st bs pc_set = abi_exec e sz op st bs pc_set"
    if "op < 0x40"
    using that op_operands(1) unfolding abi_defs by (simp add: rng push_bit_eq_mult mult.commute)
  show "exec_op e sz op st bs pc_set = abi_exec e sz op st bs pc_set"
    if "0x40 \<le> op" "op < 0x80"
    using that op_operands(2) unfolding abi_defs by (simp add: rng push_bit_eq_mult add_sp_def algebra_simps)
  show "exec_op e sz op st bs pc_set = abi_exec e sz op st bs pc_set"
    if "0x80 \<le> op" "op < 0x90"
    using op_operands(3) [OF that] that unfolding abi_defs by (simp add: rng cong: if_cong)
  show "exec_op e sz op st bs pc_set = abi_exec e sz op st bs pc_set"
    if "0x90 \<le> op" "op < 0xa0" "op = 0x97 \<longrightarrow> gregs st 7 AND 0xffff0000 \<noteq> 0"
  proof (cases "op = 0x97")
    case True
    then show ?thesis using that unfolding abi_defs by simp
  next
    case False
    then have "unat op \<noteq> 151" unfolding rng by simp
    then show ?thesis
      using op_operands(4) [OF that(1,2)] that unfolding abi_defs by (auto simp: rng)
  qed
  show "exec_op e sz op st bs pc_set = abi_exec e sz op st bs pc_set"
    if "0xa0 \<le> op" "op < 0xa8"
    using that reg_mask_r4_range unfolding abi_defs by (auto simp: rng)
  show "exec_op e sz op st bs pc_set = abi_exec e sz op st bs pc_set"
    if "0xa8 \<le> op" "op < 0xb0"
    using that reg_mask_r4_range unfolding abi_defs by (auto simp: rng)
  show "exec_op e sz op st bs pc_set = abi_exec e sz op st bs pc_set"
    if "0xb0 \<le> op" "op < 0xb1"
  proof -
    have "op = 0xb0" using that by (rule u8_point) simp
    then show ?thesis unfolding abi_defs by (simp)
  qed
  show "exec_op e sz op st bs pc_set = abi_exec e sz op st bs pc_set"
    if "0xb1 \<le> op" "op < 0xb2"
  proof -
    have "op = 0xb1" using that by (rule u8_point) simp
    then show ?thesis unfolding abi_defs by (simp)
  qed
  show "exec_op e sz op st bs pc_set = abi_exec e sz op st bs pc_set"
    if "0xb2 \<le> op" "op < 0xb3"
  proof -
    have "op = 0xb2" using that by (rule u8_point) simp
    then show ?thesis
      unfolding abi_defs by (simp add: push_bit_eq_mult mult.commute split: option.split)
  qed
  show "exec_op e sz op st bs pc_set = abi_exec e sz op st bs pc_set"
    if "0xb3 \<le> op" "op < 0xb4"
  proof -
    have "op = 0xb3" using that by (rule u8_point) simp
    then show ?thesis unfolding abi_defs by (simp add: op_operands(10) mult.commute)
  qed
  show "exec_op e sz op st bs pc_set = abi_exec e sz op st bs pc_set"
    if "0xb4 \<le> op" "op < 0xb8"
    using that unfolding abi_defs by (simp add: rng)
  show "exec_op e sz op st bs pc_set = abi_exec e sz op st bs pc_set"
    if "0xb8 \<le> op" "op < 0xc0"
    using that op_operands(7) unfolding abi_defs by (simp add: rng mult.commute)
  show "exec_op e sz op st bs pc_set = abi_exec e sz op st bs pc_set"
    if "0xc0 \<le> op" "op < 0xc6"
    using that op_operands(8) unfolding abi_defs by (simp add: rng mult.commute)
  show "exec_op e sz op st bs pc_set = abi_exec e sz op st bs pc_set"
    if "0xc8 \<le> op" "op < 0xc9"
  proof -
    have "op = 0xc8" using that by (rule u8_point) simp
    then show ?thesis unfolding abi_defs by (simp add: op_operands(10) mult.commute)
  qed
  show "exec_op e sz op st bs pc_set = abi_exec e sz op st bs pc_set"
    if "0xc9 \<le> op" "op < 0xca"
  proof -
    have "op = 0xc9" using that by (rule u8_point) simp
    then show ?thesis unfolding abi_defs by (simp add: op_operands(10) mult.commute)
  qed
  show "exec_op e sz op st bs pc_set = abi_exec e sz op st bs pc_set"
    if "0xca \<le> op" "op < 0xd0"
    using that unfolding abi_defs by (simp add: rng)
  show "exec_op e sz op st bs pc_set = abi_exec e sz op st bs pc_set"
    if "0xd0 \<le> op" "op < 0xd8"
    using that op_operands(9) unfolding abi_defs by (simp add: rng mult.commute)
  show "exec_op e sz op st bs pc_set = abi_exec e sz op st bs pc_set"
    if "0xd8 \<le> op"
    using that unfolding abi_defs by (simp add: rng)
qed

text \<open>
  C8. Instruction by instruction, the code executes the table of the ABI: its tests of masked bits
  in source order select the table's ranges and operands. Two first bytes are excepted, \<open>0xc6\<close> and
  \<open>0xc7\<close>, and the workaround that reads r12 when \<open>0x97\<close> finds no stack address in r7.
\<close>

theorem exec_op_follows_abi:
  assumes "op \<noteq> 0xc6" "op \<noteq> 0xc7"
    and "op = 0x97 \<longrightarrow> gregs st 7 AND 0xffff0000 \<noteq> 0"
  shows "exec_op e sz op st bs pc_set = abi_exec e sz op st bs pc_set"
proof -
  have "op < 0xc6" if "op < 0xc7" using that assms(1) unfolding rng by simp
  moreover have "0xc8 \<le> op" if "0xc7 \<le> op" using that assms(2) unfolding rng by simp
  ultimately show ?thesis using assms(3)
    by (cases "op < 0x40", simp add: exec_abi_ranges,
      cases "op < 0x80", simp add: not_less exec_abi_ranges,
      cases "op < 0x90", simp add: not_less exec_abi_ranges,
      cases "op < 0xa0", simp add: not_less exec_abi_ranges,
      cases "op < 0xa8", simp add: not_less exec_abi_ranges,
      cases "op < 0xb0", simp add: not_less exec_abi_ranges,
      cases "op < 0xb1", simp add: not_less exec_abi_ranges,
      cases "op < 0xb2", simp add: not_less exec_abi_ranges,
      cases "op < 0xb3", simp add: not_less exec_abi_ranges,
      cases "op < 0xb4", simp add: not_less exec_abi_ranges,
      cases "op < 0xb8", simp add: not_less exec_abi_ranges,
      cases "op < 0xc0", simp add: not_less exec_abi_ranges,
      cases "op < 0xc7", simp add: not_less exec_abi_ranges,
      cases "op < 0xc9", simp add: not_less exec_abi_ranges,
      cases "op < 0xca", simp add: not_less exec_abi_ranges,
      cases "op < 0xd0", simp add: not_less exec_abi_ranges,
      cases "op < 0xd8", simp add: not_less exec_abi_ranges,
      simp add: not_less exec_abi_ranges)
qed
theorem exec_op_follows_abi_witness:
  "exec_op stack_env 3 0xa8 stack_state \<lparr>bs_ptr = 1, bs_word = 0\<rparr> False =
     abi_exec stack_env 3 0xa8 stack_state \<lparr>bs_ptr = 1, bs_word = 0\<rparr> False \<and>
   abi_decode 0xa8 = InsnPopR4 0x4010"
proof -
  have "abi_decode 0xa8 = InsnPopR4 0x4010"
    by (simp add: abi_decode_def r4_upto_def mask_eq_exp_minus_1)
  then show ?thesis using exec_op_follows_abi [of "0xa8" stack_state] by simp
qed

text \<open>
  The two excepted instructions never run as the table says: the test for \<open>0xc0\<close> to \<open>0xc7\<close>
  comes first, so \<open>0xc6\<close> and \<open>0xc7\<close> move the stack pointer by 56 and 64 bytes and leave their
  operand byte in the stream, to be executed as the next instruction.
\<close>

theorem exec_op_c6_c7_shadowed:
  "exec_op e sz 0xc6 st bs pc_set = StepNext sz (add_sp st 56) bs pc_set
   \<and> exec_op e sz 0xc7 st bs pc_set = StepNext sz (add_sp st 64) bs pc_set
   \<and> abi_exec e sz 0xc6 st bs pc_set \<noteq> exec_op e sz 0xc6 st bs pc_set
   \<and> abi_exec e sz 0xc7 st bs pc_set \<noteq> exec_op e sz 0xc7 st bs pc_set"
proof -
  have c6: "exec_op e sz 0xc6 st bs pc_set = StepNext sz (add_sp st 56) bs pc_set"
    and c7: "exec_op e sz 0xc7 st bs pc_set = StepNext sz (add_sp st 64) bs pc_set"
    by (simp_all add: exec_op_def)
  have "abi_exec e sz 0xc6 st bs pc_set \<noteq> StepNext sz (add_sp st 56) bs pc_set"
    and "abi_exec e sz 0xc7 st bs pc_set \<noteq> StepNext sz (add_sp st 64) bs pc_set"
    unfolding abi_exec_def abi_decode_def
    by (auto simp: with_op2_def split: option.splits)
  with c6 c7 show ?thesis by simp
qed

end
