(* ===== verification/ArmLoop.thy ===== *)
theory ArmLoop
  imports ArmInsns
begin

text \<open>
  The collection loop of the ARM unwinder: it ends, it stays within the caller's array, it does
  not fault on a mapped stack, and the frames it has recorded stay as they are.
\<close>

section \<open>No fault on a mapped stack\<close>

text \<open>
  The bounds are found without overrunning the line buffer, and every word between the bounds that are reported is
  mapped. (Without bounds both are 0, and the word at address 0 is read.)
\<close>

definition stack_known :: "unwind_env \<Rightarrow> bool" where
  "stack_known e \<longleftrightarrow> proc_fits (ue_proc e) \<and>
     (\<forall>r c. ubrd_get_stack (ue_proc e) (ue_cache e) = Ok (r, c) \<longrightarrow> stack_mapped (ue_self e) (reported r))"

lemma get_word_stack_no_fault:
  assumes "stack_known e"
  shows "get_word_stack e p \<noteq> Fault"
proof -
  obtain r c where "ubrd_get_stack (ue_proc e) (ue_cache e) = Ok (r, c)"
    using assms ubrd_get_stack_fits unfolding stack_known_def by blast
  then show ?thesis using assms by (simp add: get_word_stack_def try_get_word_stack_def stack_known_def stack_word_no_fault)
qed

lemma pop_loop_no_fault:
  "stack_known e \<Longrightarrow> pop_loop e m is sp u st \<noteq> Fault"
  by (induction "is" arbitrary: sp u st) (auto simp: get_word_stack_no_fault split: outcome.splits)

lemma try_pop_registers_no_fault:
  "stack_known e \<Longrightarrow> try_pop_registers e st m \<noteq> Fault"
  by (auto simp: try_pop_registers_def bindo_eq_Fault pop_loop_no_fault)

lemma try_pop_registers_not_Fail: "try_pop_registers e st m \<noteq> Fail"
proof -
  have "pop_loop e m is sp u s \<noteq> Fail" for "is" sp u s
    by (induction "is" arbitrary: sp u s) (auto split: outcome.splits)
  then show ?thesis
    unfolding try_pop_registers_def
    by (cases "pop_loop e m [0..<16] (gregs st R_SP) False st") auto
qed

lemma pop_step_no_crash:
  assumes "stack_known e"
  shows "pop_step e sz st bs m pc \<noteq> StepCrash"
  using try_pop_registers_no_fault [OF assms, of st m] try_pop_registers_not_Fail [of e st m]
  by (auto simp: pop_step_def split: outcome.splits bool.splits)

lemma with_op2_no_crash:
  "(\<And>n op2 bs. k n op2 bs \<noteq> StepCrash) \<Longrightarrow> with_op2 e sz st bs k \<noteq> StepCrash"
  by (auto simp: with_op2_def split: option.splits)

lemma exec_op_no_crash:
  "stack_known e \<Longrightarrow> exec_op e sz op st bs pc \<noteq> StepCrash"
  unfolding exec_op_def Let_def
  by (auto intro!: with_op2_no_crash simp: pop_step_no_crash split: option.splits if_splits)

lemma pr_loop_no_crash:
  "stack_known e \<Longrightarrow> pr_loop e sz st bs pc \<noteq> PrCrash"
  by (induction e sz st bs pc rule: pr_loop.induct)
     (auto simp: exec_op_no_crash split: option.splits step_result.splits)

lemma execute_personality_routine_no_fault:
  "stack_known e \<Longrightarrow> execute_personality_routine e st bs i \<noteq> Fault"
  by (auto simp: execute_personality_routine_def pr_loop_no_crash
      split: option.splits pr_result.splits)

lemma find_pc_on_stack_no_fault:
  "stack_known e \<Longrightarrow> find_pc_on_stack e n sp pc \<noteq> Fault"
  by (induction n arbitrary: sp) (auto simp: bindo_eq_Fault get_word_stack_no_fault)

lemma try_pop_Stack_outcome:
  assumes "stack_known e"
  shows "\<exists>r. try_pop_Stack_ForNotSaveInASM e st = Ok r"
  using get_word_stack_no_fault [OF assms] find_pc_on_stack_no_fault [OF assms]
  by (auto simp: try_pop_Stack_ForNotSaveInASM_def split: outcome.splits option.splits)

lemma unwind_step_no_crash:
  assumes "stack_known e"
  shows "unwind_step e ign mx first st fb \<noteq> UwCrash"
proof -
  obtain r where "\<And>s. try_pop_Stack_ForNotSaveInASM e s = Ok (r s)"
    using try_pop_Stack_outcome [OF assms] by metis
  then show ?thesis
    unfolding unwind_step_def Let_def
    by (auto simp: execute_personality_routine_no_fault [OF assms]
        split: option.splits outcome.splits bool.splits prod.splits)
qed

section \<open>Frames and termination\<close>

definition exidx_bounded :: "unwind_env \<Rightarrow> bool" where
  "exidx_bounded e \<longleftrightarrow> (\<forall>pc. unat (snd (exidx_section e pc)) < 2147483648)"

text \<open>Each round records or skips exactly one pc, or stops before doing so.\<close>

definition round_pc :: "unwind_env \<Rightarrow> bool \<Rightarrow> unwind_state \<Rightarrow> u32" where
  "round_pc e first st = (if first then gregs st R_PC else rewind_pc_arch e (gregs st R_PC))"

lemma unwind_step_no_hang: "exidx_bounded e \<Longrightarrow> unwind_step e ign mx first st fb \<noteq> UwHang"
proof -
  assume "exidx_bounded e"
  then have "get_exception_handler e pc \<noteq> None" for pc
    by (intro get_exception_handler_ends) (simp add: exidx_bounded_def)
  then obtain h where "get_exception_handler e (round_pc e first st) = Some h" by blast
  then show ?thesis
    unfolding unwind_step_def Let_def round_pc_def
    by (simp split: option.split outcome.split bool.split prod.split)
qed

lemma unwind_step_ContinueD:
  "unwind_step e ign mx first st fb = UwContinue st' fb' \<Longrightarrow>
   fb' = add_backtrace_entry (round_pc e first st) ign mx fb \<and> gregs st R_PC \<ge> 0x100000"
  by (auto simp: unwind_step_def round_pc_def Let_def
      split: if_splits option.splits outcome.splits bool.splits prod.splits)

lemma unwind_step_BreakD:
  "unwind_step e ign mx first st fb = UwBreak st' fb' \<Longrightarrow>
   fb' = (if gregs st R_PC < 0x100000 then fb
          else add_backtrace_entry (round_pc e first st) ign mx fb)"
  by (auto simp: unwind_step_def round_pc_def Let_def
      split: if_splits option.splits outcome.splits bool.splits prod.splits)

lemma unwind_loop_ends:
  assumes "exidx_bounded e"
  shows "frame_room ign mx fb < fuel \<Longrightarrow> unwind_loop fuel e ign mx first st fb \<noteq> UwEndHang"
proof (induction fuel arbitrary: first st fb)
  case 0
  then show ?case by simp
next
  case (Suc fuel)
  show ?case
  proof (cases "length (bt_frames fb) < mx")
    case True
    have "unwind_loop fuel e ign mx False st' fb' \<noteq> UwEndHang"
      if "unwind_step e ign mx first st fb = UwContinue st' fb'" for st' fb'
    proof -
      have "frame_room ign mx fb' < frame_room ign mx fb"
        using unwind_step_ContinueD [OF that] frame_room_decreases [OF True] by simp
      then show ?thesis using Suc.IH Suc.prems by simp
    qed
    then show ?thesis
      using True unwind_step_no_hang [OF assms] by (auto split: uw_result.splits)
  qed auto
qed

lemma unwind_loop_no_crash:
  "stack_known e \<Longrightarrow> unwind_loop fuel e ign mx first st fb \<noteq> UwEndCrash"
  by (induction fuel arbitrary: first st fb)
     (auto simp: unwind_step_no_crash split: uw_result.splits)

definition extends :: "frame_buffer \<Rightarrow> frame_buffer \<Rightarrow> bool" where
  "extends fb fb' \<longleftrightarrow> (\<exists>r. bt_frames fb' = bt_frames fb @ r)"

lemma extends_refl [simp, intro]: "extends fb fb"
  by (simp add: extends_def)

lemma extends_trans: "extends a b \<Longrightarrow> extends b c \<Longrightarrow> extends a c"
  by (auto simp: extends_def)

lemma add_backtrace_entry_extends [simp, intro]: "extends fb (add_backtrace_entry pc ign mx fb)"
  by (auto simp: extends_def add_backtrace_entry_def)

lemma unwind_loop_frames:
  "unwind_loop fuel e ign mx first st fb = UwEnd st' fb' \<Longrightarrow> length (bt_frames fb) \<le> mx \<Longrightarrow>
   length (bt_frames fb') \<le> mx \<and> extends fb fb'"
proof (induction fuel arbitrary: first st fb)
  case 0
  then show ?case by simp
next
  case (Suc fuel)
  let ?add = "add_backtrace_entry (round_pc e first st) ign mx fb"
  have len: "length (bt_frames ?add) \<le> mx"
    using Suc.prems(2) by (rule add_backtrace_entry_bound)
  show ?case
  proof (cases "length (bt_frames fb) < mx")
    case False
    then show ?thesis using Suc.prems by simp
  next
    case True
    show ?thesis
    proof (cases "unwind_step e ign mx first st fb")
      case (UwContinue st1 fb1)
      then have "fb1 = ?add" using unwind_step_ContinueD by blast
      with UwContinue True Suc.prems Suc.IH [of False st1 fb1] len show ?thesis
        using extends_trans add_backtrace_entry_extends by fastforce
    next
      case (UwBreak st1 fb1)
      then have "fb1 = fb \<or> fb1 = ?add" using unwind_step_BreakD by metis
      with UwBreak True Suc.prems len show ?thesis by auto
    qed (use True Suc.prems in auto)
  qed
qed

lemma empty_frames_simps [simp]:
  "bt_frames empty_frames = []" "ignored_frames empty_frames = 0"
  "frame_room ign mx empty_frames = ign + mx"
  by (simp_all add: empty_frames_def frame_room_def)

lemma add_lr_frame_props:
  "length (bt_frames fb) \<le> mx \<Longrightarrow>
   length (bt_frames (add_lr_frame e ign mx st fb)) \<le> mx \<and> extends fb (add_lr_frame e ign mx st fb)"
  by (simp add: add_lr_frame_def add_backtrace_entry_bound)

lemma unwind_backtrace_common_ok:
  assumes "stack_known e" "exidx_bounded e"
  shows "\<exists>fb. unwind_backtrace_common e st ign max_depth = UwFrames fb
    \<and> length (bt_frames fb) \<le> max_depth"
proof (cases "unwind_loop (Suc (ign + max_depth)) e ign max_depth True st empty_frames")
  case (UwEnd st' fb)
  have "length (bt_frames fb) \<le> max_depth"
    using unwind_loop_frames [OF UwEnd] by simp
  then show ?thesis using UwEnd add_lr_frame_props by (auto simp: unwind_backtrace_common_def)
next
  case UwEndCrash
  then show ?thesis using unwind_loop_no_crash [OF assms(1)] by blast
next
  case UwEndHang
  moreover have "frame_room ign max_depth empty_frames < Suc (ign + max_depth)" by simp
  ultimately show ?thesis using unwind_loop_ends [OF assms(2)] by blast
qed

text \<open>
  C2. Safety and termination of a whole backtrace. As long as the bounds of the stack are looked for without a line of
  1024 characters in the proc files, the words between the bounds used are mapped, and the index tables have less than
  2^31 entries, the unwinder returns whatever registers and memory it is given, never faults, and writes at most
  \<open>max_depth\<close> frames. (When the bounds cannot be found, -1 is ignored and they are 0 and 0: then a stack pointer of 0 is read.)
\<close>

theorem unwind_backtrace_common_safe:
  assumes "proc_fits (ue_proc e)"
    and "\<forall>r c. ubrd_get_stack (ue_proc e) (ue_cache e) = Ok (r, c) \<longrightarrow> stack_mapped (ue_self e) (reported r)"
    and "exidx_bounded e"
  shows "\<exists>fb. unwind_backtrace_common e st ign max_depth = UwFrames fb
    \<and> length (bt_frames fb) \<le> max_depth"
  by (rule unwind_backtrace_common_ok) (use assms in \<open>simp_all add: stack_known_def\<close>)

lemma stack_mapped_sample: "stack_mapped (\<lambda>_. Some 0) sb"
  by (simp add: stack_mapped_def)

theorem unwind_backtrace_common_safe_witness:
  "\<exists>fb. unwind_backtrace_common (sample_env\<lparr>ue_self := (\<lambda>_. Some 0)\<rparr>) stack_state 2 8 = UwFrames fb
    \<and> length (bt_frames fb) \<le> 8"
proof (rule unwind_backtrace_common_safe)
  let ?e = "sample_env\<lparr>ue_self := (\<lambda>_. Some 0)\<rparr>"
  show "proc_fits (ue_proc ?e)" by (simp add: proc_fits_def sample_env_def thread_at_def)
  show "\<forall>r c. ubrd_get_stack (ue_proc ?e) (ue_cache ?e) = Ok (r, c) \<longrightarrow> stack_mapped (ue_self ?e) (reported r)"
    using stack_mapped_sample by simp
  show "exidx_bounded ?e"
    by (simp add: exidx_bounded_def exidx_section_def find_exidx_def sample_env_def init_memory_def)
qed

text \<open>
  When no frame is to be skipped and there is room for one, the first frame recorded is the pc
  the unwinding started from, unrewound, provided that it lies above the lowest megabyte.
\<close>

theorem unwind_backtrace_common_first_frame:
  assumes "unwind_backtrace_common e st 0 max_depth = UwFrames fb"
    and "0 < max_depth" "gregs st R_PC \<ge> 0x100000"
  shows "bt_frames fb \<noteq> [] \<and> hd (bt_frames fb) = gregs st R_PC"
proof -
  have add: "bt_frames (add_backtrace_entry (round_pc e True st) 0 max_depth empty_frames) = [gregs st R_PC]"
    using assms(2) by (simp add: add_backtrace_entry_def round_pc_def)
  obtain st' fb' where loop: "unwind_loop (Suc max_depth) e 0 max_depth True st empty_frames = UwEnd st' fb'"
    and fb: "fb = add_lr_frame e 0 max_depth st' fb'"
    using assms(1) by (auto simp: unwind_backtrace_common_def split: uw_end.splits)
  have first: "extends (add_backtrace_entry (round_pc e True st) 0 max_depth empty_frames) fb'"
  proof (cases "unwind_step e 0 max_depth True st empty_frames")
    case (UwContinue st1 fb1)
    then have "fb1 = add_backtrace_entry (round_pc e True st) 0 max_depth empty_frames"
      using unwind_step_ContinueD by blast
    with UwContinue loop assms(2) unwind_loop_frames [of max_depth e 0 max_depth False st1 fb1 st' fb']
    show ?thesis using add_backtrace_entry_bound [of empty_frames max_depth] by auto
  next
    case (UwBreak st1 fb1)
    then show ?thesis using unwind_step_BreakD [OF UwBreak] loop assms(2,3) by (auto simp: not_less)
  qed (use loop assms(2) in auto)
  have "length (bt_frames fb') \<le> max_depth" using unwind_loop_frames [OF loop] by simp
  then have "extends fb' fb" unfolding fb using add_lr_frame_props by blast
  with first add show ?thesis by (auto simp: extends_def)
qed

theorem unwind_backtrace_common_first_frame_witness:
  "\<exists>fb. unwind_backtrace_common sample_env \<lparr>gregs = (\<lambda>_. 0x200000)\<rparr> 0 1 = UwFrames fb
     \<and> bt_frames fb \<noteq> [] \<and> hd (bt_frames fb) = 0x200000"
proof -
  have "\<exists>fb. unwind_backtrace_common sample_env \<lparr>gregs = (\<lambda>_. 0x200000)\<rparr> 0 1 = UwFrames fb"
    by (simp add: unwind_backtrace_common_def unwind_step_def get_exception_handler_def
        exidx_section_def find_exidx_def sample_env_def init_memory_def R_PC_def R_LR_def
        exidx_probe_def get_word_def try_get_word_eq sample_image_def load_poison_def
        prel_to_absolute_def EXIDX_CANTUNWIND_def)
  then obtain fb where fb: "unwind_backtrace_common sample_env \<lparr>gregs = (\<lambda>_. 0x200000)\<rparr> 0 1 = UwFrames fb" ..
  from unwind_backtrace_common_first_frame [OF this] show ?thesis using fb by (simp add: R_PC_def)
qed

end
