(* ===== verification/BackTrace.thy ===== *)
theory BackTrace
  imports UnwindMem
begin

text \<open>
  \<open>src/proprietary/external/libudf/malloc_debug/back_trace.c\<close>: how the malloc debugger takes a
  back trace when it follows frame pointers (32-bit and 64-bit build) and when it asks the
  C++ unwinder. The stack of the traced thread is a parameter, a memory image as in the
  unwinder's memory theory.
\<close>

section \<open>Where the stack lies\<close>

text \<open>\<open>malloc_get_main_thread_stack\<close>: start and size; the scans of the two proc files are those of ptrace.c.\<close>

definition malloc_get_main_thread_stack :: "proc_env \<Rightarrow> (u32 \<times> u32) outcome" where
  "malloc_get_main_thread_stack pe =
     (if \<not> pe_libc pe then Fail
      else case pe_maps pe of None \<Rightarrow> Fail
      | Some maps \<Rightarrow> bindo (scan_maps maps (pe_line pe) 0) (\<lambda>(line, found).
          case found of Some start \<Rightarrow> Ok (start, 8 * 1024 * 1024)
          | None \<Rightarrow>
            (case pe_stat pe of None \<Rightarrow> Fail
             | Some stat \<Rightarrow> bindo (scan_stat stat (line[0 := NUL]) 0 0) (\<lambda>line'.
                 if line' ! 0 \<noteq> NUL
                 then Ok (fst (strtoul (c_str_at line' 0) 10), 8 * 1024 * 1024)
                 else Fail))))"

text \<open>
  \<open>malloc_get_stack\<close> with its three static variables; \<open>None\<close> is the return value -1.
\<close>

definition malloc_get_stack ::
  "proc_env \<Rightarrow> stack_cache \<Rightarrow> (stack_bounds option \<times> stack_cache) outcome" where
  "malloc_get_stack pe st0 =
     (if pe_tid pe = pe_pid pe then
        (let st = reset_for_process pe st0;
             bounds = (\<lambda>s. Some \<lparr>sb_start = main_start s, sb_end = main_start s - main_size s\<rparr>)
         in if main_start st = 0 then
              (case malloc_get_main_thread_stack pe of
                 Fault \<Rightarrow> Fault
               | Fail \<Rightarrow> Ok (None, st)
               | Ok (a, sz) \<Rightarrow>
                   (let st' = st\<lparr>main_start := a, main_size := sz\<rparr> in Ok (bounds st', st')))
            else Ok (bounds st, st))
      else Ok (Some \<lparr>sb_start = pe_attr_base pe + pe_attr_size pe, sb_end = pe_attr_base pe\<rparr>, st0))"

section \<open>Following frame pointers, 32 bit\<close>

definition on_stack :: "stack_bounds \<Rightarrow> u32 \<Rightarrow> bool" where
  "on_stack sb p \<longleftrightarrow> p \<ge> sb_end sb \<and> p \<le> sb_start sb - 4"

definition read_word :: "memory_image \<Rightarrow> u32 \<Rightarrow> u32 outcome" where
  "read_word img p = (case img p of None \<Rightarrow> Fault | Some v \<Rightarrow> Ok v)"

text \<open>
  What one frame gives: the return address and the next frame pointer. A frame of Clang has
  the next frame pointer at \<open>fp\<close> and the return address after it; a frame of GCC has the
  return address at \<open>fp\<close> and the next frame pointer before it. \<open>None\<close> is the first
  \<open>break\<close> of the loop.
\<close>

definition read_frame :: "memory_image \<Rightarrow> stack_bounds \<Rightarrow> u32 \<Rightarrow> (u32 \<times> u32) option outcome" where
  "read_frame img sb fp =
     bindo (read_word img fp) (\<lambda>lr.
       if on_stack sb lr then
         (if fp + 4 > sb_start sb - 4 then Ok None
          else bindo (read_word img (fp + 4)) (\<lambda>lr'. Ok (Some (lr', lr))))
       else bindo (read_word img (fp - 4)) (\<lambda>next_fp. Ok (Some (lr, next_fp))))"

fun fp_loop :: "memory_image \<Rightarrow> stack_bounds \<Rightarrow> nat \<Rightarrow> u32 \<Rightarrow> u32 list outcome" where
  "fp_loop img sb 0 fp = Ok []"
| "fp_loop img sb (Suc room) fp =
     (if \<not> on_stack sb fp then Ok []
      else bindo (read_frame img sb fp) (\<lambda>fr.
        case fr of None \<Rightarrow> Ok []
        | Some (lr, next_fp) \<Rightarrow>
           (if lr < 0x10000000 then Ok []
            else if next_fp \<le> fp then Ok [lr - 4]
            else bindo (fp_loop img sb room next_fp) (\<lambda>addrs. Ok ((lr - 4) # addrs)))))"

text \<open>\<open>get_backtrace_fp\<close>: the filled part of \<open>addrs\<close> (its length is the value returned) and the static variables.\<close>

definition get_backtrace_fp ::
  "memory_image \<Rightarrow> proc_env \<Rightarrow> stack_cache \<Rightarrow> u32 \<Rightarrow> nat \<Rightarrow> (u32 list \<times> stack_cache) outcome" where
  "get_backtrace_fp img pe st fp max_entries =
     bindo (malloc_get_stack pe st) (\<lambda>(r, st').
       case r of None \<Rightarrow> Ok ([], st')
       | Some sb \<Rightarrow> bindo (fp_loop img sb max_entries fp) (\<lambda>addrs. Ok (addrs, st')))"

section \<open>Following frame pointers, 64 bit\<close>

text \<open>
  In the 64-bit build \<open>get_backtrace_fp\<close> and \<open>get_backtrace\<close> have the same body: they start
  at the frame of the function itself, which is skipped. The bounds are arguments here.
\<close>

type_synonym memory_image64 = "u64 \<Rightarrow> u64 option"

definition read_dword :: "memory_image64 \<Rightarrow> u64 \<Rightarrow> u64 outcome" where
  "read_dword img p = (case img p of None \<Rightarrow> Fault | Some v \<Rightarrow> Ok v)"

definition on_stack64 :: "u64 \<Rightarrow> u64 \<Rightarrow> u64 \<Rightarrow> bool" where
  "on_stack64 stack_start stack_end p \<longleftrightarrow> p > stack_end \<and> p < stack_start"

fun fp64_loop :: "memory_image64 \<Rightarrow> u64 \<Rightarrow> u64 \<Rightarrow> nat \<Rightarrow> u64 \<Rightarrow> u64 list outcome" where
  "fp64_loop img s e 0 fp = Ok []"
| "fp64_loop img s e (Suc room) fp =
     (if \<not> on_stack64 s e fp then Ok []
      else if fp AND 0xf \<noteq> 0 then Ok []
      else bindo (read_dword img (fp + 8)) (\<lambda>lr.
        if lr < 0xfffffffff then Ok []
        else bindo (read_dword img fp) (\<lambda>next_fp.
          if next_fp \<le> fp then Ok [lr - 4]
          else bindo (fp64_loop img s e room next_fp) (\<lambda>addrs. Ok ((lr - 4) # addrs)))))"

definition get_backtrace64 :: "memory_image64 \<Rightarrow> u64 \<Rightarrow> u64 \<Rightarrow> u64 \<Rightarrow> nat \<Rightarrow> u64 list outcome" where
  "get_backtrace64 img stack_start stack_end frame_address max_entries =
     (if 0 < max_entries \<and> on_stack64 stack_start stack_end frame_address then
        (if frame_address AND 0xf \<noteq> 0 then Ok []
         else bindo (read_dword img frame_address) (fp64_loop img stack_start stack_end max_entries))
      else Ok [])"

section \<open>Asking the C++ unwinder\<close>

datatype unwind_reason = URC_NO_REASON | URC_END_OF_STACK

text \<open>\<open>stack_crawl_state_t\<close>: the room that is left and what was stored before \<open>addrs\<close>.\<close>

record stack_crawl_state =
  count :: nat
  stored :: "u32 list"

definition trace_function :: "u32 \<Rightarrow> stack_crawl_state \<Rightarrow> unwind_reason \<times> stack_crawl_state" where
  "trace_function ip state =
     (if count state \<noteq> 0 \<and> ip \<noteq> 0
      then (URC_NO_REASON, state\<lparr>stored := stored state @ [ip], count := count state - 1\<rparr>)
      else (URC_END_OF_STACK, state))"

text \<open>
  \<open>_Unwind_Backtrace\<close> is a parameter: the function that calls its first argument on the frames.
\<close>

type_synonym unwinder =
  "(u32 \<Rightarrow> stack_crawl_state \<Rightarrow> unwind_reason \<times> stack_crawl_state) \<Rightarrow> stack_crawl_state \<Rightarrow> stack_crawl_state"

definition get_backtrace :: "unwinder \<Rightarrow> nat \<Rightarrow> nat \<times> u32 list" where
  "get_backtrace unwind_backtrace max_entries =
     (let state = unwind_backtrace trace_function \<lparr>count = max_entries, stored = []\<rparr>
      in (max_entries - count state, stored state))"

text \<open>
  What the documentation of \<open>_Unwind_Backtrace\<close> says: the callback is called once per frame,
  innermost first, until it returns something other than \<open>_URC_NO_REASON\<close>.
\<close>

fun call_frames ::
  "u32 list \<Rightarrow> (u32 \<Rightarrow> stack_crawl_state \<Rightarrow> unwind_reason \<times> stack_crawl_state) \<Rightarrow> stack_crawl_state
     \<Rightarrow> stack_crawl_state" where
  "call_frames [] f s = s"
| "call_frames (ip # ips) f s =
     (let (r, s') = f ip s in if r = URC_NO_REASON then call_frames ips f s' else s')"

definition calls_in_order :: "unwinder \<Rightarrow> u32 list \<Rightarrow> bool" where
  "calls_in_order unwind_backtrace ips \<longleftrightarrow> (\<forall>f s. unwind_backtrace f s = call_frames ips f s)"

section \<open>Properties of the walk\<close>

lemma read_word_iff: "read_word img p = Ok v \<longleftrightarrow> img p = Some v"
  "read_word img p = Fault \<longleftrightarrow> img p = None" "read_word img p \<noteq> Fail"
  by (auto simp: read_word_def split: option.splits)

lemma bindo_Ok [simp]: "m = Ok x \<Longrightarrow> bindo m f = f x"
  by simp

lemma fp_loop_step:
  assumes "on_stack sb fp" "read_frame img sb fp = Ok (Some (lr, nx))" "0x10000000 \<le> lr"
  shows "fp_loop img sb (Suc room) fp =
    (if nx \<le> fp then Ok [lr - 4]
     else bindo (fp_loop img sb room nx) (\<lambda>addrs. Ok ((lr - 4) # addrs)))"
  using assms leD [OF assms(3)] by simp

lemma fp_loop_Suc_OkD:
  assumes "fp_loop img sb (Suc room) fp = Ok addrs"
  shows "addrs = [] \<or> (\<exists>lr nx rest. on_stack sb fp \<and> 0x10000000 \<le> lr \<and> addrs = (lr - 4) # rest
     \<and> (rest = [] \<or> fp_loop img sb room nx = Ok rest))"
proof (cases "on_stack sb fp")
  case stack: True
  show ?thesis
  proof (cases "read_frame img sb fp")
    case (Ok fr)
    show ?thesis
    proof (cases fr)
      case None
      then show ?thesis using assms stack Ok by simp
    next
      case (Some r)
      obtain lr nx where r: "r = (lr, nx)" by (cases r)
      show ?thesis
      proof (cases "0x10000000 \<le> lr")
        case True
        have "(if nx \<le> fp then Ok [lr - 4]
            else bindo (fp_loop img sb room nx) (\<lambda>addrs. Ok ((lr - 4) # addrs))) = Ok addrs"
          using fp_loop_step [OF stack _ True, of img nx room] Ok Some r assms by simp
        then obtain rest where "addrs = (lr - 4) # rest" "rest = [] \<or> fp_loop img sb room nx = Ok rest"
          by (cases "nx \<le> fp") (auto simp: bindo_eq_Ok)
        then show ?thesis using stack True by blast
      next
        case False
        then show ?thesis using assms stack Ok Some r by (simp add: not_le)
      qed
    qed
  qed (use assms stack in simp_all)
qed (use assms in simp)

lemma fp_loop_result:
  "fp_loop img sb room fp = Ok addrs \<Longrightarrow> length addrs \<le> room \<and> (\<forall>a \<in> set addrs. 0x10000000 \<le> a + 4)"
proof (induction room arbitrary: fp addrs)
  case (Suc room)
  from fp_loop_Suc_OkD [OF Suc.prems] show ?case
    by (elim disjE exE conjE) (auto dest: Suc.IH)
qed simp

text \<open>
  The words the walk may touch: every word of the stack, and the one before it, because a
  frame of GCC is read below its frame pointer.
\<close>

definition walk_mapped :: "memory_image \<Rightarrow> stack_bounds \<Rightarrow> bool" where
  "walk_mapped img sb \<longleftrightarrow> (\<forall>p. on_stack sb p \<longrightarrow> img p \<noteq> None \<and> img (p - 4) \<noteq> None)"

lemma next_on_stack:
  assumes "on_stack sb fp" "\<not> fp + 4 > sb_start sb - 4"
    "sb_end sb \<le> sb_start sb" "4 \<le> sb_start sb"
  shows "on_stack sb (fp + 4)"
proof -
  have a: "unat (sb_start sb - 4) = unat (sb_start sb) - 4" "4 \<le> unat (sb_start sb)"
    using assms(4) by (simp_all add: unat_sub_if' word_le_nat_alt)
  have "unat fp + 4 < 4294967296"
    using assms(1) a unat_u32_less [of "sb_start sb"] unfolding on_stack_def word_le_nat_alt by linarith
  then have "unat (fp + 4) = unat fp + 4" by (simp add: unat_add_u32)
  then show ?thesis using assms(1,2) unfolding on_stack_def word_le_nat_alt by (simp add: not_less word_le_nat_alt)
qed

lemma read_frame_ok:
  assumes "walk_mapped img sb" "sb_end sb \<le> sb_start sb" "4 \<le> sb_start sb" "on_stack sb fp"
  shows "\<exists>fr. read_frame img sb fp = Ok fr"
proof -
  obtain w where w: "img fp = Some w" using assms(1,4) by (auto simp: walk_mapped_def)
  obtain v where v: "img (fp - 4) = Some v" using assms(1,4) by (auto simp: walk_mapped_def)
  show ?thesis
  proof (cases "on_stack sb w \<and> \<not> fp + 4 > sb_start sb - 4")
    case True
    then have "on_stack sb (fp + 4)" using next_on_stack assms by blast
    then obtain u where "img (fp + 4) = Some u" using assms(1) by (auto simp: walk_mapped_def)
    then show ?thesis using True w by (simp add: read_frame_def read_word_def)
  next
    case False
    then show ?thesis using w v by (auto simp: read_frame_def read_word_def)
  qed
qed

lemma fp_loop_ok:
  assumes "walk_mapped img sb" "sb_end sb \<le> sb_start sb" "4 \<le> sb_start sb"
  shows "\<exists>addrs. fp_loop img sb room fp = Ok addrs"
proof (induction room arbitrary: fp)
  case (Suc room)
  show ?case
  proof (cases "on_stack sb fp")
    case True
    obtain fr where fr: "read_frame img sb fp = Ok fr" using read_frame_ok [OF assms True] by blast
    show ?thesis
    proof (cases fr)
      case (Some r)
      obtain lr nx where "r = (lr, nx)" by (cases r)
      then show ?thesis using True fr Some Suc.IH [of nx] by auto
    qed (use True fr in simp)
  qed simp
qed simp

text \<open>
  A chain of frames: each frame pointer is a larger address than the one before, the last
  one leaves the stack or holds no plausible return address.
\<close>

inductive frames_from :: "memory_image \<Rightarrow> stack_bounds \<Rightarrow> u32 \<Rightarrow> u32 list \<Rightarrow> bool"
  for img sb where
  outside: "\<not> on_stack sb fp \<Longrightarrow> frames_from img sb fp []"
| bottom: "\<lbrakk> on_stack sb fp; img fp = Some w; \<not> on_stack sb w; w < 0x10000000; img (fp - 4) \<noteq> None \<rbrakk>
    \<Longrightarrow> frames_from img sb fp []"
| clang: "\<lbrakk> on_stack sb fp; img fp = Some nx; on_stack sb nx; on_stack sb (fp + 4); img (fp + 4) = Some lr;
    0x10000000 \<le> lr; fp < nx; frames_from img sb nx lrs \<rbrakk> \<Longrightarrow> frames_from img sb fp (lr # lrs)"
| gcc: "\<lbrakk> on_stack sb fp; img fp = Some lr; \<not> on_stack sb lr; 0x10000000 \<le> lr; img (fp - 4) = Some nx;
    fp < nx; frames_from img sb nx lrs \<rbrakk> \<Longrightarrow> frames_from img sb fp (lr # lrs)"

lemma fp_loop_frames:
  "frames_from img sb fp lrs \<Longrightarrow> fp_loop img sb room fp = Ok (map (\<lambda>lr. lr - 4) (take room lrs))"
proof (induction arbitrary: room rule: frames_from.induct)
  case (outside fp)
  then show ?case by (cases room) simp_all
next
  case (bottom fp w)
  then show ?case by (cases room) (auto simp: read_frame_def read_word_def)
next
  case (clang fp nx lr lrs)
  have "\<not> fp + 4 > sb_start sb - 4" using clang.hyps(4) by (simp add: on_stack_def not_less)
  then have fr: "read_frame img sb fp = Ok (Some (lr, nx))"
    using clang.hyps by (simp add: read_frame_def read_word_def)
  show ?case
  proof (cases room)
    case (Suc n)
    then show ?thesis
      using fp_loop_step [OF clang.hyps(1) fr clang.hyps(6), of n] clang.IH [of n] less_le_not_le [of fp nx] clang.hyps(7)
      by simp
  qed simp
next
  case (gcc fp lr nx lrs)
  then have fr: "read_frame img sb fp = Ok (Some (lr, nx))"
    by (simp add: read_frame_def read_word_def)
  show ?case
  proof (cases room)
    case (Suc n)
    then show ?thesis
      using fp_loop_step [OF gcc.hyps(1) fr gcc.hyps(4), of n] gcc.IH [of n] less_le_not_le [of fp nx] gcc.hyps(6)
      by simp
  qed simp
qed

section \<open>Properties\<close>

text \<open>A thread with a stack of one page, and two frames on it: one of Clang, one of GCC.\<close>

definition sample_thread :: proc_env where
  "sample_thread = \<lparr>pe_libc = True, pe_maps = None, pe_stat = None, pe_line = [], pe_pid = 1,
     pe_tid = 2, pe_attr_base = 0x1000, pe_attr_size = 0x1000\<rparr>"

definition sample_cache :: stack_cache where
  "sample_cache = \<lparr>main_start = 0, main_size = 0, cached_pid = 0\<rparr>"

definition sample_bounds :: stack_bounds where
  "sample_bounds = \<lparr>sb_start = 0x2000, sb_end = 0x1000\<rparr>"

definition sample_image :: memory_image where
  "sample_image p =
     (if p = 0x1100 then Some 0x1208 else if p = 0x1104 then Some 0x20000010
      else if p = 0x1208 then Some 0x20000100 else if p = 0x1204 then Some 0x1300
      else if 0xFFC \<le> p \<and> p < 0x2000 then Some 0 else None)"

lemma sample_stack: "malloc_get_stack sample_thread sample_cache = Ok (Some sample_bounds, sample_cache)"
  by (simp add: malloc_get_stack_def sample_thread_def sample_bounds_def)

text \<open>
  C30. Following frame pointers is safe on any contents of the stack: when the words of the
  stack (and the one below each of them) are mapped, \<open>get_backtrace_fp\<close> returns, stores at most
  \<open>max_entries\<close> addresses and only ones whose return address is at least \<open>0x10000000\<close>.
\<close>

theorem get_backtrace_fp_safe:
  assumes "malloc_get_stack pe st = Ok (Some sb, st')"
    "walk_mapped img sb" "sb_end sb \<le> sb_start sb" "4 \<le> sb_start sb"
  shows "\<exists>addrs. get_backtrace_fp img pe st fp max_entries = Ok (addrs, st')
    \<and> length addrs \<le> max_entries \<and> (\<forall>a \<in> set addrs. 0x10000000 \<le> a + 4)"
proof -
  obtain addrs where "fp_loop img sb max_entries fp = Ok addrs"
    using fp_loop_ok [OF assms(2-4)] by blast
  then show ?thesis using assms(1) fp_loop_result by (auto simp: get_backtrace_fp_def)
qed

lemma sample_walk_mapped: "walk_mapped sample_image sample_bounds"
proof (unfold walk_mapped_def, intro allI impI)
  fix p assume "on_stack sample_bounds p"
  then have "0x1000 \<le> p" "p \<le> 0x1FFC" by (simp_all add: on_stack_def sample_bounds_def)
  then have p: "0x1000 \<le> unat p" "unat p \<le> 0x1FFC" by (simp_all add: word_le_nat_alt)
  then have "unat (p - 4) = unat p - 4" by (simp add: unat_sub_if')
  then have "0xFFC \<le> p - 4" "p - 4 < 0x2000" "0xFFC \<le> p" "p < 0x2000"
    using p by (simp_all add: word_le_nat_alt word_less_nat_alt)
  then show "sample_image p \<noteq> None \<and> sample_image (p - 4) \<noteq> None" by (simp add: sample_image_def)
qed

lemma get_backtrace_fp_safe_witness:
  "\<exists>addrs. get_backtrace_fp sample_image sample_thread sample_cache 0x1100 16 = Ok (addrs, sample_cache)
    \<and> length addrs \<le> 16 \<and> (\<forall>a \<in> set addrs. 0x10000000 \<le> a + 4)"
  by (rule get_backtrace_fp_safe [OF sample_stack sample_walk_mapped])
    (simp_all add: sample_bounds_def)

text \<open>
  C29. On a chain of frames, laid out by Clang or by GCC in any mixture, \<open>get_backtrace_fp\<close>
  stores the calls of the chain in order, innermost first, and stops when the array is full.
\<close>

theorem get_backtrace_fp_frames:
  assumes "malloc_get_stack pe st = Ok (Some sb, st')" "frames_from img sb fp lrs"
  shows "get_backtrace_fp img pe st fp max_entries = Ok (map (\<lambda>lr. lr - 4) (take max_entries lrs), st')"
  using assms(1) fp_loop_frames [OF assms(2)] by (simp add: get_backtrace_fp_def)

lemma sample_frames: "frames_from sample_image sample_bounds 0x1100 [0x20000010, 0x20000100]"
proof -
  have root: "frames_from sample_image sample_bounds 0x1300 []"
    by (rule frames_from.bottom [where w = 0]) (simp_all add: sample_image_def sample_bounds_def on_stack_def)
  have caller: "frames_from sample_image sample_bounds 0x1208 [0x20000100]"
    by (rule frames_from.gcc [where nx = "0x1300", OF _ _ _ _ _ _ root]) (simp_all add: sample_image_def sample_bounds_def on_stack_def)
  show ?thesis
    by (rule frames_from.clang [where nx = "0x1208", OF _ _ _ _ _ _ _ caller]) (simp_all add: sample_image_def sample_bounds_def on_stack_def)
qed

lemma get_backtrace_fp_frames_witness:
  "get_backtrace_fp sample_image sample_thread sample_cache 0x1100 16 = Ok ([0x2000000C, 0x200000FC], sample_cache)"
  using get_backtrace_fp_frames [OF sample_stack sample_frames, of 16] by simp

text \<open>
  A frame of GCC at the very low end of the stack is read one word below it: the bound of the
  loop, \<open>fp >= pthread_stack_end\<close>, does not cover the word at \<open>fp - 4\<close>.
\<close>

lemma gcc_frame_below_stack_faults:
  assumes "malloc_get_stack pe st = Ok (Some sb, st')" "on_stack sb (sb_end sb)"
    "img (sb_end sb) = Some lr" "\<not> on_stack sb lr" "img (sb_end sb - 4) = None" "0 < max_entries"
  shows "get_backtrace_fp img pe st (sb_end sb) max_entries = Fault"
  using assms by (cases max_entries) (simp_all add: get_backtrace_fp_def read_frame_def read_word_def)

section \<open>The 64-bit walk and the unwinder\<close>

definition walk64_mapped :: "memory_image64 \<Rightarrow> u64 \<Rightarrow> u64 \<Rightarrow> bool" where
  "walk64_mapped img s e \<longleftrightarrow> (\<forall>p. e < p \<and> p < s \<longrightarrow> img p \<noteq> None)"

lemma aligned_below:
  fixes p s :: u64
  assumes "p AND 0xf = 0" "s AND 0xf = 0" "p < s"
  shows "p < p + 8" "p + 8 < s"
proof -
  have m: "unat x mod 16 = 0" if "x AND 0xf = 0" for x :: u64
  proof -
    have "x AND 0xf = take_bit 4 x" by (simp add: take_bit_eq_mask mask_eq_exp_minus_1)
    then have "take_bit 4 x = 0" using that by simp
    then have "unat (take_bit 4 x) = 0" by simp
    then show ?thesis by (simp add: unsigned_take_bit_eq take_bit_eq_mod unat_mod)
  qed
  have "unat p < unat s" using assms(3) by (simp add: word_less_nat_alt)
  then have *: "unat p + 16 \<le> unat s" using m [OF assms(1)] m [OF assms(2)] by presburger
  then have "unat (p + 8) = unat p + 8"
    using unsigned_less [of s, where ?'a = nat] by (simp add: unat_word_ariths)
  then show "p < p + 8" "p + 8 < s" using * by (simp_all add: word_less_nat_alt)
qed

lemma fp64_loop_ok:
  assumes "walk64_mapped img s e" "s AND 0xf = 0"
  shows "\<exists>addrs. fp64_loop img s e room fp = Ok addrs \<and> length addrs \<le> room"
proof (induction room arbitrary: fp)
  case (Suc room)
  show ?case
  proof (cases "on_stack64 s e fp \<and> fp AND 0xf = 0")
    case True
    then have "fp < fp + 8" "fp + 8 < s" "e < fp" "fp < s"
      using aligned_below [OF _ assms(2)] by (auto simp: on_stack64_def)
    then have "e < fp + 8" by (meson less_trans)
    then obtain lr nx where "img (fp + 8) = Some lr" "img fp = Some nx"
      using assms(1) \<open>fp + 8 < s\<close> \<open>e < fp\<close> \<open>fp < s\<close> by (fastforce simp: walk64_mapped_def)
    then show ?thesis using True Suc.IH [of nx] by (auto simp: read_dword_def)
  qed auto
qed simp

text \<open>
  The 64-bit walk never reads outside the stack: it rejects frame pointers that are not
  aligned to 16 bytes, so that with an aligned stack start both words of a frame lie inside;
  it returns at most \<open>max_entries\<close> addresses for every contents of the stack.
\<close>

theorem get_backtrace64_safe:
  assumes "walk64_mapped img stack_start stack_end" "stack_start AND 0xf = 0"
  shows "\<exists>addrs. get_backtrace64 img stack_start stack_end frame_address max_entries = Ok addrs
    \<and> length addrs \<le> max_entries"
proof (cases "0 < max_entries \<and> on_stack64 stack_start stack_end frame_address")
  case True
  then obtain nx where "img frame_address = Some nx"
    using assms(1) by (auto simp: walk64_mapped_def on_stack64_def)
  then show ?thesis
    using True fp64_loop_ok [OF assms, of max_entries nx]
    by (auto simp: get_backtrace64_def read_dword_def)
qed (auto simp: get_backtrace64_def)

lemma get_backtrace64_safe_witness:
  "\<exists>addrs. get_backtrace64 (\<lambda>p. if p < 0x2000 then Some 0x1010 else None) 0x2000 0x1000 0x1010 8 = Ok addrs
    \<and> length addrs \<le> 8"
  by (rule get_backtrace64_safe) (simp_all add: walk64_mapped_def)

lemma call_frames_trace:
  "call_frames ips trace_function s =
     (let new = takeWhile (\<lambda>ip. ip \<noteq> 0) (take (count s) ips)
      in s\<lparr>stored := stored s @ new, count := count s - length new\<rparr>)"
proof (induction ips arbitrary: s)
  case (Cons ip ips)
  show ?case
  proof (cases "count s \<noteq> 0 \<and> ip \<noteq> 0")
    case True
    then obtain n where n: "count s = Suc n" by (cases "count s") auto
    have "call_frames (ip # ips) trace_function s
        = call_frames ips trace_function (s\<lparr>stored := stored s @ [ip], count := n\<rparr>)"
      using True n by (simp add: trace_function_def)
    also have "\<dots> = (let new = takeWhile (\<lambda>ip. ip \<noteq> 0) (take (count s) (ip # ips))
        in s\<lparr>stored := stored s @ new, count := count s - length new\<rparr>)"
      using True n by (subst Cons.IH) (simp add: Let_def)
    finally show ?thesis .
  next
    case False
    then show ?thesis by (cases "count s") (auto simp: trace_function_def Let_def)
  qed
qed (simp add: Let_def)

text \<open>
  With the C++ unwinder, \<open>get_backtrace\<close> stores the first program counters it reports, as
  many as there is room for and up to the first null one, and returns how many it stored.
\<close>

theorem get_backtrace_prefix:
  assumes "calls_in_order unwind_backtrace ips"
  shows "get_backtrace unwind_backtrace max_entries =
    (let new = takeWhile (\<lambda>ip. ip \<noteq> 0) (take max_entries ips) in (length new, new))"
proof -
  have "length (takeWhile (\<lambda>ip. ip \<noteq> 0) (take max_entries ips)) \<le> max_entries"
    by (rule order_trans [OF length_takeWhile_le]) simp
  then show ?thesis using assms
    by (simp add: get_backtrace_def calls_in_order_def call_frames_trace Let_def)
qed

lemma get_backtrace_prefix_witness:
  "get_backtrace (call_frames [0x8000, 0x9000, 0, 0xA000]) 16 = (2, [0x8000, 0x9000])"
  using get_backtrace_prefix [of "call_frames [0x8000, 0x9000, 0, 0xA000]" "[0x8000, 0x9000, 0, 0xA000]" 16]
  by (simp add: calls_in_order_def)

end
