(* ===== verification/Lights.thy ===== *)
theory Lights
  imports CLib
begin

text \<open>
  The lights HAL (src/proprietary/hardware/liblights/lights.c): the file-static globals as a
  record, the sysfs writes as a log, the three per-LED state machines kept in the
  \<open>preStatus\<close> statics, the set_light entry points and open_lights. What the kernel answers
  (whether a file opens, is writable, exists) is the argument \<open>sysenv\<close>.
\<close>

section \<open>Files and environment\<close>

datatype led = Red | Green | Blue

datatype sysfs_file =
    TRACKBALL_FILE
  | LED_FILE led
  | TRIGGER_FILE led
  | DELAY_ON_FILE led
  | DELAY_OFF_FILE led
  | LCD_FILE
  | KEYBOARD_FILE
  | BUTTON_FILE

fun led_name :: "led \<Rightarrow> string" where
  "led_name Red = ''red''"
| "led_name Green = ''green''"
| "led_name Blue = ''blue''"

fun sysfs_path :: "sysfs_file \<Rightarrow> string" where
  "sysfs_path TRACKBALL_FILE = ''/sys/class/leds/jogball-backlight/brightness''"
| "sysfs_path (LED_FILE l) = ''/sys/class/leds/'' @ led_name l @ ''/brightness''"
| "sysfs_path (TRIGGER_FILE l) = ''/sys/class/leds/'' @ led_name l @ ''/trigger''"
| "sysfs_path (DELAY_ON_FILE l) = ''/sys/class/leds/'' @ led_name l @ ''/delay_on''"
| "sysfs_path (DELAY_OFF_FILE l) = ''/sys/class/leds/'' @ led_name l @ ''/delay_off''"
| "sysfs_path LCD_FILE = ''/sys/class/leds/lcd-backlight/brightness''"
| "sysfs_path KEYBOARD_FILE = ''/sys/class/leds/keyboard-backlight/brightness''"
| "sysfs_path BUTTON_FILE = ''/sys/class/leds/button-backlight/brightness''"

text \<open>
  The kernel's answers, by path: the errno of \<open>open\<close> and of \<open>write\<close> (0 when the call
  succeeds), the errno of \<open>access(F_OK)\<close>, whether \<open>access(W_OK)\<close> succeeds, and whether the
  node a trigger creates exists and is writable at the \<open>i\<close>-th look.
\<close>

record sysenv =
  open_errno :: "string \<Rightarrow> int"
  write_errno :: "string \<Rightarrow> int"
  exists_errno :: "string \<Rightarrow> int"
  access_w :: "string \<Rightarrow> bool"
  node_ready :: "string \<Rightarrow> nat \<Rightarrow> bool"

section \<open>State\<close>

record light_state =
  color :: u32
  flashMode :: int
  flashOnMS :: int
  flashOffMS :: int

definition LIGHT_FLASH_NONE :: int where "LIGHT_FLASH_NONE = 0"
definition LIGHT_FLASH_TIMED :: int where "LIGHT_FLASH_TIMED = 1"
definition LIGHT_FLASH_HARDWARE :: int where "LIGHT_FLASH_HARDWARE = 2"

text \<open>
  The statics of the file, the \<open>preStatus\<close> static of each blink function (0 off, 1 blink,
  2 no blink), the log of completed sysfs writes (newest last) and the number of 5 ms waits.
\<close>

record lights =
  haveTrackballLight :: int
  notification :: light_state
  battery :: light_state
  backlight :: int
  trackball :: int
  buttons :: int
  attention :: int
  preStatus :: "led \<Rightarrow> nat"
  sysfs_log :: "(sysfs_file \<times> string) list"
  waits :: nat

definition zero_light_state :: light_state where
  "zero_light_state = \<lparr>color = 0, flashMode = 0, flashOnMS = 0, flashOffMS = 0\<rparr>"

definition lights_start :: lights where
  "lights_start = \<lparr>haveTrackballLight = 0, notification = zero_light_state,
     battery = zero_light_state, backlight = 255, trackball = -1, buttons = 0, attention = 0,
     preStatus = (\<lambda>_. 0), sysfs_log = [], waits = 0\<rparr>"

section \<open>Writing\<close>

definition log_write :: "sysfs_file \<Rightarrow> string \<Rightarrow> lights \<Rightarrow> lights" where
  "log_write f s st = st\<lparr>sysfs_log := sysfs_log st @ [(f, s)]\<rparr>"

definition write_str :: "sysenv \<Rightarrow> sysfs_file \<Rightarrow> string \<Rightarrow> lights \<Rightarrow> int \<times> lights" where
  "write_str e f s st =
     (if open_errno e (sysfs_path f) = 0 then
        (if write_errno e (sysfs_path f) \<noteq> 0 then (- write_errno e (sysfs_path f), st)
         else (0, log_write f s st))
      else (- open_errno e (sysfs_path f), st))"

definition write_int :: "sysenv \<Rightarrow> sysfs_file \<Rightarrow> int \<Rightarrow> lights \<Rightarrow> int \<times> lights" where
  "write_int e f v st =
     (if open_errno e (sysfs_path f) = 0 then
        (let buffer = sprintf_d v @ [CHR 0x0A] in
         if write_errno e (sysfs_path f) \<noteq> 0 then (- write_errno e (sysfs_path f), st)
         else (0, log_write f buffer st))
      else (- open_errno e (sysfs_path f), st))"

text \<open>
  \<open>led_wait_delay\<close> spins on gettimeofday: the list is what the clock answers, in
  milliseconds, one entry per turn; None when the readings end before the loop does. The
  difference is cast to unsigned int before the comparison.
\<close>

fun led_wait_loop :: "u32 \<Rightarrow> int \<Rightarrow> int \<Rightarrow> int list \<Rightarrow> int list option" where
  "led_wait_loop ms begin time_diff clock =
     (if word_of_int time_diff < ms then
        (case clock of [] \<Rightarrow> None | c # cs \<Rightarrow> led_wait_loop ms begin (c - begin) cs)
      else Some clock)"

declare led_wait_loop.simps [simp del]

definition led_wait_delay :: "u32 \<Rightarrow> int \<Rightarrow> int list \<Rightarrow> int list option" where
  "led_wait_delay ms begin clock = led_wait_loop ms begin 0 clock"

definition init_globals :: "sysenv \<Rightarrow> lights \<Rightarrow> lights" where
  "init_globals e st =
     st\<lparr>haveTrackballLight := if access_w e (sysfs_path TRACKBALL_FILE) then 1 else 0\<rparr>"

section \<open>The LEDs\<close>

definition is_lit :: "light_state \<Rightarrow> u32" where
  "is_lit s = color s AND 0x00ffffff"

function wait_node :: "sysenv \<Rightarrow> sysfs_file \<Rightarrow> nat \<Rightarrow> lights \<Rightarrow> lights" where
  "wait_node e f i st =
     (if \<not> node_ready e (sysfs_path f) i \<and> i < 10
      then wait_node e f (i + 1) (st\<lparr>waits := waits st + 1\<rparr>) else st)"
  by auto
termination by (relation "measure (\<lambda>(_, _, i, _). 10 - i)") auto

declare wait_node.simps [simp del]

definition now_status :: "int \<Rightarrow> int \<Rightarrow> int \<Rightarrow> nat" where
  "now_status level onMS offMS =
     (if level = 0 then 0 else if onMS \<noteq> 0 \<and> offMS \<noteq> 0 then 1 else 2)"

definition blink :: "led \<Rightarrow> sysenv \<Rightarrow> int \<Rightarrow> int \<Rightarrow> int \<Rightarrow> lights \<Rightarrow> int \<times> lights" where
  "blink l e level onMS offMS st =
     (let nowStatus = now_status level onMS offMS in
      if preStatus st l = nowStatus then (-1, st)
      else
        let st' =
          (if nowStatus = 0 then snd (write_int e (LED_FILE l) 0 st)
           else if nowStatus = 1 then
             (let s1 = snd (write_str e (TRIGGER_FILE l) ''timer'' st);
                  s2 = wait_node e (DELAY_OFF_FILE l) 0 s1;
                  s3 = snd (write_int e (DELAY_OFF_FILE l) offMS s2)
              in snd (write_int e (DELAY_ON_FILE l) onMS s3))
           else
             (let s1 = snd (write_str e (TRIGGER_FILE l) ''none'' st)
              in snd (write_int e (LED_FILE l) 255 s1)))
        in (0, st'\<lparr>preStatus := (preStatus st')(l := nowStatus)\<rparr>))"

definition blink_red :: "sysenv \<Rightarrow> int \<Rightarrow> int \<Rightarrow> int \<Rightarrow> lights \<Rightarrow> int \<times> lights" where
  "blink_red = blink Red"

definition blink_green :: "sysenv \<Rightarrow> int \<Rightarrow> int \<Rightarrow> int \<Rightarrow> lights \<Rightarrow> int \<times> lights" where
  "blink_green = blink Green"

definition blink_blue :: "sysenv \<Rightarrow> int \<Rightarrow> int \<Rightarrow> int \<Rightarrow> lights \<Rightarrow> int \<times> lights" where
  "blink_blue = blink Blue"

definition handle_trackball_light_locked :: "sysenv \<Rightarrow> lights \<Rightarrow> int \<times> lights" where
  "handle_trackball_light_locked e st =
     (let mode = (if attention st = 7 \<and> backlight st \<noteq> 0 then 0 else attention st) in
      if trackball st = mode then (0, st) else write_int e TRACKBALL_FILE mode st)"

definition rgb_to_brightness :: "light_state \<Rightarrow> u32" where
  "rgb_to_brightness s =
     (let c = color s AND 0x00ffffff in
      drop_bit 8 (77 * (drop_bit 16 c AND 0xff) + 150 * (drop_bit 8 c AND 0xff)
                  + 29 * (c AND 0xff)))"

definition set_light_backlight :: "sysenv \<Rightarrow> light_state \<Rightarrow> lights \<Rightarrow> int \<times> lights" where
  "set_light_backlight e s st =
     (let brightness = sint (rgb_to_brightness s);
          s1 = st\<lparr>backlight := brightness\<rparr>;
          (err, s2) = write_int e LCD_FILE brightness s1;
          s3 = (if haveTrackballLight s2 \<noteq> 0 then snd (handle_trackball_light_locked e s2) else s2)
      in (err, s3))"

definition set_light_keyboard :: "sysenv \<Rightarrow> light_state \<Rightarrow> lights \<Rightarrow> int \<times> lights" where
  "set_light_keyboard e s st = write_int e KEYBOARD_FILE (if is_lit s \<noteq> 0 then 255 else 0) st"

definition set_light_buttons :: "sysenv \<Rightarrow> light_state \<Rightarrow> lights \<Rightarrow> int \<times> lights" where
  "set_light_buttons e s st =
     write_int e BUTTON_FILE (if is_lit s \<noteq> 0 then 255 else 0) (st\<lparr>buttons := sint (is_lit s)\<rparr>)"

definition flash_times :: "light_state \<Rightarrow> int \<times> int" where
  "flash_times s =
     (if flashMode s = LIGHT_FLASH_TIMED then (flashOnMS s, flashOffMS s) else (0, 0))"

definition led_levels :: "light_state \<Rightarrow> int \<times> int \<times> int" where
  "led_levels s =
     (let c = color s; alpha = drop_bit 24 c AND 0xff in
      if alpha \<noteq> 0 then (uint (drop_bit 16 c AND 0xff), uint (drop_bit 8 c AND 0xff), uint (c AND 0xff))
      else (0, 0, 0))"

definition set_speaker_light_locked :: "sysenv \<Rightarrow> light_state \<Rightarrow> lights \<Rightarrow> int \<times> lights" where
  "set_speaker_light_locked e s st =
     (let (onMS, offMS) = flash_times s;
          (red, green, blue) = led_levels s;
          st' =
            (if red \<noteq> 0 then
               snd (blink_red e red onMS offMS (snd (blink_blue e 0 0 0 (snd (blink_green e 0 0 0 st)))))
             else if green \<noteq> 0 then
               snd (blink_green e green onMS offMS (snd (blink_blue e 0 0 0 (snd (blink_red e 0 0 0 st)))))
             else if blue \<noteq> 0 then
               snd (blink_blue e blue onMS offMS (snd (blink_green e 0 0 0 (snd (blink_red e 0 0 0 st)))))
             else
               snd (blink_blue e 0 0 0 (snd (blink_green e 0 0 0 (snd (blink_red e 0 0 0 st))))))
      in (0, st'))"

definition handle_speaker_battery_locked :: "sysenv \<Rightarrow> lights \<Rightarrow> lights" where
  "handle_speaker_battery_locked e st =
     (if is_lit (battery st) \<noteq> 0 then snd (set_speaker_light_locked e (battery st) st)
      else
        let s1 = snd (set_speaker_light_locked e (battery st) st)
        in snd (set_speaker_light_locked e (notification s1) s1))"

definition set_light_battery :: "sysenv \<Rightarrow> light_state \<Rightarrow> lights \<Rightarrow> int \<times> lights" where
  "set_light_battery e s st =
     (let s1 = st\<lparr>battery := s\<rparr>;
          s2 = (if haveTrackballLight s1 \<noteq> 0 then snd (set_speaker_light_locked e s s1) else s1)
      in (0, handle_speaker_battery_locked e s2))"

definition set_light_notifications :: "sysenv \<Rightarrow> light_state \<Rightarrow> lights \<Rightarrow> int \<times> lights" where
  "set_light_notifications e s st =
     (let s1 = st\<lparr>notification := s\<rparr>;
          s2 = (if haveTrackballLight s1 \<noteq> 0 then snd (handle_trackball_light_locked e s1) else s1)
      in (0, handle_speaker_battery_locked e s2))"

definition set_light_attention :: "sysenv \<Rightarrow> light_state \<Rightarrow> lights \<Rightarrow> int \<times> lights" where
  "set_light_attention e s st =
     (let s1 = (if flashMode s = LIGHT_FLASH_HARDWARE then st\<lparr>attention := flashOnMS s\<rparr>
                else if flashMode s = LIGHT_FLASH_NONE then st\<lparr>attention := 0\<rparr> else st);
          s2 = (if haveTrackballLight s1 \<noteq> 0 then snd (handle_trackball_light_locked e s1) else s1)
      in (0, s2))"

section \<open>The module\<close>

datatype light_fn =
  Set_backlight | Set_keyboard | Set_buttons | Set_battery | Set_notifications | Set_attention

fun set_light :: "light_fn \<Rightarrow> sysenv \<Rightarrow> light_state \<Rightarrow> lights \<Rightarrow> int \<times> lights" where
  "set_light Set_backlight = set_light_backlight"
| "set_light Set_keyboard = set_light_keyboard"
| "set_light Set_buttons = set_light_buttons"
| "set_light Set_battery = set_light_battery"
| "set_light Set_notifications = set_light_notifications"
| "set_light Set_attention = set_light_attention"

fun first_missing :: "sysenv \<Rightarrow> sysfs_file list \<Rightarrow> int" where
  "first_missing e [] = 0"
| "first_missing e (f # fs) =
     (if exists_errno e (sysfs_path f) \<noteq> 0 then exists_errno e (sysfs_path f) else first_missing e fs)"

definition light_module :: "string \<Rightarrow> (light_fn \<times> sysfs_file list) option" where
  "light_module name =
     (if name = ''backlight'' then Some (Set_backlight, [LCD_FILE])
      else if name = ''keyboard'' then Some (Set_keyboard, [KEYBOARD_FILE])
      else if name = ''buttons'' then Some (Set_buttons, [BUTTON_FILE])
      else if name = ''battery'' then Some (Set_battery, [LED_FILE Red, LED_FILE Green, LED_FILE Blue])
      else if name = ''notifications''
        then Some (Set_notifications, [LED_FILE Red, LED_FILE Green, LED_FILE Blue])
      else if name = ''attention'' then Some (Set_attention, [LED_FILE Red, LED_FILE Green, LED_FILE Blue])
      else None)"

definition EINVAL :: int where "EINVAL = 22"
definition ENOMEM :: int where "ENOMEM = 12"

text \<open>
  \<open>once\<close> tells whether pthread_once has not yet run init_globals, \<open>malloc_ok\<close> whether the
  device is allocated; the result is the error code or the device's set_light function.
\<close>

definition open_lights ::
    "sysenv \<Rightarrow> bool \<Rightarrow> bool \<Rightarrow> string \<Rightarrow> lights \<Rightarrow> (int + light_fn) \<times> lights" where
  "open_lights e once malloc_ok name st =
     (case light_module name of
        None \<Rightarrow> (Inl (- EINVAL), st)
      | Some (f, files) \<Rightarrow>
          if first_missing e files \<noteq> 0 then (Inl (- first_missing e files), st)
          else
            let s1 = (if once then init_globals e st else st) in
            if \<not> malloc_ok then (Inl (- ENOMEM), s1) else (Inr f, s1))"

section \<open>Frame lemmas\<close>

definition written :: "sysenv \<Rightarrow> sysfs_file \<Rightarrow> string \<Rightarrow> (sysfs_file \<times> string) list" where
  "written e f s =
     (if open_errno e (sysfs_path f) = 0 \<and> write_errno e (sysfs_path f) = 0 then [(f, s)] else [])"

lemma write_int_state [light_simps]:
  "snd (write_int e f v st) = st\<lparr>sysfs_log := sysfs_log st @ written e f (sprintf_d v @ [CHR 0x0A])\<rparr>"
  by (simp add: write_int_def written_def log_write_def Let_def)

lemma write_str_state [light_simps]:
  "snd (write_str e f s st) = st\<lparr>sysfs_log := sysfs_log st @ written e f s\<rparr>"
  by (simp add: write_str_def written_def log_write_def)

lemma wait_node_state: "\<exists>w. wait_node e f i st = st\<lparr>waits := w\<rparr>"
proof (induction e f i st rule: wait_node.induct)
  case (1 e f i st)
  show ?case
  proof (cases "\<not> node_ready e (sysfs_path f) i \<and> i < 10")
    case True
    then obtain w where "wait_node e f (i + 1) (st\<lparr>waits := waits st + 1\<rparr>)
        = (st\<lparr>waits := waits st + 1\<rparr>)\<lparr>waits := w\<rparr>"
      using "1.IH" by blast
    then show ?thesis using True by (subst wait_node.simps) auto
  next
    case False
    have "st = st\<lparr>waits := waits st\<rparr>" by simp
    then show ?thesis using False by (subst wait_node.simps) metis
  qed
qed

definition blink_writes ::
    "sysenv \<Rightarrow> led \<Rightarrow> nat \<Rightarrow> nat \<Rightarrow> int \<Rightarrow> int \<Rightarrow> (sysfs_file \<times> string) list" where
  "blink_writes e l pre now onMS offMS =
     (if pre = now then []
      else if now = 0 then written e (LED_FILE l) (sprintf_d 0 @ [CHR 0x0A])
      else if now = 1 then
        written e (TRIGGER_FILE l) ''timer''
        @ written e (DELAY_OFF_FILE l) (sprintf_d offMS @ [CHR 0x0A])
        @ written e (DELAY_ON_FILE l) (sprintf_d onMS @ [CHR 0x0A])
      else written e (TRIGGER_FILE l) ''none''
        @ written e (LED_FILE l) (sprintf_d 255 @ [CHR 0x0A]))"

lemma blink_state:
  "\<exists>w. snd (blink l e level onMS offMS st) =
     st\<lparr>preStatus := (preStatus st)(l := now_status level onMS offMS),
        sysfs_log := sysfs_log st @ blink_writes e l (preStatus st l) (now_status level onMS offMS) onMS offMS,
        waits := w\<rparr>"
proof -
  let ?s1 = "snd (write_str e (TRIGGER_FILE l) ''timer'' st)"
  obtain w where w: "wait_node e (DELAY_OFF_FILE l) 0 ?s1 = ?s1\<lparr>waits := w\<rparr>"
    using wait_node_state by blast
  have same: "preStatus st l = n \<Longrightarrow> st = st\<lparr>preStatus := (preStatus st)(l := n), waits := waits st\<rparr>" for n
    by (cases st) (simp add: fun_upd_idem)
  show ?thesis
  proof (cases "preStatus st l = now_status level onMS offMS")
    case True
    then show ?thesis
      using same [OF True] by (intro exI [of _ "waits st"]) (simp add: blink_def blink_writes_def fun_upd_idem)
  next
    case False
    show ?thesis
    proof (cases "now_status level onMS offMS = 1")
      case True
      then show ?thesis
        using False w
        by (intro exI [of _ w]) (simp add: blink_def blink_writes_def light_simps)
    next
      case False': False
      show ?thesis
        using False False'
        by (intro exI [of _ "waits st"]) (simp add: blink_def blink_writes_def light_simps)
    qed
  qed
qed

lemma blink_fields [light_simps]:
  "preStatus (snd (blink l e level onMS offMS st)) = (preStatus st)(l := now_status level onMS offMS)"
  "sysfs_log (snd (blink l e level onMS offMS st)) = sysfs_log st
     @ blink_writes e l (preStatus st l) (now_status level onMS offMS) onMS offMS"
  "haveTrackballLight (snd (blink l e level onMS offMS st)) = haveTrackballLight st"
  "notification (snd (blink l e level onMS offMS st)) = notification st"
  "battery (snd (blink l e level onMS offMS st)) = battery st"
  "backlight (snd (blink l e level onMS offMS st)) = backlight st"
  "trackball (snd (blink l e level onMS offMS st)) = trackball st"
  "buttons (snd (blink l e level onMS offMS st)) = buttons st"
  "attention (snd (blink l e level onMS offMS st)) = attention st"
  using blink_state [of l e level onMS offMS st] by auto

lemma now_status_off [simp]: "now_status 0 a b = 0"
  by (simp add: now_status_def)

lemmas blink_led_defs = blink_red_def blink_green_def blink_blue_def

lemma speaker_fields [light_simps]:
  "haveTrackballLight (snd (set_speaker_light_locked e s st)) = haveTrackballLight st"
  "notification (snd (set_speaker_light_locked e s st)) = notification st"
  "battery (snd (set_speaker_light_locked e s st)) = battery st"
  "backlight (snd (set_speaker_light_locked e s st)) = backlight st"
  "trackball (snd (set_speaker_light_locked e s st)) = trackball st"
  "buttons (snd (set_speaker_light_locked e s st)) = buttons st"
  "attention (snd (set_speaker_light_locked e s st)) = attention st"
  by (simp_all add: set_speaker_light_locked_def blink_led_defs light_simps split: prod.split)

lemma and_ff_take: "x AND 0xff = take_bit 8 (x :: u32)"
  by (simp add: take_bit_eq_mask mask_eq_exp_minus_1)

lemma and_ffffff_take: "x AND 0xffffff = take_bit 24 (x :: u32)"
  by (simp add: take_bit_eq_mask mask_eq_exp_minus_1)

section \<open>What the LEDs are told\<close>

text \<open>
  The specification: the notification LED has one colour at a time, red before green before
  blue, off when alpha or all of the colour is zero, and it blinks when both flash times are
  non-zero.
\<close>

definition speaker_led :: "light_state \<Rightarrow> led option" where
  "speaker_led s = (case led_levels s of (red, green, blue) \<Rightarrow>
     if red \<noteq> 0 then Some Red else if green \<noteq> 0 then Some Green
     else if blue \<noteq> 0 then Some Blue else None)"

definition speaker_spec :: "light_state \<Rightarrow> led \<Rightarrow> nat" where
  "speaker_spec s l =
     (if speaker_led s = Some l then
        (if fst (flash_times s) \<noteq> 0 \<and> snd (flash_times s) \<noteq> 0 then 1 else 2)
      else 0)"

lemma speaker_preStatus [light_simps]:
  "preStatus (snd (set_speaker_light_locked e s st)) = speaker_spec s"
proof
  fix l
  obtain a b where ft: "flash_times s = (a, b)" by (cases "flash_times s")
  obtain r g u where lv: "led_levels s = (r, g, u)" by (cases "led_levels s")
  show "preStatus (snd (set_speaker_light_locked e s st)) l = speaker_spec s l"
    unfolding set_speaker_light_locked_def speaker_spec_def speaker_led_def ft lv
    by (cases l) (simp_all add: blink_led_defs light_simps now_status_def)
qed

definition shown_spec :: "light_state \<Rightarrow> light_state \<Rightarrow> led \<Rightarrow> nat" where
  "shown_spec bat noti = (if is_lit bat \<noteq> 0 then speaker_spec bat else speaker_spec noti)"

lemma handle_fields [light_simps]:
  "haveTrackballLight (handle_speaker_battery_locked e st) = haveTrackballLight st"
  "notification (handle_speaker_battery_locked e st) = notification st"
  "battery (handle_speaker_battery_locked e st) = battery st"
  "backlight (handle_speaker_battery_locked e st) = backlight st"
  "trackball (handle_speaker_battery_locked e st) = trackball st"
  "buttons (handle_speaker_battery_locked e st) = buttons st"
  "attention (handle_speaker_battery_locked e st) = attention st"
  "preStatus (handle_speaker_battery_locked e st) = shown_spec (battery st) (notification st)"
  by (simp_all add: handle_speaker_battery_locked_def shown_spec_def light_simps)

lemma trackball_state:
  "\<exists>ws. snd (handle_trackball_light_locked e st) = st\<lparr>sysfs_log := sysfs_log st @ ws\<rparr>
     \<and> (\<forall>(f, s) \<in> set ws. f = TRACKBALL_FILE)"
  by (auto simp: handle_trackball_light_locked_def light_simps Let_def written_def intro: exI [of _ "[]"])

section \<open>The LED files and the driver's idea of them\<close>

text \<open>
  \<open>led_shown l ws\<close> replays a log of sysfs writes, with the meaning the kernel's LED class gives them: a zero
  written to the brightness file turns the LED off and ends a trigger, another value lights it (an LED that blinks goes on
  blinking); the trigger \<open>timer\<close> makes it blink, half a second each way until \<open>delay_on\<close> and \<open>delay_off\<close> are
  written, the trigger \<open>none\<close> ends that, which leaves it dark. The delay files only exist while it blinks. An LED starts
  dark.
\<close>

datatype led_light = Dark | Blinking string string | Steady string

fun light_kind :: "led_light \<Rightarrow> nat" where
  "light_kind Dark = 0"
| "light_kind (Blinking on off) = 1"
| "light_kind (Steady level) = 2"

definition line_of :: "int \<Rightarrow> string" where
  "line_of v = sprintf_d v @ [CHR 0x0A]"

definition show_event :: "led \<Rightarrow> led_light \<Rightarrow> sysfs_file \<times> string \<Rightarrow> led_light" where
  "show_event l now ev =
     (case ev of (f, s) \<Rightarrow>
        if f = LED_FILE l then
          (if s = line_of 0 then Dark else case now of Blinking on off \<Rightarrow> Blinking on off | _ \<Rightarrow> Steady s)
        else if f = TRIGGER_FILE l \<and> s = ''timer'' then Blinking (line_of 500) (line_of 500)
        else if f = TRIGGER_FILE l \<and> s = ''none'' then
          (case now of Blinking on off \<Rightarrow> Dark | _ \<Rightarrow> now)
        else if f = DELAY_ON_FILE l then (case now of Blinking on off \<Rightarrow> Blinking s off | _ \<Rightarrow> now)
        else if f = DELAY_OFF_FILE l then (case now of Blinking on off \<Rightarrow> Blinking on s | _ \<Rightarrow> now)
        else now)"

definition led_shown :: "led \<Rightarrow> (sysfs_file \<times> string) list \<Rightarrow> led_light" where
  "led_shown l ws = foldl (show_event l) Dark ws"

definition coherent :: "lights \<Rightarrow> bool" where
  "coherent st \<longleftrightarrow> (\<forall>l. light_kind (led_shown l (sysfs_log st)) = preStatus st l)"

text \<open>
  The light a request asks for on each LED; and what the LED then shows: a light of the kind it already shows is not
  written again, so that an LED that blinks goes on with its old delays.
\<close>

definition light_for :: "nat \<Rightarrow> int \<Rightarrow> int \<Rightarrow> led_light" where
  "light_for now onMS offMS =
     (if now = 0 then Dark else if now = 1 then Blinking (line_of onMS) (line_of offMS) else Steady (line_of 255))"

definition speaker_light :: "light_state \<Rightarrow> led \<Rightarrow> led_light" where
  "speaker_light s l =
     (if speaker_led s \<noteq> Some l then Dark
      else case flash_times s of (onMS, offMS) \<Rightarrow>
        if onMS \<noteq> 0 \<and> offMS \<noteq> 0 then Blinking (line_of onMS) (line_of offMS) else Steady (line_of 255))"

definition relit :: "led_light \<Rightarrow> led_light \<Rightarrow> led_light" where
  "relit old new = (if light_kind old = light_kind new then old else new)"

lemma light_kind_Dark [simp]: "light_kind x = 0 \<longleftrightarrow> x = Dark"
  by (cases x) simp_all

lemma light_kind_for: "now \<le> 2 \<Longrightarrow> light_kind (light_for now onMS offMS) = now"
  by (auto simp: light_for_def)

lemma light_kind_relit [simp]: "light_kind (relit old new) = light_kind new"
  by (simp add: relit_def)

lemma relit_simps [simp]: "relit old Dark = Dark" "relit Dark new = new" "relit (relit old new) new = relit old new"
  by (auto simp: relit_def)

lemma light_for_off [simp]: "light_for 0 onMS offMS = Dark"
  by (simp add: light_for_def)

definition files_open :: "sysenv \<Rightarrow> bool" where
  "files_open e \<longleftrightarrow> (\<forall>f. open_errno e (sysfs_path f) = 0 \<and> write_errno e (sysfs_path f) = 0)"

lemma sprintf_d_0: "sprintf_d 0 = ''0''"
  by (simp add: sprintf_d_def dec_nat.simps char_of_def bit_Suc_0_iff)

lemma sprintf_d_255: "sprintf_d 255 = ''255''"
  by (simp add: sprintf_d_def dec_nat.simps char_of_def bit_Suc_0_iff)

lemma line_of_nonzero: "line_of 255 \<noteq> line_of 0"
  by (simp add: line_of_def sprintf_d_0 sprintf_d_255)

lemma show_blink:
  assumes "files_open e" "now \<le> 2" "l' = l \<Longrightarrow> light_kind n = pre"
  shows "foldl (show_event l') n (blink_writes e l pre now onMS offMS)
    = (if l' = l then relit n (light_for now onMS offMS) else n)"
proof -
  have w: "written e f s = [(f, s)]" for f s
    using assms(1) by (simp add: written_def files_open_def)
  have k: "l' = l \<Longrightarrow> relit n (light_for now onMS offMS) = (if pre = now then n else light_for now onMS offMS)"
    using assms(2,3) by (simp add: relit_def light_kind_for)
  have "now = 0 \<or> now = 1 \<or> now = 2" using assms(2) by linarith
  then show ?thesis
    by (elim disjE; cases "l' = l"; cases n)
      (use k assms(3) line_of_nonzero in \<open>auto simp: blink_writes_def w show_event_def light_for_def line_of_def [symmetric]\<close>)
qed

lemma now_status_le: "now_status level a b \<le> 2"
  by (simp add: now_status_def)

lemma shown_blink:
  assumes "files_open e" "coherent st"
  shows "led_shown l' (sysfs_log (snd (blink l e level onMS offMS st)))
    = (if l' = l then relit (led_shown l (sysfs_log st)) (light_for (now_status level onMS offMS) onMS offMS)
       else led_shown l' (sysfs_log st))"
  using assms(2) show_blink [OF assms(1) now_status_le, of l' l "led_shown l' (sysfs_log st)"]
  by (simp add: led_shown_def light_simps coherent_def)

lemma coherent_blink:
  assumes "files_open e" "coherent st"
  shows "coherent (snd (blink l e level onMS offMS st))"
  unfolding coherent_def shown_blink [OF assms] blink_fields(1)
  using assms(2) by (simp add: coherent_def light_kind_for now_status_le)

lemma coherent_speaker:
  assumes "files_open e" "coherent st"
  shows "coherent (snd (set_speaker_light_locked e s st))"
  unfolding set_speaker_light_locked_def blink_led_defs
  using assms by (auto intro!: coherent_blink split: prod.split)

lemma shown_speaker:
  assumes "files_open e" "coherent st"
  shows "led_shown l (sysfs_log (snd (set_speaker_light_locked e s st))) = relit (led_shown l (sysfs_log st)) (speaker_light s l)"
proof -
  obtain a b where ft: "flash_times s = (a, b)" by (cases "flash_times s")
  obtain r g u where lv: "led_levels s = (r, g, u)" by (cases "led_levels s")
  have k: "light_for (now_status x a b) a b = (if a \<noteq> 0 \<and> b \<noteq> 0 then Blinking (line_of a) (line_of b) else Steady (line_of 255))"
    if "x \<noteq> 0" for x using that by (simp add: light_for_def now_status_def)
  show ?thesis
    unfolding set_speaker_light_locked_def speaker_light_def speaker_led_def ft lv
    by (cases l) (simp_all add: blink_led_defs shown_blink coherent_blink assms k)
qed

text \<open>A request whose colour is zero asks for no LED.\<close>

lemma unlit_dark:
  assumes "is_lit s = 0"
  shows "speaker_light s l = Dark"
proof -
  have z: "take_bit 24 (color s) = 0" using assms by (simp add: is_lit_def and_ffffff_take)
  have "take_bit 8 (drop_bit 16 (color s)) = drop_bit 16 (take_bit 24 (color s))"
    "take_bit 8 (drop_bit 8 (color s)) = take_bit 8 (drop_bit 8 (take_bit 24 (color s)))"
    "take_bit 8 (color s) = take_bit 8 (take_bit 24 (color s))"
    by (simp_all add: drop_bit_take_bit)
  then have "take_bit 8 (drop_bit 16 (color s)) = 0" "take_bit 8 (drop_bit 8 (color s)) = 0" "take_bit 8 (color s) = 0"
    by (simp_all only: z) simp_all
  then have "speaker_led s = None"
    by (simp add: speaker_led_def led_levels_def Let_def and_ff_take)
  then show ?thesis by (simp add: speaker_light_def)
qed

text \<open>The battery's light when it is lit, and else the notification's.\<close>

definition shown_light :: "light_state \<Rightarrow> light_state \<Rightarrow> led_light \<Rightarrow> led \<Rightarrow> led_light" where
  "shown_light bat noti now l = (if is_lit bat \<noteq> 0 then relit now (speaker_light bat l) else speaker_light noti l)"

lemma shown_handle:
  assumes "files_open e" "coherent st"
  shows "led_shown l (sysfs_log (handle_speaker_battery_locked e st))
    = shown_light (battery st) (notification st) (led_shown l (sysfs_log st)) l"
  using assms by (simp add: handle_speaker_battery_locked_def shown_light_def shown_speaker coherent_speaker unlit_dark light_simps)

lemma coherent_handle:
  "files_open e \<Longrightarrow> coherent st \<Longrightarrow> coherent (handle_speaker_battery_locked e st)"
  by (simp add: handle_speaker_battery_locked_def coherent_speaker Let_def)

definition not_led :: "sysfs_file \<Rightarrow> bool" where
  "not_led f \<longleftrightarrow> (\<forall>l. f \<noteq> LED_FILE l \<and> f \<noteq> TRIGGER_FILE l \<and> f \<noteq> DELAY_ON_FILE l \<and> f \<noteq> DELAY_OFF_FILE l)"

lemma show_other: "(\<forall>ev \<in> set ws. not_led (fst ev)) \<Longrightarrow> foldl (show_event l) n ws = n"
  by (induction ws) (auto simp: show_event_def not_led_def split: prod.split)

lemma coherent_frame:
  assumes "coherent st" "preStatus st' = preStatus st" "sysfs_log st' = sysfs_log st @ ws"
    "\<forall>ev \<in> set ws. not_led (fst ev)"
  shows "coherent st'"
  using assms(1) by (simp add: coherent_def led_shown_def assms(2,3) show_other [OF assms(4)])

lemma coherent_write_int:
  assumes "coherent st" "not_led f"
  shows "coherent (snd (write_int e f v st))"
proof (rule coherent_frame [OF assms(1)])
  show "preStatus (snd (write_int e f v st)) = preStatus st"
    by (simp add: write_int_state)
  show "sysfs_log (snd (write_int e f v st)) = sysfs_log st @ written e f (sprintf_d v @ [CHR 0x0A])"
    by (simp add: write_int_state)
  show "\<forall>ev \<in> set (written e f (sprintf_d v @ [CHR 0x0A])). not_led (fst ev)"
    using assms(2) by (simp add: written_def)
qed

lemma coherent_trackball:
  "coherent st \<Longrightarrow> coherent (snd (handle_trackball_light_locked e st))"
  by (simp add: handle_trackball_light_locked_def coherent_write_int not_led_def Let_def)

lemma shown_trackball:
  "led_shown l (sysfs_log (snd (handle_trackball_light_locked e st))) = led_shown l (sysfs_log st)"
proof -
  obtain ws where ws: "snd (handle_trackball_light_locked e st) = st\<lparr>sysfs_log := sysfs_log st @ ws\<rparr>"
    "\<forall>ev \<in> set ws. fst ev = TRACKBALL_FILE"
    using trackball_state [of e st] by force
  then have "\<forall>ev \<in> set ws. not_led (fst ev)" by (simp add: not_led_def)
  then show ?thesis using ws(1) by (simp add: led_shown_def show_other)
qed

lemma coherent_upd:
  "coherent (st\<lparr>battery := s\<rparr>) = coherent st" "coherent (st\<lparr>notification := s\<rparr>) = coherent st"
  "coherent (st\<lparr>backlight := i\<rparr>) = coherent st" "coherent (st\<lparr>buttons := i\<rparr>) = coherent st"
  "coherent (st\<lparr>attention := i\<rparr>) = coherent st" "coherent (st\<lparr>haveTrackballLight := i\<rparr>) = coherent st"
  by (simp_all add: coherent_def)

section \<open>Reachable states\<close>

text \<open>
  Every entry point runs under \<open>g_lock\<close>, so a history of the module is a sequence of opens and
  requests, each of them atomic; the kernel may answer each one differently.
\<close>

datatype light_op =
    Open sysenv bool bool string
  | Request sysenv light_fn light_state

fun run_op :: "light_op \<Rightarrow> lights \<Rightarrow> lights" where
  "run_op (Open e once ok name) st = snd (open_lights e once ok name st)"
| "run_op (Request e f s) st = snd (set_light f e s st)"

inductive lights_reach :: "lights \<Rightarrow> bool" where
  start: "lights_reach lights_start"
| step: "lights_reach st \<Longrightarrow> lights_reach (run_op op st)"

lemma unat_take_8_le: "unat (take_bit 8 (x :: u32)) \<le> 255"
proof -
  have "unat (take_bit 8 x) = take_bit 8 (unat x)" by (simp add: unsigned_take_bit_eq)
  also have "\<dots> < 2 ^ 8" by (rule take_bit_nat_less_exp)
  finally show ?thesis by simp
qed

lemma unat_scale:
  "unat k * unat x < 4294967296 \<Longrightarrow> unat (k * x :: u32) = unat k * unat x"
  by (simp add: unat_word_ariths)

lemma luma_sum:
  assumes "unat r \<le> 255" "unat g \<le> 255" "unat b \<le> 255"
  shows "unat (77 * r + 150 * g + 29 * b :: u32) = 77 * unat r + 150 * unat g + 29 * unat b"
proof -
  have r: "unat (77 * r) = 77 * unat r" and g: "unat (150 * g) = 150 * unat g"
    and b: "unat (29 * b) = 29 * unat b"
    using assms unat_scale [of 77 r] unat_scale [of 150 g] unat_scale [of 29 b] by simp_all
  have rg: "unat (77 * r + 150 * g) = 77 * unat r + 150 * unat g"
    using assms r g unat_add_u32 [of "77 * r" "150 * g"] by simp
  show ?thesis using assms rg b unat_add_u32 [of "77 * r + 150 * g" "29 * b"] by simp
qed

lemma rgb_unat:
  "unat (rgb_to_brightness s) =
     (77 * unat (take_bit 8 (drop_bit 16 (color s))) + 150 * unat (take_bit 8 (drop_bit 8 (color s)))
      + 29 * unat (take_bit 8 (color s))) div 256"
proof -
  let ?c = "color s"
  have e: "take_bit 8 (drop_bit 16 (take_bit 24 ?c)) = take_bit 8 (drop_bit 16 ?c)"
    "take_bit 8 (drop_bit 8 (take_bit 24 ?c)) = take_bit 8 (drop_bit 8 ?c)"
    "take_bit 8 (take_bit 24 ?c) = take_bit 8 ?c"
    by (simp_all add: drop_bit_take_bit take_bit_take_bit)
  show ?thesis
    unfolding rgb_to_brightness_def Let_def and_ff_take and_ffffff_take e
    by (simp only: unat_drop_bit_eq luma_sum [OF unat_take_8_le unat_take_8_le unat_take_8_le])
      (simp add: drop_bit_eq_div)
qed

inductive_cases lights_reachE: "lights_reach st"

fun run_ops :: "light_op list \<Rightarrow> lights \<Rightarrow> lights" where
  "run_ops [] st = st"
| "run_ops (op # ops) st = run_ops ops (run_op op st)"

fun op_env :: "light_op \<Rightarrow> sysenv" where
  "op_env (Open e once ok name) = e"
| "op_env (Request e f s) = e"

definition one_led :: "lights \<Rightarrow> bool" where
  "one_led st \<longleftrightarrow> (\<exists>l. \<forall>l'. l' \<noteq> l \<longrightarrow> preStatus st l' = 0) \<and> (\<forall>l. preStatus st l \<le> 2)"

definition light_ranges :: "lights \<Rightarrow> bool" where
  "light_ranges st \<longleftrightarrow> 0 \<le> backlight st \<and> backlight st \<le> 255 \<and> trackball st = -1
     \<and> 0 \<le> buttons st \<and> buttons st \<le> 0xffffff"

lemma speaker_spec_one: "\<exists>l. \<forall>l'. l' \<noteq> l \<longrightarrow> speaker_spec s l' = 0"
  by (cases "speaker_led s") (auto simp: speaker_spec_def)

lemma speaker_spec_le: "speaker_spec s l \<le> 2"
  by (simp add: speaker_spec_def)

lemma one_led_spec: "preStatus st = speaker_spec s \<Longrightarrow> one_led st"
  using speaker_spec_one [of s] speaker_spec_le [of s] by (simp add: one_led_def)

lemma one_led_shown: "preStatus st = shown_spec a b \<Longrightarrow> one_led st"
  by (cases "is_lit a \<noteq> 0") (simp_all add: shown_spec_def one_led_spec)

lemma brightness_range: "0 \<le> sint (rgb_to_brightness s) \<and> sint (rgb_to_brightness s) \<le> 255"
proof -
  have "unat (rgb_to_brightness s) \<le> 255"
    using unat_take_8_le [of "drop_bit 16 (color s)"] unat_take_8_le [of "drop_bit 8 (color s)"]
      unat_take_8_le [of "color s"] unfolding rgb_unat by linarith
  then show ?thesis using sint_small [of "rgb_to_brightness s" 255] by linarith
qed

lemma is_lit_range: "0 \<le> sint (is_lit s) \<and> sint (is_lit s) \<le> 0xffffff"
proof -
  have "unat (is_lit s) = take_bit 24 (unat (color s))"
    by (simp add: is_lit_def and_ffffff_take unsigned_take_bit_eq)
  also have "\<dots> < 2 ^ 24" by (rule take_bit_nat_less_exp)
  finally have "unat (is_lit s) \<le> 16777215" by simp
  then show ?thesis using sint_small [of "is_lit s" 16777215] by linarith
qed

lemma trackball_fields [light_simps]:
  "preStatus (snd (handle_trackball_light_locked e st)) = preStatus st"
  "backlight (snd (handle_trackball_light_locked e st)) = backlight st"
  "trackball (snd (handle_trackball_light_locked e st)) = trackball st"
  "buttons (snd (handle_trackball_light_locked e st)) = buttons st"
  "attention (snd (handle_trackball_light_locked e st)) = attention st"
  "battery (snd (handle_trackball_light_locked e st)) = battery st"
  "notification (snd (handle_trackball_light_locked e st)) = notification st"
  using trackball_state [of e st] by auto

lemma open_lights_frame:
  "\<exists>h. snd (open_lights e once ok name st) = st\<lparr>haveTrackballLight := h\<rparr>"
proof -
  have "\<exists>h. st = st\<lparr>haveTrackballLight := h\<rparr>" by (rule exI [of _ "haveTrackballLight st"]) simp
  then show ?thesis
    by (cases "light_module name") (auto simp: open_lights_def init_globals_def Let_def)
qed

lemma one_led_frame: "preStatus st' = preStatus st \<Longrightarrow> one_led st \<Longrightarrow> one_led st'"
  by (simp add: one_led_def)

lemma request_preStatus:
  "preStatus (snd (set_light f e s st)) =
     (case f of Set_battery \<Rightarrow> shown_spec s (notification st)
      | Set_notifications \<Rightarrow> shown_spec (battery st) s | _ \<Rightarrow> preStatus st)"
  by (cases f)
    (simp_all add: set_light_backlight_def set_light_keyboard_def set_light_buttons_def
      set_light_battery_def set_light_notifications_def set_light_attention_def light_simps Let_def
      case_prod_beta)

lemma one_led_set_light: "one_led st \<Longrightarrow> one_led (snd (set_light f e s st))"
  using request_preStatus [of f e s st]
  by (cases f) (auto intro: one_led_frame one_led_shown)

lemma ranges_set_light: "light_ranges st \<Longrightarrow> light_ranges (snd (set_light f e s st))"
  using brightness_range [of s] is_lit_range [of s]
  by (cases f)
    (simp_all add: set_light_backlight_def set_light_keyboard_def set_light_buttons_def
      set_light_battery_def set_light_notifications_def set_light_attention_def light_simps Let_def
      light_ranges_def case_prod_beta)

lemma reach_inv: "lights_reach st \<Longrightarrow> one_led st \<and> light_ranges st"
proof (induction rule: lights_reach.induct)
  case start
  then show ?case
    by (simp add: one_led_def light_ranges_def lights_start_def)
next
  case (step st op)
  show ?case
  proof (cases op)
    case (Open e once ok name)
    obtain h where "run_op op st = st\<lparr>haveTrackballLight := h\<rparr>"
      using open_lights_frame Open by fastforce
    then show ?thesis using step.IH by (simp add: one_led_def light_ranges_def)
  next
    case (Request e f s)
    then show ?thesis using step.IH by (simp add: one_led_set_light ranges_set_light)
  qed
qed

lemma coherent_set_light:
  assumes "files_open e" "coherent st"
  shows "coherent (snd (set_light f e s st))"
  using assms
  by (cases f)
    (auto simp: set_light_backlight_def set_light_keyboard_def set_light_buttons_def
      set_light_battery_def set_light_notifications_def set_light_attention_def Let_def
      case_prod_beta coherent_upd not_led_def
      intro!: coherent_handle coherent_speaker coherent_trackball coherent_write_int)

lemma coherent_run_op: "files_open (op_env op) \<Longrightarrow> coherent st \<Longrightarrow> coherent (run_op op st)"
proof (cases op)
  case (Open e once ok name)
  obtain h where "snd (open_lights e once ok name st) = st\<lparr>haveTrackballLight := h\<rparr>"
    using open_lights_frame by blast
  then show "coherent st \<Longrightarrow> ?thesis" using Open by (simp add: coherent_upd)
qed (simp add: coherent_set_light)

lemma coherent_run_ops:
  "\<forall>op \<in> set ops. files_open (op_env op) \<Longrightarrow> coherent st \<Longrightarrow> coherent (run_ops ops st)"
  by (induction ops arbitrary: st) (simp_all add: coherent_run_op)

lemma coherent_start: "coherent lights_start"
  by (simp add: coherent_def lights_start_def led_shown_def)

lemma led_wait_step:
  "\<lbrakk> \<forall>x \<in> set clock. begin \<le> x \<and> x < begin + 2 ^ 32; \<exists>x \<in> set clock. uint ms \<le> x - begin; d < uint ms; 0 \<le> d \<rbrakk>
   \<Longrightarrow> \<exists>pre c rest. clock = pre @ c # rest \<and> led_wait_loop ms begin d clock = Some rest
       \<and> uint ms \<le> c - begin \<and> (\<forall>x \<in> set pre. x - begin < uint ms)"
proof (induction clock arbitrary: d)
  case Nil
  then show ?case by simp
next
  case (Cons c cs)
  have val: "uint (word_of_int x :: u32) = x" if "0 \<le> x" "x < 2 ^ 32" for x
    using that by (simp add: word_of_int_inverse uint_word_of_int)
  have "d < 2 ^ 32" using Cons.prems(3) uint_lt2p [of ms] by simp
  then have run: "led_wait_loop ms begin d (c # cs) = led_wait_loop ms begin (c - begin) cs"
    using Cons.prems(3,4) val [of d] by (subst led_wait_loop.simps) (simp add: word_less_def)
  have c: "0 \<le> c - begin" "c - begin < 2 ^ 32" using Cons.prems(1) by auto
  show ?case
  proof (cases "c - begin < uint ms")
    case True
    then have "\<exists>x \<in> set cs. uint ms \<le> x - begin" using Cons.prems(2) by auto
    then obtain pre c' rest where "cs = pre @ c' # rest"
        "led_wait_loop ms begin (c - begin) cs = Some rest"
        "uint ms \<le> c' - begin" "\<forall>x \<in> set pre. x - begin < uint ms"
      using Cons.IH [of "c - begin"] Cons.prems(1) c(1) True by auto
    then show ?thesis
      using True run by (intro exI [of _ "c # pre"] exI [of _ c'] exI [of _ rest]) simp
  next
    case False
    then have "led_wait_loop ms begin (c - begin) cs = Some cs"
      using val [OF c] by (subst led_wait_loop.simps) (simp add: word_less_def)
    then show ?thesis
      using False run by (intro exI [of _ "[]"] exI [of _ c] exI [of _ cs]) simp
  qed
qed

section \<open>Properties\<close>

lemma coherent_speaker_first:
  "files_open e \<Longrightarrow> coherent st \<Longrightarrow> coherent (if haveTrackballLight st \<noteq> 0 then snd (set_speaker_light_locked e s st) else st)"
  by (simp add: coherent_speaker)

text \<open>
  C18. On any history of opens and requests, as long as every sysfs file opens and takes what is written, each LED shows
  after a notification or battery request what the two stored requests ask for: the battery's light when it is lit, and else the
  notification's, on the one LED of its first non-zero colour, steady at full brightness or blinking with the request's delays.
  Only a lit battery request for an LED that already shows that kind of light leaves it as it is.
\<close>

theorem speaker_leds_show_request:
  assumes "\<forall>op \<in> set ops. files_open (op_env op)" and "files_open e"
    and "st = run_ops ops lights_start"
  shows "led_shown l (sysfs_log (snd (set_light Set_notifications e s st)))
      = shown_light (battery st) s (led_shown l (sysfs_log st)) l
    \<and> led_shown l (sysfs_log (snd (set_light Set_battery e s st)))
      = shown_light s (notification st) (led_shown l (sysfs_log st)) l"
proof -
  have c: "coherent st" using assms(1,3) coherent_run_ops coherent_start by blast
  note rules = shown_handle shown_speaker shown_trackball coherent_speaker coherent_trackball coherent_upd light_simps Let_def
  show ?thesis
    using c assms(2)
    by (auto simp: set_light_notifications_def set_light_battery_def rules, auto simp: shown_light_def)
qed

definition quiet_env :: sysenv where
  "quiet_env = \<lparr>open_errno = (\<lambda>_. 0), write_errno = (\<lambda>_. 0), exists_errno = (\<lambda>_. 0),
     access_w = (\<lambda>_. True), node_ready = (\<lambda>_ _. True)\<rparr>"

lemma quiet_env_open: "files_open quiet_env"
  by (simp add: files_open_def quiet_env_def)

definition red_timed :: "int \<Rightarrow> light_state" where
  "red_timed n = \<lparr>color = 0xffff0000, flashMode = 1, flashOnMS = n, flashOffMS = 500\<rparr>"

theorem speaker_leds_show_request_witness:
  "led_shown Red (sysfs_log (snd (set_light Set_notifications quiet_env (red_timed 300)
     (run_ops [Open quiet_env True True ''battery''] lights_start)))) = Blinking (line_of 300) (line_of 500)"
proof -
  have b: "battery (run_ops [Open quiet_env True True ''battery''] lights_start) = zero_light_state"
    using open_lights_frame [of quiet_env True True "''battery''" lights_start]
    by (auto simp: lights_start_def)
  have "shown_light zero_light_state (red_timed 300) x Red = Blinking (line_of 300) (line_of 500)" for x
    by (simp add: shown_light_def is_lit_def zero_light_state_def speaker_light_def speaker_led_def
        led_levels_def red_timed_def flash_times_def LIGHT_FLASH_TIMED_def Let_def)
  then show ?thesis
    using speaker_leds_show_request [of "[Open quiet_env True True ''battery'']" quiet_env _ Red "red_timed 300"]
    by (simp add: quiet_env_open b del: run_ops.simps)
qed

text \<open>
  In every reachable state at most one of the three LEDs is on, and the stored
  brightness, button and trackball values stay in their ranges, whatever the kernel answers.
\<close>

theorem lights_invariant:
  assumes "lights_reach st"
  shows "(\<exists>l. \<forall>l'. l' \<noteq> l \<longrightarrow> preStatus st l' = 0) \<and> (\<forall>l. preStatus st l \<le> 2)
    \<and> 0 \<le> backlight st \<and> backlight st \<le> 255 \<and> 0 \<le> buttons st \<and> buttons st \<le> 0xffffff"
  using reach_inv [OF assms] by (simp add: one_led_def light_ranges_def)

theorem lights_invariant_witness:
  "preStatus (run_op (Request quiet_env Set_battery (red_timed 300)) lights_start) Green \<le> 2"
  using lights_invariant [OF lights_reach.step [OF lights_reach.start]] by blast

text \<open>
  The backlight level is the weighted sum of the colour's channels over 256, computed
  without overflow, is at most 255, and a grey of level v is v.
\<close>

theorem rgb_to_brightness_value:
  "unat (rgb_to_brightness s) =
     (77 * unat (take_bit 8 (drop_bit 16 (color s))) + 150 * unat (take_bit 8 (drop_bit 8 (color s)))
      + 29 * unat (take_bit 8 (color s))) div 256
   \<and> 0 \<le> sint (rgb_to_brightness s) \<and> sint (rgb_to_brightness s) \<le> 255
   \<and> (take_bit 8 (drop_bit 16 (color s)) = v \<longrightarrow> take_bit 8 (drop_bit 8 (color s)) = v
      \<longrightarrow> take_bit 8 (color s) = v \<longrightarrow> rgb_to_brightness s = v)"
  using rgb_unat [of s] brightness_range [of s] by (auto simp: word_unat_eq_iff)

theorem rgb_to_brightness_value_witness:
  "rgb_to_brightness \<lparr>color = 0xff808080, flashMode = 0, flashOnMS = 0, flashOffMS = 0\<rparr> = 0x80"
  using rgb_to_brightness_value [of "\<lparr>color = 0xff808080, flashMode = 0, flashOnMS = 0, flashOffMS = 0\<rparr>" "0x80"]
  by (simp add: take_bit_eq_mask mask_eq_exp_minus_1)

text \<open>
  A blink function compares only the kind of light: once an LED is latched in a status,
  another request of that status changes nothing and returns -1, also when its flash times
  differ and also when the writes of the first request failed.
\<close>

theorem blink_latched:
  assumes "now_status level' onMS' offMS' = now_status level onMS offMS"
  shows "blink l e' level' onMS' offMS' (snd (blink l e level onMS offMS st))
    = (-1, snd (blink l e level onMS offMS st))"
  using assms by (subst blink_def) (simp add: light_simps)

theorem blink_latched_witness:
  "blink Red quiet_env 255 900 900 (snd (blink Red quiet_env 255 100 100 lights_start))
    = (-1, snd (blink Red quiet_env 255 100 100 lights_start))"
  by (rule blink_latched) (simp add: now_status_def)

text \<open>
  The trackball handler always writes the mode, on every reachable state, unless the
  mode is -1: the value its guard compares with is never updated.
\<close>

theorem trackball_always_written:
  assumes "lights_reach st" and "attention st \<noteq> -1"
  shows "handle_trackball_light_locked e st =
    write_int e TRACKBALL_FILE (if attention st = 7 \<and> backlight st \<noteq> 0 then 0 else attention st) st"
  using reach_inv [OF assms(1)] assms(2)
  by (auto simp: handle_trackball_light_locked_def light_ranges_def)

theorem trackball_always_written_witness:
  "handle_trackball_light_locked quiet_env lights_start = write_int quiet_env TRACKBALL_FILE 0 lights_start"
  using trackball_always_written [OF lights_reach.start, of quiet_env] by (simp add: lights_start_def)

text \<open>
  On a clock that stays within 2^32 ms of the start and reaches the deadline,
  led_wait_delay returns, and it returns at the first reading at or past the deadline.
\<close>

theorem led_wait_delay_returns:
  assumes "\<forall>x \<in> set clock. begin \<le> x \<and> x < begin + 2 ^ 32" and "\<exists>x \<in> set clock. uint ms \<le> x - begin"
    and "0 < ms"
  shows "\<exists>pre c rest. clock = pre @ c # rest \<and> led_wait_delay ms begin clock = Some rest
    \<and> uint ms \<le> c - begin \<and> (\<forall>x \<in> set pre. x - begin < uint ms)"
  using led_wait_step [OF assms(1,2), of 0] assms(3) by (simp add: led_wait_delay_def word_less_def)

theorem led_wait_delay_returns_witness:
  "\<exists>rest. led_wait_delay 5 1000 [1000, 1003, 1006, 1009] = Some rest"
  using led_wait_delay_returns [of "[1000, 1003, 1006, 1009]" 1000 5] by auto

text \<open>
  The text write_int formats for a C int, with its newline and terminator, fits the
  20-byte buffer, and so do the two trigger names.
\<close>

theorem write_buffers_fit:
  assumes "- (2 ^ 31) \<le> v" and "v < 2 ^ 31"
  shows "length (sprintf_d v @ [CHR 0x0A]) + 1 \<le> 20 \<and> length ''timer'' + 1 \<le> 20 \<and> length ''none'' + 1 \<le> 20"
proof -
  have "length (dec_nat (nat \<bar>v\<bar>)) \<le> Suc 9"
    using assms by (intro dec_nat_length) simp
  then show ?thesis by (auto simp: sprintf_d_def abs_if split: if_splits)
qed

theorem write_buffers_fit_witness: "length (sprintf_d (-2147483648) @ [CHR 0x0A]) + 1 \<le> 20"
  using write_buffers_fit [of "-2147483648"] by simp

end
