(* ===== verification/Dll.thy ===== *)
theory Dll
  imports Prelude
begin

text \<open>
  Bucket tables of NULL-terminated doubly linked lists, the shape of every table of the two
  recorders (back-trace entries and allocation entries, src/proprietary/external/libudf
  ubrd_core and malloc_debug). The nodes live in a heap from addresses to structs. The locale
  \<open>dll_node\<close> is the interface: a struct with \<open>prev\<close> and \<open>next\<close> fields; its lemmas say what
  pushing a node at the head of a bucket, unlinking a node and overwriting a payload do to the
  lists a table holds. Each recorder interprets it for its own structs.
\<close>

section \<open>Chains and tables\<close>

text \<open>
  \<open>chain pv nx h q p xs\<close>: from pointer \<open>p\<close>, following \<open>next\<close>, the heap holds exactly the
  nodes \<open>xs\<close>, and every \<open>prev\<close> points to the node before (the first one to \<open>q\<close>).
\<close>

fun chain :: "('n \<Rightarrow> u32) \<Rightarrow> ('n \<Rightarrow> u32) \<Rightarrow> (u32 \<Rightarrow> 'n option) \<Rightarrow> u32 \<Rightarrow> u32 \<Rightarrow> u32 list \<Rightarrow> bool" where
  "chain pv nx h q p [] \<longleftrightarrow> p = 0"
| "chain pv nx h q p (x # xs) \<longleftrightarrow> p = x \<and> x \<noteq> 0 \<and>
     (case h x of None \<Rightarrow> False | Some n \<Rightarrow> pv n = q \<and> chain pv nx h x (nx n) xs)"

definition buckets ::
    "('n \<Rightarrow> u32) \<Rightarrow> ('n \<Rightarrow> u32) \<Rightarrow> nat \<Rightarrow> (u32 \<Rightarrow> 'n option) \<Rightarrow> (nat \<Rightarrow> u32) \<Rightarrow> (nat \<Rightarrow> u32 list) \<Rightarrow> bool" where
  "buckets pv nx N h S L \<longleftrightarrow>
     (\<forall>s < N. chain pv nx h 0 (S s) (L s) \<and> distinct (L s)) \<and>
     (\<forall>s < N. \<forall>t < N. s \<noteq> t \<longrightarrow> set (L s) \<inter> set (L t) = {})"

definition members :: "nat \<Rightarrow> (nat \<Rightarrow> u32 list) \<Rightarrow> u32 set" where
  "members N L = {x. \<exists>s < N. x \<in> set (L s)}"

lemma chain_cong:
  "(\<And>x. x \<in> set xs \<Longrightarrow> h' x = h x) \<Longrightarrow> chain pv nx h' q p xs = chain pv nx h q p xs"
  by (induction xs arbitrary: q p) (auto split: option.splits)

lemma chain_head: "chain pv nx h q p xs \<Longrightarrow> p = (case xs of [] \<Rightarrow> 0 | x # _ \<Rightarrow> x)"
  by (cases xs) auto

lemma chain_mem: "chain pv nx h q p xs \<Longrightarrow> x \<in> set xs \<Longrightarrow> x \<noteq> 0 \<and> (\<exists>n. h x = Some n)"
  by (induction xs arbitrary: q p) (auto split: option.splits)

lemma members_upd_push: "s < N \<Longrightarrow> members N (L(s := a # L s)) = insert a (members N L)"
  by (auto simp: members_def)

lemma bucketsD:
  assumes "buckets pv nx N h S L" "s < N"
  shows "chain pv nx h 0 (S s) (L s)" "distinct (L s)"
  using assms by (simp_all add: buckets_def)

lemma buckets_disj:
  "buckets pv nx N h S L \<Longrightarrow> s < N \<Longrightarrow> t < N \<Longrightarrow> x \<in> set (L s) \<Longrightarrow> x \<in> set (L t) \<Longrightarrow> s = t"
  unfolding buckets_def by blast

lemma buckets_mem:
  "buckets pv nx N h S L \<Longrightarrow> x \<in> members N L \<Longrightarrow> x \<noteq> 0 \<and> (\<exists>n. h x = Some n)"
  unfolding buckets_def members_def using chain_mem by blast

lemma buckets_cong:
  assumes "\<And>x. x \<in> members N L \<Longrightarrow> h' x = h x"
  shows "buckets pv nx N h' S L = buckets pv nx N h S L"
proof -
  have "chain pv nx h' 0 (S s) (L s) = chain pv nx h 0 (S s) (L s)" if "s < N" for s
    by (rule chain_cong) (use assms that in \<open>auto simp: members_def\<close>)
  then show ?thesis by (simp add: buckets_def)
qed

section \<open>Heap accesses\<close>

text \<open>
  A store through a pointer, which faults (None) when nothing lives at the address, and
  \<open>mspace_free\<close>, a no-op on NULL and a fault on an address that is not allocated.
\<close>

definition store :: "(u32 \<Rightarrow> 'n option) \<Rightarrow> u32 \<Rightarrow> ('n \<Rightarrow> 'n) \<Rightarrow> (u32 \<Rightarrow> 'n option) option" where
  "store h p f = (case h p of None \<Rightarrow> None | Some n \<Rightarrow> Some (h(p \<mapsto> f n)))"

definition free_block :: "(u32 \<Rightarrow> 'n option) \<Rightarrow> u32 \<Rightarrow> (u32 \<Rightarrow> 'n option) option" where
  "free_block h p = (if p = 0 then Some h else case h p of None \<Rightarrow> None | Some _ \<Rightarrow> Some (h(p := None)))"

lemma store_Some [simp]: "h p = Some n \<Longrightarrow> store h p f = Some (h(p \<mapsto> f n))"
  by (simp add: store_def)

lemma store_None [simp]: "h p = None \<Longrightarrow> store h p f = None"
  by (simp add: store_def)

lemma free_block_Some: "h p = Some n \<Longrightarrow> p \<noteq> 0 \<Longrightarrow> free_block h p = Some (h(p := None))"
  by (simp add: free_block_def)

lemma free_block_0 [simp]: "free_block h 0 = Some h"
  by (simp add: free_block_def)

section \<open>The interface\<close>

locale dll_node =
  fixes pv :: "'n \<Rightarrow> u32" and nx :: "'n \<Rightarrow> u32"
    and set_pv :: "u32 \<Rightarrow> 'n \<Rightarrow> 'n" and set_nx :: "u32 \<Rightarrow> 'n \<Rightarrow> 'n"
    and pay :: "'n \<Rightarrow> 'p"
  assumes pv_set_pv: "pv (set_pv p n) = p"
    and nx_set_pv: "nx (set_pv p n) = nx n"
    and pv_set_nx: "pv (set_nx p n) = pv n"
    and nx_set_nx: "nx (set_nx p n) = p"
    and pay_set_pv: "pay (set_pv p n) = pay n"
    and pay_set_nx: "pay (set_nx p n) = pay n"
begin

lemmas node_laws = pv_set_pv nx_set_pv pv_set_nx nx_set_nx pay_set_pv pay_set_nx

lemma chain_set_pv_head:
  assumes "chain pv nx h q p (x # xs)" "h x = Some n" "x \<notin> set xs"
  shows "chain pv nx (h(x \<mapsto> set_pv r n)) r p (x # xs)"
proof -
  have "chain pv nx h x (nx n) xs" using assms by simp
  then have "chain pv nx (h(x \<mapsto> set_pv r n)) x (nx n) xs"
    by (subst chain_cong) (use assms(3) in auto)
  then show ?thesis using assms by (simp add: node_laws)
qed

lemma chain_remove:
  assumes "chain pv nx h q p (xs @ x # ys)" "distinct (xs @ x # ys)" "q \<notin> set (xs @ x # ys)"
    "h x = Some n"
  shows "pv n = (if xs = [] then q else last xs)"
    and "nx n = (case ys of [] \<Rightarrow> 0 | z # _ \<Rightarrow> z)"
    and "\<lbrakk> \<And>z. z \<in> set (xs @ ys) \<Longrightarrow> z \<noteq> pv n \<Longrightarrow> z \<noteq> nx n \<Longrightarrow> h' z = h z;
        xs \<noteq> [] \<Longrightarrow> h' (pv n) = Some (set_nx (nx n) (the (h (pv n))));
        nx n \<noteq> 0 \<Longrightarrow> h' (nx n) = Some (set_pv (pv n) (the (h (nx n)))) \<rbrakk>
      \<Longrightarrow> chain pv nx h' q (if xs = [] then nx n else p) (xs @ ys)"
proof -
  have "pv n = (if xs = [] then q else last xs) \<and> nx n = (case ys of [] \<Rightarrow> 0 | z # _ \<Rightarrow> z) \<and>
     ((\<forall>z \<in> set (xs @ ys). z \<noteq> pv n \<longrightarrow> z \<noteq> nx n \<longrightarrow> h' z = h z) \<longrightarrow>
      (xs \<noteq> [] \<longrightarrow> h' (pv n) = Some (set_nx (nx n) (the (h (pv n))))) \<longrightarrow>
      (nx n \<noteq> 0 \<longrightarrow> h' (nx n) = Some (set_pv (pv n) (the (h (nx n))))) \<longrightarrow>
      chain pv nx h' q (if xs = [] then nx n else p) (xs @ ys))"
    using assms
  proof (induction xs arbitrary: q p)
    case Nil
    then have c: "pv n = q" "chain pv nx h x (nx n) ys" by auto
    have hd: "nx n = (case ys of [] \<Rightarrow> 0 | z # _ \<Rightarrow> z)" using chain_head [OF c(2)] .
    show ?case
    proof (intro conjI impI)
      assume A: "\<forall>z \<in> set ([] @ ys). z \<noteq> pv n \<longrightarrow> z \<noteq> nx n \<longrightarrow> h' z = h z"
        and B: "nx n \<noteq> 0 \<longrightarrow> h' (nx n) = Some (set_pv (pv n) (the (h (nx n))))"
      show "chain pv nx h' q (if [] = [] then nx n else p) ([] @ ys)"
      proof (cases ys)
        case Nil
        then show ?thesis using hd by simp
      next
        case (Cons z zs)
        then obtain m where m: "h z = Some m" "z \<noteq> 0" "chain pv nx h z (nx m) zs" "nx n = z"
          using c(2) by (auto split: option.splits)
        have "h' z = Some (set_pv q m)" using B m c by simp
        moreover have "chain pv nx h' z (nx m) zs"
          using m(3) by (subst chain_cong) (use A Cons Nil.prems c m in auto)
        ultimately show ?thesis using Cons m by (simp add: node_laws)
      qed
    qed (use c hd in auto)
  next
    case (Cons y xs)
    then obtain m where m: "p = y" "y \<noteq> 0" "h y = Some m" "pv m = q" "chain pv nx h y (nx m) (xs @ x # ys)"
      by (auto split: option.splits)
    have ih: "pv n = (if xs = [] then y else last xs)" "nx n = (case ys of [] \<Rightarrow> 0 | z # _ \<Rightarrow> z)"
      using Cons.IH [OF m(5)] Cons.prems by auto
    show ?case
    proof (intro conjI impI)
      assume A: "\<forall>z \<in> set ((y # xs) @ ys). z \<noteq> pv n \<longrightarrow> z \<noteq> nx n \<longrightarrow> h' z = h z"
        and B: "y # xs \<noteq> [] \<longrightarrow> h' (pv n) = Some (set_nx (nx n) (the (h (pv n))))"
        and C: "nx n \<noteq> 0 \<longrightarrow> h' (nx n) = Some (set_pv (pv n) (the (h (nx n))))"
      have rec: "chain pv nx h' y (if xs = [] then nx n else nx m) (xs @ ys)"
        using Cons.IH [OF m(5)] Cons.prems A B C by auto
      have ny: "nx n \<noteq> y" using ih(2) m(2) Cons.prems(2) by (auto split: list.splits)
      have "h' y = Some (if xs = [] then set_nx (nx n) m else m)"
      proof (cases "xs = []")
        case True then show ?thesis using B ih(1) m(3) by simp
      next
        case False
        then have "pv n \<noteq> y" using ih(1) Cons.prems(2) by auto
        then show ?thesis using A ny m(3) False by simp
      qed
      then show "chain pv nx h' q (if y # xs = [] then nx n else p) ((y # xs) @ ys)"
        using rec m by (auto simp: node_laws split: if_splits)
    qed (use ih in auto)
  qed
  then show "pv n = (if xs = [] then q else last xs)" "nx n = (case ys of [] \<Rightarrow> 0 | z # _ \<Rightarrow> z)"
    "\<lbrakk> \<And>z. z \<in> set (xs @ ys) \<Longrightarrow> z \<noteq> pv n \<Longrightarrow> z \<noteq> nx n \<Longrightarrow> h' z = h z;
        xs \<noteq> [] \<Longrightarrow> h' (pv n) = Some (set_nx (nx n) (the (h (pv n))));
        nx n \<noteq> 0 \<Longrightarrow> h' (nx n) = Some (set_pv (pv n) (the (h (nx n)))) \<rbrakk>
      \<Longrightarrow> chain pv nx h' q (if xs = [] then nx n else p) (xs @ ys)"
    by blast+
qed

definition pays :: "(u32 \<Rightarrow> 'n option) \<Rightarrow> u32 \<Rightarrow> 'p option" where
  "pays h x = map_option pay (h x)"

lemma pays_upd [simp]: "pays (h(x \<mapsto> n)) = (pays h)(x \<mapsto> pay n)"
  by (rule ext) (simp add: pays_def)

lemma pays_del [simp]: "pays (h(x := None)) = (pays h)(x := None)"
  by (rule ext) (simp add: pays_def)

lemma pays_same: "h x = Some m \<Longrightarrow> pay n = pay m \<Longrightarrow> pays (h(x \<mapsto> n)) = pays h"
  by (rule ext) (simp add: pays_def)

lemma dom_pays: "dom (pays h) = dom h"
  by (auto simp: pays_def dom_def)

lemma buckets_update_payload:
  assumes "buckets pv nx N h S L" "h x = Some m" "pv n = pv m" "nx n = nx m"
  shows "buckets pv nx N (h(x \<mapsto> n)) S L"
proof -
  have "chain pv nx h q p xs \<Longrightarrow> chain pv nx (h(x \<mapsto> n)) q p xs" for q p xs
    using assms(2-4) by (induction xs arbitrary: q p) (auto split: option.splits)
  then show ?thesis using assms(1) by (auto simp: buckets_def)
qed

lemma buckets_outside:
  assumes "buckets pv nx N h S L" "x \<notin> members N L"
  shows "buckets pv nx N (h(x := v)) S L"
  using assms by (subst buckets_cong) auto

lemma buckets_push:
  assumes b: "buckets pv nx N h S L" and s: "s < N" and a: "a \<noteq> 0" "a \<notin> members N L"
    and n: "pv n = 0" "nx n = S s"
  shows "S s = 0 \<Longrightarrow> buckets pv nx N (h(a \<mapsto> n)) (S(s := a)) (L(s := a # L s))"
    and "S s \<noteq> 0 \<Longrightarrow> \<exists>m. h (S s) = Some m \<and> S s \<noteq> a
      \<and> buckets pv nx N (h(a \<mapsto> n, S s \<mapsto> set_pv a m)) (S(s := a)) (L(s := a # L s))"
proof -
  have c: "chain pv nx h 0 (S s) (L s)" and d: "distinct (L s)" using bucketsD [OF b s] .
  have al: "a \<notin> set (L s)" using a(2) s by (auto simp: members_def)
  have other: "chain pv nx h' 0 (S t) (L t)" if "t < N" "t \<noteq> s" "\<And>x. x \<noteq> a \<Longrightarrow> x \<notin> set (L s) \<Longrightarrow> h' x = h x"
    for t h'
  proof -
    have "x \<noteq> a \<and> x \<notin> set (L s)" if x: "x \<in> set (L t)" for x
      using x \<open>t < N\<close> \<open>t \<noteq> s\<close> s a(2) buckets_disj [OF b] by (auto simp: members_def)
    then show ?thesis
      using that bucketsD(1) [OF b \<open>t < N\<close>] by (subst chain_cong) auto
  qed
  have glue: "buckets pv nx N h' (S(s := a)) (L(s := a # L s))"
    if "chain pv nx h' 0 a (a # L s)" "\<And>x. x \<noteq> a \<Longrightarrow> x \<notin> set (L s) \<Longrightarrow> h' x = h x" for h'
    unfolding buckets_def
  proof (intro conjI allI impI)
    fix t assume t: "t < N"
    show "chain pv nx h' 0 ((S(s := a)) t) ((L(s := a # L s)) t)"
      using that other t by (cases "t = s") auto
    show "distinct ((L(s := a # L s)) t)"
      using al d bucketsD(2) [OF b t] by simp
    fix u assume u: "u < N" "t \<noteq> u"
    show "set ((L(s := a # L s)) t) \<inter> set ((L(s := a # L s)) u) = {}"
      using buckets_disj [OF b] t u a(2) by (auto simp: members_def)
  qed
  show "buckets pv nx N (h(a \<mapsto> n)) (S(s := a)) (L(s := a # L s))" if z: "S s = 0"
  proof (rule glue)
    have "L s = []" using c z by (cases "L s") auto
    then show "chain pv nx (h(a \<mapsto> n)) 0 a (a # L s)" using n z a by simp
  qed simp
  show "\<exists>m. h (S s) = Some m \<and> S s \<noteq> a
      \<and> buckets pv nx N (h(a \<mapsto> n, S s \<mapsto> set_pv a m)) (S(s := a)) (L(s := a # L s))" if nz: "S s \<noteq> 0"
  proof -
    obtain y ys where L: "L s = y # ys" using c nz by (cases "L s") auto
    then obtain m where m: "S s = y" "h y = Some m" using c by (auto split: option.splits)
    have ya: "y \<noteq> a" "y \<notin> set ys" using al d L by auto
    have "chain pv nx (h(a \<mapsto> n)) 0 y (y # ys) = chain pv nx h 0 y (y # ys)"
      by (rule chain_cong) (use L al in auto)
    then have "chain pv nx (h(a \<mapsto> n)) 0 y (y # ys)"
      using c L m(1) by metis
    then have "chain pv nx (h(a \<mapsto> n, y \<mapsto> set_pv a m)) a y (y # ys)"
      using chain_set_pv_head [of "h(a \<mapsto> n)" 0 y y ys m a] m ya by simp
    then have "chain pv nx (h(a \<mapsto> n, y \<mapsto> set_pv a m)) 0 a (a # L s)"
      using n m ya a L by simp
    then have "buckets pv nx N (h(a \<mapsto> n, y \<mapsto> set_pv a m)) (S(s := a)) (L(s := a # L s))"
      by (rule glue) (use L in auto)
    then show ?thesis using m ya by auto
  qed
qed

text \<open>What unlinking node \<open>x\<close> makes of the heap, whichever order the neighbours are updated in.\<close>

definition unlink_heap :: "(u32 \<Rightarrow> 'n option) \<Rightarrow> u32 \<Rightarrow> u32 \<Rightarrow> u32 \<Rightarrow> 'n option" where
  "unlink_heap h p q =
     (let h1 = (if p = 0 then h else h(p \<mapsto> set_nx q (the (h p))))
      in if q = 0 then h1 else h1(q \<mapsto> set_pv p (the (h1 q))))"

lemma buckets_unlink:
  assumes b: "buckets pv nx N h S L" and s: "s < N" and x: "x \<in> set (L s)" and n: "h x = Some n"
  shows "pv n \<noteq> 0 \<Longrightarrow> (\<exists>m. h (pv n) = Some m) \<and> pv n \<noteq> x"
    and "nx n \<noteq> 0 \<Longrightarrow> (\<exists>m. h (nx n) = Some m) \<and> nx n \<noteq> x"
    and "pv n \<noteq> 0 \<Longrightarrow> pv n \<noteq> nx n"
    and "pv n = 0 \<longleftrightarrow> S s = x"
    and "buckets pv nx N (unlink_heap h (pv n) (nx n)) (S(s := if pv n = 0 then nx n else S s))
      (L(s := remove1 x (L s)))"
proof -
  have c: "chain pv nx h 0 (S s) (L s)" and d: "distinct (L s)" using bucketsD [OF b s] .
  obtain xs ys where L: "L s = xs @ x # ys" "x \<notin> set xs"
    using split_list_first [OF x] by blast
  have d': "distinct (xs @ x # ys)" using d L by simp
  have z0: "0 \<notin> set (xs @ x # ys)" using chain_mem [OF c] L by auto
  note R = chain_remove [OF c [unfolded L(1)] d' z0 n]
  have pvn: "pv n = (if xs = [] then 0 else last xs)" by (rule R(1))
  have nxn: "nx n = (case ys of [] \<Rightarrow> 0 | z # _ \<Rightarrow> z)" by (rule R(2))
  have pin: "xs \<noteq> [] \<Longrightarrow> pv n \<in> set xs" using pvn by simp
  have qin: "ys \<noteq> [] \<Longrightarrow> nx n \<in> set ys" using nxn by (cases ys) auto
  have zx: "0 \<notin> set xs" and zy: "0 \<notin> set ys" using z0 by auto
  have p0: "pv n = 0 \<longleftrightarrow> xs = []"
  proof (cases "xs = []")
    case False then show ?thesis using pin zx by metis
  qed (simp add: pvn)
  have q0: "nx n = 0 \<longleftrightarrow> ys = []"
  proof (cases "ys = []")
    case False then show ?thesis using qin zy by metis
  qed (simp add: nxn)
  show g1: "(\<exists>m. h (pv n) = Some m) \<and> pv n \<noteq> x" if "pv n \<noteq> 0"
    using that p0 pin d' chain_mem [OF c, of "pv n"] L by auto
  show g2: "(\<exists>m. h (nx n) = Some m) \<and> nx n \<noteq> x" if "nx n \<noteq> 0"
    using that q0 qin d' chain_mem [OF c, of "nx n"] L by auto
  show g3: "pv n \<noteq> nx n" if "pv n \<noteq> 0"
    using that p0 pin q0 qin d' by (cases "ys = []") auto
  show "pv n = 0 \<longleftrightarrow> S s = x"
    using p0 chain_head [OF c] L z0 by (cases xs) auto
  let ?h = "unlink_heap h (pv n) (nx n)"
  have ch: "chain pv nx ?h 0 (if xs = [] then nx n else S s) (xs @ ys)"
  proof (rule R(3))
    show "?h z = h z" if "z \<noteq> pv n" "z \<noteq> nx n" for z using that by (simp add: unlink_heap_def Let_def)
    show "?h (pv n) = Some (set_nx (nx n) (the (h (pv n))))" if "xs \<noteq> []"
      using that p0 g3 by (auto simp: unlink_heap_def Let_def)
    show "?h (nx n) = Some (set_pv (pv n) (the (h (nx n))))" if "nx n \<noteq> 0"
      using that g3 by (auto simp: unlink_heap_def Let_def)
  qed
  have rm: "remove1 x (L s) = xs @ ys" using L d' by (simp add: remove1_append)
  have same: "?h z = h z" if "z \<notin> set (L s)" for z
    using that p0 q0 pin qin L by (auto simp: unlink_heap_def Let_def)
  show "buckets pv nx N ?h (S(s := if pv n = 0 then nx n else S s)) (L(s := remove1 x (L s)))"
    unfolding buckets_def
  proof (intro conjI allI impI)
    fix t assume t: "t < N"
    show "chain pv nx ?h 0 ((S(s := if pv n = 0 then nx n else S s)) t) ((L(s := remove1 x (L s))) t)"
    proof (cases "t = s")
      case True then show ?thesis using ch rm p0 by simp
    next
      case False
      then have "z \<notin> set (L s)" if "z \<in> set (L t)" for z using that buckets_disj [OF b t s] by blast
      then have "chain pv nx ?h 0 (S t) (L t)"
        using same bucketsD(1) [OF b t] by (subst chain_cong) auto
      then show ?thesis using False by simp
    qed
    show "distinct ((L(s := remove1 x (L s))) t)" using d bucketsD(2) [OF b t] by simp
    fix u assume u: "u < N" "t \<noteq> u"
    show "set ((L(s := remove1 x (L s))) t) \<inter> set ((L(s := remove1 x (L s))) u) = {}"
      using buckets_disj [OF b t u(1)] u d by auto
  qed
qed

lemma members_unlink:
  assumes "buckets pv nx N h S L" "s < N" "x \<in> set (L s)"
  shows "members N (L(s := remove1 x (L s))) = members N L - {x}"
  using assms bucketsD(2) [OF assms(1,2)] buckets_disj [OF assms(1,2)]
  by (auto simp: members_def split: if_splits) (metis fun_upd_apply)+

lemma pays_unlink:
  assumes "p \<noteq> 0 \<Longrightarrow> \<exists>m. h p = Some m" "q \<noteq> 0 \<Longrightarrow> \<exists>m. h q = Some m" "p \<noteq> 0 \<Longrightarrow> p \<noteq> q"
  shows "pays (unlink_heap h p q) = pays h"
  using assms by (auto simp: unlink_heap_def pays_def node_laws fun_eq_iff)

end

end
