(* ===== verification/Ubrd.thy ===== *)
theory Ubrd
  imports Dll "HOL-Library.Monad_Syntax"
begin

text \<open>
  The back-trace recorder of libudf (src/proprietary/external/libudf/ubrd_core/recorder.c with
  include/ubrd_config.h and include/recorder.h), for the 32-bit build. Pointers are 32-bit
  words; each kind of heap struct has its own map from addresses; an operation is a function
  on the recorder state whose result None is a fault (a NULL or dangling pointer followed, a
  block freed twice, an array index out of range, a lock taken twice). \<open>mspace_malloc\<close> is the
  argument \<open>malloc\<close>: from the live blocks and the size to an address, 0 when it fails; the
  unwinder's answer (ubrd_get_backtrace_common) is the argument \<open>bt\<close>.
\<close>

section \<open>Constants and data\<close>

definition DEBUG_MSPACE_SIZE_UNIT :: u32 where "DEBUG_MSPACE_SIZE_UNIT = 1024 * 1024"
definition RING_BUFFER_SIZE_UNIT :: u32 where "RING_BUFFER_SIZE_UNIT = 1024"
definition BT_DEPTH_UNIT :: u32 where "BT_DEPTH_UNIT = 5"
definition DEFAULT_DEBUG_MSPACE_SIZE :: u32 where "DEFAULT_DEBUG_MSPACE_SIZE = 32 * 1024 * 1024"
definition DEFAULT_HISTORICAL_ALLOC_SIZE :: u32 where "DEFAULT_HISTORICAL_ALLOC_SIZE = 2046"
definition DEFAULT_MAX_BACKTRACE_DEPTH :: u32 where "DEFAULT_MAX_BACKTRACE_DEPTH = 5"
definition DEBUG_MSPACE_SIZE_MASK :: u32 where "DEBUG_MSPACE_SIZE_MASK = 0xFFF"
definition RING_BUFFER_SIZE_MASK :: u32 where "RING_BUFFER_SIZE_MASK = 0xFFF000"
definition MAX_BT_DEPTH_MASK :: u32 where "MAX_BT_DEPTH_MASK = 0x0F000000"
definition SIG_HANDLER_MASK :: u32 where "SIG_HANDLER_MASK = 0x10000000"
definition UNWIND_BT_MASK :: u32 where "UNWIND_BT_MASK = 0x60000000"
definition REMOVE_ENTRY_DIRECTLY_MASK :: u32 where "REMOVE_ENTRY_DIRECTLY_MASK = 0x80000000"
definition RECORD_WITH_RING_BUF_MASK :: u64 where "RECORD_WITH_RING_BUF_MASK = 0x100000000"
definition UBRD_MAX_NAME_LEN :: nat where "UBRD_MAX_NAME_LEN = 32"
definition BT_HASH_TABLE_SIZE :: nat where "BT_HASH_TABLE_SIZE = 1543"
definition HASH_TABLE_BITS :: nat where "HASH_TABLE_BITS = 15"
definition HASH_TABLE_SIZE :: nat where "HASH_TABLE_SIZE = 2 ^ HASH_TABLE_BITS"
definition UBRD_FP_BACKTRACE :: u32 where "UBRD_FP_BACKTRACE = 0"
definition MAX_BACKTRACE_SIZE :: u32 where "MAX_BACKTRACE_SIZE = 32"

definition ALIGN_UP_TO_PAGE_SIZE :: "u32 \<Rightarrow> u32" where
  "ALIGN_UP_TO_PAGE_SIZE p = (p + (4096 - 1)) AND NOT (4096 - 1)"

record ubrd_config =
  mDebugMspaceSize :: u32
  mRingBufferSize :: u32
  mMaxBtDepth :: u32
  mSig :: u32
  mBtMethod :: u32
  mEntryRemoveDirectly :: u32
  mRecordWithRingBuf :: u32
  cfg_module_name :: string

record bt_entry =
  be_slot :: nat
  be_prev :: u32
  be_next :: u32
  be_numEntries :: nat
  be_free_referenced :: u32
  be_size :: u32
  be_allocations :: u32
  be_backtrace :: "u32 list"

record entry_info =
  mAddr :: u32
  mBytes :: u32
  mExtraInfoLen :: u32
  mExtraInfo :: "u8 list option"

record hash_entry =
  he_prev :: u32
  he_next :: u32
  he_mPBtEntry :: u32
  he_mBt :: u32
  he_mPEntryInfo :: u32

text \<open>
  struct ubrd: the configuration, the back-trace table, the hash table and the ring buffer
  (base pointer and contents), the mutex (held or not), the mspace pointer, and the four
  kinds of blocks that live in the mspace.
\<close>

record ubrd =
  mConfig :: ubrd_config
  bt_count :: u32
  bt_slots :: "nat \<Rightarrow> u32"
  hash_count :: u32
  hash_base :: u32
  hash_slots :: "nat \<Rightarrow> u32"
  compareFunc :: "entry_info \<Rightarrow> entry_info \<Rightarrow> bool"
  ring_head :: nat
  ring_size :: nat
  ring_base :: u32
  ring_slots :: "nat \<Rightarrow> u32"
  mMutex :: bool
  mMspace :: u32
  bts :: "u32 \<Rightarrow> bt_entry option"
  hes :: "u32 \<Rightarrow> hash_entry option"
  infos :: "u32 \<Rightarrow> entry_info option"
  free_bts :: "u32 \<Rightarrow> u32 list option"

definition live :: "ubrd \<Rightarrow> u32 set" where
  "live st = dom (bts st) \<union> dom (hes st) \<union> dom (infos st) \<union> dom (free_bts st)
     \<union> {hash_base st, ring_base st}"

section \<open>Configuration and tables\<close>

definition Default_compareFunc :: "entry_info \<Rightarrow> entry_info \<Rightarrow> bool" where
  "Default_compareFunc data1 data2 = (mAddr data1 = mAddr data2)"

definition initConfig :: "string \<Rightarrow> u64 \<Rightarrow> ubrd_config" where
  "initConfig name debugConfig =
     (let config_low = ucast debugConfig AND 0xFFFFFFFF :: u32;
          mspace_size = (config_low AND DEBUG_MSPACE_SIZE_MASK) * DEBUG_MSPACE_SIZE_UNIT;
          ring = drop_bit 12 (config_low AND RING_BUFFER_SIZE_MASK) * RING_BUFFER_SIZE_UNIT;
          depth = drop_bit 24 (config_low AND MAX_BT_DEPTH_MASK) * BT_DEPTH_UNIT;
          meth = drop_bit 29 (config_low AND UNWIND_BT_MASK);
          sig = (if config_low AND SIG_HANDLER_MASK \<noteq> 0 then 1 else 0);
          directly = (if config_low AND REMOVE_ENTRY_DIRECTLY_MASK \<noteq> 0 then 1 else 0);
          with_ring = (if debugConfig AND RECORD_WITH_RING_BUF_MASK \<noteq> 0 then 1 else 0);
          mspace_size1 = (if mspace_size = 0 then DEFAULT_DEBUG_MSPACE_SIZE else mspace_size);
          ring1 = (if ring = 0 then DEFAULT_HISTORICAL_ALLOC_SIZE else ring);
          depth1 = (if depth = 0 then DEFAULT_MAX_BACKTRACE_DEPTH else depth);
          depth2 = (if DEFAULT_MAX_BACKTRACE_DEPTH < depth1 \<and> meth = UBRD_FP_BACKTRACE
                    then DEFAULT_MAX_BACKTRACE_DEPTH else depth1);
          depth3 = (if MAX_BACKTRACE_SIZE < depth2 then MAX_BACKTRACE_SIZE else depth2)
      in \<lparr>mDebugMspaceSize = ALIGN_UP_TO_PAGE_SIZE mspace_size1, mRingBufferSize = ring1,
          mMaxBtDepth = depth3, mSig = sig, mBtMethod = meth, mEntryRemoveDirectly = directly,
          mRecordWithRingBuf = with_ring, cfg_module_name = take (UBRD_MAX_NAME_LEN - 1) name\<rparr>)"

text \<open>\<open>raw\<close>: what the freshly allocated array of hash slots holds (initTables does not clear it).\<close>

definition initTables ::
    "(u32 set \<Rightarrow> nat \<Rightarrow> u32) \<Rightarrow> (nat \<Rightarrow> u32) \<Rightarrow> (entry_info \<Rightarrow> entry_info \<Rightarrow> bool) option
     \<Rightarrow> ubrd \<Rightarrow> int \<times> ubrd" where
  "initTables malloc raw compare st =
     (if mMspace st = 0 then (-1, st)
      else
        let s0 = st\<lparr>hash_base := 0, ring_base := 0\<rparr>;
            hash_mode = (mRecordWithRingBuf (mConfig s0) = 0);
            base = malloc (live s0) (4 * HASH_TABLE_SIZE);
            s1 = (if hash_mode then s0\<lparr>hash_base := base, hash_slots := raw\<rparr> else s0)
        in
        if hash_mode \<and> base = 0 then (-1, s1)
        else
          let s2 = (if hash_mode then
                      s1\<lparr>compareFunc := (case compare of Some c \<Rightarrow> c | None \<Rightarrow> Default_compareFunc)\<rparr>
                    else s1)
          in
          if hash_mode \<and> mEntryRemoveDirectly (mConfig s2) \<noteq> 0 then
            (0, s2\<lparr>mConfig := (mConfig s2)\<lparr>mRingBufferSize := 0\<rparr>\<rparr>)
          else if mRingBufferSize (mConfig s2) \<noteq> 0 then
            let sz = unat (mRingBufferSize (mConfig s2));
                rb = malloc (live s2) (4 * sz);
                s3 = s2\<lparr>ring_size := sz, ring_base := rb\<rparr>
            in if rb \<noteq> 0 then (0, s3\<lparr>ring_slots := (\<lambda>_. 0), bt_slots := (\<lambda>_. 0)\<rparr>) else (-1, s3)
          else (-1, s2))"

section \<open>Comparing and hashing back traces\<close>

fun word_bytes :: "u32 \<Rightarrow> u8 list" where
  "word_bytes w = [ucast w, ucast (drop_bit 8 w), ucast (drop_bit 16 w), ucast (drop_bit 24 w)]"

definition bt_bytes :: "u32 list \<Rightarrow> u8 list" where
  "bt_bytes ws = concat (map word_bytes ws)"

text \<open>
  The loop compares the \<open>k\<close> bytes still to go from the last one downwards and stops at the
  first difference (the source unrolls its body four times).
\<close>

fun descend_memcmp :: "u8 list \<Rightarrow> u8 list \<Rightarrow> nat \<Rightarrow> int \<Rightarrow> int" where
  "descend_memcmp b1 b2 0 d = d"
| "descend_memcmp b1 b2 (Suc k) d =
     (if d \<noteq> 0 then d else descend_memcmp b1 b2 k (uint (b1 ! k) - uint (b2 ! k)))"

definition bt_matches :: "u32 list \<Rightarrow> nat \<Rightarrow> u32 \<Rightarrow> bt_entry \<Rightarrow> bool" where
  "bt_matches bt numEntries sz e \<longleftrightarrow>
     be_size e = sz \<and> be_numEntries e = numEntries \<and>
     descend_memcmp (bt_bytes bt) (bt_bytes (be_backtrace e)) (numEntries * 4) 0 = 0"

partial_function (option) search_list ::
    "(u32 \<Rightarrow> bt_entry option) \<Rightarrow> u32 list \<Rightarrow> nat \<Rightarrow> u32 \<Rightarrow> u32 \<Rightarrow> u32 option" where
  "search_list h bt numEntries sz entry =
     (if entry = 0 then Some 0
      else do {
        n \<leftarrow> h entry;
        (if bt_matches bt numEntries sz n then Some entry
         else search_list h bt numEntries sz (be_next n))
      })"

definition searchBtEntry :: "ubrd \<Rightarrow> nat \<Rightarrow> u32 list \<Rightarrow> nat \<Rightarrow> u32 \<Rightarrow> u32 option" where
  "searchBtEntry st slot bt numEntries sz = search_list (bts st) bt numEntries sz (bt_slots st slot)"

definition hash_32 :: "'a::len word \<Rightarrow> nat \<Rightarrow> 'a word" where
  "hash_32 val bits = drop_bit (32 - bits) (val * 0x9e370001)"

fun get_hash :: "u32 \<Rightarrow> u32 list \<Rightarrow> u32" where
  "get_hash h [] = h"
| "get_hash h (w # ws) = get_hash (h * 33 + drop_bit 2 w) ws"

section \<open>Recording a back trace\<close>

definition push_bt :: "u32 \<Rightarrow> bt_entry \<Rightarrow> ubrd \<Rightarrow> ubrd option" where
  "push_bt entry n st =
     (let slot = be_slot n; s1 = st\<lparr>bts := (bts st)(entry \<mapsto> n), bt_slots := (bt_slots st)(slot := entry)\<rparr>
      in do {
        s2 \<leftarrow> (if be_next n \<noteq> 0 then do { h \<leftarrow> store (bts s1) (be_next n) (be_prev_update (\<lambda>_. entry)); Some (s1\<lparr>bts := h\<rparr>) }
              else Some s1);
        Some (s2\<lparr>bt_count := bt_count s2 + 1\<rparr>)
      })"

definition recordBacktrace ::
    "(u32 set \<Rightarrow> nat \<Rightarrow> u32) \<Rightarrow> u32 list \<Rightarrow> ubrd \<Rightarrow> u32 \<Rightarrow> (u32 \<times> ubrd) option" where
  "recordBacktrace malloc bt st sz =
     (let numEntries = length bt;
          slot = unat (get_hash 0 bt) mod BT_HASH_TABLE_SIZE
      in do {
        entry \<leftarrow> searchBtEntry st slot bt numEntries sz;
        (if entry \<noteq> 0 then do {
           h \<leftarrow> store (bts st) entry (\<lambda>n. n\<lparr>be_allocations := be_allocations n + 1\<rparr>);
           Some (entry, st\<lparr>bts := h\<rparr>)
         }
         else if mMspace st = 0 then Some (0, st)
         else
           let new = malloc (live st) (28 + numEntries * 4) in
           if new = 0 then Some (0, st)
           else do {
             s1 \<leftarrow> push_bt new \<lparr>be_slot = slot, be_prev = 0, be_next = bt_slots st slot,
                    be_numEntries = numEntries, be_free_referenced = 0, be_size = sz,
                    be_allocations = 1, be_backtrace = bt\<rparr> st;
             Some (new, s1)
           })
      })"

definition unlink_bt :: "u32 \<Rightarrow> bt_entry \<Rightarrow> ubrd \<Rightarrow> ubrd option" where
  "unlink_bt b n st =
     (let prev = be_prev n; next = be_next n in do {
        h1 \<leftarrow> (if prev \<noteq> 0 then store (bts st) prev (be_next_update (\<lambda>_. next)) else Some (bts st));
        h2 \<leftarrow> (if next \<noteq> 0 then store h1 next (be_prev_update (\<lambda>_. prev)) else Some h1);
        slots \<leftarrow> (if prev = 0 then
                   (if be_slot n < BT_HASH_TABLE_SIZE then Some ((bt_slots st)(be_slot n := next)) else None)
                 else Some (bt_slots st));
        Some (st\<lparr>bts := h2, bt_slots := slots, bt_count := bt_count st - 1\<rparr>)
      })"

definition decBtEntry :: "ubrd \<Rightarrow> u32 \<Rightarrow> ubrd option" where
  "decBtEntry st b = do {
     n \<leftarrow> bts st b;
     (if be_allocations n = 0 \<and> be_free_referenced n = 0 then do {
        s1 \<leftarrow> unlink_bt b n st;
        h \<leftarrow> free_block (bts s1) b;
        Some (s1\<lparr>bts := h\<rparr>)
      }
      else Some st)
   }"

section \<open>The ring buffer\<close>

datatype ring_mode = UBRD_HISTORICAL_TABLE | UBRD_RING_BUFFER

definition free_entry :: "ubrd \<Rightarrow> u32 \<Rightarrow> hash_entry \<Rightarrow> ubrd option" where
  "free_entry st e n = do {
     fb \<leftarrow> (if he_mBt n \<noteq> 0 then free_block (free_bts st) (he_mBt n) else Some (free_bts st));
     inf \<leftarrow> free_block (infos st) (he_mPEntryInfo n);
     hs \<leftarrow> free_block (hes st) e;
     Some (st\<lparr>free_bts := fb, infos := inf, hes := hs\<rparr>)
   }"

definition ring_put :: "u32 \<Rightarrow> ubrd \<Rightarrow> ubrd" where
  "ring_put he st =
     (let s1 = st\<lparr>ring_slots := (ring_slots st)(ring_head st := he), ring_head := ring_head st + 1\<rparr>
      in if unat (mRingBufferSize (mConfig s1)) \<le> ring_head s1 then s1\<lparr>ring_head := 0\<rparr> else s1)"

definition insertToRingBuffer :: "ubrd \<Rightarrow> u32 \<Rightarrow> ring_mode \<Rightarrow> ubrd option" where
  "insertToRingBuffer st he mode =
     (if he = 0 \<or> ring_base st = 0 then Some st
      else do {
        oldEntry \<leftarrow> (if ring_head st < ring_size st then Some (ring_slots st (ring_head st)) else None);
        s1 \<leftarrow> (if mode = UBRD_HISTORICAL_TABLE then do {
                n \<leftarrow> hes st he;
                h \<leftarrow> store (bts st) (he_mPBtEntry n)
                      (\<lambda>b. b\<lparr>be_free_referenced := be_free_referenced b + 1,
                            be_allocations := be_allocations b - 1\<rparr>);
                Some (st\<lparr>bts := h\<rparr>)
              }
              else Some st);
        let s2 = ring_put he s1;
        (if oldEntry \<noteq> 0 then do {
           od \<leftarrow> hes s2 oldEntry;
           h \<leftarrow> store (bts s2) (he_mPBtEntry od)
                 (\<lambda>b. if mode = UBRD_HISTORICAL_TABLE
                      then b\<lparr>be_free_referenced := be_free_referenced b - 1\<rparr>
                      else b\<lparr>be_allocations := be_allocations b - 1\<rparr>);
           s3 \<leftarrow> decBtEntry (s2\<lparr>bts := h\<rparr>) (he_mPBtEntry od);
           oe \<leftarrow> hes s3 oldEntry;
           free_entry s3 oldEntry oe
         }
         else Some s2)
      })"

definition recordToRingBuffer ::
    "(u32 set \<Rightarrow> nat \<Rightarrow> u32) \<Rightarrow> ubrd \<Rightarrow> u32 \<Rightarrow> u32 \<Rightarrow> u32 \<Rightarrow> (int \<times> ubrd) option" where
  "recordToRingBuffer malloc st pBtEntry pEntryInfo pBt =
     (if pBtEntry = 0 then Some (-1, st)
      else
        let new = malloc (live st) 20 in
        if new \<noteq> 0 then do {
          s1 \<leftarrow> insertToRingBuffer
                 (st\<lparr>hes := (hes st)(new \<mapsto> \<lparr>he_prev = 0, he_next = 0, he_mPBtEntry = pBtEntry,
                                             he_mBt = pBt, he_mPEntryInfo = pEntryInfo\<rparr>)\<rparr>)
                 new UBRD_RING_BUFFER;
          Some (0, s1)
        }
        else Some (-1, st))"

section \<open>The hash table\<close>

definition hash_slot :: "u32 \<Rightarrow> nat" where
  "hash_slot key = unat (hash_32 key HASH_TABLE_BITS) mod HASH_TABLE_SIZE"

definition recordToHashTable ::
    "(u32 set \<Rightarrow> nat \<Rightarrow> u32) \<Rightarrow> ubrd \<Rightarrow> u32 \<Rightarrow> u32 \<Rightarrow> u32 \<Rightarrow> (u32 \<times> ubrd) option" where
  "recordToHashTable malloc st hashKey pEntryInfo pBtEntry =
     (let slot = hash_slot hashKey in
      if pBtEntry = 0 \<or> mMspace st = 0 \<or> hash_base st = 0 then Some (0, st)
      else
        let entry = malloc (live st) 20 in
        if entry = 0 then Some (0, st)
        else
          let head = hash_slots st slot;
              n = \<lparr>he_prev = 0, he_next = (if head = 0 then 0 else head), he_mPBtEntry = pBtEntry,
                   he_mBt = 0, he_mPEntryInfo = pEntryInfo\<rparr>;
              h0 = (hes st)(entry \<mapsto> n)
          in do {
            h1 \<leftarrow> (if head = 0 then Some h0 else store h0 head (he_prev_update (\<lambda>_. entry)));
            Some (entry, st\<lparr>hes := h1, hash_slots := (hash_slots st)(slot := entry),
                            hash_count := hash_count st + 1\<rparr>)
          })"

partial_function (option) find_list ::
    "ubrd \<Rightarrow> entry_info \<Rightarrow> u32 \<Rightarrow> u32 option" where
  "find_list st key e =
     (if e = 0 then Some 0
      else do {
        n \<leftarrow> hes st e;
        i \<leftarrow> infos st (he_mPEntryInfo n);
        (if compareFunc st key i then Some e else find_list st key (he_next n))
      })"

definition findHashEntry :: "ubrd \<Rightarrow> nat \<Rightarrow> entry_info \<Rightarrow> u32 option" where
  "findHashEntry st slot key = find_list st key (hash_slots st slot)"

definition unlink_hash :: "nat \<Rightarrow> u32 \<Rightarrow> hash_entry \<Rightarrow> ubrd \<Rightarrow> ubrd option" where
  "unlink_hash slot e n st =
     (if he_prev n = 0 then
        let slots = (hash_slots st)(slot := he_next n) in do {
          h \<leftarrow> (if slots slot \<noteq> 0 then store (hes st) (slots slot) (he_prev_update (\<lambda>_. 0)) else Some (hes st));
          Some (st\<lparr>hash_slots := slots, hes := h\<rparr>)
        }
      else if he_next n = 0 then do {
        h \<leftarrow> store (hes st) (he_prev n) (he_next_update (\<lambda>_. 0));
        Some (st\<lparr>hes := h\<rparr>)
      }
      else do {
        h1 \<leftarrow> store (hes st) (he_next n) (he_prev_update (\<lambda>_. he_prev n));
        h2 \<leftarrow> store h1 (he_prev n) (he_next_update (\<lambda>_. he_next n));
        Some (st\<lparr>hes := h2\<rparr>)
      })"

definition removeFromHashTable :: "ubrd \<Rightarrow> u32 \<Rightarrow> entry_info \<Rightarrow> (u32 \<times> ubrd) option" where
  "removeFromHashTable st hashKey key =
     (let slot = hash_slot hashKey in do {
        e \<leftarrow> findHashEntry st slot key;
        (if e = 0 then Some (0, st)
         else do {
           n \<leftarrow> hes st e;
           s1 \<leftarrow> unlink_hash slot e n st;
           let s2 = s1\<lparr>hash_count := hash_count s1 - 1\<rparr>;
           h \<leftarrow> store (hes s2) e (\<lambda>n. n\<lparr>he_next := 0, he_prev := 0\<rparr>);
           Some (e, s2\<lparr>hes := h\<rparr>)
         })
      })"

section \<open>Removing and recording\<close>

definition move ::
    "(u32 set \<Rightarrow> nat \<Rightarrow> u32) \<Rightarrow> u32 list \<Rightarrow> ubrd \<Rightarrow> u32 \<Rightarrow> entry_info \<Rightarrow> (int \<times> ubrd) option" where
  "move malloc bt st hashKey key = do {
     (e, s1) \<leftarrow> removeFromHashTable st hashKey key;
     (if e = 0 then Some (1, s1)
      else if mEntryRemoveDirectly (mConfig s1) = 0 then
        let freeBt = malloc (live s1) (4 + length bt * 4) in
        if freeBt \<noteq> 0 then do {
          h \<leftarrow> store (hes s1) e (he_mBt_update (\<lambda>_. freeBt));
          s2 \<leftarrow> insertToRingBuffer (s1\<lparr>free_bts := (free_bts s1)(freeBt \<mapsto> bt), hes := h\<rparr>) e UBRD_HISTORICAL_TABLE;
          Some (0, s2)
        }
        else do {
          h \<leftarrow> store (hes s1) e (he_mBt_update (\<lambda>_. 0));
          Some (-1, s1\<lparr>hes := h\<rparr>)
        }
      else do {
        n \<leftarrow> hes s1 e;
        h \<leftarrow> store (bts s1) (he_mPBtEntry n) (\<lambda>b. b\<lparr>be_allocations := be_allocations b - 1\<rparr>);
        s2 \<leftarrow> decBtEntry (s1\<lparr>bts := h\<rparr>) (he_mPBtEntry n);
        s3 \<leftarrow> free_entry s2 e n;
        Some (0, s3)
      })
   }"

definition ubrd_clean_exit :: "ubrd \<Rightarrow> ubrd" where
  "ubrd_clean_exit st = st\<lparr>mMspace := 0\<rparr>"

definition lock :: "ubrd \<Rightarrow> ubrd option" where
  "lock st = (if mMutex st then None else Some (st\<lparr>mMutex := True\<rparr>))"

definition unlock :: "ubrd \<Rightarrow> ubrd" where
  "unlock st = st\<lparr>mMutex := False\<rparr>"

definition record_entry ::
    "(u32 set \<Rightarrow> nat \<Rightarrow> u32) \<Rightarrow> ubrd \<Rightarrow> u32 \<Rightarrow> u32 \<Rightarrow> u32 \<Rightarrow> ubrd option" where
  "record_entry malloc st addr pEntryInfo pBtEntry =
     (if mRecordWithRingBuf (mConfig st) = 0 then do {
        (e, s1) \<leftarrow> recordToHashTable malloc st addr pEntryInfo pBtEntry;
        Some (if e \<noteq> 0 then s1 else ubrd_clean_exit s1)
      }
      else do {
        (r, s1) \<leftarrow> recordToRingBuffer malloc st pBtEntry pEntryInfo 0;
        Some (if r = 0 then s1 else ubrd_clean_exit s1)
      })"

text \<open>
  Copying the caller's extra bytes behind the entry: a fault when the caller's buffer is
  shorter than it says or when the size of the block wrapped around.
\<close>

definition copy_extra :: "u8 list option \<Rightarrow> u32 \<Rightarrow> u8 list option option" where
  "copy_extra extrainfo extralen =
     (case extrainfo of
        None \<Rightarrow> Some None
      | Some xs \<Rightarrow>
          if extralen = 0 then Some None
          else if length xs < unat extralen \<or> unat (16 + extralen) < 16 + unat extralen then None
          else Some (Some (take (unat extralen) xs)))"

definition ubrd_btrace_record ::
    "(u32 set \<Rightarrow> nat \<Rightarrow> u32) \<Rightarrow> u32 list \<Rightarrow> ubrd \<Rightarrow> u32 \<Rightarrow> u32 \<Rightarrow> u8 list option \<Rightarrow> u32
     \<Rightarrow> (int \<times> ubrd) option" where
  "ubrd_btrace_record malloc bt st addr bytes extrainfo extralen =
     (if addr = 0 then Some (-1, st)
      else if mMspace st = 0 then Some (-1, st)
      else do {
        s0 \<leftarrow> lock st;
        (b, s1) \<leftarrow> recordBacktrace malloc bt s0 bytes;
        (if b = 0 then Some (-1, unlock (ubrd_clean_exit s1))
         else
           let i = malloc (live s1) (unat (16 + extralen)) in
           if i = 0 then Some (-1, unlock (ubrd_clean_exit s1))
           else
             do {
               extra \<leftarrow> copy_extra extrainfo extralen;
               let inf = \<lparr>mAddr = addr, mBytes = bytes, mExtraInfoLen = extralen, mExtraInfo = extra\<rparr>;
               s2 \<leftarrow> record_entry malloc (s1\<lparr>infos := (infos s1)(i \<mapsto> inf)\<rparr>) addr i b;
               Some (0, unlock s2)
             })
      })"

definition remove_locked ::
    "(u32 set \<Rightarrow> nat \<Rightarrow> u32) \<Rightarrow> u32 list \<Rightarrow> ubrd \<Rightarrow> u32 \<Rightarrow> u32 \<Rightarrow> u8 list option \<Rightarrow> u32
     \<Rightarrow> (int \<times> ubrd) option" where
  "remove_locked malloc bt st addr bytes extrainfo extralen =
     (if mMspace st \<noteq> 0 then
        move malloc bt st addr \<lparr>mAddr = addr, mBytes = bytes, mExtraInfoLen = extralen, mExtraInfo = extrainfo\<rparr>
      else Some (0, st))"

definition ubrd_btrace_remove ::
    "(u32 set \<Rightarrow> nat \<Rightarrow> u32) \<Rightarrow> u32 list \<Rightarrow> ubrd \<Rightarrow> u32 \<Rightarrow> u32 \<Rightarrow> u8 list option \<Rightarrow> u32
     \<Rightarrow> (int \<times> ubrd) option" where
  "ubrd_btrace_remove malloc bt st addr bytes extrainfo extralen =
     (if addr = 0 \<or> mMspace st = 0 then Some (-1, st)
      else if mRecordWithRingBuf (mConfig st) = 0 then do {
        s0 \<leftarrow> lock st;
        (r, s1) \<leftarrow> remove_locked malloc bt s0 addr bytes extrainfo extralen;
        Some (r, unlock s1)
      }
      else Some (0, st))"

definition ubrd_btrace_remove_nolock ::
    "(u32 set \<Rightarrow> nat \<Rightarrow> u32) \<Rightarrow> u32 list \<Rightarrow> ubrd \<Rightarrow> u32 \<Rightarrow> u32 \<Rightarrow> u8 list option \<Rightarrow> u32
     \<Rightarrow> (int \<times> ubrd) option" where
  "ubrd_btrace_remove_nolock malloc bt st addr bytes extrainfo extralen =
     (if addr = 0 \<or> mMspace st = 0 then Some (-1, st)
      else if mRecordWithRingBuf (mConfig st) = 0 then
        remove_locked malloc bt st addr bytes extrainfo extralen
      else Some (0, st))"

section \<open>Start up\<close>

definition UBRD_offset :: u32 where
  "UBRD_offset = ((6272 + 7) AND NOT 7) + 16"

definition zero_ubrd :: ubrd where
  "zero_ubrd = \<lparr>mConfig = \<lparr>mDebugMspaceSize = 0, mRingBufferSize = 0, mMaxBtDepth = 0, mSig = 0,
       mBtMethod = 0, mEntryRemoveDirectly = 0, mRecordWithRingBuf = 0, cfg_module_name = []\<rparr>,
     bt_count = 0, bt_slots = (\<lambda>_. 0), hash_count = 0, hash_base = 0, hash_slots = (\<lambda>_. 0),
     compareFunc = Default_compareFunc, ring_head = 0, ring_size = 0, ring_base = 0,
     ring_slots = (\<lambda>_. 0), mMutex = False, mMspace = 0,
     bts = Map.empty, hes = Map.empty, infos = Map.empty, free_bts = Map.empty\<rparr>"

text \<open>
  \<open>mmap\<close> and \<open>create_mspace\<close> answer for the kernel and for dlmalloc: the mapped address
  (MAP_FAILED is the all-ones word) and the mspace (0 when none is made). The result None is
  the NULL handle. The signal handler and the name of the mapping are left out.
\<close>

definition ubrd_init ::
    "(u32 \<Rightarrow> u32) \<Rightarrow> (u32 \<Rightarrow> u32 \<Rightarrow> u32) \<Rightarrow> (u32 set \<Rightarrow> nat \<Rightarrow> u32) \<Rightarrow> (nat \<Rightarrow> u32) \<Rightarrow> string \<Rightarrow> u64
     \<Rightarrow> (entry_info \<Rightarrow> entry_info \<Rightarrow> bool) option \<Rightarrow> ubrd option" where
  "ubrd_init mmap create_mspace malloc raw name debugConfig compare =
     (let map_size = (ucast debugConfig AND DEBUG_MSPACE_SIZE_MASK) * DEBUG_MSPACE_SIZE_UNIT;
          map_ptr = mmap map_size
      in
      if map_ptr = -1 then None
      else
        let s1 = zero_ubrd\<lparr>mConfig := initConfig name debugConfig\<rparr>;
            s2 = s1\<lparr>mMspace := create_mspace (map_ptr + UBRD_offset) (map_size - UBRD_offset)\<rparr>
        in
        if mMspace s2 = 0 then None
        else
          let (r, s3) = initTables malloc raw compare s2 in if r \<noteq> 0 then None else Some s3)"

end
