(* ===== verification/UbrdBase.thy ===== *)
theory UbrdBase
  imports Ubrd
begin

text \<open>
  First facts on the back-trace recorder: the configuration word, byte-wise comparison and
  hashing of back traces, the search loops, and the interpretation of the list interface on
  the two kinds of nodes.
\<close>

section \<open>The two node types\<close>

interpretation bt: dll_node be_prev be_next "\<lambda>p. be_prev_update (\<lambda>_. p)" "\<lambda>p. be_next_update (\<lambda>_. p)"
    "\<lambda>n. n\<lparr>be_prev := 0, be_next := 0\<rparr>"
  by unfold_locales simp_all

interpretation he: dll_node he_prev he_next "\<lambda>p. he_prev_update (\<lambda>_. p)" "\<lambda>p. he_next_update (\<lambda>_. p)"
    "\<lambda>n. n\<lparr>he_prev := 0, he_next := 0\<rparr>"
  by unfold_locales simp_all

section \<open>Comparing back traces\<close>

lemma word_bytes_inj: "word_bytes a = word_bytes b \<longleftrightarrow> a = b"
proof
  assume "word_bytes a = word_bytes b"
  then have e: "(ucast a :: u8) = ucast b" "(ucast (drop_bit 8 a) :: u8) = ucast (drop_bit 8 b)"
    "(ucast (drop_bit 16 a) :: u8) = ucast (drop_bit 16 b)" "(ucast (drop_bit 24 a) :: u8) = ucast (drop_bit 24 b)"
    by simp_all
  have byte: "bit a (k + i) = bit b (k + i)"
    if "(ucast (drop_bit k a) :: u8) = ucast (drop_bit k b)" "i < 8" for k i
  proof -
    have "bit (ucast (drop_bit k a) :: u8) i = bit (ucast (drop_bit k b) :: u8) i" using that(1) by simp
    then show ?thesis using that(2) by (simp add: bit_ucast_iff bit_drop_bit_eq)
  qed
  have "bit a n = bit b n" if "n < 32" for n
  proof -
    have d: "n = 8 * (n div 8) + n mod 8" "n mod 8 < 8" by simp_all
    have "n div 8 = 0 \<or> n div 8 = 1 \<or> n div 8 = 2 \<or> n div 8 = 3" using that by linarith
    then show ?thesis
      using byte [of 0 "n mod 8"] byte [of 8 "n mod 8"] byte [of 16 "n mod 8"] byte [of 24 "n mod 8"] e d
      by (elim disjE) simp_all
  qed
  then show "a = b" by (intro bit_word_eqI) simp
qed simp

lemma bt_bytes_simps [simp]: "bt_bytes [] = []" "bt_bytes (w # ws) = word_bytes w @ bt_bytes ws"
  by (simp_all add: bt_bytes_def)

lemma bt_bytes_length [simp]: "length (bt_bytes ws) = length ws * 4"
  by (induction ws) simp_all

lemma bt_bytes_inj: "length a = length b \<Longrightarrow> bt_bytes a = bt_bytes b \<longleftrightarrow> a = b"
proof (induction a b rule: list_induct2)
  case (Cons x xs y ys)
  then show ?case using word_bytes_inj [of x y] by auto
qed simp

lemma descend_memcmp_zero:
  "k \<le> length b1 \<Longrightarrow> k \<le> length b2 \<Longrightarrow> descend_memcmp b1 b2 k d = 0 \<longleftrightarrow> d = 0 \<and> take k b1 = take k b2"
proof (induction b1 b2 k d rule: descend_memcmp.induct)
  case (2 b1 b2 k d)
  have "take (Suc k) b1 = take (Suc k) b2 \<longleftrightarrow> take k b1 = take k b2 \<and> b1 ! k = b2 ! k"
    using 2(2,3) by (simp add: take_Suc_conv_app_nth)
  moreover have "uint (b1 ! k) - uint (b2 ! k) = 0 \<longleftrightarrow> b1 ! k = b2 ! k"
    by (simp add: word_uint_eq_iff)
  ultimately show ?case using 2 by auto
qed simp

lemma bt_matches_iff:
  assumes "be_numEntries e = length (be_backtrace e)"
  shows "bt_matches bt (length bt) sz e \<longleftrightarrow> be_size e = sz \<and> be_backtrace e = bt"
proof (cases "length (be_backtrace e) = length bt")
  case True
  have "descend_memcmp (bt_bytes bt) (bt_bytes (be_backtrace e)) (length bt * 4) 0 = 0
      \<longleftrightarrow> bt_bytes bt = bt_bytes (be_backtrace e)"
    using True by (subst descend_memcmp_zero) simp_all
  also have "\<dots> \<longleftrightarrow> bt = be_backtrace e" using True by (intro bt_bytes_inj) simp
  finally show ?thesis using True assms by (auto simp: bt_matches_def)
next
  case False
  then show ?thesis using assms by (auto simp: bt_matches_def)
qed

section \<open>The search loops return\<close>

lemma search_list_chain:
  assumes "chain be_prev be_next h q p xs"
  shows "search_list h bt k sz p =
    Some (case filter (\<lambda>x. bt_matches bt k sz (the (h x))) xs of [] \<Rightarrow> 0 | x # _ \<Rightarrow> x)"
  using assms
proof (induction xs arbitrary: q p)
  case Nil
  then show ?case by (subst search_list.simps) simp
next
  case (Cons x xs)
  then obtain n where n: "p = x" "x \<noteq> 0" "h x = Some n" "chain be_prev be_next h x (be_next n) xs"
    by (auto split: option.splits)
  then show ?case using Cons.IH [OF n(4)] by (subst search_list.simps) simp
qed

lemma find_list_chain:
  assumes "chain he_prev he_next (hes st) q p xs"
    and "\<And>x n. x \<in> set xs \<Longrightarrow> hes st x = Some n \<Longrightarrow> infos st (he_mPEntryInfo n) \<noteq> None"
  shows "find_list st key p =
    Some (case filter (\<lambda>x. compareFunc st key (the (infos st (he_mPEntryInfo (the (hes st x)))))) xs
          of [] \<Rightarrow> 0 | x # _ \<Rightarrow> x)"
  using assms
proof (induction xs arbitrary: q p)
  case Nil
  then show ?case by (subst find_list.simps) simp
next
  case (Cons x xs)
  then obtain n where n: "p = x" "x \<noteq> 0" "hes st x = Some n" "chain he_prev he_next (hes st) x (he_next n) xs"
    by (auto split: option.splits)
  moreover obtain i where "infos st (he_mPEntryInfo n) = Some i" using Cons.prems(2) n(3) by fastforce
  moreover have "find_list st key (he_next n) =
    Some (case filter (\<lambda>x. compareFunc st key (the (infos st (he_mPEntryInfo (the (hes st x)))))) xs
          of [] \<Rightarrow> 0 | x # _ \<Rightarrow> x)"
    using Cons.IH [OF n(4)] Cons.prems(2) by (meson list.set_intros(2))
  ultimately show ?case by (subst find_list.simps) simp
qed

lemma filter_head_cases:
  obtains "filter P xs = []" "(case filter P xs of [] \<Rightarrow> (0::u32) | x # _ \<Rightarrow> x) = 0"
  | x where "x \<in> set xs" "P x" "(case filter P xs of [] \<Rightarrow> 0 | x # _ \<Rightarrow> x) = x"
proof (cases "filter P xs")
  case (Cons a list)
  then have "a \<in> set (filter P xs)" by simp
  then have "a \<in> set xs" "P a" by simp_all
  then show ?thesis using that(2) Cons by auto
qed (use that(1) in auto)

section \<open>Hashing\<close>

lemma hash_slot_bound: "hash_slot k < HASH_TABLE_SIZE"
  by (simp add: hash_slot_def HASH_TABLE_SIZE_def)

text \<open>
  On a 64-bit build recording hashes the whole 64-bit key while removing hashes the key
  truncated to an unsigned int; both reach the same slot.
\<close>

theorem hash_key_truncation:
  "unat (hash_32 (key :: u64) HASH_TABLE_BITS) mod HASH_TABLE_SIZE
    = unat (hash_32 (ucast (ucast key :: u32) :: u64) HASH_TABLE_BITS) mod HASH_TABLE_SIZE"
proof -
  have slot: "unat (hash_32 k HASH_TABLE_BITS) mod HASH_TABLE_SIZE
      = take_bit 15 (drop_bit 17 (unat (take_bit 32 (k * 0x9e370001))))" for k :: u64
  proof -
    have "unat (hash_32 k HASH_TABLE_BITS) mod HASH_TABLE_SIZE
        = take_bit 15 (drop_bit 17 (unat (k * 0x9e370001)))"
      by (simp add: hash_32_def HASH_TABLE_BITS_def HASH_TABLE_SIZE_def unat_drop_bit_eq take_bit_eq_mod)
    also have "\<dots> = take_bit 15 (drop_bit 17 (take_bit 32 (unat (k * 0x9e370001))))"
      by (simp add: drop_bit_take_bit take_bit_take_bit)
    finally show ?thesis by (simp add: unsigned_take_bit_eq)
  qed
  have low: "unat (take_bit 32 (k * 0x9e370001)) = (unat k * 0x9e370001) mod 4294967296" for k :: u64
    by (simp add: unsigned_take_bit_eq take_bit_eq_mod unat_word_ariths mod_mod_cancel)
  have "unat (ucast (ucast key :: u32) :: u64) = unat key mod 4294967296"
    by (simp add: unsigned_ucast_eq take_bit_eq_mod unat_mod)
  then have "unat (take_bit 32 (key * 0x9e370001)) = unat (take_bit 32 (ucast (ucast key :: u32) * 0x9e370001 :: u64))"
    unfolding low by (simp add: mod_mult_left_eq)
  then show ?thesis by (simp only: slot)
qed

section \<open>The configuration word\<close>

lemma and_field: "drop_bit k (w AND push_bit k (mask n)) = take_bit n (drop_bit k (w :: u32))"
  by (rule bit_word_eqI) (auto simp: bit_simps dest: bit_imp_le_length)

lemma unat_take_bit_le: "unat (take_bit n (w :: u32)) < 2 ^ n"
  by (simp add: unsigned_take_bit_eq take_bit_nat_less_exp)

lemma mspace_field: "(w :: u32) AND 0xFFF = take_bit 12 w"
  using and_field [of 0 w 12] by (simp add: mask_eq_exp_minus_1)

lemma ring_field: "drop_bit 12 ((w :: u32) AND 0xFFF000) = take_bit 12 (drop_bit 12 w)"
  using and_field [of 12 w 12] by (simp add: mask_eq_exp_minus_1 push_bit_eq_mult)

lemma depth_field: "drop_bit 24 ((w :: u32) AND 0x0F000000) = take_bit 4 (drop_bit 24 w)"
  using and_field [of 24 w 4] by (simp add: mask_eq_exp_minus_1 push_bit_eq_mult)

lemma method_field: "drop_bit 29 ((w :: u32) AND 0x60000000) = take_bit 2 (drop_bit 29 w)"
  using and_field [of 29 w 2] by (simp add: mask_eq_exp_minus_1 push_bit_eq_mult)

lemma unat_mult_u32: "unat a * unat b < 4294967296 \<Longrightarrow> unat (a * b :: u32) = unat a * unat b"
  by (simp add: unat_word_ariths)

lemma align_multiple:
  "unat p = k * 1048576 \<Longrightarrow> k < 4096 \<Longrightarrow> ALIGN_UP_TO_PAGE_SIZE p = p"
proof -
  assume p: "unat p = k * 1048576" "k < 4096"
  have lo: "take_bit 12 p = 0"
  proof -
    have "unat (take_bit 12 p) = take_bit 12 (unat p)" by (simp add: unsigned_take_bit_eq)
    also have "\<dots> = k * 1048576 mod 4096" by (simp add: p(1) take_bit_eq_mod)
    also have "\<dots> = 0" by simp
    finally show ?thesis by (simp add: unat_eq_0)
  qed
  have dis: "p AND 0xFFF = 0" using lo by (simp add: mspace_field)
  have f: "\<not> bit p n \<or> \<not> bit (0xFFF :: u32) n" for n
  proof -
    have "\<not> bit (p AND 0xFFF) n" using dis by simp
    then show ?thesis by (simp only: bit_and_iff) simp
  qed
  have "p + 0xFFF = p OR 0xFFF" by (rule disjunctive_add) (rule f)
  then have "ALIGN_UP_TO_PAGE_SIZE p = (p OR 0xFFF) AND NOT 0xFFF"
    by (simp add: ALIGN_UP_TO_PAGE_SIZE_def)
  also have "\<dots> = p"
  proof (rule bit_word_eqI)
    fix n assume "n < LENGTH(32)"
    then show "bit ((p OR 0xFFF) AND NOT 0xFFF) n = bit p n"
      using f [of n] by (simp only: bit_and_iff bit_or_iff bit_not_iff_eq) auto
  qed
  finally show ?thesis .
qed

text \<open>
  Whatever the configuration word, the decoded configuration is usable: the back-trace
  depth is between 1 and the size of the trace array (5 for the frame-pointer method), the
  mspace size is the field in megabytes (32 when zero), page aligned and not wrapped, the
  ring is the field in kilo-entries (2046 when zero), and the name is cut to its array.
\<close>

theorem initConfig_decodes:
  fixes w :: u64 and name :: string
  defines "lo \<equiv> ucast w :: u32"
  defines "c \<equiv> initConfig name w"
  shows "1 \<le> unat (mMaxBtDepth c) \<and> unat (mMaxBtDepth c) \<le> 32
    \<and> (mBtMethod c = 0 \<longrightarrow> unat (mMaxBtDepth c) \<le> 5) \<and> unat (mBtMethod c) \<le> 3
    \<and> unat (mDebugMspaceSize c) = (if take_bit 12 lo = 0 then 32 else unat (take_bit 12 lo)) * 1048576
    \<and> unat (mRingBufferSize c) = (if take_bit 12 (drop_bit 12 lo) = 0 then 2046
         else unat (take_bit 12 (drop_bit 12 lo)) * 1024)
    \<and> length (cfg_module_name c) \<le> 31"
proof -
  have low: "lo AND 0xFFFFFFFF = lo"
  proof -
    have "(0xFFFFFFFF :: u32) = -1" by simp
    then show ?thesis by (simp only: and.right_neutral)
  qed
  define m where "m = take_bit 12 lo"
  define r where "r = take_bit 12 (drop_bit 12 lo)"
  define d where "d = take_bit 4 (drop_bit 24 lo)"
  define t where "t = take_bit 2 (drop_bit 29 lo)"
  have mb: "unat m < 4096" and rb: "unat r < 4096" and db: "unat d < 16" and tb: "unat t < 4"
    using unat_take_bit_le [of 12 lo] unat_take_bit_le [of 12 "drop_bit 12 lo"]
      unat_take_bit_le [of 4 "drop_bit 24 lo"] unat_take_bit_le [of 2 "drop_bit 29 lo"]
    by (simp_all add: m_def r_def d_def t_def)
  have mm: "unat (m * 1048576) = unat m * 1048576" using mb unat_mult_u32 [of m 1048576] by simp
  have rm: "unat (r * 1024) = unat r * 1024" using rb unat_mult_u32 [of r 1024] by simp
  have dm: "unat (d * 5) = unat d * 5" using db unat_mult_u32 [of d 5] by simp
  have m0: "m * 1048576 = 0 \<longleftrightarrow> m = 0" and r0: "r * 1024 = 0 \<longleftrightarrow> r = 0" and d0: "d * 5 = 0 \<longleftrightarrow> d = 0"
    using mm rm dm by (metis mult_eq_0_iff unat_eq_zero zero_neq_numeral)+
  have al: "ALIGN_UP_TO_PAGE_SIZE (if m = 0 then 33554432 else m * 1048576) = (if m = 0 then 33554432 else m * 1048576)"
    using align_multiple [of "33554432" 32] align_multiple [OF mm mb] by simp
  note defs = c_def initConfig_def Let_def low lo_def [symmetric] DEBUG_MSPACE_SIZE_MASK_def
    DEBUG_MSPACE_SIZE_UNIT_def RING_BUFFER_SIZE_MASK_def RING_BUFFER_SIZE_UNIT_def MAX_BT_DEPTH_MASK_def
    BT_DEPTH_UNIT_def UNWIND_BT_MASK_def mspace_field ring_field depth_field method_field
    m_def [symmetric] r_def [symmetric] d_def [symmetric] t_def [symmetric]
    DEFAULT_DEBUG_MSPACE_SIZE_def DEFAULT_HISTORICAL_ALLOC_SIZE_def DEFAULT_MAX_BACKTRACE_DEPTH_def
    MAX_BACKTRACE_SIZE_def UBRD_FP_BACKTRACE_def UBRD_MAX_NAME_LEN_def
  have depth: "1 \<le> unat (mMaxBtDepth c) \<and> unat (mMaxBtDepth c) \<le> 32 \<and> (mBtMethod c = 0 \<longrightarrow> unat (mMaxBtDepth c) \<le> 5)"
    by (simp add: defs d0 word_less_nat_alt dm) (auto simp: Suc_le_eq unat_gt_0 dm)
  have t3: "drop_bit 29 lo AND 3 = t" by (simp add: t_def take_bit_eq_mask mask_eq_exp_minus_1)
  have meth: "unat (mBtMethod c) \<le> 3" using tb by (simp add: defs t3)
  have size_m: "unat (mDebugMspaceSize c) = (if m = 0 then 32 else unat m) * 1048576"
    using al mm by (cases "m = 0") (simp_all add: defs m0)
  have ring: "unat (mRingBufferSize c) = (if r = 0 then 2046 else unat r * 1024)"
    using rm by (simp add: defs r0)
  have nm: "length (cfg_module_name c) \<le> 31" by (simp add: defs)
  show ?thesis using depth meth size_m ring nm unfolding m_def r_def by blast
qed

theorem initConfig_decodes_witness:
  "unat (mMaxBtDepth (initConfig ''mmap'' 0x24002020)) \<le> 32"
  using initConfig_decodes [of "''mmap''" "0x24002020"] by blast

text \<open>
  With a mspace field of zero the size mapped is zero, not the 32 megabytes the decoded
  configuration falls back to: when mmap rejects an empty mapping, as it is documented to,
  initialisation fails.
\<close>

theorem ubrd_init_zero_size_fails:
  assumes "take_bit 12 debugConfig = 0" and "mmap 0 = -1"
  shows "ubrd_init mmap create_mspace malloc raw name debugConfig compare = None
    \<and> unat (mDebugMspaceSize (initConfig name debugConfig)) = 33554432"
proof -
  have "take_bit 12 (ucast debugConfig :: u32) = ucast (take_bit 12 debugConfig)"
    by (rule bit_word_eqI) (auto simp: bit_simps)
  then have z: "take_bit 12 (ucast debugConfig :: u32) = 0" using assms(1) by simp
  have c: "initConfig name debugConfig = initConfig name debugConfig" by simp
  have "unat (mDebugMspaceSize (initConfig name debugConfig)) = 33554432"
    using align_multiple [of "33554432" 32] z
    by (simp add: initConfig_def Let_def DEBUG_MSPACE_SIZE_MASK_def DEFAULT_DEBUG_MSPACE_SIZE_def
        mspace_field take_bit_and)
  then show ?thesis
    using assms(2) z by (simp add: ubrd_init_def DEBUG_MSPACE_SIZE_MASK_def mspace_field)
qed

theorem ubrd_init_zero_size_fails_witness:
  "ubrd_init (\<lambda>n. if n = 0 then -1 else 0x40000000) (\<lambda>b n. b) (\<lambda>_ _. 0x50000000) (\<lambda>_. 0) ''m'' 0x24002000 None = None"
  using ubrd_init_zero_size_fails [of "0x24002000" "\<lambda>n. if n = 0 then -1 else 0x40000000"]
  by (simp add: take_bit_eq_mask mask_eq_exp_minus_1)

end
