(* ===== verification/UbrdInv.thy ===== *)
theory UbrdInv
  imports UbrdBase
begin

text \<open>
  The invariant of the back-trace recorder and its preservation: the two tables are proper
  doubly linked lists, the ring holds live entries at most once, every entry owns its
  information and its free trace, and the two counters of a back-trace entry are exactly the
  numbers of current and historical entries that refer to it. Under it no operation faults.
\<close>

section \<open>Counters\<close>

text \<open>
  \<open>counted P rf A F k\<close>: each back-trace entry of \<open>P\<close> counts the references of \<open>A\<close> in its
  allocations (one more for the entry \<open>k\<close> being recorded) and those of \<open>F\<close> in its
  free_referenced.
\<close>

definition counted ::
    "(u32 \<Rightarrow> bt_entry option) \<Rightarrow> (u32 \<Rightarrow> u32 option) \<Rightarrow> u32 set \<Rightarrow> u32 set \<Rightarrow> u32 \<Rightarrow> bool" where
  "counted P rf A F k \<longleftrightarrow> (\<forall>b n. P b = Some n \<longrightarrow>
     unat (be_allocations n) = card {e \<in> A. rf e = Some b} + (if b = k then 1 else 0) \<and>
     unat (be_free_referenced n) = card {e \<in> F. rf e = Some b})"

lemma finite_u32 [simp]: "finite (A :: u32 set)"
  by (rule finite_subset [OF subset_UNIV finite])

lemma card_u32: "0 \<notin> A \<Longrightarrow> card (A :: u32 set) < 4294967296"
proof -
  assume "0 \<notin> A"
  then have "A \<subset> UNIV" by blast
  then have "card A < card (UNIV :: u32 set)" by (intro psubset_card_mono) simp_all
  then show ?thesis by (simp add: card_word)
qed

lemma refs_insert:
  "e \<notin> A \<Longrightarrow> card {x \<in> insert e A. rf x = Some b} = card {x \<in> A. rf x = Some (b :: u32)} + (if rf e = Some b then 1 else 0)"
  for e :: u32
proof -
  assume e: "e \<notin> A"
  show ?thesis
  proof (cases "rf e = Some b")
    case True
    then have "{x \<in> insert e A. rf x = Some b} = insert e {x \<in> A. rf x = Some b}" by auto
    then show ?thesis using True e by simp
  next
    case False
    then have "{x \<in> insert e A. rf x = Some b} = {x \<in> A. rf x = Some b}" by auto
    then show ?thesis using False by simp
  qed
qed

lemma refs_remove:
  "e \<in> A \<Longrightarrow> card {x \<in> A. rf x = Some (b :: u32)} = card {x \<in> A - {e}. rf x = Some b} + (if rf e = Some b then 1 else 0)"
  for e :: u32
  using refs_insert [of e "A - {e}" rf b] by (simp add: insert_absorb)

lemma refs_less: "0 \<notin> A \<Longrightarrow> e \<notin> A \<Longrightarrow> e \<noteq> 0 \<Longrightarrow> card {x \<in> A. rf x = Some b} + 1 < 4294967296"
  for e :: u32
proof -
  assume a: "0 \<notin> A" "e \<notin> A" "e \<noteq> 0"
  have "card {x \<in> A. rf x = Some b} \<le> card A" by (intro card_mono) auto
  moreover have "card (insert e A) < 4294967296" using a by (intro card_u32) simp
  ultimately show ?thesis using a by simp
qed

lemma unat_inc: "unat w + 1 < 4294967296 \<Longrightarrow> unat (w + 1 :: u32) = unat w + 1"
  using unat_add_u32 [of w 1] by simp

lemma unat_dec: "0 < unat w \<Longrightarrow> unat (w - 1 :: u32) = unat w - 1"
  using unat_sub [of 1 w] by (simp add: word_le_nat_alt)

lemma counted_move:
  assumes c: "counted P rf A F 0" and e: "e \<in> A" "e \<notin> F" "rf e = Some b" and P: "P b = Some n"
    and z: "0 \<notin> A" "0 \<notin> F" "0 \<notin> dom P"
  shows "counted (P(b \<mapsto> n\<lparr>be_free_referenced := be_free_referenced n + 1, be_allocations := be_allocations n - 1\<rparr>))
    rf (A - {e}) (insert e F) 0"
proof -
  have n: "unat (be_allocations n) = card {x \<in> A. rf x = Some b}"
    "unat (be_free_referenced n) = card {x \<in> F. rf x = Some b}"
    using c P z(3) by (auto simp: counted_def)
  have r: "card {x \<in> A. rf x = Some b} = card {x \<in> A - {e}. rf x = Some b} + 1"
    using refs_remove [OF e(1), of rf b] e(3) by simp
  have i: "card {x \<in> insert e F. rf x = Some b} = card {x \<in> F. rf x = Some b} + 1"
    using refs_insert [OF e(2), of rf b] e(3) by simp
  have "e \<noteq> 0" using e(1) z(1) by auto
  then have "card {x \<in> F. rf x = Some b} + 1 < 4294967296"
    by (rule refs_less [OF z(2) e(2)])
  then have "unat (be_free_referenced n + 1) = card {x \<in> insert e F. rf x = Some b}"
    "unat (be_allocations n - 1) = card {x \<in> A - {e}. rf x = Some b}"
    using n r i by (simp_all add: unat_inc unat_dec)
  moreover have "card {x \<in> A - {e}. rf x = Some b'} = card {x \<in> A. rf x = Some b'}"
    "card {x \<in> insert e F. rf x = Some b'} = card {x \<in> F. rf x = Some b'}" if "b' \<noteq> b" for b'
    using that refs_remove [OF e(1), of rf b'] refs_insert [OF e(2), of rf b'] e(3) by simp_all
  moreover have "b \<noteq> 0" using z(3) P by auto
  ultimately show ?thesis using c by (auto simp: counted_def)
qed

lemma counted_drop_free:
  assumes c: "counted P rf A F 0" and e: "e \<in> F" "rf e = Some b" and P: "P b = Some n" and z: "0 \<notin> dom P"
  shows "counted (P(b \<mapsto> n\<lparr>be_free_referenced := be_free_referenced n - 1\<rparr>)) rf A (F - {e}) 0"
proof -
  have r: "card {x \<in> F. rf x = Some b} = card {x \<in> F - {e}. rf x = Some b} + 1"
    using refs_remove [OF e(1), of rf b] e(2) by simp
  have "card {x \<in> F - {e}. rf x = Some b'} = card {x \<in> F. rf x = Some b'}" if "b' \<noteq> b" for b'
    using that refs_remove [OF e(1), of rf b'] e(2) by simp
  then show ?thesis using c P r z by (auto simp: counted_def unat_dec)
qed

lemma counted_drop_alloc:
  assumes c: "counted P rf A F 0" and e: "e \<in> A" "rf e = Some b" and P: "P b = Some n" and z: "0 \<notin> dom P"
  shows "counted (P(b \<mapsto> n\<lparr>be_allocations := be_allocations n - 1\<rparr>)) rf (A - {e}) F 0"
proof -
  have r: "card {x \<in> A. rf x = Some b} = card {x \<in> A - {e}. rf x = Some b} + 1"
    using refs_remove [OF e(1), of rf b] e(2) by simp
  have "card {x \<in> A - {e}. rf x = Some b'} = card {x \<in> A. rf x = Some b'}" if "b' \<noteq> b" for b'
    using that refs_remove [OF e(1), of rf b'] e(2) by simp
  then show ?thesis using c P r z by (auto simp: counted_def unat_dec)
qed

lemma counted_add:
  assumes c: "counted P rf A F k" and e: "e \<notin> A" "e \<notin> F" and z: "0 \<notin> dom P"
  shows "counted P (rf(e \<mapsto> k)) (insert e A) F 0"
proof -
  have i: "card {x \<in> insert e A. (rf(e \<mapsto> k)) x = Some b} = card {x \<in> A. rf x = Some b} + (if b = k then 1 else 0)" for b
  proof -
    have "{x \<in> A. (rf(e \<mapsto> k)) x = Some b} = {x \<in> A. rf x = Some b}" using e by auto
    then show ?thesis using refs_insert [OF e(1), of "rf(e \<mapsto> k)" b] by auto
  qed
  moreover have "{x \<in> F. (rf(e \<mapsto> k)) x = Some b} = {x \<in> F. rf x = Some b}" for b using e(2) by auto
  ultimately show ?thesis using c z unfolding counted_def by auto
qed

lemma counted_cong:
  assumes "counted P rf A F k" "\<And>e. e \<in> A \<union> F \<Longrightarrow> rf' e = rf e"
  shows "counted P rf' A F k"
proof -
  have "{e \<in> A. rf' e = Some b} = {e \<in> A. rf e = Some b}" "{e \<in> F. rf' e = Some b} = {e \<in> F. rf e = Some b}" for b
    using assms(2) by auto
  then show ?thesis using assms(1) by (simp add: counted_def)
qed

lemma counted_del: "counted P rf A F k \<Longrightarrow> counted (P(b := None)) rf A F k"
  by (simp add: counted_def)

text \<open>An entry whose counters are both zero has no referrer left.\<close>

lemma counted_zero:
  assumes "counted P rf A F 0" "P b = Some n" "be_allocations n = 0" "be_free_referenced n = 0" "e \<in> A \<union> F"
  shows "rf e \<noteq> Some b"
proof
  assume r: "rf e = Some b"
  have "card {e \<in> A. rf e = Some b} = 0" "card {e \<in> F. rf e = Some b} = 0"
    using assms(1-4) unfolding counted_def by fastforce+
  then show False using assms(5) r by auto
qed

section \<open>The invariant\<close>

definition hash_mode :: "ubrd \<Rightarrow> bool" where
  "hash_mode st \<longleftrightarrow> mRecordWithRingBuf (mConfig st) = 0"

definition ring_set :: "ubrd \<Rightarrow> u32 set" where
  "ring_set st = {x. x \<noteq> 0 \<and> (\<exists>i < ring_size st. ring_slots st i = x)}"

definition old_set :: "ubrd \<Rightarrow> u32 set" where
  "old_set st = (if hash_mode st then ring_set st else {})"

definition ref_of :: "ubrd \<Rightarrow> u32 \<Rightarrow> u32 option" where
  "ref_of st e = map_option he_mPBtEntry (hes st e)"

definition bt_table_ok :: "ubrd \<Rightarrow> (nat \<Rightarrow> u32 list) \<Rightarrow> bool" where
  "bt_table_ok st bl \<longleftrightarrow>
     buckets be_prev be_next BT_HASH_TABLE_SIZE (bts st) (bt_slots st) bl \<and>
     dom (bts st) = members BT_HASH_TABLE_SIZE bl \<and>
     (\<forall>s < BT_HASH_TABLE_SIZE. \<forall>x \<in> set (bl s). \<exists>n. bts st x = Some n \<and> be_slot n = s
        \<and> be_numEntries n = length (be_backtrace n)) \<and>
     bt_count st = of_nat (card (dom (bts st)))"

definition ring_inj :: "(nat \<Rightarrow> u32) \<Rightarrow> nat \<Rightarrow> bool" where
  "ring_inj sl N \<longleftrightarrow> (\<forall>i < N. \<forall>j < N. i \<noteq> j \<longrightarrow> sl i \<noteq> 0 \<longrightarrow> sl i \<noteq> sl j)"

definition ring_ok :: "ubrd \<Rightarrow> bool" where
  "ring_ok st \<longleftrightarrow>
     (if ring_base st = 0 then ring_set st = {}
      else ring_head st < ring_size st \<and> ring_size st = unat (mRingBufferSize (mConfig st))) \<and>
     ring_set st \<subseteq> dom (hes st) \<and>
     ring_inj (ring_slots st) (ring_size st)"

definition hash_ok :: "ubrd \<Rightarrow> (nat \<Rightarrow> u32 list) \<Rightarrow> bool" where
  "hash_ok st hl \<longleftrightarrow>
     (if hash_mode st then buckets he_prev he_next HASH_TABLE_SIZE (hes st) (hash_slots st) hl
        \<and> hash_count st = of_nat (card (members HASH_TABLE_SIZE hl))
      else members HASH_TABLE_SIZE hl = {}) \<and>
     members HASH_TABLE_SIZE hl \<inter> ring_set st = {} \<and>
     (\<forall>s < HASH_TABLE_SIZE. \<forall>x \<in> set (hl s). \<exists>n i. hes st x = Some n \<and>
        infos st (he_mPEntryInfo n) = Some i \<and> hash_slot (mAddr i) = s)"

definition own_ok :: "ubrd \<Rightarrow> bool" where
  "own_ok st \<longleftrightarrow>
     (\<forall>e n. hes st e = Some n \<longrightarrow> e \<noteq> 0 \<and> he_mPBtEntry n \<in> dom (bts st) \<and> he_mPEntryInfo n \<in> dom (infos st)
        \<and> (he_mBt n \<noteq> 0 \<longrightarrow> he_mBt n \<in> dom (free_bts st))) \<and>
     (\<forall>e n e' n'. hes st e = Some n \<longrightarrow> hes st e' = Some n' \<longrightarrow> e \<noteq> e' \<longrightarrow>
        he_mPEntryInfo n \<noteq> he_mPEntryInfo n' \<and> (he_mBt n \<noteq> 0 \<longrightarrow> he_mBt n \<noteq> he_mBt n')) \<and>
     0 \<notin> dom (infos st) \<and> 0 \<notin> dom (free_bts st) \<and> dom (bts st) \<inter> dom (hes st) = {}"

definition mode_ok :: "ubrd \<Rightarrow> bool" where
  "mode_ok st \<longleftrightarrow>
     (hash_mode st \<longrightarrow> hash_base st \<noteq> 0 \<and> (mEntryRemoveDirectly (mConfig st) = 0 \<longrightarrow> ring_base st \<noteq> 0)) \<and>
     (\<not> hash_mode st \<longrightarrow> ring_base st \<noteq> 0 \<and> hash_base st = 0)"

text \<open>Every back-trace entry but \<open>g\<close> is referred to.\<close>

definition alive :: "u32 \<Rightarrow> (u32 \<Rightarrow> bt_entry option) \<Rightarrow> bool" where
  "alive g P \<longleftrightarrow> (\<forall>b n. P b = Some n \<longrightarrow> b \<noteq> g \<longrightarrow> be_allocations n \<noteq> 0 \<or> be_free_referenced n \<noteq> 0)"

definition ubrd_inv :: "u32 \<Rightarrow> ubrd \<Rightarrow> (nat \<Rightarrow> u32 list) \<Rightarrow> (nat \<Rightarrow> u32 list) \<Rightarrow> bool" where
  "ubrd_inv k st bl hl \<longleftrightarrow> bt_table_ok st bl \<and> ring_ok st \<and> hash_ok st hl \<and> own_ok st \<and> mode_ok st \<and>
     counted (bt.pays (bts st)) (ref_of st) (dom (hes st) - old_set st) (old_set st) k \<and>
     alive 0 (bt.pays (bts st))"

section \<open>The back-trace table\<close>

lemma bt_slot_bound: "unat w mod BT_HASH_TABLE_SIZE < BT_HASH_TABLE_SIZE"
  by (simp add: BT_HASH_TABLE_SIZE_def)

lemma bt_table_node:
  assumes "bt_table_ok st bl" "s < BT_HASH_TABLE_SIZE" "x \<in> set (bl s)"
  obtains n where "bts st x = Some n" "be_slot n = s" "be_numEntries n = length (be_backtrace n)"
proof -
  have "\<forall>s < BT_HASH_TABLE_SIZE. \<forall>x \<in> set (bl s). \<exists>n. bts st x = Some n \<and> be_slot n = s
      \<and> be_numEntries n = length (be_backtrace n)"
    using assms(1) unfolding bt_table_ok_def by (elim conjE)
  from this [rule_format, OF assms(2,3)] show ?thesis using that by blast
qed

lemma bt_table_member:
  assumes "bt_table_ok st bl" "bts st b = Some n"
  shows "be_slot n < BT_HASH_TABLE_SIZE" "b \<in> set (bl (be_slot n))" "be_numEntries n = length (be_backtrace n)"
proof -
  have "b \<in> members BT_HASH_TABLE_SIZE bl" using assms by (auto simp: bt_table_ok_def)
  then obtain s where s: "s < BT_HASH_TABLE_SIZE" "b \<in> set (bl s)" by (auto simp: members_def)
  then have "be_slot n = s \<and> be_numEntries n = length (be_backtrace n)"
    using assms unfolding bt_table_ok_def by fastforce
  then show "be_slot n < BT_HASH_TABLE_SIZE" "b \<in> set (bl (be_slot n))" "be_numEntries n = length (be_backtrace n)"
    using s by auto
qed

lemma bt_table_nonzero: "bt_table_ok st bl \<Longrightarrow> 0 \<notin> dom (bts st)"
  using buckets_mem unfolding bt_table_ok_def by blast

lemma bt_table_update:
  assumes "bt_table_ok st bl" "bts st b = Some n"
    "be_prev n' = be_prev n" "be_next n' = be_next n" "be_slot n' = be_slot n"
    "be_numEntries n' = be_numEntries n" "be_backtrace n' = be_backtrace n"
  shows "bt_table_ok (st\<lparr>bts := (bts st)(b \<mapsto> n')\<rparr>) bl"
proof -
  have d: "dom ((bts st)(b \<mapsto> n')) = dom (bts st)" using assms(2) by auto
  have "buckets be_prev be_next BT_HASH_TABLE_SIZE ((bts st)(b \<mapsto> n')) (bt_slots st) bl"
    using assms(1) by (intro bt.buckets_update_payload [where m = n] assms(2-4)) (simp add: bt_table_ok_def)
  moreover have "\<exists>m. ((bts st)(b \<mapsto> n')) x = Some m \<and> be_slot m = s \<and> be_numEntries m = length (be_backtrace m)"
    if s: "s < BT_HASH_TABLE_SIZE" and x: "x \<in> set (bl s)" for s x
  proof -
    obtain m where m: "bts st x = Some m" "be_slot m = s" "be_numEntries m = length (be_backtrace m)"
      using bt_table_node [OF assms(1) s x] .
    show ?thesis
    proof (cases "x = b")
      case True
      then have "m = n" using m(1) assms(2) by simp
      then show ?thesis using True m(2,3) assms(5-7) by simp
    next
      case False
      then show ?thesis using m by simp
    qed
  qed
  moreover have "dom (bts st) = members BT_HASH_TABLE_SIZE bl" "bt_count st = of_nat (card (dom (bts st)))"
    using assms(1) by (simp_all add: bt_table_ok_def)
  ultimately show ?thesis unfolding bt_table_ok_def using d by simp
qed

lemma pays_node: "bt.pays h x = Some m \<Longrightarrow> \<exists>n. h x = Some n \<and> m = n\<lparr>be_prev := 0, be_next := 0\<rparr>"
  by (auto simp: bt.pays_def)

lemma bt_payload_eq:
  "m\<lparr>be_prev := 0, be_next := 0\<rparr> = m'\<lparr>be_prev := 0, be_next := 0\<rparr> \<Longrightarrow>
     be_slot m' = be_slot m \<and> be_numEntries m' = be_numEntries m \<and> be_backtrace m' = be_backtrace m
     \<and> be_allocations m' = be_allocations m \<and> be_free_referenced m' = be_free_referenced m \<and> be_size m' = be_size m"
  by (cases m; cases m') simp

lemma unlink_bt_ok:
  assumes ok: "bt_table_ok st bl" and n: "bts st b = Some n"
  shows "unlink_bt b n st = Some (st\<lparr>bts := bt.unlink_heap (bts st) (be_prev n) (be_next n),
      bt_slots := (if be_prev n = 0 then (bt_slots st)(be_slot n := be_next n) else bt_slots st),
      bt_count := bt_count st - 1\<rparr>)"
proof -
  have bk: "buckets be_prev be_next BT_HASH_TABLE_SIZE (bts st) (bt_slots st) bl"
    using ok by (simp add: bt_table_ok_def)
  note mem = bt_table_member [OF ok n]
  note U = bt.buckets_unlink [OF bk mem(1,2) n]
  have "be_prev n \<noteq> 0 \<Longrightarrow> \<exists>m. bts st (be_prev n) = Some m"
    and "be_next n \<noteq> 0 \<Longrightarrow> \<exists>m. bts st (be_next n) = Some m"
    and "be_prev n \<noteq> 0 \<Longrightarrow> be_prev n \<noteq> be_next n" using U by blast+
  then show ?thesis
    using mem(1) by (auto simp: unlink_bt_def bt.unlink_heap_def Let_def)
qed

text \<open>Dropping the last reference unlinks and frees the entry; otherwise nothing happens.\<close>

lemma decBtEntry_ok:
  assumes ok: "bt_table_ok st bl" and n: "bts st b = Some n"
  obtains B S c bl' where "decBtEntry st b = Some (st\<lparr>bts := B, bt_slots := S, bt_count := c\<rparr>)"
    "bt_table_ok (st\<lparr>bts := B, bt_slots := S, bt_count := c\<rparr>) bl'"
    "bt.pays B = (if be_allocations n = 0 \<and> be_free_referenced n = 0
       then (bt.pays (bts st))(b := None) else bt.pays (bts st))"
proof (cases "be_allocations n = 0 \<and> be_free_referenced n = 0")
  case False
  then have "decBtEntry st b = Some (st\<lparr>bts := bts st, bt_slots := bt_slots st, bt_count := bt_count st\<rparr>)"
    using n by (auto simp: decBtEntry_def)
  moreover have "st\<lparr>bts := bts st, bt_slots := bt_slots st, bt_count := bt_count st\<rparr> = st" by simp
  ultimately show ?thesis
    using that [where B = "bts st" and S = "bt_slots st" and c = "bt_count st" and bl' = bl] ok False by auto
next
  case True
  have bk: "buckets be_prev be_next BT_HASH_TABLE_SIZE (bts st) (bt_slots st) bl"
    using ok by (simp add: bt_table_ok_def)
  note mem = bt_table_member [OF ok n]
  note U = bt.buckets_unlink [OF bk mem(1,2) n]
  have ex: "be_prev n \<noteq> 0 \<Longrightarrow> \<exists>m. bts st (be_prev n) = Some m"
    "be_next n \<noteq> 0 \<Longrightarrow> \<exists>m. bts st (be_next n) = Some m"
    "be_prev n \<noteq> 0 \<Longrightarrow> be_prev n \<noteq> be_next n" using U by blast+
  let ?s = "be_slot n" and ?U = "bt.unlink_heap (bts st) (be_prev n) (be_next n)"
  let ?S = "if be_prev n = 0 then (bt_slots st)(?s := be_next n) else bt_slots st"
  let ?bl = "bl(?s := remove1 b (bl ?s))"
  have same: "bt.pays ?U = bt.pays (bts st)" by (rule bt.pays_unlink [OF ex])
  have Sq: "?S = (bt_slots st)(?s := if be_prev n = 0 then be_next n else bt_slots st ?s)" by auto
  have Ub: "\<exists>m. ?U b = Some m"
    using fun_cong [OF same, of b] n by (auto simp: bt.pays_def)
  have b0: "b \<noteq> 0" using bt_table_nonzero [OF ok] n by auto
  have dec: "decBtEntry st b = Some (st\<lparr>bts := ?U(b := None), bt_slots := ?S, bt_count := bt_count st - 1\<rparr>)"
    using True n Ub b0 unlink_bt_ok [OF ok n] by (auto simp: decBtEntry_def free_block_def)
  have bk1: "buckets be_prev be_next BT_HASH_TABLE_SIZE ?U ?S ?bl"
    using U(5) Sq by simp
  have mm: "members BT_HASH_TABLE_SIZE ?bl = members BT_HASH_TABLE_SIZE bl - {b}"
    by (rule bt.members_unlink [OF bk mem(1,2)])
  have bk2: "buckets be_prev be_next BT_HASH_TABLE_SIZE (?U(b := None)) ?S ?bl"
    using bt.buckets_outside [OF bk1, of b] mm by simp
  have domU: "dom ?U = dom (bts st)" using arg_cong [OF same, of dom] by (simp add: bt.dom_pays)
  have d: "dom (?U(b := None)) = members BT_HASH_TABLE_SIZE ?bl"
    using domU mm ok by (auto simp: bt_table_ok_def)
  have slots: "\<exists>m. (?U(b := None)) x = Some m \<and> be_slot m = s \<and> be_numEntries m = length (be_backtrace m)"
    if s: "s < BT_HASH_TABLE_SIZE" and x: "x \<in> set (?bl s)" for s x
  proof -
    have xs: "x \<in> set (bl s)" using x by (auto split: if_splits dest: notin_set_remove1 set_remove1_subset [THEN subsetD])
    have "x \<in> members BT_HASH_TABLE_SIZE ?bl" unfolding members_def using s x by blast
    then have xb: "x \<noteq> b" using mm by auto
    obtain m where m: "bts st x = Some m" "be_slot m = s" "be_numEntries m = length (be_backtrace m)"
      using bt_table_node [OF ok s xs] .
    have "bt.pays ?U x = Some (m\<lparr>be_prev := 0, be_next := 0\<rparr>)" using same m by (simp add: bt.pays_def)
    then obtain m' where "?U x = Some m'" "m\<lparr>be_prev := 0, be_next := 0\<rparr> = m'\<lparr>be_prev := 0, be_next := 0\<rparr>"
      using pays_node by blast
    then have "?U x = Some m' \<and> be_slot m' = be_slot m \<and> be_numEntries m' = be_numEntries m \<and> be_backtrace m' = be_backtrace m"
      using bt_payload_eq by blast
    then show ?thesis using m xb by auto
  qed
  have cnt: "bt_count st - 1 = of_nat (card (dom (?U(b := None))))"
  proof -
    have "b \<in> dom (bts st)" using n by auto
    then have "card (dom (bts st)) = Suc (card (dom (bts st) - {b}))" by (metis card_Suc_Diff1 finite_u32)
    moreover have "dom (?U(b := None)) = dom (bts st) - {b}" using domU by auto
    ultimately show ?thesis using ok by (simp add: bt_table_ok_def)
  qed
  have "bt_table_ok (st\<lparr>bts := ?U(b := None), bt_slots := ?S, bt_count := bt_count st - 1\<rparr>) ?bl"
    unfolding bt_table_ok_def using bk2 d slots cnt by simp
  then show ?thesis using that dec same True by simp
qed

section \<open>Releasing an entry\<close>

lemma own_node:
  assumes "own_ok st" "hes st e = Some n"
  shows "e \<noteq> 0" "he_mPBtEntry n \<in> dom (bts st)" "he_mPEntryInfo n \<in> dom (infos st)"
    "he_mBt n \<noteq> 0 \<Longrightarrow> he_mBt n \<in> dom (free_bts st)"
  using assms unfolding own_ok_def by blast+

lemma own_distinct:
  assumes "own_ok st" "hes st e = Some n" "hes st e' = Some n'" "e \<noteq> e'"
  shows "he_mPEntryInfo n \<noteq> he_mPEntryInfo n'" "he_mBt n \<noteq> 0 \<Longrightarrow> he_mBt n \<noteq> he_mBt n'"
  using assms unfolding own_ok_def by blast+

lemma own_zero: "own_ok st \<Longrightarrow> 0 \<notin> dom (hes st) \<and> 0 \<notin> dom (infos st) \<and> 0 \<notin> dom (free_bts st)"
  unfolding own_ok_def by blast

lemma own_sep: "own_ok st \<Longrightarrow> dom (bts st) \<inter> dom (hes st) = {}"
  unfolding own_ok_def by blast

lemma own_ok_bts: "dom B = dom (bts st) \<Longrightarrow> own_ok (st\<lparr>bts := B\<rparr>) = own_ok st"
  by (simp add: own_ok_def)

text \<open>
  The entry \<open>e\<close> has been taken out of the tables and its counter was decreased: its back-trace
  entry is dropped when it was the last, and its blocks are freed, none of them twice.
\<close>

lemma release_ok:
  assumes bt: "bt_table_ok st bl" and own: "own_ok st" and hash: "hash_ok st hl" and ring: "ring_ok st"
    and mode: "mode_ok st" and e: "hes st e = Some n" "e \<notin> ring_set st" "e \<notin> members HASH_TABLE_SIZE hl"
    and cnt: "counted (bt.pays (bts st)) (ref_of st) (dom (hes st) - {e} - old_set st) (old_set st) 0"
    and al: "alive (he_mPBtEntry n) (bt.pays (bts st))"
  obtains s3 st' bl' where "decBtEntry st (he_mPBtEntry n) = Some s3" "hes s3 e = Some n"
    "free_entry s3 e n = Some st'" "ubrd_inv 0 st' bl' hl" "mMutex st' = mMutex st" "mMspace st' = mMspace st"
    "mConfig st' = mConfig st" "hes st' = (hes st)(e := None)" "hash_slots st' = hash_slots st"
proof -
  let ?b = "he_mPBtEntry n"
  obtain bn where bn: "bts st ?b = Some bn" using own_node(2) [OF own e(1)] by blast
  obtain B S c bl' where dec: "decBtEntry st ?b = Some (st\<lparr>bts := B, bt_slots := S, bt_count := c\<rparr>)"
    and tab: "bt_table_ok (st\<lparr>bts := B, bt_slots := S, bt_count := c\<rparr>) bl'"
    and P: "bt.pays B = (if be_allocations bn = 0 \<and> be_free_referenced bn = 0
       then (bt.pays (bts st))(?b := None) else bt.pays (bts st))"
    using decBtEntry_ok [OF bt bn] .
  let ?s3 = "st\<lparr>bts := B, bt_slots := S, bt_count := c\<rparr>"
  have i: "he_mPEntryInfo n \<in> dom (infos st)" "he_mPEntryInfo n \<noteq> 0"
    using own_node(3) [OF own e(1)] own_zero [OF own] by auto
  let ?FB = "if he_mBt n \<noteq> 0 then (free_bts st)(he_mBt n := None) else free_bts st"
  let ?st' = "?s3\<lparr>free_bts := ?FB, infos := (infos st)(he_mPEntryInfo n := None), hes := (hes st)(e := None)\<rparr>"
  have e0: "e \<noteq> 0" by (rule own_node(1) [OF own e(1)])
  have fe: "free_entry ?s3 e n = Some ?st'"
    using own_node(4) [OF own e(1)] i e e0 by (auto simp: free_entry_def free_block_def)
  have A: "dom (hes st) - {e} = (dom (hes st) - {e} - old_set st) \<union> old_set st"
    using ring e(2) by (auto simp: old_set_def ring_ok_def)
  have rs: "ring_set ?st' = ring_set st" by (simp add: ring_set_def)
  have hm: "hash_mode ?st' = hash_mode st" by (simp add: hash_mode_def)
  have os: "old_set ?st' = old_set st" by (simp add: old_set_def rs hm)
  have domB: "x \<in> dom B" if "x \<in> dom (bts st)" "x \<noteq> ?b \<or> \<not> (be_allocations bn = 0 \<and> be_free_referenced bn = 0)" for x
  proof -
    have "x \<in> dom (bt.pays B)" using that by (auto simp: P bt.dom_pays)
    then show ?thesis by (simp add: bt.dom_pays)
  qed
  have noref: "he_mPBtEntry m \<noteq> ?b" if "hes st x = Some m" "x \<noteq> e" "be_allocations bn = 0" "be_free_referenced bn = 0" for x m
  proof -
    have "x \<in> (dom (hes st) - {e} - old_set st) \<union> old_set st" using that A by auto
    then have "ref_of st x \<noteq> Some ?b"
      using counted_zero [OF cnt, of ?b "bn\<lparr>be_prev := 0, be_next := 0\<rparr>"] bn that(3,4) by (simp add: bt.pays_def)
    then show ?thesis using that(1) by (simp add: ref_of_def)
  qed
  have own': "own_ok ?st'"
    unfolding own_ok_def
  proof (intro conjI allI impI)
    fix x m assume "hes ?st' x = Some m"
    then have m: "hes st x = Some m" "x \<noteq> e" by (auto split: if_splits)
    show "x \<noteq> 0" by (rule own_node(1) [OF own m(1)])
    show "he_mPBtEntry m \<in> dom (bts ?st')"
      using domB own_node(2) [OF own m(1)] noref [OF m] by auto
    show "he_mPEntryInfo m \<in> dom (infos ?st')"
      using own_node(3) [OF own m(1)] own_distinct(1) [OF own m(1) e(1) m(2)] by simp
    show "he_mBt m \<in> dom (free_bts ?st')" if "he_mBt m \<noteq> 0"
      using own_node(4) [OF own m(1) that] own_distinct(2) [OF own m(1) e(1) m(2) that] by simp
    fix y k assume "hes ?st' y = Some k" "x \<noteq> y"
    then have k: "hes st y = Some k" "x \<noteq> y" by (auto split: if_splits)
    show "he_mPEntryInfo m \<noteq> he_mPEntryInfo k" by (rule own_distinct(1) [OF own m(1) k])
    show "he_mBt m \<noteq> he_mBt k" if "he_mBt m \<noteq> 0" by (rule own_distinct(2) [OF own m(1) k that])
  next
    show "dom (bts ?st') \<inter> dom (hes ?st') = {}"
    proof -
      have "dom B \<subseteq> dom (bts st)"
        using bt.dom_pays [of B] bt.dom_pays [of "bts st"] by (auto simp: P split: if_splits)
      then show ?thesis using own_sep [OF own] by auto
    qed
  qed (use own_zero [OF own] in auto)
  have hash': "hash_ok ?st' hl"
  proof -
    have "buckets he_prev he_next HASH_TABLE_SIZE ((hes st)(e := None)) (hash_slots st) hl" if "hash_mode st"
      using that hash by (intro he.buckets_outside e(3)) (simp add: hash_ok_def)
    moreover have "\<exists>m i. ((hes st)(e := None)) x = Some m \<and> ((infos st)(he_mPEntryInfo n := None)) (he_mPEntryInfo m) = Some i
        \<and> hash_slot (mAddr i) = s" if s: "s < HASH_TABLE_SIZE" and x: "x \<in> set (hl s)" for s x
    proof -
      obtain m i where m: "hes st x = Some m" "infos st (he_mPEntryInfo m) = Some i" "hash_slot (mAddr i) = s"
        using hash s x unfolding hash_ok_def by blast
      have "x \<noteq> e" using e(3) s x by (auto simp: members_def)
      then show ?thesis using m own_distinct(1) [OF own m(1) e(1)] by auto
    qed
    ultimately show ?thesis using hash unfolding hash_ok_def rs hm by simp
  qed
  have ring': "ring_ok ?st'"
    using ring e(2) unfolding ring_ok_def rs by auto
  have mode': "mode_ok ?st'" using mode by (simp add: mode_ok_def hm)
  have cnt': "counted (bt.pays (bts ?st')) (ref_of ?st') (dom (hes ?st') - old_set ?st') (old_set ?st') 0"
  proof -
    have "counted (bt.pays B) (ref_of st) (dom (hes st) - {e} - old_set st) (old_set st) 0"
      unfolding P using cnt counted_del by auto
    then have "counted (bt.pays B) (ref_of ?st') (dom (hes st) - {e} - old_set st) (old_set st) 0"
      by (rule counted_cong) (use e(2) in \<open>auto simp: ref_of_def old_set_def split: if_splits\<close>)
    moreover have "dom ((hes st)(e := None)) = dom (hes st) - {e}" by auto
    ultimately show ?thesis by (simp add: os)
  qed
  have al': "alive 0 (bt.pays (bts ?st'))"
    unfolding alive_def
  proof (intro allI impI)
    fix x m assume x: "bt.pays (bts ?st') x = Some m"
    have pn: "bt.pays (bts st) ?b = Some (bn\<lparr>be_prev := 0, be_next := 0\<rparr>)" using bn by (simp add: bt.pays_def)
    show "be_allocations m \<noteq> 0 \<or> be_free_referenced m \<noteq> 0"
    proof (cases "x = ?b")
      case True
      then show ?thesis using x P pn by (auto split: if_splits)
    next
      case False
      then have "bt.pays (bts st) x = Some m" using x P by (simp split: if_splits)
      then show ?thesis using al False unfolding alive_def by blast
    qed
  qed
  have tab': "bt_table_ok ?st' bl'" using tab by (simp add: bt_table_ok_def)
  show ?thesis
    by (rule that [OF dec _ fe]) (use e(1) tab' own' hash' ring' mode' cnt' al' in \<open>simp_all add: ubrd_inv_def\<close>)
qed

end
