(* ===== verification/UbrdSafe.thy ===== *)
theory UbrdSafe
  imports UbrdInv
begin

text \<open>
  Every operation of the back-trace recorder keeps the invariant of UbrdInv and never faults:
  the ring buffer, recording a trace, the hash table, and the exported record and remove.
\<close>

section \<open>The ring buffer\<close>

lemma ring_put_ok:
  assumes r: "ring_ok st" "ring_base st \<noteq> 0" and he: "he \<noteq> 0" "he \<notin> ring_set st"
  obtains h where "ring_put he st = st\<lparr>ring_slots := (ring_slots st)(ring_head st := he), ring_head := h\<rparr>"
    "h < ring_size st" "ring_set (ring_put he st) = insert he (ring_set st - {ring_slots st (ring_head st)})"
    "ring_inj (ring_slots (ring_put he st)) (ring_size st)"
proof -
  let ?i = "ring_head st" and ?N = "ring_size st"
  have i: "?i < ?N" and N: "?N = unat (mRingBufferSize (mConfig st))"
    and inj: "\<And>i j. i < ?N \<Longrightarrow> j < ?N \<Longrightarrow> i \<noteq> j \<Longrightarrow> ring_slots st i \<noteq> 0 \<Longrightarrow> ring_slots st i \<noteq> ring_slots st j"
    using r by (auto simp: ring_ok_def ring_inj_def)
  let ?h = "if ?N \<le> ?i + 1 then 0 else ?i + 1"
  have put: "ring_put he st = st\<lparr>ring_slots := (ring_slots st)(?i := he), ring_head := ?h\<rparr>"
    using N by (simp add: ring_put_def Let_def)
  have h: "?h < ?N" using i by auto
  have set: "ring_set (ring_put he st) = insert he (ring_set st - {ring_slots st ?i})"
  proof (rule set_eqI)
    fix x
    show "x \<in> ring_set (ring_put he st) \<longleftrightarrow> x \<in> insert he (ring_set st - {ring_slots st ?i})"
    proof (cases "x = he")
      case True
      then show ?thesis using put i he by (auto simp: ring_set_def)
    next
      case False
      then show ?thesis using put inj i by (auto simp: ring_set_def) (metis)+
    qed
  qed
  have free: "ring_slots st i \<noteq> he" if "i < ?N" for i using that he by (auto simp: ring_set_def)
  have "ring_inj (ring_slots (ring_put he st)) ?N"
    using inj free unfolding put ring_inj_def by simp metis
  then show ?thesis using that [OF put h set] by blast
qed

definition ring_mode_of :: "ubrd \<Rightarrow> ring_mode" where
  "ring_mode_of st = (if hash_mode st then UBRD_HISTORICAL_TABLE else UBRD_RING_BUFFER)"

lemma pays_at: "bts st b = Some n \<Longrightarrow> bt.pays (bts st) b = Some (n\<lparr>be_prev := 0, be_next := 0\<rparr>)"
  by (simp add: bt.pays_def)

lemma pays_zero: "bt_table_ok st bl \<Longrightarrow> 0 \<notin> dom (bt.pays (bts st))"
  using bt_table_nonzero by (simp add: bt.dom_pays)

lemma alive_other:
  "alive 0 P \<Longrightarrow> (\<And>b. b \<noteq> g \<Longrightarrow> P' b = P b) \<Longrightarrow> 0 \<notin> dom P \<Longrightarrow> alive g P'"
  unfolding alive_def by (metis domI)

lemma alive_mono: "alive g P \<Longrightarrow> (\<And>n. P g = Some n \<Longrightarrow> be_allocations n \<noteq> 0 \<or> be_free_referenced n \<noteq> 0) \<Longrightarrow> alive 0 P"
  unfolding alive_def by metis

text \<open>Turning a current entry into a historical one.\<close>

lemma bump_ok:
  assumes inv: "ubrd_inv 0 st bl hl" and n: "hes st he = Some n" "he \<notin> ring_set st" and hm: "hash_mode st"
  obtains B where "store (bts st) (he_mPBtEntry n) (\<lambda>b. b\<lparr>be_free_referenced := be_free_referenced b + 1,
      be_allocations := be_allocations b - 1\<rparr>) = Some B"
    "bt_table_ok (st\<lparr>bts := B\<rparr>) bl" "dom B = dom (bts st)"
    "counted (bt.pays B) (ref_of st) (dom (hes st) - ring_set st - {he}) (insert he (ring_set st)) 0"
    "alive 0 (bt.pays B)"
proof -
  let ?b = "he_mPBtEntry n"
  let ?f = "\<lambda>b. b\<lparr>be_free_referenced := be_free_referenced b + 1, be_allocations := be_allocations b - 1\<rparr>"
  have ok: "bt_table_ok st bl" and own: "own_ok st" and al: "alive 0 (bt.pays (bts st))"
    and cnt: "counted (bt.pays (bts st)) (ref_of st) (dom (hes st) - ring_set st) (ring_set st) 0"
    and rsub: "ring_set st \<subseteq> dom (hes st)"
    using inv hm by (auto simp: ubrd_inv_def old_set_def ring_ok_def)
  obtain bn where bn: "bts st ?b = Some bn" using own_node(2) [OF own n(1)] by blast
  let ?B = "(bts st)(?b \<mapsto> ?f bn)"
  have st: "store (bts st) ?b ?f = Some ?B" using bn by simp
  have tab: "bt_table_ok (st\<lparr>bts := ?B\<rparr>) bl" by (rule bt_table_update [OF ok bn]) simp_all
  have P: "bt.pays ?B = (bt.pays (bts st))(?b \<mapsto> ?f (bn\<lparr>be_prev := 0, be_next := 0\<rparr>))"
    by (cases bn) simp
  have z: "0 \<notin> dom (hes st)" using own_zero [OF own] by blast
  have c: "counted (bt.pays ?B) (ref_of st) (dom (hes st) - ring_set st - {he}) (insert he (ring_set st)) 0"
    unfolding P
  proof (rule counted_move [OF cnt])
    show "bt.pays (bts st) ?b = Some (bn\<lparr>be_prev := 0, be_next := 0\<rparr>)" by (rule pays_at [OF bn])
    show "0 \<notin> dom (bt.pays (bts st))" by (rule pays_zero [OF ok])
  qed (use n z rsub in \<open>auto simp: ref_of_def\<close>)
  have al': "alive 0 (bt.pays ?B)"
  proof (rule alive_mono [where g = ?b])
    show "alive ?b (bt.pays ?B)" by (rule alive_other [OF al _ pays_zero [OF ok]]) (simp add: P)
    fix m assume m: "bt.pays ?B ?b = Some m"
    have "unat (be_free_referenced m) = card {x \<in> insert he (ring_set st). ref_of st x = Some ?b}"
      using c m unfolding counted_def by blast
    moreover have "he \<in> {x \<in> insert he (ring_set st). ref_of st x = Some ?b}" using n by (simp add: ref_of_def)
    ultimately have "unat (be_free_referenced m) \<noteq> 0" by (auto simp: card_eq_0_iff)
    then show "be_allocations m \<noteq> 0 \<or> be_free_referenced m \<noteq> 0" by auto
  qed
  show ?thesis by (rule that [OF st tab _ c al']) (use bn in auto)
qed

text \<open>Overwriting the oldest ring entry.\<close>

lemma evict_ok:
  assumes tab: "bt_table_ok st bl" and own: "own_ok st" and hash: "hash_ok st hl" and ring: "ring_ok st"
    and mode: "mode_ok st" and od: "hes st od = Some on" "od \<notin> ring_set st" "od \<notin> members HASH_TABLE_SIZE hl"
    and cnt: "counted (bt.pays (bts st)) (ref_of st) A F 0" and al: "alive 0 (bt.pays (bts st))"
    and AF: "(if hash_mode st then A = dom (hes st) - insert od (old_set st) \<and> F = insert od (old_set st)
              else A = dom (hes st) \<and> F = {})"
  obtains h s3 st' bl' where
    "store (bts st) (he_mPBtEntry on) (\<lambda>b. if ring_mode_of st = UBRD_HISTORICAL_TABLE
        then b\<lparr>be_free_referenced := be_free_referenced b - 1\<rparr>
        else b\<lparr>be_allocations := be_allocations b - 1\<rparr>) = Some h"
    "decBtEntry (st\<lparr>bts := h\<rparr>) (he_mPBtEntry on) = Some s3" "hes s3 od = Some on"
    "free_entry s3 od on = Some st'" "ubrd_inv 0 st' bl' hl" "mMutex st' = mMutex st" "mMspace st' = mMspace st"
    "mConfig st' = mConfig st" "hes st' = (hes st)(od := None)"
proof -
  let ?b = "he_mPBtEntry on"
  let ?f = "\<lambda>b. if ring_mode_of st = UBRD_HISTORICAL_TABLE
      then b\<lparr>be_free_referenced := be_free_referenced b - 1\<rparr> else b\<lparr>be_allocations := be_allocations b - 1\<rparr>"
  obtain bn where bn: "bts st ?b = Some bn" using own_node(2) [OF own od(1)] by blast
  let ?h = "(bts st)(?b \<mapsto> ?f bn)"
  let ?s = "st\<lparr>bts := ?h\<rparr>"
  have sto: "store (bts st) ?b ?f = Some ?h" using bn by simp
  have tab': "bt_table_ok ?s bl" by (rule bt_table_update [OF tab bn]) simp_all
  have P: "bt.pays ?h = (bt.pays (bts st))(?b \<mapsto> ?f (bn\<lparr>be_prev := 0, be_next := 0\<rparr>))"
    by (cases bn) simp
  have rs: "ring_set ?s = ring_set st" and hm: "hash_mode ?s = hash_mode st" and rf: "ref_of ?s = ref_of st"
    by (simp_all add: ring_set_def hash_mode_def ref_of_def fun_eq_iff)
  then have os: "old_set ?s = old_set st" by (simp add: old_set_def)
  have domh: "dom ?h = dom (bts st)" using bn by auto
  have own': "own_ok ?s" using own own_ok_bts [OF domh] by simp
  have hash': "hash_ok ?s hl" using hash unfolding hash_ok_def rs hm by simp
  have "ring_ok ?s = ring_ok st" by (simp add: ring_ok_def rs)
  then have ring': "ring_ok ?s" using ring by simp
  have mode': "mode_ok ?s" using mode unfolding mode_ok_def hm by simp
  have pb: "bt.pays (bts st) ?b = Some (bn\<lparr>be_prev := 0, be_next := 0\<rparr>)" by (rule pays_at [OF bn])
  have rfo: "ref_of st od = Some ?b" using od(1) by (simp add: ref_of_def)
  have cnt': "counted (bt.pays ?h) (ref_of st) (dom (hes st) - {od} - old_set st) (old_set st) 0"
  proof (cases "hash_mode st")
    case True
    have od': "od \<notin> old_set st" using od(2) True by (simp add: old_set_def)
    have "counted (bt.pays ?h) (ref_of st) A (F - {od}) 0"
      using counted_drop_free [OF cnt _ rfo pb pays_zero [OF tab]] AF True P by (simp add: ring_mode_of_def)
    moreover have "F - {od} = old_set st" "A = dom (hes st) - {od} - old_set st" using AF True od' by auto
    ultimately show ?thesis by simp
  next
    case False
    have "counted (bt.pays ?h) (ref_of st) (A - {od}) F 0"
      using counted_drop_alloc [OF cnt _ rfo pb pays_zero [OF tab]] AF False P od(1)
      by (simp add: ring_mode_of_def domI)
    then show ?thesis using AF False by (simp add: old_set_def)
  qed
  have al': "alive ?b (bt.pays ?h)" by (rule alive_other [OF al _ pays_zero [OF tab]]) (simp add: P)
  have od1: "hes ?s od = Some on" "od \<notin> ring_set ?s" using od rs by simp_all
  obtain s3 st' bl' where "decBtEntry ?s ?b = Some s3" "hes s3 od = Some on" "free_entry s3 od on = Some st'"
      "ubrd_inv 0 st' bl' hl" "mMutex st' = mMutex ?s" "mMspace st' = mMspace ?s" "mConfig st' = mConfig ?s"
      "hes st' = (hes ?s)(od := None)"
    by (rule release_ok [OF tab' own' hash' ring' mode' od1 od(3)]) (use cnt' al' os rf in simp_all)
  then show ?thesis using that [OF sto] by simp
qed

lemma insertToRingBuffer_ok:
  assumes inv: "ubrd_inv 0 st bl hl" and n: "hes st he = Some n" "he \<notin> ring_set st" "he \<notin> members HASH_TABLE_SIZE hl"
    and rb: "ring_base st \<noteq> 0"
  obtains st' bl' where "insertToRingBuffer st he (ring_mode_of st) = Some st'" "ubrd_inv 0 st' bl' hl"
    "mMutex st' = mMutex st" "mMspace st' = mMspace st" "mConfig st' = mConfig st"
    "hes st' = (if ring_slots st (ring_head st) = 0 then hes st else (hes st)(ring_slots st (ring_head st) := None))"
proof -
  have ok: "bt_table_ok st bl" and ring: "ring_ok st" and hash: "hash_ok st hl" and own: "own_ok st"
    and mode: "mode_ok st" and al: "alive 0 (bt.pays (bts st))"
    and cnt: "counted (bt.pays (bts st)) (ref_of st) (dom (hes st) - old_set st) (old_set st) 0"
    using inv by (simp_all add: ubrd_inv_def)
  have he0: "he \<noteq> 0" by (rule own_node(1) [OF own n(1)])
  have head: "ring_head st < ring_size st" using ring rb by (simp add: ring_ok_def)
  let ?od = "ring_slots st (ring_head st)"
  define A where "A = (if hash_mode st then dom (hes st) - ring_set st - {he} else dom (hes st))"
  define F where "F = (if hash_mode st then insert he (ring_set st) else {})"
  obtain B where s1: "(if ring_mode_of st = UBRD_HISTORICAL_TABLE then do {
                n \<leftarrow> hes st he;
                h \<leftarrow> store (bts st) (he_mPBtEntry n)
                      (\<lambda>b. b\<lparr>be_free_referenced := be_free_referenced b + 1,
                            be_allocations := be_allocations b - 1\<rparr>);
                Some (st\<lparr>bts := h\<rparr>)
              } else Some st) = Some (st\<lparr>bts := B\<rparr>)"
    and tab: "bt_table_ok (st\<lparr>bts := B\<rparr>) bl" and domB: "dom B = dom (bts st)"
    and cntB: "counted (bt.pays B) (ref_of st) A F 0" and alB: "alive 0 (bt.pays B)"
  proof (cases "hash_mode st")
    case True
    obtain B where B: "store (bts st) (he_mPBtEntry n) (\<lambda>b. b\<lparr>be_free_referenced := be_free_referenced b + 1,
        be_allocations := be_allocations b - 1\<rparr>) = Some B"
      "bt_table_ok (st\<lparr>bts := B\<rparr>) bl" "dom B = dom (bts st)"
      "counted (bt.pays B) (ref_of st) (dom (hes st) - ring_set st - {he}) (insert he (ring_set st)) 0"
      "alive 0 (bt.pays B)"
      by (rule bump_ok [OF inv n(1,2) True])
    show ?thesis
      by (rule that [of B]) (use B n(1) True in \<open>simp_all add: ring_mode_of_def A_def F_def\<close>)
  next
    case False
    show ?thesis
      using that [of "bts st"] False ok cnt al by (simp add: ring_mode_of_def A_def F_def old_set_def)
  qed
  let ?s1 = "st\<lparr>bts := B\<rparr>"
  have "ring_ok ?s1 = ring_ok st" by (simp add: ring_ok_def ring_set_def)
  then have r1: "ring_ok ?s1" "ring_base ?s1 \<noteq> 0" "he \<notin> ring_set ?s1"
    using ring rb n(2) by (simp_all add: ring_set_def)
  have same1: "ring_size ?s1 = ring_size st" "ring_slots ?s1 = ring_slots st" "ring_head ?s1 = ring_head st"
    "ring_set ?s1 = ring_set st" by (simp_all add: ring_set_def)
  obtain h where put: "ring_put he ?s1 = ?s1\<lparr>ring_slots := (ring_slots st)(ring_head st := he), ring_head := h\<rparr>"
    and h: "h < ring_size st" and set: "ring_set (ring_put he ?s1) = insert he (ring_set st - {?od})"
    and inj: "ring_inj (ring_slots (ring_put he ?s1)) (ring_size st)"
    by (rule ring_put_ok [OF r1(1,2) he0 r1(3), unfolded same1])
  let ?s2 = "ring_put he ?s1"
  have fields: "bts ?s2 = B" "hes ?s2 = hes st" "infos ?s2 = infos st" "free_bts ?s2 = free_bts st"
    "mConfig ?s2 = mConfig st" "mMutex ?s2 = mMutex st" "mMspace ?s2 = mMspace st" "bt_slots ?s2 = bt_slots st"
    "bt_count ?s2 = bt_count st" "hash_slots ?s2 = hash_slots st" "hash_count ?s2 = hash_count st"
    "ring_base ?s2 = ring_base st" "hash_base ?s2 = hash_base st" "ring_size ?s2 = ring_size st" "ring_head ?s2 = h"
    by (simp_all add: put)
  have hm: "hash_mode ?s2 = hash_mode st" and rf: "ref_of ?s2 = ref_of st" and rm: "ring_mode_of ?s2 = ring_mode_of st"
    by (simp_all add: hash_mode_def ring_mode_of_def ref_of_def fields fun_eq_iff)
  have tab2: "bt_table_ok ?s2 bl" using tab by (simp add: bt_table_ok_def fields)
  have own2: "own_ok ?s2" using own by (simp add: own_ok_def fields domB)
  have hash2: "hash_ok ?s2 hl" using hash n(3) set unfolding hash_ok_def hm fields by auto
  have ring2: "ring_ok ?s2"
    using ring h inj set n(1) rb unfolding ring_ok_def fields by auto
  have mode2: "mode_ok ?s2" using mode unfolding mode_ok_def hm fields by simp
  have idx: "(if ring_head st < ring_size st then Some ?od else None) = Some ?od" using head by simp
  show ?thesis
  proof (cases "?od = 0")
    case True
    have run: "insertToRingBuffer st he (ring_mode_of st) = Some ?s2"
      using he0 rb True unfolding insertToRingBuffer_def idx s1 by simp
    have "old_set ?s2 = F" "dom (hes st) - F = A"
      using set True n(1) by (auto simp: old_set_def hm F_def A_def ring_set_def)
    then have "ubrd_inv 0 ?s2 bl hl"
      using tab2 own2 hash2 ring2 mode2 cntB alB by (simp add: ubrd_inv_def fields rf)
    then show ?thesis using that run fields True by simp
  next
    case False
    have odr: "?od \<in> ring_set st" using head False by (auto simp: ring_set_def)
    then obtain on where on: "hes st ?od = Some on" using ring by (auto simp: ring_ok_def)
    have odh: "?od \<noteq> he" using odr n(2) by auto
    have o2: "hes ?s2 ?od = Some on" "?od \<notin> ring_set ?s2" "?od \<notin> members HASH_TABLE_SIZE hl"
      using on odh odr hash set by (auto simp: fields hash_ok_def)
    have AF: "if hash_mode ?s2 then A = dom (hes ?s2) - insert ?od (old_set ?s2) \<and> F = insert ?od (old_set ?s2)
              else A = dom (hes ?s2) \<and> F = {}"
      using odr set by (auto simp: hm A_def F_def old_set_def fields)
    obtain H s3 st' bl' where e: "store (bts ?s2) (he_mPBtEntry on) (\<lambda>b. if ring_mode_of ?s2 = UBRD_HISTORICAL_TABLE
        then b\<lparr>be_free_referenced := be_free_referenced b - 1\<rparr>
        else b\<lparr>be_allocations := be_allocations b - 1\<rparr>) = Some H"
      "decBtEntry (?s2\<lparr>bts := H\<rparr>) (he_mPBtEntry on) = Some s3" "hes s3 ?od = Some on"
      "free_entry s3 ?od on = Some st'" "ubrd_inv 0 st' bl' hl" "mMutex st' = mMutex ?s2" "mMspace st' = mMspace ?s2"
      "mConfig st' = mConfig ?s2" "hes st' = (hes ?s2)(?od := None)"
      by (rule evict_ok [OF tab2 own2 hash2 ring2 mode2 o2 _ _ AF]) (use cntB alB in \<open>simp_all add: fields rf\<close>)
    have run: "insertToRingBuffer st he (ring_mode_of st) = Some st'"
      using he0 rb False e(1-4) o2(1) unfolding insertToRingBuffer_def idx s1 rm by simp
    then show ?thesis using that e(5-9) fields False by simp
  qed
qed

section \<open>Recording a back trace\<close>

definition fresh_malloc :: "(u32 set \<Rightarrow> nat \<Rightarrow> u32) \<Rightarrow> bool" where
  "fresh_malloc malloc \<longleftrightarrow> (\<forall>L n. malloc L n \<noteq> 0 \<longrightarrow> malloc L n \<notin> L)"

lemma fresh_live:
  assumes "fresh_malloc malloc" "malloc (live st) n \<noteq> 0"
  shows "malloc (live st) n \<notin> dom (bts st)" "malloc (live st) n \<notin> dom (hes st)"
    "malloc (live st) n \<notin> dom (infos st)" "malloc (live st) n \<notin> dom (free_bts st)"
  using assms unfolding fresh_malloc_def live_def by blast+

lemma of_nat_card_insert:
  "x \<notin> A \<Longrightarrow> (of_nat (card A) :: u32) + 1 = of_nat (card (insert x (A :: u32 set)))"
  by simp

lemma push_bt_ok:
  assumes tab: "bt_table_ok st bl" and a: "a \<noteq> 0" "a \<notin> dom (bts st)" and s: "be_slot n < BT_HASH_TABLE_SIZE"
    and n: "be_prev n = 0" "be_next n = bt_slots st (be_slot n)" "be_numEntries n = length (be_backtrace n)"
  obtains B S c bl' where "push_bt a n st = Some (st\<lparr>bts := B, bt_slots := S, bt_count := c\<rparr>)"
    "bt_table_ok (st\<lparr>bts := B, bt_slots := S, bt_count := c\<rparr>) bl'"
    "bt.pays B = (bt.pays (bts st))(a \<mapsto> n\<lparr>be_prev := 0, be_next := 0\<rparr>)"
proof -
  let ?s = "be_slot n" and ?h1 = "(bts st)(a \<mapsto> n)"
  let ?S = "(bt_slots st)(?s := a)" and ?bl = "bl(?s := a # bl ?s)" and ?c = "bt_count st + 1"
  have bk: "buckets be_prev be_next BT_HASH_TABLE_SIZE (bts st) (bt_slots st) bl"
    and dom: "dom (bts st) = members BT_HASH_TABLE_SIZE bl"
    and cnt: "bt_count st = of_nat (card (dom (bts st)))"
    using tab by (simp_all add: bt_table_ok_def)
  have am: "a \<notin> members BT_HASH_TABLE_SIZE bl" using a dom by simp
  note push = bt.buckets_push [OF bk s a(1) am n(1,2)]
  note result = that
  have build: ?thesis if B: "push_bt a n st = Some (st\<lparr>bts := B, bt_slots := ?S, bt_count := ?c\<rparr>)"
    "buckets be_prev be_next BT_HASH_TABLE_SIZE B ?S ?bl"
    "bt.pays B = (bt.pays (bts st))(a \<mapsto> n\<lparr>be_prev := 0, be_next := 0\<rparr>)" for B
  proof -
    have dB: "dom B = insert a (dom (bts st))"
      using arg_cong [OF B(3), of dom] by (simp add: bt.dom_pays)
    have slots: "\<exists>m. B x = Some m \<and> be_slot m = t \<and> be_numEntries m = length (be_backtrace m)"
      if t: "t < BT_HASH_TABLE_SIZE" and x: "x \<in> set (?bl t)" for t x
    proof (cases "x = a")
      case True
      then have ts: "t = ?s" using x am t by (auto simp: members_def split: if_splits)
      have "bt.pays B x = Some (n\<lparr>be_prev := 0, be_next := 0\<rparr>)" using B(3) True by simp
      then obtain m where "B x = Some m" "n\<lparr>be_prev := 0, be_next := 0\<rparr> = m\<lparr>be_prev := 0, be_next := 0\<rparr>"
        using pays_node by blast
      then show ?thesis using bt_payload_eq [of n m] ts n(3) by auto
    next
      case False
      then have "x \<in> set (bl t)" using x by (auto split: if_splits)
      then obtain m where m: "bts st x = Some m" "be_slot m = t" "be_numEntries m = length (be_backtrace m)"
        using bt_table_node [OF tab t] by metis
      have "bt.pays B x = Some (m\<lparr>be_prev := 0, be_next := 0\<rparr>)" using B(3) False m by (simp add: bt.pays_def)
      then obtain m' where "B x = Some m'" "m\<lparr>be_prev := 0, be_next := 0\<rparr> = m'\<lparr>be_prev := 0, be_next := 0\<rparr>"
        using pays_node by blast
      then show ?thesis using bt_payload_eq [of m m'] m by auto
    qed
    have "?c = of_nat (card (dom B))" using cnt dB of_nat_card_insert [OF a(2)] by simp
    moreover have "dom B = members BT_HASH_TABLE_SIZE ?bl" using dB dom members_upd_push [OF s] by simp
    ultimately have "bt_table_ok (st\<lparr>bts := B, bt_slots := ?S, bt_count := ?c\<rparr>) ?bl"
      unfolding bt_table_ok_def using B(2) slots by simp
    then show ?thesis by (rule result [OF B(1) _ B(3)])
  qed
  show ?thesis
  proof (cases "bt_slots st ?s = 0")
    case True
    show ?thesis
      by (rule build [of ?h1]) (use True n push(1) in \<open>simp_all add: push_bt_def Let_def\<close>)
  next
    case False
    obtain m where m: "bts st (bt_slots st ?s) = Some m" "bt_slots st ?s \<noteq> a"
      "buckets be_prev be_next BT_HASH_TABLE_SIZE (?h1(bt_slots st ?s \<mapsto> be_prev_update (\<lambda>_. a) m)) ?S ?bl"
      using push(2) [OF False] by blast
    have "bt.pays (?h1(bt_slots st ?s \<mapsto> be_prev_update (\<lambda>_. a) m)) = bt.pays ?h1"
      by (rule bt.pays_same [of _ _ m]) (use m in simp_all)
    then show ?thesis
      by (intro build [of "?h1(bt_slots st ?s \<mapsto> be_prev_update (\<lambda>_. a) m)"])
        (use False n m in \<open>simp_all add: push_bt_def Let_def\<close>)
  qed
qed

lemma searchBtEntry_ok:
  assumes "bt_table_ok st bl" "slot < BT_HASH_TABLE_SIZE"
  obtains "searchBtEntry st slot bt (length bt) sz = Some 0"
    "\<forall>x \<in> set (bl slot). \<forall>n. bts st x = Some n \<longrightarrow> \<not> (be_size n = sz \<and> be_backtrace n = bt)"
  | x n where "searchBtEntry st slot bt (length bt) sz = Some x" "x \<noteq> 0" "bts st x = Some n" "be_size n = sz"
    "be_backtrace n = bt"
proof -
  have c: "chain be_prev be_next (bts st) 0 (bt_slots st slot) (bl slot)"
    using assms bucketsD(1) unfolding bt_table_ok_def by blast
  have iff: "bt_matches bt (length bt) sz n \<longleftrightarrow> be_size n = sz \<and> be_backtrace n = bt"
    if "x \<in> set (bl slot)" "bts st x = Some n" for x n
    using bt_matches_iff bt_table_member(3) [OF assms(1) that(2)] by blast
  let ?r = "case filter (\<lambda>x. bt_matches bt (length bt) sz (the (bts st x))) (bl slot) of [] \<Rightarrow> 0 | x # _ \<Rightarrow> x"
  have run: "searchBtEntry st slot bt (length bt) sz = Some ?r"
    unfolding searchBtEntry_def by (rule search_list_chain [OF c])
  show ?thesis
  proof (rule filter_head_cases [of "\<lambda>x. bt_matches bt (length bt) sz (the (bts st x))" "bl slot"])
    assume none: "filter (\<lambda>x. bt_matches bt (length bt) sz (the (bts st x))) (bl slot) = []" and "?r = 0"
    have "\<not> (be_size n = sz \<and> be_backtrace n = bt)" if "x \<in> set (bl slot)" "bts st x = Some n" for x n
      using iff [OF that] none that by (auto simp: filter_empty_conv)
    then show ?thesis using that(1) run \<open>?r = 0\<close> by simp
  next
    fix x assume x: "x \<in> set (bl slot)" "bt_matches bt (length bt) sz (the (bts st x))" "?r = x"
    obtain n where n: "bts st x = Some n" "x \<noteq> 0" using chain_mem [OF c x(1)] by blast
    show ?thesis using that(2) run x(2,3) n iff [OF x(1) n(1)] by simp
  qed
qed

lemma counted_new:
  assumes c: "counted P rf A F 0" and a: "a \<notin> ran rf" "be_allocations n = 1" "be_free_referenced n = 0" and z: "0 \<notin> dom P"
  shows "counted (P(a \<mapsto> n)) rf A F a"
proof -
  have none: "{e \<in> X. rf e = Some a} = {}" for X using a(1) by (auto simp: ran_def)
  have z': "b \<noteq> 0" if "P b = Some m" for b m using that z by auto
  show ?thesis
    unfolding counted_def
  proof (intro allI impI)
    fix b m assume m: "(P(a \<mapsto> n)) b = Some m"
    show "unat (be_allocations m) = card {e \<in> A. rf e = Some b} + (if b = a then 1 else 0)
      \<and> unat (be_free_referenced m) = card {e \<in> F. rf e = Some b}"
    proof (cases "b = a")
      case True
      then show ?thesis using m a none by simp
    next
      case False
      then show ?thesis using m c z' unfolding counted_def by auto
    qed
  qed
qed

lemma counted_bump:
  assumes c: "counted P rf A F 0" and P: "P b = Some n" and z: "0 \<notin> dom P" "0 \<notin> A" and b: "b \<notin> A"
  shows "counted (P(b \<mapsto> n\<lparr>be_allocations := be_allocations n + 1\<rparr>)) rf A F b"
proof -
  have b0: "b \<noteq> 0" using P z(1) by auto
  have l: "card {x \<in> A. rf x = Some b} + 1 < 4294967296" by (rule refs_less [OF z(2) b b0])
  have z': "k \<noteq> 0" if "P k = Some m" for k m using that z(1) by auto
  show ?thesis
    unfolding counted_def
  proof (intro allI impI)
    fix k m assume m: "(P(b \<mapsto> n\<lparr>be_allocations := be_allocations n + 1\<rparr>)) k = Some m"
    show "unat (be_allocations m) = card {e \<in> A. rf e = Some k} + (if k = b then 1 else 0)
      \<and> unat (be_free_referenced m) = card {e \<in> F. rf e = Some k}"
    proof (cases "k = b")
      case True
      have "unat (be_allocations n) = card {x \<in> A. rf x = Some b}" using c P b0 unfolding counted_def by auto
      then show ?thesis using m True l c P b0 unfolding counted_def by (auto simp: unat_inc)
    next
      case False
      then show ?thesis using m c z' unfolding counted_def by auto
    qed
  qed
qed

text \<open>The trace is found or entered, and its entry counts one allocation more.\<close>

lemma recordBacktrace_ok:
  assumes inv: "ubrd_inv 0 st bl hl" and fm: "fresh_malloc malloc"
  obtains "recordBacktrace malloc bt st sz = Some (0, st)"
  | r B S c bl' n where "recordBacktrace malloc bt st sz = Some (r, st\<lparr>bts := B, bt_slots := S, bt_count := c\<rparr>)"
    "r \<noteq> 0" "ubrd_inv r (st\<lparr>bts := B, bt_slots := S, bt_count := c\<rparr>) bl' hl" "B r = Some n" "be_size n = sz"
    "be_backtrace n = bt"
proof -
  let ?slot = "unat (get_hash 0 bt) mod BT_HASH_TABLE_SIZE"
  have tab: "bt_table_ok st bl" and ring: "ring_ok st" and hash: "hash_ok st hl" and own: "own_ok st"
    and mode: "mode_ok st" and al: "alive 0 (bt.pays (bts st))"
    and cnt: "counted (bt.pays (bts st)) (ref_of st) (dom (hes st) - old_set st) (old_set st) 0"
    using inv by (simp_all add: ubrd_inv_def)
  note sb = bt_slot_bound [of "get_hash 0 bt"]
  note main = that(2) and fail = that(1)
  have build: ?thesis
    if run: "recordBacktrace malloc bt st sz = Some (r, st\<lparr>bts := B, bt_slots := S, bt_count := c\<rparr>)"
      and t': "bt_table_ok (st\<lparr>bts := B, bt_slots := S, bt_count := c\<rparr>) bl'" and r: "r \<noteq> 0"
      and c': "counted (bt.pays B) (ref_of st) (dom (hes st) - old_set st) (old_set st) r"
      and a': "alive 0 (bt.pays B)" and n: "B r = Some n" "be_size n = sz" "be_backtrace n = bt"
      and d: "dom B = insert r (dom (bts st))" and rh: "r \<notin> dom (hes st)" for r B S c bl' n
  proof -
    let ?st' = "st\<lparr>bts := B, bt_slots := S, bt_count := c\<rparr>"
    have rs: "ring_set ?st' = ring_set st" and hm: "hash_mode ?st' = hash_mode st" and rf: "ref_of ?st' = ref_of st"
      by (simp_all add: ring_set_def hash_mode_def ref_of_def fun_eq_iff)
    then have os: "old_set ?st' = old_set st" by (simp add: old_set_def)
    have "own_ok ?st'" using own rh unfolding own_ok_def by (simp add: d)
    moreover have "hash_ok ?st' hl = hash_ok st hl" by (simp add: hash_ok_def rs hm)
    moreover have "ring_ok ?st' = ring_ok st" by (simp add: ring_ok_def rs)
    moreover have "mode_ok ?st' = mode_ok st" by (simp add: mode_ok_def hm)
    ultimately have "ubrd_inv r ?st' bl' hl" using t' hash ring mode c' a' by (simp add: ubrd_inv_def os rf)
    then show ?thesis by (rule main [OF run r _ n])
  qed
  show ?thesis
  proof (rule searchBtEntry_ok [OF tab sb, of bt sz])
    fix x n assume x: "searchBtEntry st ?slot bt (length bt) sz = Some x" "x \<noteq> 0" "bts st x = Some n"
      "be_size n = sz" "be_backtrace n = bt"
    let ?n = "n\<lparr>be_allocations := be_allocations n + 1\<rparr>"
    let ?B = "(bts st)(x \<mapsto> ?n)"
    have P: "bt.pays ?B = (bt.pays (bts st))(x \<mapsto> (n\<lparr>be_prev := 0, be_next := 0\<rparr>)\<lparr>be_allocations := be_allocations (n\<lparr>be_prev := 0, be_next := 0\<rparr>) + 1\<rparr>)"
      by (cases n) simp
    have run: "recordBacktrace malloc bt st sz = Some (x, st\<lparr>bts := ?B, bt_slots := bt_slots st, bt_count := bt_count st\<rparr>)"
      using x by (simp add: recordBacktrace_def Let_def)
    have xh: "x \<notin> dom (hes st)" using own_sep [OF own] x(3) by auto
    have t: "bt_table_ok (st\<lparr>bts := ?B, bt_slots := bt_slots st, bt_count := bt_count st\<rparr>) bl"
      using bt_table_update [OF tab x(3), of ?n] by (simp add: bt_table_ok_def)
    have "counted (bt.pays ?B) (ref_of st) (dom (hes st) - old_set st) (old_set st) x"
      unfolding P by (rule counted_bump [OF cnt pays_at [OF x(3)] pays_zero [OF tab]])
        (use own_zero [OF own] xh in auto)
    moreover have "alive 0 (bt.pays ?B)"
    proof (rule alive_mono [where g = x])
      show "alive x (bt.pays ?B)" by (rule alive_other [OF al _ pays_zero [OF tab]]) (simp add: P)
      fix m assume m: "bt.pays ?B x = Some m"
      have "unat (be_allocations m) = card {e \<in> dom (hes st) - old_set st. ref_of st e = Some x} + 1"
        using calculation [unfolded counted_def, rule_format, OF m] by (simp only: if_True refl)
      then have "unat (be_allocations m) \<noteq> 0" by simp
      then show "be_allocations m \<noteq> 0 \<or> be_free_referenced m \<noteq> 0" by auto
    qed
    ultimately show ?thesis
      by (rule build [OF run t x(2) _ _, of ?n]) (use x(3-5) xh in auto)
  next
    assume none: "searchBtEntry st ?slot bt (length bt) sz = Some 0"
    let ?a = "malloc (live st) (28 + length bt * 4)"
    show ?thesis
    proof (cases "mMspace st = 0 \<or> ?a = 0")
      case True
      then show ?thesis by (intro fail) (use none in \<open>auto simp: recordBacktrace_def Let_def\<close>)
    next
      case False
      have a: "?a \<noteq> 0" "?a \<notin> dom (bts st)" "?a \<notin> dom (hes st)" using False fresh_live [OF fm] by auto
      define n where "n = \<lparr>be_slot = ?slot, be_prev = 0, be_next = bt_slots st ?slot, be_numEntries = length bt,
        be_free_referenced = 0, be_size = sz, be_allocations = 1, be_backtrace = bt\<rparr>"
      have nf: "be_slot n < BT_HASH_TABLE_SIZE" "be_prev n = 0" "be_next n = bt_slots st (be_slot n)"
        "be_numEntries n = length (be_backtrace n)" using sb by (simp_all add: n_def)
      obtain B S c bl' where p: "push_bt ?a n st = Some (st\<lparr>bts := B, bt_slots := S, bt_count := c\<rparr>)"
        and t: "bt_table_ok (st\<lparr>bts := B, bt_slots := S, bt_count := c\<rparr>) bl'"
        and P: "bt.pays B = (bt.pays (bts st))(?a \<mapsto> n\<lparr>be_prev := 0, be_next := 0\<rparr>)"
        by (rule push_bt_ok [OF tab a(1,2) nf])
      have run: "recordBacktrace malloc bt st sz = Some (?a, st\<lparr>bts := B, bt_slots := S, bt_count := c\<rparr>)"
        using none False p by (simp add: recordBacktrace_def Let_def n_def)
      have ar: "?a \<notin> ran (ref_of st)"
      proof
        assume "?a \<in> ran (ref_of st)"
        then obtain e m where "hes st e = Some m" "he_mPBtEntry m = ?a" by (auto simp: ran_def ref_of_def)
        then show False using own_node(2) [OF own] a(2) by metis
      qed
      have "counted (bt.pays B) (ref_of st) (dom (hes st) - old_set st) (old_set st) ?a"
        unfolding P by (rule counted_new [OF cnt ar _ _ pays_zero [OF tab]]) (simp_all add: n_def)
      moreover have "alive 0 (bt.pays B)" using al by (simp add: P alive_def n_def)
      moreover have "\<exists>m. B ?a = Some m \<and> be_size m = sz \<and> be_backtrace m = bt"
      proof -
        have "bt.pays B ?a = Some (n\<lparr>be_prev := 0, be_next := 0\<rparr>)" by (simp add: P)
        then obtain m where "B ?a = Some m" "n\<lparr>be_prev := 0, be_next := 0\<rparr> = m\<lparr>be_prev := 0, be_next := 0\<rparr>"
          using pays_node by blast
        then show ?thesis using bt_payload_eq [of n m] by (auto simp: n_def)
      qed
      moreover have "dom B = insert ?a (dom (bts st))"
        using arg_cong [OF P, of dom] by (simp add: bt.dom_pays)
      ultimately show ?thesis using build [OF run t a(1)] a(3) by blast
    qed
  qed
qed

end
