(* ===== verification/UbrdTable.thy ===== *)
theory UbrdTable
  imports UbrdSafe
begin

text \<open>
  Adding an entry to the recorder's hash table or ring and taking one out of the hash table,
  under the invariant of UbrdInv.
\<close>

section \<open>Heaps of entries with the same contents\<close>

lemma he_payload_eq:
  "m\<lparr>he_prev := 0, he_next := 0\<rparr> = m'\<lparr>he_prev := 0, he_next := 0\<rparr> \<Longrightarrow>
     he_mPBtEntry m' = he_mPBtEntry m \<and> he_mBt m' = he_mBt m \<and> he_mPEntryInfo m' = he_mPEntryInfo m"
  by (cases m; cases m') simp

lemma he_pays_look:
  assumes "he.pays H x = Some p" obtains m where "H x = Some m" "p = m\<lparr>he_prev := 0, he_next := 0\<rparr>"
  using assms by (auto simp: he.pays_def)

lemma he_pays_at: "H x = Some m \<Longrightarrow> he.pays H x = Some (m\<lparr>he_prev := 0, he_next := 0\<rparr>)"
  by (simp add: he.pays_def)

lemma he_dom_ext: "he.pays H = (he.pays G)(e \<mapsto> v) \<Longrightarrow> dom H = insert e (dom G)"
  using he.dom_pays [of H] he.dom_pays [of G] by simp

text \<open>\<open>H\<close> holds the entries of \<open>G\<close>, up to their links, and possibly the entry \<open>n\<close> at \<open>e\<close>.\<close>

lemma he_extended:
  assumes P: "he.pays H = (he.pays G)(e \<mapsto> n\<lparr>he_prev := 0, he_next := 0\<rparr>)" and Hx: "H x = Some m"
  shows "if x = e then he_mPBtEntry m = he_mPBtEntry n \<and> he_mBt m = he_mBt n \<and> he_mPEntryInfo m = he_mPEntryInfo n
    else \<exists>m'. G x = Some m' \<and> he_mPBtEntry m = he_mPBtEntry m' \<and> he_mBt m = he_mBt m' \<and> he_mPEntryInfo m = he_mPEntryInfo m'"
proof (cases "x = e")
  case True
  then show ?thesis using he_pays_at [of H x m, OF Hx] P he_payload_eq by auto
next
  case False
  then have "he.pays G x = Some (m\<lparr>he_prev := 0, he_next := 0\<rparr>)" using he_pays_at [of H x m, OF Hx] P by simp
  then obtain m' where "G x = Some m'" "m\<lparr>he_prev := 0, he_next := 0\<rparr> = m'\<lparr>he_prev := 0, he_next := 0\<rparr>"
    by (rule he_pays_look)
  then show ?thesis using False he_payload_eq by metis
qed

lemma own_add:
  assumes own: "own_ok st" and P: "he.pays H = (he.pays (hes st))(e \<mapsto> n\<lparr>he_prev := 0, he_next := 0\<rparr>)"
    and e: "e \<noteq> 0" "e \<notin> dom (bts st)" and n: "he_mPBtEntry n \<in> dom (bts st)" "he_mPEntryInfo n \<in> dom (infos st)"
    "he_mBt n \<noteq> 0 \<Longrightarrow> he_mBt n \<in> dom (free_bts st)"
    and new: "\<And>x m. x \<noteq> e \<Longrightarrow> hes st x = Some m \<Longrightarrow> he_mPEntryInfo m \<noteq> he_mPEntryInfo n \<and> (he_mBt n \<noteq> 0 \<longrightarrow> he_mBt m \<noteq> he_mBt n)"
  shows "own_ok (st\<lparr>hes := H\<rparr>)"
  unfolding own_ok_def
proof (intro conjI allI impI)
  fix x m assume "hes (st\<lparr>hes := H\<rparr>) x = Some m"
  then have m: "H x = Some m" by simp
  note xm = he_extended [OF P m]
  show "x \<noteq> 0" "he_mPBtEntry m \<in> dom (bts (st\<lparr>hes := H\<rparr>))" "he_mPEntryInfo m \<in> dom (infos (st\<lparr>hes := H\<rparr>))"
  proof -
    have "x \<noteq> 0 \<and> he_mPBtEntry m \<in> dom (bts st) \<and> he_mPEntryInfo m \<in> dom (infos st)"
    proof (cases "x = e")
      case True
      then show ?thesis using xm e n by simp
    next
      case False
      then obtain m' where "hes st x = Some m'" "he_mPBtEntry m = he_mPBtEntry m'" "he_mPEntryInfo m = he_mPEntryInfo m'"
        using xm by auto
      then show ?thesis using own_node(1-3) [OF own] by metis
    qed
    then show "x \<noteq> 0" "he_mPBtEntry m \<in> dom (bts (st\<lparr>hes := H\<rparr>))" "he_mPEntryInfo m \<in> dom (infos (st\<lparr>hes := H\<rparr>))"
      by simp_all
  qed
  show "he_mBt m \<in> dom (free_bts (st\<lparr>hes := H\<rparr>))" if "he_mBt m \<noteq> 0"
  proof (cases "x = e")
    case True
    then show ?thesis using xm n(3) that by simp
  next
    case False
    then obtain m' where "hes st x = Some m'" "he_mBt m = he_mBt m'" using xm by auto
    then show ?thesis using own_node(4) [OF own] that by simp
  qed
  fix y k assume "hes (st\<lparr>hes := H\<rparr>) y = Some k" and xy: "x \<noteq> y"
  then have k: "H y = Some k" by simp
  note yk = he_extended [OF P k]
  have both: "he_mPEntryInfo m \<noteq> he_mPEntryInfo k \<and> (he_mBt m \<noteq> 0 \<longrightarrow> he_mBt m \<noteq> he_mBt k)"
  proof (cases "x = e")
    case True
    then obtain k' where k': "hes st y = Some k'" "he_mBt k = he_mBt k'" "he_mPEntryInfo k = he_mPEntryInfo k'"
      using yk xy by auto
    then show ?thesis using True xm new [of y k'] xy by auto
  next
    case False
    then obtain m' where m': "hes st x = Some m'" "he_mBt m = he_mBt m'" "he_mPEntryInfo m = he_mPEntryInfo m'"
      using xm by auto
    show ?thesis
    proof (cases "y = e")
      case True
      then show ?thesis using yk new [OF False m'(1)] m' by auto
    next
      case False
      then obtain k' where k': "hes st y = Some k'" "he_mBt k = he_mBt k'" "he_mPEntryInfo k = he_mPEntryInfo k'"
        using yk by auto
      then show ?thesis using own_distinct [OF own m'(1) k'(1) xy] m' by simp
    qed
  qed
  then show "he_mPEntryInfo m \<noteq> he_mPEntryInfo k" and "he_mBt m \<noteq> 0 \<Longrightarrow> he_mBt m \<noteq> he_mBt k" by auto
next
  show "dom (bts (st\<lparr>hes := H\<rparr>)) \<inter> dom (hes (st\<lparr>hes := H\<rparr>)) = {}"
    using own_sep [OF own] e(2) he_dom_ext [OF P] by simp
qed (use own_zero [OF own] in auto)

lemma ref_add:
  assumes P: "he.pays H = (he.pays (hes st))(e \<mapsto> n\<lparr>he_prev := 0, he_next := 0\<rparr>)"
  shows "ref_of (st\<lparr>hes := H\<rparr>) = (ref_of st)(e \<mapsto> he_mPBtEntry n)"
proof
  have r: "ref_of s x = map_option he_mPBtEntry (he.pays (hes s) x)" for s x
    by (simp add: ref_of_def he.pays_def option.map_comp o_def)
  fix x show "ref_of (st\<lparr>hes := H\<rparr>) x = ((ref_of st)(e \<mapsto> he_mPBtEntry n)) x"
    by (simp add: r P)
qed

section \<open>Adding an entry\<close>

lemma inv_add_info:
  assumes inv: "ubrd_inv k st bl hl" and i: "i \<notin> dom (infos st)" "i \<noteq> 0"
  shows "ubrd_inv k (st\<lparr>infos := (infos st)(i \<mapsto> ei)\<rparr>) bl hl"
proof -
  let ?st' = "st\<lparr>infos := (infos st)(i \<mapsto> ei)\<rparr>"
  have f: "ring_set ?st' = ring_set st" "hash_mode ?st' = hash_mode st" "ref_of ?st' = ref_of st"
    "bt_table_ok ?st' bl = bt_table_ok st bl" "ring_ok ?st' = ring_ok st" "mode_ok ?st' = mode_ok st"
    "old_set ?st' = old_set st"
    by (simp_all add: ring_set_def hash_mode_def ref_of_def fun_eq_iff bt_table_ok_def ring_ok_def mode_ok_def old_set_def)
  have own: "own_ok st" and hash: "hash_ok st hl" using inv by (simp_all add: ubrd_inv_def)
  have "own_ok ?st'"
    unfolding own_ok_def
    using own_node [OF own] own_distinct [OF own] own_zero [OF own] own_sep [OF own] i by simp
  moreover have "hash_ok ?st' hl"
    using hash i unfolding hash_ok_def f by simp (metis domI)
  ultimately show ?thesis using inv by (simp add: ubrd_inv_def f)
qed

lemma counted_entry:
  assumes inv: "ubrd_inv r st bl hl" and r: "r \<noteq> 0" and e: "e \<notin> dom (hes st)"
    and P: "he.pays H = (he.pays (hes st))(e \<mapsto> n\<lparr>he_prev := 0, he_next := 0\<rparr>)" and n: "he_mPBtEntry n = r"
  shows "counted (bt.pays (bts st)) (ref_of (st\<lparr>hes := H\<rparr>)) (dom H - old_set st) (old_set st) 0"
proof -
  have sub: "old_set st \<subseteq> dom (hes st)" using inv by (auto simp: ubrd_inv_def old_set_def ring_ok_def)
  have "dom H = insert e (dom (hes st))" by (rule he_dom_ext [OF P])
  then have dH: "dom H - old_set st = insert e (dom (hes st) - old_set st)" using e sub by auto
  have tab: "bt_table_ok st bl" using inv by (simp add: ubrd_inv_def)
  have "counted (bt.pays (bts st)) (ref_of st) (dom (hes st) - old_set st) (old_set st) r"
    using inv by (simp add: ubrd_inv_def)
  then show ?thesis
    unfolding dH ref_add [OF P] n
    by (rule counted_add) (use e sub pays_zero [OF tab] in auto)
qed

lemma card_push:
  "x \<notin> A \<Longrightarrow> c = of_nat (card A) \<Longrightarrow> c + 1 = (of_nat (card (insert x (A :: u32 set))) :: u32)"
  by simp

lemma recordToHashTable_ok:
  assumes inv: "ubrd_inv r st bl hl" and r: "r \<noteq> 0" "r \<in> dom (bts st)" and hm: "hash_mode st" and fm: "fresh_malloc malloc"
    and i: "infos st i = Some ei" "mAddr ei = addr" and own_i: "\<And>x m. hes st x = Some m \<Longrightarrow> he_mPEntryInfo m \<noteq> i"
  obtains "recordToHashTable malloc st addr i r = Some (0, st)"
  | e st' hl' where "recordToHashTable malloc st addr i r = Some (e, st')" "e \<noteq> 0" "ubrd_inv 0 st' bl hl'"
    "hl' = hl(hash_slot addr := e # hl (hash_slot addr))" "e \<notin> members HASH_TABLE_SIZE hl"
    "mMutex st' = mMutex st" "mMspace st' = mMspace st" "mConfig st' = mConfig st" "infos st' = infos st"
    "compareFunc st' = compareFunc st" "\<exists>m. hes st' e = Some m \<and> he_mPEntryInfo m = i \<and> he_mPBtEntry m = r"
proof -
  let ?slot = "hash_slot addr"
  let ?e = "malloc (live st) 20"
  note fail = that(1) and main = that(2)
  have own: "own_ok st" and hash: "hash_ok st hl" and ring: "ring_ok st" and mode: "mode_ok st" and tab: "bt_table_ok st bl"
    and al: "alive 0 (bt.pays (bts st))" using inv by (simp_all add: ubrd_inv_def)
  show ?thesis
  proof (cases "mMspace st = 0 \<or> hash_base st = 0 \<or> ?e = 0")
    case True
    then show ?thesis by (intro fail) (auto simp: recordToHashTable_def Let_def)
  next
    case False
    have e: "?e \<noteq> 0" "?e \<notin> dom (hes st)" "?e \<notin> dom (bts st)" using False fresh_live [OF fm] by auto
    define n where "n = \<lparr>he_prev = 0, he_next = hash_slots st ?slot, he_mPBtEntry = r, he_mBt = 0, he_mPEntryInfo = i\<rparr>"
    have bk: "buckets he_prev he_next HASH_TABLE_SIZE (hes st) (hash_slots st) hl"
      and cnt: "hash_count st = of_nat (card (members HASH_TABLE_SIZE hl))"
      and dis: "members HASH_TABLE_SIZE hl \<inter> ring_set st = {}"
      using hash hm by (simp_all add: hash_ok_def)
    have em: "?e \<notin> members HASH_TABLE_SIZE hl" using e(2) buckets_mem [OF bk] by auto
    have nf: "he_prev n = 0" "he_next n = hash_slots st ?slot" by (simp_all add: n_def)
    note push = he.buckets_push [OF bk hash_slot_bound e(1) em nf]
    let ?S = "(hash_slots st)(?slot := ?e)" and ?hl = "hl(?slot := ?e # hl ?slot)" and ?c = "hash_count st + 1"
    have build: ?thesis
      if run: "recordToHashTable malloc st addr i r = Some (?e, st\<lparr>hes := H, hash_slots := ?S, hash_count := ?c\<rparr>)"
        and b: "buckets he_prev he_next HASH_TABLE_SIZE H ?S ?hl"
        and P: "he.pays H = (he.pays (hes st))(?e \<mapsto> n\<lparr>he_prev := 0, he_next := 0\<rparr>)" for H
    proof -
      let ?st' = "st\<lparr>hes := H, hash_slots := ?S, hash_count := ?c\<rparr>"
      have f: "ring_set ?st' = ring_set st" "hash_mode ?st' = hash_mode st" "ref_of ?st' = ref_of (st\<lparr>hes := H\<rparr>)"
        "bt_table_ok ?st' bl = bt_table_ok st bl" "mode_ok ?st' = mode_ok st" "old_set ?st' = old_set st"
        "own_ok ?st' = own_ok (st\<lparr>hes := H\<rparr>)"
        by (simp_all add: ring_set_def hash_mode_def ref_of_def fun_eq_iff bt_table_ok_def mode_ok_def old_set_def own_ok_def)
      have dH: "dom H = insert ?e (dom (hes st))" by (rule he_dom_ext [OF P])
      have "own_ok (st\<lparr>hes := H\<rparr>)"
        by (rule own_add [OF own P e(1,3)]) (use r i own_i in \<open>auto simp: n_def\<close>)
      moreover have "ring_ok ?st'"
        using ring unfolding ring_ok_def f by (auto simp: dH)
      moreover have "hash_ok ?st' ?hl"
      proof -
        have mm: "members HASH_TABLE_SIZE ?hl = insert ?e (members HASH_TABLE_SIZE hl)"
          by (rule members_upd_push [OF hash_slot_bound])
        have c: "?c = of_nat (card (members HASH_TABLE_SIZE ?hl))"
          unfolding mm by (rule card_push [OF em cnt])
        have "?e \<notin> ring_set st" using ring e(2) by (auto simp: ring_ok_def)
        then have d: "members HASH_TABLE_SIZE ?hl \<inter> ring_set st = {}" using dis mm by auto
        have nodes: "\<exists>m j. H x = Some m \<and> infos st (he_mPEntryInfo m) = Some j \<and> hash_slot (mAddr j) = s"
          if s: "s < HASH_TABLE_SIZE" and x: "x \<in> set (?hl s)" for s x
        proof (cases "x = ?e")
          case True
          then have "s = ?slot" using x em s by (auto simp: members_def split: if_splits)
          obtain m where m: "H ?e = Some m" using dH by auto
          then show ?thesis using he_extended [OF P m] i True \<open>s = ?slot\<close> by (auto simp: n_def)
        next
          case False
          then have "x \<in> set (hl s)" using x by (auto split: if_splits)
          then obtain m j where m: "hes st x = Some m" "infos st (he_mPEntryInfo m) = Some j" "hash_slot (mAddr j) = s"
            using hash s unfolding hash_ok_def by blast
          then obtain m' where m': "H x = Some m'" using dH by auto
          then show ?thesis using he_extended [OF P m'] False m by auto
        qed
        show ?thesis unfolding hash_ok_def f using hm b c d nodes by simp
      qed
      ultimately have "ubrd_inv 0 ?st' bl ?hl"
        using tab mode al counted_entry [OF inv r(1) e(2) P] by (simp add: ubrd_inv_def f n_def)
      moreover have "\<exists>m. H ?e = Some m \<and> he_mPEntryInfo m = i \<and> he_mPBtEntry m = r"
      proof -
        obtain m where m: "H ?e = Some m" using dH by auto
        then show ?thesis using he_extended [OF P m] by (simp add: n_def)
      qed
      ultimately show ?thesis by (intro main [OF run e(1)]) (use em in simp_all)
    qed
    show ?thesis
    proof (cases "hash_slots st ?slot = 0")
      case True
      show ?thesis
        by (rule build [of "(hes st)(?e \<mapsto> n)"])
          (use True False r push(1) in \<open>simp_all add: recordToHashTable_def Let_def n_def\<close>)
    next
      case nz: False
      obtain m where m: "hes st (hash_slots st ?slot) = Some m" "hash_slots st ?slot \<noteq> ?e"
        "buckets he_prev he_next HASH_TABLE_SIZE ((hes st)(?e \<mapsto> n, hash_slots st ?slot \<mapsto> he_prev_update (\<lambda>_. ?e) m)) ?S ?hl"
        using push(2) [OF nz] by blast
      have P: "he.pays ((hes st)(?e \<mapsto> n, hash_slots st ?slot \<mapsto> he_prev_update (\<lambda>_. ?e) m)) = he.pays ((hes st)(?e \<mapsto> n))"
        by (rule he.pays_same [of _ _ m]) (use m in simp_all)
      show ?thesis
        by (rule build [of "(hes st)(?e \<mapsto> n, hash_slots st ?slot \<mapsto> he_prev_update (\<lambda>_. ?e) m)"])
          (use nz False r m P in \<open>simp_all add: recordToHashTable_def Let_def n_def\<close>)
    qed
  qed
qed

end
