(* ===== verification/UbrdProps.thy ===== *)
theory UbrdProps
  imports UbrdTable
begin

text \<open>
  The exported operations of the back-trace recorder: recording and removing never fault and
  keep the invariant on every path, from the state ubrd_init builds, and what they record is
  found again.
\<close>

section \<open>The ring as record store\<close>

lemma recordToRingBuffer_ok:
  assumes inv: "ubrd_inv r st bl hl" and r: "r \<noteq> 0" "r \<in> dom (bts st)" and hm: "\<not> hash_mode st" and fm: "fresh_malloc malloc"
    and i: "infos st i = Some ei" and own_i: "\<And>x m. hes st x = Some m \<Longrightarrow> he_mPEntryInfo m \<noteq> i"
  obtains "recordToRingBuffer malloc st r i 0 = Some (-1, st)"
  | st' bl' where "recordToRingBuffer malloc st r i 0 = Some (0, st')" "ubrd_inv 0 st' bl' hl"
    "mMutex st' = mMutex st" "mMspace st' = mMspace st" "mConfig st' = mConfig st"
proof -
  let ?e = "malloc (live st) 20"
  note fail = that(1) and main = that(2)
  have own: "own_ok st" and hash: "hash_ok st hl" and ring: "ring_ok st" and mode: "mode_ok st" and tab: "bt_table_ok st bl"
    and al: "alive 0 (bt.pays (bts st))" using inv by (simp_all add: ubrd_inv_def)
  show ?thesis
  proof (cases "?e = 0")
    case True
    then show ?thesis by (intro fail) (use r in \<open>simp add: recordToRingBuffer_def Let_def\<close>)
  next
    case False
    have e: "?e \<noteq> 0" "?e \<notin> dom (hes st)" "?e \<notin> dom (bts st)" using False fresh_live [OF fm] by auto
    define n where "n = \<lparr>he_prev = 0, he_next = 0, he_mPBtEntry = r, he_mBt = 0, he_mPEntryInfo = i\<rparr>"
    let ?H = "(hes st)(?e \<mapsto> n)"
    let ?s = "st\<lparr>hes := ?H\<rparr>"
    have P: "he.pays ?H = (he.pays (hes st))(?e \<mapsto> n\<lparr>he_prev := 0, he_next := 0\<rparr>)" by simp
    have f: "ring_set ?s = ring_set st" "hash_mode ?s = hash_mode st" "bt_table_ok ?s bl = bt_table_ok st bl"
      "mode_ok ?s = mode_ok st" "old_set ?s = old_set st" "ring_mode_of ?s = ring_mode_of st"
      by (simp_all add: ring_set_def hash_mode_def bt_table_ok_def mode_ok_def old_set_def ring_mode_of_def)
    have "own_ok ?s" by (rule own_add [OF own P e(1,3)]) (use r i own_i in \<open>auto simp: n_def\<close>)
    moreover have "ring_ok ?s" using ring unfolding ring_ok_def f by auto
    moreover have em: "members HASH_TABLE_SIZE hl = {}" using hash hm by (simp add: hash_ok_def)
    then have "hash_ok ?s hl" using hm by (auto simp: hash_ok_def f members_def)
    moreover have "counted (bt.pays (bts st)) (ref_of ?s) (dom ?H - old_set st) (old_set st) 0"
      by (rule counted_entry [OF inv r(1) e(2) P]) (simp add: n_def)
    ultimately have inv': "ubrd_inv 0 ?s bl hl"
      unfolding ubrd_inv_def f using tab mode al by simp
    have er: "?e \<notin> ring_set ?s" using ring e(2) f(1) by (auto simp: ring_ok_def)
    have hb: "hes ?s ?e = Some n" by simp
    have em': "?e \<notin> members HASH_TABLE_SIZE hl" using em by simp
    have rb: "ring_base ?s \<noteq> 0" using mode hm by (simp add: mode_ok_def)
    obtain st' bl' where ins: "insertToRingBuffer ?s ?e (ring_mode_of ?s) = Some st'" "ubrd_inv 0 st' bl' hl"
      "mMutex st' = mMutex ?s" "mMspace st' = mMspace ?s" "mConfig st' = mConfig ?s"
      by (rule insertToRingBuffer_ok [OF inv' hb er em' rb])
    have "recordToRingBuffer malloc st r i 0 = Some (0, st')"
      using ins(1) r(1) False hm unfolding f by (simp add: recordToRingBuffer_def Let_def n_def ring_mode_of_def)
    then show ?thesis using main ins by simp
  qed
qed

section \<open>Taking an entry out of the hash table\<close>

lemma unlink_hash_ok:
  assumes b: "buckets he_prev he_next HASH_TABLE_SIZE (hes st) (hash_slots st) hl" and s: "s < HASH_TABLE_SIZE"
    and e: "e \<in> set (hl s)" "hes st e = Some n"
  shows "unlink_hash s e n st = Some (st\<lparr>hes := he.unlink_heap (hes st) (he_prev n) (he_next n),
     hash_slots := (hash_slots st)(s := if he_prev n = 0 then he_next n else hash_slots st s)\<rparr>)"
proof -
  note U = he.buckets_unlink [OF b s e]
  have p: "he_prev n \<noteq> 0 \<Longrightarrow> \<exists>m. hes st (he_prev n) = Some m" using U(1) by blast
  have q: "he_next n \<noteq> 0 \<Longrightarrow> \<exists>m. hes st (he_next n) = Some m" using U(2) by blast
  have same: "st = st\<lparr>hash_slots := (hash_slots st)(s := hash_slots st s)\<rparr>" by simp
  show ?thesis
  proof (cases "he_prev n = 0")
    case True
    then show ?thesis using q by (auto simp: unlink_hash_def he.unlink_heap_def Let_def)
  next
    case False
    obtain pm where pm: "hes st (he_prev n) = Some pm" using p False by blast
    show ?thesis
    proof (cases "he_next n = 0")
      case True
      then show ?thesis using pm False by (simp add: unlink_hash_def he.unlink_heap_def)
    next
      case nz: False
      obtain qm where qm: "hes st (he_next n) = Some qm" using q nz by blast
      have ne: "he_prev n \<noteq> he_next n" using U(3) False by blast
      then show ?thesis using pm qm False nz
        by (simp add: unlink_hash_def he.unlink_heap_def Let_def fun_upd_twist)
    qed
  qed
qed

lemma inv_same_pays:
  assumes own: "own_ok st" and P: "he.pays H = he.pays (hes st)"
  shows "own_ok (st\<lparr>hes := H\<rparr>)" "ref_of (st\<lparr>hes := H\<rparr>) = ref_of st" "dom H = dom (hes st)"
proof -
  show d: "dom H = dom (hes st)" using he.dom_pays [of H] he.dom_pays [of "hes st"] P by simp
  have core: "\<exists>m'. hes st x = Some m' \<and> he_mPBtEntry m = he_mPBtEntry m' \<and> he_mBt m = he_mBt m' \<and> he_mPEntryInfo m = he_mPEntryInfo m'"
    if Hx: "H x = Some m" for x m
  proof -
    have "he.pays (hes st) x = Some (m\<lparr>he_prev := 0, he_next := 0\<rparr>)" using he_pays_at [of H x m, OF Hx] P by simp
    then obtain m' where "hes st x = Some m'" "m\<lparr>he_prev := 0, he_next := 0\<rparr> = m'\<lparr>he_prev := 0, he_next := 0\<rparr>"
      by (rule he_pays_look)
    then show ?thesis using he_payload_eq by metis
  qed
  show "ref_of (st\<lparr>hes := H\<rparr>) = ref_of st"
  proof
    fix x
    show "ref_of (st\<lparr>hes := H\<rparr>) x = ref_of st x"
    proof (cases "H x")
      case None
      then have "hes st x = None" using d by (metis domIff)
      then show ?thesis using None by (simp add: ref_of_def)
    next
      case (Some m)
      then show ?thesis using core [OF Some] by (auto simp: ref_of_def)
    qed
  qed
  show "own_ok (st\<lparr>hes := H\<rparr>)"
    unfolding own_ok_def
  proof (intro conjI allI impI)
    fix x m assume "hes (st\<lparr>hes := H\<rparr>) x = Some m"
    then have Hx: "H x = Some m" by simp
    obtain m' where m': "hes st x = Some m'" "he_mPBtEntry m = he_mPBtEntry m'" "he_mBt m = he_mBt m'"
        "he_mPEntryInfo m = he_mPEntryInfo m'" using core [OF Hx] by blast
    show "x \<noteq> 0" "he_mPBtEntry m \<in> dom (bts (st\<lparr>hes := H\<rparr>))" "he_mPEntryInfo m \<in> dom (infos (st\<lparr>hes := H\<rparr>))"
      using own_node [OF own m'(1)] m' by simp_all
    show "he_mBt m \<in> dom (free_bts (st\<lparr>hes := H\<rparr>))" if "he_mBt m \<noteq> 0" using own_node(4) [OF own m'(1)] m' that by simp
    fix y k assume "hes (st\<lparr>hes := H\<rparr>) y = Some k" and xy: "x \<noteq> y"
    then have Hy: "H y = Some k" by simp
    obtain k' where k': "hes st y = Some k'" "he_mBt k = he_mBt k'" "he_mPEntryInfo k = he_mPEntryInfo k'"
      using core [OF Hy] by blast
    show "he_mPEntryInfo m \<noteq> he_mPEntryInfo k" using own_distinct(1) [OF own m'(1) k'(1) xy] m' k' by simp
    show "he_mBt m \<noteq> he_mBt k" if "he_mBt m \<noteq> 0" using own_distinct(2) [OF own m'(1) k'(1) xy] m' k' that by simp
  next
    show "dom (bts (st\<lparr>hes := H\<rparr>)) \<inter> dom (hes (st\<lparr>hes := H\<rparr>)) = {}" using own_sep [OF own] d by simp
  qed (use own_zero [OF own] in auto)
qed

lemma card_pull: "x \<in> A \<Longrightarrow> c = of_nat (card A) \<Longrightarrow> c - 1 = (of_nat (card (A - {x :: u32})) :: u32)"
proof -
  assume x: "x \<in> A" and c: "c = of_nat (card A)"
  have "card A = Suc (card (A - {x}))" using x by (metis card_Suc_Diff1 finite_u32)
  then show ?thesis using c by simp
qed

definition entry_key :: "ubrd \<Rightarrow> u32 \<Rightarrow> entry_info" where
  "entry_key st e = the (infos st (he_mPEntryInfo (the (hes st e))))"

lemma removeFromHashTable_ok:
  assumes inv: "ubrd_inv 0 st bl hl" and hm: "hash_mode st"
  obtains "removeFromHashTable st addr key = Some (0, st)"
    "\<forall>x \<in> set (hl (hash_slot addr)). \<not> compareFunc st key (entry_key st x)"
  | e st' hl' n where "removeFromHashTable st addr key = Some (e, st')" "e \<noteq> 0" "ubrd_inv 0 st' bl hl'"
    "e \<in> set (hl (hash_slot addr))" "compareFunc st key (entry_key st e)"
    "hes st' e = Some n" "e \<notin> members HASH_TABLE_SIZE hl'" "e \<notin> ring_set st'"
    "mMutex st' = mMutex st" "mMspace st' = mMspace st" "mConfig st' = mConfig st" "bts st' = bts st"
    "infos st' = infos st" "free_bts st' = free_bts st"
    "e = hd (filter (\<lambda>x. compareFunc st key (entry_key st x)) (hl (hash_slot addr)))"
    "hl' = hl(hash_slot addr := remove1 e (hl (hash_slot addr)))" "live st' = live st"
    "ring_slots st' = ring_slots st" "ring_head st' = ring_head st"
proof -
  let ?s = "hash_slot addr"
  have own: "own_ok st" and hash: "hash_ok st hl" and ring: "ring_ok st" and mode: "mode_ok st" and tab: "bt_table_ok st bl"
    and al: "alive 0 (bt.pays (bts st))"
    and cnt: "counted (bt.pays (bts st)) (ref_of st) (dom (hes st) - old_set st) (old_set st) 0"
    using inv by (simp_all add: ubrd_inv_def)
  have bk: "buckets he_prev he_next HASH_TABLE_SIZE (hes st) (hash_slots st) hl"
    and hc: "hash_count st = of_nat (card (members HASH_TABLE_SIZE hl))"
    and dis: "members HASH_TABLE_SIZE hl \<inter> ring_set st = {}"
    using hash hm by (simp_all add: hash_ok_def)
  note sb = hash_slot_bound [of addr]
  have c: "chain he_prev he_next (hes st) 0 (hash_slots st ?s) (hl ?s)" by (rule bucketsD(1) [OF bk sb])
  let ?P = "\<lambda>x. compareFunc st key (the (infos st (he_mPEntryInfo (the (hes st x)))))"
  let ?r = "case filter ?P (hl ?s) of [] \<Rightarrow> 0 | x # _ \<Rightarrow> x"
  have find: "findHashEntry st ?s key = Some ?r"
    unfolding findHashEntry_def by (rule find_list_chain [OF c]) (use own_node(3) [OF own] in blast)
  note fail = that(1) and main = that(2)
  show ?thesis
  proof (rule filter_head_cases [of ?P "hl ?s"])
    assume none: "filter ?P (hl ?s) = []" and z: "?r = 0"
    show ?thesis
      by (rule fail) (use find z none in \<open>simp_all add: removeFromHashTable_def Let_def entry_key_def filter_empty_conv\<close>)
  next
    fix e assume e: "e \<in> set (hl ?s)" "?P e" "?r = e"
    obtain n where n: "hes st e = Some n" "e \<noteq> 0" using chain_mem [OF c e(1)] by blast
    note U = he.buckets_unlink [OF bk sb e(1) n(1)]
    have ex: "he_prev n \<noteq> 0 \<Longrightarrow> \<exists>m. hes st (he_prev n) = Some m"
      "he_next n \<noteq> 0 \<Longrightarrow> \<exists>m. hes st (he_next n) = Some m" "he_prev n \<noteq> 0 \<Longrightarrow> he_prev n \<noteq> he_next n"
      using U(1-3) by blast+
    let ?U = "he.unlink_heap (hes st) (he_prev n) (he_next n)"
    let ?S = "(hash_slots st)(?s := if he_prev n = 0 then he_next n else hash_slots st ?s)"
    let ?hl = "hl(?s := remove1 e (hl ?s))"
    have PU: "he.pays ?U = he.pays (hes st)" by (rule he.pays_unlink [OF ex])
    have "he.pays ?U e = Some (n\<lparr>he_prev := 0, he_next := 0\<rparr>)" using PU n by (simp add: he.pays_def)
    then obtain u where u: "?U e = Some u" "n\<lparr>he_prev := 0, he_next := 0\<rparr> = u\<lparr>he_prev := 0, he_next := 0\<rparr>"
      by (rule he_pays_look)
    let ?u = "u\<lparr>he_next := 0, he_prev := 0\<rparr>"
    let ?H = "?U(e \<mapsto> ?u)"
    have PH: "he.pays ?H = he.pays (hes st)"
    proof -
      have "he.pays ?H = he.pays ?U" by (rule he.pays_same [of _ _ u]) (use u(1) in \<open>simp_all\<close>)
      then show ?thesis using PU by simp
    qed
    note core = inv_same_pays [OF own PH]
    let ?st' = "st\<lparr>hes := ?H, hash_slots := ?S, hash_count := hash_count st - 1\<rparr>"
    have run: "removeFromHashTable st addr key = Some (e, ?st')"
      using find e(3) n u(1) unlink_hash_ok [OF bk sb e(1) n(1)]
      by (simp add: removeFromHashTable_def Let_def)
    have mm: "members HASH_TABLE_SIZE ?hl = members HASH_TABLE_SIZE hl - {e}"
      by (rule he.members_unlink [OF bk sb e(1)])
    have em: "e \<in> members HASH_TABLE_SIZE hl" using e(1) sb by (auto simp: members_def)
    have f: "ring_set ?st' = ring_set st" "hash_mode ?st' = hash_mode st" "bt_table_ok ?st' bl = bt_table_ok st bl"
      "mode_ok ?st' = mode_ok st" "old_set ?st' = old_set st" "ref_of ?st' = ref_of (st\<lparr>hes := ?H\<rparr>)"
      "own_ok ?st' = own_ok (st\<lparr>hes := ?H\<rparr>)"
      by (simp_all add: ring_set_def hash_mode_def bt_table_ok_def mode_ok_def old_set_def ref_of_def own_ok_def fun_eq_iff)
    have "ring_ok ?st' = ring_ok st" by (simp add: ring_ok_def f core(3) del: dom_fun_upd)
    then have ring': "ring_ok ?st'" using ring by simp
    have bk': "buckets he_prev he_next HASH_TABLE_SIZE ?H ?S ?hl"
      using he.buckets_outside [OF U(5), of e] mm by simp
    have nodes: "\<exists>m i. ?H x = Some m \<and> infos st (he_mPEntryInfo m) = Some i \<and> hash_slot (mAddr i) = s"
      if s: "s < HASH_TABLE_SIZE" and x: "x \<in> set (?hl s)" for s x
    proof -
      have "x \<in> set (hl s)" using x by (auto split: if_splits dest: set_remove1_subset [THEN subsetD])
      then obtain m i where m: "hes st x = Some m" "infos st (he_mPEntryInfo m) = Some i" "hash_slot (mAddr i) = s"
        using hash s unfolding hash_ok_def by blast
      have "he.pays ?H x = Some (m\<lparr>he_prev := 0, he_next := 0\<rparr>)" using PH m(1) by (simp add: he.pays_def del: he.pays_upd)
      then obtain m' where m': "?H x = Some m'" "m\<lparr>he_prev := 0, he_next := 0\<rparr> = m'\<lparr>he_prev := 0, he_next := 0\<rparr>"
        by (rule he_pays_look)
      then have "he_mPEntryInfo m' = he_mPEntryInfo m" using he_payload_eq by blast
      then show ?thesis using m' m by (intro exI [of _ m'] exI [of _ i]) simp
    qed
    have hash': "hash_ok ?st' ?hl"
    proof -
      have "hash_count st - 1 = of_nat (card (members HASH_TABLE_SIZE ?hl))" unfolding mm by (rule card_pull [OF em hc])
      moreover have "members HASH_TABLE_SIZE ?hl \<inter> ring_set st = {}" using dis mm by auto
      ultimately show ?thesis
        unfolding hash_ok_def f using hm bk' nodes by (simp del: fun_upd_apply)
    qed
    have "ubrd_inv 0 ?st' bl ?hl"
      unfolding ubrd_inv_def f core(2)
      using tab ring' hash' core(1) mode cnt al by (simp add: core(3) del: dom_fun_upd)
    moreover have "live ?st' = live st" by (simp add: live_def core(3) del: dom_fun_upd)
    moreover have "e = hd (filter ?P (hl ?s))" using e(1-3) by (cases "filter ?P (hl ?s)") (auto simp: filter_empty_conv)
    ultimately show ?thesis
      by (intro main [OF run n(2)]) (use e em dis mm f(1) in \<open>auto simp: entry_key_def\<close>)
  qed
qed

section \<open>Moving an entry to the historical table or dropping it\<close>

lemma free_block_less: "free_block h x = Some h' \<Longrightarrow> h' y = h y \<or> h' y = None"
  by (auto simp: free_block_def split: if_splits option.splits)

lemma free_entry_frame:
  "free_entry st e n = Some s \<Longrightarrow> ring_slots s = ring_slots st \<and> (free_bts s x = free_bts st x \<or> free_bts s x = None)"
  by (auto simp: free_entry_def split: bind_splits if_splits dest: free_block_less [of _ _ _ x])

lemma decBtEntry_frame: "decBtEntry st b = Some s \<Longrightarrow> ring_slots s = ring_slots st \<and> free_bts s = free_bts st"
  by (auto simp: decBtEntry_def unlink_bt_def Let_def split: bind_splits if_splits)

text \<open>Putting an entry into the ring writes one slot, and frees no trace but the overwritten entry's.\<close>

lemma insertToRingBuffer_frame:
  assumes "insertToRingBuffer st he mode = Some s" "he \<noteq> 0" "ring_base st \<noteq> 0"
  shows "ring_slots s = (ring_slots st)(ring_head st := he) \<and> (free_bts s x = free_bts st x \<or> free_bts s x = None)"
proof -
  have put: "ring_slots (ring_put he t) = (ring_slots t)(ring_head t := he)" "free_bts (ring_put he t) = free_bts t" for t
    by (simp_all add: ring_put_def Let_def)
  show ?thesis
    using assms unfolding insertToRingBuffer_def Let_def
    by (auto simp: put split: bind_splits if_splits dest!: decBtEntry_frame free_entry_frame [where x = x])
qed

lemma historical_ok:
  assumes inv: "ubrd_inv 0 st bl hl" and hm: "hash_mode st" and fm: "fresh_malloc malloc"
    and e: "hes st e = Some n" "e \<notin> members HASH_TABLE_SIZE hl" "e \<notin> ring_set st"
    and fb: "malloc (live st) k \<noteq> 0" and rb: "ring_base st \<noteq> 0"
  obtains st' bl' where "store (hes st) e (he_mBt_update (\<lambda>_. malloc (live st) k)) = Some ((hes st)(e \<mapsto> n\<lparr>he_mBt := malloc (live st) k\<rparr>))"
    "insertToRingBuffer (st\<lparr>free_bts := (free_bts st)(malloc (live st) k \<mapsto> bt),
       hes := (hes st)(e \<mapsto> n\<lparr>he_mBt := malloc (live st) k\<rparr>)\<rparr>) e UBRD_HISTORICAL_TABLE = Some st'"
    "ubrd_inv 0 st' bl' hl" "mMutex st' = mMutex st" "mMspace st' = mMspace st" "mConfig st' = mConfig st"
    "ring_slots st' (ring_head st) = e" "\<exists>m. hes st' e = Some m \<and> free_bts st' (he_mBt m) = Some bt"
proof -
  let ?fb = "malloc (live st) k"
  let ?n = "n\<lparr>he_mBt := ?fb\<rparr>"
  let ?H = "(hes st)(e \<mapsto> ?n)"
  let ?s1 = "st\<lparr>free_bts := (free_bts st)(?fb \<mapsto> bt)\<rparr>"
  let ?s = "st\<lparr>free_bts := (free_bts st)(?fb \<mapsto> bt), hes := ?H\<rparr>"
  have own: "own_ok st" and hash: "hash_ok st hl" and ring: "ring_ok st" and mode: "mode_ok st" and tab: "bt_table_ok st bl"
    and al: "alive 0 (bt.pays (bts st))"
    and cnt: "counted (bt.pays (bts st)) (ref_of st) (dom (hes st) - old_set st) (old_set st) 0"
    using inv by (simp_all add: ubrd_inv_def)
  have fresh: "?fb \<notin> dom (free_bts st)" by (rule fresh_live(4) [OF fm fb])
  have own1: "own_ok ?s1"
    using own_node [OF own] own_distinct [OF own] own_zero [OF own] own_sep [OF own] fb unfolding own_ok_def by simp
  have P: "he.pays ?H = (he.pays (hes ?s1))(e \<mapsto> ?n\<lparr>he_prev := 0, he_next := 0\<rparr>)" by simp
  have own2: "own_ok (?s1\<lparr>hes := ?H\<rparr>)"
  proof (rule own_add [OF own1 P])
    show "e \<noteq> 0" by (rule own_node(1) [OF own e(1)])
    show "e \<notin> dom (bts ?s1)" using own_sep [OF own] e(1) by auto
    show "he_mPBtEntry ?n \<in> dom (bts ?s1)" "he_mPEntryInfo ?n \<in> dom (infos ?s1)"
      using own_node(2,3) [OF own e(1)] by simp_all
    fix x m assume x: "x \<noteq> e" "hes ?s1 x = Some m"
    then have m: "hes st x = Some m" by simp
    have "he_mBt m \<noteq> ?fb" using own_node(4) [OF own m] fresh fb by metis
    then show "he_mPEntryInfo m \<noteq> he_mPEntryInfo ?n \<and> (he_mBt ?n \<noteq> 0 \<longrightarrow> he_mBt m \<noteq> he_mBt ?n)"
      using own_distinct(1) [OF own m e(1) x(1)] by simp
  qed simp
  have rf: "ref_of ?s = ref_of st" using e(1) by (simp add: ref_of_def fun_eq_iff)
  have dH: "dom ?H = dom (hes st)" using e(1) by auto
  have f: "ring_set ?s = ring_set st" "hash_mode ?s = hash_mode st" "bt_table_ok ?s bl = bt_table_ok st bl"
    "mode_ok ?s = mode_ok st" "old_set ?s = old_set st" "ring_mode_of ?s = UBRD_HISTORICAL_TABLE"
    using hm by (simp_all add: ring_set_def hash_mode_def bt_table_ok_def mode_ok_def old_set_def own_ok_def ring_mode_of_def)
  have "ring_ok ?s = ring_ok st" by (simp add: ring_ok_def f dH del: dom_fun_upd)
  then have ring': "ring_ok ?s" using ring by simp
  have hash': "hash_ok ?s hl"
  proof -
    have "buckets he_prev he_next HASH_TABLE_SIZE ?H (hash_slots st) hl"
      using hash hm by (intro he.buckets_outside e(2)) (simp add: hash_ok_def)
    moreover have "\<exists>m i. ?H x = Some m \<and> infos st (he_mPEntryInfo m) = Some i \<and> hash_slot (mAddr i) = s"
      if s: "s < HASH_TABLE_SIZE" and x: "x \<in> set (hl s)" for s x
    proof -
      obtain m i where m: "hes st x = Some m" "infos st (he_mPEntryInfo m) = Some i" "hash_slot (mAddr i) = s"
        using hash s x unfolding hash_ok_def by blast
      have "x \<noteq> e" using e(2) s x by (auto simp: members_def)
      then show ?thesis using m by auto
    qed
    ultimately show ?thesis using hash hm unfolding hash_ok_def f by (simp del: fun_upd_apply)
  qed
  have inv': "ubrd_inv 0 ?s bl hl"
    unfolding ubrd_inv_def f rf using tab ring' hash' own2 mode cnt al by (simp add: dH del: dom_fun_upd)
  have hb: "hes ?s e = Some ?n" by simp
  have er: "e \<notin> ring_set ?s" using e(3) f(1) by simp
  have rb': "ring_base ?s \<noteq> 0" using rb by simp
  obtain st' bl' where ins: "insertToRingBuffer ?s e (ring_mode_of ?s) = Some st'" "ubrd_inv 0 st' bl' hl"
      "mMutex st' = mMutex ?s" "mMspace st' = mMspace ?s" "mConfig st' = mConfig ?s"
      "hes st' = (if ring_slots ?s (ring_head ?s) = 0 then hes ?s else (hes ?s)(ring_slots ?s (ring_head ?s) := None))"
    by (rule insertToRingBuffer_ok [OF inv' hb er e(2) rb'])
  have e0: "e \<noteq> 0" by (rule own_node(1) [OF own e(1)])
  note frame = insertToRingBuffer_frame [OF ins(1) e0 rb', of ?fb]
  have head: "ring_head st < ring_size st" using ring rb by (auto simp: ring_ok_def split: if_splits)
  have "ring_slots st (ring_head st) \<noteq> e" using e(3) e0 head by (auto simp: ring_set_def)
  then have he: "hes st' e = Some ?n" using ins(6) by simp
  have "own_ok st'" using ins(2) by (simp add: ubrd_inv_def)
  then have "?fb \<in> dom (free_bts st')" using own_node(4) [OF _ he] fb by simp
  then have "free_bts st' ?fb = Some bt" using frame by auto
  then show ?thesis
    using frame he by (intro that [of st' bl']) (use ins e(1) f(6) in simp_all)
qed

text \<open>
  What becomes of the entry \<open>e\<close>: it is freed when entries are removed directly, and else kept in the next slot of the
  historical table with the trace of its removal, or lost when there is no block for that trace.
\<close>

definition removed :: "(u32 set \<Rightarrow> nat \<Rightarrow> u32) \<Rightarrow> u32 list \<Rightarrow> ubrd \<Rightarrow> u32 \<Rightarrow> int \<Rightarrow> ubrd \<Rightarrow> bool" where
  "removed malloc bt st e r st' \<longleftrightarrow>
     (if mEntryRemoveDirectly (mConfig st) \<noteq> 0 then r = 0 \<and> hes st' e = None
      else if malloc (live st) (4 + length bt * 4) \<noteq> 0 then
        r = 0 \<and> ring_slots st' (ring_head st) = e \<and> (\<exists>n. hes st' e = Some n \<and> free_bts st' (he_mBt n) = Some bt)
      else r = -1 \<and> hes st' e \<noteq> None)"

lemma move_ok:
  assumes inv: "ubrd_inv 0 st bl hl" and hm: "hash_mode st" and fm: "fresh_malloc malloc"
  obtains "move malloc bt st addr key = Some (1, st)"
    "\<forall>x \<in> set (hl (hash_slot addr)). \<not> compareFunc st key (entry_key st x)"
  | r st' bl' hl' e where "move malloc bt st addr key = Some (r, st')" "r = 0 \<or> r = -1" "ubrd_inv 0 st' bl' hl'"
    "mMutex st' = mMutex st" "mMspace st' = mMspace st" "mConfig st' = mConfig st"
    "\<exists>x \<in> set (hl (hash_slot addr)). compareFunc st key (entry_key st x)"
    "e = hd (filter (\<lambda>x. compareFunc st key (entry_key st x)) (hl (hash_slot addr)))"
    "hl' = hl(hash_slot addr := remove1 e (hl (hash_slot addr)))" "removed malloc bt st e r st'"
proof -
  note fail = that(1) and main = that(2)
  show ?thesis
  proof (rule removeFromHashTable_ok [OF inv hm, of addr key])
    assume r: "removeFromHashTable st addr key = Some (0, st)"
      and none: "\<forall>x \<in> set (hl (hash_slot addr)). \<not> compareFunc st key (entry_key st x)"
    show ?thesis by (rule fail [OF _ none]) (simp add: move_def r)
  next
    fix e s1 hl1 n
    assume r: "removeFromHashTable st addr key = Some (e, s1)" "e \<noteq> 0" "ubrd_inv 0 s1 bl hl1"
      "e \<in> set (hl (hash_slot addr))" "compareFunc st key (entry_key st e)" "hes s1 e = Some n"
      "e \<notin> members HASH_TABLE_SIZE hl1" "e \<notin> ring_set s1"
      "mMutex s1 = mMutex st" "mMspace s1 = mMspace st" "mConfig s1 = mConfig st"
      and w: "e = hd (filter (\<lambda>x. compareFunc st key (entry_key st x)) (hl (hash_slot addr)))"
      "hl1 = hl(hash_slot addr := remove1 e (hl (hash_slot addr)))" "live s1 = live st" "ring_head s1 = ring_head st"
    have hm1: "hash_mode s1" using hm r(11) by (simp add: hash_mode_def)
    have found: "\<exists>x \<in> set (hl (hash_slot addr)). compareFunc st key (entry_key st x)" using r(4,5) by blast
    have own: "own_ok s1" and hash: "hash_ok s1 hl1" and ring: "ring_ok s1" and mode: "mode_ok s1" and tab: "bt_table_ok s1 bl"
      and al: "alive 0 (bt.pays (bts s1))"
      and cnt: "counted (bt.pays (bts s1)) (ref_of s1) (dom (hes s1) - old_set s1) (old_set s1) 0"
      using r(3) by (simp_all add: ubrd_inv_def)
    show ?thesis
    proof (cases "mEntryRemoveDirectly (mConfig s1) = 0")
      case True
      have rb: "ring_base s1 \<noteq> 0" using mode hm1 True by (simp add: mode_ok_def)
      let ?fb = "malloc (live s1) (4 + length bt * 4)"
      show ?thesis
      proof (cases "?fb = 0")
        case no: True
        let ?H = "(hes s1)(e \<mapsto> n\<lparr>he_mBt := 0\<rparr>)"
        let ?s = "s1\<lparr>hes := ?H\<rparr>"
        have run: "move malloc bt st addr key = Some (-1, ?s)"
          using r True no by (simp add: move_def Let_def)
        have P: "he.pays ?H = (he.pays (hes s1))(e \<mapsto> (n\<lparr>he_mBt := 0\<rparr>)\<lparr>he_prev := 0, he_next := 0\<rparr>)" by simp
        have own2: "own_ok ?s"
        proof (rule own_add [OF own P])
          show "e \<notin> dom (bts s1)" using own_sep [OF own] r(6) by auto
          show "he_mPBtEntry (n\<lparr>he_mBt := 0\<rparr>) \<in> dom (bts s1)" "he_mPEntryInfo (n\<lparr>he_mBt := 0\<rparr>) \<in> dom (infos s1)"
            using own_node(2,3) [OF own r(6)] by simp_all
          fix x m assume "x \<noteq> e" "hes s1 x = Some m"
          then show "he_mPEntryInfo m \<noteq> he_mPEntryInfo (n\<lparr>he_mBt := 0\<rparr>) \<and>
              (he_mBt (n\<lparr>he_mBt := 0\<rparr>) \<noteq> 0 \<longrightarrow> he_mBt m \<noteq> he_mBt (n\<lparr>he_mBt := 0\<rparr>))"
            using own_distinct(1) [OF own _ r(6)] by simp
        qed (use r(2) in simp_all)
        have dH: "dom ?H = dom (hes s1)" using r(6) by auto
        have f: "ring_set ?s = ring_set s1" "hash_mode ?s = hash_mode s1" "bt_table_ok ?s bl = bt_table_ok s1 bl"
          "mode_ok ?s = mode_ok s1" "old_set ?s = old_set s1"
          by (simp_all add: ring_set_def hash_mode_def bt_table_ok_def mode_ok_def old_set_def)
        have rf: "ref_of ?s = ref_of s1" using r(6) by (simp add: ref_of_def fun_eq_iff)
        have "ring_ok ?s = ring_ok s1" by (simp add: ring_ok_def f dH del: dom_fun_upd)
        moreover have "hash_ok ?s hl1"
        proof -
          have "buckets he_prev he_next HASH_TABLE_SIZE ?H (hash_slots s1) hl1"
            using hash hm1 by (intro he.buckets_outside r(7)) (simp add: hash_ok_def)
          moreover have "\<exists>m i. ?H x = Some m \<and> infos s1 (he_mPEntryInfo m) = Some i \<and> hash_slot (mAddr i) = s"
            if s: "s < HASH_TABLE_SIZE" and x: "x \<in> set (hl1 s)" for s x
          proof -
            obtain m i where "hes s1 x = Some m" "infos s1 (he_mPEntryInfo m) = Some i" "hash_slot (mAddr i) = s"
              using hash s x unfolding hash_ok_def by blast
            moreover have "x \<noteq> e" using r(7) s x by (auto simp: members_def)
            ultimately show ?thesis by auto
          qed
          ultimately show ?thesis using hash hm1 unfolding hash_ok_def f by (simp del: fun_upd_apply)
        qed
        ultimately have inv2: "ubrd_inv 0 ?s bl hl1"
          unfolding ubrd_inv_def f rf using tab ring own2 mode cnt al by (simp add: dH del: dom_fun_upd)
        show ?thesis by (rule main [OF run _ inv2 _ _ _ found w(1,2)]) (use r w no True in \<open>simp_all add: removed_def\<close>)
      next
        case yes: False
        obtain st' bl' where h: "store (hes s1) e (he_mBt_update (\<lambda>_. ?fb)) = Some ((hes s1)(e \<mapsto> n\<lparr>he_mBt := ?fb\<rparr>))"
          "insertToRingBuffer (s1\<lparr>free_bts := (free_bts s1)(?fb \<mapsto> bt), hes := (hes s1)(e \<mapsto> n\<lparr>he_mBt := ?fb\<rparr>)\<rparr>) e
             UBRD_HISTORICAL_TABLE = Some st'"
          "ubrd_inv 0 st' bl' hl1" "mMutex st' = mMutex s1" "mMspace st' = mMspace s1" "mConfig st' = mConfig s1"
          "ring_slots st' (ring_head s1) = e" "\<exists>m. hes st' e = Some m \<and> free_bts st' (he_mBt m) = Some bt"
          by (rule historical_ok [OF r(3) hm1 fm r(6,7,8) yes rb])
        have run: "move malloc bt st addr key = Some (0, st')"
          using r(1,2) True yes h(1,2) by (simp add: move_def Let_def)
        show ?thesis by (rule main [OF run _ h(3) _ _ _ found w(1,2)]) (use h r w yes True in \<open>simp_all add: removed_def\<close>)
      qed
    next
      case False
      let ?b = "he_mPBtEntry n"
      obtain bn where bn: "bts s1 ?b = Some bn" using own_node(2) [OF own r(6)] by blast
      let ?bn = "bn\<lparr>be_allocations := be_allocations bn - 1\<rparr>"
      let ?B = "(bts s1)(?b \<mapsto> ?bn)"
      let ?s = "s1\<lparr>bts := ?B\<rparr>"
      have P: "bt.pays ?B = (bt.pays (bts s1))(?b \<mapsto> (bn\<lparr>be_prev := 0, be_next := 0\<rparr>)\<lparr>be_allocations := be_allocations (bn\<lparr>be_prev := 0, be_next := 0\<rparr>) - 1\<rparr>)"
        by (cases bn) simp
      have tab': "bt_table_ok ?s bl" by (rule bt_table_update [OF tab bn]) simp_all
      have f: "ring_set ?s = ring_set s1" "hash_mode ?s = hash_mode s1" "ref_of ?s = ref_of s1" "old_set ?s = old_set s1"
        "hash_ok ?s hl1 = hash_ok s1 hl1" "ring_ok ?s = ring_ok s1" "mode_ok ?s = mode_ok s1"
        by (simp_all add: ring_set_def hash_mode_def ref_of_def old_set_def fun_eq_iff hash_ok_def ring_ok_def mode_ok_def)
      have "dom ?B = dom (bts s1)" using bn by auto
      then have own': "own_ok ?s" using own own_ok_bts by simp
      have eo: "e \<in> dom (hes s1) - old_set s1" using r(6,8) hm1 by (auto simp: old_set_def)
      have rfe: "ref_of s1 e = Some ?b" using r(6) by (simp add: ref_of_def)
      have "counted (bt.pays ?B) (ref_of s1) (dom (hes s1) - old_set s1 - {e}) (old_set s1) 0"
        unfolding P by (rule counted_drop_alloc [OF cnt eo rfe pays_at [OF bn] pays_zero [OF tab]])
      moreover have "dom (hes s1) - old_set s1 - {e} = dom (hes s1) - {e} - old_set s1" by blast
      ultimately have cnt': "counted (bt.pays (bts ?s)) (ref_of ?s) (dom (hes ?s) - {e} - old_set ?s) (old_set ?s) 0"
        unfolding f by simp
      have al': "alive ?b (bt.pays (bts ?s))" by (rule alive_other [OF al _ pays_zero [OF tab]]) (simp add: P)
      have hb: "hes ?s e = Some n" using r(6) by simp
      have er: "e \<notin> ring_set ?s" using r(8) f(1) by simp
      have hash': "hash_ok ?s hl1" "ring_ok ?s" "mode_ok ?s" using hash ring mode f by simp_all
      obtain s3 st' bl' where d: "decBtEntry ?s ?b = Some s3" "hes s3 e = Some n" "free_entry s3 e n = Some st'"
        "ubrd_inv 0 st' bl' hl1" "mMutex st' = mMutex ?s" "mMspace st' = mMspace ?s" "mConfig st' = mConfig ?s"
        "hes st' = (hes ?s)(e := None)"
        by (rule release_ok [OF tab' own' hash' hb er r(7) cnt' al'])
      have run: "move malloc bt st addr key = Some (0, st')"
        using r(1,2,6) False bn d(1,3) by (simp add: move_def)
      show ?thesis by (rule main [OF run _ d(4) _ _ _ found w(1,2)]) (use d r w False in \<open>simp_all add: removed_def\<close>)
    qed
  qed
qed

end
