(* ===== verification/UbrdMain.thy ===== *)
theory UbrdMain
  imports UbrdProps
begin

text \<open>
  The properties of the back-trace recorder: no exported operation faults, deadlocks or breaks
  the tables on any history, its counters are exact, and what was recorded can be removed.
\<close>

section \<open>Histories\<close>

definition recorder_ok :: "ubrd \<Rightarrow> bool" where
  "recorder_ok st \<longleftrightarrow> mMspace st = 0 \<or> (\<exists>bl hl. ubrd_inv 0 st bl hl)"

text \<open>
  One call: the allocator's answers and the unwinder's trace during the call, the address, the
  size and the extra information with its length.
\<close>

record ubrd_call =
  c_malloc :: "u32 set \<Rightarrow> nat \<Rightarrow> u32"
  c_bt :: "u32 list"
  c_addr :: u32
  c_bytes :: u32
  c_extra :: "u8 list option"
  c_extralen :: u32

datatype ubrd_op = Record ubrd_call | Remove ubrd_call | RemoveNolock ubrd_call

fun run_ubrd_op :: "ubrd_op \<Rightarrow> ubrd \<Rightarrow> (int \<times> ubrd) option" where
  "run_ubrd_op (Record c) st =
     ubrd_btrace_record (c_malloc c) (c_bt c) st (c_addr c) (c_bytes c) (c_extra c) (c_extralen c)"
| "run_ubrd_op (Remove c) st =
     ubrd_btrace_remove (c_malloc c) (c_bt c) st (c_addr c) (c_bytes c) (c_extra c) (c_extralen c)"
| "run_ubrd_op (RemoveNolock c) st =
     ubrd_btrace_remove_nolock (c_malloc c) (c_bt c) st (c_addr c) (c_bytes c) (c_extra c) (c_extralen c)"

fun run_ubrd :: "ubrd_op list \<Rightarrow> ubrd \<Rightarrow> ubrd option" where
  "run_ubrd [] st = Some st"
| "run_ubrd (op # ops) st = do { (r, st') \<leftarrow> run_ubrd_op op st; run_ubrd ops st' }"

fun op_call :: "ubrd_op \<Rightarrow> ubrd_call" where
  "op_call (Record c) = c" | "op_call (Remove c) = c" | "op_call (RemoveNolock c) = c"

text \<open>The caller's side: a fresh-block allocator, and an extra buffer as long as announced.\<close>

definition call_ok :: "ubrd_call \<Rightarrow> bool" where
  "call_ok c \<longleftrightarrow> fresh_malloc (c_malloc c) \<and> copy_extra (c_extra c) (c_extralen c) \<noteq> None"

section \<open>Locks\<close>

lemma inv_mutex: "ubrd_inv k (st\<lparr>mMutex := b\<rparr>) bl hl = ubrd_inv k st bl hl"
proof -
  let ?s = "st\<lparr>mMutex := b\<rparr>"
  have f: "ring_set ?s = ring_set st" "hash_mode ?s = hash_mode st" "ref_of ?s = ref_of st" "old_set ?s = old_set st"
    "bt_table_ok ?s bl = bt_table_ok st bl" "mode_ok ?s = mode_ok st" "own_ok ?s = own_ok st"
    by (simp_all add: ring_set_def hash_mode_def ref_of_def old_set_def fun_eq_iff bt_table_ok_def mode_ok_def own_ok_def)
  have "ring_ok ?s = ring_ok st" "hash_ok ?s hl = hash_ok st hl" by (simp_all add: ring_ok_def hash_ok_def f)
  then show ?thesis by (simp add: ubrd_inv_def f)
qed

lemma recorder_ok_mutex: "recorder_ok (st\<lparr>mMutex := b\<rparr>) = recorder_ok st"
  by (simp add: recorder_ok_def inv_mutex)

lemma recorder_ok_clean: "recorder_ok (ubrd_clean_exit st)"
  by (simp add: recorder_ok_def ubrd_clean_exit_def)

lemma recorder_ok_unlock: "recorder_ok (unlock st) = recorder_ok st"
  by (simp add: unlock_def recorder_ok_mutex)

section \<open>Recording\<close>

lemma record_entry_ok:
  assumes inv: "ubrd_inv r st bl hl" and r: "r \<noteq> 0" "r \<in> dom (bts st)" and fm: "fresh_malloc malloc"
    and i: "infos st i = Some ei" "mAddr ei = addr" and own_i: "\<And>x m. hes st x = Some m \<Longrightarrow> he_mPEntryInfo m \<noteq> i"
  obtains st' where "record_entry malloc st addr i r = Some st'" "recorder_ok st'"
    "hash_mode st \<Longrightarrow> mMspace st' \<noteq> 0 \<Longrightarrow> \<exists>bl' e m. ubrd_inv 0 st' bl' (hl(hash_slot addr := e # hl (hash_slot addr)))
       \<and> hes st' e = Some m \<and> he_mPEntryInfo m = i \<and> infos st' = infos st \<and> compareFunc st' = compareFunc st
       \<and> mConfig st' = mConfig st"
proof (cases "hash_mode st")
  case True
  then have mode: "mRecordWithRingBuf (mConfig st) = 0" by (simp add: hash_mode_def)
  show ?thesis
  proof (rule recordToHashTable_ok [OF inv r True fm i own_i])
    assume "recordToHashTable malloc st addr i r = Some (0, st)"
    then have "record_entry malloc st addr i r = Some (ubrd_clean_exit st)" by (simp add: record_entry_def mode)
    then show ?thesis using that recorder_ok_clean by (simp add: ubrd_clean_exit_def)
  next
    fix e st' hl'
    assume e: "recordToHashTable malloc st addr i r = Some (e, st')" "e \<noteq> 0" "ubrd_inv 0 st' bl hl'"
      "hl' = hl(hash_slot addr := e # hl (hash_slot addr))" "mConfig st' = mConfig st" "infos st' = infos st"
      "compareFunc st' = compareFunc st" "\<exists>m. hes st' e = Some m \<and> he_mPEntryInfo m = i \<and> he_mPBtEntry m = r"
    have run: "record_entry malloc st addr i r = Some st'" using e(1,2) by (simp add: record_entry_def mode)
    show ?thesis
    proof (rule that [OF run])
      show "recorder_ok st'" using e(3) by (auto simp: recorder_ok_def)
      show "\<exists>bl' e m. ubrd_inv 0 st' bl' (hl(hash_slot addr := e # hl (hash_slot addr))) \<and> hes st' e = Some m \<and> he_mPEntryInfo m = i
          \<and> infos st' = infos st \<and> compareFunc st' = compareFunc st \<and> mConfig st' = mConfig st"
        using e(3-8) by blast
    qed
  qed
next
  case False
  then have mode: "mRecordWithRingBuf (mConfig st) \<noteq> 0" by (simp add: hash_mode_def)
  show ?thesis
  proof (rule recordToRingBuffer_ok [OF inv r False fm i(1) own_i])
    assume "recordToRingBuffer malloc st r i 0 = Some (-1, st)"
    then have "record_entry malloc st addr i r = Some (ubrd_clean_exit st)" by (simp add: record_entry_def mode)
    then show ?thesis using that recorder_ok_clean False by blast
  next
    fix st' bl'
    assume e: "recordToRingBuffer malloc st r i 0 = Some (0, st')" "ubrd_inv 0 st' bl' hl"
    have run: "record_entry malloc st addr i r = Some st'" using e(1) by (simp add: record_entry_def mode)
    then show ?thesis using that [OF run] e(2) False by (auto simp: recorder_ok_def)
  qed
qed

lemma record_ok:
  assumes ok: "recorder_ok st" and mx: "\<not> mMutex st" and fm: "fresh_malloc malloc"
    and ex: "copy_extra extra len \<noteq> None"
  obtains r st' where "ubrd_btrace_record malloc bt st addr bytes extra len = Some (r, st')"
    "r = 0 \<or> r = -1" "recorder_ok st'" "\<not> mMutex st'"
    "r = 0 \<Longrightarrow> hash_mode st \<Longrightarrow> mMspace st' \<noteq> 0 \<Longrightarrow> \<exists>bl hl bl' e. ubrd_inv 0 st bl hl
       \<and> ubrd_inv 0 st' bl' (hl(hash_slot addr := e # hl (hash_slot addr)))
       \<and> mAddr (entry_key st' e) = addr \<and> mBytes (entry_key st' e) = bytes \<and> compareFunc st' = compareFunc st \<and> hash_mode st' \<and> addr \<noteq> 0"
proof (cases "addr = 0 \<or> mMspace st = 0")
  case True
  then have "ubrd_btrace_record malloc bt st addr bytes extra len = Some (-1, st)"
    by (auto simp: ubrd_btrace_record_def)
  then show ?thesis using that ok mx by force
next
  case False
  then obtain bl hl where inv: "ubrd_inv 0 st bl hl" using ok by (auto simp: recorder_ok_def)
  let ?s0 = "st\<lparr>mMutex := True\<rparr>"
  have lk: "lock st = Some ?s0" using mx by (simp add: lock_def)
  have inv0: "ubrd_inv 0 ?s0 bl hl" using inv by (simp add: inv_mutex)
  have na: "addr \<noteq> 0" "mMspace st \<noteq> 0" using False by auto
  note goal = that
  have failed: ?thesis if "ubrd_btrace_record malloc bt st addr bytes extra len = Some (-1, unlock (ubrd_clean_exit s))" for s
    by (rule goal [OF that]) (simp_all add: recorder_ok_mutex recorder_ok_clean unlock_def)
  show ?thesis
  proof (rule recordBacktrace_ok [OF inv0 fm, of bt bytes])
    assume "recordBacktrace malloc bt ?s0 bytes = Some (0, ?s0)"
    then show ?thesis by (intro failed) (use na lk in \<open>simp add: ubrd_btrace_record_def\<close>)
  next
    fix r B S c bl' n
    let ?s1 = "?s0\<lparr>bts := B, bt_slots := S, bt_count := c\<rparr>"
    assume r: "recordBacktrace malloc bt ?s0 bytes = Some (r, ?s1)" "r \<noteq> 0" "ubrd_inv r ?s1 bl' hl" "B r = Some n"
    let ?i = "malloc (live ?s1) (unat (16 + len))"
    show ?thesis
    proof (cases "?i = 0")
      case True
      then show ?thesis by (intro failed [of ?s1]) (use na lk r in \<open>simp add: ubrd_btrace_record_def Let_def\<close>)
    next
      case i0: False
      obtain x where x: "copy_extra extra len = Some x" using ex by blast
      let ?ei = "\<lparr>mAddr = addr, mBytes = bytes, mExtraInfoLen = len, mExtraInfo = x\<rparr>"
      let ?s2 = "?s1\<lparr>infos := (infos ?s1)(?i \<mapsto> ?ei)\<rparr>"
      have fi: "?i \<notin> dom (infos ?s1)" by (rule fresh_live(3) [OF fm i0])
      have inv2: "ubrd_inv r ?s2 bl' hl" by (rule inv_add_info [OF r(3) fi i0])
      have own: "own_ok ?s1" using r(3) by (simp add: ubrd_inv_def)
      have own_i: "he_mPEntryInfo m \<noteq> ?i" if "hes ?s2 y = Some m" for y m
        using that own_node(3) [OF own, of y m] fi by auto
      have rb: "r \<in> dom (bts ?s2)" using r(4) by auto
      have ii: "infos ?s2 ?i = Some ?ei" "mAddr ?ei = addr" by simp_all
      have hm: "hash_mode ?s2 = hash_mode st" by (simp add: hash_mode_def)
      show ?thesis
      proof (rule record_entry_ok [OF inv2 r(2) rb fm ii own_i])
        fix st' assume e: "record_entry malloc ?s2 addr ?i r = Some st'" "recorder_ok st'"
          and more: "hash_mode ?s2 \<Longrightarrow> mMspace st' \<noteq> 0 \<Longrightarrow> \<exists>bl' e m. ubrd_inv 0 st' bl' (hl(hash_slot addr := e # hl (hash_slot addr)))
            \<and> hes st' e = Some m \<and> he_mPEntryInfo m = ?i \<and> infos st' = infos ?s2 \<and> compareFunc st' = compareFunc ?s2
            \<and> mConfig st' = mConfig ?s2"
        have run: "ubrd_btrace_record malloc bt st addr bytes extra len = Some (0, unlock st')"
          using na lk r(1,2) i0 x e(1) by (simp add: ubrd_btrace_record_def Let_def)
        show ?thesis
        proof (rule goal [OF run])
          show "recorder_ok (unlock st')" "\<not> mMutex (unlock st')" "(0::int) = 0 \<or> (0::int) = -1"
            using e(2) by (simp_all add: recorder_ok_unlock) (simp add: unlock_def)
          assume "hash_mode st" "mMspace (unlock st') \<noteq> 0"
          then obtain bl' e m where f: "ubrd_inv 0 st' bl' (hl(hash_slot addr := e # hl (hash_slot addr)))" "hes st' e = Some m"
              "he_mPEntryInfo m = ?i" "infos st' = infos ?s2" "compareFunc st' = compareFunc ?s2" "mConfig st' = mConfig ?s2"
            using more hm by (auto simp: unlock_def)
          have "mAddr (entry_key (unlock st') e) = addr" "mBytes (entry_key (unlock st') e) = bytes"
            using f by (simp_all add: entry_key_def unlock_def)
          moreover have "hash_mode (unlock st')" using f(6) \<open>hash_mode st\<close> by (simp add: hash_mode_def unlock_def)
          moreover have "ubrd_inv 0 (unlock st') bl' (hl(hash_slot addr := e # hl (hash_slot addr)))"
            using f(1) by (simp only: unlock_def inv_mutex)
          moreover have "compareFunc (unlock st') = compareFunc st" using f(5) by (simp add: unlock_def)
          ultimately show "\<exists>bl hl bl' e. ubrd_inv 0 st bl hl \<and> ubrd_inv 0 (unlock st') bl' (hl(hash_slot addr := e # hl (hash_slot addr)))
            \<and> mAddr (entry_key (unlock st') e) = addr \<and> mBytes (entry_key (unlock st') e) = bytes
            \<and> compareFunc (unlock st') = compareFunc st \<and> hash_mode (unlock st') \<and> addr \<noteq> 0"
            using inv na by blast
        qed
      qed
    qed
  qed
qed

section \<open>Removing\<close>

lemma remove_locked_ok:
  assumes inv: "ubrd_inv 0 st bl hl" and hm: "hash_mode st" and fm: "fresh_malloc malloc" and ms: "mMspace st \<noteq> 0"
  obtains r st' where "remove_locked malloc bt st addr bytes extra len = Some (r, st')" "r = 0 \<or> r = 1 \<or> r = -1"
    "recorder_ok st'" "mMutex st' = mMutex st"
    "r = 1 \<longleftrightarrow> (\<forall>x \<in> set (hl (hash_slot addr)). \<not> compareFunc st
       \<lparr>mAddr = addr, mBytes = bytes, mExtraInfoLen = len, mExtraInfo = extra\<rparr> (entry_key st x))"
    "r = 1 \<Longrightarrow> st' = st"
    "r \<noteq> 1 \<Longrightarrow> \<exists>bl' e. ubrd_inv 0 st' bl' (hl(hash_slot addr := remove1 e (hl (hash_slot addr)))) \<and> removed malloc bt st e r st'
       \<and> e = hd (filter (\<lambda>x. compareFunc st \<lparr>mAddr = addr, mBytes = bytes, mExtraInfoLen = len, mExtraInfo = extra\<rparr> (entry_key st x))
                   (hl (hash_slot addr)))"
proof -
  let ?k = "\<lparr>mAddr = addr, mBytes = bytes, mExtraInfoLen = len, mExtraInfo = extra\<rparr>"
  note goal = that
  show ?thesis
  proof (rule move_ok [OF inv hm fm, of bt addr ?k])
    assume m: "move malloc bt st addr ?k = Some (1, st)"
      and none: "\<forall>x \<in> set (hl (hash_slot addr)). \<not> compareFunc st ?k (entry_key st x)"
    have run: "remove_locked malloc bt st addr bytes extra len = Some (1, st)" using m ms by (simp add: remove_locked_def)
    have "recorder_ok st" using inv by (auto simp: recorder_ok_def)
    then show ?thesis by (intro goal [OF run]) (use none in simp_all)
  next
    fix r st' bl' hl' e
    assume m: "move malloc bt st addr ?k = Some (r, st')" "r = 0 \<or> r = -1" "ubrd_inv 0 st' bl' hl'" "mMutex st' = mMutex st"
      and some: "\<exists>x \<in> set (hl (hash_slot addr)). compareFunc st ?k (entry_key st x)"
      and w: "e = hd (filter (\<lambda>x. compareFunc st ?k (entry_key st x)) (hl (hash_slot addr)))"
      "hl' = hl(hash_slot addr := remove1 e (hl (hash_slot addr)))" "removed malloc bt st e r st'"
    have out: "\<exists>bl' e. ubrd_inv 0 st' bl' (hl(hash_slot addr := remove1 e (hl (hash_slot addr)))) \<and> removed malloc bt st e r st'
        \<and> e = hd (filter (\<lambda>x. compareFunc st ?k (entry_key st x)) (hl (hash_slot addr)))"
      using m(3) w by blast
    have run: "remove_locked malloc bt st addr bytes extra len = Some (r, st')" using m(1) ms by (simp add: remove_locked_def)
    show ?thesis
    proof (rule goal [OF run])
      show "recorder_ok st'" using m(3) by (auto simp: recorder_ok_def)
    qed (use m(2,4) some out in auto)
  qed
qed

lemma remove_nolock_ok:
  assumes ok: "recorder_ok st" and fm: "fresh_malloc malloc"
  obtains r st' where "ubrd_btrace_remove_nolock malloc bt st addr bytes extra len = Some (r, st')"
    "recorder_ok st'" "mMutex st' = mMutex st"
proof (cases "addr = 0 \<or> mMspace st = 0 \<or> \<not> hash_mode st")
  case True
  then have "ubrd_btrace_remove_nolock malloc bt st addr bytes extra len = Some (-1, st)
      \<or> ubrd_btrace_remove_nolock malloc bt st addr bytes extra len = Some (0, st)"
    by (auto simp: ubrd_btrace_remove_nolock_def hash_mode_def)
  then show ?thesis using that ok by blast
next
  case False
  then obtain bl hl where inv: "ubrd_inv 0 st bl hl" using ok by (auto simp: recorder_ok_def)
  have f: "hash_mode st" "mMspace st \<noteq> 0" "addr \<noteq> 0" using False by auto
  show ?thesis
  proof (rule remove_locked_ok [OF inv f(1) fm f(2), of bt addr bytes extra len])
    fix r st' assume "remove_locked malloc bt st addr bytes extra len = Some (r, st')" "recorder_ok st'" "mMutex st' = mMutex st"
    then show ?thesis using that f by (simp add: ubrd_btrace_remove_nolock_def hash_mode_def)
  qed
qed

lemma remove_via_nolock:
  assumes mx: "\<not> mMutex st" and hm: "hash_mode st" and a: "addr \<noteq> 0" "mMspace st \<noteq> 0"
  shows "ubrd_btrace_remove malloc bt st addr bytes extra len =
    Option.bind (remove_locked malloc bt (st\<lparr>mMutex := True\<rparr>) addr bytes extra len) (\<lambda>(r, s). Some (r, unlock s))"
  using assms by (simp add: ubrd_btrace_remove_def lock_def hash_mode_def)

lemma remove_ok:
  assumes ok: "recorder_ok st" and mx: "\<not> mMutex st" and fm: "fresh_malloc malloc"
  obtains r st' where "ubrd_btrace_remove malloc bt st addr bytes extra len = Some (r, st')"
    "recorder_ok st'" "\<not> mMutex st'"
proof (cases "addr = 0 \<or> mMspace st = 0 \<or> \<not> hash_mode st")
  case True
  then have "ubrd_btrace_remove malloc bt st addr bytes extra len = Some (-1, st)
      \<or> ubrd_btrace_remove malloc bt st addr bytes extra len = Some (0, st)"
    by (auto simp: ubrd_btrace_remove_def hash_mode_def)
  then show ?thesis using that ok mx by blast
next
  case False
  then obtain bl hl where inv: "ubrd_inv 0 st bl hl" using ok by (auto simp: recorder_ok_def)
  let ?s = "st\<lparr>mMutex := True\<rparr>"
  have f: "hash_mode ?s" "mMspace ?s \<noteq> 0" "addr \<noteq> 0" "ubrd_inv 0 ?s bl hl"
    using False inv by (auto simp: hash_mode_def inv_mutex)
  show ?thesis
  proof (rule remove_locked_ok [OF f(4,1) fm f(2), of bt addr bytes extra len])
    fix r s' assume s: "remove_locked malloc bt ?s addr bytes extra len = Some (r, s')" "recorder_ok s'"
    have "ubrd_btrace_remove malloc bt st addr bytes extra len = Some (r, unlock s')"
      using remove_via_nolock [OF mx _ f(3)] f s(1) by (simp add: hash_mode_def)
    then show ?thesis by (rule that) (use s in \<open>simp_all add: recorder_ok_unlock\<close>, simp add: unlock_def)
  qed
qed

section \<open>Start up\<close>

lemma counted_empty: "counted Map.empty rf A F k"
  by (simp add: counted_def)

lemma empty_inv:
  assumes "bts st = Map.empty" "hes st = Map.empty" "infos st = Map.empty" "free_bts st = Map.empty"
    "bt_slots st = (\<lambda>_. 0)" "bt_count st = 0" "ring_slots st = (\<lambda>_. 0)" "hash_count st = 0"
    "hash_mode st \<Longrightarrow> hash_slots st = (\<lambda>_. 0)" "mode_ok st"
    "ring_base st \<noteq> 0 \<Longrightarrow> ring_head st < ring_size st \<and> ring_size st = unat (mRingBufferSize (mConfig st))"
  shows "ubrd_inv 0 st (\<lambda>_. []) (\<lambda>_. [])"
proof -
  have m: "members N (\<lambda>_. []) = {}" for N by (simp add: members_def)
  have r: "ring_set st = {}" by (simp add: ring_set_def assms)
  have "bt_table_ok st (\<lambda>_. [])" by (simp add: bt_table_ok_def buckets_def m assms)
  moreover have "ring_inj (ring_slots st) (ring_size st)" by (simp add: ring_inj_def assms)
  then have "ring_ok st" using assms(11) by (cases "ring_base st = 0") (auto simp: ring_ok_def r)
  moreover have "hash_ok st (\<lambda>_. [])" using assms by (simp add: hash_ok_def buckets_def m)
  moreover have "own_ok st" by (simp add: own_ok_def assms)
  moreover have "bt.pays (bts st) = Map.empty" by (simp add: assms bt.pays_def fun_eq_iff)
  ultimately show ?thesis using assms(10) counted_empty by (simp add: ubrd_inv_def alive_def)
qed

lemma initTables_fields:
  assumes "initTables malloc (\<lambda>_. 0) cmp st = (0, st')"
    "bts st = Map.empty" "hes st = Map.empty" "infos st = Map.empty" "free_bts st = Map.empty"
    "bt_slots st = (\<lambda>_. 0)" "bt_count st = 0" "ring_slots st = (\<lambda>_. 0)" "hash_count st = 0" "ring_head st = 0"
  shows "ubrd_inv 0 st' (\<lambda>_. []) (\<lambda>_. []) \<and> mMutex st' = mMutex st"
proof -
  have "mMspace st \<noteq> 0" using assms(1) by (auto simp: initTables_def)
  let ?m = "mRecordWithRingBuf (mConfig st) = 0"
  let ?d = "mEntryRemoveDirectly (mConfig st) \<noteq> 0"
  have pos: "0 < unat w" if "w \<noteq> 0" for w :: u32 using that by (simp add: unat_gt_0)
  show ?thesis
  proof (cases ?m)
    case True
    show ?thesis
    proof (cases ?d)
      case d: True
      then show ?thesis using assms True \<open>mMspace st \<noteq> 0\<close>
        by (intro conjI empty_inv) (auto simp: initTables_def Let_def mode_ok_def hash_mode_def split: if_splits)
    next
      case False
      then show ?thesis using assms True \<open>mMspace st \<noteq> 0\<close> pos
        by (intro conjI empty_inv) (auto simp: initTables_def Let_def mode_ok_def hash_mode_def split: if_splits)
    qed
  next
    case False
    then show ?thesis using assms \<open>mMspace st \<noteq> 0\<close> pos
      by (intro conjI empty_inv) (auto simp: initTables_def Let_def mode_ok_def hash_mode_def split: if_splits)
  qed
qed

lemma ubrd_init_ok:
  assumes "ubrd_init mmap create malloc (\<lambda>_. 0) name config cmp = Some st"
  shows "ubrd_inv 0 st (\<lambda>_. []) (\<lambda>_. []) \<and> \<not> mMutex st"
proof -
  let ?size = "(ucast config AND DEBUG_MSPACE_SIZE_MASK) * DEBUG_MSPACE_SIZE_UNIT"
  let ?s = "zero_ubrd\<lparr>mConfig := initConfig name config,
    mMspace := create (mmap ?size + UBRD_offset) (?size - UBRD_offset)\<rparr>"
  have "initTables malloc (\<lambda>_. 0) cmp ?s = (0, st)"
    using assms by (auto simp: ubrd_init_def Let_def split: if_splits prod.splits)
  then show ?thesis using initTables_fields [of malloc cmp ?s st] by (simp add: zero_ubrd_def)
qed

section \<open>Histories keep the invariant\<close>

lemma run_ubrd_op_ok:
  assumes "recorder_ok st" "\<not> mMutex st" "call_ok (op_call op)"
  obtains r st' where "run_ubrd_op op st = Some (r, st')" "recorder_ok st'" "\<not> mMutex st'"
proof (cases op)
  case (Record c)
  then have c: "fresh_malloc (c_malloc c)" "copy_extra (c_extra c) (c_extralen c) \<noteq> None"
    using assms(3) by (simp_all add: call_ok_def)
  show ?thesis by (rule record_ok [OF assms(1,2) c, of "c_bt c" "c_addr c" "c_bytes c"]) (rule that, simp_all add: Record)
next
  case (Remove c)
  then have c: "fresh_malloc (c_malloc c)" using assms(3) by (simp add: call_ok_def)
  show ?thesis by (rule remove_ok [OF assms(1,2) c, of "c_bt c" "c_addr c" "c_bytes c" "c_extra c" "c_extralen c"])
      (rule that, simp_all add: Remove)
next
  case (RemoveNolock c)
  then have c: "fresh_malloc (c_malloc c)" using assms(3) by (simp add: call_ok_def)
  show ?thesis by (rule remove_nolock_ok [OF assms(1) c, of "c_bt c" "c_addr c" "c_bytes c" "c_extra c" "c_extralen c"])
      (rule that, use assms(2) in \<open>simp_all add: RemoveNolock\<close>)
qed

lemma run_ubrd_ok:
  assumes "recorder_ok st" "\<not> mMutex st" "\<forall>op \<in> set ops. call_ok (op_call op)"
  shows "\<exists>st'. run_ubrd ops st = Some st' \<and> recorder_ok st' \<and> \<not> mMutex st'"
  using assms
proof (induction ops arbitrary: st)
  case (Cons op ops)
  have c: "call_ok (op_call op)" using Cons.prems(3) by simp
  obtain r st' where s: "run_ubrd_op op st = Some (r, st')" "recorder_ok st'" "\<not> mMutex st'"
    by (rule run_ubrd_op_ok [OF Cons.prems(1,2) c])
  have "\<exists>st''. run_ubrd ops st' = Some st'' \<and> recorder_ok st'' \<and> \<not> mMutex st''"
    by (rule Cons.IH [OF s(2,3)]) (use Cons.prems(3) in simp)
  then show ?case using s(1) by simp
qed simp

lemma history_ok:
  assumes "ubrd_init mmap create malloc (\<lambda>_. 0) name config cmp = Some st0"
    and "\<forall>op \<in> set ops. call_ok (op_call op)" and "run_ubrd ops st0 = Some st"
  shows "recorder_ok st \<and> \<not> mMutex st"
proof -
  have "recorder_ok st0" "\<not> mMutex st0" using ubrd_init_ok [OF assms(1)] by (auto simp: recorder_ok_def)
  then show ?thesis using run_ubrd_ok [OF _ _ assms(2)] assms(3) by fastforce
qed

section \<open>Properties\<close>

text \<open>
  C1. From the state ubrd_init builds, every history of record and remove calls runs to its
  end: no call follows a bad pointer, frees a block twice, indexes out of range or takes its
  own lock, whatever the allocator refuses, and the mutex is free afterwards.
\<close>

theorem ubrd_never_faults:
  assumes "ubrd_init mmap create malloc (\<lambda>_. 0) name config cmp = Some st0"
    and "\<forall>op \<in> set ops. call_ok (op_call op)"
  shows "\<exists>st. run_ubrd ops st0 = Some st \<and> \<not> mMutex st"
proof -
  have "recorder_ok st0" "\<not> mMutex st0" using ubrd_init_ok [OF assms(1)] by (auto simp: recorder_ok_def)
  then show ?thesis using run_ubrd_ok [OF _ _ assms(2)] by blast
qed

definition toy_malloc :: "u32 set \<Rightarrow> nat \<Rightarrow> u32" where
  "toy_malloc L n = (if 0x1000 \<notin> L then 0x1000 else if 0x2000 \<notin> L then 0x2000
     else if 0x3000 \<notin> L then 0x3000 else if 0x4000 \<notin> L then 0x4000
     else if 0x5000 \<notin> L then 0x5000 else if 0x6000 \<notin> L then 0x6000 else 0)"

lemma toy_malloc_fresh: "fresh_malloc toy_malloc"
  by (simp add: fresh_malloc_def toy_malloc_def)

definition toy_call :: "u32 \<Rightarrow> ubrd_call" where
  "toy_call a = \<lparr>c_malloc = toy_malloc, c_bt = [0x8000, 0x9000], c_addr = a, c_bytes = 64, c_extra = None, c_extralen = 0\<rparr>"

lemma toy_call_ok: "call_ok (toy_call a)"
  by (simp add: call_ok_def toy_call_def toy_malloc_fresh copy_extra_def)

definition toy_state :: ubrd where
  "toy_state = zero_ubrd\<lparr>mConfig := initConfig ''m'' 0x24002020, mMspace := 0x40001890,
     hash_base := 0x1000, ring_base := 0x2000, ring_size := 2048\<rparr>"

lemma toy_config:
  "mRecordWithRingBuf (initConfig ''m'' 0x24002020) = 0" "mEntryRemoveDirectly (initConfig ''m'' 0x24002020) = 0"
  "mRingBufferSize (initConfig ''m'' 0x24002020) = 2048"
  by (simp_all add: initConfig_def Let_def RECORD_WITH_RING_BUF_MASK_def REMOVE_ENTRY_DIRECTLY_MASK_def
      DEFAULT_HISTORICAL_ALLOC_SIZE_def RING_BUFFER_SIZE_MASK_def RING_BUFFER_SIZE_UNIT_def)

lemma toy_init:
  "ubrd_init (\<lambda>_. 0x40000000) (\<lambda>b n. b) toy_malloc (\<lambda>_. 0) ''m'' 0x24002020 None = Some toy_state"
  by (simp add: ubrd_init_def Let_def initTables_def zero_ubrd_def live_def toy_malloc_def UBRD_offset_def
      toy_config toy_state_def fun_eq_iff)

lemma toy_record:
  "\<exists>st1. ubrd_btrace_record toy_malloc [0x8000, 0x9000] toy_state 0x100 64 None 0 = Some (0, st1)
     \<and> mMspace st1 \<noteq> 0 \<and> bts st1 0x3000 \<noteq> None"
  by (simp add: toy_state_def zero_ubrd_def ubrd_btrace_record_def lock_def recordBacktrace_def searchBtEntry_def
      Let_def BT_HASH_TABLE_SIZE_def search_list.simps live_def toy_malloc_def push_bt_def copy_extra_def
      record_entry_def toy_config recordToHashTable_def unlock_def hash_slot_def hash_32_def HASH_TABLE_BITS_def
      HASH_TABLE_SIZE_def)

theorem ubrd_never_faults_witness:
  "\<exists>st. run_ubrd [Record (toy_call 0x100), Remove (toy_call 0x100), Remove (toy_call 0x200)] toy_state = Some st"
proof -
  have "\<exists>st. run_ubrd [Record (toy_call 0x100), Remove (toy_call 0x100), Remove (toy_call 0x200)] toy_state = Some st
      \<and> \<not> mMutex st"
    by (rule ubrd_never_faults [OF toy_init]) (simp add: toy_call_ok)
  then show ?thesis by blast
qed

text \<open>
  C9. On every history the counters of a back-trace entry are exact while the recorder is
  enabled: allocations is the number of current entries that refer to it, free_referenced
  the number of historical ones, and an entry that none refers to does not exist.
\<close>

theorem ubrd_counters_exact:
  assumes "ubrd_init mmap create malloc (\<lambda>_. 0) name config cmp = Some st0"
    and "\<forall>op \<in> set ops. call_ok (op_call op)" and "run_ubrd ops st0 = Some st"
    and "mMspace st \<noteq> 0" and "bts st b = Some n"
  shows "unat (be_allocations n) = card {e. ref_of st e = Some b \<and> e \<notin> old_set st}
    \<and> unat (be_free_referenced n) = card {e \<in> old_set st. ref_of st e = Some b}
    \<and> (be_allocations n \<noteq> 0 \<or> be_free_referenced n \<noteq> 0)"
proof -
  obtain bl hl where inv: "ubrd_inv 0 st bl hl"
    using history_ok [OF assms(1-3)] assms(4) by (auto simp: recorder_ok_def)
  then have tab: "bt_table_ok st bl" and al: "alive 0 (bt.pays (bts st))"
    and cnt: "counted (bt.pays (bts st)) (ref_of st) (dom (hes st) - old_set st) (old_set st) 0"
    by (simp_all add: ubrd_inv_def)
  have b0: "b \<noteq> 0" using bt_table_nonzero [OF tab] assms(5) by auto
  have s: "{e. ref_of st e = Some b \<and> e \<notin> old_set st} = {e \<in> dom (hes st) - old_set st. ref_of st e = Some b}"
    by (auto simp: ref_of_def)
  show ?thesis
    using cnt al pays_at [OF assms(5)] b0 unfolding s counted_def alive_def by fastforce
qed

theorem ubrd_counters_exact_witness:
  "\<exists>st n. run_ubrd [Record (toy_call 0x100)] toy_state = Some st \<and> bts st 0x3000 = Some n
     \<and> unat (be_allocations n) = card {e. ref_of st e = Some 0x3000 \<and> e \<notin> old_set st}"
proof -
  obtain st1 n where st1: "ubrd_btrace_record toy_malloc [0x8000, 0x9000] toy_state 0x100 64 None 0 = Some (0, st1)"
      "mMspace st1 \<noteq> 0" "bts st1 0x3000 = Some n"
    using toy_record by blast
  have run: "run_ubrd [Record (toy_call 0x100)] toy_state = Some st1"
    using st1(1) by (simp add: toy_call_def)
  have "\<forall>op \<in> set [Record (toy_call 0x100)]. call_ok (op_call op)" by (simp add: toy_call_ok)
  from ubrd_counters_exact [OF toy_init this run st1(2,3)] show ?thesis using run st1(3) by blast
qed

lemma removed_mutex [simp]:
  "removed malloc bt (st\<lparr>mMutex := b\<rparr>) e r st' = removed malloc bt st e r st'"
  "removed malloc bt st e r (st'\<lparr>mMutex := b\<rparr>) = removed malloc bt st e r st'"
  by (simp_all add: removed_def live_def)

lemma inv_hash_ok: "ubrd_inv k st bl hl \<Longrightarrow> hash_ok st hl"
  by (simp add: ubrd_inv_def)

text \<open>
  C17. In hash-table mode with the default comparison, what was recorded successfully is what a following remove finds:
  recording put one entry \<open>e\<close> with the address and the size in front of its bucket, removing takes exactly this entry out,
  so that the buckets are those from before, and then frees it or, in the mode that keeps a history, puts it into the next slot
  of the historical table with the trace of its removal and returns 0; when there is no block for that trace it returns
  -1 and the entry is lost.
\<close>

theorem record_then_remove_finds:
  assumes "ubrd_init mmap create malloc (\<lambda>_. 0) name config cmp = Some st0"
    and "\<forall>op \<in> set ops. call_ok (op_call op)" and "run_ubrd ops st0 = Some st"
    and "mRecordWithRingBuf (mConfig st) = 0" and "compareFunc st = Default_compareFunc"
    and "fresh_malloc m1" and "copy_extra extra len \<noteq> None" and "fresh_malloc m2"
    and "ubrd_btrace_record m1 bt st addr bytes extra len = Some (0, st1)" and "mMspace st1 \<noteq> 0"
  shows "\<exists>hl e r st2. hash_ok st hl \<and> hash_ok st1 (hl(hash_slot addr := e # hl (hash_slot addr)))
    \<and> mAddr (entry_key st1 e) = addr \<and> mBytes (entry_key st1 e) = bytes
    \<and> ubrd_btrace_remove m2 bt2 st1 addr bytes2 extra2 len2 = Some (r, st2)
    \<and> hash_ok st2 hl \<and> removed m2 bt2 st1 e r st2"
proof -
  have st: "recorder_ok st" "\<not> mMutex st" using history_ok [OF assms(1-3)] by simp_all
  have hm: "hash_mode st" using assms(4) by (simp add: hash_mode_def)
  have "\<not> mMutex st1 \<and> (\<exists>bl hl bl' e. ubrd_inv 0 st bl hl \<and> ubrd_inv 0 st1 bl' (hl(hash_slot addr := e # hl (hash_slot addr)))
       \<and> mAddr (entry_key st1 e) = addr \<and> mBytes (entry_key st1 e) = bytes \<and> compareFunc st1 = compareFunc st \<and> hash_mode st1 \<and> addr \<noteq> 0)"
    by (rule record_ok [OF st assms(6,7), of bt addr bytes]) (use assms(9,10) hm in auto)
  then obtain bl hl bl' e where inv0: "ubrd_inv 0 st bl hl" and inv: "ubrd_inv 0 st1 bl' (hl(hash_slot addr := e # hl (hash_slot addr)))"
      and e: "mAddr (entry_key st1 e) = addr" "mBytes (entry_key st1 e) = bytes"
      and c: "compareFunc st1 = Default_compareFunc" and hm1: "hash_mode st1"
      and a: "addr \<noteq> 0" and mx: "\<not> mMutex st1" using assms(5) by auto
  let ?hl = "hl(hash_slot addr := e # hl (hash_slot addr))"
  let ?s = "st1\<lparr>mMutex := True\<rparr>"
  let ?k = "\<lparr>mAddr = addr, mBytes = bytes2, mExtraInfoLen = len2, mExtraInfo = extra2\<rparr>"
  have p: "ubrd_inv 0 ?s bl' ?hl" "hash_mode ?s" "mMspace ?s \<noteq> 0"
    using inv hm1 assms(10) by (simp_all only: inv_mutex) (simp_all add: hash_mode_def)
  have match: "compareFunc ?s ?k (entry_key ?s e)" using e c by (simp add: Default_compareFunc_def entry_key_def)
  show ?thesis
  proof (rule remove_locked_ok [OF p(1,2) assms(8) p(3), of bt2 addr bytes2 extra2 len2])
    fix r s' assume r: "remove_locked m2 bt2 ?s addr bytes2 extra2 len2 = Some (r, s')"
      and one: "r = 1 \<longleftrightarrow> (\<forall>x \<in> set (?hl (hash_slot addr)). \<not> compareFunc ?s ?k (entry_key ?s x))"
      and out: "r \<noteq> 1 \<Longrightarrow> \<exists>bl' e'. ubrd_inv 0 s' bl' (?hl(hash_slot addr := remove1 e' (?hl (hash_slot addr)))) \<and> removed m2 bt2 ?s e' r s'
       \<and> e' = hd (filter (\<lambda>x. compareFunc ?s ?k (entry_key ?s x)) (?hl (hash_slot addr)))"
    have "r \<noteq> 1" using one match by auto
    from out [OF this] have o: "hash_ok s' hl" "removed m2 bt2 st1 e r s'"
      using match inv_hash_ok by auto
    have "hash_ok (unlock s') hl" using o(1) by (simp add: unlock_def hash_ok_def hash_mode_def ring_set_def)
    moreover have "removed m2 bt2 st1 e r (unlock s')" using o(2) by (simp add: unlock_def)
    moreover have "ubrd_btrace_remove m2 bt2 st1 addr bytes2 extra2 len2 = Some (r, unlock s')"
      using r remove_via_nolock [OF mx hm1 a assms(10)] by simp
    ultimately show ?thesis using inv_hash_ok [OF inv0] inv_hash_ok [OF inv] e by blast
  qed
qed

theorem record_then_remove_finds_witness:
  "\<exists>st1 hl e r st2. ubrd_btrace_record toy_malloc [0x8000, 0x9000] toy_state 0x100 64 None 0 = Some (0, st1)
     \<and> ubrd_btrace_remove toy_malloc [0x8000] st1 0x100 0 None 0 = Some (r, st2) \<and> hash_ok st2 hl \<and> removed toy_malloc [0x8000] st1 e r st2"
proof -
  obtain st1 where st1: "ubrd_btrace_record toy_malloc [0x8000, 0x9000] toy_state 0x100 64 None 0 = Some (0, st1)"
      "mMspace st1 \<noteq> 0"
    using toy_record by blast
  have "run_ubrd [] toy_state = Some toy_state" "mRecordWithRingBuf (mConfig toy_state) = 0"
    "compareFunc toy_state = Default_compareFunc" "copy_extra None 0 \<noteq> None"
    by (simp_all add: copy_extra_def toy_state_def toy_config zero_ubrd_def)
  from record_then_remove_finds [OF toy_init _ this(1-3) toy_malloc_fresh this(4) toy_malloc_fresh st1, of "[0x8000]" 0 None 0]
  show ?thesis using st1(1) by auto
qed

text \<open>
  Recording a trace either leaves the tables alone (no block left) or returns the entry
  of exactly this trace and size, found or new, with the tables intact and that entry counted
  once more.
\<close>

theorem recordBacktrace_returns_entry:
  assumes "ubrd_inv 0 st bl hl" and "fresh_malloc malloc"
  shows "recordBacktrace malloc bt st sz = Some (0, st)
    \<or> (\<exists>r st' bl' n. recordBacktrace malloc bt st sz = Some (r, st') \<and> r \<noteq> 0 \<and> ubrd_inv r st' bl' hl
        \<and> bts st' r = Some n \<and> be_size n = sz \<and> be_backtrace n = bt)"
proof (rule recordBacktrace_ok [OF assms, of bt sz])
  fix r B S c bl' n
  assume r: "recordBacktrace malloc bt st sz = Some (r, st\<lparr>bts := B, bt_slots := S, bt_count := c\<rparr>)" "r \<noteq> 0"
    "ubrd_inv r (st\<lparr>bts := B, bt_slots := S, bt_count := c\<rparr>) bl' hl" "B r = Some n" "be_size n = sz" "be_backtrace n = bt"
  then show ?thesis by (intro disjI2 exI [of _ r] exI [of _ "st\<lparr>bts := B, bt_slots := S, bt_count := c\<rparr>"]) auto
qed simp

theorem recordBacktrace_returns_entry_witness:
  "\<exists>p. recordBacktrace toy_malloc [0x8000] toy_state 64 = Some p"
proof -
  have "ubrd_inv 0 toy_state (\<lambda>_. []) (\<lambda>_. [])" using ubrd_init_ok [OF toy_init] by simp
  from recordBacktrace_returns_entry [OF this toy_malloc_fresh, of "[0x8000]" 64] show ?thesis by blast
qed

text \<open>
  When the hash entry cannot be allocated the call still returns 0, although nothing was
  recorded and the recorder has switched itself off.
\<close>

theorem record_failure_returns_success:
  "\<exists>malloc st'. fresh_malloc malloc
     \<and> ubrd_btrace_record malloc [0x8000, 0x9000] toy_state 0x100 64 None 0 = Some (0, st')
     \<and> mMspace st' = 0 \<and> hes st' = Map.empty"
proof -
  let ?m = "\<lambda>L n. if n = 20 then 0 else toy_malloc L n"
  have "fresh_malloc ?m" using toy_malloc_fresh by (simp add: fresh_malloc_def)
  moreover have "\<exists>st'. ubrd_btrace_record ?m [0x8000, 0x9000] toy_state 0x100 64 None 0 = Some (0, st')
      \<and> mMspace st' = 0 \<and> hes st' = Map.empty"
    by (simp add: toy_state_def zero_ubrd_def ubrd_btrace_record_def lock_def recordBacktrace_def searchBtEntry_def
      Let_def BT_HASH_TABLE_SIZE_def search_list.simps live_def toy_malloc_def push_bt_def copy_extra_def
      record_entry_def toy_config recordToHashTable_def unlock_def ubrd_clean_exit_def)
  ultimately show ?thesis by blast
qed

end
