(* ===== verification/MmapDebug.thy ===== *)
theory MmapDebug
  imports UbrdMain CLib
begin

text \<open>
  \<open>src/proprietary/external/libudf/mmap_debug/mmap_debug.c\<close>: the wrappers of \<open>mmap\<close> and
  \<open>munmap\<close> that record the back trace of every anonymous mapping with the recorder of
  \<open>ubrd_core\<close>. The C library's functions, the system properties and the heap of the recorder
  are parameters.
\<close>

section \<open>State\<close>

text \<open>
  The static variables: the recorder behind \<open>g_MMAPDebug_PUBRD\<close> (\<open>None\<close> is \<open>NULL\<close>), whether it
  is in use, and which of \<open>mmap_libc_handle\<close>, \<open>real_mmap\<close> and \<open>real_munmap\<close> are set.
\<close>

record mmap_debug =
  g_MMAPDebug_PUBRD :: "ubrd option"
  mmap_debug_inited :: bool
  mmap_libc_handle :: bool
  real_mmap_set :: bool
  real_munmap_set :: bool

definition mmap_debug_start :: mmap_debug where
  "mmap_debug_start = \<lparr>g_MMAPDebug_PUBRD = None, mmap_debug_inited = False,
     mmap_libc_handle = False, real_mmap_set = False, real_munmap_set = False\<rparr>"

text \<open>What \<open>dlopen\<close> and \<open>dlsym\<close> find.\<close>

record dl_env =
  dl_libc :: bool
  dl_mmap :: bool
  dl_munmap :: bool

definition mmap_func_rehook :: "dl_env \<Rightarrow> mmap_debug \<Rightarrow> mmap_debug" where
  "mmap_func_rehook dl d =
     (if \<not> mmap_libc_handle d \<and> \<not> dl_libc dl then d
      else d\<lparr>mmap_libc_handle := True, real_mmap_set := dl_mmap dl, real_munmap_set := dl_munmap dl\<rparr>)"

section \<open>Start up\<close>

definition MMAPDebug_compareFunc :: "entry_info \<Rightarrow> entry_info \<Rightarrow> bool" where
  "MMAPDebug_compareFunc data1 data2 = (mAddr data1 = mAddr data2 \<and> mBytes data1 = mBytes data2)"

text \<open>The system properties (\<open>None\<close> when not set) and the program's name.\<close>

record mmap_props =
  prop_mmap :: "string option"
  prop_program :: "string option"
  prop_config :: "string option"
  progname :: string

definition mmap_debug_wanted :: "mmap_props \<Rightarrow> bool" where
  "mmap_debug_wanted p =
     (let level = (case prop_mmap p of None \<Rightarrow> 0 | Some v \<Rightarrow> atoi v)
      in if level = 0 then False
         else case prop_program p of None \<Rightarrow> True
           | Some prog \<Rightarrow> strstr (progname p) prog \<or> prog = ''all'')"

definition mmap_debug_config :: "mmap_props \<Rightarrow> u64" where
  "mmap_debug_config p =
     (case prop_config p of None \<Rightarrow> 0xa2000010 | Some v \<Rightarrow> strtoull_hex v)"

definition mmap_debug_initialize ::
    "dl_env \<Rightarrow> mmap_props \<Rightarrow> (u32 \<Rightarrow> u32) \<Rightarrow> (u32 \<Rightarrow> u32 \<Rightarrow> u32) \<Rightarrow> (u32 set \<Rightarrow> nat \<Rightarrow> u32)
     \<Rightarrow> mmap_debug \<Rightarrow> mmap_debug" where
  "mmap_debug_initialize dl p map_mspace create_mspace malloc d0 =
     (let d = (if \<not> real_mmap_set d0 then mmap_func_rehook dl d0 else d0)
      in if \<not> mmap_debug_wanted p then d
         else
           let g = ubrd_init map_mspace create_mspace malloc (\<lambda>_. 0) ''MMAPDebug'' (mmap_debug_config p)
                 (Some MMAPDebug_compareFunc)
           in if g \<noteq> None then d\<lparr>g_MMAPDebug_PUBRD := g, mmap_debug_inited := True\<rparr>
              else d\<lparr>g_MMAPDebug_PUBRD := g\<rparr>)"

section \<open>Recording a mapping\<close>

definition mmap_debug_exit :: "ubrd \<Rightarrow> mmap_debug \<Rightarrow> mmap_debug" where
  "mmap_debug_exit st d =
     d\<lparr>mmap_debug_inited := False, g_MMAPDebug_PUBRD := Some (st\<lparr>mMspace := 0\<rparr>)\<rparr>"

text \<open>The exit of the recording after a failure: switched off, then the lock is released.\<close>

definition clean_and_exit :: "ubrd \<Rightarrow> mmap_debug \<Rightarrow> mmap_debug" where
  "clean_and_exit st d =
     (mmap_debug_exit st d)\<lparr>g_MMAPDebug_PUBRD := Some (unlock (st\<lparr>mMspace := 0\<rparr>))\<rparr>"

text \<open>
  The fields of the new \<open>UBRD_EntryInfo\<close> other than address and size are not written:
  \<open>junk\<close> is what the block holds.
\<close>

definition MMAPDebug_btrace_record ::
    "(u32 set \<Rightarrow> nat \<Rightarrow> u32) \<Rightarrow> u32 list \<Rightarrow> entry_info \<Rightarrow> mmap_debug \<Rightarrow> u32 \<Rightarrow> u32 \<Rightarrow> mmap_debug option" where
  "MMAPDebug_btrace_record malloc bt junk d addr bytes =
     (case g_MMAPDebug_PUBRD d of
        None \<Rightarrow> Some d
      | Some st \<Rightarrow>
         if addr = 0 \<or> mMspace st = 0 then Some d
         else do {
           s0 \<leftarrow> lock st;
           (b, s1) \<leftarrow> recordBacktrace malloc bt s0 bytes;
           (if b = 0 then Some (clean_and_exit s1 d)
            else
              let i = malloc (live s1) 16 in
              if i = 0 then Some (clean_and_exit s1 d)
              else do {
                (e, s2) \<leftarrow> recordToHashTable malloc
                  (s1\<lparr>infos := (infos s1)(i \<mapsto> junk\<lparr>mAddr := addr, mBytes := bytes\<rparr>)\<rparr>) addr i b;
                (if e \<noteq> 0 then Some (d\<lparr>g_MMAPDebug_PUBRD := Some (unlock s2)\<rparr>)
                 else Some (clean_and_exit s2 d))
              })
         })"

section \<open>The wrappers\<close>

definition MAP_FAILED :: u32 where "MAP_FAILED = -1"

definition MAP_ANONYMOUS :: int where "MAP_ANONYMOUS = 0x20"

definition PROT_MALLOCFROMBIONIC :: int where "PROT_MALLOCFROMBIONIC = 0x20"

text \<open>A call through a function pointer that is \<open>NULL\<close> is \<open>None\<close>.\<close>

definition dbg_mmap ::
    "dl_env \<Rightarrow> (u32 set \<Rightarrow> nat \<Rightarrow> u32) \<Rightarrow> u32 list \<Rightarrow> entry_info
     \<Rightarrow> (u32 \<Rightarrow> u32 \<Rightarrow> int \<Rightarrow> int \<Rightarrow> int \<Rightarrow> int \<Rightarrow> u32)
     \<Rightarrow> mmap_debug \<Rightarrow> u32 \<Rightarrow> u32 \<Rightarrow> int \<Rightarrow> int \<Rightarrow> int \<Rightarrow> int \<Rightarrow> (u32 \<times> mmap_debug) option" where
  "dbg_mmap dl malloc bt junk real_mmap d0 addr sz prot flags fd off =
     (let d = (if \<not> real_mmap_set d0 then mmap_func_rehook dl d0 else d0)
      in if \<not> real_mmap_set d then None
         else
           let result = real_mmap addr sz prot flags fd off in
           if mmap_debug_inited d \<and> result \<noteq> MAP_FAILED \<and> flags AND MAP_ANONYMOUS \<noteq> 0
               \<and> prot AND PROT_MALLOCFROMBIONIC = 0
           then do { d' \<leftarrow> MMAPDebug_btrace_record malloc bt junk d result sz; Some (result, d') }
           else Some (result, d))"

definition dbg_munmap ::
    "dl_env \<Rightarrow> (u32 set \<Rightarrow> nat \<Rightarrow> u32) \<Rightarrow> u32 list \<Rightarrow> (u32 \<Rightarrow> u32 \<Rightarrow> int)
     \<Rightarrow> mmap_debug \<Rightarrow> u32 \<Rightarrow> u32 \<Rightarrow> (int \<times> mmap_debug) option" where
  "dbg_munmap dl malloc bt real_munmap d0 start len =
     (let d = (if \<not> real_munmap_set d0 then mmap_func_rehook dl d0 else d0)
      in do {
        d' \<leftarrow> (if mmap_debug_inited d then
                 (case g_MMAPDebug_PUBRD d of None \<Rightarrow> Some d
                  | Some st \<Rightarrow> do {
                      (r, s1) \<leftarrow> ubrd_btrace_remove malloc bt st start len None 0;
                      Some (d\<lparr>g_MMAPDebug_PUBRD := Some s1\<rparr>) })
               else Some d);
        (if real_munmap_set d' then Some (real_munmap start len, d') else None)
      })"

section \<open>Safety of the wrappers\<close>

definition mmap_debug_ok :: "mmap_debug \<Rightarrow> bool" where
  "mmap_debug_ok d \<longleftrightarrow>
     (case g_MMAPDebug_PUBRD d of None \<Rightarrow> True | Some st \<Rightarrow> recorder_ok st \<and> \<not> mMutex st)"

lemma exit_ok: "mmap_debug_ok (clean_and_exit st d)"
  by (simp add: mmap_debug_ok_def clean_and_exit_def mmap_debug_exit_def recorder_ok_def unlock_def)

lemma exit_hooks [simp]:
  "real_mmap_set (clean_and_exit st d) = real_mmap_set d"
  "real_munmap_set (clean_and_exit st d) = real_munmap_set d"
  by (simp_all add: clean_and_exit_def mmap_debug_exit_def)

lemma MMAPDebug_btrace_record_ok:
  assumes ok: "mmap_debug_ok d" and fm: "fresh_malloc malloc"
  obtains d' where "MMAPDebug_btrace_record malloc bt junk d addr bytes = Some d'" "mmap_debug_ok d'"
    "real_mmap_set d' = real_mmap_set d" "real_munmap_set d' = real_munmap_set d"
proof (cases "g_MMAPDebug_PUBRD d")
  case None
  then show ?thesis using that ok by (simp add: MMAPDebug_btrace_record_def)
next
  case (Some st)
  note goal = that
  show ?thesis
  proof (cases "addr = 0 \<or> mMspace st = 0")
    case True
    then show ?thesis using that ok Some by (simp add: MMAPDebug_btrace_record_def)
  next
    case False
    then obtain bl hl where inv: "ubrd_inv 0 (st\<lparr>mMutex := True\<rparr>) bl hl" and mx: "\<not> mMutex st"
      using ok Some by (auto simp: mmap_debug_ok_def recorder_ok_def inv_mutex)
    let ?s0 = "st\<lparr>mMutex := True\<rparr>"
    have lk: "lock st = Some ?s0" using mx by (simp add: lock_def)
    have failed: ?thesis
      if "MMAPDebug_btrace_record malloc bt junk d addr bytes = Some (clean_and_exit s d)" for s
      by (rule goal [OF that]) (simp_all add: exit_ok)
    show ?thesis
    proof (rule recordBacktrace_ok [OF inv fm, of bt bytes])
      assume "recordBacktrace malloc bt ?s0 bytes = Some (0, ?s0)"
      then show ?thesis by (intro failed) (use Some False lk in \<open>simp add: MMAPDebug_btrace_record_def\<close>)
    next
      fix r B S c bl' n
      let ?s1 = "?s0\<lparr>bts := B, bt_slots := S, bt_count := c\<rparr>"
      assume r: "recordBacktrace malloc bt ?s0 bytes = Some (r, ?s1)" "r \<noteq> 0" "ubrd_inv r ?s1 bl' hl" "B r = Some n"
      let ?i = "malloc (live ?s1) 16"
      let ?ei = "junk\<lparr>mAddr := addr, mBytes := bytes\<rparr>"
      let ?s2 = "?s1\<lparr>infos := (infos ?s1)(?i \<mapsto> ?ei)\<rparr>"
      have run: "MMAPDebug_btrace_record malloc bt junk d addr bytes =
          (if ?i = 0 then Some (clean_and_exit ?s1 d)
           else do { (e, s2) \<leftarrow> recordToHashTable malloc ?s2 addr ?i r;
             (if e \<noteq> 0 then Some (d\<lparr>g_MMAPDebug_PUBRD := Some (unlock s2)\<rparr>)
              else Some (clean_and_exit s2 d)) })"
        using Some False lk r(1,2) by (simp add: MMAPDebug_btrace_record_def Let_def)
      show ?thesis
      proof (cases "?i = 0")
        case True
        then show ?thesis by (intro failed [of ?s1]) (simp add: run)
      next
        case i0: False
        have fi: "?i \<notin> dom (infos ?s1)" by (rule fresh_live(3) [OF fm i0])
        have inv2: "ubrd_inv r ?s2 bl' hl" by (rule inv_add_info [OF r(3) fi i0])
        show ?thesis
        proof (cases "recordToHashTable malloc ?s2 addr ?i r = Some (0, ?s2)")
          case True
          then show ?thesis using i0 by (intro failed [of ?s2]) (simp add: run)
        next
          case nz: False
          show ?thesis
          proof (cases "hash_mode ?s2")
            case True
            have own: "own_ok ?s1" using r(3) by (simp add: ubrd_inv_def)
            have own_i: "he_mPEntryInfo m \<noteq> ?i" if "hes ?s2 y = Some m" for y m
              using that own_node(3) [OF own, of y m] fi by auto
            have rb: "r \<in> dom (bts ?s2)" using r(4) by auto
            show ?thesis
            proof (rule recordToHashTable_ok [OF inv2 r(2) rb True fm, of ?i ?ei addr])
              fix e s' hl'
              assume e: "recordToHashTable malloc ?s2 addr ?i r = Some (e, s')" "e \<noteq> 0" "ubrd_inv 0 s' bl' hl'"
              then have recorded: "MMAPDebug_btrace_record malloc bt junk d addr bytes
                  = Some (d\<lparr>g_MMAPDebug_PUBRD := Some (unlock s')\<rparr>)" using i0 by (simp add: run)
              have "recorder_ok s'" using e(3) by (auto simp: recorder_ok_def)
              then have "mmap_debug_ok (d\<lparr>g_MMAPDebug_PUBRD := Some (unlock s')\<rparr>)"
                by (simp add: mmap_debug_ok_def recorder_ok_unlock) (simp add: unlock_def)
              then show ?thesis by (rule goal [OF recorded]) simp_all
            qed (use nz own_i in auto)
          next
            case False
            have "hash_base ?s2 = 0" using inv2 False by (simp add: ubrd_inv_def mode_ok_def)
            then show ?thesis using nz by (simp add: recordToHashTable_def Let_def)
          qed
        qed
      qed
    qed
  qed
qed

section \<open>Histories\<close>

text \<open>
  A program after start up: its calls of the two wrappers, each with the recorder's heap, the
  trace and the kernel's answer during the call.
\<close>

record mmap_env =
  m_malloc :: "u32 set \<Rightarrow> nat \<Rightarrow> u32"
  m_bt :: "u32 list"
  m_junk :: entry_info
  m_mmap :: "u32 \<Rightarrow> u32 \<Rightarrow> int \<Rightarrow> int \<Rightarrow> int \<Rightarrow> int \<Rightarrow> u32"
  m_munmap :: "u32 \<Rightarrow> u32 \<Rightarrow> int"

datatype mmap_op =
  Mmap mmap_env u32 u32 int int int int
| Munmap mmap_env u32 u32

fun op_env :: "mmap_op \<Rightarrow> mmap_env" where
  "op_env (Mmap e a n prot flags fd off) = e" | "op_env (Munmap e a n) = e"

text \<open>One call: what it returns, and the state after it.\<close>

fun run_mmap_op :: "dl_env \<Rightarrow> mmap_op \<Rightarrow> mmap_debug \<Rightarrow> (int \<times> mmap_debug) option" where
  "run_mmap_op dl (Mmap e a n prot flags fd off) d =
     map_option (map_prod uint id) (dbg_mmap dl (m_malloc e) (m_bt e) (m_junk e) (m_mmap e) d a n prot flags fd off)"
| "run_mmap_op dl (Munmap e a n) d = dbg_munmap dl (m_malloc e) (m_bt e) (m_munmap e) d a n"

text \<open>What the kernel alone answers.\<close>

fun plain_op :: "mmap_op \<Rightarrow> int" where
  "plain_op (Mmap e a n prot flags fd off) = uint (m_mmap e a n prot flags fd off)"
| "plain_op (Munmap e a n) = m_munmap e a n"

fun run_mmaps :: "dl_env \<Rightarrow> mmap_op list \<Rightarrow> mmap_debug \<Rightarrow> (int list \<times> mmap_debug) option" where
  "run_mmaps dl [] d = Some ([], d)"
| "run_mmaps dl (op # ops) d = do {
     (r, d1) \<leftarrow> run_mmap_op dl op d;
     (rs, d2) \<leftarrow> run_mmaps dl ops d1;
     Some (r # rs, d2) }"

definition hooks_found :: "dl_env \<Rightarrow> bool" where
  "hooks_found dl \<longleftrightarrow> dl_libc dl \<and> dl_mmap dl \<and> dl_munmap dl"

lemma rehook_ok:
  "mmap_debug_ok d \<Longrightarrow> mmap_debug_ok (mmap_func_rehook dl d)"
  "hooks_found dl \<Longrightarrow> real_mmap_set (mmap_func_rehook dl d)"
  "hooks_found dl \<Longrightarrow> real_munmap_set (mmap_func_rehook dl d)"
  by (simp_all add: mmap_func_rehook_def mmap_debug_ok_def hooks_found_def)

lemma run_mmap_op_ok:
  assumes ok: "mmap_debug_ok d" and dl: "hooks_found dl" and fm: "fresh_malloc (m_malloc (op_env op))"
  obtains d' where "run_mmap_op dl op d = Some (plain_op op, d')" "mmap_debug_ok d'"
proof (cases op)
  case (Mmap e a n prot flags fd off)
  define d1 where "d1 = (if \<not> real_mmap_set d then mmap_func_rehook dl d else d)"
  have d1: "mmap_debug_ok d1" "real_mmap_set d1" using ok rehook_ok dl by (auto simp: d1_def)
  have fm': "fresh_malloc (m_malloc e)" using fm Mmap by simp
  let ?r = "m_mmap e a n prot flags fd off"
  obtain d' where "MMAPDebug_btrace_record (m_malloc e) (m_bt e) (m_junk e) d1 ?r n = Some d'" "mmap_debug_ok d'"
    by (rule MMAPDebug_btrace_record_ok [OF d1(1) fm'])
  then show ?thesis
    using that d1 by (cases "mmap_debug_inited d1 \<and> ?r \<noteq> MAP_FAILED \<and> flags AND MAP_ANONYMOUS \<noteq> 0
      \<and> prot AND PROT_MALLOCFROMBIONIC = 0") (auto simp: Mmap dbg_mmap_def Let_def simp flip: d1_def)
next
  case (Munmap e a n)
  define d1 where "d1 = (if \<not> real_munmap_set d then mmap_func_rehook dl d else d)"
  have d1: "mmap_debug_ok d1" "real_munmap_set d1" using ok rehook_ok dl by (auto simp: d1_def)
  have fm': "fresh_malloc (m_malloc e)" using fm Munmap by simp
  show ?thesis
  proof (cases "mmap_debug_inited d1 \<and> g_MMAPDebug_PUBRD d1 \<noteq> None")
    case True
    then obtain st where st: "g_MMAPDebug_PUBRD d1 = Some st" by blast
    then have "recorder_ok st" "\<not> mMutex st" using d1(1) by (simp_all add: mmap_debug_ok_def)
    then obtain r s1 where "ubrd_btrace_remove (m_malloc e) (m_bt e) st a n None 0 = Some (r, s1)"
      "recorder_ok s1" "\<not> mMutex s1" using fm' by (rule remove_ok)
    then show ?thesis using that d1(2) True st
      by (auto simp: Munmap dbg_munmap_def Let_def mmap_debug_ok_def simp flip: d1_def)
  next
    case False
    then show ?thesis using that d1
      by (auto simp: Munmap dbg_munmap_def Let_def simp flip: d1_def split: option.splits)
  qed
qed

lemma initialize_ok:
  "mmap_debug_ok (mmap_debug_initialize dl p map_mspace create malloc mmap_debug_start)"
proof -
  let ?d = "mmap_func_rehook dl mmap_debug_start"
  have s: "mmap_debug_ok ?d" "\<not> real_mmap_set mmap_debug_start"
    by (simp_all add: mmap_func_rehook_def mmap_debug_ok_def mmap_debug_start_def)
  show ?thesis
    using s ubrd_init_ok [of map_mspace create malloc "''MMAPDebug''" "mmap_debug_config p" "Some MMAPDebug_compareFunc"]
    by (auto simp: mmap_debug_initialize_def Let_def mmap_debug_ok_def recorder_ok_def split: option.splits)
qed

section \<open>Properties\<close>

text \<open>
  C28. The debugger is transparent: after start up with any properties, every sequence of mmap
  and munmap calls runs to its end (no bad pointer in the recorder, no lock taken twice) and
  each call returns exactly what the C library's function returns, whether mappings are recorded, the recorder
  is off, could not be created or has switched itself off because its heap is exhausted.
\<close>

theorem mmap_debug_transparent:
  assumes "hooks_found dl" and "\<forall>op \<in> set ops. fresh_malloc (m_malloc (op_env op))"
    and "d = mmap_debug_initialize dl p map_mspace create malloc mmap_debug_start"
  shows "\<exists>d'. run_mmaps dl ops d = Some (map plain_op ops, d')"
proof -
  have "\<exists>d'. run_mmaps dl ops d = Some (map plain_op ops, d')" if "mmap_debug_ok d" for d
    using assms(2) that
  proof (induction ops arbitrary: d)
    case (Cons op ops)
    then have "fresh_malloc (m_malloc (op_env op))" by simp
    then obtain d1 where "run_mmap_op dl op d = Some (plain_op op, d1)" "mmap_debug_ok d1"
      by (rule run_mmap_op_ok [OF Cons.prems(2) assms(1)])
    then show ?case using Cons.IH [of d1] Cons.prems(1) by auto
  qed simp
  then show ?thesis using initialize_ok assms(3) by blast
qed

definition sample_dl :: dl_env where
  "sample_dl = \<lparr>dl_libc = True, dl_mmap = True, dl_munmap = True\<rparr>"

definition sample_props :: mmap_props where
  "sample_props = \<lparr>prop_mmap = Some ''1'', prop_program = None, prop_config = Some ''24002020'', progname = ''app''\<rparr>"

definition sample_env :: mmap_env where
  "sample_env = \<lparr>m_malloc = toy_malloc, m_bt = [0x8000, 0x9000],
     m_junk = \<lparr>mAddr = 0, mBytes = 0, mExtraInfoLen = 0, mExtraInfo = None\<rparr>,
     m_mmap = (\<lambda>a n prot flags fd off. 0x50000000), m_munmap = (\<lambda>a n. 0)\<rparr>"

lemma mmap_debug_transparent_witness:
  "\<exists>d'. run_mmaps sample_dl [Mmap sample_env 0 0x1000 3 0x22 (-1) 0, Munmap sample_env 0x50000000 0x1000]
     (mmap_debug_initialize sample_dl sample_props (\<lambda>_. 0x40000000) (\<lambda>b n. b) toy_malloc mmap_debug_start)
     = Some ([0x50000000, 0], d')"
proof -
  let ?ops = "[Mmap sample_env 0 0x1000 3 0x22 (-1) 0, Munmap sample_env 0x50000000 0x1000]"
  have "hooks_found sample_dl" "\<forall>op \<in> set ?ops. fresh_malloc (m_malloc (op_env op))"
    by (simp_all add: hooks_found_def sample_dl_def sample_env_def toy_malloc_fresh)
  from mmap_debug_transparent [OF this refl] show ?thesis by (simp add: sample_env_def)
qed

text \<open>
  Recording is opt-in: unless the level property is set to a number other than zero and
  the program property, when set, names the program, start up leaves no recorder and every
  mapping goes straight to the C library.
\<close>

theorem mmap_debug_opt_in:
  assumes "\<not> (\<exists>v. prop_mmap p = Some v \<and> atoi v \<noteq> 0
      \<and> (\<forall>prog. prop_program p = Some prog \<longrightarrow> prog = ''all'' \<or> (\<exists>u w. progname p = u @ prog @ w)))"
    and "d = mmap_debug_initialize dl p map_mspace create malloc mmap_debug_start"
  shows "g_MMAPDebug_PUBRD d = None \<and> \<not> mmap_debug_inited d"
proof -
  have "\<not> mmap_debug_wanted p"
    using assms(1)
    by (cases "prop_mmap p"; cases "prop_program p") (simp_all add: mmap_debug_wanted_def strstr_iff Let_def, blast+)
  then show ?thesis
    by (simp add: assms(2) mmap_debug_initialize_def Let_def mmap_func_rehook_def mmap_debug_start_def)
qed

lemma mmap_debug_opt_in_witness:
  "g_MMAPDebug_PUBRD (mmap_debug_initialize sample_dl (sample_props\<lparr>prop_program := Some ''logd''\<rparr>)
     (\<lambda>_. 0x40000000) (\<lambda>b n. b) toy_malloc mmap_debug_start) = None"
proof -
  have "\<not> strstr ''app'' ''logd''" by simp
  then have "\<not> (\<exists>v. prop_mmap (sample_props\<lparr>prop_program := Some ''logd''\<rparr>) = Some v \<and> atoi v \<noteq> 0
      \<and> (\<forall>prog. prop_program (sample_props\<lparr>prop_program := Some ''logd''\<rparr>) = Some prog \<longrightarrow> prog = ''all''
          \<or> (\<exists>u w. progname (sample_props\<lparr>prop_program := Some ''logd''\<rparr>) = u @ prog @ w)))"
    unfolding strstr_iff by (simp add: sample_props_def)
  from mmap_debug_opt_in [OF this refl] show ?thesis by blast
qed

text \<open>
  A configuration with the ring-buffer bit has no hash table, but the wrapper records into the
  hash table only: the first mapping switches the debugger off.
\<close>

lemma ring_mode_switches_off:
  assumes "g_MMAPDebug_PUBRD d = Some st" "addr \<noteq> 0" "mMspace st \<noteq> 0" "\<not> mMutex st"
    "ubrd_inv 0 st bl hl" "\<not> hash_mode st" "fresh_malloc malloc"
  shows "\<exists>d'. MMAPDebug_btrace_record malloc bt junk d addr bytes = Some d' \<and> \<not> mmap_debug_inited d'"
proof -
  let ?s0 = "st\<lparr>mMutex := True\<rparr>"
  have inv: "ubrd_inv 0 ?s0 bl hl" using assms(5) by (simp add: inv_mutex)
  have hb: "hash_base st = 0" using assms(5,6) by (simp add: ubrd_inv_def mode_ok_def)
  have lk: "lock st = Some ?s0" using assms(4) by (simp add: lock_def)
  show ?thesis
  proof (rule recordBacktrace_ok [OF inv assms(7), of bt bytes])
    assume "recordBacktrace malloc bt ?s0 bytes = Some (0, ?s0)"
    then show ?thesis using assms lk by (simp add: MMAPDebug_btrace_record_def clean_and_exit_def mmap_debug_exit_def)
  next
    fix r B S c bl' n
    assume "recordBacktrace malloc bt ?s0 bytes = Some (r, ?s0\<lparr>bts := B, bt_slots := S, bt_count := c\<rparr>)" "r \<noteq> 0"
    then show ?thesis using assms lk hb
      by (simp add: MMAPDebug_btrace_record_def clean_and_exit_def mmap_debug_exit_def recordToHashTable_def Let_def)
  qed
qed

end
