(* ===== verification/ThermalHal.thy ===== *)
theory ThermalHal
  imports CLib
begin

text \<open>
  \<open>src/proprietary/hardware/thermal/thermal_hal.c\<close>: the two readings of the thermal module,
  the temperatures and the processor usage. The files are parameters. A temperature is the
  number \<open>fscanf\<close> finds in the file (millidegrees, integers in the kernel's files); the
  conversion to a float in degrees is left out.
\<close>

section \<open>Temperatures\<close>

datatype temperature_type =
  DEVICE_TEMPERATURE_CPU | DEVICE_TEMPERATURE_GPU | DEVICE_TEMPERATURE_BATTERY | DEVICE_TEMPERATURE_SKIN

record temperature =
  temp_name :: string
  temp_type :: temperature_type
  current_milli :: int
  throttling_threshold :: int
  shutdown_threshold :: int
  vr_throttling_threshold :: int

definition TSCPU_PATH :: string where "TSCPU_PATH = ''/proc/mtktz/mtktscpu''"
definition TSBAT_PATH :: string where "TSBAT_PATH = ''/proc/mtktz/mtktsbattery''"
definition TSGPU_PATH :: string where "TSGPU_PATH = ''/proc/mtktz/mtktscpu''"
definition TSSKIN_PATH :: string where "TSSKIN_PATH = ''/proc/mtktz/mtktsAP''"

text \<open>
  One sensor: nothing happens when the file cannot be opened or holds no number; otherwise the
  entry is stored when it fits, and the index grows in any case.
\<close>

definition put_temperature ::
    "(string \<Rightarrow> int option) \<Rightarrow> string \<Rightarrow> (int \<Rightarrow> temperature) \<Rightarrow> nat
     \<Rightarrow> temperature list option \<times> nat \<Rightarrow> temperature list option \<times> nat" where
  "put_temperature scan path mk sz p =
     (case scan path of None \<Rightarrow> p
      | Some t \<Rightarrow>
         (let (list, idx) = p
          in ((case list of None \<Rightarrow> None
               | Some ts \<Rightarrow> if idx < sz then Some (ts[idx := mk t]) else Some ts), idx + 1)))"

definition mk_temperature :: "string \<Rightarrow> temperature_type \<Rightarrow> int \<Rightarrow> int \<Rightarrow> int \<Rightarrow> temperature" where
  "mk_temperature name ty throttle shut t =
     \<lparr>temp_name = name, temp_type = ty, current_milli = t, throttling_threshold = throttle,
      shutdown_threshold = shut, vr_throttling_threshold = throttle\<rparr>"

text \<open>The first component is the caller's array (\<open>None\<close> is \<open>NULL\<close>), the second the result.\<close>

definition mtk_get_temperatures ::
    "(string \<Rightarrow> int option) \<Rightarrow> temperature list option \<Rightarrow> nat \<Rightarrow> temperature list option \<times> nat" where
  "mtk_get_temperatures scan list sz =
     (let p1 = put_temperature scan TSCPU_PATH (mk_temperature ''CPU_T'' DEVICE_TEMPERATURE_CPU 85 117) sz (list, 0);
          p2 = put_temperature scan TSGPU_PATH (mk_temperature ''GPU_T'' DEVICE_TEMPERATURE_GPU 85 117) sz p1;
          p3 = put_temperature scan TSBAT_PATH (mk_temperature ''BAT_T'' DEVICE_TEMPERATURE_BATTERY 50 60) sz p2
      in put_temperature scan TSSKIN_PATH (mk_temperature ''SKIN_T'' DEVICE_TEMPERATURE_SKIN 50 90) sz p3)"

section \<open>Processor usage\<close>

record cpu_usage =
  cpu_name :: string
  cpu_active :: u64
  cpu_total :: u64
  is_online :: bool

definition CPU_ALL_LABEL :: "string list" where
  "CPU_ALL_LABEL = [''CPU0'', ''CPU1'', ''CPU2'', ''CPU3'', ''CPU4'', ''CPU5'', ''CPU6'', ''CPU7'', ''CPU8'', ''CPU9'']"

text \<open>\<open>%llu\<close> of \<open>sscanf\<close>.\<close>

definition scan_u64 :: "string \<Rightarrow> (u64 \<times> string) option" where
  "scan_u64 s =
     (let (neg, s1) = strip_sign (dropWhile c_isspace s);
          ds = takeWhile (is_digit 10) s1;
          n = digits_val 10 0 ds
      in if ds = [] then None
         else Some (if n > 18446744073709551615 then -1 else if neg then - of_nat n else of_nat n,
                    dropWhile (is_digit 10) s1))"

text \<open>\<open>"%*d-%d"\<close>: the second number.\<close>

definition scan_range :: "string \<Rightarrow> int option" where
  "scan_range s =
     (case scan_d s of None \<Rightarrow> None
      | Some (v, rest) \<Rightarrow>
         (case rest of [] \<Rightarrow> None
          | c # rest' \<Rightarrow> if c = CHR ''-'' then map_option fst (scan_d rest') else None))"

fun scan_u64s :: "nat \<Rightarrow> string \<Rightarrow> u64 list" where
  "scan_u64s 0 s = []"
| "scan_u64s (Suc n) s = (case scan_u64 s of None \<Rightarrow> [] | Some (v, rest) \<Rightarrow> v # scan_u64s n rest)"

text \<open>\<open>sscanf(line, "cpu%d %llu %llu %llu %llu", ...)\<close>: \<open>None\<close> unless all five convert.\<close>

definition scan_cpu_line :: "string \<Rightarrow> (int \<times> u64 list) option" where
  "scan_cpu_line line =
     (case scan_d (drop 3 line) of None \<Rightarrow> None
      | Some (n, rest) \<Rightarrow> (let vs = scan_u64s 4 rest in if length vs = 4 then Some (n, vs) else None))"

definition is_cpu_line :: "string \<Rightarrow> bool" where
  "is_cpu_line line \<longleftrightarrow>
     \<not> (length line < 4 \<or> \<not> strncmp_eq line ''cpu'' 3 \<or> \<not> is_digit 10 (line ! 3))"

text \<open>
  The loop over the lines of \<open>/proc/stat\<close>: the value of an early return, and the array. \<open>err\<close>
  is the value of \<open>errno\<close>.
\<close>

definition io_error :: "int \<Rightarrow> int" where
  "io_error err = (if err \<noteq> 0 then - err else -5)"

definition online_cpu :: "nat \<Rightarrow> u64 list \<Rightarrow> cpu_usage" where
  "online_cpu cpu_num vs =
     (let active = vs ! 0 + vs ! 1 + vs ! 2
      in \<lparr>cpu_name = CPU_ALL_LABEL ! cpu_num, cpu_active = active, cpu_total = active + vs ! 3,
          is_online = True\<rparr>)"

definition offline_cpu :: "nat \<Rightarrow> cpu_usage" where
  "offline_cpu i = \<lparr>cpu_name = CPU_ALL_LABEL ! i, cpu_active = 0, cpu_total = 0, is_online = False\<rparr>"

fun usage_loop :: "int \<Rightarrow> u32 \<Rightarrow> string list \<Rightarrow> cpu_usage list \<Rightarrow> int option \<times> cpu_usage list" where
  "usage_loop err max_core_num [] us = (None, us)"
| "usage_loop err max_core_num (line # lines) us =
     (if \<not> is_cpu_line line then usage_loop err max_core_num lines us
      else
        case scan_cpu_line line of None \<Rightarrow> (Some (io_error err), us)
        | Some (n, vs) \<Rightarrow>
           (let cpu_num = word_of_int n :: u32
            in if cpu_num < max_core_num then
                 usage_loop err max_core_num lines (us[unat cpu_num := online_cpu (unat cpu_num) vs])
               else (Some (io_error err), us)))"

text \<open>
  \<open>get_cpu_usages\<close>: the text of the two files (\<open>Inl\<close> is the \<open>errno\<close> of a failed open), the
  caller's array, what the function returns and the array after it. Fewer places than
  processors is a write past the end of the array: \<open>None\<close>.
\<close>

definition get_cpu_usages ::
    "int + string \<Rightarrow> int + string list \<Rightarrow> int \<Rightarrow> cpu_usage list option
     \<Rightarrow> (int \<times> cpu_usage list option) option" where
  "get_cpu_usages possible stat err list =
     (case possible of Inl en \<Rightarrow> Some (- en, list)
      | Inr text \<Rightarrow>
        (case scan_range text of None \<Rightarrow> Some (-1, list)
         | Some v \<Rightarrow>
           (let max0 = word_of_int v :: u32
            in if max0 + 1 > 10 \<or> max0 + 1 \<le> 0 then Some (-1, list)
               else
                 let max_core_num = max0 + 1
                 in case list of None \<Rightarrow> Some (uint max_core_num, None)
                    | Some us \<Rightarrow>
                      (case stat of Inl en \<Rightarrow> Some (- en, Some us)
                       | Inr lines \<Rightarrow>
                         if length us < unat max_core_num then None
                         else
                           let us0 = map offline_cpu [0..<unat max_core_num] @ drop (unat max_core_num) us
                           in case usage_loop err max_core_num lines us0 of
                                (Some r, us1) \<Rightarrow> Some (r, Some us1)
                              | (None, us1) \<Rightarrow> Some (uint max_core_num, Some us1)))))"

definition get_cooling_devices :: int where
  "get_cooling_devices = 0"

section \<open>Properties\<close>

text \<open>The entries the four sensors give, in the order of the code.\<close>

definition readings :: "(string \<Rightarrow> int option) \<Rightarrow> temperature list" where
  "readings scan = concat (map (\<lambda>(path, mk). case scan path of None \<Rightarrow> [] | Some t \<Rightarrow> [mk t])
     [(TSCPU_PATH, mk_temperature ''CPU_T'' DEVICE_TEMPERATURE_CPU 85 117),
      (TSGPU_PATH, mk_temperature ''GPU_T'' DEVICE_TEMPERATURE_GPU 85 117),
      (TSBAT_PATH, mk_temperature ''BAT_T'' DEVICE_TEMPERATURE_BATTERY 50 60),
      (TSSKIN_PATH, mk_temperature ''SKIN_T'' DEVICE_TEMPERATURE_SKIN 50 90)])"

definition filled :: "temperature list \<Rightarrow> temperature list option \<Rightarrow> nat \<Rightarrow> temperature list option" where
  "filled rs list sz = map_option (\<lambda>ts. take sz rs @ drop (length rs) ts) list"

lemma put_temperature_filled:
  assumes "case list of None \<Rightarrow> True | Some ts \<Rightarrow> length ts = sz"
  shows "put_temperature scan path mk sz (filled rs list sz, length rs) =
    (let rs' = rs @ (case scan path of None \<Rightarrow> [] | Some t \<Rightarrow> [mk t]) in (filled rs' list sz, length rs'))"
proof (cases "scan path")
  case None
  then show ?thesis by (simp add: put_temperature_def)
next
  case (Some t)
  show ?thesis
  proof (cases list)
    case None
    then show ?thesis using Some by (simp add: put_temperature_def filled_def)
  next
    case l: (Some ts)
    have len: "length ts = sz" using assms l by simp
    show ?thesis
    proof (cases "length rs < sz")
      case True
      then obtain x xs where "drop (length rs) ts = x # xs" using len by (cases "drop (length rs) ts") auto
      moreover from this have "xs = drop (Suc (length rs)) ts" by (metis drop_Suc list.sel(3) tl_drop)
      ultimately show ?thesis using True Some l
        by (simp add: put_temperature_def filled_def list_update_append)
    next
      case False
      then show ?thesis using Some l len by (simp add: put_temperature_def filled_def)
    qed
  qed
qed

text \<open>
  \<open>getTemperatures\<close> counts every sensor it could read, whatever the size of the caller's
  array (also without an array), stores the first of them that fit in the order CPU, GPU, battery,
  skin, and leaves the rest of the array alone: a first call with no array gives the size for the second.
\<close>

theorem get_temperatures_counts_and_fills:
  assumes "case list of None \<Rightarrow> True | Some ts \<Rightarrow> length ts = sz"
  shows "mtk_get_temperatures scan list sz = (filled (readings scan) list sz, length (readings scan))"
proof -
  have start: "(list, 0) = (filled [] list sz, length ([] :: temperature list))"
    by (cases list) (simp_all add: filled_def)
  show ?thesis
    unfolding mtk_get_temperatures_def start Let_def put_temperature_filled [OF assms]
    by (simp add: readings_def)
qed

definition sample_sensors :: "string \<Rightarrow> int option" where
  "sample_sensors path = (if path = TSBAT_PATH then None else Some 41000)"

definition sample_array :: "temperature list" where
  "sample_array = replicate 2 (mk_temperature [] DEVICE_TEMPERATURE_CPU 0 0 0)"

lemma get_temperatures_counts_and_fills_witness:
  "mtk_get_temperatures sample_sensors (Some sample_array) 2 =
     (Some [mk_temperature ''CPU_T'' DEVICE_TEMPERATURE_CPU 85 117 41000,
            mk_temperature ''GPU_T'' DEVICE_TEMPERATURE_GPU 85 117 41000], 3)"
  using get_temperatures_counts_and_fills [where list = "Some sample_array" and sz = 2 and scan = sample_sensors]
  by (simp add: filled_def readings_def sample_sensors_def sample_array_def TSCPU_PATH_def TSGPU_PATH_def
      TSBAT_PATH_def TSSKIN_PATH_def)

text \<open>A line of \<open>/proc/stat\<close>: processor, its four counters, and whatever follows them.\<close>

record stat_line =
  sl_cpu :: nat
  sl_user :: nat
  sl_nice :: nat
  sl_system :: nat
  sl_idle :: nat
  sl_rest :: string

definition print_cpu_line :: "stat_line \<Rightarrow> string" where
  "print_cpu_line l = ''cpu'' @ dec_nat (sl_cpu l) @ CHR '' '' # dec_nat (sl_user l) @ CHR '' '' # dec_nat (sl_nice l)
     @ CHR '' '' # dec_nat (sl_system l) @ CHR '' '' # dec_nat (sl_idle l) @ sl_rest l"

definition stat_line_ok :: "nat \<Rightarrow> stat_line \<Rightarrow> bool" where
  "stat_line_ok cores l \<longleftrightarrow> sl_cpu l < cores \<and> sl_user l < 2 ^ 64 \<and> sl_nice l < 2 ^ 64 \<and> sl_system l < 2 ^ 64
     \<and> sl_idle l < 2 ^ 64 \<and> no_digit_first (sl_rest l)"

lemma scan_u64_print:
  assumes "n < 2 ^ 64" "no_digit_first rest"
  shows "scan_u64 (CHR '' '' # dec_nat n @ rest) = Some (of_nat n, rest)"
proof -
  obtain c ds where c: "dec_nat n = c # ds" "is_digit 10 c" by (rule dec_nat_head)
  have "strip_sign (dropWhile c_isspace (CHR '' '' # dec_nat n @ rest)) = (False, dec_nat n @ rest)"
    using c digit_not_special [OF c(2)] by (simp add: strip_sign_def c_isspace_def)
  then show ?thesis using assms take_digits [OF assms(2), of n] dec_nat_digits [of n]
    by (simp add: scan_u64_def)
qed

lemma no_digit_blank [simp]: "no_digit_first (CHR '' '' # s)"
  by (simp add: no_digit_first_def is_digit_def digit_val_def)

lemma scan_d_dec_nat:
  assumes "n < 10" "no_digit_first rest"
  shows "scan_d (dec_nat n @ rest) = Some (int n, rest)"
  using scan_d_sprintf_d [of "int n" rest] assms
  by (simp add: sprintf_d_def int32_def INT32_MIN_def INT32_MAX_def)

lemma scan_printed_line:
  assumes "stat_line_ok cores l" "cores \<le> 10"
  shows "is_cpu_line (print_cpu_line l)"
    "scan_cpu_line (print_cpu_line l) = Some (int (sl_cpu l),
       [of_nat (sl_user l), of_nat (sl_nice l), of_nat (sl_system l), of_nat (sl_idle l)])"
proof -
  obtain c ds where "dec_nat (sl_cpu l) = c # ds" "is_digit 10 c" by (rule dec_nat_head)
  then show "is_cpu_line (print_cpu_line l)"
    by (simp add: is_cpu_line_def print_cpu_line_def strncmp_eq_def)
  have n: "sl_cpu l < 10" using assms by (simp add: stat_line_ok_def)
  have four: "scan_u64s 4 t = scan_u64s (Suc (Suc (Suc (Suc 0)))) t" for t
    by (rule arg_cong [of _ _ "\<lambda>n. scan_u64s n t"]) simp
  show "scan_cpu_line (print_cpu_line l) = Some (int (sl_cpu l),
       [of_nat (sl_user l), of_nat (sl_nice l), of_nat (sl_system l), of_nat (sl_idle l)])"
    using assms(1) unfolding stat_line_ok_def
    by (simp add: scan_cpu_line_def print_cpu_line_def scan_d_dec_nat [OF n] scan_u64_print four)
qed

lemma usage_loop_filter:
  "usage_loop err m lines us = usage_loop err m (filter is_cpu_line lines) us"
  by (induction err m lines us rule: usage_loop.induct) (auto simp: Let_def split: option.splits)

definition stat_values :: "stat_line \<Rightarrow> u64 list" where
  "stat_values l = [of_nat (sl_user l), of_nat (sl_nice l), of_nat (sl_system l), of_nat (sl_idle l)]"

lemma usage_loop_printed:
  assumes "cores \<le> 10" "\<forall>l \<in> set ls. stat_line_ok cores l"
  shows "usage_loop err (of_nat cores) (map print_cpu_line ls) us =
    (None, fold (\<lambda>l us. us[sl_cpu l := online_cpu (sl_cpu l) (stat_values l)]) ls us)"
  using assms(2)
proof (induction ls arbitrary: us)
  case (Cons l ls)
  have ok: "stat_line_ok cores l" using Cons.prems by simp
  have lt: "sl_cpu l < cores" "sl_cpu l < 4294967296" "cores < 4294967296" using ok assms(1) by (auto simp: stat_line_ok_def)
  then have u: "unat (of_nat (sl_cpu l) :: u32) = sl_cpu l" "(of_nat (sl_cpu l) :: u32) < of_nat cores"
    by (simp_all add: unat_of_nat word_less_nat_alt)
  show ?case
    using Cons scan_printed_line [OF ok assms(1)] u
    by (simp add: stat_values_def Let_def)
qed simp

lemma fold_online:
  assumes "distinct (map sl_cpu ls)" "\<forall>l \<in> set ls. sl_cpu l < length us"
  shows "length (fold (\<lambda>l us. us[sl_cpu l := f l]) ls us) = length us"
    "\<And>l. l \<in> set ls \<Longrightarrow> fold (\<lambda>l us. us[sl_cpu l := f l]) ls us ! sl_cpu l = f l"
    "\<And>k. k \<notin> sl_cpu ` set ls \<Longrightarrow> fold (\<lambda>l us. us[sl_cpu l := f l]) ls us ! k = us ! k"
  using assms
proof (induction ls arbitrary: us)
  case (Cons a ls)
  {
    case 1
    then show ?case using Cons.IH(1) [of "us[sl_cpu a := f a]"] by simp
  next
    case (2 l)
    show ?case
    proof (cases "l = a")
      case True
      have "sl_cpu a \<notin> sl_cpu ` set ls" using 2(2) by auto
      then show ?thesis using Cons.IH(3) [of "sl_cpu a" "us[sl_cpu a := f a]"] 2 True by simp
    next
      case False
      then show ?thesis using Cons.IH(2) [of l "us[sl_cpu a := f a]"] 2 by simp
    qed
  next
    case (3 k)
    then show ?case using Cons.IH(3) [of k "us[sl_cpu a := f a]"] by simp
  }
qed simp_all

text \<open>
  \<open>getCpuUsages\<close> reads \<open>/proc/stat\<close> right: whatever lines stand between those of the
  processors, each processor with a line gets its name, the sum of its user, nice and system
  counters, that sum plus the idle counter (64-bit sums), and is online; every other one up to the
  number of processors the device can have is reported offline with zero counters.
\<close>

theorem get_cpu_usages_reads_stat:
  assumes "filter is_cpu_line lines = map print_cpu_line ls" "\<forall>l \<in> set ls. stat_line_ok (Suc lastcpu) l"
    and "distinct (map sl_cpu ls)" "lastcpu < 10" "Suc lastcpu \<le> length us" "no_digit_first tail"
  shows "\<exists>us1. get_cpu_usages (Inr (''0-'' @ dec_nat lastcpu @ tail)) (Inr lines) err (Some us) = Some (int (Suc lastcpu), Some us1)
    \<and> (\<forall>l \<in> set ls. us1 ! sl_cpu l = \<lparr>cpu_name = CPU_ALL_LABEL ! sl_cpu l,
         cpu_active = of_nat (sl_user l + sl_nice l + sl_system l),
         cpu_total = of_nat (sl_user l + sl_nice l + sl_system l + sl_idle l), is_online = True\<rparr>)
    \<and> (\<forall>k < Suc lastcpu. k \<notin> sl_cpu ` set ls \<longrightarrow> us1 ! k = offline_cpu k)"
proof -
  have range: "scan_range (''0-'' @ dec_nat lastcpu @ tail) = Some (int lastcpu)"
    using scan_d_dec_nat [OF assms(4,6)]
    by (simp add: scan_range_def scan_d_def [of "CHR ''0'' # _"] strip_sign_def c_isspace_def is_digit_def digit_val_def
        clamp_int_def INT32_MIN_def INT32_MAX_def)
  have w: "(of_nat lastcpu :: u32) + 1 = of_nat (Suc lastcpu)" by simp
  have n: "unat (of_nat (Suc lastcpu) :: u32) = Suc lastcpu" "uint (of_nat (Suc lastcpu) :: u32) = int (Suc lastcpu)"
    using assms(4) by (simp_all only: unat_of_nat uint_nat) (simp_all add: take_bit_nat_eq_self)
  have lim: "\<not> ((of_nat lastcpu :: u32) + 1 > 10 \<or> (of_nat lastcpu :: u32) + 1 \<le> 0)"
    unfolding w using n(1) assms(4) by (simp add: word_le_nat_alt word_less_nat_alt del: of_nat_Suc)
  define us0 where "us0 = map offline_cpu [0..<Suc lastcpu] @ drop (Suc lastcpu) us"
  define us1 where "us1 = fold (\<lambda>l us. us[sl_cpu l := online_cpu (sl_cpu l) (stat_values l)]) ls us0"
  have loop: "usage_loop err (of_nat (Suc lastcpu)) lines us0 = (None, us1)"
    unfolding usage_loop_filter [of _ _ lines] assms(1) us1_def
    by (rule usage_loop_printed [OF _ assms(2)]) (use assms(4) in simp)
  have run: "get_cpu_usages (Inr (''0-'' @ dec_nat lastcpu @ tail)) (Inr lines) err (Some us) = Some (int (Suc lastcpu), Some us1)"
    unfolding get_cpu_usages_def sum.case range option.case Let_def of_int_of_nat_eq if_not_P [OF lim]
    unfolding w n us0_def [symmetric] loop using assms(5) by simp
  have len: "length us0 = length us" "\<forall>l \<in> set ls. sl_cpu l < length us0"
    using assms(2,5) by (auto simp: us0_def stat_line_ok_def)
  note online = fold_online [OF assms(3) len(2), where f = "\<lambda>l. online_cpu (sl_cpu l) (stat_values l)", folded us1_def]
  show ?thesis
  proof (intro exI conjI ballI allI impI, rule run)
    fix l assume "l \<in> set ls"
    then show "us1 ! sl_cpu l = \<lparr>cpu_name = CPU_ALL_LABEL ! sl_cpu l,
         cpu_active = of_nat (sl_user l + sl_nice l + sl_system l),
         cpu_total = of_nat (sl_user l + sl_nice l + sl_system l + sl_idle l), is_online = True\<rparr>"
      using online(2) [of l] by (simp add: online_cpu_def stat_values_def Let_def)
  next
    fix k assume "k < Suc lastcpu" "k \<notin> sl_cpu ` set ls"
    then show "us1 ! k = offline_cpu k" using online(3) [of k] by (simp add: us0_def nth_append del: upt_Suc)
  qed
qed

definition sample_line :: stat_line where
  "sample_line = \<lparr>sl_cpu = 1, sl_user = 7, sl_nice = 0, sl_system = 5, sl_idle = 9, sl_rest = '' 3''\<rparr>"

lemma get_cpu_usages_reads_stat_witness:
  "\<exists>us1. get_cpu_usages (Inr ''0-1'') (Inr [''cpu  7 0 5 9 3'', ''cpu1 7 0 5 9 3'', ''intr 8'']) 0
       (Some (replicate 2 (offline_cpu 9))) = Some (2, Some us1)
     \<and> cpu_total (us1 ! 1) = 21 \<and> us1 ! 0 = offline_cpu 0"
proof -
  have p: "print_cpu_line sample_line = ''cpu1 7 0 5 9 3''" "dec_nat 1 = ''1''"
    by (simp_all add: print_cpu_line_def sample_line_def dec_nat.simps char_of_def bit_Suc_0_iff)
  have f: "filter is_cpu_line [''cpu  7 0 5 9 3'', ''cpu1 7 0 5 9 3'', ''intr 8''] = map print_cpu_line [sample_line]"
    by (simp add: p is_cpu_line_def strncmp_eq_def is_digit_def digit_val_def)
  have ok: "\<forall>l \<in> set [sample_line]. stat_line_ok (Suc 1) l" "distinct (map sl_cpu [sample_line])"
    by (simp_all add: stat_line_ok_def sample_line_def)
  obtain us1 where "get_cpu_usages (Inr (''0-'' @ dec_nat 1 @ [])) (Inr [''cpu  7 0 5 9 3'', ''cpu1 7 0 5 9 3'', ''intr 8'']) 0
        (Some (replicate 2 (offline_cpu 9))) = Some (int (Suc 1), Some us1)"
      "cpu_total (us1 ! sl_cpu sample_line) = of_nat (7 + 0 + 5 + 9)" "us1 ! 0 = offline_cpu 0"
    using get_cpu_usages_reads_stat [OF f ok, of "replicate 2 (offline_cpu 9)" "[]" 0]
    by (auto simp: sample_line_def)
  then show ?thesis using p(2) by (simp add: sample_line_def)
qed

end
