(* ===== verification/Thermal.thy ===== *)
theory Thermal
  imports CLib
begin

text \<open>
  \<open>src/proprietary/external/thermal/thermal.c\<close>: the thermal daemon. The kernel asks for a
  throttle with a signal whose \<open>si_errno\<close> names the client and whose \<open>si_code\<close> is the level;
  in between the daemon exchanges temperatures and thresholds with the modem through the
  socket of rild. The model is the build with \<open>MTK_THERMAL_PA_VIA_ATCMD\<close>, in which
  everything but the code under \<open>#if 0\<close> and \<open>NEVER\<close> is compiled. Sockets, timers, the
  proc files and the loaded libraries are parameters. A C \<open>int\<close> is an integer: the code does
  no arithmetic that could overflow.
\<close>

section \<open>State\<close>

text \<open>\<open>struct itimerspec\<close>: first expiry and period in seconds, 0 to disarm.\<close>

record itimer =
  it_value :: int
  it_interval :: int

text \<open>What the daemon does to its surroundings, in order.\<close>

datatype thermal_event =
  LinkChecked string bool \<comment> \<open>an interface, and whether its throttle would be set\<close>
| PolicyLoaded string bool
| Sent "u8 list"
| RpcRequest int int
| ProcWrite string string

record thermal =
  cur_thro :: int
  md_cur_thro :: int
  md_cur_dthro :: int
  md_cur_toggle_thro :: int
  tp_cur_thermal_policy :: int
  level_timeout :: int
  mHandle :: bool
  sendRpcRequest :: bool
  events :: "thermal_event list"

definition stopped :: itimer where
  "stopped = \<lparr>it_value = 0, it_interval = 0\<rparr>"

definition thermal_start :: thermal where
  "thermal_start = \<lparr>cur_thro = 0, md_cur_thro = 0, md_cur_dthro = 0, md_cur_toggle_thro = 0,
     tp_cur_thermal_policy = 0, level_timeout = 10, mHandle = False, sendRpcRequest = False, events = []\<rparr>"

text \<open>
  What one call finds: the \<open>operstate\<close> of an interface (\<open>None\<close> when the file cannot be read),
  whether \<open>timer_settime\<close> faults on a handle that no \<open>timer_create\<close> filled in (a C library may
  follow the null handle or answer -1 with \<open>EINVAL\<close>), what \<open>dlopen\<close>, \<open>dlsym\<close> and the loaded
  functions answer, the radio configuration property, the results of the attempts to
  connect to rild and of the three \<open>send\<close> calls of a message.
\<close>

record thermal_env =
  te_operstate :: "string \<Rightarrow> string option"
  te_settime_faults :: bool
  te_dlopen :: bool
  te_dlsym :: bool
  te_change_policy :: "string \<Rightarrow> bool \<Rightarrow> int"
  te_rat_config :: string
  te_rpc :: "int \<Rightarrow> int \<Rightarrow> int"
  te_connects :: "int list"
  te_sends :: "int \<times> int \<times> int"

definition log_events :: "thermal_event list \<Rightarrow> thermal \<Rightarrow> thermal" where
  "log_events es st = st\<lparr>events := events st @ es\<rparr>"

section \<open>The library for CDMA modems\<close>

definition isC2kSupport :: "thermal_env \<Rightarrow> bool" where
  "isC2kSupport e = strstr (te_rat_config e) ''C''"

definition RilRPC_release :: "thermal \<Rightarrow> thermal" where
  "RilRPC_release st = st\<lparr>mHandle := False, sendRpcRequest := False\<rparr>"

definition RilRPC_init :: "thermal_env \<Rightarrow> thermal \<Rightarrow> thermal" where
  "RilRPC_init e st =
     (let st1 = st\<lparr>mHandle := te_dlopen e\<rparr>
      in if \<not> mHandle st1 then st1
         else
           let st2 = st1\<lparr>sendRpcRequest := te_dlsym e\<rparr>
           in if \<not> sendRpcRequest st2 then RilRPC_release st2 else st2)"

definition RilRPC_send :: "thermal_env \<Rightarrow> int \<Rightarrow> int \<Rightarrow> thermal \<Rightarrow> int \<times> thermal" where
  "RilRPC_send e v1 v2 st =
     (if sendRpcRequest st then (te_rpc e v1 v2, log_events [RpcRequest v1 v2] st) else (1, st))"

section \<open>Throttling the interfaces\<close>

text \<open>
  The calls that set the throttle are commented out; what is left is the check of the links.
\<close>

definition IFC_NAME :: "string list" where "IFC_NAME = [''wlan0'', ''ap0'', ''p2p0'']"

definition MD_IFC_NAME :: "string list" where
  "MD_IFC_NAME = [''ccemni0'', ''ccemni1'', ''ccemni2'', ''ccmni'']"

definition IFC_PATH :: "string \<Rightarrow> string" where
  "IFC_PATH name = ''/sys/class/net/'' @ name @ ''/operstate''"

definition check_links :: "(string \<Rightarrow> bool) \<Rightarrow> string list \<Rightarrow> thermal_env \<Rightarrow> thermal_event list" where
  "check_links up names e =
     concat (map (\<lambda>n. case te_operstate e (IFC_PATH n) of None \<Rightarrow> [] | Some s \<Rightarrow> [LinkChecked n (up s)]) names)"

definition set_wifi_throttle :: "thermal_env \<Rightarrow> int \<Rightarrow> thermal \<Rightarrow> thermal" where
  "set_wifi_throttle e level = log_events (check_links (\<lambda>s. strncmp_eq s ''up'' 2) IFC_NAME e)"

definition set_md_ul_throttle :: "thermal_env \<Rightarrow> int \<Rightarrow> thermal \<Rightarrow> thermal" where
  "set_md_ul_throttle e level = log_events (check_links (\<lambda>s. \<not> strncmp_eq s ''down'' 4) MD_IFC_NAME e)"

section \<open>The duty cycle of the uplink\<close>

text \<open>
  Nothing creates the two timers: \<open>thermal_create_timers\<close> is under \<open>#if 0\<close> and its call in \<open>main\<close> is
  commented out, so \<open>base_timer\<close> and \<open>level_timer\<close> stay the null handles they are initialised to. No
  call of \<open>timer_settime\<close> arms or stops anything, and \<open>timer_thread\<close> is never called.
\<close>

definition set_base_timer :: "thermal_env \<Rightarrow> itimer \<Rightarrow> int outcome" where
  "set_base_timer e it = (if te_settime_faults e then Fault else Ok (-1))"

definition set_level_timer :: "thermal_env \<Rightarrow> itimer \<Rightarrow> int outcome" where
  "set_level_timer e it = (if te_settime_faults e then Fault else Ok (-1))"

definition timer_thread :: "thermal_env \<Rightarrow> int \<Rightarrow> thermal \<Rightarrow> thermal outcome" where
  "timer_thread e sival st =
     (if sival = 111 then
        let st1 = set_md_ul_throttle e (-1) st
        in bindo (set_base_timer e \<lparr>it_value = 10, it_interval = 10\<rparr>) (\<lambda>r1.
           bindo (set_level_timer e \<lparr>it_value = level_timeout st1, it_interval = 10\<rparr>) (\<lambda>r2. Ok st1))
      else if sival = 222 then Ok (set_md_ul_throttle e 1 st)
      else Ok st)"

definition reset_timers :: "thermal_env \<Rightarrow> thermal \<Rightarrow> (int \<times> thermal) outcome" where
  "reset_timers e st =
     (let st1 = set_md_ul_throttle e (-1) st
      in bindo (set_base_timer e \<lparr>it_value = 10, it_interval = 10\<rparr>) (\<lambda>r1.
         if r1 = -1 then Ok (-1, st1)
         else bindo (set_level_timer e \<lparr>it_value = level_timeout st1, it_interval = 10\<rparr>) (\<lambda>r2.
           if r2 = -1 then Ok (-1, st1) else Ok (0, st1))))"

definition stop_timers :: "thermal_env \<Rightarrow> thermal \<Rightarrow> (int \<times> thermal) outcome" where
  "stop_timers e st =
     bindo (set_base_timer e stopped) (\<lambda>r1.
       if r1 = -1 then Ok (-1, st)
       else bindo (set_level_timer e stopped) (\<lambda>r2. if r2 = -1 then Ok (-1, st) else Ok (0, st)))"

definition set_md_dul_throttle :: "thermal_env \<Rightarrow> int \<Rightarrow> thermal \<Rightarrow> thermal outcome" where
  "set_md_dul_throttle e level st =
     (if level \<ge> 1 \<and> level < 10 then
        bindo (reset_timers e (st\<lparr>level_timeout := level\<rparr>)) (\<lambda>(r, st1). Ok st1)
      else if level = 10 then bindo (stop_timers e (set_md_ul_throttle e (-1) st)) (\<lambda>(r, st1). Ok st1)
      else Ok st)"

section \<open>Loading a policy\<close>

text \<open>\<open>snprintf\<close> into a buffer of \<open>n\<close> characters: what fits in front of the terminator.\<close>

definition snprintf :: "nat \<Rightarrow> string \<Rightarrow> string" where
  "snprintf n s = take (n - 1) s"

text \<open>\<open>%02d\<close>\<close>

definition sprintf_02d :: "int \<Rightarrow> string" where
  "sprintf_02d v =
     (if v < 0 then CHR ''-'' # dec_nat (nat (- v))
      else (if v < 10 then CHR ''0'' # dec_nat (nat v) else dec_nat (nat v)))"

definition policy_name :: "int \<Rightarrow> string" where
  "policy_name idx = snprintf 18 (''thermal_policy_'' @ sprintf_02d idx @ [CHR 0x0A])"

definition load_thm_api :: "thermal_env \<Rightarrow> int \<Rightarrow> bool \<Rightarrow> thermal \<Rightarrow> int \<times> thermal" where
  "load_thm_api e idx start st =
     (if \<not> te_dlopen e then (-1, st)
      else if \<not> te_dlsym e then (-1, st)
      else
        let st1 = log_events [PolicyLoaded (policy_name idx) start] st
        in if te_change_policy e (policy_name idx) start < 0 then (-1, st1) else (0, st1))"

section \<open>Messages to rild\<close>

text \<open>
  A message is three \<open>send\<close> calls: the number of strings (always 1), the length of the text
  with its terminator, the text. \<open>int_bytes\<close> is the memory of a 32-bit \<open>int\<close>.
\<close>

definition int_bytes :: "nat \<Rightarrow> u8 list" where
  "int_bytes n = map (\<lambda>k. of_nat (n div 256 ^ k)) [0, 1, 2, 3]"

definition text_bytes :: "string \<Rightarrow> u8 list" where
  "text_bytes s = map (\<lambda>c. of_nat (of_char c)) s @ [0]"

definition accepted :: "int \<Rightarrow> u8 list \<Rightarrow> thermal_event list" where
  "accepted r bs = (if r \<le> 0 then [] else [Sent (take (nat r) bs)])"

definition send_text :: "thermal_env \<Rightarrow> string \<Rightarrow> int \<times> thermal_event list" where
  "send_text e s =
     (let (r1, r2, r3) = te_sends e;
          strLen = length s + 1;
          ev1 = accepted r1 (int_bytes 1);
          ev2 = accepted r2 (int_bytes strLen);
          ev3 = accepted r3 (text_bytes s)
      in if r1 \<noteq> 4 then (-4, ev1)
         else if r2 \<noteq> 4 then (-3, ev1 @ ev2)
         else if r3 \<noteq> int strLen then (-5, ev1 @ ev2 @ ev3)
         else (0, ev1 @ ev2 @ ev3))"

text \<open>\<open>Fault\<close> is the failed assertion on the socket.\<close>

definition with_socket :: "int \<Rightarrow> 'a \<Rightarrow> 'a outcome" where
  "with_socket sock x = (if sock > 0 then Ok x else Fault)"

definition setMdTpThreshold :: "thermal_env \<Rightarrow> int \<Rightarrow> int \<Rightarrow> int \<Rightarrow> int \<Rightarrow> (int \<times> thermal_event list) outcome" where
  "setMdTpThreshold e sock slotId sensorType threshold =
     with_socket sock (send_text e (snprintf 64 (''THERMAL,'' @ sprintf_d slotId @ '',0,''
       @ sprintf_d sensorType @ '','' @ sprintf_d threshold @ [CHR 0x0A])))"

definition queryMdThermalInfo :: "thermal_env \<Rightarrow> int \<Rightarrow> int \<Rightarrow> int \<Rightarrow> (int \<times> thermal_event list) outcome" where
  "queryMdThermalInfo e sock slotId opcode =
     with_socket sock (send_text e (snprintf 32 (''THERMAL,'' @ sprintf_d slotId @ '','' @ sprintf_d opcode @ [CHR 0x0A])))"

definition MdToggle :: "thermal_env \<Rightarrow> int \<Rightarrow> int \<Rightarrow> (int \<times> thermal_event list) outcome" where
  "MdToggle e sock state =
     with_socket sock (send_text e (snprintf 32 (''MDTM_TOG,'' @ sprintf_d state @ [CHR 0x0A])))"

text \<open>
  The loops around \<open>RildConnect\<close> and \<open>connectToRild\<close>: attempts are made until one returns
  something other than -1; \<open>Fail\<close> when the list of attempts ends first (the daemon waits).
\<close>

fun connect_loop :: "int list \<Rightarrow> int outcome" where
  "connect_loop [] = Fail"
| "connect_loop (sock # rest) = (if sock = -1 then connect_loop rest else Ok sock)"

definition RIL_REQUEST_SET_MODEM_THERMAL :: int where
  "RIL_REQUEST_SET_MODEM_THERMAL = 10000"

definition set_md_toggle_throttle :: "thermal_env \<Rightarrow> int \<Rightarrow> thermal \<Rightarrow> (int \<times> thermal) outcome" where
  "set_md_toggle_throttle e level st =
     (let state = (if level = 0 then 1 else 0)
      in bindo (connect_loop (te_connects e)) (\<lambda>sock.
         bindo (MdToggle e sock state) (\<lambda>(ret, evs).
           let st1 = log_events evs st
           in if isC2kSupport e \<and> sendRpcRequest st1
              then Ok (RilRPC_send e RIL_REQUEST_SET_MODEM_THERMAL state st1)
              else Ok (ret, st1))))"

section \<open>The signal handler\<close>

definition SIGIO :: int where "SIGIO = 29"

text \<open>The five clients by \<open>si_errno\<close>, each step as far as it is guarded by its \<open>if\<close>.\<close>

definition wifi_step :: "thermal_env \<Rightarrow> int \<Rightarrow> int \<Rightarrow> thermal \<Rightarrow> int \<times> thermal" where
  "wifi_step e err set_thro st =
     (if cur_thro st \<noteq> set_thro \<and> err = 0 then
        let set_thro = (if set_thro \<ge> 0 \<and> set_thro < 1000 then 1000 else set_thro)
        in (set_thro, (set_wifi_throttle e set_thro st)\<lparr>cur_thro := set_thro\<rparr>)
      else (set_thro, st))"

definition md_ul_step :: "thermal_env \<Rightarrow> int \<Rightarrow> int \<Rightarrow> thermal \<Rightarrow> int \<times> thermal" where
  "md_ul_step e err set_thro st =
     (if err = 1 \<and> md_cur_thro st \<noteq> set_thro then
        let set_thro = (if set_thro = 0 then 1 else set_thro)
        in (set_thro, (set_md_ul_throttle e set_thro st)\<lparr>md_cur_thro := set_thro\<rparr>)
      else (set_thro, st))"

definition md_dul_step :: "thermal_env \<Rightarrow> int \<Rightarrow> int \<Rightarrow> thermal \<Rightarrow> thermal outcome" where
  "md_dul_step e err set_thro st =
     (if err = 2 \<and> md_cur_dthro st \<noteq> set_thro
      then bindo (set_md_dul_throttle e set_thro st) (\<lambda>st1. Ok (st1\<lparr>md_cur_dthro := set_thro\<rparr>))
      else Ok st)"

definition toggle_step :: "thermal_env \<Rightarrow> int \<Rightarrow> int \<Rightarrow> thermal \<Rightarrow> thermal outcome" where
  "toggle_step e err set_thro st =
     (if err = 3 \<and> md_cur_toggle_thro st \<noteq> set_thro then
        bindo (set_md_toggle_throttle e set_thro st) (\<lambda>(ret, st1).
          Ok (if ret = 0 then st1\<lparr>md_cur_toggle_thro := set_thro\<rparr> else st1))
      else Ok st)"

definition policy_step :: "thermal_env \<Rightarrow> int \<Rightarrow> int \<Rightarrow> thermal \<Rightarrow> thermal" where
  "policy_step e err set_thro st =
     (if err = 4 \<and> tp_cur_thermal_policy st \<noteq> set_thro then
        (let TP_switch = drop_bit 8 (set_thro AND 0xFF00);
             TP_idx = set_thro AND 0x00FF
         in snd (load_thm_api e TP_idx (TP_switch \<noteq> 0) (st\<lparr>tp_cur_thermal_policy := set_thro\<rparr>)))
      else st)"

definition signal_handler :: "thermal_env \<Rightarrow> int \<Rightarrow> int \<Rightarrow> int \<Rightarrow> thermal \<Rightarrow> thermal outcome" where
  "signal_handler e signo err code st =
     (if signo = SIGIO then
        (let (s1, st1) = wifi_step e err code st;
             (s2, st2) = md_ul_step e err s1 st1
         in bindo (md_dul_step e err s2 st2) (\<lambda>st3.
            bindo (toggle_step e err s2 st3) (\<lambda>st4. Ok (policy_step e err s2 st4))))
      else Ok st)"

section \<open>Answers of the modem\<close>

text \<open>
  One \<open>recv\<close>: its result and the characters it stored, which proc files can be opened, and
  what \<open>write\<close> returns.
\<close>

record recv_env =
  rv_ret :: int
  rv_data :: string
  rv_mdinfo_open :: bool
  rv_mdinfoex_open :: bool
  rv_write :: "string \<Rightarrow> string \<Rightarrow> int"

definition MDINFO :: string where "MDINFO = ''/proc/driver/thermal/mdm_mdinfo''"

definition MDINFOEX :: string where "MDINFOEX = ''/proc/driver/thermal/mdm_mdinfoex''"

definition COMMA :: scan_item where "COMMA = Literal (CHR '','')"

definition urc_format :: "scan_item list" where
  "urc_format = map Literal ''URC,'' @ [Field, COMMA, Field]"

definition info_format :: "scan_item list" where
  "info_format = [Field, COMMA, Field, COMMA, Field, COMMA, Field, COMMA, Field, COMMA, Field]"

definition info_format_no_tx :: "scan_item list" where
  "info_format_no_tx = [Field, COMMA, Field, COMMA, COMMA, Field, COMMA, Field, COMMA, Field]"

text \<open>The \<open>k\<close>-th conversion, or what the variable held before.\<close>

definition field :: "int list \<Rightarrow> nat \<Rightarrow> int \<Rightarrow> int" where
  "field vs k old = (if k < length vs then vs ! k else old)"

fun print_fields :: "int list \<Rightarrow> string" where
  "print_fields [] = []"
| "print_fields [v] = sprintf_d v"
| "print_fields (v # vs) = sprintf_d v @ CHR '','' # print_fields vs"

definition sensor_index :: "int \<Rightarrow> int" where
  "sensor_index sensorType =
     (if sensorType = 0 then 1 else if sensorType = 1 then 0 else if sensorType = 2 then 2 else -1)"

text \<open>The branch of an unsolicited report: the value returned and the writes.\<close>

definition recv_urc :: "recv_env \<Rightarrow> string \<Rightarrow> int \<times> thermal_event list" where
  "recv_urc rv strParm =
     (let vs = sscanf urc_format strParm
      in if length vs = 2 then
           (let idx = sensor_index (vs ! 0)
            in (0, if idx > -1 \<and> rv_mdinfoex_open rv
                   then [ProcWrite MDINFOEX (print_fields [idx, vs ! 1])] else []))
         else (-1, []))"

text \<open>The branch of an answer to a query; \<open>ret\<close> is overwritten by each write.\<close>

definition recv_info :: "recv_env \<Rightarrow> int \<Rightarrow> string \<Rightarrow> int \<times> thermal_event list" where
  "recv_info rv slotId strParm =
     (let vs1 = sscanf info_format strParm;
          no_tx = (length vs1 = 2);
          vs = (if no_tx then sscanf info_format_no_tx strParm else vs1);
          tok = length vs;
          md = field vs 0 (field vs1 0 0);
          temp = field vs 1 (field vs1 1 32767);
          tx = (if no_tx then -127 else field vs 2 (-127));
          opval0 = (if no_tx then field vs 2 0 else field vs 3 0);
          opval1 = (if no_tx then field vs 3 0 else field vs 4 0);
          opval2 = (if no_tx then field vs 4 0 else field vs 5 0);
          w0 = print_fields [slotId, md, temp, (if tok > 2 then tx else -127)];
          ret0 = (if rv_mdinfo_open rv then rv_write rv MDINFO w0 else rv_ret rv);
          evs0 = (if rv_mdinfo_open rv then [ProcWrite MDINFO w0] else []);
          ws = map print_fields [[0, opval0], [1, opval1], [2, opval2]]
      in if rv_mdinfoex_open rv
         then (rv_write rv MDINFOEX (last ws), evs0 @ map (ProcWrite MDINFOEX) ws)
         else (ret0, evs0))"

definition SOCKET_RECV_LEN :: nat where "SOCKET_RECV_LEN = 128"

text \<open>The received text: the buffer is zeroed, one place is kept for the terminator.\<close>

definition received :: "recv_env \<Rightarrow> string" where
  "received rv = takeWhile (\<lambda>c. c \<noteq> NUL) (take (min (nat (rv_ret rv)) (SOCKET_RECV_LEN - 1)) (rv_data rv))"

definition recvMdThermalInfo :: "recv_env \<Rightarrow> int \<Rightarrow> int \<Rightarrow> int \<Rightarrow> (int \<times> thermal_event list) outcome" where
  "recvMdThermalInfo rv sock slotId opcode =
     with_socket sock
       (let strParm = received rv
        in if rv_ret rv > 0 then
             (if \<not> strncmp_eq ''ERROR'' strParm 5 then
                (if strncmp_eq ''URC'' strParm 3 then recv_urc rv strParm
                 else if opcode = -1 then recv_info rv slotId strParm
                 else (rv_ret rv, []))
              else (-1, []))
           else (rv_ret rv, []))"

section \<open>The loop that polls the modem\<close>

text \<open>\<open>new_md_tp_flow\<close>: its two static arrays, and what it did.\<close>

record tp_flow =
  thresholds :: "int list"
  new_thresholds :: "int list"
  tp_events :: "thermal_event list"

definition tp_flow_start :: tp_flow where
  "tp_flow_start = \<lparr>thresholds = [85, 85, 85], new_thresholds = [85, 85, 85], tp_events = []\<rparr>"

text \<open>
  One turn of the loop finds: the buffer read from the threshold file (\<open>None\<close> when it cannot
  be opened), the link to rild for each sensor and for the query, the result of \<open>select\<close>,
  whether \<open>errno\<close> is \<open>EINTR\<close>, whether the socket is readable, and the report then received.
\<close>

record tp_round =
  rd_text :: "string option"
  rd_set :: "nat \<Rightarrow> thermal_env \<times> recv_env"
  rd_query :: "thermal_env \<times> recv_env"
  rd_select :: int
  rd_eintr :: bool
  rd_isset :: bool
  rd_report :: recv_env

definition read_thresholds :: "string option \<Rightarrow> tp_flow \<Rightarrow> tp_flow" where
  "read_thresholds text f =
     (case text of None \<Rightarrow> f
      | Some buf \<Rightarrow>
         (let vs = sscanf [Field, COMMA, Field, COMMA, Field, COMMA] buf; old = new_thresholds f
          in f\<lparr>new_thresholds := [field vs 1 (old ! 0), field vs 0 (old ! 1), field vs 2 (old ! 2)]\<rparr>))"

text \<open>Connect, send a message, receive the answer; the results of both are only logged.\<close>

definition exchange ::
    "thermal_env \<times> recv_env \<Rightarrow> (thermal_env \<Rightarrow> int \<Rightarrow> (int \<times> thermal_event list) outcome) \<Rightarrow> int
     \<Rightarrow> (int \<times> thermal_event list) outcome" where
  "exchange link send_to opcode =
     bindo (connect_loop (te_connects (fst link))) (\<lambda>sock.
     bindo (send_to (fst link) sock) (\<lambda>(r1, evs1).
     bindo (recvMdThermalInfo (snd link) sock 0 opcode) (\<lambda>(r2, evs2).
       Ok (sock, evs1 @ evs2))))"

fun set_changed :: "(nat \<Rightarrow> thermal_env \<times> recv_env) \<Rightarrow> nat list \<Rightarrow> tp_flow \<Rightarrow> tp_flow outcome" where
  "set_changed links [] f = Ok f"
| "set_changed links (i # is) f =
     (if new_thresholds f ! i = thresholds f ! i then set_changed links is f
      else
        let f1 = f\<lparr>thresholds := (thresholds f)[i := new_thresholds f ! i]\<rparr>
        in bindo (exchange (links i) (\<lambda>e sock. setMdTpThreshold e sock 0 (int i) (thresholds f1 ! i)) 0) (\<lambda>(sock, evs).
             set_changed links is (f1\<lparr>tp_events := tp_events f1 @ evs\<rparr>)))"

text \<open>One turn: whether the loop goes on (\<open>False\<close>: it returns -1), and the state.\<close>

definition tp_turn :: "tp_round \<Rightarrow> tp_flow \<Rightarrow> (bool \<times> tp_flow) outcome" where
  "tp_turn rd f0 =
     bindo (set_changed (rd_set rd) [0, 1, 2] (read_thresholds (rd_text rd) f0)) (\<lambda>f.
     bindo (exchange (rd_query rd) (\<lambda>e sock. queryMdThermalInfo e sock 0 (-1)) (-1)) (\<lambda>(sock, evs).
       let f1 = f\<lparr>tp_events := tp_events f @ evs\<rparr>
       in if rd_select rd < 0 then (if rd_eintr rd then Ok (True, f1) else Ok (False, f1))
          else if rd_select rd = 0 then Ok (True, f1)
          else if rd_isset rd then
            bindo (recvMdThermalInfo (rd_report rd) sock 0 (-1)) (\<lambda>(r, evs').
              Ok (True, f1\<lparr>tp_events := tp_events f1 @ evs'\<rparr>))
          else Ok (True, f1)))"

text \<open>The loop over the turns: \<open>True\<close> while it is still running.\<close>

fun new_md_tp_flow :: "tp_round list \<Rightarrow> tp_flow \<Rightarrow> (bool \<times> tp_flow) outcome" where
  "new_md_tp_flow [] f = Ok (True, f)"
| "new_md_tp_flow (rd # rds) f =
     bindo (tp_turn rd f) (\<lambda>(go_on, f1). if go_on then new_md_tp_flow rds f1 else Ok (False, f1))"

section \<open>Start up\<close>

text \<open>
  The first part of \<open>main\<close> without arguments: the process id goes to the proc files that can
  be opened, and the CDMA library is loaded when the property asks for it.
\<close>

definition register_pid :: "(string \<Rightarrow> bool) \<Rightarrow> int \<Rightarrow> string list \<Rightarrow> thermal_event list" where
  "register_pid can_open pid files = map (\<lambda>f. ProcWrite f (sprintf_d pid)) (filter can_open files)"

definition thermal_main :: "(string \<Rightarrow> bool) \<Rightarrow> int \<Rightarrow> thermal_env \<Rightarrow> thermal \<Rightarrow> thermal" where
  "thermal_main can_open pid e st =
     (let st1 = log_events (register_pid can_open pid
            [''/proc/driver/thermal/clwmt_pid'', ''/proc/driver/thermal/tp_pid'',
             ''/proc/driver/thermal/clmutt_tm_pid'']) st;
          st2 = (if isC2kSupport e then RilRPC_init e st1 else st1)
      in log_events (register_pid can_open pid [''/proc/amddulthro/tm_pid'']) st2)"

end
