(* ===== verification/ThermalProps.thy ===== *)
theory ThermalProps
  imports Thermal
begin

text \<open>
  The properties of the thermal daemon: the state of its throttles and timers under any
  sequence of signals, the messages it exchanges with the modem, its error handling.
\<close>

section \<open>Signals\<close>

record signal =
  sg_env :: thermal_env
  sg_no :: int
  sg_errno :: int
  sg_code :: int

fun run_signals :: "signal list \<Rightarrow> thermal \<Rightarrow> thermal outcome" where
  "run_signals [] st = Ok st"
| "run_signals (s # ss) st =
     bindo (signal_handler (sg_env s) (sg_no s) (sg_errno s) (sg_code s) st) (run_signals ss)"

lemma log_events_fields [simp]:
  "level_timeout (log_events es st) = level_timeout st" "md_cur_dthro (log_events es st) = md_cur_dthro st"
  "cur_thro (log_events es st) = cur_thro st" "md_cur_thro (log_events es st) = md_cur_thro st"
  "md_cur_toggle_thro (log_events es st) = md_cur_toggle_thro st"
  "tp_cur_thermal_policy (log_events es st) = tp_cur_thermal_policy st"
  "sendRpcRequest (log_events es st) = sendRpcRequest st"
  "events (log_events es st) = events st @ es"
  by (simp_all add: log_events_def)

lemma set_md_toggle_result:
  assumes "set_md_toggle_throttle e level st = Ok (r, st')"
  obtains sock ret evs more where "connect_loop (te_connects e) = Ok sock"
    "MdToggle e sock (if level = 0 then 1 else 0) = Ok (ret, evs)" "st' = log_events (evs @ more) st"
    "r = (if isC2kSupport e \<and> sendRpcRequest st
          then te_rpc e RIL_REQUEST_SET_MODEM_THERMAL (if level = 0 then 1 else 0) else ret)"
proof -
  define state :: int where "state = (if level = 0 then 1 else 0)"
  obtain sock where c: "connect_loop (te_connects e) = Ok sock"
    using assms by (auto simp only: set_md_toggle_throttle_def Let_def bindo_eq_Ok)
  obtain ret evs where m: "MdToggle e sock state = Ok (ret, evs)"
    using assms c by (auto simp only: set_md_toggle_throttle_def Let_def bindo_eq_Ok state_def outcome.inject)
  have eq: "(if isC2kSupport e \<and> sendRpcRequest st
      then Ok (RilRPC_send e RIL_REQUEST_SET_MODEM_THERMAL state (log_events evs st))
      else Ok (ret, log_events evs st)) = Ok (r, st')"
    using assms c m unfolding state_def by (simp add: set_md_toggle_throttle_def Let_def split del: if_split)
  have twice: "log_events b (log_events a st) = log_events (a @ b) st" for a b
    by (simp add: log_events_def)
  show ?thesis
  proof (cases "isC2kSupport e \<and> sendRpcRequest st")
    case True
    then have res: "r = te_rpc e RIL_REQUEST_SET_MODEM_THERMAL state"
        "st' = log_events (evs @ [RpcRequest RIL_REQUEST_SET_MODEM_THERMAL state]) st"
      using eq by (simp_all add: RilRPC_send_def twice)
    show ?thesis by (rule that [OF c m [unfolded state_def] res(2)]) (use True res(1) in \<open>simp add: state_def\<close>)
  next
    case False
    then have res: "r = ret" "st' = log_events (evs @ []) st" using eq by auto
    show ?thesis by (rule that [OF c m [unfolded state_def] res(2)]) (use False res(1) in \<open>simp only: if_False\<close>)
  qed
qed

text \<open>
  What a new duty-cycle request does: the links are checked for a level from 1 to 10 and the request is
  remembered; no timer is armed or stopped. Where the C library follows a null handle, the daemon dies.
\<close>

lemma duty_request:
  "signal_handler e SIGIO 2 v st =
    (if md_cur_dthro st = v then Ok st
     else if \<not> (1 \<le> v \<and> v \<le> 10) then Ok (st\<lparr>md_cur_dthro := v\<rparr>)
     else if te_settime_faults e then Fault
     else Ok ((set_md_ul_throttle e (-1) st)\<lparr>level_timeout := (if v < 10 then v else level_timeout st), md_cur_dthro := v\<rparr>))"
proof -
  have "signal_handler e SIGIO 2 v st = md_dul_step e 2 v st"
    by (cases "md_dul_step e 2 v st") (simp_all add: signal_handler_def wifi_step_def md_ul_step_def toggle_step_def policy_step_def)
  then show ?thesis
    by (auto simp: md_dul_step_def set_md_dul_throttle_def reset_timers_def stop_timers_def set_base_timer_def
        set_level_timer_def set_md_ul_throttle_def log_events_def Let_def)
qed

text \<open>Surroundings in which every call succeeds.\<close>

definition sample_tenv :: thermal_env where
  "sample_tenv = \<lparr>te_operstate = (\<lambda>_. None), te_settime_faults = False, te_dlopen = True,
     te_dlsym = True, te_change_policy = (\<lambda>_ _. 0), te_rat_config = ''W'', te_rpc = (\<lambda>_ _. 0),
     te_connects = [-1, 7], te_sends = (4, 4, 12)\<rparr>"

lemma dec_nat_small: "n < 10 \<Longrightarrow> dec_nat n = [char_of (48 + n)]"
  by (subst dec_nat.simps) simp

lemma dec_nat_step: "10 \<le> n \<Longrightarrow> dec_nat n = dec_nat (n div 10) @ [char_of (48 + n mod 10)]"
  by (subst dec_nat.simps) simp

section \<open>Requests that fail\<close>

text \<open>
  A modem toggle is remembered only when its last step succeeded, so the same request is
  tried again after a failure; a policy is remembered before it is loaded, whatever loading
  it returns, so a policy that could not be loaded is not tried again when it is requested next.
\<close>

theorem failed_requests:
  assumes "set_md_toggle_throttle e1 v st = Ok (ret, st1)" "ret \<noteq> 0" "md_cur_toggle_thro st \<noteq> v"
    and "tp_cur_thermal_policy st \<noteq> v"
  shows "(\<exists>st'. signal_handler e1 SIGIO 3 v st = Ok st' \<and> md_cur_toggle_thro st' = md_cur_toggle_thro st
       \<and> (\<forall>e. signal_handler e SIGIO 3 v st' = bindo (set_md_toggle_throttle e v st')
            (\<lambda>(r, s). Ok (if r = 0 then s\<lparr>md_cur_toggle_thro := v\<rparr> else s))))
    \<and> (\<exists>st'. signal_handler e2 SIGIO 4 v st = Ok st'
       \<and> (\<forall>e. signal_handler e SIGIO 4 v st' = Ok st'))"
proof
  have h3: "signal_handler e SIGIO 3 v s = toggle_step e 3 v s" for e s
  proof -
    have "bindo (toggle_step e 3 v s) (\<lambda>st4. Ok st4) = toggle_step e 3 v s" by (cases "toggle_step e 3 v s") simp_all
    then show ?thesis
      by (simp add: signal_handler_def wifi_step_def md_ul_step_def md_dul_step_def policy_step_def)
  qed
  have t3: "toggle_step e 3 v s = bindo (set_md_toggle_throttle e v s)
      (\<lambda>(r, s). Ok (if r = 0 then s\<lparr>md_cur_toggle_thro := v\<rparr> else s))" if "md_cur_toggle_thro s \<noteq> v" for e s
    using that by (simp add: toggle_step_def)
  have same: "md_cur_toggle_thro st1 = md_cur_toggle_thro st"
    by (rule set_md_toggle_result [OF assms(1)]) simp
  have "toggle_step e1 3 v st = Ok st1" using t3 [OF assms(3)] assms(1,2) by simp
  then show "\<exists>st'. signal_handler e1 SIGIO 3 v st = Ok st' \<and> md_cur_toggle_thro st' = md_cur_toggle_thro st
       \<and> (\<forall>e. signal_handler e SIGIO 3 v st' = bindo (set_md_toggle_throttle e v st')
            (\<lambda>(r, s). Ok (if r = 0 then s\<lparr>md_cur_toggle_thro := v\<rparr> else s)))"
    using h3 t3 [of st1] same assms(3) by auto
  have h4: "signal_handler e SIGIO 4 v s = Ok (policy_step e 4 v s)" for e s
    by (simp add: signal_handler_def wifi_step_def md_ul_step_def md_dul_step_def toggle_step_def)
  have "tp_cur_thermal_policy (policy_step e2 4 v st) = v"
    using assms(4) unfolding policy_step_def load_thm_api_def Let_def by (simp split del: if_split) auto
  then show "\<exists>st'. signal_handler e2 SIGIO 4 v st = Ok st' \<and> (\<forall>e. signal_handler e SIGIO 4 v st' = Ok st')"
    using h4 by (simp add: policy_step_def [of _ 4 v "policy_step e2 4 v st"])
qed

lemma failed_requests_witness:
  "\<exists>st'. signal_handler (sample_tenv\<lparr>te_sends := (4, 4, 3)\<rparr>) SIGIO 3 1 thermal_start = Ok st'
     \<and> md_cur_toggle_thro st' = 0"
proof -
  let ?e = "sample_tenv\<lparr>te_sends := (4, 4, 3)\<rparr>"
  have "\<exists>st1. set_md_toggle_throttle ?e 1 thermal_start = Ok (-5, st1)"
    by (simp add: set_md_toggle_throttle_def sample_tenv_def MdToggle_def with_socket_def send_text_def
        isC2kSupport_def snprintf_def sprintf_d_def dec_nat_small Let_def)
  then obtain st1 where "set_md_toggle_throttle ?e 1 thermal_start = Ok (-5, st1)" by blast
  from failed_requests [OF this, of sample_tenv] show ?thesis by (auto simp: thermal_start_def)
qed

text \<open>
  With a CDMA modem the value returned is that of the RPC request alone: a toggle that rild
  never received counts as done.
\<close>

lemma rpc_hides_failed_toggle:
  "\<exists>st'. signal_handler (sample_tenv\<lparr>te_sends := (-1, -1, -1), te_rat_config := ''C2K''\<rparr>) SIGIO 3 1
      (thermal_start\<lparr>sendRpcRequest := True\<rparr>) = Ok st'
    \<and> md_cur_toggle_thro st' = 1 \<and> (\<forall>bs. Sent bs \<notin> set (events st'))"
proof -
  have "\<exists>st1. set_md_toggle_throttle (sample_tenv\<lparr>te_sends := (-1, -1, -1), te_rat_config := ''C2K''\<rparr>) 1
      (thermal_start\<lparr>sendRpcRequest := True\<rparr>) = Ok (0, st1) \<and> events st1 = [RpcRequest 10000 0]"
    by (simp add: set_md_toggle_throttle_def sample_tenv_def MdToggle_def with_socket_def send_text_def
        isC2kSupport_def accepted_def Let_def RilRPC_send_def RIL_REQUEST_SET_MODEM_THERMAL_def log_events_def
        thermal_start_def)
  then obtain st1 where r: "set_md_toggle_throttle (sample_tenv\<lparr>te_sends := (-1, -1, -1), te_rat_config := ''C2K''\<rparr>) 1
      (thermal_start\<lparr>sendRpcRequest := True\<rparr>) = Ok (0, st1)" "events st1 = [RpcRequest 10000 0]" by blast
  then show ?thesis
    by (simp add: signal_handler_def wifi_step_def md_ul_step_def md_dul_step_def policy_step_def toggle_step_def
        thermal_start_def Let_def)
qed

section \<open>Names of policies\<close>

text \<open>
  The buffer of \<open>load_thm_api\<close> is one character short of the text: the final newline is
  always lost, and an index of three digits (100 to 255) loses its last digit, so that
  the policy of index \<open>i\<close> is the one loaded for the index \<open>i div 10\<close>; two-digit names are right.
\<close>

theorem policy_name_truncated:
  assumes "0 \<le> idx" "idx \<le> 255"
  shows "policy_name idx = (if idx < 100 then ''thermal_policy_'' @ sprintf_02d idx else policy_name (idx div 10))"
proof -
  define n where "n = nat idx"
  have n: "idx = int n" "n \<le> 255" using assms by (simp_all add: n_def)
  have cut: "policy_name (int k) = ''thermal_policy_'' @ take 2 (sprintf_02d (int k) @ [CHR 0x0A])" for k
    by (simp add: policy_name_def snprintf_def)
  have two: "length (sprintf_02d (int k)) = 2" if "k < 100" for k
  proof (cases "k < 10")
    case False
    then show ?thesis using that by (simp add: sprintf_02d_def dec_nat_step dec_nat_small)
  qed (simp add: sprintf_02d_def dec_nat_small)
  show ?thesis
  proof (cases "n < 100")
    case True
    then show ?thesis using n two [OF True] by (simp add: cut)
  next
    case False
    have q: "10 \<le> n div 10" "n div 10 < 100" using n False by linarith+
    have "sprintf_02d (int n) = sprintf_02d (int (n div 10)) @ [char_of (48 + n mod 10)]"
      using False q by (simp add: sprintf_02d_def dec_nat_step [of n])
    then have "policy_name (int n) = policy_name (int (n div 10))" using two [OF q(2)] by (simp add: cut)
    then show ?thesis using n False by (simp add: zdiv_int)
  qed
qed

lemma policy_name_truncated_witness: "policy_name 123 = policy_name 12 \<and> policy_name 7 = ''thermal_policy_07''"
  using policy_name_truncated [of 123] policy_name_truncated [of 7]
  by (simp add: sprintf_02d_def dec_nat_small char_of_def bit_Suc_0_iff)

section \<open>Answers of the modem\<close>

lemma scan_d_comma [simp]: "scan_d (CHR '','' # s) = None"
  by (simp add: scan_d_def c_isspace_def strip_sign_def is_digit_def digit_val_def)

text \<open>An answer: chip, temperature, transmit power when there is one, three sensor values.\<close>

definition answer :: "int \<Rightarrow> int \<Rightarrow> int option \<Rightarrow> int \<Rightarrow> int \<Rightarrow> int \<Rightarrow> string" where
  "answer md temp tx v0 v1 v2 =
     sprintf_d md @ CHR '','' # sprintf_d temp @ CHR '','' # (case tx of None \<Rightarrow> [] | Some t \<Rightarrow> sprintf_d t)
       @ CHR '','' # sprintf_d v0 @ CHR '','' # sprintf_d v1 @ CHR '','' # sprintf_d v2"

lemma scan_answer_tx:
  assumes "int32 md" "int32 temp" "int32 t" "int32 v0" "int32 v1" "int32 v2" "no_digit_first tail"
  shows "sscanf info_format (answer md temp (Some t) v0 v1 v2 @ tail) = [md, temp, t, v0, v1, v2]"
  using assms by (simp add: info_format_def answer_def COMMA_def scan_d_sprintf_d)

lemma scan_answer_no_tx:
  assumes "int32 md" "int32 temp" "int32 v0" "int32 v1" "int32 v2" "no_digit_first tail"
  shows "sscanf info_format (answer md temp None v0 v1 v2 @ tail) = [md, temp]"
    "sscanf info_format_no_tx (answer md temp None v0 v1 v2 @ tail) = [md, temp, v0, v1, v2]"
  using assms by (simp_all add: info_format_def info_format_no_tx_def answer_def COMMA_def scan_d_sprintf_d)

lemma not_keyword:
  assumes "c = CHR ''-'' \<or> is_digit 10 c"
  shows "\<not> strncmp_eq ''ERROR'' (c # s) 5" "\<not> strncmp_eq ''URC'' (c # s) 3"
  using assms by (auto simp: strncmp_eq_def is_digit_def digit_val_def)

text \<open>
  C39. What the modem answers reaches the kernel: for all 32-bit values, with and without a
  transmit power (then -127 stands for it), the four numbers of the chip go to mdm_mdinfo and
  the three sensor values to mdm_mdinfoex, each under its index and in this order.
\<close>

theorem answer_reaches_kernel:
  assumes "received rv = answer md temp tx v0 v1 v2 @ tail" "no_digit_first tail"
    and "int32 md" "int32 temp" "int32 v0" "int32 v1" "int32 v2" "\<forall>t. tx = Some t \<longrightarrow> int32 t"
    and "0 < rv_ret rv" "0 < sock" "rv_mdinfo_open rv" "rv_mdinfoex_open rv"
  shows "recvMdThermalInfo rv sock slotId (-1) =
    Ok (rv_write rv MDINFOEX (print_fields [2, v2]),
        [ProcWrite MDINFO (print_fields [slotId, md, temp, case tx of None \<Rightarrow> -127 | Some t \<Rightarrow> t]),
         ProcWrite MDINFOEX (print_fields [0, v0]), ProcWrite MDINFOEX (print_fields [1, v1]),
         ProcWrite MDINFOEX (print_fields [2, v2])])"
proof -
  obtain c s where "sprintf_d md = c # s" and c: "c = CHR ''-'' \<or> is_digit 10 c" by (rule sprintf_d_head)
  then obtain s' where "received rv = c # s'" using assms(1) by (simp add: answer_def)
  then have kw: "\<not> strncmp_eq ''ERROR'' (received rv) 5" "\<not> strncmp_eq ''URC'' (received rv) 3"
    using not_keyword [OF c] by simp_all
  have "recv_info rv slotId (received rv) = (rv_write rv MDINFOEX (print_fields [2, v2]),
        [ProcWrite MDINFO (print_fields [slotId, md, temp, case tx of None \<Rightarrow> -127 | Some t \<Rightarrow> t]),
         ProcWrite MDINFOEX (print_fields [0, v0]), ProcWrite MDINFOEX (print_fields [1, v1]),
         ProcWrite MDINFOEX (print_fields [2, v2])])"
  proof (cases tx)
    case None
    then show ?thesis using assms(11,12) scan_answer_no_tx [OF assms(3-7,2)]
      by (simp add: recv_info_def assms(1) Let_def field_def del: print_fields.simps)
  next
    case (Some t)
    then show ?thesis using assms(8,11,12) scan_answer_tx [OF assms(3,4) _ assms(5-7,2), of t]
      by (simp add: recv_info_def assms(1) Let_def field_def del: print_fields.simps)
  qed
  then show ?thesis using kw assms(9,10)
    by (simp add: recvMdThermalInfo_def with_socket_def Let_def)
qed

definition sample_answer :: recv_env where
  "sample_answer = \<lparr>rv_ret = 14, rv_data = ''1,305,,45,46,47'', rv_mdinfo_open = True,
     rv_mdinfoex_open = True, rv_write = (\<lambda>f s. int (length s))\<rparr>"

lemma answer_reaches_kernel_witness:
  "recvMdThermalInfo (sample_answer\<lparr>rv_ret := 15\<rparr>) 7 0 (-1) =
     Ok (4, [ProcWrite MDINFO ''0,1,305,-127'', ProcWrite MDINFOEX ''0,45'', ProcWrite MDINFOEX ''1,46'',
       ProcWrite MDINFOEX ''2,47''])"
proof -
  note num = sprintf_d_def dec_nat_small dec_nat_step char_of_def bit_Suc_0_iff
  have "received (sample_answer\<lparr>rv_ret := 15\<rparr>) = answer 1 305 None 45 46 47 @ []"
    by (simp add: received_def sample_answer_def answer_def num SOCKET_RECV_LEN_def NUL_def)
  from answer_reaches_kernel [OF this, of 7 0] show ?thesis
    by (simp add: int32_def INT32_MIN_def INT32_MAX_def sample_answer_def num)
qed

section \<open>Thresholds\<close>

text \<open>
  The specification: the three numbers that the kernel printed for a turn, if its file could be read
  (\<open>None\<close> otherwise); the messages; and the thresholds after the turns together with all that is sent
  to rild, one message for each threshold that differs from the last, in order, and then the query.
\<close>

definition threshold_text :: "int \<Rightarrow> int \<Rightarrow> int \<Rightarrow> string" where
  "threshold_text a b c = sprintf_d a @ CHR '','' # sprintf_d b @ CHR '','' # sprintf_d c"

definition kernel_wrote :: "(int \<times> int \<times> int) option \<Rightarrow> string option \<Rightarrow> bool" where
  "kernel_wrote k buf \<longleftrightarrow>
     (case k of None \<Rightarrow> buf = None
      | Some (a, b, c) \<Rightarrow> int32 a \<and> int32 b \<and> int32 c
          \<and> (\<exists>tail. no_digit_first tail \<and> buf = Some (threshold_text a b c @ tail)))"

definition set_message :: "nat \<Rightarrow> int \<Rightarrow> string" where
  "set_message i v = ''THERMAL,0,0,'' @ sprintf_d (int i) @ '','' @ sprintf_d v @ [CHR 0x0A]"

definition query_message :: string where
  "query_message = ''THERMAL,0,-1'' @ [CHR 0x0A]"

definition goes_on :: "tp_round \<Rightarrow> bool" where
  "goes_on rd \<longleftrightarrow> (rd_select rd < 0 \<longrightarrow> rd_eintr rd)"

fun expected :: "(tp_round \<Rightarrow> (int \<times> int \<times> int) option) \<Rightarrow> tp_round list \<Rightarrow> int list \<Rightarrow> int list \<times> thermal_event list" where
  "expected k [] v = (v, [])"
| "expected k (rd # rds) v =
     (let w = (case k rd of None \<Rightarrow> v | Some (a, b, c) \<Rightarrow> [b, a, c]);
          sent = concat (map (\<lambda>i. if w ! i = v ! i then [] else snd (send_text (fst (rd_set rd i)) (set_message i (w ! i)))) [0, 1, 2])
            @ snd (send_text (fst (rd_query rd)) query_message)
      in if goes_on rd then let (u, more) = expected k rds w in (u, sent @ more) else (w, sent))"

text \<open>The first attempt that does not fail gives a socket other than 0.\<close>

definition link_up :: "thermal_env \<times> recv_env \<Rightarrow> bool" where
  "link_up l \<longleftrightarrow> (\<exists>sock > 0. connect_loop (te_connects (fst l)) = Ok sock)"

definition links_up :: "tp_round \<Rightarrow> bool" where
  "links_up rd \<longleftrightarrow> (\<forall>i. link_up (rd_set rd i)) \<and> link_up (rd_query rd)"

fun is_sent :: "thermal_event \<Rightarrow> bool" where
  "is_sent (Sent bs) = True"
| "is_sent e = False"

lemma send_text_sent: "filter is_sent (snd (send_text e s)) = snd (send_text e s)"
  by (simp add: send_text_def accepted_def Let_def split: prod.split)

lemma recv_not_sent:
  assumes "0 < sock"
  shows "\<exists>r evs. recvMdThermalInfo rv sock slotId opcode = Ok (r, evs) \<and> filter is_sent evs = []"
  using assms by (simp add: recvMdThermalInfo_def with_socket_def recv_urc_def recv_info_def Let_def)

lemma exchange_sent:
  assumes "link_up l" "\<And>e sock. 0 < sock \<Longrightarrow> send_to e sock = Ok (send_text e s)"
  shows "\<exists>sock evs. exchange l send_to opcode = Ok (sock, evs) \<and> 0 < sock \<and> filter is_sent evs = snd (send_text (fst l) s)"
proof -
  obtain sock where c: "connect_loop (te_connects (fst l)) = Ok sock" "0 < sock" using assms(1) by (auto simp: link_up_def)
  obtain r evs where v: "recvMdThermalInfo (snd l) sock 0 opcode = Ok (r, evs)" "filter is_sent evs = []"
    using recv_not_sent [OF c(2)] by blast
  show ?thesis using assms(2) [OF c(2), of "fst l"] c v
    by (cases "send_text (fst l) s") (use send_text_sent [of "fst l" s] in \<open>simp add: exchange_def\<close>)
qed

lemma sprintf_d_short:
  assumes "int32 v" shows "length (sprintf_d v) \<le> 11"
proof -
  have "length (dec_nat n) \<le> Suc 9" if "n \<le> 2147483648" for n
    using that by (intro dec_nat_length) simp
  then have "length (dec_nat (nat v)) \<le> 10" "length (dec_nat (nat (- v))) \<le> 10"
    using assms by (auto simp: int32_def INT32_MIN_def INT32_MAX_def)
  then show ?thesis by (simp add: sprintf_d_def)
qed

lemma sprintf_d_small: "sprintf_d 0 = ''0''" "sprintf_d (-1) = ''-1''"
  by (simp_all add: sprintf_d_def dec_nat_small char_of_def bit_Suc_0_iff)

lemma set_threshold_sends:
  assumes "0 < sock" "i < 3" "int32 v"
  shows "setMdTpThreshold e sock 0 (int i) v = Ok (send_text e (set_message i v))"
proof -
  have "length (sprintf_d (int i)) = 1" using assms(2) by (simp add: sprintf_d_def dec_nat_small)
  then show ?thesis using assms(1) sprintf_d_short [OF assms(3)]
    by (simp add: setMdTpThreshold_def with_socket_def snprintf_def set_message_def sprintf_d_small)
qed

lemma query_sends: "0 < sock \<Longrightarrow> queryMdThermalInfo e sock 0 (-1) = Ok (send_text e query_message)"
  by (simp add: queryMdThermalInfo_def with_socket_def snprintf_def query_message_def sprintf_d_small)

text \<open>The sensors whose turn is still to come have the old threshold, the ones before the new one.\<close>

lemma set_changed_sends:
  assumes "\<forall>i. link_up (links i)" "distinct is" "\<forall>i \<in> set is. i < 3" "\<forall>x \<in> set (new_thresholds f). int32 x"
    "length (thresholds f) = 3" "length (new_thresholds f) = 3"
  shows "\<exists>f'. set_changed links is f = Ok f' \<and> new_thresholds f' = new_thresholds f \<and> length (thresholds f') = 3
    \<and> (\<forall>k < 3. thresholds f' ! k = (if k \<in> set is then new_thresholds f ! k else thresholds f ! k))
    \<and> filter is_sent (tp_events f') = filter is_sent (tp_events f) @
        concat (map (\<lambda>i. if new_thresholds f ! i = thresholds f ! i then []
          else snd (send_text (fst (links i)) (set_message i (new_thresholds f ! i)))) is)"
  using assms(2-6)
proof (induction "is" arbitrary: f)
  case (Cons i js)
  note len = Cons.prems(4,5)
  have i: "i < 3" "i \<notin> set js" using Cons.prems(1,2) by auto
  show ?case
  proof (cases "new_thresholds f ! i = thresholds f ! i")
    case True
    then show ?thesis using Cons.IH [of f] Cons.prems i by fastforce
  next
    case False
    let ?f = "f\<lparr>thresholds := (thresholds f)[i := new_thresholds f ! i]\<rparr>"
    have v: "int32 (new_thresholds f ! i)" "thresholds ?f ! i = new_thresholds f ! i"
      using Cons.prems(3) i len by auto
    obtain sock evs where ex: "exchange (links i) (\<lambda>e sock. setMdTpThreshold e sock 0 (int i) (thresholds ?f ! i)) 0 = Ok (sock, evs)"
        "filter is_sent evs = snd (send_text (fst (links i)) (set_message i (new_thresholds f ! i)))"
      using exchange_sent [OF assms(1) [rule_format, of i], of "\<lambda>e sock. setMdTpThreshold e sock 0 (int i) (thresholds ?f ! i)"
          "set_message i (new_thresholds f ! i)" 0] set_threshold_sends [OF _ i(1) v(1)] v(2) by auto
    let ?g = "?f\<lparr>tp_events := tp_events ?f @ evs\<rparr>"
    have step: "set_changed links (i # js) f = set_changed links js ?g" using False ex(1) by (simp add: Let_def)
    have other: "map (\<lambda>k. if new_thresholds ?g ! k = thresholds ?g ! k then [] else snd (send_text (fst (links k)) (set_message k (new_thresholds ?g ! k)))) js
        = map (\<lambda>k. if new_thresholds f ! k = thresholds f ! k then [] else snd (send_text (fst (links k)) (set_message k (new_thresholds f ! k)))) js"
    proof (rule map_cong [OF refl])
      fix k assume "k \<in> set js"
      then have "k \<noteq> i" using i(2) by auto
      then show "(if new_thresholds ?g ! k = thresholds ?g ! k then [] else snd (send_text (fst (links k)) (set_message k (new_thresholds ?g ! k))))
          = (if new_thresholds f ! k = thresholds f ! k then [] else snd (send_text (fst (links k)) (set_message k (new_thresholds f ! k))))"
        by (simp add: nth_list_update)
    qed
    obtain h where h: "set_changed links js ?g = Ok h" "new_thresholds h = new_thresholds ?g" "length (thresholds h) = 3"
        "\<forall>k < 3. thresholds h ! k = (if k \<in> set js then new_thresholds ?g ! k else thresholds ?g ! k)"
        "filter is_sent (tp_events h) = filter is_sent (tp_events ?g) @ concat (map (\<lambda>k. if new_thresholds ?g ! k = thresholds ?g ! k then []
          else snd (send_text (fst (links k)) (set_message k (new_thresholds ?g ! k)))) js)"
      using Cons.IH [of ?g] Cons.prems by auto
    have evs: "filter is_sent (tp_events h) = filter is_sent (tp_events f) @ concat (map (\<lambda>i. if new_thresholds f ! i = thresholds f ! i then []
          else snd (send_text (fst (links i)) (set_message i (new_thresholds f ! i)))) (i # js))"
      using h(5) False ex(2) unfolding other by simp
    have vals: "\<forall>k < 3. thresholds h ! k = (if k \<in> set (i # js) then new_thresholds f ! k else thresholds f ! k)"
    proof (intro allI impI)
      fix k :: nat assume "k < 3"
      then show "thresholds h ! k = (if k \<in> set (i # js) then new_thresholds f ! k else thresholds f ! k)"
        using h(4) len i by (cases "k = i") simp_all
    qed
    show ?thesis using step h(1-3) evs vals by auto
  qed
qed simp

lemma read_thresholds_kernel:
  assumes "kernel_wrote k buf" "length (new_thresholds f) = 3"
  shows "read_thresholds buf f = f\<lparr>new_thresholds := (case k of None \<Rightarrow> new_thresholds f | Some (a, b, c) \<Rightarrow> [b, a, c])\<rparr>"
  using assms by (auto simp: kernel_wrote_def read_thresholds_def threshold_text_def COMMA_def scan_d_sprintf_d field_def
      Let_def split: option.splits prod.splits)

lemma tp_turn_follows:
  assumes "kernel_wrote k (rd_text rd)" "links_up rd" "thresholds f = v" "new_thresholds f = v" "length v = 3" "\<forall>x \<in> set v. int32 x"
    and w: "w = (case k of None \<Rightarrow> v | Some (a, b, c) \<Rightarrow> [b, a, c])"
  shows "\<exists>f'. tp_turn rd f = Ok (goes_on rd, f') \<and> thresholds f' = w \<and> new_thresholds f' = w
    \<and> filter is_sent (tp_events f') = filter is_sent (tp_events f)
       @ concat (map (\<lambda>i. if w ! i = v ! i then [] else snd (send_text (fst (rd_set rd i)) (set_message i (w ! i)))) [0, 1, 2])
       @ snd (send_text (fst (rd_query rd)) query_message)"
proof -
  let ?f = "f\<lparr>new_thresholds := w\<rparr>"
  have w3: "length w = 3" "\<forall>x \<in> set w. int32 x"
    using assms(1,5,6) by (auto simp: w kernel_wrote_def split: option.splits prod.splits)
  have rd: "read_thresholds (rd_text rd) f = ?f" using read_thresholds_kernel [OF assms(1), of f] assms(5) unfolding w assms(4) [symmetric] by simp
  obtain f1 where f1: "set_changed (rd_set rd) [0, 1, 2] ?f = Ok f1" "new_thresholds f1 = w" "length (thresholds f1) = 3"
      "\<forall>k < 3. thresholds f1 ! k = w ! k"
      "filter is_sent (tp_events f1) = filter is_sent (tp_events f)
       @ concat (map (\<lambda>i. if w ! i = v ! i then [] else snd (send_text (fst (rd_set rd i)) (set_message i (w ! i)))) [0, 1, 2])"
    using set_changed_sends [of "rd_set rd" "[0, 1, 2]" ?f] assms(2-5) w3
    by (auto simp: links_up_def less_Suc_eq numeral_3_eq_3 simp del: set_changed.simps)
  have t: "thresholds f1 = w" using f1(3,4) w3(1) by (auto intro: nth_equalityI)
  obtain sock evs where q: "exchange (rd_query rd) (\<lambda>e sock. queryMdThermalInfo e sock 0 (-1)) (-1) = Ok (sock, evs)" "0 < sock"
      "filter is_sent evs = snd (send_text (fst (rd_query rd)) query_message)"
    using exchange_sent [of "rd_query rd" "\<lambda>e sock. queryMdThermalInfo e sock 0 (-1)" query_message "-1"] query_sends assms(2)
    by (auto simp: links_up_def)
  obtain r evs' where r: "recvMdThermalInfo (rd_report rd) sock 0 (-1) = Ok (r, evs')" "filter is_sent evs' = []"
    using recv_not_sent [OF q(2)] by blast
  define sets where "sets = concat (map (\<lambda>i. if w ! i = v ! i then [] else snd (send_text (fst (rd_set rd i)) (set_message i (w ! i)))) [0, 1, 2])"
  note ev = f1(5) [folded sets_def]
  show ?thesis
    unfolding tp_turn_def rd f1(1) q(1) bindo.simps prod.case sets_def [symmetric]
    using f1(2) ev t q(3) r by (auto simp: Let_def goes_on_def)
qed

lemma new_md_tp_flow_follows:
  assumes "\<forall>rd \<in> set rds. kernel_wrote (k rd) (rd_text rd) \<and> links_up rd"
    "thresholds f = v" "new_thresholds f = v" "length v = 3" "\<forall>x \<in> set v. int32 x"
  shows "\<exists>f'. new_md_tp_flow rds f = Ok (list_all goes_on rds, f') \<and> thresholds f' = fst (expected k rds v)
    \<and> filter is_sent (tp_events f') = filter is_sent (tp_events f) @ snd (expected k rds v)"
  using assms
proof (induction rds arbitrary: f v)
  case (Cons rd rds)
  let ?w = "case k rd of None \<Rightarrow> v | Some (a, b, c) \<Rightarrow> [b, a, c]"
  have w3: "length ?w = 3" "\<forall>x \<in> set ?w. int32 x"
    using Cons.prems by (auto simp: kernel_wrote_def split: option.splits prod.splits)
  obtain f1 where f1: "tp_turn rd f = Ok (goes_on rd, f1)" "thresholds f1 = ?w" "new_thresholds f1 = ?w"
      "filter is_sent (tp_events f1) = filter is_sent (tp_events f)
       @ concat (map (\<lambda>i. if ?w ! i = v ! i then [] else snd (send_text (fst (rd_set rd i)) (set_message i (?w ! i)))) [0, 1, 2])
       @ snd (send_text (fst (rd_query rd)) query_message)"
    using tp_turn_follows [OF _ _ Cons.prems(2-5) refl, of "k rd" rd] Cons.prems(1) by auto
  show ?case
  proof (cases "goes_on rd")
    case True
    obtain f2 where "new_md_tp_flow rds f1 = Ok (list_all goes_on rds, f2)" "thresholds f2 = fst (expected k rds ?w)"
        "filter is_sent (tp_events f2) = filter is_sent (tp_events f1) @ snd (expected k rds ?w)"
      using Cons.IH [OF _ f1(2,3) w3] Cons.prems(1) by auto
    then show ?thesis using True f1(1,4)
      by (cases "expected k rds ?w") (simp add: Let_def del: concat.simps list.map)
  next
    case False
    then show ?thesis using f1 by (simp add: Let_def del: concat.simps list.map)
  qed
qed simp

text \<open>
  C40. While each turn's connections to rild end in a socket other than 0, and the kernel's file, when it
  can be read, starts with three 32-bit numbers: every number of turns of the loop that polls the modem
  ends without a failed assertion; after them the daemon's thresholds are the numbers of the last turn
  that could read the file (85 each before), the first two exchanged; and what rild was sent is, for
  each turn, the threshold of each sensor whose number changed in that turn, in order, then the query.
  The loop ends at the first select that fails with an error other than an interruption, and runs on without one.
\<close>

theorem thresholds_follow_kernel:
  assumes "\<forall>rd \<in> set rds. kernel_wrote (wrote rd) (rd_text rd) \<and> links_up rd"
  shows "\<exists>f. new_md_tp_flow rds tp_flow_start = Ok (list_all goes_on rds, f)
    \<and> (thresholds f, filter is_sent (tp_events f)) = expected wrote rds [85, 85, 85]"
  using new_md_tp_flow_follows [OF assms, of tp_flow_start "[85, 85, 85]"]
  by (auto simp: tp_flow_start_def int32_def INT32_MIN_def INT32_MAX_def)

definition sample_round :: tp_round where
  "sample_round = \<lparr>rd_text = Some ''90,85,80,'', rd_set = (\<lambda>_. (sample_tenv, sample_answer)),
     rd_query = (sample_tenv, sample_answer), rd_select = 0, rd_eintr = False, rd_isset = False,
     rd_report = sample_answer\<rparr>"

lemma thresholds_follow_kernel_witness:
  "\<exists>f. new_md_tp_flow [sample_round, sample_round] tp_flow_start = Ok (True, f) \<and> thresholds f = [85, 90, 80]"
proof -
  let ?k = "\<lambda>rd :: tp_round. Some (90 :: int, 85 :: int, 80 :: int)"
  note num = sprintf_d_def dec_nat_small dec_nat_step char_of_def bit_Suc_0_iff
  have "threshold_text 90 85 80 @ '','' = ''90,85,80,''" by (simp add: threshold_text_def num)
  moreover have "no_digit_first '',''" by (simp add: no_digit_first_def is_digit_def digit_val_def)
  ultimately have "kernel_wrote (?k sample_round) (rd_text sample_round)"
    by (auto simp: kernel_wrote_def sample_round_def int32_def INT32_MIN_def INT32_MAX_def intro!: exI [of _ "'',''"])
  moreover have "links_up sample_round" by (simp add: links_up_def link_up_def sample_round_def sample_tenv_def)
  ultimately have "\<forall>rd \<in> set [sample_round, sample_round]. kernel_wrote (?k rd) (rd_text rd) \<and> links_up rd" by simp
  from thresholds_follow_kernel [OF this] show ?thesis
    by (auto simp: goes_on_def sample_round_def Let_def split: prod.splits)
qed

end
