(* ===== verification/MdRecorder.thy ===== *)
theory MdRecorder
  imports UbrdBase
begin

text \<open>
  The recorder of the malloc debugger (src/proprietary/external/libudf/malloc_debug/recorder.c
  and recorder.h), 32-bit build with DEBUG15_GUARD_CHECK: current allocations in a hash table
  of doubly linked lists, historical ones in a ring, back-trace entries shared between them.
  As in Ubrd, None is a fault: a bad pointer, a double free, a lock taken twice, or the
  deliberate crash of the sanity checks ("trigger NE").
\<close>

section \<open>State\<close>

text \<open>\<open>ce_next\<close> is the union of \<open>next\<close> (chunk in use) and \<open>free_bt\<close> (historical chunk).\<close>

record chunk_entry =
  ce_start :: u32
  ce_bytes :: u32
  ce_prev :: u32
  ce_next :: u32
  ce_bt :: u32

record md_config =
  mdMspaceSize :: u32
  mdHistoricalBufferSize :: u32
  mdMaxBtDepth :: u32
  mdSig :: u8
  mdBtMethod :: u8
  mdMspaceSource :: u8

text \<open>
  The globals: configuration, mspace (its mapping and handle) and the full flag, the three
  tables, the three mutexes, the heap of the debug mspace by kind of block, the memory of the
  process as bytes, and the flags, the configuration word and the fork buffer of
  malloc_debug_mtk.c.
\<close>

record md =
  gDebugConfig :: md_config
  gDebugMspaceBase :: u32
  gDebugMspace :: u32
  debug15_mspace_full :: bool
  mb_count :: u32
  mb_slots :: "nat \<Rightarrow> u32"
  mc_count :: u32
  mc_base :: u32
  mc_size :: nat
  mc_slots :: "nat \<Rightarrow> u32"
  mh_head :: nat
  mh_base :: u32
  mh_slots :: "nat \<Rightarrow> u32"
  gChunkMutex :: bool
  gBtMutex :: bool
  gHistoryMutex :: bool
  md_bts :: "u32 \<Rightarrow> bt_entry option"
  md_chunks :: "u32 \<Rightarrow> chunk_entry option"
  md_fbts :: "u32 \<Rightarrow> u32 list option"
  md_mem :: "u32 \<Rightarrow> u8"
  malloc_debug15_enabled :: bool
  malloc_func_hooked :: bool
  debug15_config :: u32
  gMspaceBuffer :: u32

definition CHUNK_HASH_BITS :: nat where "CHUNK_HASH_BITS = 10"
definition CHUNK_HASH_TABLE_SIZE :: nat where "CHUNK_HASH_TABLE_SIZE = 2 ^ CHUNK_HASH_BITS"
definition SIZE_FLAG_MASK :: u32 where "SIZE_FLAG_MASK = 0x80000000"
definition INTERNAL_MEM :: u8 where "INTERNAL_MEM = 0"
definition EXTERNAL_MEM :: u8 where "EXTERNAL_MEM = 1"
definition MAP_FAILED :: u32 where "MAP_FAILED = -1"

definition DEFAULT_DEBUG_CONFIG :: md_config where
  "DEFAULT_DEBUG_CONFIG = \<lparr>mdMspaceSize = 4 * 1024 * 1024, mdHistoricalBufferSize = 2046,
     mdMaxBtDepth = 5, mdSig = 0, mdBtMethod = 0, mdMspaceSource = EXTERNAL_MEM\<rparr>"

text \<open>The globals as the library is loaded.\<close>

definition md_start :: md where
  "md_start =
     \<lparr>gDebugConfig = DEFAULT_DEBUG_CONFIG, gDebugMspaceBase = 0, gDebugMspace = 0, debug15_mspace_full = True,
      mb_count = 0, mb_slots = (\<lambda>_. 0), mc_count = 0, mc_base = 0, mc_size = 0, mc_slots = (\<lambda>_. 0),
      mh_head = 0, mh_base = 0, mh_slots = (\<lambda>_. 0), gChunkMutex = False, gBtMutex = False,
      gHistoryMutex = False, md_bts = Map.empty, md_chunks = Map.empty, md_fbts = Map.empty,
      md_mem = (\<lambda>_. 0), malloc_debug15_enabled = False, malloc_func_hooked = False,
      debug15_config = 0, gMspaceBuffer = 0\<rparr>"

definition md_live :: "md \<Rightarrow> u32 set" where
  "md_live st = dom (md_bts st) \<union> dom (md_chunks st) \<union> dom (md_fbts st) \<union> {mc_base st, mh_base st}"

section \<open>Locks\<close>

definition chunk_mutex_lock :: "md \<Rightarrow> md option" where
  "chunk_mutex_lock st = (if gChunkMutex st then None else Some (st\<lparr>gChunkMutex := True\<rparr>))"

definition chunk_mutex_unlock :: "md \<Rightarrow> md" where
  "chunk_mutex_unlock st = st\<lparr>gChunkMutex := False\<rparr>"

definition bt_lock :: "md \<Rightarrow> md option" where
  "bt_lock st = (if gBtMutex st then None else Some (st\<lparr>gBtMutex := True\<rparr>))"

definition history_lock :: "md \<Rightarrow> md option" where
  "history_lock st = (if gHistoryMutex st then None else Some (st\<lparr>gHistoryMutex := True\<rparr>))"

definition multi_mutex_lock :: "md \<Rightarrow> md option" where
  "multi_mutex_lock st = do { s1 \<leftarrow> chunk_mutex_lock st; s2 \<leftarrow> bt_lock s1; history_lock s2 }"

definition multi_mutex_unlock :: "md \<Rightarrow> md" where
  "multi_mutex_unlock st = st\<lparr>gHistoryMutex := False, gBtMutex := False, gChunkMutex := False\<rparr>"

section \<open>The bytes of the process\<close>

fun load_bytes :: "(u32 \<Rightarrow> u8) \<Rightarrow> u32 \<Rightarrow> nat \<Rightarrow> u8 list" where
  "load_bytes m a 0 = []"
| "load_bytes m a (Suc n) = m a # load_bytes m (a + 1) n"

definition load_word :: "(u32 \<Rightarrow> u8) \<Rightarrow> u32 \<Rightarrow> u32" where
  "load_word m a = ucast (m a) OR push_bit 8 (ucast (m (a + 1)))
     OR push_bit 16 (ucast (m (a + 2))) OR push_bit 24 (ucast (m (a + 3)))"

definition store_word :: "(u32 \<Rightarrow> u8) \<Rightarrow> u32 \<Rightarrow> u32 \<Rightarrow> u32 \<Rightarrow> u8" where
  "store_word m a w = m(a := ucast w, a + 1 := ucast (drop_bit 8 w),
     a + 2 := ucast (drop_bit 16 w), a + 3 := ucast (drop_bit 24 w))"

definition memset :: "(u32 \<Rightarrow> u8) \<Rightarrow> u32 \<Rightarrow> u8 \<Rightarrow> nat \<Rightarrow> u32 \<Rightarrow> u8" where
  "memset m a v n = (\<lambda>x. if unat (x - a) < n then v else m x)"

definition memcpy :: "(u32 \<Rightarrow> u8) \<Rightarrow> u32 \<Rightarrow> u32 \<Rightarrow> nat \<Rightarrow> u32 \<Rightarrow> u8" where
  "memcpy m d s n = (\<lambda>x. if unat (x - d) < n then m (s + (x - d)) else m x)"

section \<open>Start up\<close>

text \<open>
  \<open>exm\<close> is the external memory device when it is configured: None when it cannot be opened,
  Some of what its mapping answers; \<open>mmap\<close> answers for anonymous memory and
  \<open>create_mspace\<close> for dlmalloc. The fallback to internal memory is compiled in.
\<close>

definition md_try_external :: "(u32 \<Rightarrow> u32) option \<Rightarrow> md \<Rightarrow> md" where
  "md_try_external exm st =
     (if mdMspaceSource (gDebugConfig st) = EXTERNAL_MEM then
        (case exm of
           None \<Rightarrow> st\<lparr>gDebugConfig := (gDebugConfig st)\<lparr>mdMspaceSource := INTERNAL_MEM\<rparr>\<rparr>
         | Some f \<Rightarrow>
             let b = f (mdMspaceSize (gDebugConfig st)) in
             if b = MAP_FAILED then
               st\<lparr>gDebugMspaceBase := 0,
                  gDebugConfig := (gDebugConfig st)\<lparr>mdMspaceSource := INTERNAL_MEM\<rparr>\<rparr>
             else st\<lparr>gDebugMspaceBase := b,
                     md_mem := memset (md_mem st) b 0 (unat (mdMspaceSize (gDebugConfig st)))\<rparr>)
      else st)"

definition init_debug_mspace ::
    "(u32 \<Rightarrow> u32) option \<Rightarrow> (u32 \<Rightarrow> u32) \<Rightarrow> (u32 \<Rightarrow> u32 \<Rightarrow> u32) \<Rightarrow> md \<Rightarrow> int \<times> md" where
  "init_debug_mspace exm mmap create_mspace st =
     (if gDebugMspaceBase st \<noteq> 0 \<and> gDebugMspaceBase st \<noteq> MAP_FAILED then (0, st)
      else
        let s1 = md_try_external exm st;
            need = (gDebugMspaceBase s1 = 0 \<or> gDebugMspaceBase s1 = MAP_FAILED);
            s2 = (if need then s1\<lparr>gDebugMspaceBase := mmap (mdMspaceSize (gDebugConfig s1))\<rparr> else s1)
        in
        if need \<and> gDebugMspaceBase s2 = MAP_FAILED then (-1, s2)
        else
          let s3 = s2\<lparr>gDebugMspace := create_mspace (gDebugMspaceBase s2) (mdMspaceSize (gDebugConfig s2))\<rparr> in
          if gDebugMspace s3 = 0 then (-1, s3) else (0, s3\<lparr>debug15_mspace_full := False\<rparr>))"

definition init_recorder :: "(u32 set \<Rightarrow> nat \<Rightarrow> u32) \<Rightarrow> md \<Rightarrow> int \<times> md" where
  "init_recorder malloc st =
     (if gDebugMspace st = 0 \<or> debug15_mspace_full st then (-1, st)
      else
        let s1 = st\<lparr>mc_base := malloc (md_live st) (4 * CHUNK_HASH_TABLE_SIZE)\<rparr>;
            s2 = s1\<lparr>mh_base := malloc (md_live s1) (4 * unat (mdHistoricalBufferSize (gDebugConfig s1)))\<rparr>
        in
        if mc_base s2 \<noteq> 0 \<and> mh_base s2 \<noteq> 0 then
          (0, s2\<lparr>mh_head := 0, mc_size := CHUNK_HASH_TABLE_SIZE, mc_slots := (\<lambda>_. 0), mh_slots := (\<lambda>_. 0)\<rparr>)
        else (-1, s2))"

section \<open>Back traces\<close>

fun md_get_hash :: "u32 \<Rightarrow> u32 list \<Rightarrow> u32" where
  "md_get_hash h [] = h"
| "md_get_hash h (w # ws) = md_get_hash (h * 33 + signed_drop_bit 2 w) ws"

definition in_mspace_bounds :: "md \<Rightarrow> u32 \<Rightarrow> bool" where
  "in_mspace_bounds st p \<longleftrightarrow>
     \<not> (p < gDebugMspaceBase st \<or> p \<ge> gDebugMspaceBase st + mdMspaceSize (gDebugConfig st))"

partial_function (option) find_entry_list ::
    "md \<Rightarrow> u32 list \<Rightarrow> nat \<Rightarrow> u32 \<Rightarrow> u32 \<Rightarrow> u32 option" where
  "find_entry_list st bt numEntries sz entry =
     (if entry = 0 then Some 0
      else do {
        n \<leftarrow> md_bts st entry;
        (if bt_matches bt numEntries sz n then Some entry
         else if be_next n \<noteq> 0 \<and> \<not> in_mspace_bounds st (be_next n) then None
         else find_entry_list st bt numEntries sz (be_next n))
      })"

definition find_entry :: "md \<Rightarrow> nat \<Rightarrow> u32 list \<Rightarrow> nat \<Rightarrow> u32 \<Rightarrow> u32 option" where
  "find_entry st slot bt numEntries sz = find_entry_list st bt numEntries sz (mb_slots st slot)"

definition md_push_bt :: "u32 \<Rightarrow> bt_entry \<Rightarrow> md \<Rightarrow> md option" where
  "md_push_bt entry n st =
     (let slot = be_slot n; h1 = (md_bts st)(entry \<mapsto> n) in do {
        h2 \<leftarrow> (if be_next n \<noteq> 0 then store h1 (be_next n) (be_prev_update (\<lambda>_. entry)) else Some h1);
        Some (st\<lparr>md_bts := h2, mb_slots := (mb_slots st)(slot := entry), mb_count := mb_count st + 1\<rparr>)
      })"

definition record_backtrace ::
    "(u32 set \<Rightarrow> nat \<Rightarrow> u32) \<Rightarrow> u32 list \<Rightarrow> u32 \<Rightarrow> md \<Rightarrow> (u32 \<times> md) option" where
  "record_backtrace malloc bt sz st =
     (let numEntries = length bt;
          slot = unat (md_get_hash 0 bt) mod BT_HASH_TABLE_SIZE
      in
      if sz AND SIZE_FLAG_MASK \<noteq> 0 then None
      else do {
        s0 \<leftarrow> bt_lock st;
        entry \<leftarrow> find_entry s0 slot bt numEntries sz;
        (if entry \<noteq> 0 then do {
           h \<leftarrow> store (md_bts s0) entry (\<lambda>n. n\<lparr>be_allocations := be_allocations n + 1\<rparr>);
           Some (entry, s0\<lparr>md_bts := h, gBtMutex := False\<rparr>)
         }
         else
           let new = malloc (md_live s0) (28 + numEntries * 4) in
           if new = 0 then Some (0, s0\<lparr>gBtMutex := False\<rparr>)
           else do {
             s1 \<leftarrow> md_push_bt new \<lparr>be_slot = slot, be_prev = 0, be_next = mb_slots s0 slot,
                    be_numEntries = numEntries, be_free_referenced = 0, be_size = sz,
                    be_allocations = 1, be_backtrace = bt\<rparr> s0;
             Some (new, s1\<lparr>gBtMutex := False\<rparr>)
           })
      })"

definition remove_entry :: "u32 \<Rightarrow> md \<Rightarrow> md option" where
  "remove_entry e st = do {
     n \<leftarrow> md_bts st e;
     h1 \<leftarrow> (if be_prev n \<noteq> 0 then store (md_bts st) (be_prev n) (be_next_update (\<lambda>_. be_next n)) else Some (md_bts st));
     h2 \<leftarrow> (if be_next n \<noteq> 0 then store h1 (be_next n) (be_prev_update (\<lambda>_. be_prev n)) else Some h1);
     slots \<leftarrow> (if be_prev n = 0 then
                (if be_slot n < BT_HASH_TABLE_SIZE then Some ((mb_slots st)(be_slot n := be_next n)) else None)
              else Some (mb_slots st));
     Some (st\<lparr>md_bts := h2, mb_slots := slots, mb_count := mb_count st - 1\<rparr>)
   }"

section \<open>Current allocations\<close>

definition chunk_slot :: "u32 \<Rightarrow> nat" where
  "chunk_slot buffer = unat (hash_32 buffer CHUNK_HASH_BITS) mod CHUNK_HASH_TABLE_SIZE"

definition record_chunk_info ::
    "(u32 set \<Rightarrow> nat \<Rightarrow> u32) \<Rightarrow> u32 \<Rightarrow> u32 \<Rightarrow> u32 \<Rightarrow> md \<Rightarrow> (u32 \<times> md) option" where
  "record_chunk_info malloc bt_entry buffer bytes st =
     (let slot = chunk_slot buffer in do {
        s0 \<leftarrow> chunk_mutex_lock st;
        let entry = malloc (md_live s0) 20;
        (if entry = 0 then Some (0, chunk_mutex_unlock s0)
         else
           let head = mc_slots s0 slot;
               h0 = (md_chunks s0)(entry \<mapsto> \<lparr>ce_start = buffer, ce_bytes = bytes, ce_prev = 0,
                      ce_next = (if head = 0 then 0 else head), ce_bt = bt_entry\<rparr>)
           in do {
             h1 \<leftarrow> (if head = 0 then Some h0 else store h0 head (ce_prev_update (\<lambda>_. entry)));
             Some (entry, chunk_mutex_unlock
               (s0\<lparr>md_chunks := h1, mc_slots := (mc_slots s0)(slot := entry), mc_count := mc_count s0 + 1\<rparr>))
           })
      })"

partial_function (option) find_chunk_list :: "md \<Rightarrow> u32 \<Rightarrow> u32 \<Rightarrow> u32 option" where
  "find_chunk_list st buffer e =
     (if e = 0 then Some 0
      else do {
        n \<leftarrow> md_chunks st e;
        (if ce_start n = buffer then Some e else find_chunk_list st buffer (ce_next n))
      })"

definition unlink_chunk :: "nat \<Rightarrow> u32 \<Rightarrow> chunk_entry \<Rightarrow> md \<Rightarrow> md option" where
  "unlink_chunk slot e n st =
     (if ce_prev n = 0 then
        let slots = (mc_slots st)(slot := ce_next n) in do {
          h \<leftarrow> (if slots slot \<noteq> 0 then store (md_chunks st) (slots slot) (ce_prev_update (\<lambda>_. 0)) else Some (md_chunks st));
          Some (st\<lparr>mc_slots := slots, md_chunks := h\<rparr>)
        }
      else if ce_next n = 0 then do {
        h \<leftarrow> store (md_chunks st) (ce_prev n) (ce_next_update (\<lambda>_. 0));
        Some (st\<lparr>md_chunks := h\<rparr>)
      }
      else do {
        h1 \<leftarrow> store (md_chunks st) (ce_next n) (ce_prev_update (\<lambda>_. ce_prev n));
        h2 \<leftarrow> store h1 (ce_prev n) (ce_next_update (\<lambda>_. ce_next n));
        Some (st\<lparr>md_chunks := h2\<rparr>)
      })"

section \<open>Looking an allocation up\<close>

text \<open>\<open>hdr->size\<close>: the word 8 bytes before the user pointer, in both kinds of header.\<close>

definition hdr_size :: "md \<Rightarrow> u32 \<Rightarrow> u32" where
  "hdr_size st p = load_word (md_mem st) (p - 8)"

definition set_hdr_size :: "u32 \<Rightarrow> u32 \<Rightarrow> md \<Rightarrow> md" where
  "set_hdr_size p v st = st\<lparr>md_mem := store_word (md_mem st) (p - 8) v\<rparr>"

definition val_in_debug15_mspace :: "md \<Rightarrow> u32 \<Rightarrow> bool" where
  "val_in_debug15_mspace st v \<longleftrightarrow>
     v > gDebugMspaceBase st \<and> v < gDebugMspaceBase st + mdMspaceSize (gDebugConfig st)"

definition find_current :: "md \<Rightarrow> u32 \<Rightarrow> (u32 \<times> md) option" where
  "find_current st buffer =
     (let sz = hdr_size st buffer in
      if val_in_debug15_mspace st sz then do {
        n \<leftarrow> md_chunks st sz;
        Some (sz, set_hdr_size buffer (ce_bytes n) st)
      }
      else do {
        e \<leftarrow> find_chunk_list st buffer (mc_slots st (chunk_slot buffer));
        Some (e, st)
      })"

definition find_and_delete_current_entry :: "u32 \<Rightarrow> md \<Rightarrow> (u32 \<times> md) option" where
  "find_and_delete_current_entry buffer st =
     (if buffer = 0 \<or> debug15_mspace_full st then Some (0, st)
      else do {
        s0 \<leftarrow> chunk_mutex_lock st;
        (e, s1) \<leftarrow> find_current s0 buffer;
        (if e = 0 then Some (0, chunk_mutex_unlock s1)
         else do {
           n \<leftarrow> md_chunks s1 e;
           s2 \<leftarrow> unlink_chunk (chunk_slot buffer) e n s1;
           h \<leftarrow> store (md_chunks s2) e (\<lambda>n. n\<lparr>ce_next := 0, ce_prev := 0\<rparr>);
           Some (e, chunk_mutex_unlock (s2\<lparr>mc_count := mc_count s2 - 1, md_chunks := h\<rparr>))
         })
      })"

section \<open>Historical allocations\<close>

definition drop_bt_entry :: "u32 \<Rightarrow> u32 \<Rightarrow> md \<Rightarrow> md option" where
  "drop_bt_entry old b st = do {
     s2 \<leftarrow> remove_entry b st;
     h \<leftarrow> free_block (md_bts s2) b;
     c \<leftarrow> store (md_chunks s2) old (ce_bt_update (\<lambda>_. 0));
     Some (s2\<lparr>md_bts := h, md_chunks := c\<rparr>)
   }"

definition drop_bt_ref :: "u32 \<Rightarrow> u32 \<Rightarrow> md \<Rightarrow> md option" where
  "drop_bt_ref old b st =
     (if b > gDebugMspace st then do {
        h \<leftarrow> store (md_bts st) b (\<lambda>n. n\<lparr>be_free_referenced := be_free_referenced n - 1\<rparr>);
        n \<leftarrow> h b;
        (if be_allocations n = 0 \<and> be_free_referenced n = 0 then drop_bt_entry old b (st\<lparr>md_bts := h\<rparr>)
         else Some (st\<lparr>md_bts := h\<rparr>))
      }
      else Some st)"

definition drop_free_bt :: "u32 \<Rightarrow> u32 \<Rightarrow> md \<Rightarrow> md option" where
  "drop_free_bt old fb st =
     (if fb > gDebugMspace st then do {
        f \<leftarrow> free_block (md_fbts st) fb;
        c \<leftarrow> store (md_chunks st) old (ce_next_update (\<lambda>_. 0));
        Some (st\<lparr>md_fbts := f, md_chunks := c\<rparr>)
      }
      else Some st)"

definition md_drop_old :: "u32 \<Rightarrow> md \<Rightarrow> md option" where
  "md_drop_old old st = do {
     n \<leftarrow> md_chunks st old;
     s1 \<leftarrow> drop_bt_ref old (ce_bt n) st;
     s2 \<leftarrow> drop_free_bt old (ce_next n) s1;
     c \<leftarrow> free_block (md_chunks s2) old;
     Some (s2\<lparr>md_chunks := c\<rparr>)
   }"

definition md_ring_put :: "u32 \<Rightarrow> md \<Rightarrow> (u32 \<times> md) option" where
  "md_ring_put entry st =
     (let sz = unat (mdHistoricalBufferSize (gDebugConfig st)) in
      if mh_head st < sz then
        let old = mh_slots st (mh_head st); head = mh_head st + 1 in
        Some (old, st\<lparr>mh_slots := (mh_slots st)(mh_head st := entry), mh_head := (if sz \<le> head then 0 else head)\<rparr>)
      else None)"

text \<open>The trace of the allocation: one more free reference, one allocation less.\<close>

definition reference_freed :: "u32 \<Rightarrow> md \<Rightarrow> md option" where
  "reference_freed entry st = do {
     n \<leftarrow> md_chunks st entry;
     (if ce_bt n \<noteq> 0 then do {
        h \<leftarrow> store (md_bts st) (ce_bt n)
               (\<lambda>b. b\<lparr>be_free_referenced := be_free_referenced b + 1,
                     be_allocations := (if be_allocations b > 0 then be_allocations b - 1 else be_allocations b)\<rparr>);
        Some (st\<lparr>md_bts := h\<rparr>)
      }
      else None)
   }"

text \<open>The new trace, of the free: its block (0 when there is no memory) is linked to the entry.\<close>

definition attach_free_bt :: "(u32 set \<Rightarrow> nat \<Rightarrow> u32) \<Rightarrow> u32 \<Rightarrow> u32 list \<Rightarrow> md \<Rightarrow> (u32 \<times> md) option" where
  "attach_free_bt malloc entry bt st =
     (let fb = malloc (md_live st) (4 + length bt * 4) in do {
        c \<leftarrow> store (md_chunks st) entry (ce_next_update (\<lambda>_. fb));
        Some (fb, st\<lparr>md_chunks := c, md_fbts := (if fb = 0 then md_fbts st else (md_fbts st)(fb \<mapsto> bt))\<rparr>)
      })"

definition ring_exchange :: "u32 \<Rightarrow> md \<Rightarrow> (u32 \<times> md) option" where
  "ring_exchange entry st = do {
     s1 \<leftarrow> history_lock st;
     (old, s2) \<leftarrow> md_ring_put entry s1;
     Some (old, s2\<lparr>gHistoryMutex := False\<rparr>)
   }"

definition move_to_historical ::
    "(u32 set \<Rightarrow> nat \<Rightarrow> u32) \<Rightarrow> u32 \<Rightarrow> u32 list \<Rightarrow> md \<Rightarrow> (int \<times> md) option" where
  "move_to_historical malloc entry bt st = do {
     s0 \<leftarrow> bt_lock st;
     s1 \<leftarrow> reference_freed entry s0;
     (fb, s2) \<leftarrow> attach_free_bt malloc entry bt s1;
     (if fb = 0 then Some (-1, s2\<lparr>gBtMutex := False\<rparr>)
      else do {
        (old, s3) \<leftarrow> ring_exchange entry (s2\<lparr>gBtMutex := False\<rparr>);
        s4 \<leftarrow> bt_lock s3;
        s5 \<leftarrow> (if old \<noteq> 0 then md_drop_old old s4 else Some s4);
        Some (0, s5\<lparr>gBtMutex := False\<rparr>)
      })
   }"

end
