(* ===== verification/MdGuard.thy ===== *)
theory MdGuard
  imports MdRecorder
begin

text \<open>
  The allocation functions of the malloc debugger
  (src/proprietary/external/libudf/malloc_debug/malloc_debug_mtk.c), 32-bit build with
  DEBUG15_GUARD_CHECK: headers with front guards, rear guards, poisoning, and the exported
  malloc family on top of the recorder. libc's functions, once malloc_func_rehook has bound
  them, are arguments: \<open>real\<close> is its malloc (size to address, 0 when it fails), calloc and
  realloc also answer with the memory they leave. The debug mspace's allocator is \<open>malloc\<close>,
  the unwinder's trace is \<open>bt\<close>.
\<close>

section \<open>Guards\<close>

definition FRONT_GUARD_MALLOC :: u8 where "FRONT_GUARD_MALLOC = 0xa1"
definition FRONT_GUARD_MALLOC_FREE :: u8 where "FRONT_GUARD_MALLOC_FREE = 0xb1"
definition FRONT_GUARD_MEMALIGN :: u8 where "FRONT_GUARD_MEMALIGN = 0xa2"
definition FRONT_GUARD_MEMALIGN_FREE :: u8 where "FRONT_GUARD_MEMALIGN_FREE = 0xb2"
definition REAR_GUARD :: u8 where "REAR_GUARD = 0xbb"
definition POISON_FREE_FILL :: u8 where "POISON_FREE_FILL = 0xef"
definition POISON_FREE_LEN :: u32 where "POISON_FREE_LEN = 8"
definition FRONT_GUARD_LEN :: nat where "FRONT_GUARD_LEN = 4"
definition REAR_GUARD_LEN :: nat where "REAR_GUARD_LEN = 4"
definition MEMALIGN_MAGIC_NO :: u32 where "MEMALIGN_MAGIC_NO = 0xcececece"
definition MALLOC_TYPE :: int where "MALLOC_TYPE = 1"
definition MEMALIGN_TYPE :: int where "MEMALIGN_TYPE = 2"
definition ILLEGAL_TYPE :: int where "ILLEGAL_TYPE = -1"
definition MALLOC_ALIGNMENT :: u32 where "MALLOC_ALIGNMENT = 8"
definition MD_ENOMEM :: int where "MD_ENOMEM = 12"

text \<open>\<open>sizeof(mtk_hdr_malloc)\<close> is 8, \<open>sizeof(mtk_hdr_memalign_rear)\<close> 12, \<open>sizeof(mtk_ftr_t)\<close> 4.\<close>

definition init_guard_malloc :: "u32 \<Rightarrow> u32 \<Rightarrow> (u32 \<Rightarrow> u8) \<Rightarrow> u32 \<Rightarrow> u8" where
  "init_guard_malloc hdr sz m =
     (let m1 = store_word m hdr sz;
          m2 = memset m1 (hdr + 4) FRONT_GUARD_MALLOC FRONT_GUARD_LEN;
          ftr = (hdr + 8) + load_word m2 hdr
      in memset m2 ftr REAR_GUARD REAR_GUARD_LEN)"

definition init_guard_memalign :: "u32 \<Rightarrow> u32 \<Rightarrow> u32 \<Rightarrow> (u32 \<Rightarrow> u8) \<Rightarrow> u32 \<Rightarrow> u8" where
  "init_guard_memalign hdr base sz m =
     (let m1 = store_word (store_word m hdr base) (hdr + 4) sz;
          m2 = memset m1 (hdr + 8) FRONT_GUARD_MEMALIGN FRONT_GUARD_LEN;
          ftr = (hdr + 12) + load_word m2 (hdr + 4)
      in memset m2 ftr REAR_GUARD REAR_GUARD_LEN)"

definition guard_is :: "(u32 \<Rightarrow> u8) \<Rightarrow> u32 \<Rightarrow> u8 \<Rightarrow> bool" where
  "guard_is m a v \<longleftrightarrow> list_all (\<lambda>b. b = v) (load_bytes m a FRONT_GUARD_LEN)"

text \<open>In both kinds of header the front guard is the four bytes before the user pointer.\<close>

definition slim_front_guard_type :: "(u32 \<Rightarrow> u8) \<Rightarrow> u32 \<Rightarrow> int" where
  "slim_front_guard_type m p =
     (if guard_is m ((p - 8) + 4) FRONT_GUARD_MALLOC then MALLOC_TYPE
      else if guard_is m ((p - 12) + 8) FRONT_GUARD_MEMALIGN then MEMALIGN_TYPE
      else ILLEGAL_TYPE)"

definition slim_front_free_guard_type :: "(u32 \<Rightarrow> u8) \<Rightarrow> u32 \<Rightarrow> int" where
  "slim_front_free_guard_type m p =
     (if guard_is m ((p - 8) + 4) FRONT_GUARD_MALLOC_FREE then MALLOC_TYPE
      else if guard_is m ((p - 12) + 8) FRONT_GUARD_MEMALIGN_FREE then MEMALIGN_TYPE
      else ILLEGAL_TYPE)"

text \<open>The size a header stands for: its size field, or what the entry it points to says.\<close>

definition real_size :: "md \<Rightarrow> u32 \<Rightarrow> u32 option" where
  "real_size st p =
     (let sz = hdr_size st p in
      if val_in_debug15_mspace st sz then do { n \<leftarrow> md_chunks st sz; Some (ce_bytes n) } else Some sz)"

definition init_slim_guard_free_poison :: "u32 \<Rightarrow> int \<Rightarrow> md \<Rightarrow> md option" where
  "init_slim_guard_free_poison p type st =
     (if type = MALLOC_TYPE \<or> type = MEMALIGN_TYPE then do {
        sz \<leftarrow> real_size st p;
        let len = (if sz > POISON_FREE_LEN then POISON_FREE_LEN else sz);
        let v = (if type = MALLOC_TYPE then FRONT_GUARD_MALLOC_FREE else FRONT_GUARD_MEMALIGN_FREE);
        let m1 = memset (md_mem st) (p - 4) v FRONT_GUARD_LEN;
        Some (st\<lparr>md_mem := memset m1 p POISON_FREE_FILL (unat len)\<rparr>)
      }
      else Some st)"

text \<open>
  The check of a pointer given to free: its type and the block libc knows, -1 when a guard is
  damaged (the diagnostic texts are left out).
\<close>

definition slim_guard_check :: "md \<Rightarrow> u32 \<Rightarrow> (int \<times> u32) option" where
  "slim_guard_check st p =
     (let type = slim_front_guard_type (md_mem st) p in
      if type = MALLOC_TYPE \<or> type = MEMALIGN_TYPE then do {
        sz \<leftarrow> real_size st p;
        let base = (if type = MALLOC_TYPE then p - 8 else load_word (md_mem st) (p - 12));
        (if list_all (\<lambda>b. b = REAR_GUARD) (load_bytes (md_mem st) (p + sz) REAR_GUARD_LEN)
         then Some (type, base) else Some (ILLEGAL_TYPE, base))
      }
      else Some (ILLEGAL_TYPE, 0))"

section \<open>Recording\<close>

definition clean_exit :: "md \<Rightarrow> md" where
  "clean_exit st = st\<lparr>debug15_mspace_full := True\<rparr>"

definition malloc_record_info ::
    "(u32 set \<Rightarrow> nat \<Rightarrow> u32) \<Rightarrow> u32 list \<Rightarrow> u32 \<Rightarrow> u32 \<Rightarrow> md \<Rightarrow> md option" where
  "malloc_record_info malloc bt buffer bytes st =
     (if buffer = 0 \<or> debug15_mspace_full st then Some st
      else if gDebugMspace st = 0 then Some st
      else if length bt > 32 then Some (clean_exit st)
      else do {
        (b, s1) \<leftarrow> record_backtrace malloc bt bytes st;
        (if b = 0 then Some (clean_exit s1)
         else do {
           (e, s2) \<leftarrow> record_chunk_info malloc b buffer bytes s1;
           (if e = 0 then Some (clean_exit s2) else Some (set_hdr_size buffer e s2))
         })
      })"

definition free_remove_info ::
    "(u32 set \<Rightarrow> nat \<Rightarrow> u32) \<Rightarrow> u32 list \<Rightarrow> u32 \<Rightarrow> md \<Rightarrow> md option" where
  "free_remove_info malloc bt entry st =
     (if entry = 0 \<or> debug15_mspace_full st then Some st
      else if gDebugMspace st = 0 then Some st
      else if length bt > 32 then Some (clean_exit st)
      else do {
        (r, s1) \<leftarrow> move_to_historical malloc entry bt st;
        Some (if r < 0 then clean_exit s1 else s1)
      })"

section \<open>The exported functions\<close>

definition md_malloc ::
    "(u32 \<Rightarrow> u32) \<Rightarrow> (u32 set \<Rightarrow> nat \<Rightarrow> u32) \<Rightarrow> u32 list \<Rightarrow> u32 \<Rightarrow> md \<Rightarrow> (u32 \<times> md) option" where
  "md_malloc real malloc bt bytes st =
     (if malloc_debug15_enabled st then
        let sz = 8 + bytes + 4; hdr = real sz;
            buffer = (if hdr \<noteq> 0 then hdr + 8 else 0);
            s1 = (if hdr \<noteq> 0 then st\<lparr>md_mem := init_guard_malloc hdr bytes (md_mem st)\<rparr> else st)
        in do {
          s2 \<leftarrow> malloc_record_info malloc bt buffer bytes s1;
          Some (buffer, s2)
        }
      else Some (real bytes, st))"

text \<open>
  free aborts the process, does nothing, or hands a block to libc's free: \<open>real_free\<close> is what that does to the memory.
\<close>

datatype free_result = Aborted | Ignored | Freed u32

definition md_free ::
    "(u32 \<Rightarrow> (u32 \<Rightarrow> u8) \<Rightarrow> (u32 \<Rightarrow> u8)) \<Rightarrow> (u32 set \<Rightarrow> nat \<Rightarrow> u32) \<Rightarrow> u32 list \<Rightarrow> u32 \<Rightarrow> md \<Rightarrow> (free_result \<times> md) option" where
  "md_free real_free malloc bt p st =
     (if p = 0 then Some (Ignored, st)
      else if malloc_debug15_enabled st then do {
        s0 \<leftarrow> chunk_mutex_lock st;
        (type, base) \<leftarrow> slim_guard_check s0 p;
        (if type = ILLEGAL_TYPE then Some (Aborted, s0)
         else do {
           s1 \<leftarrow> init_slim_guard_free_poison p type s0;
           (e, s2) \<leftarrow> find_and_delete_current_entry p (chunk_mutex_unlock s1);
           s3 \<leftarrow> free_remove_info malloc bt e s2;
           Some (Freed base, s3\<lparr>md_mem := real_free base (md_mem s3)\<rparr>)
         })
      }
      else Some (Freed p, st\<lparr>md_mem := real_free p (md_mem st)\<rparr>))"

text \<open>None is the abort on a damaged front guard.\<close>

definition md_malloc_usable_size :: "(u32 \<Rightarrow> u32) \<Rightarrow> u32 \<Rightarrow> md \<Rightarrow> u32 option" where
  "md_malloc_usable_size real_usable p st =
     (if p = 0 then Some 0
      else if malloc_debug15_enabled st then
        (if slim_front_guard_type (md_mem st) p = ILLEGAL_TYPE then None else real_size st p)
      else Some (real_usable p))"

definition md_calloc ::
    "(u32 \<Rightarrow> u32 \<Rightarrow> (u32 \<Rightarrow> u8) \<Rightarrow> u32 \<times> (u32 \<Rightarrow> u8)) \<Rightarrow> (u32 set \<Rightarrow> nat \<Rightarrow> u32) \<Rightarrow> u32 list
     \<Rightarrow> u32 \<Rightarrow> u32 \<Rightarrow> md \<Rightarrow> (u32 \<times> md) option" where
  "md_calloc real_calloc malloc bt n_elements elem_size st =
     (if malloc_debug15_enabled st then
        let bytes = n_elements * elem_size; sz = 8 + bytes + 4 in
        if sz < bytes then Some (0, st)
        else
          let (hdr, m) = real_calloc 1 sz (md_mem st);
              buffer = (if hdr \<noteq> 0 then hdr + 8 else 0);
              s1 = st\<lparr>md_mem := (if hdr \<noteq> 0 then init_guard_malloc hdr bytes m else m)\<rparr>
          in do {
            s2 \<leftarrow> malloc_record_info malloc bt buffer bytes s1;
            Some (buffer, s2)
          }
      else
        let (a, m) = real_calloc n_elements elem_size (md_mem st) in Some (a, st\<lparr>md_mem := m\<rparr>))"

definition md_realloc_finish ::
    "(u32 set \<Rightarrow> nat \<Rightarrow> u32) \<Rightarrow> u32 list \<Rightarrow> u32 \<Rightarrow> u32 \<Rightarrow> md \<Rightarrow> (u32 \<times> md) option" where
  "md_realloc_finish malloc bt hdr bytes st = do {
     s \<leftarrow> malloc_record_info malloc bt (hdr + 8) bytes (st\<lparr>md_mem := init_guard_malloc hdr bytes (md_mem st)\<rparr>);
     Some (hdr + 8, s)
   }"

text \<open>None is also the abort inside free on a damaged block.\<close>

definition md_realloc ::
    "(u32 \<Rightarrow> u32) \<Rightarrow> (u32 \<Rightarrow> u32 \<Rightarrow> (u32 \<Rightarrow> u8) \<Rightarrow> u32 \<times> (u32 \<Rightarrow> u8)) \<Rightarrow> (u32 \<Rightarrow> (u32 \<Rightarrow> u8) \<Rightarrow> (u32 \<Rightarrow> u8))
     \<Rightarrow> (u32 set \<Rightarrow> nat \<Rightarrow> u32) \<Rightarrow> u32 list \<Rightarrow> u32 \<Rightarrow> u32 \<Rightarrow> md \<Rightarrow> (u32 \<times> md) option" where
  "md_realloc real real_realloc real_free malloc bt old bytes st =
     (if \<not> malloc_debug15_enabled st then
        let (a, m) = real_realloc old bytes (md_mem st) in Some (a, st\<lparr>md_mem := m\<rparr>)
      else if old = 0 \<and> bytes = 0 then Some (0, st)
      else
        let sz = 8 + bytes + 4 in
        if sz < bytes then Some (0, st)
        else if old = 0 then
          let hdr = real sz in
          if hdr = 0 then Some (0, st) else md_realloc_finish malloc bt hdr bytes st
        else if bytes = 0 then do {
          (r, s1) \<leftarrow> md_free real_free malloc bt old st;
          (if r = Aborted then None else Some (0, s1))
        }
        else do {
          copy0 \<leftarrow> real_size st old;
          let hdr = real sz;
          (if hdr = 0 then Some (0, st)
           else
             let copy = (if copy0 < bytes then copy0 else bytes);
                 s1 = st\<lparr>md_mem := memcpy (md_mem st) (hdr + 8) old (unat copy)\<rparr>
             in do {
               (r, s2) \<leftarrow> md_free real_free malloc bt old s1;
               (if r = Aborted then None else md_realloc_finish malloc bt hdr bytes s2)
             })
        })"

section \<open>Aligned allocation\<close>

definition powerof2 :: "u32 \<Rightarrow> bool" where
  "powerof2 x \<longleftrightarrow> (x - 1) AND x = 0"

fun bit_length :: "nat \<Rightarrow> nat" where
  "bit_length n = (if n = 0 then 0 else Suc (bit_length (n div 2)))"

declare bit_length.simps [simp del]

text \<open>\<open>1 << (32 - clz(v))\<close>\<close>

definition round_up_power_of_2 :: "u32 \<Rightarrow> u32" where
  "round_up_power_of_2 v = push_bit (bit_length (unat v)) 1"

definition align_ptr :: "u32 \<Rightarrow> u32 \<Rightarrow> u32" where
  "align_ptr alignment ptr = (if ptr mod alignment \<noteq> 0 then ptr + (- ptr) mod alignment else ptr)"

definition mtk_guard_memalign :: "(u32 \<Rightarrow> u32) \<Rightarrow> u32 \<Rightarrow> u32 \<Rightarrow> md \<Rightarrow> (u32 \<times> md) option" where
  "mtk_guard_memalign real alignment0 bytes st =
     (let alignment = (if powerof2 alignment0 then alignment0 else round_up_power_of_2 alignment0);
          sz = alignment + bytes + 12 + 4 + 2 * 4
      in
      if sz < bytes then Some (0, st)
      else
        let base = real sz in
        if base = 0 then Some (0, st)
        else if alignment = 0 then None
        else
          let hdr_base = base + 8;
              ptr = align_ptr alignment (hdr_base + 12);
              hdr = ptr - 12;
              m1 = store_word (md_mem st) base MEMALIGN_MAGIC_NO;
              m2 = store_word m1 (base + 4) hdr
          in Some (hdr + 12, st\<lparr>md_mem := init_guard_memalign hdr base bytes m2\<rparr>))"

definition md_memalign ::
    "(u32 \<Rightarrow> u32) \<Rightarrow> (u32 \<Rightarrow> u32 \<Rightarrow> u32) \<Rightarrow> (u32 set \<Rightarrow> nat \<Rightarrow> u32) \<Rightarrow> u32 list \<Rightarrow> u32 \<Rightarrow> u32 \<Rightarrow> md
     \<Rightarrow> (u32 \<times> md) option" where
  "md_memalign real real_memalign malloc bt alignment bytes st =
     (if malloc_debug15_enabled st then
        (if alignment \<le> MALLOC_ALIGNMENT then md_malloc real malloc bt bytes st
         else do {
           (buffer, s1) \<leftarrow> mtk_guard_memalign real alignment bytes st;
           s2 \<leftarrow> malloc_record_info malloc bt buffer bytes s1;
           Some (buffer, s2)
         })
      else Some (real_memalign alignment bytes, st))"

text \<open>The result is the return value and what is stored through \<open>pp\<close> (None: nothing is).\<close>

definition md_posix_memalign ::
    "(u32 \<Rightarrow> u32) \<Rightarrow> (u32 \<Rightarrow> u32 \<Rightarrow> int \<times> u32 option) \<Rightarrow> (u32 set \<Rightarrow> nat \<Rightarrow> u32) \<Rightarrow> u32 list \<Rightarrow> u32 \<Rightarrow> u32 \<Rightarrow> md
     \<Rightarrow> (int \<times> u32 option \<times> md) option" where
  "md_posix_memalign real real_posix malloc bt alignment bytes st =
     (if malloc_debug15_enabled st then
        (if alignment \<le> MALLOC_ALIGNMENT then do {
           (buffer, s1) \<leftarrow> md_malloc real malloc bt bytes st;
           Some (if buffer \<noteq> 0 then 0 else MD_ENOMEM, if buffer \<noteq> 0 then Some buffer else None, s1)
         }
         else do {
           (p, s1) \<leftarrow> mtk_guard_memalign real alignment bytes st;
           let ret = (if p \<noteq> 0 then 0 else MD_ENOMEM);
           let buffer = (if ret = 0 then p else 0);
           s2 \<leftarrow> malloc_record_info malloc bt buffer bytes s1;
           Some (ret, Some p, s2)
         })
      else (case real_posix alignment bytes of (r, p) \<Rightarrow> Some (r, p, st)))"

definition md_pvalloc ::
    "(u32 \<Rightarrow> u32) \<Rightarrow> (u32 \<Rightarrow> u32) \<Rightarrow> (u32 set \<Rightarrow> nat \<Rightarrow> u32) \<Rightarrow> u32 list \<Rightarrow> u32 \<Rightarrow> u32 \<Rightarrow> md
     \<Rightarrow> (u32 \<times> md) option" where
  "md_pvalloc real real_pvalloc malloc bt pagesize bytes st =
     (if malloc_debug15_enabled st then
        let sz = (bytes + pagesize - 1) AND NOT (pagesize - 1) in
        if sz < bytes then Some (0, st)
        else do {
          (buffer, s1) \<leftarrow> mtk_guard_memalign real pagesize sz st;
          s2 \<leftarrow> malloc_record_info malloc bt buffer sz s1;
          Some (buffer, s2)
        }
      else Some (real_pvalloc bytes, st))"

definition md_valloc ::
    "(u32 \<Rightarrow> u32) \<Rightarrow> (u32 \<Rightarrow> u32) \<Rightarrow> (u32 set \<Rightarrow> nat \<Rightarrow> u32) \<Rightarrow> u32 list \<Rightarrow> u32 \<Rightarrow> u32 \<Rightarrow> md
     \<Rightarrow> (u32 \<times> md) option" where
  "md_valloc real real_valloc malloc bt pagesize bytes st =
     (if malloc_debug15_enabled st then do {
        (buffer, s1) \<leftarrow> mtk_guard_memalign real pagesize bytes st;
        s2 \<leftarrow> malloc_record_info malloc bt buffer bytes s1;
        Some (buffer, s2)
      }
      else Some (real_valloc bytes, st))"

section \<open>Iteration\<close>

text \<open>libc's own malloc_disable and malloc_enable, called first and last, keep this state.\<close>

definition malloc_disable :: "md \<Rightarrow> md option" where
  "malloc_disable st = multi_mutex_lock st"

definition malloc_enable :: "md \<Rightarrow> md" where
  "malloc_enable st = multi_mutex_unlock st"

end
