(* ===== verification/MdMem.thy ===== *)
theory MdMem
  imports MdRecorder
begin

text \<open>
  Facts about the bytes of the process: regions as offsets from their start, what a byte is after
  memset, memcpy and a word store, and reading a word or a guard back.
\<close>

section \<open>Regions\<close>

definition in_region :: "u32 \<Rightarrow> nat \<Rightarrow> u32 \<Rightarrow> bool" where
  "in_region a n x \<longleftrightarrow> unat (x - a) < n"

lemma region_shift: "in_region d n x \<Longrightarrow> in_region s n (s + (x - d))"
  by (simp add: in_region_def)

lemma in_region_at: "n \<le> 2 ^ 32 \<Longrightarrow> i < n \<Longrightarrow> in_region a n (a + of_nat i)"
  by (simp add: in_region_def unat_of_nat)

lemma region_iff:
  assumes "n \<le> 2 ^ 32"
  shows "in_region a n x \<longleftrightarrow> (\<exists>i < n. x = a + of_nat i)"
proof
  assume "in_region a n x"
  then have "unat (x - a) < n" "x = a + of_nat (unat (x - a))" by (simp_all add: in_region_def)
  then show "\<exists>i < n. x = a + of_nat i" by blast
next
  assume "\<exists>i < n. x = a + of_nat i"
  then show "in_region a n x" using in_region_at [OF assms] by blast
qed

text \<open>A region that starts \<open>c\<close> bytes further on.\<close>

lemma region_offset:
  fixes x a c :: u32
  assumes "unat c + n \<le> 2 ^ 32"
  shows "unat (x - (a + c)) < n \<longleftrightarrow> unat c \<le> unat (x - a) \<and> unat (x - a) < unat c + n"
proof -
  have e: "x - (a + c) = (x - a) - c" by simp
  note unat_u32_less [of "x - a"]
  with assms show ?thesis unfolding e unat_sub_if' by auto
qed

lemma offset_eq: "x = a + c \<longleftrightarrow> unat (x - a) = unat c" for x a c :: u32
  by (metis add_diff_cancel_left' diff_add_cancel add.commute word_unat_eq_iff)

section \<open>Bytes after a write\<close>

lemma memset_at: "memset m a v n x = (if in_region a n x then v else m x)"
  by (simp add: memset_def in_region_def)

lemma memcpy_at: "memcpy m d s n x = (if in_region d n x then m (s + (x - d)) else m x)"
  by (simp add: memcpy_def in_region_def)

text \<open>The bytes of a word, the least significant first.\<close>

definition word_byte :: "u32 \<Rightarrow> nat \<Rightarrow> u8" where
  "word_byte w i = ucast (drop_bit (8 * i) w)"

lemma less4: "i < 4 \<longleftrightarrow> i = 0 \<or> i = 1 \<or> i = 2 \<or> i = (3 :: nat)"
  by auto

lemma store_word_at: "store_word m a w x = (if in_region a 4 x then word_byte w (unat (x - a)) else m x)"
proof -
  have "unat (x - a) = 0 \<longleftrightarrow> x = a" by (simp add: unat_eq_zero)
  then show ?thesis
    using offset_eq [of x a 1] offset_eq [of x a 2] offset_eq [of x a 3]
    by (auto simp: store_word_def in_region_def less4 word_byte_def)
qed

lemma load_word_eqI:
  assumes "m a = word_byte w 0" "m (a + 1) = word_byte w 1" "m (a + 2) = word_byte w 2" "m (a + 3) = word_byte w 3"
  shows "load_word m a = w"
proof (rule bit_word_eqI)
  fix n assume "n < LENGTH(32)"
  then consider "n < 8" | "8 \<le> n" "n < 16" | "16 \<le> n" "n < 24" | "24 \<le> n" "n < 32" by fastforce
  then show "bit (load_word m a) n = bit w n"
    by cases (auto simp: load_word_def assms word_byte_def bit_simps)
qed

lemma load_word_cong:
  assumes "m a = m' a" "m (a + 1) = m' (a + 1)" "m (a + 2) = m' (a + 2)" "m (a + 3) = m' (a + 3)"
  shows "load_word m a = load_word m' a"
  by (simp add: load_word_def assms)

lemma load_bytes_all: "list_all P (load_bytes m a n) \<longleftrightarrow> (\<forall>i < n. P (m (a + of_nat i)))"
proof (induction n arbitrary: a)
  case (Suc n)
  have "(\<forall>i < Suc n. P (m (a + of_nat i))) \<longleftrightarrow> P (m a) \<and> (\<forall>i < n. P (m (a + of_nat (Suc i))))"
    by (auto simp: less_Suc_eq_0_disj)
  then show ?case using Suc [of "a + 1"] by (simp add: add.assoc)
qed simp

end
