(* ===== verification/MdFrame.thy ===== *)
theory MdFrame
  imports MdGuard MdMem
begin

text \<open>
  Lemmas on the allocation functions: the bytes a guarded block has, and what the recorder leaves
  alone (the memory of the program but for the size word of the block, the bounds of the debug
  mspace, the chunk mutex once it is released).
\<close>

section \<open>The bytes of a guarded block\<close>

lemmas guard_bytes = FRONT_GUARD_MALLOC_def FRONT_GUARD_MALLOC_FREE_def FRONT_GUARD_MEMALIGN_def
  FRONT_GUARD_MEMALIGN_FREE_def REAR_GUARD_def POISON_FREE_FILL_def

lemmas guard_types = MALLOC_TYPE_def MEMALIGN_TYPE_def ILLEGAL_TYPE_def

lemma guard_is_iff: "guard_is m a v \<longleftrightarrow> (\<forall>i < 4. m (a + of_nat i) = v)"
  by (simp add: guard_is_def load_bytes_all FRONT_GUARD_LEN_def)

lemma guard_is_region: "guard_is m a v \<longleftrightarrow> (\<forall>x. in_region a 4 x \<longrightarrow> m x = v)"
  by (auto simp: guard_is_iff region_iff)

lemma init_guard_malloc_at:
  assumes "unat sz + 12 \<le> 2 ^ 32"
  shows "init_guard_malloc h sz m x =
    (let d = unat (x - h) in
     if d < 4 then word_byte sz d else if d < 8 then FRONT_GUARD_MALLOC
     else if 8 + unat sz \<le> d \<and> d < 12 + unat sz then REAR_GUARD else m x)"
proof -
  let ?m2 = "memset (store_word m h sz) (h + 4) FRONT_GUARD_MALLOC FRONT_GUARD_LEN"
  have off4: "in_region (h + 4) 4 y \<longleftrightarrow> 4 \<le> unat (y - h) \<and> unat (y - h) < 8" for y
    using region_offset [of 4 4 y h] by (simp add: in_region_def)
  have d: "unat (h + 1 - h) = 1" "unat (h + 2 - h) = 2" "unat (h + 3 - h) = 3" by simp_all
  have m2: "?m2 y = (if unat (y - h) < 4 then word_byte sz (unat (y - h))
      else if unat (y - h) < 8 then FRONT_GUARD_MALLOC else m y)" for y
    by (auto simp: memset_at off4 FRONT_GUARD_LEN_def store_word_at) (auto simp: in_region_def)
  have lw: "load_word ?m2 h = sz"
    by (rule load_word_eqI) (simp_all add: m2)
  have u: "unat (8 + sz) = 8 + unat sz" using assms by (subst unat_add_u32) auto
  have off: "in_region (h + 8 + sz) 4 x \<longleftrightarrow> 8 + unat sz \<le> unat (x - h) \<and> unat (x - h) < 12 + unat sz"
    using region_offset [of "8 + sz" 4 x h] assms unfolding u by (simp add: in_region_def add.assoc)
  show ?thesis
    unfolding init_guard_malloc_def Let_def lw memset_at [of ?m2] off REAR_GUARD_LEN_def m2 by auto
qed


section \<open>What the recorder leaves alone\<close>

text \<open>The memory of the process, the bounds of the debug mspace, the chunk mutex and the switch.\<close>

definition same_user :: "md \<Rightarrow> md \<Rightarrow> bool" where
  "same_user s t \<longleftrightarrow> md_mem t = md_mem s \<and> gDebugMspaceBase t = gDebugMspaceBase s \<and> gDebugConfig t = gDebugConfig s
     \<and> malloc_debug15_enabled t = malloc_debug15_enabled s \<and> gChunkMutex t = gChunkMutex s"

lemma same_user_refl [simp]: "same_user s s"
  by (simp add: same_user_def)

lemma same_user_trans: "same_user s t \<Longrightarrow> same_user t u \<Longrightarrow> same_user s u"
  by (simp add: same_user_def)

lemma same_user_mspace: "same_user s t \<Longrightarrow> val_in_debug15_mspace t v = val_in_debug15_mspace s v"
  by (simp add: same_user_def val_in_debug15_mspace_def)

lemma md_push_bt_same:
  "md_push_bt e n st = Some s \<Longrightarrow> same_user st s \<and> md_chunks s = md_chunks st \<and> gHistoryMutex s = gHistoryMutex st"
  by (auto simp: md_push_bt_def same_user_def Let_def split: if_splits Option.bind_splits)

lemma bt_lock_Some: "bt_lock st = Some s \<longleftrightarrow> \<not> gBtMutex st \<and> s = st\<lparr>gBtMutex := True\<rparr>"
  by (auto simp: bt_lock_def)

lemma record_backtrace_same:
  assumes "record_backtrace malloc bt sz st = Some (b, s)"
  shows "same_user st s \<and> md_chunks s = md_chunks st"
proof -
  let ?slot = "unat (md_get_hash 0 bt) mod BT_HASH_TABLE_SIZE"
  let ?s0 = "st\<lparr>gBtMutex := True\<rparr>"
  have s0: "same_user st ?s0" "md_chunks ?s0 = md_chunks st" by (simp_all add: same_user_def)
  have u: "\<not> gBtMutex st" "sz AND SIZE_FLAG_MASK = 0"
    using assms by (simp_all add: record_backtrace_def Let_def bt_lock_def split: if_split_asm)
  obtain e where fe: "find_entry ?s0 ?slot bt (length bt) sz = Some e"
    using assms u by (cases "find_entry ?s0 ?slot bt (length bt) sz") (simp_all add: record_backtrace_def Let_def bt_lock_def)
  have body: "(if e \<noteq> 0 then do {
           h \<leftarrow> store (md_bts ?s0) e (\<lambda>n. n\<lparr>be_allocations := be_allocations n + 1\<rparr>);
           Some (e, ?s0\<lparr>md_bts := h, gBtMutex := False\<rparr>)
         }
         else
           let new = malloc (md_live ?s0) (28 + length bt * 4) in
           if new = 0 then Some (0, ?s0\<lparr>gBtMutex := False\<rparr>)
           else do {
             s1 \<leftarrow> md_push_bt new \<lparr>be_slot = ?slot, be_prev = 0, be_next = mb_slots ?s0 ?slot,
                    be_numEntries = length bt, be_free_referenced = 0, be_size = sz,
                    be_allocations = 1, be_backtrace = bt\<rparr> ?s0;
             Some (new, s1\<lparr>gBtMutex := False\<rparr>)
           }) = Some (b, s)"
    using assms u fe by (simp add: record_backtrace_def Let_def bt_lock_def)
  show ?thesis
  proof (cases "e \<noteq> 0")
    case True
    then show ?thesis using body by (auto simp: bind_eq_Some_conv same_user_def)
  next
    case False
    then consider "s = ?s0\<lparr>gBtMutex := False\<rparr>"
      | n s1 where "md_push_bt (malloc (md_live ?s0) (28 + length bt * 4)) n ?s0 = Some s1" "s = s1\<lparr>gBtMutex := False\<rparr>"
      using body by (auto simp: Let_def bind_eq_Some_conv split: if_split_asm)
    then show ?thesis
    proof cases
      case 2
      show ?thesis using md_push_bt_same [OF 2(1)] 2(2) by (simp add: same_user_def)
    qed (simp add: same_user_def)
  qed
qed

lemma store_dom: "store h e f = Some h' \<Longrightarrow> h e \<noteq> None"
  by (auto simp: store_def split: option.splits)

lemma store_at: "store h e f = Some h' \<Longrightarrow> h' x = (if x = e then map_option f (h e) else h x)"
  by (auto simp: store_def split: option.splits)

lemma record_chunk_info_same:
  assumes "record_chunk_info malloc b buf n st = Some (e, s)"
  shows "same_user st s \<and> (e \<noteq> 0 \<longrightarrow> (\<exists>c. md_chunks s e = Some c \<and> ce_bytes c = n) \<and> (\<exists>L. e = malloc L 20))"
proof -
  let ?s0 = "st\<lparr>gChunkMutex := True\<rparr>"
  let ?e = "malloc (md_live ?s0) 20"
  let ?head = "mc_slots ?s0 (chunk_slot buf)"
  let ?c = "\<lparr>ce_start = buf, ce_bytes = n, ce_prev = 0, ce_next = ?head, ce_bt = b\<rparr>"
  let ?h0 = "(md_chunks ?s0)(?e \<mapsto> ?c)"
  have u: "\<not> gChunkMutex st"
    using assms by (simp add: record_chunk_info_def Let_def chunk_mutex_lock_def split: if_split_asm)
  have head: "(if x = 0 then 0 else x) = x" for x :: u32 by simp
  show ?thesis
  proof (cases "?e = 0")
    case True
    then have "e = 0" "s = st\<lparr>gChunkMutex := False\<rparr>"
      using assms u by (simp_all add: record_chunk_info_def Let_def chunk_mutex_lock_def chunk_mutex_unlock_def)
    then show ?thesis using u by (simp add: same_user_def)
  next
    case False
    let ?H = "if ?head = 0 then Some ?h0 else store ?h0 ?head (ce_prev_update (\<lambda>_. ?e))"
    let ?G = "\<lambda>h1. chunk_mutex_unlock
         (?s0\<lparr>md_chunks := h1, mc_slots := (mc_slots ?s0)(chunk_slot buf := ?e), mc_count := mc_count ?s0 + 1\<rparr>)"
    have eq: "?H \<bind> (\<lambda>h1. Some (?e, ?G h1)) = Some (e, s)"
      using assms u False by (simp add: record_chunk_info_def Let_def chunk_mutex_lock_def head split del: if_split cong: if_cong)
    then obtain h1 where h1: "?H = Some h1" and es: "Some (?e, ?G h1) = Some (e, s)"
      unfolding bind_eq_Some_conv by blast
    then have e: "e = ?e" and s: "s = ?G h1" by (metis option.inject prod.inject)+
    have "\<exists>c. h1 ?e = Some c \<and> ce_bytes c = n"
    proof (cases "?head = 0")
      case True
      then have "h1 = ?h0" using h1 by simp
      then show ?thesis by simp
    next
      case False
      then have "store ?h0 ?head (ce_prev_update (\<lambda>_. ?e)) = Some h1" using h1 by simp
      from store_at [OF this, of ?e] show ?thesis by simp
    qed
    then show ?thesis using u by (auto simp: e s same_user_def chunk_mutex_unlock_def)
  qed
qed

text \<open>Recording changes nothing of the program's memory but the size word of the block.\<close>

lemma malloc_record_info_same:
  assumes "malloc_record_info malloc bt buffer bytes st = Some s"
  obtains "same_user st s"
  | e c where "same_user (set_hdr_size buffer e st) s" "md_chunks s e = Some c" "ce_bytes c = bytes" "e \<noteq> 0" "\<exists>L. e = malloc L 20"
proof -
  consider "s = st" | "s = clean_exit st"
    | b s1 where "record_backtrace malloc bt bytes st = Some (b, s1)"
      "(if b = 0 then Some (clean_exit s1)
        else record_chunk_info malloc b buffer bytes s1 \<bind>
          (\<lambda>(e, s2). if e = 0 then Some (clean_exit s2) else Some (set_hdr_size buffer e s2))) = Some s"
    using assms by (auto simp: malloc_record_info_def split: if_splits Option.bind_splits)
  then show ?thesis
  proof cases
    case 3
    note r = record_backtrace_same [OF 3(1)]
    show ?thesis
    proof (cases "b = 0")
      case True
      then show ?thesis using 3(2) r that(1) by (auto simp: clean_exit_def same_user_def)
    next
      case False
      then obtain e s2 where c: "record_chunk_info malloc b buffer bytes s1 = Some (e, s2)"
        "(if e = 0 then Some (clean_exit s2) else Some (set_hdr_size buffer e s2)) = Some s"
        using 3(2) by (auto split: Option.bind_splits)
      note k = record_chunk_info_same [OF c(1)]
      show ?thesis
      proof (cases "e = 0")
        case True
        then show ?thesis using c(2) r k that(1) by (auto simp: clean_exit_def same_user_def)
      next
        case e: False
        have "s = set_hdr_size buffer e s2" using c(2) e by simp
        moreover obtain ch where "md_chunks s2 e = Some ch" "ce_bytes ch = bytes" using k e by blast
        ultimately show ?thesis using that(2) [of e ch] r k e by (auto simp: same_user_def set_hdr_size_def)
      qed
    qed
  qed (use that in \<open>auto simp: clean_exit_def same_user_def\<close>)
qed


lemma remove_entry_same: "remove_entry e st = Some s \<Longrightarrow> same_user st s"
  by (auto simp: remove_entry_def bind_eq_Some_conv same_user_def)

lemma drop_bt_entry_same: "drop_bt_entry old b st = Some s \<Longrightarrow> same_user st s"
proof -
  assume "drop_bt_entry old b st = Some s"
  then obtain s2 h c where "remove_entry b st = Some s2" "s = s2\<lparr>md_bts := h, md_chunks := c\<rparr>"
    by (auto simp: drop_bt_entry_def bind_eq_Some_conv)
  then show ?thesis using remove_entry_same [of b st s2] by (simp add: same_user_def)
qed

lemma drop_bt_ref_same: "drop_bt_ref old b st = Some s \<Longrightarrow> same_user st s"
  by (auto simp: drop_bt_ref_def bind_eq_Some_conv same_user_def dest!: drop_bt_entry_same split: if_split_asm)

lemma drop_free_bt_same: "drop_free_bt old b st = Some s \<Longrightarrow> same_user st s"
  by (auto simp: drop_free_bt_def bind_eq_Some_conv same_user_def split: if_split_asm)

lemma md_drop_old_same: "md_drop_old old st = Some s \<Longrightarrow> same_user st s"
proof -
  assume "md_drop_old old st = Some s"
  then obtain n :: chunk_entry and s1 s2 c where "drop_bt_ref old (ce_bt n) st = Some s1" "drop_free_bt old (ce_next n) s1 = Some s2"
    "Some (s2\<lparr>md_chunks := c\<rparr>) = Some s"
    unfolding md_drop_old_def bind_eq_Some_conv by blast
  then show ?thesis using drop_bt_ref_same [of old "ce_bt n" st s1] drop_free_bt_same [of old "ce_next n" s1 s2]
    by (auto simp: same_user_def)
qed

lemma md_ring_put_same: "md_ring_put e st = Some (old, s) \<Longrightarrow> same_user st s"
  by (auto simp: md_ring_put_def Let_def same_user_def split: if_split_asm)

lemma reference_freed_same: "reference_freed e st = Some s \<Longrightarrow> same_user st s"
  by (auto simp: reference_freed_def bind_eq_Some_conv same_user_def split: if_split_asm)

lemma attach_free_bt_same: "attach_free_bt malloc e bt st = Some (fb, s) \<Longrightarrow> same_user st s"
  by (auto simp: attach_free_bt_def Let_def bind_eq_Some_conv same_user_def split: if_split_asm)

lemma ring_exchange_same: "ring_exchange e st = Some (old, s) \<Longrightarrow> same_user st s"
proof -
  assume "ring_exchange e st = Some (old, s)"
  then obtain s2 where "md_ring_put e (st\<lparr>gHistoryMutex := True\<rparr>) = Some (old, s2)" "s = s2\<lparr>gHistoryMutex := False\<rparr>"
    by (auto simp: ring_exchange_def history_lock_def bind_eq_Some_conv split: if_split_asm)
  then show ?thesis using md_ring_put_same [of e "st\<lparr>gHistoryMutex := True\<rparr>" old s2] by (simp add: same_user_def)
qed

lemma move_to_historical_same: "move_to_historical malloc e bt st = Some (r, s) \<Longrightarrow> same_user st s"
proof -
  assume m: "move_to_historical malloc e bt st = Some (r, s)"
  obtain s1 fb s2 where s1: "reference_freed e (st\<lparr>gBtMutex := True\<rparr>) = Some s1"
    and s2: "attach_free_bt malloc e bt s1 = Some (fb, s2)"
    and rest: "(if fb = 0 then Some (-1, s2\<lparr>gBtMutex := False\<rparr>)
      else do {
        (old, s3) \<leftarrow> ring_exchange e (s2\<lparr>gBtMutex := False\<rparr>);
        s4 \<leftarrow> bt_lock s3;
        s5 \<leftarrow> (if old \<noteq> 0 then md_drop_old old s4 else Some s4);
        Some (0, s5\<lparr>gBtMutex := False\<rparr>)
      }) = Some (r, s)"
    using m unfolding move_to_historical_def bind_eq_Some_conv bt_lock_Some by (auto simp only: prod.case)
  have 12: "same_user st s2"
    using reference_freed_same [OF s1] attach_free_bt_same [OF s2] by (simp add: same_user_def)
  show ?thesis
  proof (cases "fb = 0")
    case True
    then show ?thesis using rest 12 by (auto simp: same_user_def)
  next
    case False
    then obtain old s3 s5 where s3: "ring_exchange e (s2\<lparr>gBtMutex := False\<rparr>) = Some (old, s3)"
      and s5: "(if old \<noteq> 0 then md_drop_old old (s3\<lparr>gBtMutex := True\<rparr>) else Some (s3\<lparr>gBtMutex := True\<rparr>)) = Some s5"
      and s: "s = s5\<lparr>gBtMutex := False\<rparr>"
      using rest by (auto simp only: if_False bind_eq_Some_conv bt_lock_Some prod.case option.inject prod.inject)
    have "same_user (s3\<lparr>gBtMutex := True\<rparr>) s5"
      using s5 md_drop_old_same by (cases "old = 0") auto
    then show ?thesis using 12 ring_exchange_same [OF s3] s by (simp add: same_user_def)
  qed
qed

text \<open>Freeing the books changes nothing of the program's memory but the size word of the block.\<close>

lemma free_remove_info_same: "free_remove_info malloc bt e st = Some s \<Longrightarrow> same_user st s"
proof -
  assume f: "free_remove_info malloc bt e st = Some s"
  show ?thesis
  proof (cases "e = 0 \<or> debug15_mspace_full st \<or> gDebugMspace st = 0 \<or> length bt > 32")
    case True
    then have "s = st \<or> s = clean_exit st" using f by (auto simp: free_remove_info_def split: if_split_asm)
    then show ?thesis by (auto simp: clean_exit_def same_user_def)
  next
    case False
    then have "move_to_historical malloc e bt st \<bind> (\<lambda>(r, s1). Some (if r < 0 then clean_exit s1 else s1)) = Some s"
      using f by (simp add: free_remove_info_def)
    then obtain r s1 where "move_to_historical malloc e bt st = Some (r, s1)"
      and "Some (if r < 0 then clean_exit s1 else s1) = Some s"
      unfolding bind_eq_Some_conv by auto
    then show ?thesis using move_to_historical_same by (auto simp: clean_exit_def same_user_def split: if_split_asm)
  qed
qed

lemma unlink_chunk_same: "unlink_chunk slot e n st = Some s \<Longrightarrow> same_user st s"
  by (auto simp: unlink_chunk_def Let_def bind_eq_Some_conv same_user_def split: if_split_asm)

lemma find_current_same:
  assumes "find_current st p = Some (e, s)"
  shows "same_user st s \<or> (\<exists>w. same_user (set_hdr_size p w st) s)"
proof (cases "val_in_debug15_mspace st (hdr_size st p)")
  case True
  then obtain n :: chunk_entry where "s = set_hdr_size p (ce_bytes n) st"
    using assms by (auto simp: find_current_def Let_def bind_eq_Some_conv)
  then show ?thesis by (metis same_user_refl)
next
  case False
  then show ?thesis using assms by (auto simp: find_current_def Let_def bind_eq_Some_conv)
qed

lemma find_and_delete_same:
  assumes "find_and_delete_current_entry p st = Some (e, s)" "\<not> gChunkMutex st"
  shows "same_user st s \<or> (\<exists>w. same_user (set_hdr_size p w st) s)"
proof (cases "p = 0 \<or> debug15_mspace_full st")
  case True
  then show ?thesis using assms by (auto simp: find_and_delete_current_entry_def)
next
  case False
  let ?s0 = "st\<lparr>gChunkMutex := True\<rparr>"
  obtain e1 s1 where f: "find_current ?s0 p = Some (e1, s1)"
    and rest: "(if e1 = 0 then Some (0, chunk_mutex_unlock s1)
         else do {
           n \<leftarrow> md_chunks s1 e1;
           s2 \<leftarrow> unlink_chunk (chunk_slot p) e1 n s1;
           h \<leftarrow> store (md_chunks s2) e1 (\<lambda>n. n\<lparr>ce_next := 0, ce_prev := 0\<rparr>);
           Some (e1, chunk_mutex_unlock (s2\<lparr>mc_count := mc_count s2 - 1, md_chunks := h\<rparr>))
         }) = Some (e, s)"
    using assms False
    by (auto simp: find_and_delete_current_entry_def chunk_mutex_lock_def bind_eq_Some_conv split del: if_split)
  have "same_user (s1\<lparr>gChunkMutex := False\<rparr>) s"
  proof (cases "e1 = 0")
    case True
    then show ?thesis using rest by (auto simp: chunk_mutex_unlock_def)
  next
    case False
    then obtain n s2 h where "unlink_chunk (chunk_slot p) e1 n s1 = Some s2"
      "s = chunk_mutex_unlock (s2\<lparr>mc_count := mc_count s2 - 1, md_chunks := h\<rparr>)"
      using rest by (auto simp: bind_eq_Some_conv)
    then show ?thesis using unlink_chunk_same [of "chunk_slot p" e1 n s1 s2] by (simp add: same_user_def chunk_mutex_unlock_def)
  qed
  then show ?thesis using find_current_same [OF f] assms(2) by (auto simp: same_user_def set_hdr_size_def)
qed

end
