(* ===== verification/MdGuardProps.thy ===== *)
theory MdGuardProps
  imports MdFrame
begin

text \<open>What the allocation functions promise: guarded blocks, detected damage, preserved contents.\<close>

section \<open>An allocated block\<close>

text \<open>The bytes of a malloc block of \<open>n\<close> bytes whose size word holds \<open>w\<close>, over the memory \<open>m\<close>.\<close>

definition block_bytes :: "(u32 \<Rightarrow> u8) \<Rightarrow> u32 \<Rightarrow> u32 \<Rightarrow> u32 \<Rightarrow> u32 \<Rightarrow> u8" where
  "block_bytes m h w n x =
     (if in_region h 4 x then word_byte w (unat (x - h))
      else if in_region (h + 4) 4 x then FRONT_GUARD_MALLOC
      else if in_region (h + 8 + n) 4 x then REAR_GUARD else m x)"

lemma block_regions:
  assumes "unat n + 12 \<le> 2 ^ 32"
  shows "in_region h 4 x \<longleftrightarrow> unat (x - h) < 4"
    "in_region (h + 4) 4 x \<longleftrightarrow> 4 \<le> unat (x - h) \<and> unat (x - h) < 8"
    "in_region (h + 8) (unat n) x \<longleftrightarrow> 8 \<le> unat (x - h) \<and> unat (x - h) < 8 + unat n"
    "in_region (h + 8 + n) 4 x \<longleftrightarrow> 8 + unat n \<le> unat (x - h) \<and> unat (x - h) < 12 + unat n"
proof -
  have u: "unat (8 + n) = 8 + unat n" using assms by (subst unat_add_u32) auto
  show "in_region h 4 x \<longleftrightarrow> unat (x - h) < 4" by (simp add: in_region_def)
  show "in_region (h + 4) 4 x \<longleftrightarrow> 4 \<le> unat (x - h) \<and> unat (x - h) < 8"
    using region_offset [of 4 4 x h] by (simp add: in_region_def)
  show "in_region (h + 8) (unat n) x \<longleftrightarrow> 8 \<le> unat (x - h) \<and> unat (x - h) < 8 + unat n"
    using region_offset [of 8 "unat n" x h] assms by (simp add: in_region_def)
  show "in_region (h + 8 + n) 4 x \<longleftrightarrow> 8 + unat n \<le> unat (x - h) \<and> unat (x - h) < 12 + unat n"
    using region_offset [of "8 + n" 4 x h] assms unfolding u by (simp add: in_region_def add.assoc)
qed

lemma init_guard_malloc_block:
  assumes "unat n + 12 \<le> 2 ^ 32"
  shows "init_guard_malloc h n m = block_bytes m h n n"
  by (rule ext) (auto simp: init_guard_malloc_at [OF assms] block_bytes_def block_regions [OF assms, of h] Let_def)

lemma store_size_block:
  assumes "unat n + 12 \<le> 2 ^ 32"
  shows "store_word (block_bytes m h w n) h e = block_bytes m h e n"
  by (rule ext) (simp add: store_word_at block_bytes_def)

lemma block_bytes_read:
  assumes "unat n + 12 \<le> 2 ^ 32"
  shows "load_word (block_bytes m h w n) h = w"
    "guard_is (block_bytes m h w n) (h + 4) FRONT_GUARD_MALLOC"
    "guard_is (block_bytes m h w n) (h + 8 + n) REAR_GUARD"
    "in_region (h + 8) (unat n) x \<Longrightarrow> block_bytes m h w n x = m x"
proof -
  have "unat (h + 1 - h) = 1" "unat (h + 2 - h) = 2" "unat (h + 3 - h) = 3" by simp_all
  then show "load_word (block_bytes m h w n) h = w"
    by (intro load_word_eqI) (simp_all add: block_bytes_def block_regions [OF assms, of h])
  show "guard_is (block_bytes m h w n) (h + 4) FRONT_GUARD_MALLOC"
    by (auto simp: guard_is_region block_bytes_def block_regions [OF assms, of h])
  show "guard_is (block_bytes m h w n) (h + 8 + n) REAR_GUARD"
    by (auto simp: guard_is_region block_bytes_def block_regions [OF assms, of h])
  show "in_region (h + 8) (unat n) x \<Longrightarrow> block_bytes m h w n x = m x"
    by (auto simp: block_bytes_def block_regions [OF assms, of h])
qed

lemma hdr_addr: "(p :: u32) - 8 + 4 = p - 4" "(p - 12) + 8 = p - 4" "(h + 8 :: u32) - 8 = h" "(h + 8 :: u32) - 4 = h + 4"
  by (simp_all add: algebra_simps)

lemma front_type_at:
  "slim_front_guard_type m p =
     (if guard_is m (p - 4) FRONT_GUARD_MALLOC then MALLOC_TYPE
      else if guard_is m (p - 4) FRONT_GUARD_MEMALIGN then MEMALIGN_TYPE else ILLEGAL_TYPE)"
  by (simp add: slim_front_guard_type_def hdr_addr cong: if_cong)

lemma check_malloc_block:
  assumes "guard_is (md_mem st) (p - 4) FRONT_GUARD_MALLOC" "real_size st p = Some n" "guard_is (md_mem st) (p + n) REAR_GUARD"
  shows "slim_front_guard_type (md_mem st) p = MALLOC_TYPE" "slim_guard_check st p = Some (MALLOC_TYPE, p - 8)"
proof -
  show t: "slim_front_guard_type (md_mem st) p = MALLOC_TYPE"
    using assms(1) by (simp add: front_type_at)
  show "slim_guard_check st p = Some (MALLOC_TYPE, p - 8)"
    using assms(2,3) by (simp add: slim_guard_check_def t guard_is_def FRONT_GUARD_LEN_def REAR_GUARD_LEN_def)
qed

text \<open>
  Where the debug mspace answers: never outside itself. A block size is below it, so that the
  size word of a header tells a size from an entry.
\<close>

definition mspace_answers :: "(u32 set \<Rightarrow> nat \<Rightarrow> u32) \<Rightarrow> md \<Rightarrow> bool" where
  "mspace_answers malloc st \<longleftrightarrow> (\<forall>L k. malloc L k = 0 \<or> val_in_debug15_mspace st (malloc L k))"

lemma recorded_block:
  assumes st: "md_mem st = block_bytes m h n n" and fit: "unat n + 12 \<le> 2 ^ 32"
    and small: "\<not> val_in_debug15_mspace st n" and answers: "mspace_answers malloc st"
    and r: "malloc_record_info malloc bt (h + 8) n st = Some s"
  obtains w where "md_mem s = block_bytes m h w n" "real_size s (h + 8) = Some n"
    "malloc_debug15_enabled s = malloc_debug15_enabled st"
  using r
proof (cases rule: malloc_record_info_same)
  case 1
  then have m: "md_mem s = block_bytes m h n n" using st by (simp add: same_user_def)
  have "hdr_size s (h + 8) = n" by (simp add: hdr_size_def hdr_addr m block_bytes_read [OF fit])
  moreover have "\<not> val_in_debug15_mspace s n" using small same_user_mspace [OF 1] by simp
  ultimately have "real_size s (h + 8) = Some n" by (simp add: real_size_def)
  moreover have "malloc_debug15_enabled s = malloc_debug15_enabled st" using 1 by (simp add: same_user_def)
  ultimately show ?thesis by (rule that [OF m])
next
  case (2 e c)
  then have m: "md_mem s = block_bytes m h e n"
    using st store_size_block [OF fit] by (simp add: same_user_def set_hdr_size_def hdr_addr)
  have v: "val_in_debug15_mspace (set_hdr_size (h + 8) e st) v = val_in_debug15_mspace st v" for v
    by (simp add: val_in_debug15_mspace_def set_hdr_size_def)
  have "hdr_size s (h + 8) = e" by (simp add: hdr_size_def hdr_addr m block_bytes_read [OF fit])
  moreover have "val_in_debug15_mspace s e"
    using 2(4,5) answers same_user_mspace [OF 2(1)] by (auto simp: mspace_answers_def v)
  ultimately have "real_size s (h + 8) = Some n" using 2(2,3) by (simp add: real_size_def)
  moreover have "malloc_debug15_enabled s = malloc_debug15_enabled st"
    using 2(1) by (simp add: same_user_def set_hdr_size_def)
  ultimately show ?thesis by (rule that [OF m])
qed

text \<open>
  C4. With the debugger on, malloc returns a block between intact guards: the check of free
  accepts it and finds libc's block, malloc_usable_size says the bytes asked for, and no byte
  outside the header and the rear guard has changed.
\<close>

theorem malloc_gives_guarded_block:
  assumes "malloc_debug15_enabled st" "real (8 + bytes + 4) = h" "h \<noteq> 0" "unat h + unat bytes + 12 < 2 ^ 32"
    "\<not> val_in_debug15_mspace st bytes" "mspace_answers malloc st"
    "md_malloc real malloc bt bytes st = Some (p, s)"
  shows "p = h + 8 \<and> slim_guard_check s p = Some (MALLOC_TYPE, h) \<and> md_malloc_usable_size u p s = Some bytes
     \<and> (\<forall>x. \<not> in_region h 8 x \<and> \<not> in_region (p + bytes) 4 x \<longrightarrow> md_mem s x = md_mem st x)"
proof -
  have fit: "unat bytes + 12 \<le> 2 ^ 32" using assms(4) by simp
  let ?st = "st\<lparr>md_mem := block_bytes (md_mem st) h bytes bytes\<rparr>"
  have r: "malloc_record_info malloc bt (h + 8) bytes ?st = Some s" and p: "p = h + 8"
    using assms(1,2,3,7) by (auto simp: md_malloc_def Let_def init_guard_malloc_block [OF fit] bind_eq_Some_conv)
  have "\<not> val_in_debug15_mspace ?st bytes" "mspace_answers malloc ?st"
    using assms(5,6) by (simp_all add: val_in_debug15_mspace_def mspace_answers_def)
  then obtain w where m: "md_mem s = block_bytes (md_mem st) h w bytes" and sz: "real_size s (h + 8) = Some bytes"
    and on: "malloc_debug15_enabled s"
    using recorded_block [OF _ fit _ _ r] assms(1) by auto
  have front: "guard_is (md_mem s) (p - 4) FRONT_GUARD_MALLOC"
    using block_bytes_read(2) [OF fit] by (simp add: m p hdr_addr)
  have rear: "guard_is (md_mem s) (p + bytes) REAR_GUARD"
    using block_bytes_read(3) [OF fit] by (simp add: m p)
  have sz': "real_size s p = Some bytes" using sz p by simp
  have "unat p = unat h + 8" using assms(4) unfolding p by (subst unat_add_u32) auto
  then have p0: "p \<noteq> 0" by auto
  have out: "md_mem s x = md_mem st x" if "\<not> in_region h 8 x" "\<not> in_region (p + bytes) 4 x" for x
    using that by (auto simp: m p block_bytes_def block_regions [OF fit, of h]) (auto simp: in_region_def)
  show ?thesis
    using check_malloc_block [OF front sz' rear] out p0 on
    by (simp add: p hdr_addr md_malloc_usable_size_def sz [unfolded p] guard_types)
qed


section \<open>Damage\<close>

definition front_byte :: "int \<Rightarrow> u8" where
  "front_byte type = (if type = MALLOC_TYPE then FRONT_GUARD_MALLOC else FRONT_GUARD_MEMALIGN)"

lemma front_type_iff:
  "type \<noteq> ILLEGAL_TYPE \<Longrightarrow> slim_front_guard_type m p = type \<Longrightarrow>
     (type = MALLOC_TYPE \<or> type = MEMALIGN_TYPE) \<and> guard_is m (p - 4) (front_byte type)"
  by (auto simp: front_type_at front_byte_def guard_types split: if_split_asm)

lemma front_illegal: "\<not> guard_is m (p - 4) FRONT_GUARD_MALLOC \<Longrightarrow> \<not> guard_is m (p - 4) FRONT_GUARD_MEMALIGN \<Longrightarrow>
  slim_front_guard_type m p = ILLEGAL_TYPE"
  by (simp add: front_type_at)

lemma guard_check_accepts:
  assumes "slim_guard_check st p = Some (type, base)" "type \<noteq> ILLEGAL_TYPE" "real_size st p = Some n"
  shows "slim_front_guard_type (md_mem st) p = type" "guard_is (md_mem st) (p + n) REAR_GUARD"
  using assms by (auto simp: slim_guard_check_def guard_is_def FRONT_GUARD_LEN_def REAR_GUARD_LEN_def Let_def split: if_split_asm)

lemma guard_two: "guard_is m a v \<Longrightarrow> guard_is (m(x := w)) a v' \<Longrightarrow> v' = v"
proof -
  assume g: "guard_is m a v" "guard_is (m(x := w)) a v'"
  have ne: "a \<noteq> a + 1" by simp
  have r: "in_region a 4 a" "in_region a 4 (a + 1)" by (simp_all add: in_region_def)
  show "v' = v"
  proof (cases "x = a")
    case True
    then show ?thesis using g r(2) ne by (auto simp: guard_is_region)
  next
    case False
    then show ?thesis using g r(1) by (auto simp: guard_is_region)
  qed
qed

lemma guard_unique: "guard_is m a v \<Longrightarrow> guard_is m a w \<Longrightarrow> w = v"
  using guard_two [of m a v a "m a" w] by simp

lemma front_changed:
  assumes "slim_front_guard_type m p = type" "type \<noteq> ILLEGAL_TYPE" "in_region (p - 4) 4 x" "v \<noteq> m x"
  shows "slim_front_guard_type (m(x := v)) p = ILLEGAL_TYPE"
proof -
  have g: "guard_is m (p - 4) (front_byte type)" using front_type_iff [OF assms(2,1)] by simp
  have "\<not> guard_is (m(x := v)) (p - 4) w" for w
  proof
    assume w: "guard_is (m(x := v)) (p - 4) w"
    then have "w = m x" using guard_two [OF g w] g assms(3) by (auto simp: guard_is_region)
    then show False using w assms(3,4) by (auto simp: guard_is_region)
  qed
  then show ?thesis by (intro front_illegal)
qed

lemma real_size_cong:
  assumes "hdr_size s p = hdr_size st p" "md_chunks s = md_chunks st"
    "gDebugMspaceBase s = gDebugMspaceBase st" "gDebugConfig s = gDebugConfig st"
  shows "real_size s p = real_size st p"
  using assms by (simp add: real_size_def val_in_debug15_mspace_def Let_def cong: if_cong)

lemma lock_keeps_check [simp]:
  "real_size (st\<lparr>gChunkMutex := l\<rparr>) p = real_size st p"
  "slim_guard_check (st\<lparr>gChunkMutex := l\<rparr>) p = slim_guard_check st p"
proof -
  show r: "real_size (st\<lparr>gChunkMutex := l\<rparr>) p = real_size st p" by (rule real_size_cong) (simp_all add: hdr_size_def)
  show "slim_guard_check (st\<lparr>gChunkMutex := l\<rparr>) p = slim_guard_check st p"
    by (simp add: slim_guard_check_def r Let_def cong: if_cong)
qed

lemma unchecked_free_aborts:
  assumes "malloc_debug15_enabled st" "\<not> gChunkMutex st" "p \<noteq> 0" "slim_guard_check st p = Some (ILLEGAL_TYPE, b)"
  shows "\<exists>s. md_free rf malloc bt p st = Some (Aborted, s)"
  using assms by (simp add: md_free_def chunk_mutex_lock_def)

text \<open>
  C3. A single byte written over either guard of a block that was intact makes free abort, at
  whatever offset it lies and whatever its value.
\<close>

theorem overwritten_guard_aborts:
  assumes "malloc_debug15_enabled st" "\<not> gChunkMutex st" "p \<noteq> 0"
    "slim_guard_check st p = Some (type, base)" "type \<noteq> ILLEGAL_TYPE" "real_size st p = Some n"
    "unat n + 12 \<le> 2 ^ 32" "in_region (p - 4) 4 x \<or> in_region (p + n) 4 x" "v \<noteq> md_mem st x"
  shows "\<exists>s. md_free rf malloc bt p (st\<lparr>md_mem := (md_mem st)(x := v)\<rparr>) = Some (Aborted, s)"
proof -
  let ?s = "st\<lparr>md_mem := (md_mem st)(x := v)\<rparr>"
  note front = guard_check_accepts(1) [OF assms(4-6)] and rear = guard_check_accepts(2) [OF assms(4-6)]
  have p8: "p - 8 + 8 = p" "p - 8 + 4 = p - 4" by (simp_all add: algebra_simps)
  note reg = block_regions [OF assms(7), of "p - 8", unfolded p8]
  have x4: "\<not> unat (x - (p - 8)) < 4" using assms(8) by (auto simp: reg)
  have "x \<noteq> p - 8 + i" if "unat i < 4" for i using x4 that offset_eq [of x "p - 8" i] by auto
  from this [of 0] this [of 1] this [of 2] this [of 3]
  have "hdr_size ?s p = hdr_size st p" by (auto simp: hdr_size_def load_word_def)
  then have sz: "real_size ?s p = Some n" using assms(6) real_size_cong [of ?s p st] by simp
  have "\<exists>b. slim_guard_check ?s p = Some (ILLEGAL_TYPE, b)"
  proof (cases "in_region (p - 4) 4 x")
    case True
    then have "slim_front_guard_type (md_mem ?s) p = ILLEGAL_TYPE"
      using front_changed [OF front assms(5) True assms(9)] by simp
    then show ?thesis by (simp add: slim_guard_check_def guard_types)
  next
    case False
    then have r: "in_region (p + n) 4 x" using assms(8) by simp
    have "guard_is ((md_mem st)(x := v)) (p - 4) w = guard_is (md_mem st) (p - 4) w" for w
      using False by (auto simp: guard_is_region)
    then have "slim_front_guard_type (md_mem ?s) p = type"
      using front by (simp add: front_type_at split: if_split_asm)
    moreover have "\<not> guard_is (md_mem ?s) (p + n) REAR_GUARD" using r assms(9) rear by (auto simp: guard_is_region)
    ultimately show ?thesis
      using sz front_type_iff [OF assms(5) front]
      by (auto simp: slim_guard_check_def Let_def guard_is_def FRONT_GUARD_LEN_def REAR_GUARD_LEN_def)
  qed
  then show ?thesis using unchecked_free_aborts [of ?s p] assms(1-3) by auto
qed

section \<open>Freeing\<close>

lemma free_steps:
  assumes "md_free rf malloc bt p st = Some (Freed base, s)" "malloc_debug15_enabled st"
  obtains type s1 e s2 s3 where "p \<noteq> 0" "\<not> gChunkMutex st" "slim_guard_check st p = Some (type, base)" "type \<noteq> ILLEGAL_TYPE"
    "init_slim_guard_free_poison p type (st\<lparr>gChunkMutex := True\<rparr>) = Some s1"
    "find_and_delete_current_entry p (chunk_mutex_unlock s1) = Some (e, s2)"
    "free_remove_info malloc bt e s2 = Some s3" "s = s3\<lparr>md_mem := rf base (md_mem s3)\<rparr>"
proof -
  have p: "p \<noteq> 0" "\<not> gChunkMutex st"
    using assms by (auto simp: md_free_def chunk_mutex_lock_def split: if_split_asm)
  have "slim_guard_check st p \<bind> (\<lambda>(type, base'). if type = ILLEGAL_TYPE then Some (Aborted, st\<lparr>gChunkMutex := True\<rparr>)
      else do {
           s1 \<leftarrow> init_slim_guard_free_poison p type (st\<lparr>gChunkMutex := True\<rparr>);
           (e, s2) \<leftarrow> find_and_delete_current_entry p (chunk_mutex_unlock s1);
           s3 \<leftarrow> free_remove_info malloc bt e s2;
           Some (Freed base', s3\<lparr>md_mem := rf base' (md_mem s3)\<rparr>)
         }) = Some (Freed base, s)"
    using assms p by (simp add: md_free_def chunk_mutex_lock_def split del: if_split)
  then obtain type base' where t: "slim_guard_check st p = Some (type, base')"
    and rest: "(if type = ILLEGAL_TYPE then Some (Aborted, st\<lparr>gChunkMutex := True\<rparr>)
      else do {
           s1 \<leftarrow> init_slim_guard_free_poison p type (st\<lparr>gChunkMutex := True\<rparr>);
           (e, s2) \<leftarrow> find_and_delete_current_entry p (chunk_mutex_unlock s1);
           s3 \<leftarrow> free_remove_info malloc bt e s2;
           Some (Freed base', s3\<lparr>md_mem := rf base' (md_mem s3)\<rparr>)
         }) = Some (Freed base, s)"
    by (auto simp only: bind_eq_Some_conv prod.case)
  have ty: "type \<noteq> ILLEGAL_TYPE" using rest by auto
  then obtain s1 e s2 s3 where "init_slim_guard_free_poison p type (st\<lparr>gChunkMutex := True\<rparr>) = Some s1"
    "find_and_delete_current_entry p (chunk_mutex_unlock s1) = Some (e, s2)"
    "free_remove_info malloc bt e s2 = Some s3" "base' = base" "s = s3\<lparr>md_mem := rf base (md_mem s3)\<rparr>"
    using rest by (auto simp only: if_False bind_eq_Some_conv prod.case option.inject prod.inject free_result.inject)
  then show ?thesis using that p t ty by blast
qed


lemma guard_is_cong: "(\<And>x. in_region a 4 x \<Longrightarrow> m x = m' x) \<Longrightarrow> guard_is m a v = guard_is m' a v"
  by (auto simp: guard_is_region)

text \<open>The block around its user pointer \<open>p\<close>: what lies before it and what follows it.\<close>

lemma around_pointer:
  fixes p x :: u32
  assumes "n \<le> 2 ^ 31"
  shows "in_region (p - 8) 4 x \<longleftrightarrow> unat (x - (p - 8)) < 4"
    "in_region (p - 4) 4 x \<longleftrightarrow> 4 \<le> unat (x - (p - 8)) \<and> unat (x - (p - 8)) < 8"
    "in_region p n x \<longleftrightarrow> 8 \<le> unat (x - (p - 8)) \<and> unat (x - (p - 8)) < 8 + n"
proof -
  have p8: "p - 8 + 8 = p" "p - 8 + 4 = p - 4" by (simp_all add: algebra_simps)
  show "in_region (p - 8) 4 x \<longleftrightarrow> unat (x - (p - 8)) < 4" by (simp add: in_region_def)
  show "in_region (p - 4) 4 x \<longleftrightarrow> 4 \<le> unat (x - (p - 8)) \<and> unat (x - (p - 8)) < 8"
    using region_offset [of 4 4 x "p - 8"] by (simp add: in_region_def p8)
  show "in_region p n x \<longleftrightarrow> 8 \<le> unat (x - (p - 8)) \<and> unat (x - (p - 8)) < 8 + n"
    using region_offset [of 8 n x "p - 8"] assms by (simp add: in_region_def p8)
qed

definition freed_byte :: "int \<Rightarrow> u8" where
  "freed_byte type = (if type = MALLOC_TYPE then FRONT_GUARD_MALLOC_FREE else FRONT_GUARD_MEMALIGN_FREE)"

lemma poison_effect:
  assumes "init_slim_guard_free_poison p type st = Some s" "type = MALLOC_TYPE \<or> type = MEMALIGN_TYPE"
  shows "\<exists>n \<le> 8. s = st\<lparr>md_mem := memset (memset (md_mem st) (p - 4) (freed_byte type) 4) p POISON_FREE_FILL n\<rparr>"
proof -
  obtain sz where s: "s = st\<lparr>md_mem := memset (memset (md_mem st) (p - 4) (freed_byte type) 4) p POISON_FREE_FILL
      (unat (if sz > POISON_FREE_LEN then POISON_FREE_LEN else sz))\<rparr>"
    using assms by (auto simp: init_slim_guard_free_poison_def bind_eq_Some_conv Let_def freed_byte_def FRONT_GUARD_LEN_def)
  have "unat (if sz > POISON_FREE_LEN then POISON_FREE_LEN else sz) \<le> 8"
    by (auto simp: POISON_FREE_LEN_def not_less word_le_nat_alt)
  then show ?thesis using s by blast
qed

text \<open>
  The memory a free hands to libc: mark and poison, and perhaps the size word restored.
\<close>

lemma free_state:
  assumes "md_free rf malloc bt p st = Some (Freed base, s)" "malloc_debug15_enabled st"
  obtains type n m m' where "n \<le> 8" "m = memset (memset (md_mem st) (p - 4) (freed_byte type) 4) p POISON_FREE_FILL n"
    "m' = m \<or> (\<exists>w. m' = store_word m (p - 8) w)" "md_mem s = rf base m'"
    "malloc_debug15_enabled s" "\<not> gChunkMutex s" "p \<noteq> 0"
    "gDebugMspaceBase s = gDebugMspaceBase st" "gDebugConfig s = gDebugConfig st"
proof -
  obtain type s1 e s2 s3 where
    p: "p \<noteq> 0" and "\<not> gChunkMutex st" and check: "slim_guard_check st p = Some (type, base)" "type \<noteq> ILLEGAL_TYPE"
    and poison: "init_slim_guard_free_poison p type (st\<lparr>gChunkMutex := True\<rparr>) = Some s1"
    and find: "find_and_delete_current_entry p (chunk_mutex_unlock s1) = Some (e, s2)"
    and remove: "free_remove_info malloc bt e s2 = Some s3" and s: "s = s3\<lparr>md_mem := rf base (md_mem s3)\<rparr>"
    by (rule free_steps [OF assms])
  have "type = MALLOC_TYPE \<or> type = MEMALIGN_TYPE"
    using check by (auto simp: slim_guard_check_def Let_def bind_eq_Some_conv split: if_split_asm)
  from poison_effect [OF poison this] obtain n where "n \<le> 8" and s1: "s1 = st\<lparr>gChunkMutex := True,
      md_mem := memset (memset (md_mem st) (p - 4) (freed_byte type) 4) p POISON_FREE_FILL n\<rparr>" by auto
  let ?m = "memset (memset (md_mem st) (p - 4) (freed_byte type) 4) p POISON_FREE_FILL n"
  have same: "same_user s2 s3" by (rule free_remove_info_same [OF remove])
  have "\<not> gChunkMutex (chunk_mutex_unlock s1)" by (simp add: chunk_mutex_unlock_def)
  from find_and_delete_same [OF find this]
  consider "same_user (chunk_mutex_unlock s1) s3" | w where "same_user (set_hdr_size p w (chunk_mutex_unlock s1)) s3"
    using same_user_trans [OF _ same] by blast
  then show ?thesis
  proof cases
    case 1
    then show ?thesis
      using assms(2) \<open>n \<le> 8\<close> p by (intro that [of n ?m type "md_mem s3"]) (simp_all add: same_user_def chunk_mutex_unlock_def s1 s)
  next
    case 2
    then show ?thesis
      using assms(2) \<open>n \<le> 8\<close> p
      by (intro that [of n ?m type "md_mem s3"]) (auto simp: same_user_def chunk_mutex_unlock_def set_hdr_size_def s1 s)
  qed
qed

text \<open>When libc gets the block its front guard reads as freed; only 16 bytes around the pointer have changed.\<close>

lemma free_leaves_mark:
  assumes "md_free rf malloc bt p st = Some (Freed base, s)" "malloc_debug15_enabled st"
  obtains m' type where "md_mem s = rf base m'" "guard_is m' (p - 4) (freed_byte type)"
    "\<And>x. \<not> in_region (p - 8) 16 x \<Longrightarrow> m' x = md_mem st x"
proof -
  obtain type n m m' where n: "n \<le> 8" and m: "m = memset (memset (md_mem st) (p - 4) (freed_byte type) 4) p POISON_FREE_FILL n"
    and m': "m' = m \<or> (\<exists>w. m' = store_word m (p - 8) w)" and s: "md_mem s = rf base m'"
    by (rule free_state [OF assms])
  have "n \<le> 2 ^ 31" using n by simp
  note reg = around_pointer [OF this, of p]
  have keep: "guard_is (store_word m (p - 8) w) (p - 4) v = guard_is m (p - 4) v" for w v
    by (rule guard_is_cong) (simp add: store_word_at reg)
  have "guard_is m (p - 4) (freed_byte type)" by (auto simp: m guard_is_region memset_at reg)
  then have g: "guard_is m' (p - 4) (freed_byte type)" using m' keep by auto
  have r16: "in_region (p - 8) 16 x \<longleftrightarrow> unat (x - (p - 8)) < 16" for x by (simp add: in_region_def)
  have "\<not> in_region (p - 8) 16 x \<Longrightarrow> m' x = md_mem st x" for x
    using m' n by (auto simp: m memset_at store_word_at reg r16)
  then show ?thesis using that s g by blast
qed

text \<open>
  C19. Freeing a block twice is caught: after a free that handed the block to libc, the next free of the same
  pointer aborts, unless libc's free has overwritten all four bytes of the mark in the block's front guard. (libc owns these
  bytes then, and an allocator that keeps its free list in the first words of a free block writes some of them.)
\<close>

theorem double_free_aborts:
  assumes "md_free rf malloc bt p st = Some (Freed base, s)" "malloc_debug15_enabled st"
    "in_region (p - 4) 4 x" "\<And>m. rf base m x = m x"
  shows "\<exists>s'. md_free rf malloc bt' p s = Some (Aborted, s')"
proof -
  obtain m' type where m: "md_mem s = rf base m'" "guard_is m' (p - 4) (freed_byte type)"
    by (rule free_leaves_mark [OF assms(1,2)])
  have "md_mem s x = freed_byte type" using m assms(3,4) by (simp add: guard_is_region)
  then have "\<not> guard_is (md_mem s) (p - 4) v" if "v \<noteq> freed_byte type" for v
    using that assms(3) by (auto simp: guard_is_region)
  then have "slim_front_guard_type (md_mem s) p = ILLEGAL_TYPE"
    by (intro front_illegal) (auto simp: freed_byte_def guard_bytes)
  then have check: "slim_guard_check s p = Some (ILLEGAL_TYPE, 0)" by (simp add: slim_guard_check_def guard_types)
  have on: "malloc_debug15_enabled s" "\<not> gChunkMutex s" "p \<noteq> 0" by (rule free_state [OF assms(1,2)]; simp)+
  from unchecked_free_aborts [OF on check] show ?thesis .
qed

section \<open>Aligned blocks\<close>

lemma load_word_regionI: "(\<And>x. in_region a 4 x \<Longrightarrow> m x = word_byte w (unat (x - a))) \<Longrightarrow> load_word m a = w"
proof (rule load_word_eqI)
  assume a: "\<And>x. in_region a 4 x \<Longrightarrow> m x = word_byte w (unat (x - a))"
  show "m a = word_byte w 0" using a [of a] by (simp add: in_region_def)
  show "m (a + 1) = word_byte w 1" using a [of "a + 1"] by (simp add: in_region_def)
  show "m (a + 2) = word_byte w 2" using a [of "a + 2"] by (simp add: in_region_def)
  show "m (a + 3) = word_byte w 3" using a [of "a + 3"] by (simp add: in_region_def)
qed

lemma powerof2_exp: "powerof2 (2 ^ k)"
proof -
  have "mask k AND push_bit k (1 :: u32) = 0" by (rule bit_word_eqI) (auto simp: bit_simps)
  then show ?thesis by (simp add: powerof2_def mask_eq_exp_minus_1 push_bit_eq_mult)
qed

lemma unat_exp: "k < 32 \<Longrightarrow> unat ((2 :: u32) ^ k) = 2 ^ k"
proof -
  assume "k < 32"
  then have "(2 :: nat) ^ k < 2 ^ 32" by (intro power_strict_increasing) auto
  moreover have "(2 :: u32) ^ k = of_nat (2 ^ k)" by simp
  ultimately show ?thesis by (simp only: unat_of_nat) simp
qed

lemma align_ptr_up:
  fixes ptr :: u32
  assumes "k < 32" "unat ptr + 2 ^ k < 2 ^ 32"
  shows "unat (align_ptr (2 ^ k) ptr) mod 2 ^ k = 0"
    "unat ptr \<le> unat (align_ptr (2 ^ k) ptr)" "unat (align_ptr (2 ^ k) ptr) < unat ptr + 2 ^ k"
proof -
  define P where "P = unat ptr"
  have a: "unat ((2 :: u32) ^ k) = 2 ^ k" using assms(1) by (rule unat_exp)
  have m: "unat (ptr mod 2 ^ k) = P mod 2 ^ k" by (simp add: unat_mod a P_def)
  have v: "unat (align_ptr (2 ^ k) ptr) = (if P mod 2 ^ k = 0 then P else P + (2 ^ k - P mod 2 ^ k))"
  proof (cases "P mod 2 ^ k = 0")
    case True
    then have "ptr mod 2 ^ k = 0" using m by (simp add: unat_eq_zero)
    then show ?thesis using True by (simp add: align_ptr_def P_def)
  next
    case False
    then have P0: "0 < P" by (intro Nat.gr0I) simp
    have ne: "ptr mod 2 ^ k \<noteq> 0" using m False by (metis unsigned_0)
    have up: "unat (- ptr) = 2 ^ 32 - P" using P0 unat_sub_if' [of 0 ptr] by (simp add: P_def)
    have "int ((2 ^ 32 - P) mod 2 ^ k) = (- int P) mod 2 ^ k"
    proof -
      have "(2 :: int) ^ 32 = 2 ^ k * 2 ^ (32 - k)" using assms(1) by (simp flip: power_add)
      then have "(- int P) mod 2 ^ k = (2 ^ 32 - int P) mod 2 ^ k" by (metis mod_mult_self4 add_uminus_conv_diff)
      moreover have "int (2 ^ 32 - P) = 2 ^ 32 - int P" using unat_u32_less [of ptr] by (simp add: P_def of_nat_diff)
      ultimately show ?thesis by (simp add: zmod_int)
    qed
    also have "\<dots> = 2 ^ k - int P mod 2 ^ k"
    proof -
      have "int P mod 2 ^ k = int (P mod 2 ^ k)" by (simp add: zmod_int)
      then have "int P mod 2 ^ k \<noteq> 0" using False by linarith
      then show ?thesis by (simp add: zmod_zminus1_eq_if)
    qed
    finally have fin: "int ((2 ^ 32 - P) mod 2 ^ k) = 2 ^ k - int P mod 2 ^ k" .
    have "P mod 2 ^ k \<le> 2 ^ k" by (simp add: less_imp_le)
    then have "int (2 ^ k - P mod 2 ^ k) = 2 ^ k - int P mod 2 ^ k" by (simp add: of_nat_diff zmod_int)
    then have "(2 ^ 32 - P) mod 2 ^ k = 2 ^ k - P mod 2 ^ k" using fin by (metis of_nat_eq_iff)
    then have s: "unat ((- ptr) mod 2 ^ k) = 2 ^ k - P mod 2 ^ k" by (simp only: unat_mod a up)
    have "unat (ptr + (- ptr) mod 2 ^ k) = P + (2 ^ k - P mod 2 ^ k)"
      using assms(2) by (subst unat_add_u32) (auto simp: s P_def)
    then show ?thesis using ne False by (simp add: align_ptr_def)
  qed
  have w: "(P + (2 ^ k - P mod 2 ^ k)) mod 2 ^ k = 0"
  proof -
    have "P = P div 2 ^ k * 2 ^ k + P mod 2 ^ k" by (rule div_mult_mod_eq [symmetric])
    moreover have "P mod 2 ^ k \<le> 2 ^ k" by (simp add: less_imp_le)
    ultimately have "P + (2 ^ k - P mod 2 ^ k) = P div 2 ^ k * 2 ^ k + 2 ^ k" by linarith
    then show ?thesis by simp
  qed
  have "P mod 2 ^ k < 2 ^ k" by simp
  then have r: "P < P + (2 ^ k - P mod 2 ^ k)" "0 < P mod 2 ^ k \<Longrightarrow> P + (2 ^ k - P mod 2 ^ k) < P + 2 ^ k" by linarith+
  show "unat (align_ptr (2 ^ k) ptr) mod 2 ^ k = 0" using v w by (cases "P mod 2 ^ k = 0") simp_all
  show "unat ptr \<le> unat (align_ptr (2 ^ k) ptr)" using v r(1) by (cases "P mod 2 ^ k = 0") (simp_all add: P_def less_imp_le)
  show "unat (align_ptr (2 ^ k) ptr) < unat ptr + 2 ^ k"
    using v r(2) by (cases "P mod 2 ^ k = 0") (simp_all add: P_def)
qed

text \<open>A place \<open>c\<close> bytes into a block, given by its address and its distance from the start.\<close>

lemma region_in_block:
  assumes "unat (a - b) = c" "c + n \<le> 2 ^ 32"
  shows "in_region a n x \<longleftrightarrow> c \<le> unat (x - b) \<and> unat (x - b) < c + n"
  using region_offset [of "a - b" n x b] assms by (simp add: in_region_def)

lemma init_guard_memalign_at:
  assumes "unat n + 16 \<le> 2 ^ 32"
  shows "init_guard_memalign h base n m x =
    (if in_region (h + 12 + n) 4 x then REAR_GUARD else if in_region (h + 8) 4 x then FRONT_GUARD_MEMALIGN
     else if in_region (h + 4) 4 x then word_byte n (unat (x - (h + 4)))
     else if in_region h 4 x then word_byte base (unat (x - h)) else m x)"
proof -
  let ?m2 = "memset (store_word (store_word m h base) (h + 4) n) (h + 8) FRONT_GUARD_MEMALIGN FRONT_GUARD_LEN"
  have m2: "?m2 y = (if in_region (h + 8) 4 y then FRONT_GUARD_MEMALIGN
     else if in_region (h + 4) 4 y then word_byte n (unat (y - (h + 4)))
     else if in_region h 4 y then word_byte base (unat (y - h)) else m y)" for y
    by (simp add: memset_at FRONT_GUARD_LEN_def store_word_at)
  have "\<not> in_region (h + 8) 4 y" if "in_region (h + 4) 4 y" for y
    using that region_in_block [of "h + 8" h 8 4 y] region_in_block [of "h + 4" h 4 4 y] by simp
  then have "load_word ?m2 (h + 4) = n" by (intro load_word_regionI) (simp add: m2)
  then show ?thesis
    unfolding init_guard_memalign_def Let_def by (simp add: memset_at [of ?m2] REAR_GUARD_LEN_def m2)
qed

text \<open>
  C6. An aligned block is aligned, lies with its header and rear guard inside the \<open>2^k + bytes + 24\<close> bytes libc gave for it, and passes the check
  of free, which finds that memory; its start holds the magic number and the address of the header,
  by which tools find the block.
\<close>

theorem memalign_layout:
  assumes "k < 31" "real (2 ^ k + bytes + 12 + 4 + 2 * 4) = base" "base \<noteq> 0"
    "unat base + 2 ^ k + unat bytes + 24 < 2 ^ 32" "\<not> val_in_debug15_mspace st bytes"
    "mtk_guard_memalign real (2 ^ k) bytes st = Some (p, s)"
  shows "unat p mod 2 ^ k = 0 \<and> unat base + 20 \<le> unat p \<and> unat p + unat bytes + 4 \<le> unat base + 2 ^ k + unat bytes + 24
     \<and> slim_guard_check s p = Some (MEMALIGN_TYPE, base) \<and> real_size s p = Some bytes
     \<and> load_word (md_mem s) base = MEMALIGN_MAGIC_NO \<and> load_word (md_mem s) (base + 4) = p - 12"
proof -
  have e: "unat ((2 :: u32) ^ k) = 2 ^ k" using assms(1) by (intro unat_exp) simp
  have sz1: "unat (2 ^ k + bytes) = 2 ^ k + unat bytes" using assms(4) by (subst unat_add_u32) (simp_all add: e)
  have sz: "unat (2 ^ k + bytes + 24) = 2 ^ k + unat bytes + 24" using assms(4) by (subst unat_add_u32) (simp_all add: sz1)
  have szeq: "2 ^ k + bytes + 12 + 4 + 2 * 4 = 2 ^ k + bytes + 24" by (simp add: algebra_simps)
  have b20: "unat (base + 20) = unat base + 20" using assms(4) by (subst unat_add_u32) auto
  have pos: "(2 :: u32) ^ k \<noteq> 0" using e by (metis unsigned_0 power_not_zero zero_neq_numeral)
  have no_wrap: "\<not> 2 ^ k + bytes + 24 < bytes" unfolding word_less_nat_alt sz by simp
  let ?m = "store_word (store_word (md_mem st) base MEMALIGN_MAGIC_NO) (base + 4) (p - 12)"
  have p: "p = align_ptr (2 ^ k) (base + 20)" and s: "s = st\<lparr>md_mem := init_guard_memalign (p - 12) base bytes ?m\<rparr>"
    using assms(2,3,6) no_wrap pos by (auto simp: mtk_guard_memalign_def powerof2_exp Let_def szeq add.assoc)
  have "unat (base + 20) + 2 ^ k < 2 ^ 32" using assms(4) b20 by simp
  note al = align_ptr_up [OF _ this, folded p, unfolded b20]
  have k: "k < 32" using assms(1) by simp
  have off: "unat (p - base) = unat p - unat base" using al(2) [OF k] by (simp add: unat_sub_if')
  define q where "q = unat (p - base)"
  have q: "20 \<le> q" "q < 20 + 2 ^ k" using al(2,3) [OF k] off by (auto simp: q_def)
  have fit: "q + unat bytes + 4 < 2 ^ 32" using q(2) assms(4) by linarith
  have before: "unat (p - c - base) = q - unat c" if "unat c \<le> 20" for c
  proof -
    have "p - c - base = (p - base) - c" by simp
    moreover have "unat c \<le> unat (p - base)" using that q(1) by (simp add: q_def)
    ultimately show ?thesis by (simp only: unat_sub_if' q_def if_True)
  qed
  have rear: "unat (p + bytes - base) = q + unat bytes"
  proof -
    have "p + bytes - base = (p - base) + bytes" by simp
    moreover have "unat (p - base) + unat bytes < 4294967296" using fit by (simp add: q_def)
    ultimately show ?thesis by (simp only: unat_add_u32 q_def)
  qed
  note reg = region_in_block [OF before [of 12], of 4] region_in_block [OF before [of 8], of 4]
    region_in_block [OF before [of 4], of 4] region_in_block [OF rear, of 4] region_in_block [of base base 0 4]
    region_in_block [of "base + 4" base 4 4]
  have "unat bytes + 16 \<le> 2 ^ 32" using assms(4) by simp
  note bytes_at = init_guard_memalign_at [OF this, of "p - 12" base ?m]
  have addr: "p - 12 + 12 = p" "p - 12 + 8 = p - 4" "p - 12 + 4 = p - 8" by (simp_all add: algebra_simps)
  have mem: "md_mem s x = (if in_region (p + bytes) 4 x then REAR_GUARD else if in_region (p - 4) 4 x then FRONT_GUARD_MEMALIGN
     else if in_region (p - 8) 4 x then word_byte bytes (unat (x - (p - 8)))
     else if in_region (p - 12) 4 x then word_byte base (unat (x - (p - 12)))
     else if in_region (base + 4) 4 x then word_byte (p - 12) (unat (x - (base + 4)))
     else if in_region base 4 x then word_byte MEMALIGN_MAGIC_NO (unat (x - base)) else md_mem st x)" for x
    using bytes_at [of x] by (simp add: s addr store_word_at cong: if_cong)
  have words: "load_word (md_mem s) (p - 8) = bytes" "load_word (md_mem s) (p - 12) = base"
    "load_word (md_mem s) (base + 4) = p - 12" "load_word (md_mem s) base = MEMALIGN_MAGIC_NO"
    using q fit by (auto intro!: load_word_regionI simp: mem reg)
  have guards: "guard_is (md_mem s) (p - 4) FRONT_GUARD_MEMALIGN" "guard_is (md_mem s) (p + bytes) REAR_GUARD"
    using q fit by (auto simp: guard_is_region mem reg)
  have "\<not> val_in_debug15_mspace s bytes" using assms(5) by (simp add: s val_in_debug15_mspace_def)
  then have rs: "real_size s p = Some bytes" by (simp add: real_size_def hdr_size_def words)
  have "\<not> guard_is (md_mem s) (p - 4) FRONT_GUARD_MALLOC"
    using guard_unique [OF guards(1), of FRONT_GUARD_MALLOC] by (auto simp: guard_bytes)
  then have t: "slim_front_guard_type (md_mem s) p = MEMALIGN_TYPE" using guards(1) by (simp add: front_type_at)
  have check: "slim_guard_check s p = Some (MEMALIGN_TYPE, base)"
    using guards(2) by (simp add: slim_guard_check_def t rs words guard_is_def FRONT_GUARD_LEN_def REAR_GUARD_LEN_def guard_types)
  show ?thesis
    using al(1,2,3) [OF k] check rs words by simp
qed


section \<open>Reallocation\<close>

lemma realloc_steps:
  assumes "malloc_debug15_enabled st" "old \<noteq> 0" "bytes \<noteq> 0" "unat bytes + 12 < 2 ^ 32" "real (8 + bytes + 4) = h" "h \<noteq> 0"
    "real_size st old = Some n" "md_realloc real rr rf malloc bt old bytes st = Some (p, s)"
  obtains base s2 where
    "md_free rf malloc bt old (st\<lparr>md_mem := memcpy (md_mem st) (h + 8) old (unat (min n bytes))\<rparr>) = Some (Freed base, s2)"
    "md_realloc_finish malloc bt h bytes s2 = Some (p, s)"
proof -
  have "\<not> 8 + bytes + 4 < bytes"
  proof -
    have "unat (8 + bytes + 4) = unat bytes + 12" using assms(4) by (simp add: unat_add_u32)
    then show ?thesis by (simp add: word_less_nat_alt)
  qed
  moreover have "(if n < bytes then n else bytes) = min n bytes" by (auto simp: min_def not_less)
  ultimately have "md_free rf malloc bt old (st\<lparr>md_mem := memcpy (md_mem st) (h + 8) old (unat (min n bytes))\<rparr>) \<bind>
      (\<lambda>(r, s2). if r = Aborted then None else md_realloc_finish malloc bt h bytes s2) = Some (p, s)"
    using assms by (simp add: md_realloc_def Let_def)
  then obtain r s2 where f: "md_free rf malloc bt old (st\<lparr>md_mem := memcpy (md_mem st) (h + 8) old (unat (min n bytes))\<rparr>) = Some (r, s2)"
    and r: "r \<noteq> Aborted" "md_realloc_finish malloc bt h bytes s2 = Some (p, s)"
    unfolding bind_eq_Some_conv by (auto split: if_split_asm)
  have "r \<noteq> Ignored" using f assms(1,2) by (auto simp: md_free_def bind_eq_Some_conv split: if_split_asm)
  then obtain base where "r = Freed base" using r(1) by (cases r) auto
  then show ?thesis using that f r(2) by blast
qed

text \<open>
  C5. realloc keeps the contents: the new block has the size asked for and intact guards, and its
  first bytes, as many as both blocks have, are those of the old block before it was freed. (libc's free, which is
  given the old block in between, does not write to the new one, which is in use.)
\<close>

theorem realloc_keeps_contents:
  assumes "malloc_debug15_enabled st" "old \<noteq> 0" "bytes \<noteq> 0" "unat bytes + 12 < 2 ^ 32" "real (8 + bytes + 4) = h" "h \<noteq> 0"
    "real_size st old = Some n" "\<And>x. \<not> (in_region h (unat bytes + 12) x \<and> in_region (old - 8) 16 x)"
    "\<not> val_in_debug15_mspace st bytes" "mspace_answers malloc st"
    "\<And>b m x. in_region h (unat bytes + 12) x \<Longrightarrow> rf b m x = m x"
    "md_realloc real rr rf malloc bt old bytes st = Some (p, s)"
  shows "p = h + 8 \<and> slim_guard_check s p = Some (MALLOC_TYPE, h) \<and> real_size s p = Some bytes
     \<and> (\<forall>i < unat (min n bytes). md_mem s (p + of_nat i) = md_mem st (old + of_nat i))"
proof -
  let ?m = "memcpy (md_mem st) (h + 8) old (unat (min n bytes))"
  let ?st = "st\<lparr>md_mem := ?m\<rparr>"
  have fit: "unat bytes + 12 \<le> 2 ^ 32" using assms(4) by simp
  note reg = block_regions [OF fit, of h]
  obtain base s2 where f: "md_free rf malloc bt old ?st = Some (Freed base, s2)"
    and fin: "md_realloc_finish malloc bt h bytes s2 = Some (p, s)"
    by (rule realloc_steps [OF assms(1-7,12)])
  let ?s3 = "s2\<lparr>md_mem := block_bytes (md_mem s2) h bytes bytes\<rparr>"
  have p: "p = h + 8" and r: "malloc_record_info malloc bt (h + 8) bytes ?s3 = Some s"
    using fin by (auto simp: md_realloc_finish_def init_guard_malloc_block [OF fit] bind_eq_Some_conv)
  have bounds: "gDebugMspaceBase s2 = gDebugMspaceBase st" "gDebugConfig s2 = gDebugConfig st"
    by (rule free_state [OF f]; use assms(1) in simp)+
  have "\<not> val_in_debug15_mspace ?s3 bytes" "mspace_answers malloc ?s3"
    using assms(9,10) by (simp_all add: val_in_debug15_mspace_def mspace_answers_def bounds)
  then obtain w where m: "md_mem s = block_bytes (md_mem s2) h w bytes" and sz: "real_size s (h + 8) = Some bytes"
    using recorded_block [OF _ fit _ _ r] by auto
  have check: "slim_guard_check s p = Some (MALLOC_TYPE, p - 8)"
    by (rule check_malloc_block(2)) (use sz block_bytes_read(2,3) [OF fit] in \<open>simp_all add: m p hdr_addr\<close>)
  have "md_mem s (p + of_nat i) = md_mem st (old + of_nat i)" if i: "i < unat (min n bytes)" for i
  proof -
    let ?x = "h + 8 + of_nat i"
    have "unat (min n bytes) \<le> unat bytes" by (simp add: word_le_nat_alt [symmetric])
    then have ib: "i < unat bytes" using i by linarith
    have "unat bytes \<le> 2 ^ 32" using fit by simp
    from in_region_at [OF this ib] have x: "in_region (h + 8) (unat bytes) ?x" .
    then have "in_region h (unat bytes + 12) ?x" using reg(3) [of ?x] by (simp add: in_region_def)
    then have "\<not> in_region (old - 8) 16 ?x" using assms(8) by blast
    moreover obtain m' where "md_mem s2 = rf base m'" "\<And>y. \<not> in_region (old - 8) 16 y \<Longrightarrow> m' y = ?m y"
      using free_leaves_mark [OF f] assms(1) by auto
    ultimately have "md_mem s2 ?x = ?m ?x" using assms(11) \<open>in_region h (unat bytes + 12) ?x\<close> by simp
    also have "\<dots> = md_mem st (old + of_nat i)"
    proof -
      have "i < 2 ^ 32" using ib \<open>unat bytes \<le> 2 ^ 32\<close> by linarith
      then have "in_region (h + 8) (unat (min n bytes)) ?x" using i by (simp add: in_region_def unat_of_nat)
      then show ?thesis by (simp add: memcpy_at)
    qed
    finally show ?thesis using block_bytes_read(4) [OF fit x] by (simp add: m p)
  qed
  then show ?thesis using check sz by (simp add: p)
qed


section \<open>At a concrete state\<close>

text \<open>The debugger on, its mspace far from the blocks; recording has stopped, as after clean_exit.\<close>

definition guard_start :: md where
  "guard_start = md_start\<lparr>gDebugMspaceBase := 0xA0000000, malloc_debug15_enabled := True\<rparr>"

definition guard_block :: md where
  "guard_block = guard_start\<lparr>md_mem := init_guard_malloc 0x1000 16 (md_mem guard_start)\<rparr>"

definition no_mspace :: "u32 set \<Rightarrow> nat \<Rightarrow> u32" where
  "no_mspace L k = 0"

lemmas guard_state = guard_block_def guard_start_def md_start_def

lemma guard_start_facts:
  "malloc_debug15_enabled guard_start" "mspace_answers no_mspace guard_start"
  "\<not> val_in_debug15_mspace guard_start 16" "\<not> val_in_debug15_mspace guard_start 32"
  "\<not> val_in_debug15_mspace guard_block 32" "mspace_answers no_mspace guard_block"
  by (simp_all add: guard_state mspace_answers_def no_mspace_def val_in_debug15_mspace_def DEFAULT_DEBUG_CONFIG_def)

lemma guard_block_malloc: "md_malloc (\<lambda>_. 0x1000) no_mspace [] 16 guard_start = Some (0x1008, guard_block)"
  by (simp add: md_malloc_def malloc_record_info_def guard_state)

theorem malloc_gives_guarded_block_witness:
  "\<exists>s. md_malloc (\<lambda>_. 0x1000) no_mspace [] 16 guard_start = Some (0x1008, s)
     \<and> slim_guard_check s 0x1008 = Some (MALLOC_TYPE, 0x1000) \<and> md_malloc_usable_size (\<lambda>_. 0) 0x1008 s = Some 16"
  using malloc_gives_guarded_block [where h = "0x1000" and u = "\<lambda>_. 0",
      OF guard_start_facts(1) _ _ _ guard_start_facts(3,2) guard_block_malloc]
    guard_block_malloc by simp

text \<open>The block stays intact while its 28 bytes do.\<close>

lemma guard_block_facts:
  assumes "\<And>x. in_region 0x1000 28 x \<Longrightarrow> m x = md_mem guard_block x"
  defines "st \<equiv> guard_block\<lparr>md_mem := m\<rparr>"
  shows "malloc_debug15_enabled st" "\<not> gChunkMutex st"
    "slim_guard_check st 0x1008 = Some (MALLOC_TYPE, 0x1000)" "real_size st 0x1008 = Some 16"
    "md_mem st 0x1018 = REAR_GUARD" "\<exists>s. md_free rf no_mspace [] 0x1008 st = Some (Freed 0x1000, s) \<and> debug15_mspace_full s"
proof -
  have fit: "unat (16 :: u32) + 12 \<le> 2 ^ 32" by simp
  have b: "md_mem guard_block = block_bytes (md_mem guard_start) 0x1000 16 16"
    by (simp add: guard_block_def init_guard_malloc_block [OF fit])
  note reg = block_regions [where h = "0x1000", OF fit, simplified]
  have m: "m x = block_bytes (md_mem guard_start) 0x1000 16 16 x" if "unat (x - 0x1000) < 28" for x
    using assms(1) that by (simp add: b in_region_def)
  show on: "malloc_debug15_enabled st" "\<not> gChunkMutex st" by (simp_all add: st_def guard_state)
  have "load_word m 0x1000 = 16" by (rule load_word_regionI) (simp add: m block_bytes_def reg)
  then have "hdr_size st 0x1008 = 16" by (simp add: hdr_size_def st_def)
  moreover have "\<not> val_in_debug15_mspace st 16"
    using guard_start_facts(3) by (simp add: st_def guard_block_def val_in_debug15_mspace_def)
  ultimately show sz: "real_size st 0x1008 = Some 16" by (simp add: real_size_def)
  have "slim_guard_check st 0x1008 = Some (MALLOC_TYPE, 0x1008 - 8)"
    by (rule check_malloc_block(2) [OF _ sz]) (auto simp: st_def guard_is_region m block_bytes_def reg)
  then show check: "slim_guard_check st 0x1008 = Some (MALLOC_TYPE, 0x1000)" by simp
  show "md_mem st 0x1018 = REAR_GUARD" by (simp add: st_def m block_bytes_def in_region_def)
  have full: "debug15_mspace_full st" by (simp add: st_def guard_state)
  show "\<exists>s. md_free rf no_mspace [] 0x1008 st = Some (Freed 0x1000, s) \<and> debug15_mspace_full s"
    using on check sz full
    by (simp add: md_free_def chunk_mutex_lock_def guard_types init_slim_guard_free_poison_def Let_def
        find_and_delete_current_entry_def chunk_mutex_unlock_def free_remove_info_def)
qed

lemmas guard_block_intact = guard_block_facts [of "md_mem guard_block", simplified]

theorem overwritten_guard_aborts_witness:
  "\<exists>s. md_free (\<lambda>_ m. m) no_mspace [] 0x1008 (guard_block\<lparr>md_mem := (md_mem guard_block)(0x1018 := 0)\<rparr>) = Some (Aborted, s)"
  by (rule overwritten_guard_aborts [OF guard_block_intact(1,2) _ guard_block_intact(3) _ guard_block_intact(4)])
    (simp_all add: guard_types in_region_def guard_block_intact(5) REAR_GUARD_def)

theorem double_free_aborts_witness:
  "\<exists>s s'. md_free (\<lambda>_ m. m) no_mspace [] 0x1008 guard_block = Some (Freed 0x1000, s)
     \<and> md_free (\<lambda>_ m. m) no_mspace [] 0x1008 s = Some (Aborted, s')"
proof -
  obtain s where s: "md_free (\<lambda>_ m. m) no_mspace [] 0x1008 guard_block = Some (Freed 0x1000, s)"
    using guard_block_intact(6) by blast
  have "in_region (0x1008 - 4) 4 0x1004" by (simp add: in_region_def)
  from double_free_aborts [OF s guard_block_intact(1) this] show ?thesis using s by blast
qed

theorem memalign_layout_witness:
  "\<exists>s. mtk_guard_memalign (\<lambda>_. 0x1004) 16 16 guard_start = Some (0x1020, s)
     \<and> slim_guard_check s 0x1020 = Some (MEMALIGN_TYPE, 0x1004) \<and> load_word (md_mem s) 0x1008 = 0x1014"
proof -
  have "powerof2 16" using powerof2_exp [of 4] by simp
  then obtain s where s: "mtk_guard_memalign (\<lambda>_. 0x1004) 16 16 guard_start = Some (0x1020, s)"
    by (simp add: mtk_guard_memalign_def align_ptr_def)
  then have "mtk_guard_memalign (\<lambda>_. 0x1004) (2 ^ 4) 16 guard_start = Some (0x1020, s)" by simp
  then show ?thesis
    using memalign_layout [where k = 4 and real = "\<lambda>_. 0x1004" and bytes = "16" and base = "0x1004" and st = guard_start and p = "0x1020" and s = s] guard_start_facts(3) s by simp
qed

theorem realloc_keeps_contents_witness:
  "\<exists>s. md_realloc (\<lambda>_. 0x2000) (\<lambda>_ _ m. (0, m)) (\<lambda>_ m. m) no_mspace [] 0x1008 32 guard_block = Some (0x2008, s)
     \<and> slim_guard_check s 0x2008 = Some (MALLOC_TYPE, 0x2000) \<and> md_mem s 0x2008 = md_mem guard_block 0x1008"
proof -
  let ?m = "memcpy (md_mem guard_block) 0x2008 0x1008 16"
  have "?m x = md_mem guard_block x" if "in_region 0x1000 28 x" for x
    using that by (auto simp: memcpy_at in_region_def unat_sub_if' split: if_split_asm)
  from guard_block_facts(6) [OF this] obtain s1 where
    f: "md_free (\<lambda>_ m. m) no_mspace [] 0x1008 (guard_block\<lparr>md_mem := ?m\<rparr>) = Some (Freed 0x1000, s1)" "debug15_mspace_full s1"
    by blast
  then have "\<exists>s. md_realloc (\<lambda>_. 0x2000) (\<lambda>_ _ m. (0, m)) (\<lambda>_ m. m) no_mspace [] 0x1008 32 guard_block = Some (0x2008, s)"
    using guard_block_intact(1,4)
    by (simp add: md_realloc_def md_realloc_finish_def malloc_record_info_def)
  then obtain s where s: "md_realloc (\<lambda>_. 0x2000) (\<lambda>_ _ m. (0, m)) (\<lambda>_ m. m) no_mspace [] 0x1008 32 guard_block = Some (0x2008, s)"
    by blast
  have apart: "\<not> (in_region 0x2000 44 x \<and> in_region 0x1000 16 x)" for x
    by (auto simp: in_region_def unat_sub_if' split: if_split_asm)
  have "min (16 :: u32) 32 = 16" by (simp add: min_def)
  then show ?thesis
    using realloc_keeps_contents [OF guard_block_intact(1) _ _ _ _ _ guard_block_intact(4) _ guard_start_facts(5,6) _ s]
      apart s by (auto dest: spec [of _ "0 :: nat"])
qed

end
