(* ===== verification/MdConfig.thy ===== *)
theory MdConfig
  imports MdRecorder CLib
begin

text \<open>
  The per-process configuration of the malloc debugger
  (src/proprietary/external/libudf/malloc_debug/config.c, compiled with
  MTK_USE_RESERVED_EXT_MEM): the table of process configurations, the option parser and the
  configuration file reader. A C string is a list of characters, the argument vector a list
  of strings; \<open>files\<close> gives the contents of the files that can be read. The functions that
  include files recursively carry fuel; None is running out of it, a failed assertion or a
  write past the argument vector.
\<close>

section \<open>The table\<close>

definition NAME_LEN :: nat where "NAME_LEN = 28"
definition MAX_ARGS :: nat where "MAX_ARGS = 256"
definition BUF_SIZE :: nat where "BUF_SIZE = 4096"

text \<open>CONFIG_TABLE_SIZE: (4096 - sizeof count) / sizeof entry, 28 bytes of name and 16 of configuration.\<close>

definition CONFIG_TABLE_SIZE :: nat where "CONFIG_TABLE_SIZE = (4096 - 4) div (28 + 16)"

definition MD_DEBUG_MSPACE_SIZE_UNIT :: u32 where "MD_DEBUG_MSPACE_SIZE_UNIT = 1024 * 1024"
definition HISTORICAL_BUFFER_SIZE_UNIT :: u32 where "HISTORICAL_BUFFER_SIZE_UNIT = 1024"
definition MD_BT_DEPTH_UNIT :: u32 where "MD_BT_DEPTH_UNIT = 2"

definition zero_config :: md_config where
  "zero_config = \<lparr>mdMspaceSize = 0, mdHistoricalBufferSize = 0, mdMaxBtDepth = 0, mdSig = 0,
     mdBtMethod = 0, mdMspaceSource = 0\<rparr>"

text \<open>
  \<open>tab_default\<close> is configs[0] (its name is empty when no default is set), \<open>tab_entries\<close> are
  configs[1 ..< count]; the C count is one more than their number.
\<close>

record config_table =
  tab_default :: "string \<times> md_config"
  tab_entries :: "(string \<times> md_config) list"

definition tab_count :: "config_table \<Rightarrow> nat" where
  "tab_count t = length (tab_entries t) + 1"

definition init_config_table :: "bool \<Rightarrow> config_table option" where
  "init_config_table mmap_ok =
     (if mmap_ok then Some \<lparr>tab_default = ([], zero_config), tab_entries = []\<rparr> else None)"

fun find_config :: "string \<Rightarrow> (string \<times> md_config) list \<Rightarrow> md_config option" where
  "find_config name [] = None"
| "find_config name ((n, c) # es) = (if strstr name n then Some c else find_config name es)"

text \<open>The return value and the configuration written, if any.\<close>

definition get_config :: "config_table option \<Rightarrow> string \<Rightarrow> md_config \<Rightarrow> int \<times> md_config" where
  "get_config table name config =
     (case table of
        None \<Rightarrow> (0, config)
      | Some t \<Rightarrow>
          (case find_config name (tab_entries t) of
             Some c \<Rightarrow> (if mdMspaceSize c = -1 then (-1, c) else (0, c))
           | None \<Rightarrow>
               (if fst (tab_default t) \<noteq> [] then
                  (if mdMspaceSize (snd (tab_default t)) = -1 then (-1, snd (tab_default t))
                   else (0, snd (tab_default t)))
                else (-1, config))))"

definition set_default_config :: "md_config \<Rightarrow> config_table \<Rightarrow> config_table" where
  "set_default_config c t = t\<lparr>tab_default := (''<ALL>'', c)\<rparr>"

definition reset_default_config :: "config_table \<Rightarrow> config_table" where
  "reset_default_config t = t\<lparr>tab_default := ([], zero_config)\<rparr>"

fun replace_config :: "string \<Rightarrow> md_config \<Rightarrow> (string \<times> md_config) list \<Rightarrow> (string \<times> md_config) list option" where
  "replace_config name c [] = None"
| "replace_config name c ((n, d) # es) =
     (if strncmp_eq name n (NAME_LEN - 1) then Some ((n, c) # es)
      else (case replace_config name c es of None \<Rightarrow> None | Some es' \<Rightarrow> Some ((n, d) # es')))"

definition set_config :: "string \<Rightarrow> md_config \<Rightarrow> config_table \<Rightarrow> int \<times> config_table" where
  "set_config name c t =
     (case replace_config name c (tab_entries t) of
        Some es \<Rightarrow> (0, t\<lparr>tab_entries := es\<rparr>)
      | None \<Rightarrow>
          if tab_count t = CONFIG_TABLE_SIZE then (-1, t)
          else (0, t\<lparr>tab_entries := tab_entries t @ [(take (NAME_LEN - 1) name, c)]\<rparr>))"

definition config_to_uint :: "md_config \<Rightarrow> u32" where
  "config_to_uint cs =
     (let c1 = (mdMspaceSize cs div MD_DEBUG_MSPACE_SIZE_UNIT) AND 0xFFF;
          c2 = c1 OR (push_bit 12 (mdHistoricalBufferSize cs div HISTORICAL_BUFFER_SIZE_UNIT) AND 0xFFF000);
          c3 = c2 OR (push_bit 24 (mdMaxBtDepth cs div MD_BT_DEPTH_UNIT) AND 0x0F000000);
          c4 = c3 OR (push_bit 29 (ucast (mdBtMethod cs)) AND 0x60000000);
          c5 = c4 OR (if mdSig cs = 1 then 0x10000000 else 0)
      in c5 OR (if mdMspaceSource cs = EXTERNAL_MEM then 0x80000000 else 0))"

section \<open>Options\<close>

definition get_var :: "string \<Rightarrow> string \<Rightarrow> u32 option" where
  "get_var str varname =
     (if strncmp_eq str varname (length varname) \<and> length str > length varname then
        (let (v, endp) = strtoul (drop (length varname) str) 0 in
         if v = -1 then Some v
         else
           (case endp of
              [] \<Rightarrow> Some v
            | c # _ \<Rightarrow>
                (if c = CHR ''m'' \<or> c = CHR ''M'' then Some (v * (1024 * 1024))
                 else if c = CHR ''k'' \<or> c = CHR ''K'' then Some (v * 1024) else Some v)))
      else None)"

definition parse_var :: "string \<Rightarrow> md_config \<Rightarrow> md_config option" where
  "parse_var a cs =
     (case get_var a ''size='' of Some v \<Rightarrow> Some (cs\<lparr>mdMspaceSize := v\<rparr>) | None \<Rightarrow>
      (case get_var a ''his='' of Some v \<Rightarrow> Some (cs\<lparr>mdHistoricalBufferSize := v\<rparr>) | None \<Rightarrow>
       (case get_var a ''btdepth='' of Some v \<Rightarrow> Some (cs\<lparr>mdMaxBtDepth := v\<rparr>) | None \<Rightarrow>
        (case get_var a ''sig='' of Some v \<Rightarrow> Some (cs\<lparr>mdSig := ucast v\<rparr>) | None \<Rightarrow>
         (case get_var a ''btmethod='' of Some v \<Rightarrow> Some (cs\<lparr>mdBtMethod := ucast v\<rparr>) | None \<Rightarrow>
          (case get_var a ''ext='' of Some v \<Rightarrow> Some (cs\<lparr>mdMspaceSource := ucast v\<rparr>) | None \<Rightarrow> None))))))"

fun parse_vars_loop :: "string list \<Rightarrow> md_config \<Rightarrow> nat \<times> md_config" where
  "parse_vars_loop [] cs = (0, cs)"
| "parse_vars_loop (a # as) cs =
     (case parse_var a cs of
        None \<Rightarrow> (0, cs)
      | Some cs' \<Rightarrow> (case parse_vars_loop as cs' of (n, c) \<Rightarrow> (n + 1, c)))"

text \<open>How many leading arguments are variables, and the configuration they make.\<close>

definition parse_vars :: "string list \<Rightarrow> nat \<times> md_config" where
  "parse_vars args = parse_vars_loop args DEFAULT_DEBUG_CONFIG"

text \<open>
  The first loop of add_process: from index \<open>i\<close>, the number of variables found and the
  index they start at.
\<close>

fun scan_names :: "string list \<Rightarrow> nat \<Rightarrow> nat \<times> nat \<times> md_config" where
  "scan_names [] i = (0, 1, zero_config)"
| "scan_names (a # as) i =
     (if take 1 a = ''-'' then (0, 1, zero_config)
      else
        (case parse_vars (a # as) of (n, c) \<Rightarrow>
           if n \<noteq> 0 then (n, i, c) else scan_names as (i + 1)))"

fun set_configs :: "string list \<Rightarrow> md_config \<Rightarrow> config_table \<Rightarrow> int \<times> config_table" where
  "set_configs [] c t = (0, t)"
| "set_configs (n # ns) c t =
     (case set_config n c t of (r, t') \<Rightarrow> if r \<noteq> 0 then (-1, t') else set_configs ns c t')"

text \<open>The handlers take the arguments from their option on and return the number consumed or -1.\<close>

definition add_process :: "string list \<Rightarrow> config_table \<Rightarrow> int \<times> config_table" where
  "add_process argv t =
     (if length argv < 2 then (-1, t)
      else
        (case scan_names (tl argv) 1 of (ret, nr_proc, config) \<Rightarrow>
           if ret = 0 then (-1, t)
           else
             (case set_configs (take (nr_proc - 1) (tl argv)) config t of (r, t') \<Rightarrow>
                if r \<noteq> 0 then (-1, t') else (int (nr_proc + ret), t'))))"

definition add_all_processes :: "string list \<Rightarrow> config_table \<Rightarrow> int \<times> config_table" where
  "add_all_processes argv t =
     (if length argv < 2 then (-1, t)
      else
        (case parse_vars (tl argv) of (ret, config) \<Rightarrow>
           (int (1 + ret), if ret \<noteq> 0 then set_default_config config t else t)))"

definition blocked_config :: md_config where
  "blocked_config = zero_config\<lparr>mdMspaceSize := -1\<rparr>"

fun block_names :: "string list \<Rightarrow> nat \<Rightarrow> config_table \<Rightarrow> int \<times> config_table" where
  "block_names [] i t = (int i, t)"
| "block_names (a # as) i t =
     (if take 1 a = ''-'' then (int i, t)
      else (case set_config a blocked_config t of (r, t') \<Rightarrow>
              if r \<noteq> 0 then (-1, t') else block_names as (i + 1) t'))"

definition block_process :: "string list \<Rightarrow> config_table \<Rightarrow> int \<times> config_table" where
  "block_process argv t = (if length argv < 2 then (-1, t) else block_names (tl argv) 1 t)"

definition block_all_processes :: "string list \<Rightarrow> config_table \<Rightarrow> int \<times> config_table" where
  "block_all_processes argv t = (1, reset_default_config t)"

section \<open>Configuration files\<close>

definition is_sep :: "char \<Rightarrow> bool" where
  "is_sep c \<longleftrightarrow> c = NUL \<or> c_isspace c"

definition read_config_file :: "(string \<Rightarrow> string option) \<Rightarrow> string \<Rightarrow> string option" where
  "read_config_file files name = map_option (take (BUF_SIZE - 1)) (files name)"

text \<open>
  The loop of buf_to_args: \<open>n\<close> is \<open>argc\<close>, the words stored so far; \<open>cur\<close> is None while
  \<open>last >= 0\<close> (no word is open) and holds the characters of the word being read otherwise; the words are cut where
  the loop writes NULs. None is the \<open>assert(0)\<close> at the 256th word, which has then been stored one past
  the end of the caller's vector (it starts at argv + 1).
\<close>

fun split_args :: "nat \<Rightarrow> string \<Rightarrow> string option \<Rightarrow> string list option" where
  "split_args n [] cur = Some (case cur of None \<Rightarrow> [] | Some w \<Rightarrow> [w])"
| "split_args n (c # cs) cur =
     (if is_sep c then
        (case cur of None \<Rightarrow> split_args n cs None
         | Some w \<Rightarrow> map_option ((#) w) (split_args n cs None))
      else
        (case cur of
           None \<Rightarrow> if n + 1 = MAX_ARGS then None else split_args (n + 1) cs (Some [c])
         | Some w \<Rightarrow> split_args n cs (Some (w @ [c]))))"

definition buf_to_args :: "string \<Rightarrow> string list option" where
  "buf_to_args buf = split_args 0 buf None"

text \<open>The body of process_config_file, \<open>run\<close> being process_args on the words of the file.\<close>

definition run_config_file ::
    "(string list \<Rightarrow> config_table \<Rightarrow> config_table option) \<Rightarrow> (string \<Rightarrow> string option) \<Rightarrow> string
     \<Rightarrow> config_table \<Rightarrow> (int \<times> config_table) option" where
  "run_config_file run files name t =
     (case read_config_file files name of
        None \<Rightarrow> Some (-1, t)
      | Some buf \<Rightarrow>
          (case buf_to_args buf of
             None \<Rightarrow> None
           | Some args \<Rightarrow> (case run args t of None \<Rightarrow> None | Some t' \<Rightarrow> Some (0, t'))))"

definition add_config_file ::
    "(string list \<Rightarrow> config_table \<Rightarrow> config_table option) \<Rightarrow> (string \<Rightarrow> string option)
     \<Rightarrow> string list \<Rightarrow> config_table \<Rightarrow> (int \<times> config_table) option" where
  "add_config_file run files argv t =
     (if length argv < 2 then Some (-1, t)
      else
        (case run_config_file run files (argv ! 1) t of
           None \<Rightarrow> None
         | Some (r, t') \<Rightarrow> Some (if r \<noteq> 0 then -1 else 2, t')))"

text \<open>What an option does: how far to go on (-1: stop) and the table.\<close>

definition run_option ::
    "(string list \<Rightarrow> config_table \<Rightarrow> config_table option) \<Rightarrow> (string \<Rightarrow> string option) \<Rightarrow> nat
     \<Rightarrow> string list \<Rightarrow> config_table \<Rightarrow> (int \<times> config_table) option" where
  "run_option run files inc args t =
     (let a = hd args in
      if a = ''-a'' then Some (add_process args t)
      else if a = ''-all'' then Some (add_all_processes args t)
      else if a = ''-b'' then Some (block_process args t)
      else if a = ''-ball'' then Some (block_all_processes args t)
      else if a = ''-f'' then add_config_file run files args t
      else Some (int inc, t))"

text \<open>An unknown option leaves \<open>inc\<close>, the advance of the previous one, unchanged (0 at first).\<close>

fun process_args ::
    "nat \<Rightarrow> (string \<Rightarrow> string option) \<Rightarrow> nat \<Rightarrow> string list \<Rightarrow> config_table \<Rightarrow> config_table option" where
  "process_args 0 files inc args t = None"
| "process_args (Suc fuel) files inc args t =
     (if args = [] then Some t
      else
        (case run_option (\<lambda>as u. process_args fuel files 0 as u) files inc args t of
           None \<Rightarrow> None
         | Some (i, t') \<Rightarrow>
             if i < 0 then Some t' else process_args fuel files (nat i) (drop (nat i) args) t'))"

definition process_config_file ::
    "nat \<Rightarrow> (string \<Rightarrow> string option) \<Rightarrow> string \<Rightarrow> config_table \<Rightarrow> (int \<times> config_table) option" where
  "process_config_file fuel files name t = run_config_file (process_args fuel files 0) files name t"

text \<open>\<open>gDebugConfigTable\<close> after reading: None is the NULL pointer.\<close>

definition mtk_malloc_debug_read_config ::
    "nat \<Rightarrow> bool \<Rightarrow> (string \<Rightarrow> string option) \<Rightarrow> string \<Rightarrow> config_table option option" where
  "mtk_malloc_debug_read_config fuel mmap_ok files name =
     (case init_config_table mmap_ok of
        None \<Rightarrow> Some None
      | Some t \<Rightarrow>
          (case process_config_file fuel files name t of
             None \<Rightarrow> None
           | Some (r, t') \<Rightarrow> Some (if r \<noteq> 0 then None else Some t')))"

definition mtk_malloc_debug_set_config ::
    "config_table option \<Rightarrow> string option \<Rightarrow> md_config \<Rightarrow> int \<times> config_table option \<times> md_config" where
  "mtk_malloc_debug_set_config table name config =
     (case name of
        None \<Rightarrow> (-1, table, config)
      | Some n \<Rightarrow>
          (case get_config table n config of (r, c) \<Rightarrow>
             if r \<noteq> 0 then (-1, None, c) else (0, table, c)))"

end
