(* ===== verification/MdInit.thy ===== *)
theory MdInit
  imports MdGuard MdConfig
begin

text \<open>
  Start up and fork of the malloc debugger
  (src/proprietary/external/libudf/malloc_debug/malloc_debug_mtk.c, compiled with
  MTK_USE_RESERVED_EXT_MEM): binding of libc, the packed configuration word, the decision of
  malloc_debug_initialize, and the copy of the debug mspace across a fork. Properties, the
  program name, libc and the kernel are arguments.
\<close>

section \<open>Binding and configuration\<close>

text \<open>The symbols dlsym is asked for; the last three may be missing.\<close>

definition required_symbols :: "string list" where
  "required_symbols = [''calloc'', ''free'', ''malloc'', ''malloc_usable_size'', ''memalign'',
     ''posix_memalign'', ''realloc'', ''pvalloc'', ''valloc'']"

definition malloc_func_rehook :: "(string \<Rightarrow> bool) option \<Rightarrow> md \<Rightarrow> int \<times> md" where
  "malloc_func_rehook libc st =
     (case libc of
        None \<Rightarrow> (-1, st)
      | Some dlsym \<Rightarrow>
          if list_all dlsym required_symbols then (0, st\<lparr>malloc_func_hooked := True\<rparr>) else (-1, st))"

definition FP_BACKTRACE :: u8 where "FP_BACKTRACE = 0"
definition MD_DEFAULT_DEBUG_MSPACE_SIZE :: u32 where "MD_DEFAULT_DEBUG_MSPACE_SIZE = 4 * 1024 * 1024"
definition MD_DEFAULT_MAX_BACKTRACE_DEPTH :: u32 where "MD_DEFAULT_MAX_BACKTRACE_DEPTH = 5"
definition MD_MAX_BACKTRACE_SIZE :: u32 where "MD_MAX_BACKTRACE_SIZE = 32"

definition decode_config :: "u32 \<Rightarrow> md_config \<Rightarrow> md_config" where
  "decode_config w cs =
     cs\<lparr>mdMspaceSize := (w AND 0xFFF) * MD_DEBUG_MSPACE_SIZE_UNIT,
        mdHistoricalBufferSize := drop_bit 12 (w AND 0xFFF000) * HISTORICAL_BUFFER_SIZE_UNIT,
        mdMaxBtDepth := drop_bit 24 (w AND 0x0F000000) * MD_BT_DEPTH_UNIT,
        mdBtMethod := ucast (drop_bit 29 (w AND 0x60000000)),
        mdSig := (if w AND 0x10000000 \<noteq> 0 then 1 else 0),
        mdMspaceSource := (if w AND 0x80000000 \<noteq> 0 then EXTERNAL_MEM else INTERNAL_MEM)\<rparr>"

definition sane_config :: "md_config \<Rightarrow> md_config" where
  "sane_config c0 =
     (let c1 = (if mdMspaceSize c0 = 0 then c0\<lparr>mdMspaceSize := MD_DEFAULT_DEBUG_MSPACE_SIZE\<rparr> else c0);
          c2 = c1\<lparr>mdMspaceSize := ALIGN_UP_TO_PAGE_SIZE (mdMspaceSize c1)\<rparr>;
          c3 = (if mdHistoricalBufferSize c2 = 0 then c2\<lparr>mdHistoricalBufferSize := 2046\<rparr> else c2);
          c4 = (if mdMaxBtDepth c3 = 0 then c3\<lparr>mdMaxBtDepth := MD_DEFAULT_MAX_BACKTRACE_DEPTH\<rparr> else c3);
          c5 = (if mdMaxBtDepth c4 > MD_DEFAULT_MAX_BACKTRACE_DEPTH \<and> mdBtMethod c4 = FP_BACKTRACE
                then c4\<lparr>mdMaxBtDepth := MD_DEFAULT_MAX_BACKTRACE_DEPTH\<rparr> else c4)
      in if mdMaxBtDepth c5 > MD_MAX_BACKTRACE_SIZE then c5\<lparr>mdMaxBtDepth := MD_MAX_BACKTRACE_SIZE\<rparr> else c5)"

definition init_debug_config :: "md \<Rightarrow> md" where
  "init_debug_config st =
     st\<lparr>gDebugConfig := sane_config
        (if debug15_config st \<noteq> 0 then decode_config (debug15_config st) (gDebugConfig st)
         else gDebugConfig st)\<rparr>"

section \<open>Start up\<close>

text \<open>
  Each property is None when it is not set (\<open>bo_level\<close> is what atoi reads in it); \<open>bo_eng\<close> is the
  engineering build (_MTK_ENG_).
\<close>

record boot_env =
  bo_progname :: "string option"
  bo_libc :: "(string \<Rightarrow> bool) option"
  bo_eng :: bool
  bo_level :: "int option"
  bo_prog :: "string option"
  bo_config :: "string option"
  bo_config_file :: "string option"
  bo_files :: "string \<Rightarrow> string option"
  bo_table_mmap :: bool
  bo_exm :: "(u32 \<Rightarrow> u32) option"
  bo_mmap :: "u32 \<Rightarrow> u32"
  bo_create_mspace :: "u32 \<Rightarrow> u32 \<Rightarrow> u32"
  bo_malloc :: "u32 set \<Rightarrow> nat \<Rightarrow> u32"

text \<open>The decision whether this program is debugged (15) or not.\<close>

definition excluded_program :: "string \<Rightarrow> bool" where
  "excluded_program p \<longleftrightarrow> p = ''sh'' \<or> p = ''/system/bin/sh'' \<or> strstr p ''/system/bin/logcat''
     \<or> strstr p ''/system/bin/installd'' \<or> strstr p ''/system/bin/dex2oat''
     \<or> strstr p ''/system/bin/debuggerd''"

definition debug_level :: "boot_env \<Rightarrow> string \<Rightarrow> int" where
  "debug_level e p =
     (let l0 = (case bo_level e of Some l \<Rightarrow> l | None \<Rightarrow> if bo_eng e then 15 else 0) in
      if l0 \<noteq> 15 then l0
      else
        let l1 = (if excluded_program p then 0 else l0) in
        (case bo_prog e of Some d \<Rightarrow> if strstr p d then 15 else 0 | None \<Rightarrow> l1))"

text \<open>From the configuration on; the result also says whether the signal handler is installed.\<close>

definition start_debugger :: "boot_env \<Rightarrow> md \<Rightarrow> bool \<times> md" where
  "start_debugger e st =
     (let s1 = init_debug_config st in
      case init_debug_mspace (bo_exm e) (bo_mmap e) (bo_create_mspace e) s1 of (r, s2) \<Rightarrow>
        if r \<noteq> 0 then (False, s2)
        else
          let sig = (mdSig (gDebugConfig s2) \<noteq> 0) in
          (case init_recorder (bo_malloc e) s2 of (r', s3) \<Rightarrow>
             (sig, if r' = 0 then s3\<lparr>malloc_debug15_enabled := True\<rparr> else s3)))"

text \<open>None is fuel spent, or a fault, while the configuration files are read.\<close>

definition malloc_debug_initialize :: "nat \<Rightarrow> boot_env \<Rightarrow> md \<Rightarrow> (bool \<times> md) option" where
  "malloc_debug_initialize fuel e st =
     (case bo_progname e of
        None \<Rightarrow> Some (False, st)
      | Some p \<Rightarrow>
          (case (if malloc_func_hooked st then (0, st) else malloc_func_rehook (bo_libc e) st) of (r, s1) \<Rightarrow>
             if r \<noteq> 0 then Some (False, s1)
             else if debug_level e p \<noteq> 15 then Some (False, s1)
             else
               let s2 = (case bo_config e of Some w \<Rightarrow> s1\<lparr>debug15_config := fst (strtoul w 16)\<rparr> | None \<Rightarrow> s1);
                   file = (case bo_config_file e of Some f \<Rightarrow> f | None \<Rightarrow> ''/system/vendor/etc/debug15.conf'')
               in
               (case (if file \<noteq> [] then mtk_malloc_debug_read_config fuel (bo_table_mmap e) (bo_files e) file
                      else Some None) of
                  None \<Rightarrow> None
                | Some table \<Rightarrow>
                    (case mtk_malloc_debug_set_config table (Some p) (gDebugConfig s2) of (r2, _, c) \<Rightarrow>
                       let s3 = s2\<lparr>gDebugConfig := c\<rparr> in
                       if r2 \<noteq> 0 then Some (False, s3) else Some (start_debugger e s3)))))"

section \<open>Fork\<close>

text \<open>
  The mspace is copied to anonymous memory before the fork and back into the child's own
  mapping after it. \<open>mmap\<close> answers for anonymous memory (address wanted, size); \<open>exm\<close> is the
  device in the child: None when it cannot be opened, otherwise what its fixed mapping answers;
  \<open>fresh\<close> is what newly mapped memory holds. Copying from MAP_FAILED is a fault.
\<close>

definition fork_copies :: "md \<Rightarrow> bool" where
  "fork_copies st \<longleftrightarrow> gDebugMspaceBase st \<noteq> 0 \<and> mdMspaceSource (gDebugConfig st) \<noteq> INTERNAL_MEM"

definition mtk_malloc_debug_prepare :: "(u32 \<Rightarrow> u32 \<Rightarrow> u32) \<Rightarrow> (u32 \<Rightarrow> u8) \<Rightarrow> md \<Rightarrow> md option" where
  "mtk_malloc_debug_prepare mmap fresh st = do {
     s \<leftarrow> multi_mutex_lock st;
     (if fork_copies s then
        let sz = mdMspaceSize (gDebugConfig s); b = mmap 0 sz in
        if b = MAP_FAILED then Some (s\<lparr>gMspaceBuffer := b\<rparr>)
        else
          Some (s\<lparr>gMspaceBuffer := b,
                  md_mem := memcpy (\<lambda>x. if unat (x - b) < unat sz then fresh x else md_mem s x) b
                              (gDebugMspaceBase s) (unat sz)\<rparr>)
      else Some s)
   }"

definition mtk_malloc_debug_parent :: "md \<Rightarrow> md" where
  "mtk_malloc_debug_parent st = multi_mutex_unlock st"

definition child_map :: "(u32 \<Rightarrow> u32 \<Rightarrow> u32) option \<Rightarrow> (u32 \<Rightarrow> u32 \<Rightarrow> u32) \<Rightarrow> md \<Rightarrow> md" where
  "child_map exm mmap st =
     (let old = gDebugMspaceBase st; sz = mdMspaceSize (gDebugConfig st);
          internal = (\<lambda>s. s\<lparr>gDebugMspaceBase := 0, gDebugConfig := (gDebugConfig s)\<lparr>mdMspaceSource := INTERNAL_MEM\<rparr>\<rparr>);
          s1 = (case exm of
                  None \<Rightarrow> internal st
                | Some f \<Rightarrow> (if f old sz = MAP_FAILED then internal st else st\<lparr>gDebugMspaceBase := f old sz\<rparr>))
      in
      if gDebugMspaceBase s1 = 0 \<or> gDebugMspaceBase s1 = MAP_FAILED then
        (if mmap old sz = MAP_FAILED then s1\<lparr>gDebugMspaceBase := 0\<rparr> else s1\<lparr>gDebugMspaceBase := mmap old sz\<rparr>)
      else s1)"

definition mtk_malloc_debug_child ::
    "(u32 \<Rightarrow> u32 \<Rightarrow> u32) option \<Rightarrow> (u32 \<Rightarrow> u32 \<Rightarrow> u32) \<Rightarrow> (u32 \<Rightarrow> u8) \<Rightarrow> md \<Rightarrow> md option" where
  "mtk_malloc_debug_child exm mmap fresh st =
     (if fork_copies st then
        let s1 = child_map exm mmap st; b = gDebugMspaceBase s1; sz = unat (mdMspaceSize (gDebugConfig s1)) in
        if b = 0 then Some (multi_mutex_unlock s1)
        else if gMspaceBuffer s1 = MAP_FAILED \<and> sz > 0 then None
        else Some (multi_mutex_unlock
          (s1\<lparr>md_mem := memcpy (\<lambda>x. if unat (x - b) < sz then fresh x else md_mem s1 x) b (gMspaceBuffer s1) sz\<rparr>))
      else Some (multi_mutex_unlock st))"

end
