(* ===== verification/MdInitProps.thy ===== *)
theory MdInitProps
  imports MdInit MdMem
begin

text \<open>What the configuration word means, and the copy of the debug mspace across a fork.\<close>

section \<open>The configuration word\<close>

lemma bit_positions:
  "n < 32 \<Longrightarrow> (n :: nat) \<in> {0, 1, 2, 3, 4, 5, 6, 7, 8, 9, 10, 11, 12, 13, 14, 15, 16, 17, 18, 19, 20,
     21, 22, 23, 24, 25, 26, 27, 28, 29, 30, 31}"
  by (simp only: insert_iff empty_iff) presburger

lemma bit_times_two: "bit (x * 2) (n :: nat) \<longleftrightarrow> n < 32 \<and> n \<noteq> 0 \<and> bit (x :: u32) (n - 1)"
  using bit_double_iff [of x n] by (auto simp: mult.commute dest: bit_imp_le_length)

lemma word_fields:
  fixes w :: u32
  shows "(drop_bit 20 (push_bit 20 (w AND 0xFFF)) AND 0xFFF)
     OR (push_bit 12 (drop_bit 10 (push_bit 10 (drop_bit 12 (w AND 0xFFF000)))) AND 0xFFF000)
     OR (push_bit 24 (drop_bit 1 (push_bit 1 (drop_bit 24 (w AND 0x0F000000)))) AND 0x0F000000)
     OR (push_bit 29 (ucast (ucast (drop_bit 29 (w AND 0x60000000)) :: u8)) AND 0x60000000)
     OR (w AND 0x10000000) OR (w AND 0x80000000) = w" (is "?l = w")
proof (rule bit_word_eqI)
  fix n assume "n < LENGTH(32)"
  then have "n < 32" by simp
  from bit_positions [OF this] show "bit ?l n = bit w n"
    by (simp only: insert_iff empty_iff) (elim disjE FalseE; simp add: bit_simps bit_times_two)
qed

lemma test_bit_word: "(if w AND 0x10000000 \<noteq> 0 then 0x10000000 else 0) = w AND (0x10000000 :: u32)"
  "(if w AND 0x80000000 \<noteq> 0 then 0x80000000 else 0) = w AND (0x80000000 :: u32)"
proof -
  have *: "w AND push_bit k 1 = (if bit w k then push_bit k 1 else 0)" for k
    by (rule bit_word_eqI) (auto simp: bit_simps)
  have p: "push_bit k (1 :: u32) \<noteq> 0" if "k < 32" for k
  proof -
    have "bit (push_bit k (1 :: u32)) k" using that by (simp add: bit_simps)
    then show ?thesis by (metis bit_0_eq bot_apply bot_bool_def)
  qed
  show "(if w AND 0x10000000 \<noteq> 0 then 0x10000000 else 0) = w AND (0x10000000 :: u32)"
    using * [of 28] p [of 28] by (simp add: push_bit_eq_mult)
  show "(if w AND 0x80000000 \<noteq> 0 then 0x80000000 else 0) = w AND (0x80000000 :: u32)"
    using * [of 31] p [of 31] by (simp add: push_bit_eq_mult)
qed

lemma scale_units:
  "x * MD_DEBUG_MSPACE_SIZE_UNIT = push_bit 20 x" "x div MD_DEBUG_MSPACE_SIZE_UNIT = drop_bit 20 x"
  "x * HISTORICAL_BUFFER_SIZE_UNIT = push_bit 10 x" "x div HISTORICAL_BUFFER_SIZE_UNIT = drop_bit 10 x"
  "x * MD_BT_DEPTH_UNIT = push_bit 1 x" "x div MD_BT_DEPTH_UNIT = drop_bit 1 x"
  by (simp_all add: MD_DEBUG_MSPACE_SIZE_UNIT_def HISTORICAL_BUFFER_SIZE_UNIT_def MD_BT_DEPTH_UNIT_def
      push_bit_eq_mult drop_bit_eq_div)

text \<open>
  The packed configuration word loses nothing: encoding the configuration that a word decodes
  to gives the word back, for every word and whatever the configuration was before.
\<close>

theorem config_word_roundtrip: "config_to_uint (decode_config w cs) = w"
proof -
  have "mdSig (decode_config w cs) = 1 \<longleftrightarrow> w AND 0x10000000 \<noteq> 0"
    "mdMspaceSource (decode_config w cs) = EXTERNAL_MEM \<longleftrightarrow> w AND 0x80000000 \<noteq> 0"
    by (simp_all add: decode_config_def EXTERNAL_MEM_def INTERNAL_MEM_def)
  then show ?thesis
    using word_fields [of w] unfolding config_to_uint_def Let_def
    by (simp add: test_bit_word scale_units) (simp add: decode_config_def scale_units or.assoc)
qed

lemma align_page: "ALIGN_UP_TO_PAGE_SIZE p AND 0xFFF = 0"
proof -
  have "NOT (4096 - 1) AND 0xFFF = (0 :: u32)" by simp
  then show ?thesis unfolding ALIGN_UP_TO_PAGE_SIZE_def by (metis and.assoc and_zero_eq)
qed

lemma sane_config_cases:
  fixes c0 :: md_config
  defines "c \<equiv> sane_config c0"
  shows "mdMspaceSize c = ALIGN_UP_TO_PAGE_SIZE (if mdMspaceSize c0 = 0 then MD_DEFAULT_DEBUG_MSPACE_SIZE else mdMspaceSize c0)"
    "mdHistoricalBufferSize c = (if mdHistoricalBufferSize c0 = 0 then 2046 else mdHistoricalBufferSize c0)"
    "mdBtMethod c = mdBtMethod c0" "mdSig c = mdSig c0" "mdMspaceSource c = mdMspaceSource c0"
    "mdMaxBtDepth c =
      (let d = (if mdMaxBtDepth c0 = 0 then 5 else mdMaxBtDepth c0);
           d2 = (if d > 5 \<and> mdBtMethod c0 = FP_BACKTRACE then 5 else d) in if d2 > 32 then 32 else d2)"
  by (auto simp: c_def sane_config_def Let_def MD_DEFAULT_MAX_BACKTRACE_DEPTH_def MD_MAX_BACKTRACE_SIZE_def)

text \<open>
  After start up the trace depth fits the arrays on the stack: between 1 and 32 frames, at
  most 5 with the frame-pointer walk; the history ring is not empty and the debug mspace is whole
  pages.
\<close>

theorem init_debug_config_bounds:
  "let c = gDebugConfig (init_debug_config st) in
     1 \<le> mdMaxBtDepth c \<and> mdMaxBtDepth c \<le> (if mdBtMethod c = FP_BACKTRACE then 5 else 32)
     \<and> mdHistoricalBufferSize c \<noteq> 0 \<and> mdMspaceSize c AND 0xFFF = 0"
proof -
  obtain c0 where c: "gDebugConfig (init_debug_config st) = sane_config c0" unfolding init_debug_config_def by simp
  have pos: "1 \<le> d" if "d \<noteq> 0" for d :: u32
    using that by (metis word_le_sub1 word_coorder.not_eq_extremum word_less_1 word_not_simps(1) not_le)
  have "1 \<le> mdMaxBtDepth (sane_config c0)" by (rule pos) (simp add: sane_config_cases Let_def)
  moreover have "mdMaxBtDepth (sane_config c0) \<le> (if mdBtMethod (sane_config c0) = FP_BACKTRACE then 5 else 32)"
    by (auto simp: sane_config_cases Let_def not_less dest: less_le_trans)
  moreover have "mdHistoricalBufferSize (sane_config c0) \<noteq> 0" by (simp add: sane_config_cases)
  moreover have "mdMspaceSize (sane_config c0) AND 0xFFF = 0" by (simp only: sane_config_cases align_page)
  ultimately show ?thesis unfolding c Let_def by blast
qed

section \<open>Fork\<close>


lemma multi_mutex_lock_Some:
  "multi_mutex_lock st = Some s \<longleftrightarrow> \<not> gChunkMutex st \<and> \<not> gBtMutex st \<and> \<not> gHistoryMutex st
     \<and> s = st\<lparr>gChunkMutex := True, gBtMutex := True, gHistoryMutex := True\<rparr>"
  by (auto simp: multi_mutex_lock_def chunk_mutex_lock_def bt_lock_def history_lock_def split: option.splits)

lemma prepare_locks:
  assumes "mtk_malloc_debug_prepare mmap fresh st = Some s1"
  shows "multi_mutex_lock st = Some (st\<lparr>gChunkMutex := True, gBtMutex := True, gHistoryMutex := True\<rparr>)"
  using assms by (cases "multi_mutex_lock st") (auto simp: mtk_malloc_debug_prepare_def multi_mutex_lock_Some)

text \<open>
  Where the child's mspace is: a mapping of the reserved memory is at the parent's address, because it is asked for with
  \<open>MAP_FIXED\<close>; the fallback to anonymous memory names the address only as a hint, so that it may be anywhere; and
  when neither can be made there is none.
\<close>

definition child_base :: "(u32 \<Rightarrow> u32 \<Rightarrow> u32) option \<Rightarrow> (u32 \<Rightarrow> u32 \<Rightarrow> u32) \<Rightarrow> u32 \<Rightarrow> u32 \<Rightarrow> u32" where
  "child_base exm mmap a n =
     (case exm of Some f \<Rightarrow> if f a n \<noteq> MAP_FAILED then a else if mmap a n = MAP_FAILED then 0 else mmap a n
      | None \<Rightarrow> if mmap a n = MAP_FAILED then 0 else mmap a n)"

definition map_fixed :: "(u32 \<Rightarrow> u32 \<Rightarrow> u32) option \<Rightarrow> bool" where
  "map_fixed exm \<longleftrightarrow> (\<forall>f a n. exm = Some f \<longrightarrow> f a n = a \<or> f a n = MAP_FAILED)"

lemma child_map_base:
  assumes "map_fixed exm" "gDebugMspaceBase st \<noteq> 0" "gDebugMspaceBase st \<noteq> MAP_FAILED"
  shows "gDebugMspaceBase (child_map exm mmap st)
      = child_base exm mmap (gDebugMspaceBase st) (mdMspaceSize (gDebugConfig st))"
    "mdMspaceSize (gDebugConfig (child_map exm mmap st)) = mdMspaceSize (gDebugConfig st)"
    "gMspaceBuffer (child_map exm mmap st) = gMspaceBuffer st"
    "md_mem (child_map exm mmap st) = md_mem st"
    "md_chunks (child_map exm mmap st) = md_chunks st"
proof -
  show "gDebugMspaceBase (child_map exm mmap st)
      = child_base exm mmap (gDebugMspaceBase st) (mdMspaceSize (gDebugConfig st))"
  proof (cases exm)
    case (Some f)
    let ?r = "f (gDebugMspaceBase st) (mdMspaceSize (gDebugConfig st))"
    have "?r = gDebugMspaceBase st \<or> ?r = MAP_FAILED" using assms(1) Some by (simp add: map_fixed_def)
    then show ?thesis using assms(2,3) Some by (elim disjE) (simp_all add: child_map_def child_base_def Let_def)
  qed (simp add: child_map_def child_base_def Let_def)
qed (simp_all add: child_map_def Let_def split: option.split)





text \<open>
  When the anonymous copy could not be made the parent forgets to tell the child: the child
  copies from MAP_FAILED and faults.
\<close>

lemma fork_without_copy_faults:
  assumes "fork_copies st" "gDebugMspaceBase st \<noteq> MAP_FAILED" "mdMspaceSize (gDebugConfig st) \<noteq> 0" "map_fixed exm"
    "mmap 0 (mdMspaceSize (gDebugConfig st)) = MAP_FAILED"
    "child_base exm mmap (gDebugMspaceBase st) (mdMspaceSize (gDebugConfig st)) \<noteq> 0"
    "mtk_malloc_debug_prepare mmap fresh st = Some s1"
  shows "mtk_malloc_debug_child exm mmap fresh' s1 = None"
proof -
  have s1: "s1 = st\<lparr>gChunkMutex := True, gBtMutex := True, gHistoryMutex := True, gMspaceBuffer := MAP_FAILED\<rparr>"
    using assms(1,5,7) by (simp add: mtk_malloc_debug_prepare_def prepare_locks [OF assms(7)] fork_copies_def Let_def)
  have ne: "gDebugMspaceBase s1 \<noteq> 0" "gDebugMspaceBase s1 \<noteq> MAP_FAILED" "fork_copies s1"
    using assms(1,2) by (simp_all add: s1 fork_copies_def)
  have "unat (mdMspaceSize (gDebugConfig s1)) > 0" using assms(3) by (simp add: s1 unat_gt_0)
  then show ?thesis
    using child_map_base [OF assms(4) ne(1,2)] ne assms(6)
    by (simp add: mtk_malloc_debug_child_def Let_def s1)
qed

end
