(* ===== verification/MdConfigProps.thy ===== *)
theory MdConfigProps
  imports MdConfig
begin

text \<open>
  Properties of the configuration parser: the table as a finite map with bounded, distinct
  names; the argument splitter; when the option loop ends and when it does not; what the
  shipped configuration file means.
\<close>

section \<open>The table as a map\<close>

definition table_ok :: "config_table \<Rightarrow> bool" where
  "table_ok t \<longleftrightarrow> tab_count t \<le> CONFIG_TABLE_SIZE \<and> distinct (map fst (tab_entries t))
     \<and> (\<forall>e \<in> set (tab_entries t). length (fst e) \<le> NAME_LEN - 1)"

abbreviation cut :: "string \<Rightarrow> string" where
  "cut name \<equiv> take (NAME_LEN - 1) name"

lemma strncmp_short: "length n \<le> k \<Longrightarrow> strncmp_eq name n k \<longleftrightarrow> take k name = n"
  by (simp add: strncmp_eq_def)

lemma replace_config_None:
  "\<forall>e \<in> set es. length (fst e) \<le> NAME_LEN - 1 \<Longrightarrow> replace_config name c es = None \<longleftrightarrow> cut name \<notin> fst ` set es"
  by (induction name c es rule: replace_config.induct)
    (auto simp: strncmp_short split: option.splits)

lemma replace_config_Some:
  "replace_config name c es = Some es' \<Longrightarrow> \<forall>e \<in> set es. length (fst e) \<le> NAME_LEN - 1 \<Longrightarrow>
     map fst es' = map fst es \<and> map_of es' = (map_of es)(cut name \<mapsto> c)"
proof (induction name c es arbitrary: es' rule: replace_config.induct)
  case (2 name c n d es)
  show ?case
  proof (cases "strncmp_eq name n (NAME_LEN - 1)")
    case True
    then have "cut name = n" using 2(3) by (simp add: strncmp_short)
    then show ?thesis using 2(2) True by auto
  next
    case False
    then obtain fs where fs: "replace_config name c es = Some fs" "es' = (n, d) # fs"
      using 2(2) by (auto split: option.splits)
    have ih: "map fst fs = map fst es \<and> map_of fs = (map_of es)(cut name \<mapsto> c)"
      by (rule 2(1) [OF False fs(1)]) (use 2(3) in simp)
    have "cut name \<noteq> n" using False 2(3) by (simp add: strncmp_short)
    then show ?thesis using ih by (simp add: fs(2) fun_eq_iff)
  qed
qed simp

lemma names_same:
  assumes "map fst es' = map fst es"
  shows "(\<forall>e \<in> set es'. P (fst e)) = (\<forall>e \<in> set es. P (fst e))"
proof -
  have "list_all P (map fst es') = list_all P (map fst es)" using assms by simp
  then show ?thesis by (simp add: list_all_iff)
qed

lemma map_of_snoc: "n \<notin> fst ` set es \<Longrightarrow> map_of (es @ [(n, c)]) = (map_of es)(n \<mapsto> c)"
  by (induction es) (auto simp: fun_upd_twist)

lemma set_config_ok:
  assumes ok: "table_ok t" and r: "set_config name c t = (r, t')"
  shows "table_ok t'" "tab_default t' = tab_default t" "r = 0 \<or> r = -1"
    "r = 0 \<Longrightarrow> map_of (tab_entries t') = (map_of (tab_entries t))(cut name \<mapsto> c)"
    "r \<noteq> 0 \<Longrightarrow> t' = t"
proof -
  have len: "\<forall>e \<in> set (tab_entries t). length (fst e) \<le> NAME_LEN - 1" using ok by (simp add: table_ok_def)
  have all: "table_ok t' \<and> tab_default t' = tab_default t \<and> (r = 0 \<or> r = -1)
    \<and> (r = 0 \<longrightarrow> map_of (tab_entries t') = (map_of (tab_entries t))(cut name \<mapsto> c)) \<and> (r \<noteq> 0 \<longrightarrow> t' = t)"
  proof (cases "replace_config name c (tab_entries t)")
    case (Some es)
    have m: "map fst es = map fst (tab_entries t)" "map_of es = (map_of (tab_entries t))(cut name \<mapsto> c)"
      using replace_config_Some [OF Some len] by simp_all
    have "length es = length (tab_entries t)" using m(1) by (metis length_map)
    then show ?thesis
      using ok r Some m names_same [OF m(1), of "\<lambda>n. length n \<le> NAME_LEN - 1"]
      by (auto simp: set_config_def table_ok_def tab_count_def)
  next
    case None
    have new: "cut name \<notin> fst ` set (tab_entries t)" using None replace_config_None [OF len] by simp
    note f = map_of_snoc [OF new, of c]
    show ?thesis
    proof (cases "tab_count t = CONFIG_TABLE_SIZE")
      case True
      then show ?thesis using r None ok by (auto simp: set_config_def)
    next
      case False
      then show ?thesis using r None ok new f
        by (auto simp: set_config_def table_ok_def tab_count_def)
    qed
  qed
  then show "table_ok t'" "tab_default t' = tab_default t" "r = 0 \<or> r = -1"
    "r = 0 \<Longrightarrow> map_of (tab_entries t') = (map_of (tab_entries t))(cut name \<mapsto> c)" "r \<noteq> 0 \<Longrightarrow> t' = t" by auto
qed

section \<open>The handlers keep the table\<close>

lemma set_configs_ok: "table_ok t \<Longrightarrow> table_ok (snd (set_configs ns c t))"
proof (induction ns c t rule: set_configs.induct)
  case (2 n ns c t)
  obtain r t' where s: "set_config n c t = (r, t')" by (cases "set_config n c t")
  show ?case using 2 s set_config_ok(1) [OF 2(2) s] by simp
qed simp

lemma block_names_ok: "table_ok t \<Longrightarrow> table_ok (snd (block_names ns i t))"
proof (induction ns i t rule: block_names.induct)
  case (2 a as i t)
  obtain r t' where s: "set_config a blocked_config t = (r, t')" by (cases "set_config a blocked_config t")
  show ?case using 2 s set_config_ok(1) [OF 2(2) s] by simp
qed simp

lemma add_process_ok: "table_ok t \<Longrightarrow> table_ok (snd (add_process args t))"
proof -
  assume ok: "table_ok t"
  obtain ret nr c where s: "scan_names (tl args) 1 = (ret, nr, c)" by (cases "scan_names (tl args) 1")
  obtain r t' where c: "set_configs (take (nr - 1) (tl args)) c t = (r, t')"
    by (cases "set_configs (take (nr - 1) (tl args)) c t")
  have "table_ok t'" using set_configs_ok [OF ok, of "take (nr - 1) (tl args)" c] c by simp
  then show ?thesis using ok s c by (simp add: add_process_def)
qed

lemma default_ok: "table_ok (t\<lparr>tab_default := d\<rparr>) = table_ok t"
  by (simp add: table_ok_def tab_count_def)

lemma handlers_ok:
  assumes "table_ok t"
  shows "table_ok (snd (add_process args t))" "table_ok (snd (add_all_processes args t))"
    "table_ok (snd (block_process args t))" "table_ok (snd (block_all_processes args t))"
  using assms add_process_ok block_names_ok
  by (auto simp: add_all_processes_def block_process_def block_all_processes_def set_default_config_def
      reset_default_config_def default_ok split: prod.split)

lemma run_config_file_ok:
  assumes "table_ok t" "\<And>as u u'. table_ok u \<Longrightarrow> run as u = Some u' \<Longrightarrow> table_ok u'"
    "run_config_file run files name t = Some (r, t')"
  shows "table_ok t'"
  using assms by (auto simp: run_config_file_def split: option.splits)

lemma run_option_ok:
  assumes t: "table_ok t" and run: "\<And>as u u'. table_ok u \<Longrightarrow> run as u = Some u' \<Longrightarrow> table_ok u'"
    and r: "run_option run files inc args t = Some (i, t')"
  shows "table_ok t'"
proof -
  have f: "table_ok t'" if f: "add_config_file run files args t = Some (i, t')"
    using f t run_config_file_ok [OF t run] by (auto simp: add_config_file_def split: if_splits option.splits prod.splits)
  show ?thesis
    using r f t handlers_ok [OF t, of args] by (auto simp: run_option_def Let_def split: if_splits)
qed

lemma process_args_ok:
  "table_ok t \<Longrightarrow> process_args fuel files inc args t = Some t' \<Longrightarrow> table_ok t'"
proof (induction fuel arbitrary: inc args t t')
  case (Suc fuel)
  show ?case
  proof (cases "args = []")
    case True
    then show ?thesis using Suc.prems by simp
  next
    case False
    let ?run = "\<lambda>as u. process_args fuel files 0 as u"
    obtain i u where u: "run_option ?run files inc args t = Some (i, u)"
      and rest: "(if i < 0 then Some u else process_args fuel files (nat i) (drop (nat i) args) u) = Some t'"
      using Suc.prems(2) False by (auto split: option.splits)
    have "table_ok u" by (rule run_option_ok [OF Suc.prems(1) _ u]) (rule Suc.IH)
    then show ?thesis using rest Suc.IH by (auto split: if_splits)
  qed
qed simp


text \<open>
  C21. Storing a process configuration is a finite-map update on the truncated name: an existing
  entry is replaced, a new one appended, the table keeps its capacity, its distinct names and
  their length bound, and the only failure is a full table, which leaves it unchanged.
\<close>

theorem set_config_map_update:
  assumes "table_ok t" "set_config name c t = (r, t')"
  shows "table_ok t' \<and>
     (if r = 0 then map_of (tab_entries t') = (map_of (tab_entries t))(cut name \<mapsto> c)
      else r = -1 \<and> t' = t \<and> tab_count t = CONFIG_TABLE_SIZE \<and> cut name \<notin> dom (map_of (tab_entries t)))"
proof -
  have len: "\<forall>e \<in> set (tab_entries t). length (fst e) \<le> NAME_LEN - 1" using assms(1) by (simp add: table_ok_def)
  have "r \<noteq> 0 \<Longrightarrow> tab_count t = CONFIG_TABLE_SIZE \<and> replace_config name c (tab_entries t) = None"
    using assms(2) by (auto simp: set_config_def split: option.splits if_splits)
  then show ?thesis
    using set_config_ok [OF assms] replace_config_None [OF len] by (auto simp: dom_map_of_conv_image_fst)
qed

theorem set_config_map_update_witness:
  "\<exists>r t'. set_config ''sh'' blocked_config \<lparr>tab_default = ([], zero_config), tab_entries = [(''sh'', zero_config)]\<rparr> = (r, t')
     \<and> r = 0 \<and> map_of (tab_entries t') ''sh'' = Some blocked_config"
proof -
  let ?t = "\<lparr>tab_default = ([], zero_config), tab_entries = [(''sh'', zero_config)]\<rparr>"
  have ok: "table_ok ?t" by (simp add: table_ok_def tab_count_def CONFIG_TABLE_SIZE_def NAME_LEN_def)
  have s: "set_config ''sh'' blocked_config ?t = (0, ?t\<lparr>tab_entries := [(''sh'', blocked_config)]\<rparr>)"
    by (simp add: set_config_def strncmp_eq_def)
  have "cut ''sh'' = ''sh''" by (simp add: NAME_LEN_def)
  then show ?thesis using set_config_map_update [OF ok s] s by (simp add: fun_eq_iff)
qed

section \<open>The option loop\<close>

definition known_option :: "string \<Rightarrow> bool" where
  "known_option a \<longleftrightarrow> a \<in> {''-a'', ''-all'', ''-b'', ''-ball'', ''-f''}"

lemma block_names_result: "fst (block_names as i t) = -1 \<or> int i \<le> fst (block_names as i t)"
  by (induction as i t rule: block_names.induct) (auto split: prod.splits)

lemma scan_names_pos: "fst (scan_names as i) = 0 \<or> i \<le> fst (snd (scan_names as i))"
  by (induction as i rule: scan_names.induct) (auto split: prod.splits)

text \<open>Without -f a step stops, or moves on by at least one argument unless it moves by \<open>inc\<close>.\<close>

lemma run_option_progress:
  assumes "args \<noteq> []" "hd args \<noteq> ''-f''" "known_option (hd args) \<or> 0 < inc"
  obtains i t' where "run_option run files inc args t = Some (i, t')" "i < 0 \<or> 1 \<le> i"
proof -
  let ?ok = "\<lambda>x :: int \<times> config_table. fst x < 0 \<or> 1 \<le> fst x"
  have add: "?ok (add_process args t)"
    using scan_names_pos [of "tl args" 1] by (auto simp: add_process_def split: prod.splits)
  have all: "?ok (add_all_processes args t)" by (auto simp: add_all_processes_def split: prod.splits)
  have block: "?ok (block_process args t)"
    using block_names_result [of "tl args" 1 t] by (auto simp: block_process_def)
  have block_all: "?ok (block_all_processes args t)" by (simp add: block_all_processes_def)
  have "\<exists>x. run_option run files inc args t = Some x \<and> ?ok x"
  proof (cases "known_option (hd args)")
    case True
    then consider "hd args = ''-a''" | "hd args = ''-all''" | "hd args = ''-b''" | "hd args = ''-ball''"
      using assms(2) by (auto simp: known_option_def)
    then show ?thesis using add all block block_all by cases (simp_all add: run_option_def)
  next
    case False
    then have "run_option run files inc args t = Some (int inc, t)" by (auto simp: run_option_def known_option_def Let_def)
    then show ?thesis using False assms(3) by auto
  qed
  then show ?thesis using that by fastforce
qed

lemma process_args_ends:
  assumes "length args < fuel" "''-f'' \<notin> set args" "args = [] \<or> known_option (hd args) \<or> 0 < inc"
  shows "\<exists>t'. process_args fuel files inc args t = Some t'"
  using assms
proof (induction fuel arbitrary: inc args t)
  case (Suc fuel)
  show ?case
  proof (cases "args = []")
    case False
    have hd: "hd args \<noteq> ''-f''" using Suc.prems(2) False by (metis hd_in_set)
    obtain i u where r: "run_option (\<lambda>as u. process_args fuel files 0 as u) files inc args t = Some (i, u)"
      and i: "i < 0 \<or> 1 \<le> i"
      using run_option_progress [OF False hd] Suc.prems(3) False by metis
    show ?thesis
    proof (cases "i < 0")
      case False
      then have "0 < nat i" using i by simp
      moreover have "length (drop (nat i) args) < fuel" using \<open>0 < nat i\<close> Suc.prems(1) \<open>args \<noteq> []\<close> by (cases args) auto
      moreover have "''-f'' \<notin> set (drop (nat i) args)" using Suc.prems(2) by (meson in_set_dropD)
      ultimately have "\<exists>t'. process_args fuel files (nat i) (drop (nat i) args) u = Some t'" using Suc.IH by blast
      then show ?thesis using r \<open>args \<noteq> []\<close> False by simp
    qed (simp add: r \<open>args \<noteq> []\<close>)
  qed simp
qed simp

text \<open>
  C22. The option loop ends, within one turn per argument and one more, on every argument vector
  that starts with a known option and includes no further file.
\<close>

theorem process_args_terminates:
  assumes "known_option a" "''-f'' \<notin> set (a # as)"
  shows "\<exists>t'. process_args (length as + 2) files 0 (a # as) t = Some t'"
  by (rule process_args_ends) (use assms in auto)

lemma known_option_witness: "known_option ''-all''" "''-f'' \<notin> set [''-all'', ''-ball'', ''x'']"
  by (simp_all add: known_option_def)

theorem process_args_terminates_witness:
  "\<exists>t'. process_args 4 (\<lambda>_. None) 0 [''-all'', ''-ball'', ''x''] \<lparr>tab_default = ([], zero_config), tab_entries = []\<rparr> = Some t'"
proof -
  have "length [''-ball'', ''x''] + 2 = 4" by simp
  then show ?thesis
    using process_args_terminates [of "''-all''" "[''-ball'', ''x'']" "\<lambda>_. None"]
    by (metis (no_types, lifting) known_option_witness)
qed

text \<open>
  When the first word of a configuration file is not an option the loop never advances: no
  number of turns ends it, so reading such a file does not return.
\<close>

theorem unknown_first_word_never_ends:
  assumes "\<not> known_option a"
  shows "process_args fuel files 0 (a # as) t = None"
  using assms by (induction fuel) (auto simp: run_option_def known_option_def)

theorem unknown_first_word_never_ends_witness:
  "process_args 100 (\<lambda>_. None) 0 [''mediaserver'', ''-all''] \<lparr>tab_default = ([], zero_config), tab_entries = []\<rparr> = None"
  by (rule unknown_first_word_never_ends) (simp add: known_option_def)

section \<open>Splitting a file into words\<close>

definition is_word :: "string \<Rightarrow> bool" where
  "is_word w \<longleftrightarrow> w \<noteq> [] \<and> list_all (\<lambda>c. \<not> is_sep c) w"

lemma split_args_in_word:
  "list_all (\<lambda>c. \<not> is_sep c) w \<Longrightarrow> split_args n (w @ cs) (Some v) = split_args n cs (Some (v @ w))"
  by (induction w arbitrary: v) simp_all

lemma split_args_word:
  "is_word w \<Longrightarrow> split_args n (w @ cs) None = (if n + 1 = MAX_ARGS then None else split_args (n + 1) cs (Some w))"
  by (cases w) (simp_all add: is_word_def split_args_in_word)

lemma split_args_gap: "list_all is_sep g \<Longrightarrow> split_args n (g @ cs) None = split_args n cs None"
  by (induction g) simp_all

text \<open>A file as words, each followed by a separator and any further ones, and perhaps a last one without.\<close>

fun lay_out :: "(string \<times> char \<times> string) list \<Rightarrow> string" where
  "lay_out [] = []"
| "lay_out ((w, s, g) # ws) = w @ s # g @ lay_out ws"

definition words_of :: "(string \<times> char \<times> string) list \<Rightarrow> string \<Rightarrow> string list" where
  "words_of ws last_word = map fst ws @ (if last_word = [] then [] else [last_word])"

lemma split_args_laid_out:
  assumes "list_all (\<lambda>(w, s, g). is_word w \<and> is_sep s \<and> list_all is_sep g) ws" "last_word = [] \<or> is_word last_word"
    "n < MAX_ARGS"
  shows "split_args n (lay_out ws @ last_word) None
    = (if n + length (words_of ws last_word) < MAX_ARGS then Some (words_of ws last_word) else None)"
  using assms(1,3)
proof (induction ws arbitrary: n rule: lay_out.induct)
  case 1
  show ?case using assms(2) 1(2) split_args_word [of last_word n "[]"] by (auto simp: words_of_def is_word_def)
next
  case (2 w s g ws)
  then show ?case by (auto simp: split_args_word split_args_gap words_of_def)
qed

text \<open>
  C24. What the reader makes of a configuration file: it takes the first 4095 bytes of it and splits them into exactly
  the words that are laid out there, whatever blanks, tabs, line ends or NULs separate them and whether or not one ends
  them, as long as there are at most 255; at the 256th it runs into its assertion.
\<close>

theorem split_args_roundtrip:
  assumes "files name = Some content" "take (BUF_SIZE - 1) content = gap @ lay_out ws @ last_word"
    "list_all is_sep gap" "list_all (\<lambda>(w, s, g). is_word w \<and> is_sep s \<and> list_all is_sep g) ws"
    "last_word = [] \<or> is_word last_word"
  shows "Option.bind (read_config_file files name) buf_to_args
    = (if length (words_of ws last_word) < MAX_ARGS then Some (words_of ws last_word) else None)"
  using split_args_laid_out [OF assms(4,5), of 0] split_args_gap [OF assms(3)] assms(1,2)
  by (simp add: read_config_file_def buf_to_args_def MAX_ARGS_def)

theorem split_args_roundtrip_witness:
  "Option.bind (read_config_file (\<lambda>_. Some ('' '' @ lay_out [(''-a'', CHR '' '', ''  ''), (''sh'', CHR ''\<newline>'', [])] @ ''x'')) ''f'') buf_to_args
    = Some [''-a'', ''sh'', ''x'']"
proof -
  have sep: "is_sep (CHR '' '')" "is_sep (CHR ''\<newline>'')" by (simp_all add: is_sep_def NUL_def c_isspace_def)
  have words: "is_word ''-a''" "is_word ''sh''" "is_word ''x''"
    by (simp_all add: is_word_def is_sep_def NUL_def c_isspace_def)
  have "take (BUF_SIZE - 1) ('' '' @ lay_out [(''-a'', CHR '' '', ''  ''), (''sh'', CHR ''\<newline>'', [])] @ ''x'')
      = '' '' @ lay_out [(''-a'', CHR '' '', ''  ''), (''sh'', CHR ''\<newline>'', [])] @ ''x''"
    by (simp add: BUF_SIZE_def)
  then show ?thesis
    using split_args_roundtrip [where files = "\<lambda>_. Some ('' '' @ lay_out [(''-a'', CHR '' '', ''  ''), (''sh'', CHR ''\<newline>'', [])] @ ''x'')"
        and name = "''f''" and gap = "'' ''" and ws = "[(''-a'', CHR '' '', ''  ''), (''sh'', CHR ''\<newline>'', [])]" and last_word = "''x''"]
      sep words by (simp add: words_of_def MAX_ARGS_def)
qed

section \<open>Included files\<close>

text \<open>
  The words that follow a \<open>-f\<close>, and the files whose reading ends: unreadable ones, and those of at most 255 words that
  start with a known option (or are blank) and include only such files, to depth \<open>d\<close>.
\<close>

fun includes_of :: "string list \<Rightarrow> string list" where
  "includes_of (a # b # as) = (if a = ''-f'' then b # includes_of (b # as) else includes_of (b # as))"
| "includes_of as = []"

primrec config_ok :: "nat \<Rightarrow> (string \<Rightarrow> string option) \<Rightarrow> string \<Rightarrow> bool" where
  "config_ok 0 files name = (read_config_file files name = None)"
| "config_ok (Suc d) files name =
     (case read_config_file files name of
        None \<Rightarrow> True
      | Some buf \<Rightarrow>
          (case buf_to_args buf of
             None \<Rightarrow> False
           | Some args \<Rightarrow> (args = [] \<or> known_option (hd args)) \<and> list_all (config_ok d files) (includes_of args)))"

lemma includes_of_tl: "set (includes_of (tl as)) \<subseteq> set (includes_of as)"
  by (cases as rule: includes_of.cases) auto

lemma includes_of_drop: "set (includes_of (drop k as)) \<subseteq> set (includes_of as)"
proof (induction k arbitrary: as)
  case (Suc k)
  have "drop (Suc k) as = drop k (tl as)" by (simp add: drop_Suc)
  then show ?case using Suc.IH [of "tl as"] includes_of_tl by fastforce
qed simp

lemma split_args_few: "split_args n cs cur = Some ws \<Longrightarrow> n < MAX_ARGS \<Longrightarrow>
    n + length ws < MAX_ARGS + (if cur = None then 0 else 1)"
proof (induction n cs cur arbitrary: ws rule: split_args.induct)
  case (1 n cur)
  then show ?case by (auto split: option.splits)
next
  case (2 n c cs cur)
  then show ?case by (fastforce split: if_splits option.splits)
qed

lemma run_option_include:
  assumes "hd args = ''-f''" "args \<noteq> []"
    and run: "\<And>name buf as. read_config_file files name = Some buf \<Longrightarrow> name \<in> set (includes_of args) \<Longrightarrow>
      \<exists>as. buf_to_args buf = Some as \<and> (\<exists>t'. run as t = Some t')"
  obtains i t' where "run_option run files inc args t = Some (i, t')" "i < 0 \<or> 1 \<le> i"
proof -
  have "\<exists>i t'. add_config_file run files args t = Some (i, t') \<and> (i < 0 \<or> 1 \<le> i)"
  proof (cases "length args < 2")
    case False
    then obtain b as where args: "args = ''-f'' # b # as" using assms(1,2) by (cases args rule: includes_of.cases) auto
    show ?thesis
    proof (cases "read_config_file files b")
      case (Some buf)
      have "b \<in> set (includes_of args)" by (simp add: args)
      from run [OF Some this] obtain ws t' where "buf_to_args buf = Some ws" "run ws t = Some t'" by blast
      then show ?thesis using Some by (simp add: add_config_file_def args run_config_file_def)
    qed (simp add: add_config_file_def args run_config_file_def)
  qed (simp add: add_config_file_def)
  then show ?thesis using that assms(1) by (auto simp: run_option_def Let_def)
qed

lemma process_args_ends_nested:
  assumes "length args + MAX_ARGS * d < fuel" "args = [] \<or> known_option (hd args) \<or> 0 < inc"
    "list_all (config_ok d files) (includes_of args)"
  shows "\<exists>t'. process_args fuel files inc args t = Some t'"
  using assms
proof (induction fuel arbitrary: inc args t d)
  case (Suc fuel)
  show ?case
  proof (cases "args = []")
    case False
    let ?run = "\<lambda>as u. process_args fuel files 0 as u"
    obtain i u where r: "run_option ?run files inc args t = Some (i, u)" and i: "i < 0 \<or> 1 \<le> i"
    proof (cases "hd args = ''-f''")
      case True
      show ?thesis
      proof (rule run_option_include [OF True False, of files ?run t inc])
        fix name buf assume b: "read_config_file files name = Some buf" "name \<in> set (includes_of args)"
        then have ok: "config_ok d files name" using Suc.prems(3) by (simp add: list_all_iff)
        then obtain d' where d: "d = Suc d'" using b(1) by (cases d) auto
        obtain as where as: "buf_to_args buf = Some as" "as = [] \<or> known_option (hd as)"
            "list_all (config_ok d' files) (includes_of as)"
          using ok b(1) by (auto simp: d split: option.splits)
        have "length as < MAX_ARGS" using split_args_few [of 0 buf None as] as(1) by (simp add: buf_to_args_def MAX_ARGS_def)
        then have "length as + MAX_ARGS * d' < fuel" using Suc.prems(1) by (simp add: d)
        then have "\<exists>t'. process_args fuel files 0 as t = Some t'" using Suc.IH as(2,3) by blast
        then show "\<exists>as. buf_to_args buf = Some as \<and> (\<exists>t'. ?run as t = Some t')" using as(1) by blast
      qed (rule that)
    next
      case other: False
      then show ?thesis using run_option_progress [OF False other] Suc.prems(2) False that by metis
    qed
    show ?thesis
    proof (cases "i < 0")
      case False
      then have n: "0 < nat i" using i by simp
      have "length (drop (nat i) args) + MAX_ARGS * d < fuel" using n Suc.prems(1) \<open>args \<noteq> []\<close> by (cases args) auto
      moreover have "list_all (config_ok d files) (includes_of (drop (nat i) args))"
        using Suc.prems(3) includes_of_drop [of "nat i" args] by (auto simp: list_all_iff)
      ultimately have "\<exists>t'. process_args fuel files (nat i) (drop (nat i) args) u = Some t'" using Suc.IH n by blast
      then show ?thesis using r \<open>args \<noteq> []\<close> False by simp
    qed (simp add: r \<open>args \<noteq> []\<close>)
  qed simp
qed simp

text \<open>
  C23. Reading a configuration file, with the files it includes, keeps the table within its mapping whenever it returns: at
  most 93 slots, distinct names, every name with room for its terminator. And it returns, within 256 turns for
  each level of inclusion, when each file that can be read has at most 255 words and starts with a known option or
  is blank. (A file that starts with another word is read for ever; one that includes itself is not read to the end; and a
  file of more words runs into an assertion.)
\<close>

theorem config_file_keeps_table:
  assumes "table_ok t"
  shows "(\<forall>r t'. process_config_file fuel files name t = Some (r, t') \<longrightarrow> table_ok t')
    \<and> (config_ok d files name \<longrightarrow> MAX_ARGS * d < fuel \<longrightarrow> (\<exists>r t'. process_config_file fuel files name t = Some (r, t')))"
proof (intro conjI allI impI)
  fix r t' assume "process_config_file fuel files name t = Some (r, t')"
  then show "table_ok t'"
    using assms run_config_file_ok [OF assms, where run = "process_args fuel files 0"] process_args_ok
    unfolding process_config_file_def by blast
next
  assume ok: "config_ok d files name" and fuel: "MAX_ARGS * d < fuel"
  show "\<exists>r t'. process_config_file fuel files name t = Some (r, t')"
  proof (cases "read_config_file files name")
    case (Some buf)
    then obtain d' where d: "d = Suc d'" using ok by (cases d) auto
    obtain as where as: "buf_to_args buf = Some as" "as = [] \<or> known_option (hd as)"
        "list_all (config_ok d' files) (includes_of as)"
      using ok Some by (auto simp: d split: option.splits)
    have "length as < MAX_ARGS" using split_args_few [of 0 buf None as] as(1) by (simp add: buf_to_args_def MAX_ARGS_def)
    then have "length as + MAX_ARGS * d' < fuel" using fuel by (simp add: d)
    then obtain t' where "process_args fuel files 0 as t = Some t'" using process_args_ends_nested as(2,3) by blast
    then show ?thesis using Some as(1) by (simp add: process_config_file_def run_config_file_def)
  qed (simp add: process_config_file_def run_config_file_def)
qed

theorem config_file_keeps_table_witness:
  "\<exists>r t'. process_config_file 257 (\<lambda>_. Some ''-b sh'') ''f'' \<lparr>tab_default = ([], zero_config), tab_entries = []\<rparr> = Some (r, t')
     \<and> table_ok t'"
proof -
  let ?t = "\<lparr>tab_default = ([], zero_config), tab_entries = []\<rparr>" and ?files = "\<lambda>_. Some ''-b sh''"
  have ok: "table_ok ?t" by (simp add: table_ok_def tab_count_def CONFIG_TABLE_SIZE_def)
  have "config_ok 1 ?files ''f''"
    by (simp add: read_config_file_def buf_to_args_def BUF_SIZE_def MAX_ARGS_def known_option_def is_sep_def NUL_def c_isspace_def)
  moreover have "MAX_ARGS * 1 < 257" by (simp add: MAX_ARGS_def)
  ultimately show ?thesis using config_file_keeps_table [OF ok, of 257 ?files "''f''" 1] by blast
qed

end
