(* ===== verification/WifiStats.thy ===== *)
theory WifiStats
  imports CLib
begin

text \<open>
  The station statistics of \<open>mediatek_driver_cmd_nl80211.c\<close>: the handler that reads the
  attributes of a driver's answer (\<open>testmode_sta_statistics_handler\<close>) and the text the
  statistics become (\<open>print_sta_statistics\<close>). libnl parses the message: the parsed
  attributes and the functions that read one are parameters.
\<close>

section \<open>The record\<close>

text \<open>\<open>enum nl80211_testmode_sta_link_statistics_attr\<close>, without the end markers.\<close>

datatype sta_attr =
  STA_VERSION | STA_MAC | STA_LINK_SCORE | STA_FLAG | STA_PER | STA_RSSI | STA_PHY_MODE | STA_TX_RATE
| STA_TOTAL_CNT | STA_THRESHOLD_CNT | STA_AVG_PROCESS_TIME | STA_MAX_PROCESS_TIME
| STA_AVG_HIF_PROCESS_TIME | STA_MAX_HIF_PROCESS_TIME | STA_FAIL_CNT | STA_TIMEOUT_CNT | STA_AVG_AIR_TIME
| STA_TC_EMPTY_CNT_ARRAY | STA_TC_QUE_LEN_ARRAY | STA_TC_AVG_QUE_LEN_ARRAY | STA_TC_CUR_QUE_LEN_ARRAY
| STA_ENQUEUE | STA_STA_ENQUEUE | STA_DEQUEUE | STA_STA_DEQUEUE
| STA_RB_ARRAY | STA_NO_TC_ARRAY | STA_TC_USED_ARRAY | STA_TC_WANTED_ARRAY
| STA_IRQ_ISR_CNT | STA_IRQ_ISR_PASS_CNT | STA_IRQ_TASK_CNT | STA_IRQ_AB_CNT | STA_IRQ_SW_CNT
| STA_IRQ_TX_CNT | STA_IRQ_RX_CNT | STA_RESERVED_ARRAY

definition sta_attrs :: "sta_attr list" where
  "sta_attrs =
    [STA_VERSION, STA_MAC, STA_LINK_SCORE, STA_FLAG, STA_PER, STA_RSSI, STA_PHY_MODE, STA_TX_RATE,
     STA_TOTAL_CNT, STA_THRESHOLD_CNT, STA_AVG_PROCESS_TIME, STA_MAX_PROCESS_TIME,
     STA_AVG_HIF_PROCESS_TIME, STA_MAX_HIF_PROCESS_TIME, STA_FAIL_CNT, STA_TIMEOUT_CNT, STA_AVG_AIR_TIME,
     STA_TC_EMPTY_CNT_ARRAY, STA_TC_QUE_LEN_ARRAY, STA_TC_AVG_QUE_LEN_ARRAY, STA_TC_CUR_QUE_LEN_ARRAY,
     STA_ENQUEUE, STA_STA_ENQUEUE, STA_DEQUEUE, STA_STA_DEQUEUE,
     STA_RB_ARRAY, STA_NO_TC_ARRAY, STA_TC_USED_ARRAY, STA_TC_WANTED_ARRAY,
     STA_IRQ_ISR_CNT, STA_IRQ_ISR_PASS_CNT, STA_IRQ_TASK_CNT, STA_IRQ_AB_CNT, STA_IRQ_SW_CNT,
     STA_IRQ_TX_CNT, STA_IRQ_RX_CNT, STA_RESERVED_ARRAY]"

text \<open>
  \<open>struct wpa_driver_sta_statistics_s\<close>. The arrays are kept as their bytes; the rate, a
  \<open>double\<close> that is always half an integer, is kept doubled.
\<close>

record sta_stats =
  ss_version :: u8
  ss_addr :: "u8 list"
  ss_flag :: u32
  link_score :: u32
  ss_per :: u8
  rssi :: int
  phy_mode :: u32
  tx_rate2 :: u16
  tx_total_cnt :: u32
  enqueue_total_cnt :: u32
  dequeue_total_cnt :: u32
  enqueue_sta_total_cnt :: u32
  dequeue_sta_total_cnt :: u32
  tx_exc_threshold_cnt :: u32
  tx_avg_process_time :: u32
  tx_max_process_time :: u32
  tx_avg_hif_process_time :: u32
  tx_max_hif_process_time :: u32
  tx_fail_cnt :: u32
  tx_timeout_cnt :: u32
  tx_avg_air_time :: u32
  tc_buf_full_cnt :: "u8 list"
  tc_que_len :: "u8 list"
  tc_back_count :: "u8 list"
  dequeue_no_tc_res :: "u8 list"
  tc_wanted_res :: "u8 list"
  tc_used_res :: "u8 list"
  isr_cnt :: u32
  isr_pass_cnt :: u32
  isr_task_cnt :: u32
  isr_ab_cnt :: u32
  isr_sw_cnt :: u32
  isr_tx_cnt :: u32
  isr_rx_cnt :: u32
  tc_avg_que_len :: "u8 list"
  tc_cur_que_len :: "u8 list"
  reserved :: "u8 list"

definition sta_stats_zero :: sta_stats where
  "sta_stats_zero =
    \<lparr>ss_version = 0, ss_addr = replicate 6 0, ss_flag = 0, link_score = 0, ss_per = 0, rssi = 0, phy_mode = 0,
     tx_rate2 = 0, tx_total_cnt = 0, enqueue_total_cnt = 0, dequeue_total_cnt = 0, enqueue_sta_total_cnt = 0,
     dequeue_sta_total_cnt = 0, tx_exc_threshold_cnt = 0, tx_avg_process_time = 0, tx_max_process_time = 0,
     tx_avg_hif_process_time = 0, tx_max_hif_process_time = 0, tx_fail_cnt = 0, tx_timeout_cnt = 0,
     tx_avg_air_time = 0, tc_buf_full_cnt = replicate 16 0, tc_que_len = replicate 16 0,
     tc_back_count = replicate 16 0, dequeue_no_tc_res = replicate 16 0, tc_wanted_res = replicate 16 0,
     tc_used_res = replicate 16 0, isr_cnt = 0, isr_pass_cnt = 0, isr_task_cnt = 0, isr_ab_cnt = 0,
     isr_sw_cnt = 0, isr_tx_cnt = 0, isr_rx_cnt = 0, tc_avg_que_len = replicate 16 0,
     tc_cur_que_len = replicate 16 0, reserved = replicate 32 0\<rparr>"

section \<open>Reading the answer\<close>

text \<open>libnl's readers of an attribute with the given payload; \<open>nla_memcpy\<close> gets the target's bytes and their number.\<close>

record nl_lib =
  nla_get_u8 :: "u8 list \<Rightarrow> u8"
  nla_get_u16 :: "u8 list \<Rightarrow> u16"
  nla_get_u32 :: "u8 list \<Rightarrow> u32"
  nla_memcpy :: "u8 list \<Rightarrow> u8 list \<Rightarrow> nat \<Rightarrow> u8 list"

text \<open>C's division truncates towards zero.\<close>

definition rssi_of :: "u8 \<Rightarrow> int" where
  "rssi_of b = (let d = int (unat b) - 220 in if d < 0 then - ((- d) div 2) else d div 2)"

fun set_attr :: "nl_lib \<Rightarrow> sta_attr \<Rightarrow> u8 list \<Rightarrow> sta_stats \<Rightarrow> sta_stats" where
  "set_attr nl STA_VERSION a s = s\<lparr>ss_version := nla_get_u8 nl a\<rparr>"
| "set_attr nl STA_MAC a s = s\<lparr>ss_addr := nla_memcpy nl (ss_addr s) a 6\<rparr>"
| "set_attr nl STA_LINK_SCORE a s = s\<lparr>link_score := nla_get_u32 nl a\<rparr>"
| "set_attr nl STA_FLAG a s = s\<lparr>ss_flag := nla_get_u32 nl a\<rparr>"
| "set_attr nl STA_PER a s = s\<lparr>ss_per := nla_get_u8 nl a\<rparr>"
| "set_attr nl STA_RSSI a s = s\<lparr>rssi := rssi_of (nla_get_u8 nl a)\<rparr>"
| "set_attr nl STA_PHY_MODE a s = s\<lparr>phy_mode := nla_get_u32 nl a\<rparr>"
| "set_attr nl STA_TX_RATE a s = s\<lparr>tx_rate2 := nla_get_u16 nl a\<rparr>"
| "set_attr nl STA_FAIL_CNT a s = s\<lparr>tx_fail_cnt := nla_get_u32 nl a\<rparr>"
| "set_attr nl STA_TIMEOUT_CNT a s = s\<lparr>tx_timeout_cnt := nla_get_u32 nl a\<rparr>"
| "set_attr nl STA_AVG_AIR_TIME a s = s\<lparr>tx_avg_air_time := nla_get_u32 nl a\<rparr>"
| "set_attr nl STA_TOTAL_CNT a s = s\<lparr>tx_total_cnt := nla_get_u32 nl a\<rparr>"
| "set_attr nl STA_THRESHOLD_CNT a s = s\<lparr>tx_exc_threshold_cnt := nla_get_u32 nl a\<rparr>"
| "set_attr nl STA_AVG_PROCESS_TIME a s = s\<lparr>tx_avg_process_time := nla_get_u32 nl a\<rparr>"
| "set_attr nl STA_MAX_PROCESS_TIME a s = s\<lparr>tx_max_process_time := nla_get_u32 nl a\<rparr>"
| "set_attr nl STA_AVG_HIF_PROCESS_TIME a s = s\<lparr>tx_avg_hif_process_time := nla_get_u32 nl a\<rparr>"
| "set_attr nl STA_MAX_HIF_PROCESS_TIME a s = s\<lparr>tx_max_hif_process_time := nla_get_u32 nl a\<rparr>"
| "set_attr nl STA_TC_EMPTY_CNT_ARRAY a s = s\<lparr>tc_buf_full_cnt := nla_memcpy nl (tc_buf_full_cnt s) a 16\<rparr>"
| "set_attr nl STA_TC_QUE_LEN_ARRAY a s = s\<lparr>tc_que_len := nla_memcpy nl (tc_que_len s) a 16\<rparr>"
| "set_attr nl STA_TC_AVG_QUE_LEN_ARRAY a s = s\<lparr>tc_avg_que_len := nla_memcpy nl (tc_avg_que_len s) a 16\<rparr>"
| "set_attr nl STA_TC_CUR_QUE_LEN_ARRAY a s = s\<lparr>tc_cur_que_len := nla_memcpy nl (tc_cur_que_len s) a 16\<rparr>"
| "set_attr nl STA_ENQUEUE a s = s\<lparr>enqueue_total_cnt := nla_get_u32 nl a\<rparr>"
| "set_attr nl STA_DEQUEUE a s = s\<lparr>dequeue_total_cnt := nla_get_u32 nl a\<rparr>"
| "set_attr nl STA_STA_ENQUEUE a s = s\<lparr>enqueue_sta_total_cnt := nla_get_u32 nl a\<rparr>"
| "set_attr nl STA_STA_DEQUEUE a s = s\<lparr>dequeue_sta_total_cnt := nla_get_u32 nl a\<rparr>"
| "set_attr nl STA_IRQ_ISR_CNT a s = s\<lparr>isr_cnt := nla_get_u32 nl a\<rparr>"
| "set_attr nl STA_IRQ_ISR_PASS_CNT a s = s\<lparr>isr_pass_cnt := nla_get_u32 nl a\<rparr>"
| "set_attr nl STA_IRQ_TASK_CNT a s = s\<lparr>isr_task_cnt := nla_get_u32 nl a\<rparr>"
| "set_attr nl STA_IRQ_AB_CNT a s = s\<lparr>isr_ab_cnt := nla_get_u32 nl a\<rparr>"
| "set_attr nl STA_IRQ_SW_CNT a s = s\<lparr>isr_sw_cnt := nla_get_u32 nl a\<rparr>"
| "set_attr nl STA_IRQ_TX_CNT a s = s\<lparr>isr_tx_cnt := nla_get_u32 nl a\<rparr>"
| "set_attr nl STA_IRQ_RX_CNT a s = s\<lparr>isr_rx_cnt := nla_get_u32 nl a\<rparr>"
| "set_attr nl STA_NO_TC_ARRAY a s = s\<lparr>dequeue_no_tc_res := nla_memcpy nl (dequeue_no_tc_res s) a 16\<rparr>"
| "set_attr nl STA_TC_USED_ARRAY a s = s\<lparr>tc_used_res := nla_memcpy nl (tc_used_res s) a 16\<rparr>"
| "set_attr nl STA_TC_WANTED_ARRAY a s = s\<lparr>tc_wanted_res := nla_memcpy nl (tc_wanted_res s) a 16\<rparr>"
| "set_attr nl STA_RB_ARRAY a s = s\<lparr>tc_back_count := nla_memcpy nl (tc_back_count s) a 16\<rparr>"
| "set_attr nl STA_RESERVED_ARRAY a s = s\<lparr>reserved := nla_memcpy nl (reserved s) a 32\<rparr>"

text \<open>\<open>None\<close>: the message has no test data, or it does not fit the policy.\<close>

definition testmode_sta_statistics_handler :: "nl_lib \<Rightarrow> (sta_attr \<Rightarrow> u8 list option) option \<Rightarrow> sta_stats \<Rightarrow> sta_stats" where
  "testmode_sta_statistics_handler nl sinfo s =
     (case sinfo of None \<Rightarrow> s
      | Some tb \<Rightarrow> fold (\<lambda>i s. case tb i of None \<Rightarrow> s | Some a \<Rightarrow> set_attr nl i a s) sta_attrs s)"

section \<open>Printing\<close>

definition print_08X :: "u32 \<Rightarrow> string" where
  "print_08X x = map upper_digit (hex_digits 8 (unat x))"

definition print_02X :: "u8 \<Rightarrow> string" where
  "print_02X x = map upper_digit (hex_digits 2 (unat x))"

definition print_d :: "u32 \<Rightarrow> string" where
  "print_d x = sprintf_d (sint x)"

text \<open>\<open>MACSTR\<close> with \<open>MAC2STR\<close>: six bytes as \<open>%02x\<close>, separated by colons.\<close>

fun mac_str :: "u8 list \<Rightarrow> string" where
  "mac_str [] = []"
| "mac_str [b] = print_02x b"
| "mac_str (b # bs) = print_02x b @ '':'' @ mac_str bs"

text \<open>Element \<open>i\<close> of an array of little-endian 32-bit words kept as bytes.\<close>

definition tc_word :: "u8 list \<Rightarrow> nat \<Rightarrow> u32" where
  "tc_word bs i = word_rcat [bs ! (4 * i + 3), bs ! (4 * i + 2), bs ! (4 * i + 1), bs ! (4 * i)]"

definition tc_line :: "string \<Rightarrow> u8 list \<Rightarrow> string" where
  "tc_line label bs =
     label @ ''='' @ print_d (tc_word bs 0) @ '':'' @ print_d (tc_word bs 1) @ '':'' @ print_d (tc_word bs 2)
       @ '':'' @ print_d (tc_word bs 3) @ [CHR 0x0A]"

definition d_line :: "string \<Rightarrow> u32 \<Rightarrow> string" where
  "d_line label v = label @ ''='' @ print_d v @ [CHR 0x0A]"

text \<open>\<open>%.1f\<close> of the rate.\<close>

definition rate_str :: "u16 \<Rightarrow> string" where
  "rate_str r2 = dec_nat (unat r2 div 2) @ (if odd (unat r2) then ''.5'' else ''.0'')"

fun reserved_chunks :: "nat \<Rightarrow> u8 list \<Rightarrow> string list" where
  "reserved_chunks i [] = []"
| "reserved_chunks i (b # bs) =
     print_02X b # (if (i + 1) mod 4 = 0 then ['' ''] else []) @ reserved_chunks (i + 1) bs"

text \<open>The texts handed to \<open>os_snprintf\<close>, in their order.\<close>

definition stat_lines :: "sta_stats \<Rightarrow> string list" where
  "stat_lines s =
    [''sta_addr='' @ mac_str (ss_addr s) @ [CHR 0x0A],
     d_line ''link_score'' (link_score s),
     d_line ''per'' (ucast (ss_per s)),
     ''rssi='' @ sprintf_d (rssi s) @ [CHR 0x0A],
     ''phy=0x'' @ print_08X (phy_mode s) @ [CHR 0x0A],
     ''rate='' @ rate_str (tx_rate2 s) @ [CHR 0x0A],
     d_line ''total_cnt'' (tx_total_cnt s),
     d_line ''threshold_cnt'' (tx_exc_threshold_cnt s),
     d_line ''fail_cnt'' (tx_fail_cnt s),
     d_line ''timeout_cnt'' (tx_timeout_cnt s),
     d_line ''apt'' (tx_avg_process_time s),
     d_line ''aat'' (tx_avg_air_time s),
     tc_line ''TC_buf_full_cnt'' (tc_buf_full_cnt s),
     tc_line ''TC_sta_que_len'' (tc_que_len s),
     tc_line ''TC_avg_que_len'' (tc_avg_que_len s),
     tc_line ''TC_cur_que_len'' (tc_cur_que_len s)]"

definition stat_reserved :: "sta_stats \<Rightarrow> string list" where
  "stat_reserved s =
     [''flag=0x'' @ print_08X (ss_flag s) @ [CHR 0x0A], ''reserved0='']
       @ reserved_chunks 0 (take 16 (reserved s)) @ [[CHR 0x0A], ''reserved1='']
       @ reserved_chunks 16 (drop 16 (reserved s)) @ [[CHR 0x0A], ''===='' @ [CHR 0x0A]]"

text \<open>
  One \<open>os_snprintf(pos, end - pos, ...)\<close> after the other: the first that does not fit ends
  the printing with 0, its text cut off.
\<close>

fun print_chunks :: "string list \<Rightarrow> nat \<Rightarrow> string \<Rightarrow> nat \<times> string" where
  "print_chunks [] room buf = (length buf, buf)"
| "print_chunks (c # cs) room buf =
     (if length c \<ge> room then (0, buf @ take (room - 1) c)
      else print_chunks cs (room - length c) (buf @ c))"

definition print_sta_statistics :: "sta_stats \<Rightarrow> nat \<Rightarrow> nat \<times> string" where
  "print_sta_statistics s buflen = print_chunks (stat_lines s @ stat_reserved s) buflen []"

section \<open>Properties\<close>

lemma print_chunks_fits:
  "length (concat cs) < room \<Longrightarrow> print_chunks cs room buf = (length (buf @ concat cs), buf @ concat cs)"
  by (induction cs arbitrary: room buf) auto

lemma print_chunks_cut:
  "room \<le> length (concat cs) \<Longrightarrow> cs \<noteq> [] \<Longrightarrow> print_chunks cs room buf = (0, buf @ take (room - 1) (concat cs))"
proof (induction cs arbitrary: room buf)
  case Nil
  then show ?case by simp
next
  case (Cons c cs)
  show ?case
  proof (cases "length c \<ge> room")
    case True
    then show ?thesis by simp
  next
    case False
    then have "room - length c \<le> length (concat cs)" and "cs \<noteq> []" using Cons.prems by auto
    then have "print_chunks cs (room - length c) (buf @ c) = (0, (buf @ c) @ take (room - length c - 1) (concat cs))"
      by (rule Cons.IH)
    then show ?thesis using False by simp
  qed
qed

lemma print_chunks_eq:
  "cs \<noteq> [] \<Longrightarrow> print_chunks cs room [] =
     (if length (concat cs) < room then (length (concat cs), concat cs) else (0, take (room - 1) (concat cs)))"
  by (simp add: print_chunks_fits print_chunks_cut)

text \<open>
  Printing statistics in pieces is printing the whole text at once: when the text and its
  terminator fit the buffer, the buffer holds exactly the text and its length is returned; otherwise 0
  is returned and the buffer holds the text cut to the buffer's size less the terminator. So nothing
  is ever written outside the buffer, and a non-zero result means nothing is missing.
\<close>

theorem print_statistics_all_or_cut:
  "print_sta_statistics s buflen =
     (let t = concat (stat_lines s @ stat_reserved s)
      in if length t < buflen then (length t, t) else (0, take (buflen - 1) t))"
  unfolding print_sta_statistics_def Let_def
  by (rule print_chunks_eq) (simp add: stat_lines_def)

end
