(* ===== verification/WifiCmd.thy ===== *)
theory WifiCmd
  imports WifiStats
begin

text \<open>
  \<open>src/proprietary/hardware/connectivity/wlan/wpa_supplicant_8_lib/mediatek_driver_cmd_nl80211.c\<close>:
  the text commands of wpa_supplicant's DRIVER interface and the messages they become. The
  netlink and ioctl calls, the supplicant's structures as far as they are read, and the
  build options are parameters. The build is the 32-bit one: \<open>long\<close> has 32 bits.
\<close>

section \<open>Strings\<close>

definition to_lower :: "char \<Rightarrow> char" where
  "to_lower c = (let n = of_char c :: nat in if 65 \<le> n \<and> n \<le> 90 then char_of (n + 32) else c)"

text \<open>\<open>os_strncasecmp(s, t, strlen(t)) == 0\<close>, \<open>os_strcasecmp(s, t) == 0\<close> and \<open>os_strncmp(s, t, strlen(t)) == 0\<close>.\<close>

definition case_prefix :: "string \<Rightarrow> string \<Rightarrow> bool" where
  "case_prefix t s \<longleftrightarrow> map to_lower (take (length t) s) = map to_lower t"

definition case_equal :: "string \<Rightarrow> string \<Rightarrow> bool" where
  "case_equal t s \<longleftrightarrow> map to_lower s = map to_lower t"

definition has_prefix :: "string \<Rightarrow> string \<Rightarrow> bool" where
  "has_prefix t s \<longleftrightarrow> take (length t) s = t"

section \<open>Messages to the driver\<close>

text \<open>The fields of \<open>struct wpa_driver_wfd_data_s\<close> that are filled in.\<close>

record wfd_data =
  WfdCmdType :: u32
  WfdEnable :: u8
  WfdCoupleSinkStatus :: u8
  WfdSessionAvailable :: u8
  WfdSigmaMode :: u8
  WfdDevInfo :: u16
  WfdControlPort :: u16
  WfdMaximumTp :: u16
  WfdExtendCap :: u16
  WfdCoupleSinkAddress :: "u8 list"
  WfdAssociatedBssid :: "u8 list"
  WfdVideoIp :: "u8 list"
  WfdAudioIp :: "u8 list"
  WfdVideoPort :: u16
  WfdAudioPort :: u16
  WfdFlag :: u32
  WfdPolicy :: u32
  WfdState :: u32
  WfdSessionInformationIE :: "u8 list"
  WfdSessionInformationIELen :: u16
  WfdPrimarySinkMac :: "u8 list"
  WfdSecondarySinkMac :: "u8 list"
  WfdAdvancedFlag :: u32
  WfdLocalIp :: "u8 list"

text \<open>
  The data of a \<open>NL80211_CMD_TESTMODE\<close> message behind its header, one constructor for each
  parameter structure; the header's index has the version 1 in its top byte.
\<close>

datatype testmode_msg =
  SwCmd u8 u32 u32 \<comment> \<open>\<open>set\<close>, \<open>adr\<close>, \<open>data\<close>\<close>
| Noa u32 u32 u32 \<comment> \<open>\<open>count\<close>, \<open>interval\<close>, \<open>duration\<close>\<close>
| Sigma u32 u32 \<comment> \<open>\<open>idx\<close>, \<open>value\<close>\<close>
| Suspend u8
| RxFilter u32 u32 u32 u32 u32 u32
| WapiKey u8 u8 u32 "u8 list" "u8 list" "u8 list" \<comment> \<open>\<open>key_index\<close>, \<open>key_len\<close>, \<open>ext_flags\<close>, \<open>addr\<close>, \<open>key\<close>, \<open>tx_seq\<close>\<close>
| StrCmd "u8 list" \<comment> \<open>the bytes behind the header\<close>
| StaStatistics "u8 list" \<comment> \<open>\<open>addr\<close>\<close>
| WfdUpdate wfd_data

fun testmode_index :: "testmode_msg \<Rightarrow> u32" where
  "testmode_index (SwCmd s a d) = 1 OR push_bit 24 1"
| "testmode_index (Noa c i d) = 1 OR push_bit 24 1"
| "testmode_index (Sigma i v) = 1 OR push_bit 24 1"
| "testmode_index (Suspend s) = 101 OR push_bit 24 1"
| "testmode_index (RxFilter a b c d e f) = 103 OR push_bit 24 1"
| "testmode_index (WapiKey i l f a k s) = 2 OR push_bit 24 1"
| "testmode_index (StrCmd bs) = 102 OR push_bit 24 1"
| "testmode_index (StaStatistics a) = 0x10 OR push_bit 24 1"
| "testmode_index (WfdUpdate w) = 2 OR push_bit 24 1"

section \<open>State and surroundings\<close>

text \<open>The part of \<open>struct p2p_data\<close> (and its configuration) that the commands touch.\<close>

record p2p_data =
  dev_capab :: u8
  op_channel :: u8
  op_reg_class :: u8
  p2p_channels :: "(u8 \<times> u8 list) list"
  cfg_channels :: "(u8 \<times> u8 list) list"
  cfg_op_channel :: int
  concurrent_operations :: int
  p2p_devices :: "(u8 list \<times> u8 list) list" \<comment> \<open>device address, interface address\<close>

text \<open>An interface of the supplicant, for the option \<open>mcc\<close>.\<close>

record iface =
  num_multichan_concurrent :: int
  p2p_concurrent_flag :: bool

record wifi =
  drv_errors :: int
  sent :: "testmode_msg list"
  priv_cmds :: "string list" \<comment> \<open>the private ioctl commands\<close>
  country_ioctls :: "string list"
  country_events :: "string list" \<comment> \<open>the country of each event, one per interface\<close>
  p2p :: "p2p_data option"
  ifaces :: "iface list"

datatype ssid_mode = MODE_INFRA | MODE_IBSS | MODE_AP | MODE_P2P_GO | MODE_P2P_GROUP_FORMATION

text \<open>An interface on the same radio: its network, its frequencies and whether its BSSID can be read.\<close>

record radio_iface =
  current_ssid :: "(ssid_mode \<times> int \<times> bool) option" \<comment> \<open>mode, frequency, \<open>p2p_group\<close>\<close>
  assoc_freq :: int
  bssid_ok :: bool

record wapi_key_param =
  wapi_addr :: "u8 list option"
  wapi_key_idx :: int
  wapi_set_tx :: bool
  wapi_seq :: "u8 list"
  wapi_key :: "u8 list"

record wifi_env =
  cfg_wapi :: bool
  cfg_wfd_sink :: bool
  cfg_sigma :: bool
  we_ap :: bool \<comment> \<open>\<open>nlmode == NL80211_IFTYPE_AP\<close>\<close>
  we_testmode :: "testmode_msg \<Rightarrow> int" \<comment> \<open>the result of \<open>send_and_recv_msgs\<close>\<close>
  we_priv_ioctl :: "string \<Rightarrow> int"
  we_country_socket :: bool
  we_country_ioctl :: "string \<Rightarrow> int"
  we_iface_flags :: "bool \<Rightarrow> int"
  we_associated :: bool
  we_deauth :: int
  we_own_addr :: "u8 list"
  we_aton :: "string \<Rightarrow> u8 list option" \<comment> \<open>\<open>hwaddr_aton\<close>: the address the text starts with\<close>
  we_ssid :: "ssid_mode option" \<comment> \<open>the mode of \<open>current_ssid\<close>\<close>
  we_bssid :: "u8 list"
  we_nl :: nl_lib
  we_answers :: "u8 list \<Rightarrow> (sta_attr \<Rightarrow> u8 list option) option list" \<comment> \<open>the messages that answer a request for statistics\<close>
  we_wfd :: wfd_data
  we_wapi :: wapi_key_param
  we_wapi_msg_len :: int
  we_radio :: "radio_iface list"
  we_conf :: "u8 \<times> u8" \<comment> \<open>\<open>p2p_oper_reg_class\<close>, \<open>p2p_oper_channel\<close>\<close>
  we_random :: u32
  we_drv_priv :: bool
  we_drv :: bool \<comment> \<open>\<open>drv\<close> and \<open>drv->ctx\<close> are there\<close>
  we_conf_set :: bool
  we_calloc :: bool
  we_nlmsg :: bool \<comment> \<open>\<open>nlmsg_alloc\<close>\<close>
  we_put :: bool \<comment> \<open>the attributes fit the message\<close>
  we_max_errors :: int \<comment> \<open>\<open>DRV_NUMBER_SEQUENTIAL_ERRORS\<close>\<close>

definition wpa_driver_nl80211_testmode :: "wifi_env \<Rightarrow> testmode_msg \<Rightarrow> wifi \<Rightarrow> int \<times> wifi" where
  "wpa_driver_nl80211_testmode e m st =
     (if \<not> we_nlmsg e then (-1, st)
      else if \<not> we_put e then (-105, st)
      else (we_testmode e m, st\<lparr>sent := sent st @ [m]\<rparr>))"

definition wpa_driver_send_hang_msg :: "wifi_env \<Rightarrow> wifi \<Rightarrow> wifi" where
  "wpa_driver_send_hang_msg e st =
     (let st1 = st\<lparr>drv_errors := drv_errors st + 1\<rparr>
      in if drv_errors st1 > we_max_errors e then st1\<lparr>drv_errors := 0\<rparr> else st1)"

section \<open>Single commands\<close>

definition wpa_driver_nl80211_driver_sw_cmd :: "wifi_env \<Rightarrow> bool \<Rightarrow> u32 \<Rightarrow> u32 \<Rightarrow> wifi \<Rightarrow> int \<times> wifi" where
  "wpa_driver_nl80211_driver_sw_cmd e set_it adr dat st =
     (0, snd (wpa_driver_nl80211_testmode e (SwCmd (if set_it then 1 else 0) adr dat) st))"

text \<open>
  \<open>wpa_driver_nl80211_set_wapi_key\<close>: \<open>Fault\<close> when a copy runs past the end of the parameter
  structure. \<open>tx_seq\<close> is followed by \<open>rx_seq\<close> of the same size, so 16 bytes of sequence stay inside.
\<close>

definition wpa_driver_nl80211_set_wapi_key :: "wifi_env \<Rightarrow> wapi_key_param \<Rightarrow> wifi \<Rightarrow> (int \<times> wifi) outcome" where
  "wpa_driver_nl80211_set_wapi_key e p st =
     (if length (wapi_seq p) > 8 * 2 then Ok (-1, st)
      else if length (wapi_key p) > 32 then Fault
      else
        let group = (wapi_addr p = None \<or> wapi_addr p = Some (replicate 6 0xff));
            flags = (if group then 4 else 0) OR (if wapi_set_tx p then 8 else 0);
            addr = (case wapi_addr p of Some a \<Rightarrow> take 6 a | None \<Rightarrow> replicate 6 0xff)
        in Ok (0, snd (wpa_driver_nl80211_testmode e
             (WapiKey (of_int (wapi_key_idx p + 1)) (of_nat (length (wapi_key p))) flags addr (wapi_key p) (wapi_seq p)) st)))"

text \<open>\<open>wpa_driver_nl80211_send_msg\<close> checks the length and does nothing.\<close>

definition wpa_driver_nl80211_send_msg :: "int \<Rightarrow> int" where
  "wpa_driver_nl80211_send_msg msg_in_len = (if msg_in_len > 1024 then -1 else 0)"

definition wpa_driver_mediatek_set_country :: "wifi_env \<Rightarrow> string \<Rightarrow> wifi \<Rightarrow> int \<times> wifi" where
  "wpa_driver_mediatek_set_country e alpha2 st =
     (if \<not> we_country_socket e then (-1, st)
      else
        let buf = take (11 - 1) (''COUNTRY '' @ alpha2); ret = we_country_ioctl e buf;
            st1 = st\<lparr>country_ioctls := country_ioctls st @ [buf]\<rparr>
        in if ret < 0 then (ret, st1) else (0, st1))"

definition wpa_driver_notify_country_change :: "string \<Rightarrow> wifi \<Rightarrow> wifi" where
  "wpa_driver_notify_country_change cmd st =
     (if case_prefix ''COUNTRY'' cmd
      then
        let alpha2 = (if length cmd > 9 then [cmd ! 8, cmd ! 9] else [NUL, NUL])
        in st\<lparr>country_events := country_events st @ map (\<lambda>i. alpha2) (ifaces st)\<rparr>
      else st)"

section \<open>Station statistics\<close>

definition mtk_p2p_get_device :: "p2p_data \<Rightarrow> u8 list \<Rightarrow> (u8 list \<times> u8 list) option" where
  "mtk_p2p_get_device p a = find (\<lambda>d. fst d = a) (p2p_devices p)"

definition is_zero_ether_addr :: "u8 list \<Rightarrow> bool" where
  "is_zero_ether_addr a \<longleftrightarrow> (\<forall>b \<in> set a. b = 0)"

definition wpas_p2p_get_sta_mac :: "wifi_env \<Rightarrow> wifi \<Rightarrow> u8 list \<Rightarrow> u8 list option" where
  "wpas_p2p_get_sta_mac e st org_addr =
     (case p2p st of None \<Rightarrow> None
      | Some p \<Rightarrow>
        (case we_ssid e of None \<Rightarrow> None
         | Some mode \<Rightarrow>
           (case mtk_p2p_get_device p org_addr of None \<Rightarrow> None
            | Some (dev, intf) \<Rightarrow>
                if mode = MODE_INFRA \<and> dev \<noteq> we_bssid e \<and> \<not> is_zero_ether_addr (we_bssid e)
                then Some (we_bssid e)
                else if dev \<noteq> intf \<and> \<not> is_zero_ether_addr intf then Some intf
                else None)))"

text \<open>The statistics structure \<open>buf\<close> points to is returned; every answer runs the handler on it.\<close>

definition wpas_get_sta_statistics :: "wifi_env \<Rightarrow> u8 list \<Rightarrow> sta_stats \<Rightarrow> wifi \<Rightarrow> int \<times> sta_stats \<times> wifi" where
  "wpas_get_sta_statistics e a buf st =
     (let m = StaStatistics a; (ret, st1) = wpa_driver_nl80211_testmode e m st
      in if \<not> we_nlmsg e \<or> \<not> we_put e then (ret, buf, st1)
         else if testmode_index m AND 0xFFFFFF = 0x10
         then (ret, fold (testmode_sta_statistics_handler (we_nl e)) (we_answers e a) buf, st1)
         else (ret, buf, st1))"

text \<open>The second component is the text left in the caller's buffer, when it was written.\<close>

definition wpa_driver_get_sta_statistics :: "wifi_env \<Rightarrow> string \<Rightarrow> nat \<Rightarrow> wifi \<Rightarrow> int \<times> string option \<times> wifi" where
  "wpa_driver_get_sta_statistics e addr buflen st =
     (case we_aton e addr of None \<Rightarrow> (-1, None, st)
      | Some sta_addr \<Rightarrow>
          let target = (case wpas_p2p_get_sta_mac e st sta_addr of Some mac \<Rightarrow> mac | None \<Rightarrow> sta_addr);
              (ret, stats, st1) = wpas_get_sta_statistics e target sta_stats_zero st
          in if ret < 0 then (-1, None, st1)
             else let (len, text) = print_sta_statistics stats buflen in (int len, Some text, st1))"

section \<open>P2P commands\<close>

text \<open>
  \<open>tokenize_space\<close> cuts at every blank and newline; a separator at the very end starts no word.
  The vector has 64 places and nothing bounds \<open>argc\<close>: more words are a write past its end.
\<close>

definition is_blank :: "char \<Rightarrow> bool" where
  "is_blank c \<longleftrightarrow> c = CHR 0x0A \<or> c = CHR '' ''"

fun cut_words :: "string \<Rightarrow> string \<Rightarrow> string list" where
  "cut_words w [] = [w]"
| "cut_words w (c # cs) =
     (if is_blank c then (if cs = [] then [w] else w # cut_words [] cs) else cut_words (w @ [c]) cs)"

definition tokenize_space :: "string \<Rightarrow> string list outcome" where
  "tokenize_space cmd = (let argv = cut_words [] cmd in if length argv > 64 then Fault else Ok argv)"

definition p2p_ctrl_iface_set_noa :: "wifi_env \<Rightarrow> string \<Rightarrow> wifi \<Rightarrow> (int \<times> wifi) outcome" where
  "p2p_ctrl_iface_set_noa e cmd st =
     bindo (tokenize_space cmd) (\<lambda>argv.
       if length argv \<noteq> 4 then Ok (-1, st)
       else Ok (wpa_driver_nl80211_testmode e (Noa (of_int (atoi (argv ! 1))) (of_int (atoi (argv ! 2))) (of_int (atoi (argv ! 3)))) st))"

definition p2p_ctrl_iface_set_ps :: "wifi_env \<Rightarrow> string \<Rightarrow> wifi \<Rightarrow> (int \<times> wifi) outcome" where
  "p2p_ctrl_iface_set_ps e cmd st =
     bindo (tokenize_space cmd) (\<lambda>argv.
       if length argv \<noteq> 4 then Ok (-1, st)
       else
         let enable = atoi (argv ! 2);
             ctw0 = of_int (atoi (argv ! 3)) :: u32;
             ctw = (if enable \<noteq> 0 then ctw0 OR 0x80 else ctw0)
         in Ok (wpa_driver_nl80211_testmode e (Sigma 107 ctw) st))"

definition wpas_p2p_sigma_test_mode :: "wifi_env \<Rightarrow> int \<Rightarrow> int \<Rightarrow> wifi \<Rightarrow> wifi" where
  "wpas_p2p_sigma_test_mode e index val st = snd (wpa_driver_nl80211_testmode e (Sigma (of_int index) (of_int val)) st)"

definition p2p_ctrl_iface_set_opps :: "wifi_env \<Rightarrow> string \<Rightarrow> wifi \<Rightarrow> int \<times> wifi" where
  "p2p_ctrl_iface_set_opps e cmd st =
     (let CTWin = atoi cmd; str = dropWhile (\<lambda>c. c \<noteq> CHR '' '') cmd
      in if str \<noteq> [] \<and> we_aton e (tl str) = None then (-1, st)
         else (0, wpas_p2p_sigma_test_mode e 107 CTWin st))"

definition p2p_ctrl_iface_set_power_save :: "wifi_env \<Rightarrow> string \<Rightarrow> wifi \<Rightarrow> int \<times> wifi" where
  "p2p_ctrl_iface_set_power_save e cmd st = (0, wpas_p2p_sigma_test_mode e 108 (atoi cmd) st)"

definition p2p_ctrl_iface_set_sleep :: "wifi_env \<Rightarrow> string \<Rightarrow> wifi \<Rightarrow> int \<times> wifi" where
  "p2p_ctrl_iface_set_sleep e cmd st =
     (if we_aton e cmd = None then (-1, st) else (0, wpas_p2p_sigma_test_mode e 106 0 st))"

definition set_suspend_mode :: "wifi_env \<Rightarrow> string \<Rightarrow> wifi \<Rightarrow> wifi" where
  "set_suspend_mode e cmd st =
     (let c = (if length cmd > 15 then cmd ! 15 else NUL)
      in snd (wpa_driver_nl80211_testmode e (Suspend (of_nat (of_char c) - 48)) st))"

definition hex8 :: "string \<Rightarrow> nat \<Rightarrow> u32" where
  "hex8 cmd pos = of_int (fst (strtol (take 8 (drop pos cmd)) 16))"

definition rx_packet_filter :: "wifi_env \<Rightarrow> string \<Rightarrow> wifi \<Rightarrow> int \<times> wifi" where
  "rx_packet_filter e cmd st =
     (if length cmd \<noteq> 71 then (-1, st)
      else
        let p1 = 21; p2 = p1 + 8; p3 = p2 + 9; p4 = p3 + 8; p5 = p4 + 9; p6 = p5 + 8
        in wpa_driver_nl80211_testmode e (RxFilter (hex8 cmd p1) (hex8 cmd p2) (hex8 cmd p3) (hex8 cmd p4) (hex8 cmd p5) (hex8 cmd p6)) st)"

text \<open>
  The transparent command: a buffer of 100 bytes with a header of 8, the text copied with
  \<open>strncpy\<close>, and a length field that counts the whole text. Sending more than the buffer
  holds reads past its end: \<open>Fault\<close>.
\<close>

definition char_byte :: "char \<Rightarrow> u8" where
  "char_byte c = of_nat (of_char c)"

definition transparent_cmd :: "wifi_env \<Rightarrow> string \<Rightarrow> wifi \<Rightarrow> (int \<times> wifi) outcome" where
  "transparent_cmd e cmd st =
     (let buflen = 8 + length cmd
      in if buflen > 100 then Fault
         else Ok (wpa_driver_nl80211_testmode e (StrCmd (take (buflen - 8) (map char_byte (take 92 cmd) @ replicate (92 - length cmd) 0))) st))"

definition rxfilter_cmd :: "wifi_env \<Rightarrow> u32 \<Rightarrow> string \<Rightarrow> wifi \<Rightarrow> int \<times> wifi" where
  "rxfilter_cmd e base cp st =
     (if cp = [] then (-1, st)
      else
        let (v, endp) = strtol cp 0
        in if endp \<noteq> cp then (0, snd (wpa_driver_nl80211_driver_sw_cmd e True 0x9F000000 (of_int v + base) st))
           else (-1, st))"

section \<open>P2P channels\<close>

definition priv_p2p_freq_to_channel :: "u32 \<Rightarrow> (u8 \<times> u8) option" where
  "priv_p2p_freq_to_channel freq =
     (if freq \<ge> 2412 \<and> freq \<le> 2472 then
        (if (freq - 2407) mod 5 \<noteq> 0 then None else Some (81, ucast ((freq - 2407) div 5)))
      else if freq = 2484 then Some (82, 14)
      else if freq \<ge> 5180 \<and> freq \<le> 5240 then
        (if (freq - 5000) mod 5 \<noteq> 0 then None else Some (115, ucast ((freq - 5000) div 5)))
      else if freq \<ge> 5260 \<and> freq \<le> 5320 then Some (118, ucast ((freq - 5000) div 5))
      else if freq \<ge> 5500 \<and> freq \<le> 5700 then Some (121, ucast ((freq - 5000) div 5))
      else if freq \<ge> 5745 \<and> freq \<le> 5805 then
        (if (freq - 5000) mod 5 \<noteq> 0 then None else Some (124, ucast ((freq - 5000) div 5)))
      else if freq \<ge> 5825 \<and> freq \<le> 5845 then Some (125, ucast ((freq - 5000) div 5))
      else None)"

definition config_scc :: "u32 \<Rightarrow> p2p_data \<Rightarrow> p2p_data" where
  "config_scc oper_freq p =
     (let (cls, ch) = (case priv_p2p_freq_to_channel oper_freq of None \<Rightarrow> (0, 0) | Some r \<Rightarrow> r)
      in p\<lparr>op_channel := ch, op_reg_class := cls, p2p_channels := [(cls, [ch])]\<rparr>)"

definition config_mcc :: "wifi_env \<Rightarrow> p2p_data \<Rightarrow> p2p_data" where
  "config_mcc e p =
     (let p1 = (if fst (we_conf e) \<noteq> 0 \<and> snd (we_conf e) \<noteq> 0 then
                  p\<lparr>op_reg_class := fst (we_conf e), op_channel := snd (we_conf e), cfg_op_channel := 1\<rparr>
                else p\<lparr>op_reg_class := 81, op_channel := ucast (1 + (we_random e mod 3) * 5), cfg_op_channel := 0\<rparr>)
      in p1\<lparr>p2p_channels := cfg_channels p1\<rparr>)"

definition p2p_wfd_sink_config_scc :: "wifi_env \<Rightarrow> bool \<Rightarrow> u32 \<Rightarrow> wifi \<Rightarrow> wifi" where
  "p2p_wfd_sink_config_scc e scc oper_freq st =
     (case p2p st of None \<Rightarrow> st
      | Some p \<Rightarrow> st\<lparr>p2p := Some (if scc \<and> oper_freq \<noteq> 0 then config_scc oper_freq p else config_mcc e p)\<rparr>)"

text \<open>The frequencies in use on the radio; the second component of an entry is its flags (client or station).\<close>

datatype freq_flag = NoFlag | USED_BY_P2P_CLIENT | USED_BY_INFRA_STATION

definition iface_freq :: "radio_iface \<Rightarrow> int option" where
  "iface_freq i =
     (case current_ssid i of None \<Rightarrow> None
      | Some (mode, freq, grp) \<Rightarrow>
         if assoc_freq i = 0 then None
         else if mode = MODE_AP \<or> mode = MODE_P2P_GO then Some freq
         else if bssid_ok i then Some (assoc_freq i)
         else None)"

definition iface_flag :: "radio_iface \<Rightarrow> freq_flag option" where
  "iface_flag i =
     (case current_ssid i of
        Some (MODE_INFRA, freq, grp) \<Rightarrow> Some (if grp then USED_BY_P2P_CLIENT else USED_BY_INFRA_STATION)
      | _ \<Rightarrow> None)"

fun put_freq :: "int \<Rightarrow> freq_flag option \<Rightarrow> (int \<times> freq_flag) list \<Rightarrow> (int \<times> freq_flag) list" where
  "put_freq freq fl [] = [(freq, case fl of None \<Rightarrow> NoFlag | Some f \<Rightarrow> f)]"
| "put_freq freq fl ((g, f) # fs) =
     (if g = freq then (g, case fl of None \<Rightarrow> f | Some f' \<Rightarrow> f') # fs else (g, f) # put_freq freq fl fs)"

fun mtk_get_shared_radio_freqs_data :: "radio_iface list \<Rightarrow> nat \<Rightarrow> (int \<times> freq_flag) list \<Rightarrow> (int \<times> freq_flag) list" where
  "mtk_get_shared_radio_freqs_data [] len acc = acc"
| "mtk_get_shared_radio_freqs_data (i # is) len acc =
     (if length acc = len then acc
      else case iface_freq i of None \<Rightarrow> mtk_get_shared_radio_freqs_data is len acc
        | Some freq \<Rightarrow> mtk_get_shared_radio_freqs_data is len (put_freq freq (iface_flag i) acc))"

definition mtk_get_shared_radio_freqs :: "wifi_env \<Rightarrow> nat \<Rightarrow> int list" where
  "mtk_get_shared_radio_freqs e len =
     (if \<not> we_calloc e then [] else map fst (mtk_get_shared_radio_freqs_data (we_radio e) len []))"

text \<open>
  Follow the frequency in use, if there is one: MIRACAST keeps it in an \<open>unsigned int\<close>, the option
  \<open>p2p_use_mcc\<close> in an \<open>int\<close>, so the test for \<open>> 0\<close> is a parameter.
\<close>

definition config_from_radio :: "(u32 \<Rightarrow> bool) \<Rightarrow> wifi_env \<Rightarrow> wifi \<Rightarrow> wifi" where
  "config_from_radio positive e st =
     (let fs = mtk_get_shared_radio_freqs e 1
      in if fs \<noteq> [] \<and> positive (of_int (hd fs)) then p2p_wfd_sink_config_scc e True (of_int (hd fs)) st
         else p2p_wfd_sink_config_scc e False 0 st)"

end
