(* ===== verification/WifiDriver.thy ===== *)
theory WifiDriver
  imports WifiCmd
begin

text \<open>
  \<open>wpa_driver_nl80211_driver_cmd\<close> of \<open>mediatek_driver_cmd_nl80211.c\<close>: which command a text is, what
  it does, and the private ioctl for the commands that are passed on. For an access point the
  supplicant pointer is uninitialised: a command that follows it is a \<open>Fault\<close>.
\<close>

section \<open>Results\<close>

record cmd_result =
  cr_ret :: int
  cr_reply :: "string option" \<comment> \<open>the text in \<open>buf\<close>, when it was written\<close>
  cr_private :: "string option" \<comment> \<open>the command to pass on (\<open>handled = 0\<close>)\<close>
  cr_state :: wifi

definition answer :: "int \<Rightarrow> wifi \<Rightarrow> cmd_result" where
  "answer ret st = \<lparr>cr_ret = ret, cr_reply = None, cr_private = None, cr_state = st\<rparr>"

definition pass_on :: "int \<Rightarrow> string \<Rightarrow> wifi \<Rightarrow> cmd_result" where
  "pass_on ret cmd st = \<lparr>cr_ret = ret, cr_reply = None, cr_private = Some cmd, cr_state = st\<rparr>"

text \<open>\<open>snprintf(buf, buf_len, ...)\<close> as the command's result.\<close>

definition reply :: "nat \<Rightarrow> string \<Rightarrow> wifi \<Rightarrow> cmd_result" where
  "reply buf_len text st =
     \<lparr>cr_ret = int (length text), cr_reply = (if buf_len = 0 then None else Some (take (buf_len - 1) text)),
      cr_private = None, cr_state = st\<rparr>"

definition with_supplicant :: "wifi_env \<Rightarrow> 'a outcome \<Rightarrow> 'a outcome" where
  "with_supplicant e r = (if we_ap e then Fault else r)"

definition answered :: "int \<times> wifi \<Rightarrow> cmd_result" where
  "answered r = answer (fst r) (snd r)"

section \<open>Commands of the supplicant\<close>

definition statistics_cmd :: "wifi_env \<Rightarrow> string \<Rightarrow> nat \<Rightarrow> wifi \<Rightarrow> cmd_result outcome" where
  "statistics_cmd e addr buf_len st =
     (if we_aton e addr = None then Ok (answer (-1) st)
      else with_supplicant e
        (let (ret, text, st1) = wpa_driver_get_sta_statistics e addr buf_len st
         in Ok (answer ret st1\<lparr>cr_reply := text\<rparr>)))"

definition country_cmd :: "wifi_env \<Rightarrow> string \<Rightarrow> wifi \<Rightarrow> cmd_result outcome" where
  "country_cmd e cmd st =
     (if length cmd \<noteq> 10 then Ok (answer 0 st)
      else
        let (ret, st1) = wpa_driver_mediatek_set_country e (drop 8 cmd) st
        in if ret = 0 then with_supplicant e (Ok (answer ret (wpa_driver_notify_country_change cmd st1)))
           else Ok (answer ret st1))"

definition stop_cmd :: "wifi_env \<Rightarrow> wifi \<Rightarrow> cmd_result outcome" where
  "stop_cmd e st = (if we_associated e \<and> we_ap e then Fault else Ok (answer (we_iface_flags e False) st))"

text \<open>\<open>rxfilter-stop\<close> and \<open>rxfilter-start\<close>\<close>

definition rxfilter_switch :: "wifi_env \<Rightarrow> u32 \<Rightarrow> wifi \<Rightarrow> cmd_result" where
  "rxfilter_switch e idx st = answer 0 (snd (wpa_driver_nl80211_driver_sw_cmd e True 0x9F000000 idx st))"

section \<open>Wi-Fi display sink\<close>

definition p2p_get_capability :: "string \<Rightarrow> p2p_data \<Rightarrow> nat \<Rightarrow> wifi \<Rightarrow> cmd_result" where
  "p2p_get_capability cmd p buf_len st =
     (if has_prefix ''p2p_dev_capa'' cmd
      then reply buf_len (''p2p_dev_capa='' @ sprintf_d (int (unat (dev_capab p))) @ [CHR 0x0A]) st
      else if has_prefix ''p2p_group_capa'' cmd then answer (-1) st
      else answer 0 st)"

definition p2p_set_capability :: "string \<Rightarrow> p2p_data \<Rightarrow> wifi \<Rightarrow> cmd_result" where
  "p2p_set_capability cmd p st =
     (if has_prefix ''p2p_dev_capa '' cmd
      then answer 0 (st\<lparr>p2p := Some (p\<lparr>dev_capab := of_int (atoi (drop 13 cmd))\<rparr>)\<rparr>)
      else if has_prefix ''p2p_group_capa '' cmd then answer (-1) st
      else answer 0 st)"

text \<open>\<open>os_strstr(s, t)\<close>: the text from the first occurrence on.\<close>

fun strstr_from :: "string \<Rightarrow> string \<Rightarrow> string option" where
  "strstr_from [] t = (if t = [] then Some [] else None)"
| "strstr_from (c # cs) t = (if take (length t) (c # cs) = t then Some (c # cs) else strstr_from cs t)"

text \<open>Returns the command that is passed on, the rewritten one after \<open>freq=\<close>.\<close>

definition miracast_cmd :: "wifi_env \<Rightarrow> string \<Rightarrow> wifi \<Rightarrow> string \<times> wifi" where
  "miracast_cmd e cmd st =
     (let miracast = of_int (atoi (drop 9 cmd)) :: u8; pos = strstr_from cmd '' freq='';
          used = config_from_radio (\<lambda>f. f \<noteq> 0) e
      in if miracast = 0 \<or> miracast = 1 then (cmd, used st)
         else if miracast = 2 then
           (case pos of
              Some s \<Rightarrow> (''MIRACAST 2'', p2p_wfd_sink_config_scc e True (of_int (atoi (drop 6 s))) st)
            | None \<Rightarrow> (cmd, used st))
         else (cmd, st))"

definition use_mcc_cmd :: "wifi_env \<Rightarrow> string \<Rightarrow> wifi \<Rightarrow> wifi" where
  "use_mcc_cmd e cmd st =
     (if (of_int (atoi (drop 12 cmd)) :: u8) \<noteq> 0 then p2p_wfd_sink_config_scc e False 0 st
      else config_from_radio (\<lambda>f. 0 < sint f) e st)"

text \<open>
  \<open>wpas_wfd_data_update\<close>: every field is copied; the session information is as long as the caller
  says, and the message has room for 192 bytes of it.
\<close>

definition wpas_wfd_data_update :: "wifi_env \<Rightarrow> wifi \<Rightarrow> (int \<times> wifi) outcome" where
  "wpas_wfd_data_update e st =
     (let w = we_wfd e; n = unat (WfdSessionInformationIELen w)
      in if n > 24 * 8 then Fault
         else
           let ie = take n (WfdSessionInformationIE w)
           in Ok (wpa_driver_nl80211_testmode e (WfdUpdate (w\<lparr>WfdSessionInformationIE := ie @ replicate (192 - length ie) 0\<rparr>)) st))"

section \<open>Test mode of the certification programme\<close>

definition mcc_cmd :: "wifi_env \<Rightarrow> string \<Rightarrow> wifi \<Rightarrow> cmd_result" where
  "mcc_cmd e cmd st =
     (if \<not> we_drv_priv e then answer (-1) st
      else
        (case dropWhile (\<lambda>c. c \<noteq> CHR '' '') cmd of
           [] \<Rightarrow> answer (-1) st
         | _ # v \<Rightarrow>
             let mcc = atoi v;
                 set_iface = (\<lambda>i. if mcc \<noteq> 0 then i\<lparr>num_multichan_concurrent := 2, p2p_concurrent_flag := True\<rparr>
                                  else i\<lparr>num_multichan_concurrent := 0, p2p_concurrent_flag := False\<rparr>);
                 set_p2p = (\<lambda>p. p\<lparr>concurrent_operations := (if mcc \<noteq> 0 then 1 else 0)\<rparr>)
             in answer 0 (st\<lparr>ifaces := map set_iface (ifaces st),
                              p2p := (if ifaces st = [] then p2p st else map_option set_p2p (p2p st))\<rparr>)))"

definition sigma_cmd :: "string \<Rightarrow> wifi \<Rightarrow> cmd_result" where
  "sigma_cmd cmd st = answer (if CHR '' '' \<in> set cmd then 0 else -1) st"

section \<open>The dispatcher\<close>

text \<open>The commands of the options, in the order of the tests; \<open>None\<close> when no test holds.\<close>

definition wapi_cmds :: "wifi_env \<Rightarrow> string \<Rightarrow> wifi \<Rightarrow> cmd_result outcome option" where
  "wapi_cmds e cmd st =
     (if \<not> cfg_wapi e then None
      else if case_prefix ''set-wapi-key'' cmd
      then Some (bindo (wpa_driver_nl80211_set_wapi_key e (we_wapi e) st) (\<lambda>r. Ok (answered r)))
      else if case_prefix ''wapi-msg-send'' cmd then Some (Ok (answer (wpa_driver_nl80211_send_msg (we_wapi_msg_len e)) st))
      else None)"

definition sink_cmds :: "wifi_env \<Rightarrow> string \<Rightarrow> nat \<Rightarrow> wifi \<Rightarrow> cmd_result outcome option" where
  "sink_cmds e cmd buf_len st =
     (if \<not> cfg_wfd_sink e then None
      else if has_prefix ''p2p_get_cap '' cmd then
        Some (with_supplicant e (Ok (case p2p st of None \<Rightarrow> answer (-1) st
          | Some p \<Rightarrow> p2p_get_capability (drop 12 cmd) p buf_len st)))
      else if has_prefix ''p2p_set_cap '' cmd then
        Some (with_supplicant e (Ok (case p2p st of None \<Rightarrow> answer (-1) st
          | Some p \<Rightarrow> p2p_set_capability (drop 12 cmd) p st)))
      else if has_prefix ''MIRACAST '' cmd then
        (if unat (of_int (atoi (drop 9 cmd)) :: u8) \<le> 2
         then Some (with_supplicant e (let (c, st1) = miracast_cmd e cmd st in Ok (pass_on (-1) c st1)))
         else Some (Ok (pass_on (-1) cmd st)))
      else if case_prefix ''p2p_use_mcc='' cmd then Some (with_supplicant e (Ok (answer (-1) (use_mcc_cmd e cmd st))))
      else if has_prefix ''wfd_data_update'' cmd then
        Some (bindo (wpas_wfd_data_update e st) (\<lambda>r. with_supplicant e (Ok (answered r))))
      else None)"

definition sigma_cmds :: "wifi_env \<Rightarrow> string \<Rightarrow> wifi \<Rightarrow> cmd_result outcome option" where
  "sigma_cmds e cmd st =
     (if \<not> cfg_sigma e then None
      else if case_prefix ''mcc'' cmd then Some (with_supplicant e (Ok (mcc_cmd e cmd st)))
      else if has_prefix ''p2p_set_opps '' cmd then
        Some (let r = p2p_ctrl_iface_set_opps e (drop 13 cmd) st
              in if fst r < 0 then Ok (answered r) else with_supplicant e (Ok (answered r)))
      else if has_prefix ''p2p_set_power_save '' cmd then
        Some (with_supplicant e (Ok (answered (p2p_ctrl_iface_set_power_save e (drop 19 cmd) st))))
      else if has_prefix ''p2p_set_sleep'' cmd then
        Some (let c = (if has_prefix ''p2p_set_sleep '' cmd then drop 14 cmd else ''ff:ff:ff:ff:ff:ff '' @ [CHR 0x22, CHR 0x22]);
                  r = p2p_ctrl_iface_set_sleep e c st
              in if fst r < 0 then Ok (answered r) else with_supplicant e (Ok (answered r)))
      else if case_prefix ''sigma_mode'' cmd then Some (Ok (sigma_cmd cmd st))
      else None)"

text \<open>\<open>POWERMODE\<close> up to \<open>btcoexmode\<close>\<close>

definition basic_cmds :: "wifi_env \<Rightarrow> string \<Rightarrow> nat \<Rightarrow> wifi \<Rightarrow> cmd_result outcome option" where
  "basic_cmds e cmd buf_len st =
     (if case_prefix ''POWERMODE '' cmd then Some (Ok (answer (-1) st))
      else if case_prefix ''GET_STA_STATISTICS '' cmd then Some (statistics_cmd e (drop 19 cmd) buf_len st)
      else if has_prefix ''MACADDR'' cmd then
        Some (with_supplicant e (Ok (reply buf_len (''Macaddr = '' @ mac_str (we_own_addr e) @ [CHR 0x0A]) st)))
      else if case_prefix ''COUNTRY'' cmd then Some (country_cmd e cmd st)
      else if case_equal ''start'' cmd then Some (Ok (answer (we_iface_flags e True) st))
      else if case_equal ''stop'' cmd then Some (stop_cmd e st)
      else if case_prefix ''getpower'' cmd then Some (Ok (answer (-1) st))
      else if case_prefix ''rxfilter-add'' cmd then Some (Ok (answered (rxfilter_cmd e 0x00900200 (drop 12 cmd) st)))
      else if case_prefix ''rxfilter-remove'' cmd then Some (Ok (answered (rxfilter_cmd e 0x00900300 (drop 15 cmd) st)))
      else if case_prefix ''rxfilter-stop'' cmd then Some (Ok (rxfilter_switch e 0x00900000 st))
      else if case_prefix ''rxfilter-start'' cmd then Some (Ok (rxfilter_switch e 0x00900100 st))
      else if case_equal ''btcoexscan-start'' cmd \<or> case_equal ''btcoexscan-stop'' cmd \<or> case_prefix ''btcoexmode'' cmd
      then Some (Ok (answer 0 st))
      else None)"

text \<open>\<open>P2P_SET_NOA\<close> up to the transparent command\<close>

definition last_cmds :: "wifi_env \<Rightarrow> string \<Rightarrow> wifi \<Rightarrow> cmd_result outcome" where
  "last_cmds e cmd st =
     (if has_prefix ''P2P_SET_NOA'' cmd then
        bindo (p2p_ctrl_iface_set_noa e cmd st) (\<lambda>r. if length (cut_words [] cmd) = 4 then with_supplicant e (Ok (answered r)) else Ok (answered r))
      else if has_prefix ''P2P_SET_PS'' cmd then
        bindo (p2p_ctrl_iface_set_ps e cmd st) (\<lambda>r. if length (cut_words [] cmd) = 4 then with_supplicant e (Ok (answered r)) else Ok (answered r))
      else if case_prefix ''SETSUSPENDMODE '' cmd then Ok (pass_on (-1) cmd (set_suspend_mode e cmd st))
      else if case_prefix ''mtk_rx_packet_filter '' cmd then Ok (answered (rx_packet_filter e cmd st))
      else bindo (transparent_cmd e cmd st) (\<lambda>r. Ok (pass_on (fst r) cmd (snd r))))"

definition first_of :: "'a option \<Rightarrow> 'a option \<Rightarrow> 'a option" where
  "first_of a b = (case a of None \<Rightarrow> b | Some x \<Rightarrow> Some x)"

definition dispatch_cmd :: "wifi_env \<Rightarrow> string \<Rightarrow> nat \<Rightarrow> wifi \<Rightarrow> cmd_result outcome" where
  "dispatch_cmd e cmd buf_len st =
     (case first_of (basic_cmds e cmd buf_len st)
             (first_of (wapi_cmds e cmd st) (first_of (sink_cmds e cmd buf_len st) (sigma_cmds e cmd st))) of
        Some r \<Rightarrow> r
      | None \<Rightarrow> last_cmds e cmd st)"

definition PRIV_CMD_SIZE :: nat where "PRIV_CMD_SIZE = 512"

text \<open>
  The private ioctl gets the text with its terminator, at most \<open>PRIV_CMD_SIZE\<close> bytes (a longer
  text loses its terminator); \<open>buf\<close> is cleared first, so the length of the answer is that of an
  empty text.
\<close>

definition private_cmd :: "wifi_env \<Rightarrow> string \<Rightarrow> nat \<Rightarrow> wifi \<Rightarrow> cmd_result" where
  "private_cmd e cmd buf_len st =
     (let cmd_len = (if length cmd \<ge> PRIV_CMD_SIZE then PRIV_CMD_SIZE - 1 else length cmd);
          text = take (cmd_len + 1) (cmd @ [NUL]);
          st1 = st\<lparr>priv_cmds := priv_cmds st @ [text]\<rparr>;
          ret = we_priv_ioctl e text
      in if ret < 0 then reply buf_len (''FAIL'' @ [CHR 0x0A]) (wpa_driver_send_hang_msg e st1)
         else (answer 0 (st1\<lparr>drv_errors := 0\<rparr>))\<lparr>cr_reply := (if buf_len = 0 then None else Some [])\<rparr>)"

definition wpa_driver_nl80211_driver_cmd :: "wifi_env \<Rightarrow> string \<Rightarrow> nat \<Rightarrow> wifi \<Rightarrow> cmd_result outcome" where
  "wpa_driver_nl80211_driver_cmd e cmd buf_len st =
     (if \<not> we_drv e then Ok (answer (-1) st)
      else if \<not> we_ap e \<and> \<not> we_conf_set e then Ok (answer (-1) st)
      else bindo (dispatch_cmd e cmd buf_len st) (\<lambda>r.
        (case cr_private r of
           None \<Rightarrow> Ok r
         | Some c \<Rightarrow> Ok (private_cmd e c buf_len (cr_state r)))))"

section \<open>Entry points with arguments\<close>

text \<open>The commands are printed into a buffer of \<open>MAX_DRV_CMD_SIZE\<close> bytes, a constant of the supplicant.\<close>

definition wpa_driver_set_p2p_noa :: "nat \<Rightarrow> wifi_env \<Rightarrow> u8 \<Rightarrow> int \<Rightarrow> int \<Rightarrow> wifi \<Rightarrow> cmd_result outcome" where
  "wpa_driver_set_p2p_noa max_len e count start duration st =
     (let buf = take (max_len - 1) (''P2P_SET_NOA '' @ sprintf_d (int (unat count)) @ '' '' @ sprintf_d start
                                    @ '' '' @ sprintf_d duration)
      in wpa_driver_nl80211_driver_cmd e buf (length buf + 1) st)"

definition wpa_driver_get_p2p_noa :: int where "wpa_driver_get_p2p_noa = -1"

definition wpa_driver_set_p2p_ps :: "nat \<Rightarrow> wifi_env \<Rightarrow> int \<Rightarrow> int \<Rightarrow> int \<Rightarrow> wifi \<Rightarrow> cmd_result outcome" where
  "wpa_driver_set_p2p_ps max_len e legacy_ps opp_ps ctwindow st =
     (let buf = take (max_len - 1) (''P2P_SET_PS '' @ sprintf_d legacy_ps @ '' '' @ sprintf_d opp_ps
                                    @ '' '' @ sprintf_d ctwindow)
      in wpa_driver_nl80211_driver_cmd e buf (length buf + 1) st)"

definition wpa_driver_set_ap_wps_p2p_ie :: int where "wpa_driver_set_ap_wps_p2p_ie = 0"

end
