(* ===== verification/WifiProps.thy ===== *)
theory WifiProps
  imports WifiDriver
begin

text \<open>
  Properties of the driver commands of the supplicant: what the printed commands become when they are
  parsed again, the bound of the transparent command, and the frequencies a P2P channel follows.
\<close>

section \<open>Words of a command\<close>

lemma cut_words_last: "\<forall>c \<in> set d. \<not> is_blank c \<Longrightarrow> cut_words w d = [w @ d]"
  by (induction d arbitrary: w) auto

lemma cut_words_word:
  "\<forall>c \<in> set d. \<not> is_blank c \<Longrightarrow> cs \<noteq> [] \<Longrightarrow> cut_words w (d @ '' '' @ cs) = (w @ d) # cut_words [] cs"
  by (induction d arbitrary: w) (auto simp: is_blank_def)

lemma sprintf_d_no_blank: "c \<in> set (sprintf_d v) \<Longrightarrow> \<not> is_blank c"
proof -
  assume "c \<in> set (sprintf_d v)"
  then have "c = CHR ''-'' \<or> is_digit 10 c"
    using dec_nat_digits by (auto simp: sprintf_d_def split: if_splits)
  then show ?thesis using digit_not_special by (auto simp: is_blank_def c_isspace_def)
qed

lemma sprintf_d_not_empty: "sprintf_d v \<noteq> []"
  by (rule sprintf_d_head [of v]) simp

lemma atoi_sprintf_d: "int32 v \<Longrightarrow> atoi (sprintf_d v) = v"
  using scan_d_sprintf_d [of v "[]"] by (simp add: atoi_def)

lemma cut_command:
  assumes "\<forall>c \<in> set name. \<not> is_blank c"
  shows "cut_words [] (name @ '' '' @ sprintf_d a @ '' '' @ sprintf_d b @ '' '' @ sprintf_d c)
       = [name, sprintf_d a, sprintf_d b, sprintf_d c]"
proof -
  have last: "cut_words [] (sprintf_d c) = [sprintf_d c]"
    using cut_words_last [of "sprintf_d c" "[]"] sprintf_d_no_blank by auto
  have two: "cut_words [] (sprintf_d b @ '' '' @ sprintf_d c) = [sprintf_d b, sprintf_d c]"
    using cut_words_word [of "sprintf_d b" "sprintf_d c" "[]"] sprintf_d_no_blank sprintf_d_not_empty last by auto
  have three: "cut_words [] (sprintf_d a @ '' '' @ sprintf_d b @ '' '' @ sprintf_d c) = [sprintf_d a, sprintf_d b, sprintf_d c]"
    using cut_words_word [of "sprintf_d a" "sprintf_d b @ '' '' @ sprintf_d c" "[]"] sprintf_d_no_blank two by auto
  then show ?thesis
    using cut_words_word [of name "sprintf_d a @ '' '' @ sprintf_d b @ '' '' @ sprintf_d c" "[]"] assms by auto
qed

lemma case_prefix_simps:
  "case_prefix [] s = True"
  "case_prefix (t # ts) [] = False"
  "case_prefix (t # ts) (c # cs) = (to_lower c = to_lower t \<and> case_prefix ts cs)"
  by (simp_all add: case_prefix_def)

lemma has_prefix_simps:
  "has_prefix [] s = True"
  "has_prefix (t # ts) [] = False"
  "has_prefix (t # ts) (c # cs) = (c = t \<and> has_prefix ts cs)"
  by (simp_all add: has_prefix_def)

lemma case_equal_simps:
  "case_equal [] (c # cs) = False"
  "case_equal (t # ts) (c # cs) = (to_lower c = to_lower t \<and> case_equal ts cs)"
  by (simp_all add: case_equal_def)

lemma dispatch_noa:
  "dispatch_cmd e (''P2P_SET_NOA'' @ s) n st = last_cmds e (''P2P_SET_NOA'' @ s) st"
  by (simp add: dispatch_cmd_def first_of_def basic_cmds_def wapi_cmds_def sink_cmds_def sigma_cmds_def
      case_prefix_simps has_prefix_simps case_equal_simps to_lower_def char_of_eq_iff)

lemma dispatch_ps:
  "dispatch_cmd e (''P2P_SET_PS'' @ s) n st = last_cmds e (''P2P_SET_PS'' @ s) st"
  by (simp add: dispatch_cmd_def first_of_def basic_cmds_def wapi_cmds_def sink_cmds_def sigma_cmds_def
      case_prefix_simps has_prefix_simps case_equal_simps to_lower_def char_of_eq_iff)

lemma sprintf_d_length:
  assumes "int32 v"
  shows "length (sprintf_d v) \<le> 11"
proof -
  have "nat \<bar>v\<bar> < 10 ^ Suc 9" using assms by (auto simp: int32_def INT32_MIN_def INT32_MAX_def)
  then have "length (dec_nat (nat \<bar>v\<bar>)) \<le> Suc 9" by (rule dec_nat_length)
  then show ?thesis by (auto simp: sprintf_d_def abs_if split: if_splits)
qed

lemma sprintf_u8_length: "length (sprintf_d (int (unat (b :: u8)))) \<le> 3"
proof -
  have "unat b < 10 ^ Suc 2" using unsigned_less [of b, where ?'a = nat] by simp
  then have "length (dec_nat (unat b)) \<le> Suc 2" by (rule dec_nat_length)
  then show ?thesis by (simp add: sprintf_d_def)
qed

lemma int32_u8: "int32 (uint (b :: u8))"
proof -
  have "0 \<le> uint b" "uint b < 256" using uint_lt2p [of b] by simp_all
  then show ?thesis by (simp only: int32_def INT32_MIN_def INT32_MAX_def) linarith
qed

lemma ucast_uint: "(word_of_int (uint (b :: u8)) :: u32) = ucast b"
  by (rule ucast_eq [symmetric])

definition driver_ready :: "wifi_env \<Rightarrow> bool" where
  "driver_ready e \<longleftrightarrow> we_drv e \<and> we_conf_set e \<and> \<not> we_ap e \<and> we_nlmsg e \<and> we_put e"

text \<open>
  C14. Print and parse of the notice of absence: \<open>wpa_driver_set_p2p_noa\<close> prints its arguments into
  a text, the dispatcher takes the text apart again, and the driver gets exactly one message with
  exactly the count, interval and duration of the call, for every count and all 32-bit times,
  whatever the options of the build, if the buffer has 40 bytes; the driver's result is returned.
\<close>

theorem noa_reaches_driver:
  assumes "driver_ready e" and "int32 start" and "int32 duration" and "max_len \<ge> 40"
  shows "wpa_driver_set_p2p_noa max_len e count start duration st =
     Ok (answer (we_testmode e (Noa (ucast count) (of_int start) (of_int duration)))
        (st\<lparr>sent := sent st @ [Noa (ucast count) (of_int start) (of_int duration)]\<rparr>))"
proof -
  define s where "s = '' '' @ sprintf_d (int (unat count)) @ '' '' @ sprintf_d start @ '' '' @ sprintf_d duration"
  have len: "length (''P2P_SET_NOA'' @ s) \<le> max_len - 1"
    using assms(4) sprintf_u8_length [of count] sprintf_d_length [OF assms(2)] sprintf_d_length [OF assms(3)]
    by (simp add: s_def)
  have cut: "cut_words [] (''P2P_SET_NOA'' @ s) = [''P2P_SET_NOA'', sprintf_d (int (unat count)), sprintf_d start, sprintf_d duration]"
    unfolding s_def by (rule cut_command) (simp add: is_blank_def)
  have noa: "p2p_ctrl_iface_set_noa e (''P2P_SET_NOA'' @ s) st =
     Ok (wpa_driver_nl80211_testmode e (Noa (ucast count) (of_int start) (of_int duration)) st)"
    unfolding p2p_ctrl_iface_set_noa_def tokenize_space_def Let_def cut
    by (simp add: atoi_sprintf_d assms int32_u8 ucast_uint)
  have "last_cmds e (''P2P_SET_NOA'' @ s) st =
     Ok (answered (wpa_driver_nl80211_testmode e (Noa (ucast count) (of_int start) (of_int duration)) st))"
    unfolding last_cmds_def using assms(1) noa cut
    by (simp add: has_prefix_def with_supplicant_def driver_ready_def)
  moreover have "take (max_len - 1) (''P2P_SET_NOA '' @ sprintf_d (int (unat count)) @ '' '' @ sprintf_d start
                                    @ '' '' @ sprintf_d duration) = ''P2P_SET_NOA'' @ s"
    using len by (simp add: s_def)
  ultimately show ?thesis
    unfolding wpa_driver_set_p2p_noa_def Let_def wpa_driver_nl80211_driver_cmd_def using assms(1)
    by (simp only: dispatch_noa) (simp add: driver_ready_def answered_def answer_def wpa_driver_nl80211_testmode_def)
qed

definition sample_nl :: nl_lib where
  "sample_nl = \<lparr>nla_get_u8 = (\<lambda>a. hd a), nla_get_u16 = (\<lambda>a. 0), nla_get_u32 = (\<lambda>a. 0), nla_memcpy = (\<lambda>d a n. take n a @ drop n d)\<rparr>"

definition sample_wfd :: wfd_data where
  "sample_wfd =
    \<lparr>WfdCmdType = 0, WfdEnable = 0, WfdCoupleSinkStatus = 0, WfdSessionAvailable = 0, WfdSigmaMode = 0, WfdDevInfo = 0,
     WfdControlPort = 0, WfdMaximumTp = 0, WfdExtendCap = 0, WfdCoupleSinkAddress = [], WfdAssociatedBssid = [],
     WfdVideoIp = [], WfdAudioIp = [], WfdVideoPort = 0, WfdAudioPort = 0, WfdFlag = 0, WfdPolicy = 0, WfdState = 0,
     WfdSessionInformationIE = [], WfdSessionInformationIELen = 0, WfdPrimarySinkMac = [], WfdSecondarySinkMac = [],
     WfdAdvancedFlag = 0, WfdLocalIp = []\<rparr>"

definition sample_wifi_env :: wifi_env where
  "sample_wifi_env =
    \<lparr>cfg_wapi = True, cfg_wfd_sink = True, cfg_sigma = True, we_ap = False, we_testmode = (\<lambda>m. 7),
     we_priv_ioctl = (\<lambda>c. 0), we_country_socket = True, we_country_ioctl = (\<lambda>c. 0), we_iface_flags = (\<lambda>b. 0),
     we_associated = False, we_deauth = 0, we_own_addr = replicate 6 0, we_aton = (\<lambda>s. None), we_ssid = None,
     we_bssid = replicate 6 0, we_nl = sample_nl, we_answers = (\<lambda>a. []), we_wfd = sample_wfd,
     we_wapi = \<lparr>wapi_addr = None, wapi_key_idx = 0, wapi_set_tx = False, wapi_seq = [], wapi_key = []\<rparr>,
     we_wapi_msg_len = 0,
     we_radio = [\<lparr>current_ssid = Some (MODE_INFRA, 2437, False), assoc_freq = 2437, bssid_ok = True\<rparr>],
     we_conf = (0, 0), we_random = 0, we_drv_priv = True, we_drv = True, we_conf_set = True, we_calloc = True,
     we_nlmsg = True, we_put = True, we_max_errors = 4\<rparr>"

definition sample_wifi :: wifi where
  "sample_wifi = \<lparr>drv_errors = 0, sent = [], priv_cmds = [], country_ioctls = [], country_events = [], p2p = None, ifaces = []\<rparr>"

theorem noa_reaches_driver_witness:
  "wpa_driver_set_p2p_noa 4096 sample_wifi_env 255 100 (-3) sample_wifi =
     Ok (answer 7 (sample_wifi\<lparr>sent := [Noa 255 100 (-3)]\<rparr>))"
  using noa_reaches_driver [of sample_wifi_env 100 "-3" 4096 255 sample_wifi]
  by (simp add: driver_ready_def sample_wifi_env_def int32_def INT32_MIN_def INT32_MAX_def sample_wifi_def)

section \<open>The transparent command\<close>

text \<open>
  A text that is no known command goes to the driver byte for byte, without its terminator, when it
  has at most 92 characters; a longer one makes the message longer than the 100-byte buffer it is
  built in, and the stack behind the buffer is read.
\<close>

theorem transparent_cmd_bound:
  "transparent_cmd e cmd st =
     (if length cmd \<le> 92 then Ok (wpa_driver_nl80211_testmode e (StrCmd (map char_byte cmd)) st) else Fault)"
  by (simp add: transparent_cmd_def Let_def)

section \<open>Frequencies on the radio\<close>

lemma put_freq_fst:
  "map fst (put_freq f fl acc) = (if f \<in> set (map fst acc) then map fst acc else map fst acc @ [f])"
proof (induction acc)
  case (Cons a acc)
  then show ?case by (cases a) (simp split: option.splits)
qed (simp split: option.splits)

lemma union_grows:
  "C \<subseteq> B \<union> J \<Longrightarrow> B \<subseteq> insert f A \<Longrightarrow> f \<in> K \<Longrightarrow> J \<subseteq> K \<Longrightarrow> C \<subseteq> A \<union> K"
  by blast

lemma shared_data_inv:
  assumes "distinct (map fst acc)" "length acc \<le> len"
  shows "distinct (map fst (mtk_get_shared_radio_freqs_data is len acc))
       \<and> length (mtk_get_shared_radio_freqs_data is len acc) \<le> len
       \<and> set (map fst (mtk_get_shared_radio_freqs_data is len acc)) \<subseteq> set (map fst acc) \<union> {f. \<exists>i \<in> set is. iface_freq i = Some f}"
  using assms
proof (induction "is" arbitrary: acc)
  case Nil
  then show ?case by simp
next
  case (Cons i js)
  show ?case
  proof (cases "length acc = len")
    case True
    then show ?thesis using Cons.prems by auto
  next
    case False
    show ?thesis
    proof (cases "iface_freq i")
      case None
      then show ?thesis using Cons.IH [OF Cons.prems] False by auto
    next
      case (Some f)
      let ?a = "put_freq f (iface_flag i) acc"
      have fst_a: "map fst ?a = (if f \<in> set (map fst acc) then map fst acc else map fst acc @ [f])"
        by (rule put_freq_fst)
      have "distinct (map fst ?a)" using Cons.prems(1) unfolding fst_a by simp
      moreover have "length (map fst ?a) \<le> len" using Cons.prems(2) False unfolding fst_a by simp
      ultimately have IH: "distinct (map fst (mtk_get_shared_radio_freqs_data js len ?a))"
        "length (mtk_get_shared_radio_freqs_data js len ?a) \<le> len"
        "set (map fst (mtk_get_shared_radio_freqs_data js len ?a)) \<subseteq> set (map fst ?a) \<union> {f. \<exists>i \<in> set js. iface_freq i = Some f}"
        using Cons.IH [of ?a] by simp_all
      have "set (map fst ?a) \<subseteq> insert f (set (map fst acc))" unfolding fst_a by auto
      moreover have "f \<in> {f. \<exists>i \<in> set (i # js). iface_freq i = Some f}" using Some by simp
      moreover have "{f. \<exists>i \<in> set js. iface_freq i = Some f} \<subseteq> {f. \<exists>i \<in> set (i # js). iface_freq i = Some f}"
        by auto
      ultimately have "set (map fst (mtk_get_shared_radio_freqs_data js len ?a))
          \<subseteq> set (map fst acc) \<union> {f. \<exists>i \<in> set (i # js). iface_freq i = Some f}"
        by (rule union_grows [OF IH(3)])
      then show ?thesis using IH(1,2) Some False by simp
    qed
  qed
qed

text \<open>
  The frequencies reported for a radio are distinct, at most as many as the caller has room for,
  and each is the frequency of an interface of the radio that has a network and an association.
\<close>

theorem shared_freqs_distinct_and_bounded:
  "distinct (mtk_get_shared_radio_freqs e len) \<and> length (mtk_get_shared_radio_freqs e len) \<le> len
   \<and> set (mtk_get_shared_radio_freqs e len) \<subseteq> {f. \<exists>i \<in> set (we_radio e). iface_freq i = Some f}"
  using shared_data_inv [of "[]" len "we_radio e"] by (simp add: mtk_get_shared_radio_freqs_def)

end
