(* ===== verification/HciStream.thy ===== *)
theory HciStream
  imports Prelude
begin

text \<open>
  The byte streams between the Bluetooth HAL and the controller, under
  \<open>src/proprietary/hardware/interfaces/bluetooth/\<close>: \<open>hci_packetizer.cc\<close> (packets out of a stream),
  \<open>h4_protocol.cc\<close> (one channel for all packet types), \<open>mct_protocol.cc\<close> (a channel for each type)
  and \<open>hci_protocol.cc\<close> (writing everything). A descriptor is the list of what its reads will
  find; \<open>LOG_ALWAYS_FATAL\<close> is the result \<open>Abort\<close>.
\<close>

section \<open>Reading a descriptor\<close>

text \<open>\<open>Again\<close> is \<open>EAGAIN\<close>, after which the code yields and reads again; \<open>ReadError\<close> is any other error.\<close>

datatype fd_event = Bytes "u8 list" | Again | EndOfFile | ReadError

text \<open>\<open>Waiting\<close>: the call goes on reading until the descriptor has more.\<close>

datatype 'a hci = Done 'a | Abort | Waiting

fun bindh :: "'a hci \<Rightarrow> ('a \<Rightarrow> 'b hci) \<Rightarrow> 'b hci" where
  "bindh (Done x) f = f x"
| "bindh Abort f = Abort"
| "bindh Waiting f = Waiting"

text \<open>
  The retry loop around \<open>read(fd, buf, n)\<close>: what it read and what the descriptor still has. A result
  of 0 is fatal; a request for 0 bytes always gives 0.
\<close>

fun read_fd :: "nat \<Rightarrow> fd_event list \<Rightarrow> (u8 list \<times> fd_event list) hci" where
  "read_fd n [] = (if n = 0 then Abort else Waiting)"
| "read_fd n (Again # es) = (if n = 0 then Abort else read_fd n es)"
| "read_fd n (EndOfFile # es) = Abort"
| "read_fd n (ReadError # es) = Abort"
| "read_fd n (Bytes bs # es) =
     (if n = 0 then Abort
      else if bs = [] then read_fd n es
      else if length bs \<le> n then Done (bs, es)
      else Done (take n bs, Bytes (drop n bs) # es))"

section \<open>HciPacketizer\<close>

datatype HciPacketType =
  HCI_PACKET_TYPE_UNKNOWN | HCI_PACKET_TYPE_COMMAND | HCI_PACKET_TYPE_ACL_DATA
| HCI_PACKET_TYPE_SCO_DATA | HCI_PACKET_TYPE_EVENT

fun preamble_size_for_type :: "HciPacketType \<Rightarrow> nat" where
  "preamble_size_for_type HCI_PACKET_TYPE_UNKNOWN = 0"
| "preamble_size_for_type HCI_PACKET_TYPE_COMMAND = 3"
| "preamble_size_for_type HCI_PACKET_TYPE_ACL_DATA = 4"
| "preamble_size_for_type HCI_PACKET_TYPE_SCO_DATA = 3"
| "preamble_size_for_type HCI_PACKET_TYPE_EVENT = 2"

fun packet_length_offset_for_type :: "HciPacketType \<Rightarrow> nat" where
  "packet_length_offset_for_type HCI_PACKET_TYPE_UNKNOWN = 0"
| "packet_length_offset_for_type HCI_PACKET_TYPE_COMMAND = 2"
| "packet_length_offset_for_type HCI_PACKET_TYPE_ACL_DATA = 2"
| "packet_length_offset_for_type HCI_PACKET_TYPE_SCO_DATA = 2"
| "packet_length_offset_for_type HCI_PACKET_TYPE_EVENT = 1"

definition HciGetPacketLengthForType :: "HciPacketType \<Rightarrow> u8 list \<Rightarrow> nat" where
  "HciGetPacketLengthForType type preamble =
     (let offset = packet_length_offset_for_type type
      in if type \<noteq> HCI_PACKET_TYPE_ACL_DATA then unat (preamble ! offset)
         else push_bit 8 (unat (preamble ! (offset + 1))) OR unat (preamble ! offset))"

datatype pk_state = HCI_PREAMBLE | HCI_PAYLOAD

record packetizer =
  pk_state :: pk_state
  preamble :: "u8 list"
  packet :: "u8 list"
  bytes_remaining :: nat
  bytes_read :: nat

definition packetizer_start :: packetizer where
  "packetizer_start = \<lparr>pk_state = HCI_PREAMBLE, preamble = replicate 4 0, packet = [], bytes_remaining = 0, bytes_read = 0\<rparr>"

definition write_at :: "nat \<Rightarrow> 'a list \<Rightarrow> 'a list \<Rightarrow> 'a list" where
  "write_at i d xs = take i xs @ d @ drop (i + length d) xs"

text \<open>\<open>hidl_vec::resize\<close>\<close>

definition resize :: "nat \<Rightarrow> u8 list \<Rightarrow> u8 list" where
  "resize n xs = take n xs @ replicate (n - length xs) 0"

text \<open>\<open>HciPacketizer::OnDataReady\<close>; the flag says that \<open>packet_ready_cb_\<close> is called.\<close>

definition read_preamble :: "HciPacketType \<Rightarrow> packetizer \<Rightarrow> fd_event list \<Rightarrow> (packetizer \<times> bool \<times> fd_event list) hci" where
  "read_preamble t p fd =
     bindh (read_fd (preamble_size_for_type t - bytes_read p) fd) (\<lambda>(d, fd').
       let p1 = p\<lparr>preamble := write_at (bytes_read p) d (preamble p), bytes_read := bytes_read p + length d\<rparr>
       in if bytes_read p1 = preamble_size_for_type t then
            let packet_length = HciGetPacketLengthForType t (preamble p1);
                sz = preamble_size_for_type t
            in Done (p1\<lparr>packet := write_at 0 (take sz (preamble p1)) (resize (sz + packet_length) (packet p1)),
                        bytes_remaining := packet_length, pk_state := HCI_PAYLOAD, bytes_read := 0\<rparr>, False, fd')
          else Done (p1, False, fd'))"

definition read_payload :: "HciPacketType \<Rightarrow> packetizer \<Rightarrow> fd_event list \<Rightarrow> (packetizer \<times> bool \<times> fd_event list) hci" where
  "read_payload t p fd =
     bindh (read_fd (bytes_remaining p) fd) (\<lambda>(d, fd').
       let p1 = p\<lparr>packet := write_at (preamble_size_for_type t + bytes_read p) d (packet p),
                  bytes_remaining := bytes_remaining p - length d, bytes_read := bytes_read p + length d\<rparr>
       in if bytes_remaining p1 = 0 then Done (p1\<lparr>pk_state := HCI_PREAMBLE, bytes_read := 0\<rparr>, True, fd')
          else Done (p1, False, fd'))"

definition packetizer_OnDataReady ::
    "HciPacketType \<Rightarrow> packetizer \<Rightarrow> fd_event list \<Rightarrow> (packetizer \<times> bool \<times> fd_event list) hci" where
  "packetizer_OnDataReady t p fd =
     (case pk_state p of HCI_PREAMBLE \<Rightarrow> read_preamble t p fd | HCI_PAYLOAD \<Rightarrow> read_payload t p fd)"

section \<open>H4Protocol\<close>

text \<open>\<open>h4_out\<close> is what the callbacks got, in order.\<close>

record h4 =
  hci_packet_type :: HciPacketType
  hci_packetizer :: packetizer
  h4_out :: "(HciPacketType \<times> u8 list) list"

definition h4_start :: h4 where
  "h4_start = \<lparr>hci_packet_type = HCI_PACKET_TYPE_UNKNOWN, hci_packetizer = packetizer_start, h4_out = []\<rparr>"

definition h4_type_of :: "u8 \<Rightarrow> HciPacketType option" where
  "h4_type_of b =
     (if b = 2 then Some HCI_PACKET_TYPE_ACL_DATA
      else if b = 3 then Some HCI_PACKET_TYPE_SCO_DATA
      else if b = 4 then Some HCI_PACKET_TYPE_EVENT
      else None)"

definition h4_OnPacketReady :: "h4 \<Rightarrow> h4 hci" where
  "h4_OnPacketReady s =
     (if hci_packet_type s \<in> {HCI_PACKET_TYPE_EVENT, HCI_PACKET_TYPE_ACL_DATA, HCI_PACKET_TYPE_SCO_DATA}
      then Done (s\<lparr>h4_out := h4_out s @ [(hci_packet_type s, packet (hci_packetizer s))],
                   hci_packet_type := HCI_PACKET_TYPE_UNKNOWN\<rparr>)
      else Abort)"

definition h4_OnDataReady :: "h4 \<Rightarrow> fd_event list \<Rightarrow> (h4 \<times> fd_event list) hci" where
  "h4_OnDataReady s fd =
     (if hci_packet_type s = HCI_PACKET_TYPE_UNKNOWN then
        bindh (read_fd 1 fd) (\<lambda>(buffer, fd').
          case h4_type_of (hd buffer) of None \<Rightarrow> Abort
          | Some t \<Rightarrow> Done (s\<lparr>hci_packet_type := t\<rparr>, fd'))
      else
        bindh (packetizer_OnDataReady (hci_packet_type s) (hci_packetizer s) fd) (\<lambda>(p, ready, fd').
          let s1 = s\<lparr>hci_packetizer := p\<rparr>
          in if ready then bindh (h4_OnPacketReady s1) (\<lambda>s2. Done (s2, fd')) else Done (s1, fd')))"

section \<open>Bytes of a descriptor\<close>

fun bytes_of :: "fd_event list \<Rightarrow> u8 list" where
  "bytes_of [] = []"
| "bytes_of (Bytes bs # es) = bs @ bytes_of es"
| "bytes_of (e # es) = bytes_of es"

fun fd_size :: "fd_event list \<Rightarrow> nat" where
  "fd_size [] = 0"
| "fd_size (Bytes bs # es) = Suc (length bs + fd_size es)"
| "fd_size (e # es) = Suc (fd_size es)"

lemma read_fd_Done:
  "read_fd n fd = Done (d, fd') \<Longrightarrow>
     bytes_of fd = d @ bytes_of fd' \<and> d \<noteq> [] \<and> length d \<le> n \<and> fd_size fd' < fd_size fd"
proof (induction n fd rule: read_fd.induct)
  case (5 n bs es)
  then show ?case by (auto split: if_splits)
qed (auto split: if_splits)

lemma read_fd_Waiting: "read_fd n fd = Waiting \<Longrightarrow> bytes_of fd = []"
  by (induction n fd rule: read_fd.induct) (auto split: if_splits)

lemma bindh_Done: "bindh m f = Done y \<longleftrightarrow> (\<exists>x. m = Done x \<and> f x = Done y)"
  by (cases m) simp_all

lemma bindh_Waiting: "bindh m f = Waiting \<longleftrightarrow> m = Waiting \<or> (\<exists>x. m = Done x \<and> f x = Waiting)"
  by (cases m) simp_all

lemma packetizer_shrinks:
  assumes "packetizer_OnDataReady t p fd = Done (p', r, fd')"
  shows "fd_size fd' < fd_size fd"
  using assms
  by (auto simp: packetizer_OnDataReady_def read_preamble_def read_payload_def bindh_Done Let_def
      dest!: read_fd_Done split: pk_state.splits prod.splits if_splits)

lemma h4_shrinks:
  assumes "h4_OnDataReady s fd = Done (s', fd')"
  shows "fd_size fd' < fd_size fd"
  using assms
  by (auto simp: h4_OnDataReady_def bindh_Done Let_def
      dest!: read_fd_Done packetizer_shrinks split: prod.splits if_splits option.splits)

text \<open>
  The watcher's thread calls the handler as long as the descriptor is readable; the run ends
  when nothing is left to read.
\<close>

function h4_run :: "h4 \<Rightarrow> fd_event list \<Rightarrow> h4 hci" where
  "h4_run s fd =
     (if fd = [] then Done s
      else case h4_OnDataReady s fd of
        Done (s', fd') \<Rightarrow> h4_run s' fd'
      | Abort \<Rightarrow> Abort
      | Waiting \<Rightarrow> Done s)"
  by pat_completeness auto
termination
  by (relation "measure (\<lambda>(s, fd). fd_size fd)") (auto dest: h4_shrinks)

declare h4_run.simps [simp del]

section \<open>MctProtocol\<close>

record mct =
  event_packetizer :: packetizer
  acl_packetizer :: packetizer
  mct_events :: "u8 list list"
  mct_acl :: "u8 list list"

definition OnEventDataReady :: "mct \<Rightarrow> fd_event list \<Rightarrow> (mct \<times> fd_event list) hci" where
  "OnEventDataReady s fd =
     bindh (packetizer_OnDataReady HCI_PACKET_TYPE_EVENT (event_packetizer s) fd) (\<lambda>(p, ready, fd').
       let s1 = s\<lparr>event_packetizer := p\<rparr>
       in Done (if ready then s1\<lparr>mct_events := mct_events s1 @ [packet p]\<rparr> else s1, fd'))"

definition OnAclDataReady :: "mct \<Rightarrow> fd_event list \<Rightarrow> (mct \<times> fd_event list) hci" where
  "OnAclDataReady s fd =
     bindh (packetizer_OnDataReady HCI_PACKET_TYPE_ACL_DATA (acl_packetizer s) fd) (\<lambda>(p, ready, fd').
       let s1 = s\<lparr>acl_packetizer := p\<rparr>
       in Done (if ready then s1\<lparr>mct_acl := mct_acl s1 @ [packet p]\<rparr> else s1, fd'))"

section \<open>Writing\<close>

text \<open>
  What the next \<open>write\<close> or \<open>writev\<close> does; \<open>Wrote k\<close> takes at most what it is offered. The status
  is \<open>Blocked\<close> while the code still retries.
\<close>

datatype write_event = Wrote nat | WriteAgain | WriteError

datatype send_status = Sent | SendFailed | Blocked

primrec WriteSafely :: "write_event list \<Rightarrow> u8 list \<Rightarrow> send_status \<times> nat \<times> u8 list" where
  "WriteSafely [] data = (if data = [] then (Sent, 0, []) else (Blocked, 0, []))"
| "WriteSafely (w # ws) data =
     (if data = [] then (Sent, 0, [])
      else case w of
        WriteAgain \<Rightarrow> WriteSafely ws data
      | WriteError \<Rightarrow> (SendFailed, 0, [])
      | Wrote k \<Rightarrow>
          let d = take k data
          in if d = [] then (SendFailed, 0, [])
             else let (st, n, sent) = WriteSafely ws (drop (length d) data) in (st, length d + n, d @ sent))"

text \<open>Consuming \<open>ret\<close> bytes of the vectors.\<close>

fun consume_iov :: "nat \<Rightarrow> u8 list list \<Rightarrow> u8 list list" where
  "consume_iov ret [] = []"
| "consume_iov ret (v # vs) = (if ret \<ge> length v then consume_iov (ret - length v) vs else drop ret v # vs)"

primrec WritevSafely :: "write_event list \<Rightarrow> u8 list list \<Rightarrow> send_status \<times> nat \<times> u8 list" where
  "WritevSafely [] iov = (if iov = [] then (Sent, 0, []) else (Blocked, 0, []))"
| "WritevSafely (w # ws) iov =
     (if iov = [] then (Sent, 0, [])
      else case w of
        WriteAgain \<Rightarrow> WritevSafely ws iov
      | WriteError \<Rightarrow> (SendFailed, 0, [])
      | Wrote k \<Rightarrow>
          let d = take k (concat iov)
          in if d = [] then (SendFailed, 0, [])
             else let (st, n, sent) = WritevSafely ws (consume_iov (length d) iov) in (st, length d + n, d @ sent))"

definition h4_Send :: "write_event list \<Rightarrow> u8 \<Rightarrow> u8 list \<Rightarrow> send_status \<times> nat \<times> u8 list" where
  "h4_Send ws type data = WritevSafely ws [[type], data]"

datatype mct_channel = CH_CMD | CH_ACL_OUT

text \<open>\<open>MctProtocol::Send\<close>: the channel written to and what was written.\<close>

definition mct_Send :: "write_event list \<Rightarrow> u8 \<Rightarrow> u8 list \<Rightarrow> (mct_channel \<times> send_status \<times> nat \<times> u8 list) hci" where
  "mct_Send ws type data =
     (if type = 1 then Done (CH_CMD, WriteSafely ws data)
      else if type = 2 then Done (CH_ACL_OUT, WriteSafely ws data)
      else Abort)"

end
