(* ===== verification/HciProps.thy ===== *)
theory HciProps
  imports HciStream
begin

text \<open>
  The packets the callbacks get are a parse of the byte stream, however the reads cut it; and what the
  writers report is what the controller got.
\<close>

section \<open>The frame format\<close>

definition h4_byte :: "HciPacketType \<Rightarrow> u8" where
  "h4_byte t = (case t of HCI_PACKET_TYPE_ACL_DATA \<Rightarrow> 2 | HCI_PACKET_TYPE_SCO_DATA \<Rightarrow> 3
    | HCI_PACKET_TYPE_EVENT \<Rightarrow> 4 | HCI_PACKET_TYPE_COMMAND \<Rightarrow> 1 | HCI_PACKET_TYPE_UNKNOWN \<Rightarrow> 0)"

definition incoming :: "HciPacketType \<Rightarrow> bool" where
  "incoming t \<longleftrightarrow> t \<in> {HCI_PACKET_TYPE_ACL_DATA, HCI_PACKET_TYPE_SCO_DATA, HCI_PACKET_TYPE_EVENT}"

text \<open>A packet: its preamble, whose length field counts the payload, and a payload that is not empty.\<close>

definition framed :: "HciPacketType \<times> u8 list \<Rightarrow> bool" where
  "framed tp \<longleftrightarrow> (case tp of (t, p) \<Rightarrow> incoming t \<and> length p > preamble_size_for_type t
     \<and> length p = preamble_size_for_type t + HciGetPacketLengthForType t p)"

definition h4_encode :: "HciPacketType \<times> u8 list \<Rightarrow> u8 list" where
  "h4_encode tp = h4_byte (fst tp) # snd tp"

lemma h4_type_of_byte: "h4_type_of b = Some t \<longleftrightarrow> incoming t \<and> b = h4_byte t"
  by (cases t) (auto simp: h4_type_of_def incoming_def h4_byte_def)

lemma incoming_size: "incoming t \<Longrightarrow> 2 \<le> preamble_size_for_type t \<and> preamble_size_for_type t \<le> 4"
  by (auto simp: incoming_def)

lemma incoming_not_unknown: "incoming t \<Longrightarrow> t \<noteq> HCI_PACKET_TYPE_UNKNOWN"
  by (auto simp: incoming_def)

text \<open>The length only depends on the preamble.\<close>

lemma packet_length_cong:
  "incoming t \<Longrightarrow> take (preamble_size_for_type t) p = take (preamble_size_for_type t) q \<Longrightarrow>
    HciGetPacketLengthForType t p = HciGetPacketLengthForType t q"
proof -
  assume t: "incoming t" and eq: "take (preamble_size_for_type t) p = take (preamble_size_for_type t) q"
  have nth: "p ! i = q ! i" if "i < preamble_size_for_type t" for i
    using eq that by (metis nth_take)
  show ?thesis
    using t nth by (auto simp: incoming_def HciGetPacketLengthForType_def Let_def)
qed

lemma framed_prefix_unique:
  assumes "framed (t, p)" "framed (t, q)" "p @ x = q @ y"
  shows "p = q \<and> x = y"
proof -
  have "take (preamble_size_for_type t) (p @ x) = take (preamble_size_for_type t) p"
    using assms(1) by (simp add: framed_def)
  moreover have "take (preamble_size_for_type t) (q @ y) = take (preamble_size_for_type t) q"
    using assms(2) by (simp add: framed_def)
  ultimately have "take (preamble_size_for_type t) p = take (preamble_size_for_type t) q"
    by (metis assms(3))
  moreover have "incoming t" using assms(1) by (simp add: framed_def)
  ultimately have "HciGetPacketLengthForType t p = HciGetPacketLengthForType t q"
    by (intro packet_length_cong)
  moreover have "length p = preamble_size_for_type t + HciGetPacketLengthForType t p"
    "length q = preamble_size_for_type t + HciGetPacketLengthForType t q"
    using assms(1,2) unfolding framed_def by blast+
  ultimately have "length p = length q" by linarith
  then show ?thesis using assms(3) by simp
qed

lemma h4_byte_inj: "h4_byte t = h4_byte u \<Longrightarrow> t = u"
  by (cases t; cases u) (simp_all add: h4_byte_def)

lemma h4_encode_unique:
  assumes "framed a" "framed b" "h4_encode a @ x = h4_encode b @ y"
  shows "a = b \<and> x = y"
proof -
  obtain t p where a: "a = (t, p)" by (cases a)
  obtain u q where b: "b = (u, q)" by (cases b)
  have "t = u" "p @ x = q @ y" using assms(3) h4_byte_inj by (auto simp: h4_encode_def a b)
  then show ?thesis using framed_prefix_unique [of t p q x y] assms(1,2) by (simp add: a b)
qed

section \<open>The invariant of the reader\<close>

text \<open>The bytes of the packet that is being read.\<close>

definition pending :: "h4 \<Rightarrow> u8 list" where
  "pending s =
     (let t = hci_packet_type s; p = hci_packetizer s
      in if t = HCI_PACKET_TYPE_UNKNOWN then []
         else h4_byte t # (case pk_state p of
            HCI_PREAMBLE \<Rightarrow> take (bytes_read p) (preamble p)
          | HCI_PAYLOAD \<Rightarrow> take (preamble_size_for_type t + bytes_read p) (packet p)))"

definition stream :: "h4 \<Rightarrow> u8 list" where
  "stream s = concat (map h4_encode (h4_out s)) @ pending s"

definition h4_inv :: "h4 \<Rightarrow> bool" where
  "h4_inv s \<longleftrightarrow>
     (let t = hci_packet_type s; p = hci_packetizer s
      in list_all framed (h4_out s) \<and> length (preamble p) = 4
         \<and> (if t = HCI_PACKET_TYPE_UNKNOWN then pk_state p = HCI_PREAMBLE \<and> bytes_read p = 0
            else incoming t \<and>
              (case pk_state p of
                 HCI_PREAMBLE \<Rightarrow> bytes_read p < preamble_size_for_type t
               | HCI_PAYLOAD \<Rightarrow>
                   length (packet p) = preamble_size_for_type t + bytes_read p + bytes_remaining p
                   \<and> bytes_read p + bytes_remaining p = HciGetPacketLengthForType t (packet p)
                   \<and> (bytes_read p = 0 \<or> 0 < bytes_remaining p))))"

lemma h4_start_inv: "h4_inv h4_start" "stream h4_start = []"
  by (simp_all add: h4_inv_def h4_start_def packetizer_start_def stream_def pending_def)

lemma write_at_length: "i + length d \<le> length xs \<Longrightarrow> length (write_at i d xs) = length xs"
  by (simp add: write_at_def)

lemma take_write_at: "i \<le> length xs \<Longrightarrow> take (i + length d) (write_at i d xs) = take i xs @ d"
  by (simp add: write_at_def)

lemma take_write_at_below: "j \<le> i \<Longrightarrow> i \<le> length xs \<Longrightarrow> take j (write_at i d xs) = take j xs"
  by (simp add: write_at_def min_def)

lemma resize_length: "length (resize n xs) = n"
  by (simp add: resize_def)

text \<open>One step of each of the three reading places.\<close>

lemma type_step:
  assumes inv: "h4_inv s" and t: "hci_packet_type s = HCI_PACKET_TYPE_UNKNOWN"
    and step: "h4_OnDataReady s fd = Done (s', fd')"
  shows "h4_inv s' \<and> stream s @ bytes_of fd = stream s' @ bytes_of fd'"
proof -
  obtain d t' where rd: "read_fd 1 fd = Done (d, fd')" and ty: "h4_type_of (hd d) = Some t'"
    and s': "s' = s\<lparr>hci_packet_type := t'\<rparr>"
    using step t by (auto simp: h4_OnDataReady_def bindh_Done split: option.splits)
  obtain b where d: "d = [b]" using read_fd_Done [OF rd] by (cases d) auto
  have "incoming t'" "b = h4_byte t'" using ty d by (simp_all add: h4_type_of_byte)
  then show ?thesis
    using inv t read_fd_Done [OF rd] d incoming_size [of t'] incoming_not_unknown [of t']
    by (auto simp: h4_inv_def stream_def pending_def s' Let_def)
qed

lemma read_preamble_not_ready: "read_preamble t p fd = Done (q, r, fd') \<Longrightarrow> \<not> r"
  by (auto simp: read_preamble_def bindh_Done Let_def split: if_splits prod.splits)

lemma preamble_step:
  assumes inv: "h4_inv s" and t: "hci_packet_type s \<noteq> HCI_PACKET_TYPE_UNKNOWN"
    and st: "pk_state (hci_packetizer s) = HCI_PREAMBLE"
    and step: "h4_OnDataReady s fd = Done (s', fd')"
  shows "h4_inv s' \<and> stream s @ bytes_of fd = stream s' @ bytes_of fd'"
proof -
  let ?t = "hci_packet_type s" and ?p = "hci_packetizer s"
  let ?n = "preamble_size_for_type ?t"
  obtain p r where rp: "read_preamble ?t ?p fd = Done (p, r, fd')" and "\<not> r"
    and s': "s' = s\<lparr>hci_packetizer := p\<rparr>"
    using step t st
    by (auto simp: h4_OnDataReady_def packetizer_OnDataReady_def bindh_Done Let_def
        split: if_splits prod.splits dest: read_preamble_not_ready)
  obtain d where rd: "read_fd (?n - bytes_read ?p) fd = Done (d, fd')"
    using rp by (auto simp: read_preamble_def bindh_Done Let_def split: if_splits prod.splits)
  define pre where "pre = write_at (bytes_read ?p) d (preamble ?p)"
  note rdf = read_fd_Done [OF rd]
  have inc: "incoming ?t" and len: "length (preamble ?p) = 4" and br: "bytes_read ?p < ?n"
    using inv t st by (auto simp: h4_inv_def Let_def)
  have n: "2 \<le> ?n" "?n \<le> 4" using incoming_size [OF inc] by auto
  have pre_len: "length pre = 4" unfolding pre_def using len rdf br n by (subst write_at_length) auto
  have pre_take: "take (bytes_read ?p + length d) pre = take (bytes_read ?p) (preamble ?p) @ d"
    unfolding pre_def using len br n by (intro take_write_at) auto
  show ?thesis
  proof (cases "bytes_read ?p + length d = ?n")
    case False
    then have p: "p = ?p\<lparr>preamble := pre, bytes_read := bytes_read ?p + length d\<rparr>"
      using rp rd by (simp add: read_preamble_def pre_def Let_def)
    have "bytes_read ?p + length d < ?n" using False rdf br by auto
    then show ?thesis
      using inv t st rdf pre_take pre_len inc
      by (simp add: h4_inv_def stream_def pending_def s' p Let_def)
  next
    case True
    define l where "l = HciGetPacketLengthForType ?t pre"
    define pk where "pk = write_at 0 (take ?n pre) (resize (?n + l) (packet ?p))"
    have p: "p = ?p\<lparr>preamble := pre, packet := pk, bytes_remaining := l, pk_state := HCI_PAYLOAD, bytes_read := 0\<rparr>"
      using rp rd True by (simp add: read_preamble_def pre_def l_def pk_def Let_def)
    have tn: "length (take ?n pre) = ?n" using pre_len n by simp
    have pk_len: "length pk = ?n + l"
      unfolding pk_def using tn by (subst write_at_length) (simp_all add: resize_length)
    have pk_take: "take ?n pk = take ?n pre"
      using take_write_at [of 0 "resize (?n + l) (packet ?p)" "take ?n pre"] tn by (simp add: pk_def)
    have "HciGetPacketLengthForType ?t pk = l"
      unfolding l_def using pk_take by (rule packet_length_cong [OF inc])
    moreover have "take ?n pre = take (bytes_read ?p) (preamble ?p) @ d" using pre_take True by simp
    ultimately show ?thesis
      using inv t st rdf pre_len pk_len pk_take inc
      by (simp add: h4_inv_def stream_def pending_def s' p Let_def)
  qed
qed

lemma payload_step:
  assumes inv: "h4_inv s" and t: "hci_packet_type s \<noteq> HCI_PACKET_TYPE_UNKNOWN"
    and st: "pk_state (hci_packetizer s) = HCI_PAYLOAD"
    and step: "h4_OnDataReady s fd = Done (s', fd')"
  shows "h4_inv s' \<and> stream s @ bytes_of fd = stream s' @ bytes_of fd'"
proof -
  let ?t = "hci_packet_type s" and ?p = "hci_packetizer s"
  let ?n = "preamble_size_for_type ?t"
  obtain d where rd: "read_fd (bytes_remaining ?p) fd = Done (d, fd')"
    using step t st
    by (auto simp: h4_OnDataReady_def packetizer_OnDataReady_def bindh_Done read_payload_def Let_def
        split: if_splits prod.splits)
  note rdf = read_fd_Done [OF rd]
  define pk where "pk = write_at (?n + bytes_read ?p) d (packet ?p)"
  have inc: "incoming ?t" and len: "length (packet ?p) = ?n + bytes_read ?p + bytes_remaining ?p"
    and tot: "bytes_read ?p + bytes_remaining ?p = HciGetPacketLengthForType ?t (packet ?p)"
    using inv t st by (auto simp: h4_inv_def Let_def)
  have pk_len: "length pk = length (packet ?p)" unfolding pk_def using len rdf by (subst write_at_length) auto
  have pk_take: "take (?n + bytes_read ?p + length d) pk = take (?n + bytes_read ?p) (packet ?p) @ d"
    unfolding pk_def using len by (intro take_write_at) auto
  have "take ?n pk = take ?n (packet ?p)"
    unfolding pk_def using len by (intro take_write_at_below) auto
  then have pk_tot: "HciGetPacketLengthForType ?t pk = HciGetPacketLengthForType ?t (packet ?p)"
    by (rule packet_length_cong [OF inc])
  have d_pos: "0 < length d" using rdf by simp
  show ?thesis
  proof (cases "bytes_remaining ?p = length d")
    case False
    then have s': "s' = s\<lparr>hci_packetizer := ?p\<lparr>packet := pk, bytes_remaining := bytes_remaining ?p - length d,
        bytes_read := bytes_read ?p + length d\<rparr>\<rparr>" and "length d < bytes_remaining ?p"
      using step rdf rd st t
      by (simp_all add: h4_OnDataReady_def packetizer_OnDataReady_def read_payload_def pk_def Let_def)
    then show ?thesis
      using inv t st rdf pk_take pk_len pk_tot inc len tot
      by (simp add: h4_inv_def stream_def pending_def Let_def add.assoc)
  next
    case True
    then have s': "s' = s\<lparr>hci_packetizer := ?p\<lparr>packet := pk, bytes_remaining := 0, pk_state := HCI_PREAMBLE,
        bytes_read := 0\<rparr>, h4_out := h4_out s @ [(?t, pk)], hci_packet_type := HCI_PACKET_TYPE_UNKNOWN\<rparr>"
      using step rdf rd st t inc
      by (auto simp: h4_OnDataReady_def packetizer_OnDataReady_def read_payload_def pk_def Let_def
          h4_OnPacketReady_def incoming_def)
    have whole: "pk = take (?n + bytes_read ?p) (packet ?p) @ d" using pk_take pk_len len True by simp
    have "0 < HciGetPacketLengthForType ?t pk" using pk_tot tot True d_pos by linarith
    then have "framed (?t, pk)" using inc pk_len pk_tot len tot True by (simp add: framed_def)
    then show ?thesis
      using inv t st rdf whole
      by (simp add: h4_inv_def stream_def pending_def s' Let_def h4_encode_def)
  qed
qed

lemma h4_step:
  assumes "h4_inv s" "h4_OnDataReady s fd = Done (s', fd')"
  shows "h4_inv s' \<and> stream s @ bytes_of fd = stream s' @ bytes_of fd'"
  using type_step [OF assms(1) _ assms(2)] preamble_step [OF assms(1) _ _ assms(2)]
    payload_step [OF assms(1) _ _ assms(2)] by (metis pk_state.exhaust)

section \<open>Runs\<close>

lemma read_parts_wait:
  "read_preamble t p fd = Waiting \<Longrightarrow> bytes_of fd = []"
  "read_payload t p fd = Waiting \<Longrightarrow> bytes_of fd = []"
  by (auto simp: read_preamble_def read_payload_def bindh_Waiting Let_def dest: read_fd_Waiting
      split: if_splits prod.splits)

lemma h4_waits_empty: "h4_OnDataReady s fd = Waiting \<Longrightarrow> bytes_of fd = []"
  by (auto simp: h4_OnDataReady_def packetizer_OnDataReady_def h4_OnPacketReady_def bindh_Waiting Let_def
      dest: read_fd_Waiting read_parts_wait split: if_splits prod.splits option.splits pk_state.splits)

lemma h4_run_stream:
  "h4_inv s \<Longrightarrow> h4_run s fd = Done s' \<Longrightarrow> h4_inv s' \<and> stream s @ bytes_of fd = stream s'"
proof (induction s fd rule: h4_run.induct)
  case (1 s fd)
  show ?case
  proof (cases "fd = []")
    case True
    then show ?thesis using 1(2,3) by (simp add: h4_run.simps)
  next
    case False
    note run = h4_run.simps [of s fd]
    show ?thesis
    proof (cases "h4_OnDataReady s fd")
      case (Done r)
      obtain s1 fd1 where r: "r = (s1, fd1)" by (cases r)
      have step: "h4_OnDataReady s fd = Done (s1, fd1)" using Done r by simp
      have "h4_inv s1" and eq: "stream s @ bytes_of fd = stream s1 @ bytes_of fd1"
        using h4_step [OF 1(2) step] by auto
      moreover have "h4_run s1 fd1 = Done s'" using 1(3) run step False by simp
      ultimately show ?thesis using 1(1) [OF False Done r [symmetric]] r by simp
    next
      case Abort
      then show ?thesis using 1(3) run False by simp
    next
      case Waiting
      then show ?thesis using 1(2,3) run False h4_waits_empty [OF Waiting] by simp
    qed
  qed
qed

lemma framed_lists_compare:
  assumes "list_all framed as" "list_all framed bs"
    and "concat (map h4_encode as) @ x = concat (map h4_encode bs) @ z"
  shows "(\<exists>cs. bs = as @ cs \<and> x = concat (map h4_encode cs) @ z)
       \<or> (\<exists>cs. cs \<noteq> [] \<and> as = bs @ cs \<and> z = concat (map h4_encode cs) @ x)"
  using assms
proof (induction as arbitrary: bs)
  case Nil
  then show ?case by auto
next
  case (Cons a as)
  show ?case
  proof (cases bs)
    case Nil
    then show ?thesis using Cons.prems by auto
  next
    case (Cons b bs')
    have "h4_encode a @ (concat (map h4_encode as) @ x) = h4_encode b @ (concat (map h4_encode bs') @ z)"
      using Cons.prems(3) Cons by simp
    moreover have "framed a" "framed b" using Cons.prems(1,2) Cons by simp_all
    ultimately have "a = b" and rest: "concat (map h4_encode as) @ x = concat (map h4_encode bs') @ z"
      using h4_encode_unique by blast+
    moreover have "list_all framed as" "list_all framed bs'" using Cons.prems(1,2) Cons by simp_all
    ultimately show ?thesis using Cons.IH [of bs'] Cons by auto
  qed
qed

text \<open>The bytes of an unfinished packet never contain a whole one.\<close>

lemma payload_total:
  assumes inv: "h4_inv s" and st: "hci_packet_type s \<noteq> HCI_PACKET_TYPE_UNKNOWN" "pk_state (hci_packetizer s) = HCI_PAYLOAD"
    and eq: "pending s @ x = h4_byte t # q @ y" and len: "length q \<ge> preamble_size_for_type t"
  shows "t = hci_packet_type s \<and> bytes_read (hci_packetizer s) + bytes_remaining (hci_packetizer s) = HciGetPacketLengthForType t q"
proof -
  let ?p = "hci_packetizer s"
  have t: "t = hci_packet_type s"
    and body: "take (preamble_size_for_type t + bytes_read ?p) (packet ?p) @ x = q @ y"
    using eq st h4_byte_inj [of t "hci_packet_type s"] by (auto simp: pending_def Let_def)
  have inc: "incoming t" and l: "length (packet ?p) = preamble_size_for_type t + bytes_read ?p + bytes_remaining ?p"
    and tot: "bytes_read ?p + bytes_remaining ?p = HciGetPacketLengthForType t (packet ?p)"
    using inv st t by (auto simp: h4_inv_def Let_def)
  have "take (preamble_size_for_type t) (packet ?p)
      = take (preamble_size_for_type t) (take (preamble_size_for_type t + bytes_read ?p) (packet ?p) @ x)"
    using l by simp
  also have "\<dots> = take (preamble_size_for_type t) q" unfolding body using len by simp
  finally have "HciGetPacketLengthForType t (packet ?p) = HciGetPacketLengthForType t q"
    by (rule packet_length_cong [OF inc])
  then show ?thesis using t tot by simp
qed

lemma preamble_short:
  assumes "h4_inv s" "hci_packet_type s \<noteq> HCI_PACKET_TYPE_UNKNOWN" "pk_state (hci_packetizer s) = HCI_PREAMBLE"
  shows "length (pending s) \<le> preamble_size_for_type (hci_packet_type s)"
    and "hci_packet_type s = t \<longleftrightarrow> hd (pending s) = h4_byte t"
  using assms h4_byte_inj by (auto simp: h4_inv_def pending_def Let_def)

lemma pending_unknown: "hci_packet_type s = HCI_PACKET_TYPE_UNKNOWN \<Longrightarrow> pending s = []"
  by (simp add: pending_def)

lemma pending_payload_length:
  assumes "h4_inv s" "hci_packet_type s \<noteq> HCI_PACKET_TYPE_UNKNOWN" "pk_state (hci_packetizer s) = HCI_PAYLOAD"
  shows "length (pending s) = 1 + preamble_size_for_type (hci_packet_type s) + bytes_read (hci_packetizer s)"
  using assms by (simp add: h4_inv_def pending_def Let_def)

lemma pending_not_whole:
  assumes inv: "h4_inv s" and q: "framed q" and eq: "pending s = h4_encode q @ y"
  shows False
proof -
  obtain t b where tb: "q = (t, b)" by (cases q)
  have u: "hci_packet_type s \<noteq> HCI_PACKET_TYPE_UNKNOWN" using eq pending_unknown by (auto simp: h4_encode_def)
  have fr: "length b > preamble_size_for_type t" "length b = preamble_size_for_type t + HciGetPacketLengthForType t b"
    using q tb by (auto simp: framed_def)
  have len: "length (pending s) = 1 + length b + length y" using eq tb by (simp add: h4_encode_def)
  show False
  proof (cases "pk_state (hci_packetizer s)")
    case HCI_PREAMBLE
    have "hci_packet_type s = t" using preamble_short(2) [OF inv u HCI_PREAMBLE, of t] eq tb by (simp add: h4_encode_def)
    then show False using preamble_short(1) [OF inv u HCI_PREAMBLE] len fr(1) by simp
  next
    case HCI_PAYLOAD
    have pt: "t = hci_packet_type s"
      "bytes_read (hci_packetizer s) + bytes_remaining (hci_packetizer s) = HciGetPacketLengthForType t b"
      using payload_total [OF inv u HCI_PAYLOAD, of "[]" t b y] eq tb fr(1) by (auto simp: h4_encode_def)
    have "bytes_read (hci_packetizer s) = 0 \<or> 0 < bytes_remaining (hci_packetizer s)"
      using inv u HCI_PAYLOAD by (simp add: h4_inv_def Let_def)
    moreover have "length (pending s) = 1 + preamble_size_for_type t + bytes_read (hci_packetizer s)"
      using pending_payload_length [OF inv u HCI_PAYLOAD] pt(1) by simp
    ultimately show False using len pt(2) fr by linarith
  qed
qed

section \<open>Properties of the reader\<close>

text \<open>
  C10. However the reads cut the stream, and wherever the run stops, the packets handed to the
  callbacks, each behind its type byte, followed by the part of a packet that is kept in the reader, are
  exactly the bytes received: nothing is lost, repeated or reordered, and every packet handed
  on is as long as its own length field says.
\<close>

theorem h4_packets_are_the_stream:
  assumes "h4_run h4_start fd = Done s"
  shows "list_all framed (h4_out s) \<and> concat (map h4_encode (h4_out s)) @ pending s = bytes_of fd"
proof -
  have "h4_inv s" and "stream s = bytes_of fd"
    using h4_run_stream [OF h4_start_inv(1) assms] h4_start_inv(2) by simp_all
  then show ?thesis by (simp add: h4_inv_def stream_def Let_def)
qed

theorem h4_packets_are_the_stream_witness:
  "\<exists>s. h4_run h4_start [Bytes [4], Again, Bytes [0x0E, 1, 0x77, 4]] = Done s
     \<and> list_all framed (h4_out s)
     \<and> concat (map h4_encode (h4_out s)) @ pending s = [4, 0x0E, 1, 0x77, 4]"
proof -
  have "\<exists>s. h4_run h4_start [Bytes [4], Again, Bytes [0x0E, 1, 0x77, 4]] = Done s"
    by (simp add: h4_run.simps h4_OnDataReady_def h4_type_of_def h4_start_def packetizer_start_def
        packetizer_OnDataReady_def read_preamble_def read_payload_def h4_OnPacketReady_def
        HciGetPacketLengthForType_def write_at_def resize_def)
  then obtain s where "h4_run h4_start [Bytes [4], Again, Bytes [0x0E, 1, 0x77, 4]] = Done s" by blast
  then show ?thesis using h4_packets_are_the_stream [of "[Bytes [4], Again, Bytes [0x0E, 1, 0x77, 4]]" s] by simp
qed

definition quiet :: "fd_event list \<Rightarrow> bool" where
  "quiet fd \<longleftrightarrow> EndOfFile \<notin> set fd \<and> ReadError \<notin> set fd"

lemma read_fd_quiet: "quiet fd \<Longrightarrow> read_fd n fd = Done (d, fd') \<Longrightarrow> quiet fd'"
  by (induction n fd rule: read_fd.induct) (auto simp: quiet_def split: if_splits)

lemma read_fd_Abort: "quiet fd \<Longrightarrow> read_fd n fd = Abort \<Longrightarrow> n = 0"
  by (induction n fd rule: read_fd.induct) (auto simp: quiet_def split: if_splits)

lemma h4_quiet:
  assumes "quiet fd" "h4_OnDataReady s fd = Done (s', fd')"
  shows "quiet fd'"
  using assms
  by (auto simp: h4_OnDataReady_def packetizer_OnDataReady_def read_preamble_def read_payload_def bindh_Done Let_def
      dest: read_fd_quiet split: prod.splits if_splits option.splits pk_state.splits)

lemma read_parts_abort:
  "read_preamble t p fd = Abort \<Longrightarrow> read_fd (preamble_size_for_type t - bytes_read p) fd = Abort"
  "read_payload t p fd = Abort \<Longrightarrow> read_fd (bytes_remaining p) fd = Abort"
  unfolding read_preamble_def read_payload_def
  by (cases "read_fd (preamble_size_for_type t - bytes_read p) fd"; simp add: Let_def split: prod.splits if_splits)
    (cases "read_fd (bytes_remaining p) fd"; simp add: Let_def split: prod.splits if_splits)

text \<open>The only ways to abort on a descriptor without errors.\<close>

lemma h4_abort_cases:
  assumes "h4_inv s" "quiet fd" "h4_OnDataReady s fd = Abort"
  shows "(hci_packet_type s = HCI_PACKET_TYPE_UNKNOWN \<and> (\<exists>b rest. bytes_of fd = b # rest \<and> h4_type_of b = None))
       \<or> (hci_packet_type s \<noteq> HCI_PACKET_TYPE_UNKNOWN \<and> pk_state (hci_packetizer s) = HCI_PAYLOAD
          \<and> bytes_remaining (hci_packetizer s) = 0)"
proof (cases "hci_packet_type s = HCI_PACKET_TYPE_UNKNOWN")
  case True
  show ?thesis
  proof (cases "read_fd 1 fd")
    case (Done r)
    obtain d fd' where r: "r = (d, fd')" by (cases r)
    have rd: "bytes_of fd = d @ bytes_of fd'" "d \<noteq> []" using read_fd_Done Done r by blast+
    have "h4_type_of (hd d) = None"
      using assms(3) True Done r by (auto simp: h4_OnDataReady_def split: option.splits)
    then show ?thesis using True rd by (cases d) auto
  next
    case Abort
    then show ?thesis using read_fd_Abort [OF assms(2)] by fastforce
  next
    case Waiting
    then show ?thesis using assms(3) True by (simp add: h4_OnDataReady_def)
  qed
next
  case False
  have inc: "incoming (hci_packet_type s)" using assms(1) False by (auto simp: h4_inv_def Let_def)
  have ready: "h4_OnPacketReady s1 \<noteq> Abort" if "hci_packet_type s1 = hci_packet_type s" for s1
    using inc that by (auto simp: h4_OnPacketReady_def incoming_def)
  have pk: "packetizer_OnDataReady (hci_packet_type s) (hci_packetizer s) fd = Abort"
  proof (cases "packetizer_OnDataReady (hci_packet_type s) (hci_packetizer s) fd")
    case (Done r)
    then show ?thesis using assms(3) False ready
      by (cases r; cases "h4_OnPacketReady (s\<lparr>hci_packetizer := fst r\<rparr>)")
        (auto simp: h4_OnDataReady_def Let_def split: if_splits)
  qed (use assms(3) False in \<open>simp_all add: h4_OnDataReady_def\<close>)
  show ?thesis
  proof (cases "pk_state (hci_packetizer s)")
    case HCI_PREAMBLE
    have "read_fd (preamble_size_for_type (hci_packet_type s) - bytes_read (hci_packetizer s)) fd = Abort"
      using pk HCI_PREAMBLE by (intro read_parts_abort(1)) (simp add: packetizer_OnDataReady_def)
    then have "preamble_size_for_type (hci_packet_type s) - bytes_read (hci_packetizer s) = 0"
      by (rule read_fd_Abort [OF assms(2)])
    then show ?thesis using assms(1) False HCI_PREAMBLE by (simp add: h4_inv_def Let_def)
  next
    case HCI_PAYLOAD
    have "read_fd (bytes_remaining (hci_packetizer s)) fd = Abort"
      using pk HCI_PAYLOAD by (intro read_parts_abort(2)) (simp add: packetizer_OnDataReady_def)
    then show ?thesis using read_fd_Abort [OF assms(2)] False HCI_PAYLOAD by simp
  qed
qed

lemma unfinished_needs_more:
  assumes inv: "h4_inv s" and st: "hci_packet_type s \<noteq> HCI_PACKET_TYPE_UNKNOWN" "pk_state (hci_packetizer s) = HCI_PAYLOAD"
    and q: "framed q" and eq: "pending s @ x = h4_encode q @ y"
  shows "0 < bytes_remaining (hci_packetizer s)"
proof -
  obtain t b where tb: "q = (t, b)" by (cases q)
  have fr: "length b > preamble_size_for_type t" "length b = preamble_size_for_type t + HciGetPacketLengthForType t b"
    using q tb by (auto simp: framed_def)
  have "bytes_read (hci_packetizer s) + bytes_remaining (hci_packetizer s) = HciGetPacketLengthForType t b"
    using payload_total [OF inv st, of x t b y] eq tb fr(1) by (simp add: h4_encode_def)
  moreover have "bytes_read (hci_packetizer s) = 0 \<or> 0 < bytes_remaining (hci_packetizer s)"
    using inv st by (simp add: h4_inv_def Let_def)
  ultimately show ?thesis using fr by linarith
qed

lemma h4_step_no_abort:
  assumes inv: "h4_inv s" and q: "quiet fd" and fr: "list_all framed pkts"
    and eq: "stream s @ bytes_of fd = concat (map h4_encode pkts)" and ne: "bytes_of fd \<noteq> []"
  shows "h4_OnDataReady s fd \<noteq> Abort"
proof
  assume ab: "h4_OnDataReady s fd = Abort"
  have outs: "list_all framed (h4_out s)" using inv by (simp add: h4_inv_def Let_def)
  have "concat (map h4_encode (h4_out s)) @ (pending s @ bytes_of fd) = concat (map h4_encode pkts) @ []"
    using eq by (simp add: stream_def)
  then obtain cs where cs: "pkts = h4_out s @ cs" "pending s @ bytes_of fd = concat (map h4_encode cs)"
    using framed_lists_compare [OF outs fr] ne by fastforce
  obtain c cs' where c: "cs = c # cs'" "framed c" using cs ne fr by (cases cs) auto
  have whole: "pending s @ bytes_of fd = h4_encode c @ concat (map h4_encode cs')" using cs c by simp
  from h4_abort_cases [OF inv q ab] show False
  proof
    assume u: "hci_packet_type s = HCI_PACKET_TYPE_UNKNOWN \<and> (\<exists>b rest. bytes_of fd = b # rest \<and> h4_type_of b = None)"
    then obtain b rest where b: "bytes_of fd = b # rest" "h4_type_of b = None" by blast
    have "b = h4_byte (fst c)" using whole b u by (simp add: pending_unknown h4_encode_def)
    moreover have "incoming (fst c)" using c(2) by (cases c) (simp add: framed_def)
    ultimately show False using b(2) h4_type_of_byte [of b "fst c"] by simp
  next
    assume "hci_packet_type s \<noteq> HCI_PACKET_TYPE_UNKNOWN \<and> pk_state (hci_packetizer s) = HCI_PAYLOAD
          \<and> bytes_remaining (hci_packetizer s) = 0"
    then show False using unfinished_needs_more [OF inv _ _ c(2) whole] by simp
  qed
qed

lemma read_fd_no_bytes: "bytes_of fd = [] \<Longrightarrow> quiet fd \<Longrightarrow> read_fd n fd = (if n = 0 then Abort else Waiting)"
  by (induction n fd rule: read_fd.induct) (auto simp: quiet_def)

lemma h4_step_no_bytes:
  assumes "h4_inv s" "quiet fd" "bytes_of fd = []" "h4_OnDataReady s fd = Abort"
  shows "hci_packet_type s \<noteq> HCI_PACKET_TYPE_UNKNOWN \<and> pk_state (hci_packetizer s) = HCI_PAYLOAD
          \<and> bytes_remaining (hci_packetizer s) = 0"
  using h4_abort_cases [OF assms(1,2,4)] assms(3) by auto

lemma pending_zero_payload:
  assumes inv: "h4_inv s" and q: "framed q" "list_all framed cs"
    and st: "hci_packet_type s \<noteq> HCI_PACKET_TYPE_UNKNOWN"
    and eq: "pending s = concat (map h4_encode cs)"
  shows False
proof (cases cs)
  case Nil
  then show False using eq st by (simp add: pending_def Let_def)
next
  case (Cons c cs')
  then show False using pending_not_whole [OF inv, of c "concat (map h4_encode cs')"] eq q(2) by simp
qed

lemma h4_run_no_abort:
  "h4_inv s \<Longrightarrow> quiet fd \<Longrightarrow> list_all framed pkts \<Longrightarrow> stream s @ bytes_of fd = concat (map h4_encode pkts) \<Longrightarrow>
    h4_run s fd \<noteq> Abort"
proof (induction s fd rule: h4_run.induct)
  case (1 s fd)
  note run = h4_run.simps [of s fd]
  show ?case
  proof (cases "fd = []")
    case True
    then show ?thesis using run by simp
  next
    case False
    show ?thesis
    proof (cases "h4_OnDataReady s fd")
      case (Done r)
      obtain s1 fd1 where r: "r = (s1, fd1)" by (cases r)
      have step: "h4_OnDataReady s fd = Done (s1, fd1)" using Done r by simp
      have "h4_inv s1" "stream s1 @ bytes_of fd1 = concat (map h4_encode pkts)"
        using h4_step [OF 1(2) step] 1(5) by auto
      then have "h4_run s1 fd1 \<noteq> Abort"
        using 1(1) [OF False Done r [symmetric]] h4_quiet [OF 1(3) step] 1(4) by simp
      then show ?thesis using run step False by simp
    next
      case Abort
      have empty: "bytes_of fd = []" using h4_step_no_abort [OF 1(2,3,4,5)] Abort by blast
      note z = h4_step_no_bytes [OF 1(2,3) empty Abort]
      have outs: "list_all framed (h4_out s)" using 1(2) by (simp add: h4_inv_def Let_def)
      have pend: "pending s \<noteq> []" using z by (simp add: pending_def Let_def)
      have "concat (map h4_encode (h4_out s)) @ pending s = concat (map h4_encode pkts) @ []"
        using 1(5) empty by (simp add: stream_def)
      then obtain cs where "pkts = h4_out s @ cs" "pending s = concat (map h4_encode cs)"
        using framed_lists_compare [OF outs 1(4)] pend by fastforce
      then show ?thesis
        using pending_not_whole [OF 1(2), of "hd cs" "concat (map h4_encode (tl cs))"] pend 1(4) by (cases cs) auto
    next
      case Waiting
      then show ?thesis using run False by simp
    qed
  qed
qed

lemma h4_run_not_waiting: "h4_run s fd \<noteq> Waiting"
proof (induction s fd rule: h4_run.induct)
  case (1 s fd)
  then show ?case by (subst h4_run.simps) (auto split: hci.splits)
qed

text \<open>
  C11. Every sequence of packets with non-empty payloads arrives: however the bytes of their encoding are cut
  into reads and whatever retries come between, the reader does not abort, hands exactly those
  packets to the callbacks, in order, and keeps nothing.
\<close>

theorem h4_delivers_packets:
  assumes "list_all framed pkts" and "quiet fd" and "bytes_of fd = concat (map h4_encode pkts)"
  shows "\<exists>s. h4_run h4_start fd = Done s \<and> h4_out s = pkts \<and> pending s = []"
proof -
  have "h4_run h4_start fd \<noteq> Abort"
    using h4_run_no_abort [OF h4_start_inv(1) assms(2,1)] h4_start_inv(2) assms(3) by simp
  then obtain s where s: "h4_run h4_start fd = Done s"
    using h4_run_not_waiting [of h4_start fd] by (cases "h4_run h4_start fd") auto
  have inv: "h4_inv s" and "stream s = bytes_of fd"
    using h4_run_stream [OF h4_start_inv(1) s] h4_start_inv(2) by simp_all
  then have eq: "concat (map h4_encode (h4_out s)) @ pending s = concat (map h4_encode pkts) @ []"
    using assms(3) by (simp add: stream_def)
  have outs: "list_all framed (h4_out s)" using inv by (simp add: h4_inv_def Let_def)
  have no_whole: "cs = []" if "pending s = concat (map h4_encode cs) @ []" "list_all framed cs" for cs
    using pending_not_whole [OF inv, of "hd cs" "concat (map h4_encode (tl cs))"] that by (cases cs) auto
  from framed_lists_compare [OF outs assms(1) eq] have "h4_out s = pkts \<and> pending s = []"
  proof
    assume "\<exists>cs. pkts = h4_out s @ cs \<and> pending s = concat (map h4_encode cs) @ []"
    then obtain cs where cs: "pkts = h4_out s @ cs" "pending s = concat (map h4_encode cs) @ []" by blast
    then have "cs = []" using no_whole assms(1) by simp
    then show ?thesis using cs by simp
  next
    assume "\<exists>cs. cs \<noteq> [] \<and> h4_out s = pkts @ cs \<and> [] = concat (map h4_encode cs) @ pending s"
    then obtain c cs' where "[] = h4_encode c @ concat (map h4_encode cs') @ pending s"
      by (auto simp: neq_Nil_conv)
    then show ?thesis by (simp add: h4_encode_def)
  qed
  then show ?thesis using s by blast
qed

theorem h4_delivers_packets_witness:
  "\<exists>s. h4_run h4_start [Bytes [4, 0x0E], Again, Bytes [1, 0x77, 2, 1], Bytes [0, 1, 0, 9]] = Done s
     \<and> h4_out s = [(HCI_PACKET_TYPE_EVENT, [0x0E, 1, 0x77]), (HCI_PACKET_TYPE_ACL_DATA, [1, 0, 1, 0, 9])]
     \<and> pending s = []"
  by (rule h4_delivers_packets)
    (simp_all add: framed_def incoming_def HciGetPacketLengthForType_def quiet_def h4_encode_def h4_byte_def)

text \<open>
  C16. A packet whose length field is 0 kills the process when more data comes: after its preamble the
  reader waits for a payload of 0 bytes, reading 0 bytes looks like the end of the file,
  and that is fatal. An HCI event without parameters is such a packet.
\<close>

theorem h4_empty_payload_aborts:
  assumes "list_all framed pkts" and "incoming t" and "length pre = preamble_size_for_type t"
    and "HciGetPacketLengthForType t pre = 0"
    and "bytes_of fd = concat (map h4_encode pkts) @ h4_byte t # pre @ b # rest"
  shows "h4_run h4_start fd = Abort"
proof (rule ccontr)
  assume "h4_run h4_start fd \<noteq> Abort"
  then obtain s where s: "h4_run h4_start fd = Done s"
    using h4_run_not_waiting [of h4_start fd] by (cases "h4_run h4_start fd") auto
  have inv: "h4_inv s" and "stream s = bytes_of fd"
    using h4_run_stream [OF h4_start_inv(1) s] h4_start_inv(2) by simp_all
  then have eq: "concat (map h4_encode (h4_out s)) @ pending s = concat (map h4_encode pkts) @ (h4_byte t # pre @ b # rest)"
    using assms(5) by (simp add: stream_def)
  have outs: "list_all framed (h4_out s)" using inv by (simp add: h4_inv_def Let_def)
  from framed_lists_compare [OF outs assms(1) eq] show False
  proof
    assume "\<exists>cs. pkts = h4_out s @ cs \<and> pending s = concat (map h4_encode cs) @ (h4_byte t # pre @ b # rest)"
    then obtain cs where cs: "pkts = h4_out s @ cs" "pending s = concat (map h4_encode cs) @ (h4_byte t # pre @ b # rest)"
      by blast
    have "cs = []"
      using pending_not_whole [OF inv, of "hd cs" "concat (map h4_encode (tl cs)) @ (h4_byte t # pre @ b # rest)"] cs assms(1)
      by (cases cs) auto
    then have p: "pending s = h4_byte t # pre @ b # rest" using cs by simp
    have u: "hci_packet_type s \<noteq> HCI_PACKET_TYPE_UNKNOWN" using p pending_unknown by auto
    show False
    proof (cases "pk_state (hci_packetizer s)")
      case HCI_PREAMBLE
      have "hci_packet_type s = t" using preamble_short(2) [OF inv u HCI_PREAMBLE, of t] p by simp
      then show False using preamble_short(1) [OF inv u HCI_PREAMBLE] p assms(3) by simp
    next
      case HCI_PAYLOAD
      have "t = hci_packet_type s" and "bytes_read (hci_packetizer s) = 0"
        using payload_total [OF inv u HCI_PAYLOAD, of "[]" t pre "b # rest"] p assms(3,4) by auto
      then show False using pending_payload_length [OF inv u HCI_PAYLOAD] p assms(3) by simp
    qed
  next
    assume "\<exists>cs. cs \<noteq> [] \<and> h4_out s = pkts @ cs \<and> h4_byte t # pre @ b # rest = concat (map h4_encode cs) @ pending s"
    then obtain c cs where c: "h4_out s = pkts @ c # cs"
      "h4_byte t # pre @ b # rest = h4_encode c @ concat (map h4_encode cs) @ pending s"
      by (auto simp: neq_Nil_conv)
    obtain u q where uq: "c = (u, q)" by (cases c)
    have fr: "framed (u, q)" using outs c uq by simp
    have "u = t" and body: "pre @ b # rest = q @ concat (map h4_encode cs) @ pending s"
      using c uq h4_byte_inj by (auto simp: h4_encode_def)
    have "take (preamble_size_for_type t) (q @ concat (map h4_encode cs) @ pending s) = take (preamble_size_for_type t) q"
      using fr \<open>u = t\<close> by (simp add: framed_def)
    moreover have "take (preamble_size_for_type t) (pre @ b # rest) = take (preamble_size_for_type t) pre"
      using assms(3) by simp
    ultimately have "take (preamble_size_for_type t) q = take (preamble_size_for_type t) pre" by (simp only: body)
    then have "HciGetPacketLengthForType t q = 0" using packet_length_cong [OF assms(2)] assms(4) by metis
    then show False using fr \<open>u = t\<close> by (auto simp: framed_def)
  qed
qed

theorem h4_empty_payload_aborts_witness: "h4_run h4_start [Bytes [4, 0x10, 0, 4]] = Abort"
  by (rule h4_empty_payload_aborts [of "[]" HCI_PACKET_TYPE_EVENT "[0x10, 0]" _ 4 "[]"])
    (simp_all add: incoming_def HciGetPacketLengthForType_def h4_byte_def)

section \<open>Writing\<close>

definition head_full :: "u8 list list \<Rightarrow> bool" where
  "head_full iov \<longleftrightarrow> (case iov of [] \<Rightarrow> True | v # vs \<Rightarrow> v \<noteq> [])"

lemma consume_iov_concat: "r \<le> length (concat iov) \<Longrightarrow> concat (consume_iov r iov) = drop r (concat iov) \<and> head_full (consume_iov r iov)"
  by (induction r iov rule: consume_iov.induct) (auto simp: head_full_def)

lemma WritevSafely_result:
  assumes "head_full iov" "WritevSafely ws iov = (st, n, sent)"
  shows "sent = take n (concat iov) \<and> n \<le> length (concat iov) \<and> (st = Sent \<longleftrightarrow> n = length (concat iov))"
  using assms
proof (induction ws arbitrary: iov st n sent)
  case Nil
  then show ?case by (cases iov) (auto simp: head_full_def split: if_splits)
next
  case (Cons w ws)
  show ?case
  proof (cases "iov = []")
    case True
    then show ?thesis using Cons.prems by simp
  next
    case False
    then have ne: "concat iov \<noteq> []" using Cons.prems(1) by (cases iov) (auto simp: head_full_def)
    show ?thesis
    proof (cases w)
      case (Wrote k)
      define d where "d = take k (concat iov)"
      have td: "take k (concat iov) = d" by (simp add: d_def)
      show ?thesis
      proof (cases "d = []")
        case True
        then show ?thesis using Cons.prems(2) False Wrote ne td by (simp add: Let_def)
      next
        case d: False
        obtain st' n' sent' where rec: "WritevSafely ws (consume_iov (length d) iov) = (st', n', sent')"
          by (metis prod_cases3)
        have r: "st = st'" "n = length d + n'" "sent = d @ sent'"
          using Cons.prems(2) False Wrote d rec by (simp_all add: td Let_def del: length_take)
        have len: "length d \<le> length (concat iov)" by (simp add: d_def)
        have dd: "d = take (length d) (concat iov)" by (auto simp: d_def min_def)
        note c = consume_iov_concat [OF len]
        have IH: "sent' = take n' (drop (length d) (concat iov))" "n' \<le> length (concat iov) - length d"
          "st' = Sent \<longleftrightarrow> n' = length (concat iov) - length d"
          using Cons.IH [OF _ rec] c by simp_all
        have "sent = take n (concat iov)" unfolding r IH(1) take_add using dd by simp
        then show ?thesis using IH(2,3) r(1,2) len by auto
      qed
    qed (use Cons False ne in \<open>simp_all\<close>)
  qed
qed

text \<open>
  Sending with \<open>writev\<close>, however the kernel splits the writes: what the controller got is the type byte and
  the packet up to the count that is returned, never a byte twice or out of order, and sending succeeds exactly
  when that count is the whole.
\<close>

theorem h4_Send_prefix:
  "case h4_Send ws type data of (st, n, sent) \<Rightarrow>
     sent = take n (type # data) \<and> n \<le> Suc (length data) \<and> (st = Sent \<longleftrightarrow> n = Suc (length data))"
  using WritevSafely_result [of "[[type], data]" ws]
  by (cases "h4_Send ws type data") (simp add: h4_Send_def head_full_def)

end
