(* ===== verification/BtDebug.thy ===== *)
theory BtDebug
  imports CLib
begin

text \<open>
  \<open>mediatek/hci_hal_debugger.cc\<close> (the archive of the last packets and the trigger of a firmware dump)
  and \<open>bluetooth_address.cc\<close> under \<open>src/proprietary/hardware/interfaces/bluetooth/\<close>. The time tag,
  the vendor's library, properties and files are parameters.
\<close>

section \<open>The archive of packets\<close>

datatype PacketDirectionType = kTx | kRx

record debug_packet =
  dir_type :: PacketDirectionType
  packet_type :: u8
  dp_data :: "u8 list"
  data_length :: u16
  time_tag :: string

definition kCircularSize :: nat where "kCircularSize = 30"

definition kMaxDumpPacketDataLength :: nat where "kMaxDumpPacketDataLength = 16"

record hci_debugger =
  packets_info :: "debug_packet list"
  head_index :: nat
  packet_count :: int
  is_bt_hal_debug_on :: bool
  is_coredump_set :: bool
  dbg_lib_interface :: bool

definition no_packet :: debug_packet where
  "no_packet = \<lparr>dir_type = kTx, packet_type = 0, dp_data = [], data_length = 0, time_tag = []\<rparr>"

definition hci_debugger_start :: hci_debugger where
  "hci_debugger_start = \<lparr>packets_info = replicate kCircularSize no_packet, head_index = 0, packet_count = 0,
     is_bt_hal_debug_on = False, is_coredump_set = False, dbg_lib_interface = False\<rparr>"

definition debug_packet_of :: "PacketDirectionType \<Rightarrow> u8 \<Rightarrow> u8 list \<Rightarrow> u16 \<Rightarrow> string \<Rightarrow> debug_packet" where
  "debug_packet_of dir type data len tag =
     (let dump_len = (if unat len < kMaxDumpPacketDataLength then unat len else kMaxDumpPacketDataLength)
      in \<lparr>dir_type = dir, packet_type = type, dp_data = take dump_len data, data_length = len, time_tag = tag\<rparr>)"

definition store_packet :: "debug_packet \<Rightarrow> hci_debugger \<Rightarrow> hci_debugger" where
  "store_packet p s =
     (let h = nat (packet_count s) mod kCircularSize;
          c = (if packet_count s + 1 = INT32_MAX then 0 else packet_count s)
      in s\<lparr>head_index := h, packets_info := (packets_info s)[h := p], packet_count := c + 1\<rparr>)"

definition Archive :: "PacketDirectionType \<Rightarrow> u8 \<Rightarrow> u8 list \<Rightarrow> u16 \<Rightarrow> string \<Rightarrow> hci_debugger \<Rightarrow> hci_debugger" where
  "Archive dir type data len tag s = store_packet (debug_packet_of dir type data len tag) s"

text \<open>The packets in the order they are logged.\<close>

definition OnNotify :: "hci_debugger \<Rightarrow> debug_packet list" where
  "OnNotify s = drop (head_index s) (packets_info s) @ take (head_index s) (packets_info s)"

definition RefreshHalDebugState :: "string option \<Rightarrow> hci_debugger \<Rightarrow> hci_debugger" where
  "RefreshHalDebugState property s =
     (case property of None \<Rightarrow> s
      | Some p \<Rightarrow> if strncmp_eq ''true'' p 4 then s\<lparr>is_bt_hal_debug_on := True\<rparr> else s)"

definition RefreshVendorInterface :: "bool \<Rightarrow> hci_debugger \<Rightarrow> hci_debugger" where
  "RefreshVendorInterface interface s = s\<lparr>dbg_lib_interface := interface, is_coredump_set := False\<rparr>"

text \<open>\<open>lib_op\<close> is the result of \<open>BT_VND_OP_SET_FW_ASSERT\<close>; the last component says whether it was called.\<close>

definition TriggerFirmwareAssert :: "(int \<Rightarrow> int) \<Rightarrow> int \<Rightarrow> hci_debugger \<Rightarrow> bool \<times> hci_debugger \<times> bool" where
  "TriggerFirmwareAssert lib_op reason s =
     (if is_coredump_set s then (False, s, False)
      else if \<not> dbg_lib_interface s then (False, s, False)
      else if lib_op reason = 0 then (True, s\<lparr>is_coredump_set := True\<rparr>, True)
      else (False, s, True))"

text \<open>\<open>BtHciDebugBulletinImpl::Check\<close>: whether the observers are told; \<open>None\<close>: it read past the data.\<close>

definition HandleTxData :: "u8 list \<Rightarrow> bool option" where
  "HandleTxData data = (if length data < 4 then None else Some (data ! 0 = 0x5B \<and> data ! 1 = 0xFD))"

definition bulletin_Check :: "PacketDirectionType \<Rightarrow> u8 list \<Rightarrow> bool option" where
  "bulletin_Check dir data = (if dir = kTx then HandleTxData data else Some False)"

section \<open>Bluetooth addresses\<close>

definition kStringLength :: nat where "kStringLength = 17"

definition bytes_to_string :: "u8 list \<Rightarrow> string" where
  "bytes_to_string addr =
     print_02x (addr ! 0) @ '':'' @ print_02x (addr ! 1) @ '':'' @ print_02x (addr ! 2) @ '':''
       @ print_02x (addr ! 3) @ '':'' @ print_02x (addr ! 4) @ '':'' @ print_02x (addr ! 5)"

text \<open>\<open>%02hhx\<close> of \<open>sscanf\<close>: white space is skipped, then at most two characters, a sign among them.\<close>

definition scan_hhx :: "string \<Rightarrow> (u8 \<times> string) option" where
  "scan_hhx s =
     (let s1 = dropWhile c_isspace s; (neg, w) = strip_sign (take 2 s1);
          hs = takeWhile (is_digit 16) w; n = digits_val 16 0 hs;
          sign_len = length (take 2 s1) - length w
      in if hs = [] then None
         else Some (if neg then - of_nat n else of_nat n, drop (sign_len + length hs) s1))"

text \<open>
  The format of six bytes and a trailing character: how many fields were converted, and the bytes
  stored so far; \<open>n\<close> bytes are still to come.
\<close>

fun scan_address :: "nat \<Rightarrow> string \<Rightarrow> u8 list \<Rightarrow> nat \<times> u8 list" where
  "scan_address 0 s acc = (length acc + (if s = [] then 0 else 1), acc)"
| "scan_address (Suc n) s acc =
     (let s1 = (if acc = [] then Some s else (case s of [] \<Rightarrow> None | c # r \<Rightarrow> if c = CHR '':'' then Some r else None))
      in case s1 of None \<Rightarrow> (length acc, acc)
         | Some r \<Rightarrow>
             (case scan_hhx r of None \<Rightarrow> (length acc, acc)
              | Some (b, r') \<Rightarrow> scan_address n r' (acc @ [b])))"

text \<open>The second component is the array after the call: converted bytes replace the old ones.\<close>

definition string_to_bytes :: "string option \<Rightarrow> u8 list \<Rightarrow> bool \<times> u8 list" where
  "string_to_bytes addr_str addr =
     (case addr_str of None \<Rightarrow> (False, addr)
      | Some s \<Rightarrow>
          if length s < kStringLength then (False, addr)
          else let (n, bs) = scan_address 6 s [] in (n = 6, bs @ drop (length bs) addr))"

text \<open>
  The properties and the file with the address; the file is the text of one \<open>read\<close> of 17
  characters, \<open>Some None\<close> when reading failed.
\<close>

record address_env =
  prop_bdaddr_path :: "string option"
  address_file :: "string \<Rightarrow> string option option"
  prop_factory :: "string option"
  prop_persist :: "string option"

definition file_address :: "address_env \<Rightarrow> u8 list \<Rightarrow> bool \<times> u8 list" where
  "file_address e local_addr =
     (case prop_bdaddr_path e of None \<Rightarrow> (False, local_addr)
      | Some path \<Rightarrow>
         (case address_file e path of None \<Rightarrow> (False, local_addr)
          | Some content \<Rightarrow>
              let address = (case content of None \<Rightarrow> [] | Some t \<Rightarrow> takeWhile (\<lambda>c. c \<noteq> NUL) (take kStringLength t));
                  (ok, bs) = string_to_bytes (Some address) local_addr
              in (ok \<and> bs \<noteq> replicate 6 0, bs)))"

definition property_address :: "string option \<Rightarrow> u8 list \<Rightarrow> bool \<times> u8 list" where
  "property_address prop local_addr = (if prop = None then (False, local_addr) else string_to_bytes prop local_addr)"

definition get_local_address :: "address_env \<Rightarrow> u8 list \<Rightarrow> bool \<times> u8 list" where
  "get_local_address e local_addr =
     (let (ok, a) = file_address e local_addr
      in if ok then (True, a)
         else let (ok1, a1) = property_address (prop_factory e) a
         in if ok1 then (True, a1)
            else let (ok2, a2) = property_address (prop_persist e) a1 in (ok2, a2))"

end
