(* ===== verification/BtHal.thy ===== *)
theory BtHal
  imports HciStream BtDebug
begin

text \<open>
  The Bluetooth HAL under \<open>src/proprietary/hardware/interfaces/bluetooth/\<close>: \<open>vendor_interface.cc\<close> (the
  interface to the vendor's library and to the controller), \<open>mediatek/hci_hal_state_machine.cc\<close> and
  \<open>bluetooth_hci.cc\<close> (the service's entry points, in the build with the state machine). The vendor's
  library, the property service and the client of the service are parameters. \<open>Fail\<close> is the end of
  the process by \<open>LOG_ALWAYS_FATAL\<close>, \<open>Fault\<close> an access through a bad pointer.
\<close>

section \<open>State\<close>

text \<open>The calls of the vendor's library, the packets handed to the protocol and the calls of the client.\<close>

datatype bt_event =
  LibInit "u8 list" | LibCleanup
| PowerCtrl bool | UserialOpen | UserialClose | FwCfg | GetLpmIdleTimeout | LpmSetMode bool
| LpmWakeSetState bool \<comment> \<open>true: assert\<close>
| HciSend u8 "u8 list"
| InitializationComplete bool
| HciEventReceived "u8 list"
| InternalEvent "u8 list" \<comment> \<open>the vendor library's callback for its own command\<close>

datatype bt_protocol = H4_PROTOCOL | MCT_PROTOCOL

datatype timeout_cb = NoTimeout | OnTimeoutCb | ZeroTimeoutCb

text \<open>The object behind \<open>g_vendor_interface\<close>.\<close>

record vendor =
  lib_handle :: bool
  lib_interface :: bool
  initialize_complete_cb :: bool
  hci :: "bt_protocol option"
  firmware_startup_timer :: bool
  watching :: bool
  timeout_cb :: timeout_cb
  timeout_ms :: u32

definition new_vendor :: vendor where
  "new_vendor = \<lparr>lib_handle = False, lib_interface = False, initialize_complete_cb = False, hci = None,
     firmware_startup_timer = False, watching = False, timeout_cb = NoTimeout, timeout_ms = 0\<rparr>"

datatype BtHalStateMessage = kIdleMsg | kOnMsg | kOffMsg

record bt =
  g_vendor_interface :: "vendor option"
  lpm_wake_deasserted :: bool
  lpm_timeout_ms :: u32
  recent_activity_flag :: bool
  internal_command :: "bool \<times> u16" \<comment> \<open>whether there is a callback, and the opcode\<close>
  trace :: "bt_event list"
  controller_cb :: bool
  current_state :: BtHalStateMessage
  messages :: "BtHalStateMessage list"
  unlink_cb :: bool

definition bt_start :: bt where
  "bt_start = \<lparr>g_vendor_interface = None, lpm_wake_deasserted = False, lpm_timeout_ms = 0, recent_activity_flag = False,
     internal_command = (False, 0), trace = [], controller_cb = False, current_state = kIdleMsg, messages = [],
     unlink_cb = False\<rparr>"

text \<open>\<open>be_lib_event\<close>: the commands the library's callback sends when it gets an event of its own.\<close>

record bt_env =
  be_dlopen :: bool
  be_dlsym :: bool
  be_address :: address_env
  be_lib_init :: int
  be_userial_open :: "int \<times> int list"
  be_idle_timeout :: u32
  be_lib_event :: "u8 list \<Rightarrow> (u16 \<times> u8 list) list"

definition emit :: "bt_event \<Rightarrow> bt \<Rightarrow> bt" where
  "emit ev s = s\<lparr>trace := trace s @ [ev]\<rparr>"

section \<open>VendorInterface\<close>

definition set_vendor :: "vendor \<Rightarrow> bt \<Rightarrow> bt" where
  "set_vendor v s = s\<lparr>g_vendor_interface := Some v\<rparr>"

text \<open>\<open>Open\<close>: the descriptors must be valid and one or up to three.\<close>

definition valid_fds :: "int \<times> int list \<Rightarrow> bool" where
  "valid_fds r \<longleftrightarrow> (case r of (n, fds) \<Rightarrow> 1 \<le> n \<and> n \<le> 4 - 1 \<and> (\<forall>fd \<in> set (take (nat n) fds). fd \<noteq> -1))"

definition Open :: "bt_env \<Rightarrow> vendor \<Rightarrow> bt \<Rightarrow> bool \<times> bt" where
  "Open e v0 s =
     (let v1 = v0\<lparr>initialize_complete_cb := True\<rparr>; s1 = set_vendor v1 s
      in if \<not> be_dlopen e then (False, s1)
      else let v2 = v1\<lparr>lib_handle := True\<rparr>; s2 = set_vendor v2 s1
      in if \<not> be_dlsym e then (False, s2)
      else let v3 = v2\<lparr>lib_interface := True\<rparr>; s3 = emit (LibInit (snd (get_local_address (be_address e) (replicate 6 0)))) (set_vendor v3 s2)
      in if be_lib_init e \<noteq> 0 then (False, s3)
      else let s4 = emit UserialOpen (emit (PowerCtrl True) s3)
      in if \<not> valid_fds (be_userial_open e) then (False, s4)
      else
        let v5 = v3\<lparr>watching := True,
                    hci := Some (if fst (be_userial_open e) = 1 then H4_PROTOCOL else MCT_PROTOCOL),
                    firmware_startup_timer := True\<rparr>
        in (True, emit FwCfg ((set_vendor v5 s4)\<lparr>lpm_wake_deasserted := True\<rparr>)))"

definition Initialize :: "bt_env \<Rightarrow> bt \<Rightarrow> bool \<times> bt" where
  "Initialize e s = (if g_vendor_interface s \<noteq> None then (False, s) else Open e new_vendor s)"

definition Close :: "vendor \<Rightarrow> bt \<Rightarrow> vendor \<times> bt" where
  "Close v s =
     (let s1 = (if lib_interface v then emit (LpmSetMode False) s else s);
          v1 = v\<lparr>watching := False, timeout_cb := (if watching v then NoTimeout else timeout_cb v), hci := None\<rparr>;
          s2 = (if lib_interface v then emit LibCleanup (emit (PowerCtrl False) (emit UserialClose s1)) else s1)
      in (v1\<lparr>lib_handle := False, firmware_startup_timer := False\<rparr>, s2))"

definition Shutdown :: "bt \<Rightarrow> bt outcome" where
  "Shutdown s =
     (case g_vendor_interface s of None \<Rightarrow> Fail
      | Some v \<Rightarrow> let (v', s') = Close v s in Ok (s'\<lparr>g_vendor_interface := None\<rparr>))"

text \<open>
  \<open>VendorInterface::get()->Send\<close>. Without an object the call goes through a null pointer; the wake-up
  goes through \<open>lib_interface_\<close>.
\<close>

definition Send :: "u8 \<Rightarrow> u8 list \<Rightarrow> bt \<Rightarrow> bt outcome" where
  "Send type data s =
     (case g_vendor_interface s of None \<Rightarrow> Fault
      | Some v \<Rightarrow>
          let s1 = s\<lparr>recent_activity_flag := True\<rparr>;
              send = (\<lambda>s. if hci v = None then s else emit (HciSend type data) s)
          in if lpm_wake_deasserted s1 then
               if \<not> lib_interface v then Fault
               else
                 let s2 = (set_vendor (v\<lparr>timeout_cb := OnTimeoutCb, timeout_ms := lpm_timeout_ms s1\<rparr>) s1)\<lparr>lpm_wake_deasserted := False\<rparr>
                 in Ok (send (emit (LpmWakeSetState True) s2))
             else Ok (send s1))"

definition OnFirmwareConfigured :: "bt_env \<Rightarrow> u8 \<Rightarrow> bt \<Rightarrow> bt outcome" where
  "OnFirmwareConfigured e result s =
     (case g_vendor_interface s of None \<Rightarrow> Fault
      | Some v \<Rightarrow>
          if initialize_complete_cb v \<and> result \<noteq> 0 then Fail
          else if \<not> lib_interface v then Fault
          else
            let v1 = v\<lparr>firmware_startup_timer := False, initialize_complete_cb := False\<rparr>;
                s1 = (if initialize_complete_cb v then emit (InitializationComplete True) s else s);
                s2 = (emit GetLpmIdleTimeout s1)\<lparr>lpm_timeout_ms := be_idle_timeout e\<rparr>;
                s3 = emit (LpmSetMode True) s2
            in Ok (set_vendor (v1\<lparr>timeout_cb := OnTimeoutCb, timeout_ms := lpm_timeout_ms s3\<rparr>) s3))"

definition OnTimeout :: "bt \<Rightarrow> bt outcome" where
  "OnTimeout s =
     (case g_vendor_interface s of None \<Rightarrow> Fault
      | Some v \<Rightarrow>
          if \<not> recent_activity_flag s then
            if \<not> lib_interface v then Fault
            else
              let s1 = emit (LpmWakeSetState False) (s\<lparr>lpm_wake_deasserted := True\<rparr>)
              in Ok ((set_vendor (v\<lparr>timeout_cb := ZeroTimeoutCb, timeout_ms := 0\<rparr>) s1)\<lparr>recent_activity_flag := False\<rparr>)
          else Ok (s\<lparr>recent_activity_flag := False\<rparr>))"

text \<open>The watcher's thread calls the time-out callback only while the time is positive.\<close>

definition timer_fires :: "bt \<Rightarrow> bt outcome" where
  "timer_fires s =
     (case g_vendor_interface s of None \<Rightarrow> Ok s
      | Some v \<Rightarrow> if watching v \<and> timeout_ms v > 0 \<and> timeout_cb v = OnTimeoutCb then OnTimeout s else Ok s)"

definition transmit_cb :: "u16 \<Rightarrow> u8 list \<Rightarrow> bt \<Rightarrow> bt outcome" where
  "transmit_cb opcode data s = Send 1 data (s\<lparr>internal_command := (True, opcode)\<rparr>)"

fun transmit_all :: "(u16 \<times> u8 list) list \<Rightarrow> bt \<Rightarrow> bt outcome" where
  "transmit_all [] s = Ok s"
| "transmit_all ((opcode, data) # cs) s = bindo (transmit_cb opcode data s) (transmit_all cs)"

text \<open>\<open>None\<close>: the packet is read past its end.\<close>

definition internal_command_event_match :: "u16 \<Rightarrow> u8 list \<Rightarrow> bool option" where
  "internal_command_event_match opcode pkt =
     (if length pkt < 1 then None
      else if pkt ! 0 \<noteq> 0x0E then Some False
      else if length pkt < 5 then None
      else Some ((ucast (pkt ! 3) OR push_bit 8 (ucast (pkt ! 4))) = opcode))"

definition HandleIncomingEvent :: "bt_env \<Rightarrow> u8 list \<Rightarrow> bt \<Rightarrow> bt outcome" where
  "HandleIncomingEvent e hci_packet s =
     (let to_stack = Ok (emit (HciEventReceived hci_packet) s)
      in if \<not> fst (internal_command s) then to_stack
         else case internal_command_event_match (snd (internal_command s)) hci_packet of
           None \<Rightarrow> Fault
         | Some False \<Rightarrow> to_stack
         | Some True \<Rightarrow>
             transmit_all (be_lib_event e hci_packet)
               (emit (InternalEvent hci_packet) (s\<lparr>internal_command := (False, snd (internal_command s))\<rparr>)))"

section \<open>State machine\<close>

definition TurnOn :: "bt_env \<Rightarrow> bt \<Rightarrow> bt outcome" where
  "TurnOn e s =
     (let (rc, s1) = Initialize e s
      in if rc then Ok s1
         else if \<not> controller_cb s1 then Fault
         else Ok (emit (InitializationComplete False) s1))"

text \<open>\<open>Handle\<close> of the three states: whether the request was done, after the calls it made.\<close>

definition state_Handle :: "bt_env \<Rightarrow> BtHalStateMessage \<Rightarrow> BtHalStateMessage \<Rightarrow> bt \<Rightarrow> (bool \<times> bt) outcome" where
  "state_Handle e st request s =
     (case st of
        kOnMsg \<Rightarrow>
          (case request of
             kOffMsg \<Rightarrow> bindo (Shutdown s) (\<lambda>s1. Ok (True, s1))
           | kOnMsg \<Rightarrow> bindo (Shutdown s) (\<lambda>s1. bindo (TurnOn e s1) (\<lambda>s2. Ok (True, s2)))
           | kIdleMsg \<Rightarrow> Ok (False, s))
      | _ \<Rightarrow> if request = kOnMsg then bindo (TurnOn e s) (\<lambda>s1. Ok (True, s1)) else Ok (False, s))"

definition handleMessage :: "bt_env \<Rightarrow> BtHalStateMessage \<Rightarrow> bt \<Rightarrow> bt outcome" where
  "handleMessage e message s =
     bindo (state_Handle e (current_state s) message s) (\<lambda>(ok, s1).
       Ok (if ok then s1\<lparr>current_state := message\<rparr> else s1))"

definition Transit :: "BtHalStateMessage \<Rightarrow> bt \<Rightarrow> bt" where
  "Transit m s = s\<lparr>messages := messages s @ [m]\<rparr>"

section \<open>BluetoothHci\<close>

definition initialize :: "bool \<Rightarrow> bt \<Rightarrow> bt" where
  "initialize cb s = (if \<not> cb then s else Transit kOnMsg (s\<lparr>unlink_cb := True, controller_cb := True\<rparr>))"

text \<open>Calling an empty \<open>std::function\<close> throws, which ends the process.\<close>

definition hci_close :: "bt \<Rightarrow> bt outcome" where
  "hci_close s = (if \<not> unlink_cb s then Fail else Ok (Transit kOffMsg s))"

definition serviceDied :: "bt \<Rightarrow> bt outcome" where
  "serviceDied s = (if \<not> unlink_cb s then Fail else Ok (Transit kOffMsg s))"

definition sendDataToController :: "u8 \<Rightarrow> u8 list \<Rightarrow> bt \<Rightarrow> bt outcome" where
  "sendDataToController type data s = Send type data s"

end
