(* ===== verification/BtThreads.thy ===== *)
theory BtThreads
  imports BtHal
begin

text \<open>
  The threads of the Bluetooth HAL. Entry points of the client run on the binder threads, requests for power on the
  looper, time-outs on the watcher's thread, and the vendor library calls back from its own. No lock is held across
  \<open>Send\<close> or \<open>OnTimeout\<close> (only \<open>ConfigureTimeout\<close> is atomic, by its mutex), so their parts interleave;
  \<open>lpm_wake_deasserted\<close>, \<open>recent_activity_flag\<close> and the timer are shared. Here are the parts, in the code's order, the
  proof that run in sequence they are the calls of theory BtHal, and every interleaving of them as a step relation.
\<close>

section \<open>The parts of the two calls\<close>

datatype send_pc = Mark_activity | Test_wake | Restart_timer | Clear_deasserted | Assert_wake | Hand_over

fun send_part :: "send_pc \<Rightarrow> u8 \<Rightarrow> u8 list \<Rightarrow> vendor \<Rightarrow> bt \<Rightarrow> (send_pc option \<times> bt) outcome" where
  "send_part Mark_activity type data v s = Ok (Some Test_wake, s\<lparr>recent_activity_flag := True\<rparr>)"
| "send_part Test_wake type data v s = Ok (Some (if lpm_wake_deasserted s then Restart_timer else Hand_over), s)"
| "send_part Restart_timer type data v s =
     Ok (Some Clear_deasserted, set_vendor (v\<lparr>timeout_cb := OnTimeoutCb, timeout_ms := lpm_timeout_ms s\<rparr>) s)"
| "send_part Clear_deasserted type data v s = Ok (Some Assert_wake, s\<lparr>lpm_wake_deasserted := False\<rparr>)"
| "send_part Assert_wake type data v s =
     (if \<not> lib_interface v then Fault else Ok (Some Hand_over, emit (LpmWakeSetState True) s))"
| "send_part Hand_over type data v s = Ok (None, if hci v = None then s else emit (HciSend type data) s)"

definition send_step :: "send_pc \<Rightarrow> u8 \<Rightarrow> u8 list \<Rightarrow> bt \<Rightarrow> (send_pc option \<times> bt) outcome" where
  "send_step pc type data s =
     (case g_vendor_interface s of None \<Rightarrow> Fault | Some v \<Rightarrow> send_part pc type data v s)"

datatype timer_pc = Test_activity | Set_deasserted | Deassert_wake | Stop_timer | Clear_activity

fun timer_part :: "timer_pc \<Rightarrow> vendor \<Rightarrow> bt \<Rightarrow> (timer_pc option \<times> bt) outcome" where
  "timer_part Test_activity v s = Ok (Some (if recent_activity_flag s then Clear_activity else Set_deasserted), s)"
| "timer_part Set_deasserted v s = Ok (Some Deassert_wake, s\<lparr>lpm_wake_deasserted := True\<rparr>)"
| "timer_part Deassert_wake v s =
     (if \<not> lib_interface v then Fault else Ok (Some Stop_timer, emit (LpmWakeSetState False) s))"
| "timer_part Stop_timer v s = Ok (Some Clear_activity, set_vendor (v\<lparr>timeout_cb := ZeroTimeoutCb, timeout_ms := 0\<rparr>) s)"
| "timer_part Clear_activity v s = Ok (None, s\<lparr>recent_activity_flag := False\<rparr>)"

definition timer_step :: "timer_pc \<Rightarrow> bt \<Rightarrow> (timer_pc option \<times> bt) outcome" where
  "timer_step pc s = (case g_vendor_interface s of None \<Rightarrow> Fault | Some v \<Rightarrow> timer_part pc v s)"

text \<open>The parts one after the other, with nothing in between. Six and five parts are the longest runs.\<close>

fun run_send :: "nat \<Rightarrow> send_pc \<Rightarrow> u8 \<Rightarrow> u8 list \<Rightarrow> bt \<Rightarrow> bt outcome" where
  "run_send 0 pc type data s = Fail"
| "run_send (Suc n) pc type data s =
     bindo (send_step pc type data s) (\<lambda>(next, s').
       case next of None \<Rightarrow> Ok s' | Some pc' \<Rightarrow> run_send n pc' type data s')"

fun run_timer :: "nat \<Rightarrow> timer_pc \<Rightarrow> bt \<Rightarrow> bt outcome" where
  "run_timer 0 pc s = Fail"
| "run_timer (Suc n) pc s =
     bindo (timer_step pc s) (\<lambda>(next, s'). case next of None \<Rightarrow> Ok s' | Some pc' \<Rightarrow> run_timer n pc' s')"

lemma run_send_is_Send: "run_send 6 Mark_activity type data s = Send type data s"
  by (simp add: eval_nat_numeral Send_def send_step_def set_vendor_def emit_def Let_def split: option.split)

lemma run_timer_is_OnTimeout: "run_timer 5 Test_activity s = OnTimeout s"
  by (simp add: eval_nat_numeral OnTimeout_def timer_step_def set_vendor_def emit_def Let_def split: option.split)

text \<open>
  An event of the controller; the commands the vendor library sends when it gets one of its own are calls of their own.
\<close>

definition event_arrives :: "u8 list \<Rightarrow> bt \<Rightarrow> bt outcome" where
  "event_arrives pkt s =
     (if \<not> fst (internal_command s) then Ok (emit (HciEventReceived pkt) s)
      else case internal_command_event_match (snd (internal_command s)) pkt of
        None \<Rightarrow> Fault
      | Some False \<Rightarrow> Ok (emit (HciEventReceived pkt) s)
      | Some True \<Rightarrow> Ok (emit (InternalEvent pkt) (s\<lparr>internal_command := (False, snd (internal_command s))\<rparr>)))"

lemma event_then_commands:
  "HandleIncomingEvent e pkt s =
     bindo (event_arrives pkt s) (transmit_all
       (if fst (internal_command s) \<and> internal_command_event_match (snd (internal_command s)) pkt = Some True
        then be_lib_event e pkt else []))"
  by (auto simp: HandleIncomingEvent_def event_arrives_def Let_def split: option.split bool.split)

section \<open>Every interleaving\<close>

text \<open>
  The calls of \<open>Send\<close> that have begun and not returned, and the one of \<open>OnTimeout\<close> (there is one watcher). The
  code has no \<open>overlapped\<close>: it records that a call, or a change of the power, began while another call was running.
\<close>

record bt_threads =
  shared :: bt
  sending :: "(u8 \<times> u8 list \<times> send_pc) list"
  timing :: "timer_pc option"
  overlapped :: bool

definition threads_start :: bt_threads where
  "threads_start = \<lparr>shared = bt_start, sending = [], timing = None, overlapped = False\<rparr>"

definition calls_running :: "bt_threads \<Rightarrow> bool" where
  "calls_running t \<longleftrightarrow> sending t \<noteq> [] \<or> timing t \<noteq> None"

definition begin_send :: "u8 \<Rightarrow> u8 list \<Rightarrow> bt_threads \<Rightarrow> bt_threads" where
  "begin_send type data t =
     t\<lparr>sending := sending t @ [(type, data, Mark_activity)], overlapped := overlapped t \<or> calls_running t\<rparr>"

definition send_moves :: "nat \<Rightarrow> bt_threads \<Rightarrow> bt_threads outcome" where
  "send_moves i t =
     (case sending t ! i of (type, data, pc) \<Rightarrow>
        bindo (send_step pc type data (shared t)) (\<lambda>(next, s).
          Ok (t\<lparr>shared := s,
               sending := (case next of None \<Rightarrow> take i (sending t) @ drop (Suc i) (sending t)
                           | Some pc' \<Rightarrow> (sending t)[i := (type, data, pc')])\<rparr>)))"

text \<open>The watcher's thread calls back only while the time is positive.\<close>

definition timer_armed :: "bt \<Rightarrow> bool" where
  "timer_armed s \<longleftrightarrow> (case g_vendor_interface s of None \<Rightarrow> False
     | Some v \<Rightarrow> watching v \<and> timeout_ms v > 0 \<and> timeout_cb v = OnTimeoutCb)"

lemma timer_fires_armed: "timer_fires s = (if timer_armed s then OnTimeout s else Ok s)"
  by (simp add: timer_fires_def timer_armed_def split: option.split)

definition begin_timer :: "bt_threads \<Rightarrow> bt_threads" where
  "begin_timer t = t\<lparr>timing := Some Test_activity, overlapped := overlapped t \<or> calls_running t\<rparr>"

definition timer_moves :: "timer_pc \<Rightarrow> bt_threads \<Rightarrow> bt_threads outcome" where
  "timer_moves pc t = bindo (timer_step pc (shared t)) (\<lambda>(next, s). Ok (t\<lparr>shared := s, timing := next\<rparr>))"

text \<open>
  Everything that can happen: calls of the client, commands of the vendor library, the parts of the calls that run, messages
  the looper handles, the library's answer to the configuration of the firmware, time-outs and events of the controller.
  A change of power while a call runs, which deletes the object the call uses, is an overlap as well.
\<close>

inductive threads_step :: "bt_env \<Rightarrow> bt_threads \<Rightarrow> bt_threads \<Rightarrow> bool" for e where
  T_initialize: "threads_step e t (t\<lparr>shared := initialize cb (shared t)\<rparr>)"
| T_close: "hci_close (shared t) = Ok s \<Longrightarrow> threads_step e t (t\<lparr>shared := s\<rparr>)"
| T_died: "serviceDied (shared t) = Ok s \<Longrightarrow> threads_step e t (t\<lparr>shared := s\<rparr>)"
| T_client_sends: "type \<in> {1, 2, 3} \<Longrightarrow> threads_step e t (begin_send type data t)"
| T_lib_sends: "threads_step e t (begin_send 1 data (t\<lparr>shared := (shared t)\<lparr>internal_command := (True, opcode)\<rparr>\<rparr>))"
| T_send: "i < length (sending t) \<Longrightarrow> send_moves i t = Ok t' \<Longrightarrow> threads_step e t t'"
| T_timer_begins: "timing t = None \<Longrightarrow> timer_armed (shared t) \<Longrightarrow> threads_step e t (begin_timer t)"
| T_timer: "timing t = Some pc \<Longrightarrow> timer_moves pc t = Ok t' \<Longrightarrow> threads_step e t t'"
| T_looper: "messages (shared t) = m # ms \<Longrightarrow> handleMessage e m ((shared t)\<lparr>messages := ms\<rparr>) = Ok s \<Longrightarrow>
    threads_step e t (t\<lparr>shared := s, overlapped := overlapped t \<or> calls_running t\<rparr>)"
| T_configured: "OnFirmwareConfigured e result (shared t) = Ok s \<Longrightarrow> threads_step e t (t\<lparr>shared := s\<rparr>)"
| T_event: "event_arrives pkt (shared t) = Ok s \<Longrightarrow> threads_step e t (t\<lparr>shared := s\<rparr>)"

inductive threads_reachable :: "bt_env \<Rightarrow> bt_threads \<Rightarrow> bool" for e where
  T_start: "threads_reachable e threads_start"
| T_step: "threads_reachable e t \<Longrightarrow> threads_step e t t' \<Longrightarrow> threads_reachable e t'"

end
