(* ===== verification/BtProps.thy ===== *)
theory BtProps
  imports BtThreads
begin

text \<open>
  Invariants of the Bluetooth HAL over every interleaving of its threads: the power switch that the state
  machine implements, and the low-power protocol.
\<close>

section \<open>Power\<close>

definition powered :: "bt \<Rightarrow> bool" where
  "powered s \<longleftrightarrow> g_vendor_interface s \<noteq> None"

definition sm_inv :: "bt \<Rightarrow> bool" where
  "sm_inv s \<longleftrightarrow> (powered s \<longleftrightarrow> current_state s = kOnMsg) \<and> set (messages s) \<subseteq> {kOnMsg, kOffMsg}
     \<and> (messages s \<noteq> [] \<longrightarrow> controller_cb s) \<and> (unlink_cb s \<longrightarrow> controller_cb s)"

text \<open>What a step leaves alone.\<close>

definition same_sm :: "bt \<Rightarrow> bt \<Rightarrow> bool" where
  "same_sm s s' \<longleftrightarrow> powered s' = powered s \<and> current_state s' = current_state s \<and> messages s' = messages s
     \<and> controller_cb s' = controller_cb s \<and> unlink_cb s' = unlink_cb s"

lemma same_sm_inv: "same_sm s s' \<Longrightarrow> sm_inv s \<Longrightarrow> sm_inv s'"
  by (simp add: same_sm_def sm_inv_def)

lemma send_step_same: "send_step pc type data s = Ok (nx, s') \<Longrightarrow> same_sm s s'"
  by (cases pc) (auto simp: send_step_def same_sm_def powered_def emit_def set_vendor_def split: option.splits if_splits)

lemma timer_step_same: "timer_step pc s = Ok (nx, s') \<Longrightarrow> same_sm s s'"
  by (cases pc) (auto simp: timer_step_def same_sm_def powered_def emit_def set_vendor_def split: option.splits if_splits)

lemma event_same: "event_arrives pkt s = Ok s' \<Longrightarrow> same_sm s s'"
  by (auto simp: event_arrives_def same_sm_def powered_def emit_def split: if_splits option.splits bool.splits)

lemma configured_same: "OnFirmwareConfigured e result s = Ok s' \<Longrightarrow> same_sm s s'"
  by (auto simp: OnFirmwareConfigured_def same_sm_def powered_def emit_def set_vendor_def Let_def
      split: option.splits if_splits)

definition keeps_sm :: "bt \<Rightarrow> bt \<Rightarrow> bool" where
  "keeps_sm s s' \<longleftrightarrow> current_state s' = current_state s \<and> messages s' = messages s
     \<and> controller_cb s' = controller_cb s \<and> unlink_cb s' = unlink_cb s"

lemma Initialize_powers: "Initialize e s = (rc, s') \<Longrightarrow> powered s' \<and> keeps_sm s s'"
  by (auto simp: Initialize_def Open_def powered_def keeps_sm_def set_vendor_def emit_def Let_def split: if_splits)

lemma TurnOn_ok:
  assumes "controller_cb s"
  obtains s' where "TurnOn e s = Ok s'" "powered s'" "keeps_sm s s'"
proof -
  obtain rc s1 where i: "Initialize e s = (rc, s1)" by (cases "Initialize e s")
  have "powered s1" "keeps_sm s s1" using Initialize_powers [OF i] by auto
  then show ?thesis using i assms that
    by (cases rc) (auto simp: TurnOn_def keeps_sm_def powered_def emit_def)
qed

lemma Shutdown_ok:
  assumes "powered s"
  obtains s' where "Shutdown s = Ok s'" "\<not> powered s'" "keeps_sm s s'"
  using assms that
  by (auto simp: Shutdown_def Close_def powered_def keeps_sm_def emit_def Let_def split: option.splits)

lemma handle_message_ok:
  assumes "powered s \<longleftrightarrow> current_state s = kOnMsg" "controller_cb s" "m \<in> {kOnMsg, kOffMsg}"
  obtains s' where "handleMessage e m s = Ok s'" "powered s' \<longleftrightarrow> m = kOnMsg" "powered s' \<longleftrightarrow> current_state s' = kOnMsg"
    "messages s' = messages s" "controller_cb s'" "unlink_cb s' = unlink_cb s"
proof (cases "current_state s = kOnMsg")
  case True
  obtain s1 where s1: "Shutdown s = Ok s1" "\<not> powered s1" "keeps_sm s s1"
    using assms(1) True Shutdown_ok by blast
  show ?thesis
  proof (cases "m = kOnMsg")
    case m: True
    obtain s2 where s2: "TurnOn e s1 = Ok s2" "powered s2" "keeps_sm s1 s2"
      using s1(3) assms(2) TurnOn_ok [of s1 e] by (auto simp: keeps_sm_def)
    show ?thesis
      using True m s1 s2 assms(2) that [of "s2\<lparr>current_state := m\<rparr>"]
      by (simp add: handleMessage_def state_Handle_def keeps_sm_def powered_def)
  next
    case False
    then show ?thesis
      using True s1 assms(2,3) that [of "s1\<lparr>current_state := m\<rparr>"]
      by (simp add: handleMessage_def state_Handle_def keeps_sm_def powered_def)
  qed
next
  case False
  show ?thesis
  proof (cases "m = kOnMsg")
    case m: True
    obtain s2 where s2: "TurnOn e s = Ok s2" "powered s2" "keeps_sm s s2" using assms(2) TurnOn_ok by blast
    show ?thesis
      using False m s2 assms(2) that [of "s2\<lparr>current_state := m\<rparr>"]
      by (cases "current_state s") (simp_all add: handleMessage_def state_Handle_def keeps_sm_def powered_def)
  next
    case off: False
    then show ?thesis
      using False assms that [of s]
      by (cases "current_state s") (simp_all add: handleMessage_def state_Handle_def)
  qed
qed

lemma threads_step_sm: "threads_step e t t' \<Longrightarrow> sm_inv (shared t) \<Longrightarrow> sm_inv (shared t')"
proof (induction rule: threads_step.induct)
  case (T_looper t m ms s)
  have pre: "powered ((shared t)\<lparr>messages := ms\<rparr>) \<longleftrightarrow> current_state ((shared t)\<lparr>messages := ms\<rparr>) = kOnMsg"
    "controller_cb ((shared t)\<lparr>messages := ms\<rparr>)" "m \<in> {kOnMsg, kOffMsg}"
    using T_looper by (auto simp: sm_inv_def powered_def)
  show ?case
    by (rule handle_message_ok [OF pre, of e]) (use T_looper in \<open>auto simp: sm_inv_def\<close>)
next
  case (T_initialize t cb)
  then show ?case by (auto simp: sm_inv_def powered_def initialize_def Transit_def)
next
  case (T_close t s)
  then show ?case by (auto simp: sm_inv_def powered_def hci_close_def Transit_def split: if_splits)
next
  case (T_died t s)
  then show ?case by (auto simp: sm_inv_def powered_def serviceDied_def Transit_def split: if_splits)
next
  case (T_client_sends type t data)
  then show ?case by (simp add: begin_send_def)
next
  case (T_lib_sends t data opcode)
  then show ?case by (simp add: begin_send_def sm_inv_def powered_def)
next
  case (T_send i t t')
  then obtain type data pc nx s where "send_step pc type data (shared t) = Ok (nx, s)" "shared t' = s"
    by (auto simp: send_moves_def bindo_eq_Ok split: prod.splits)
  then show ?case using same_sm_inv [OF send_step_same] T_send.prems by blast
next
  case (T_timer_begins t)
  then show ?case by (simp add: begin_timer_def)
next
  case (T_timer t pc t')
  then obtain nx s where "timer_step pc (shared t) = Ok (nx, s)" "shared t' = s"
    by (auto simp: timer_moves_def bindo_eq_Ok)
  then show ?case using same_sm_inv [OF timer_step_same] T_timer.prems by blast
next
  case (T_configured result t s)
  then show ?case using same_sm_inv [OF configured_same] by simp
next
  case (T_event pkt t s)
  then show ?case using same_sm_inv [OF event_same] by simp
qed

lemma reachable_sm_inv: "threads_reachable e t \<Longrightarrow> sm_inv (shared t)"
proof (induction rule: threads_reachable.induct)
  case T_start
  then show ?case by (simp add: sm_inv_def threads_start_def bt_start_def powered_def)
next
  case (T_step t t')
  then show ?case using threads_step_sm by blast
qed

text \<open>
  C13. In every state the HAL can reach, by any interleaving of the client, the looper, the vendor's library, the
  timer and the controller, with the calls of \<open>Send\<close> and \<open>OnTimeout\<close> taken apart, the next message of the looper is
  handled without aborting (no shutdown without an interface, no call of a missing client) and afterwards the
  interface exists exactly when the message was a request to switch on: the machine implements a switch.
\<close>

theorem looper_implements_switch:
  assumes "threads_reachable e t" and "messages (shared t) = m # ms"
  shows "\<exists>s'. handleMessage e m ((shared t)\<lparr>messages := ms\<rparr>) = Ok s' \<and> (g_vendor_interface s' \<noteq> None \<longleftrightarrow> m = kOnMsg)"
proof -
  have inv: "sm_inv (shared t)" using reachable_sm_inv assms(1) .
  have pre: "powered ((shared t)\<lparr>messages := ms\<rparr>) \<longleftrightarrow> current_state ((shared t)\<lparr>messages := ms\<rparr>) = kOnMsg"
    "controller_cb ((shared t)\<lparr>messages := ms\<rparr>)" "m \<in> {kOnMsg, kOffMsg}"
    using inv assms(2) by (auto simp: sm_inv_def powered_def)
  show ?thesis by (rule handle_message_ok [OF pre, of e]) (auto simp: powered_def)
qed

definition sample_bt_env :: bt_env where
  "sample_bt_env = \<lparr>be_dlopen = True, be_dlsym = True,
     be_address = \<lparr>prop_bdaddr_path = None, address_file = (\<lambda>p. None), prop_factory = None, prop_persist = None\<rparr>,
     be_lib_init = 0, be_userial_open = (1, [7]), be_idle_timeout = 3000, be_lib_event = (\<lambda>p. [])\<rparr>"

lemma initialize_reachable: "threads_reachable e (threads_start\<lparr>shared := initialize True bt_start\<rparr>)"
  using T_step [OF T_start T_initialize [where cb = True]] by (simp add: threads_start_def)

theorem looper_implements_switch_witness:
  "\<exists>s'. handleMessage sample_bt_env kOnMsg ((initialize True bt_start)\<lparr>messages := []\<rparr>) = Ok s'
     \<and> (g_vendor_interface s' \<noteq> None \<longleftrightarrow> kOnMsg = kOnMsg)"
  using looper_implements_switch [OF initialize_reachable [of sample_bt_env], of kOnMsg "[]"]
  by (simp add: initialize_def bt_start_def Transit_def)

section \<open>Waking the controller\<close>

definition wake_after :: "bool \<Rightarrow> bt_event \<Rightarrow> bool" where
  "wake_after a ev = (case ev of LpmWakeSetState b \<Rightarrow> b | PowerCtrl b \<Rightarrow> False | _ \<Rightarrow> a)"

text \<open>Every packet is handed to the protocol while the last request was to stay awake.\<close>

fun sends_awake :: "bool \<Rightarrow> bt_event list \<Rightarrow> bool" where
  "sends_awake a [] = True"
| "sends_awake a (ev # evs) = ((case ev of HciSend t d \<Rightarrow> a | _ \<Rightarrow> True) \<and> sends_awake (wake_after a ev) evs)"

definition awake :: "bt_event list \<Rightarrow> bool" where
  "awake evs = foldl wake_after False evs"

lemma sends_awake_append:
  "sends_awake a (xs @ ys) \<longleftrightarrow> sends_awake a xs \<and> sends_awake (foldl wake_after a xs) ys"
  by (induction xs arbitrary: a) auto

lemma awake_append: "awake (xs @ ys) = foldl wake_after (awake xs) ys"
  by (simp add: awake_def)

lemmas wake_simps = emit_def set_vendor_def sends_awake_append awake_append wake_after_def awake_def [symmetric]

definition wake_inv :: "bt \<Rightarrow> bool" where
  "wake_inv s \<longleftrightarrow> sends_awake False (trace s)
     \<and> (\<forall>v. g_vendor_interface s = Some v \<longrightarrow> hci v \<noteq> None \<longrightarrow> \<not> lpm_wake_deasserted s \<longrightarrow> awake (trace s))"

lemma Initialize_wake: "Initialize e s = (rc, s') \<Longrightarrow> wake_inv s \<Longrightarrow> wake_inv s'"
  by (auto simp: Initialize_def Open_def new_vendor_def wake_inv_def wake_simps Let_def split: if_splits)

lemma TurnOn_wake: "TurnOn e s = Ok s' \<Longrightarrow> wake_inv s \<Longrightarrow> wake_inv s'"
proof -
  assume t: "TurnOn e s = Ok s'" and inv: "wake_inv s"
  obtain rc s1 where i: "Initialize e s = (rc, s1)" by (cases "Initialize e s")
  have "wake_inv s1" using Initialize_wake [OF i inv] .
  then show ?thesis using t i by (auto simp: TurnOn_def wake_inv_def wake_simps split: if_splits)
qed

lemma Shutdown_wake: "Shutdown s = Ok s' \<Longrightarrow> wake_inv s \<Longrightarrow> wake_inv s'"
  by (auto simp: Shutdown_def Close_def wake_inv_def wake_simps Let_def split: option.splits)

lemma Handle_wake: "state_Handle e st request s = Ok (ok, s') \<Longrightarrow> wake_inv s \<Longrightarrow> wake_inv s'"
  by (cases st; cases request) (auto simp: state_Handle_def bindo_eq_Ok dest: TurnOn_wake Shutdown_wake)

lemma message_wake:
  assumes "handleMessage e m s = Ok s'" "wake_inv s"
  shows "wake_inv s'"
proof -
  obtain ok s1 where h: "state_Handle e (current_state s) m s = Ok (ok, s1)"
    and s': "s' = (if ok then s1\<lparr>current_state := m\<rparr> else s1)"
    using assms(1) by (auto simp: handleMessage_def bindo_eq_Ok)
  have "wake_inv s1" using Handle_wake [OF h assms(2)] .
  then show ?thesis by (simp add: s' wake_inv_def)
qed

end
