(* ===== verification/BtRace.thy ===== *)
theory BtRace
  imports BtProps
begin

text \<open>
  The low-power protocol over the interleavings of theory BtThreads: what is promised as long as no two calls
  overlap, and what happens when a time-out overlaps a packet.
\<close>

section \<open>Calls that do not overlap\<close>

definition hci_ready :: "bt \<Rightarrow> bool" where
  "hci_ready s \<longleftrightarrow> (\<exists>v. g_vendor_interface s = Some v \<and> hci v \<noteq> None)"

lemma wake_inv_alt:
  "wake_inv s \<longleftrightarrow> sends_awake False (trace s) \<and> (hci_ready s \<longrightarrow> \<not> lpm_wake_deasserted s \<longrightarrow> awake (trace s))"
  by (auto simp: wake_inv_def hci_ready_def)

text \<open>What holds at each part of the one call that runs.\<close>

fun send_ready :: "send_pc \<Rightarrow> bt \<Rightarrow> bool" where
  "send_ready Assert_wake s = sends_awake False (trace s)"
| "send_ready Hand_over s = (wake_inv s \<and> (hci_ready s \<longrightarrow> awake (trace s)))"
| "send_ready _ s = wake_inv s"

definition timer_ready :: "timer_pc \<Rightarrow> bt \<Rightarrow> bool" where
  "timer_ready pc s \<longleftrightarrow> wake_inv s \<and> (pc = Deassert_wake \<longrightarrow> lpm_wake_deasserted s)"

definition one_call :: "bt_threads \<Rightarrow> bool" where
  "one_call t \<longleftrightarrow>
     timing t = None \<and> sending t = [] \<and> wake_inv (shared t) \<or>
     (\<exists>type data pc. timing t = None \<and> sending t = [(type, data, pc)] \<and> send_ready pc (shared t)) \<or>
     (\<exists>pc. timing t = Some pc \<and> sending t = [] \<and> timer_ready pc (shared t))"

lemma send_step_ready:
  assumes "send_step pc type data s = Ok (nx, s')" "send_ready pc s"
  shows "case nx of None \<Rightarrow> wake_inv s' | Some pc' \<Rightarrow> send_ready pc' s'"
  using assms
  by (cases pc) (auto simp: send_step_def hci_ready_def wake_inv_alt wake_simps split: option.splits if_splits)

lemma timer_step_ready:
  assumes "timer_step pc s = Ok (nx, s')" "timer_ready pc s"
  shows "case nx of None \<Rightarrow> wake_inv s' | Some pc' \<Rightarrow> timer_ready pc' s'"
  using assms
  by (cases pc) (auto simp: timer_step_def timer_ready_def hci_ready_def wake_inv_alt wake_simps split: option.splits if_splits)

text \<open>What the other threads do leaves the protocol alone.\<close>

definition no_wake_change :: "bt \<Rightarrow> bt \<Rightarrow> bool" where
  "no_wake_change s s' \<longleftrightarrow> hci_ready s' = hci_ready s \<and>
     lpm_wake_deasserted s' = lpm_wake_deasserted s \<and> awake (trace s') = awake (trace s) \<and>
     (sends_awake False (trace s) \<longrightarrow> sends_awake False (trace s'))"

lemma no_wake_change_inv: "no_wake_change s s' \<Longrightarrow> wake_inv s \<Longrightarrow> wake_inv s'"
  by (simp add: no_wake_change_def wake_inv_alt)

lemma no_wake_change_send: "no_wake_change s s' \<Longrightarrow> send_ready pc s \<Longrightarrow> send_ready pc s'"
  by (cases pc) (simp_all add: no_wake_change_inv, simp_all add: no_wake_change_def)

lemma no_wake_change_timer: "no_wake_change s s' \<Longrightarrow> timer_ready pc s \<Longrightarrow> timer_ready pc s'"
  by (auto simp: timer_ready_def no_wake_change_inv) (simp add: no_wake_change_def)

lemma no_wake_change_call:
  assumes "no_wake_change (shared t) s" "one_call t"
  shows "one_call (t\<lparr>shared := s\<rparr>)"
  using assms(2) no_wake_change_inv [OF assms(1)] no_wake_change_send [OF assms(1)] no_wake_change_timer [OF assms(1)]
  unfolding one_call_def by auto

lemma initialize_no_change: "no_wake_change s (initialize cb s)"
  by (simp add: no_wake_change_def hci_ready_def initialize_def Transit_def)

lemma close_no_change: "hci_close s = Ok s' \<Longrightarrow> no_wake_change s s'"
  by (auto simp: no_wake_change_def hci_ready_def hci_close_def Transit_def split: if_splits)

lemma died_no_change: "serviceDied s = Ok s' \<Longrightarrow> no_wake_change s s'"
  by (auto simp: no_wake_change_def hci_ready_def serviceDied_def Transit_def split: if_splits)

lemma configured_no_change: "OnFirmwareConfigured e result s = Ok s' \<Longrightarrow> no_wake_change s s'"
  by (auto simp: no_wake_change_def hci_ready_def OnFirmwareConfigured_def wake_simps Let_def split: option.splits if_splits)

lemma event_no_change: "event_arrives pkt s = Ok s' \<Longrightarrow> no_wake_change s s'"
  by (auto simp: no_wake_change_def hci_ready_def event_arrives_def wake_simps split: option.splits bool.splits if_splits)

lemma command_no_change: "no_wake_change s (s\<lparr>internal_command := c\<rparr>)"
  by (simp add: no_wake_change_def hci_ready_def)

lemma begin_send_one:
  assumes "one_call t" "\<not> overlapped (begin_send type data t)"
  shows "one_call (begin_send type data t)"
  using assms by (simp add: begin_send_def calls_running_def one_call_def)

lemma send_moves_one:
  assumes "i < length (sending t)" "send_moves i t = Ok t'" "one_call t"
  shows "one_call t'"
proof -
  obtain type data pc where c: "timing t = None" "sending t = [(type, data, pc)]" "send_ready pc (shared t)"
    using assms(1,3) by (auto simp: one_call_def)
  then have "i = 0" using assms(1) by simp
  then obtain nx s where s: "send_step pc type data (shared t) = Ok (nx, s)"
    and t': "t' = t\<lparr>shared := s, sending := (case nx of None \<Rightarrow> [] | Some pc' \<Rightarrow> [(type, data, pc')])\<rparr>"
    using assms(2) c(2) by (auto simp: send_moves_def bindo_eq_Ok split: option.splits)
  show ?thesis using send_step_ready [OF s c(3)] c(1) by (auto simp: t' one_call_def split: option.splits)
qed

lemma timer_moves_one:
  assumes "timing t = Some pc" "timer_moves pc t = Ok t'" "one_call t"
  shows "one_call t'"
proof -
  have c: "sending t = []" "timer_ready pc (shared t)" using assms(1,3) by (auto simp: one_call_def)
  obtain nx s where s: "timer_step pc (shared t) = Ok (nx, s)" and t': "t' = t\<lparr>shared := s, timing := nx\<rparr>"
    using assms(2) by (auto simp: timer_moves_def bindo_eq_Ok)
  show ?thesis using timer_step_ready [OF s c(2)] c(1) by (auto simp: t' one_call_def split: option.splits)
qed

lemma threads_step_overlapped: "threads_step e t t' \<Longrightarrow> overlapped t \<Longrightarrow> overlapped t'"
  by (induction rule: threads_step.induct)
    (auto simp: begin_send_def begin_timer_def send_moves_def timer_moves_def bindo_eq_Ok split: prod.splits)

lemma threads_step_one:
  assumes "threads_step e t t'" "one_call t" "\<not> overlapped t'"
  shows "one_call t'"
  using assms
proof (induction rule: threads_step.induct)
  case (T_lib_sends t data opcode)
  have "one_call (t\<lparr>shared := (shared t)\<lparr>internal_command := (True, opcode)\<rparr>\<rparr>)"
    using no_wake_change_call [OF command_no_change] T_lib_sends(1) .
  then show ?case using begin_send_one T_lib_sends(2) by blast
next
  case (T_client_sends type t data)
  then show ?case using begin_send_one by blast
next
  case (T_send i t t')
  then show ?case using send_moves_one by blast
next
  case (T_timer t pc t')
  then show ?case using timer_moves_one by blast
next
  case (T_timer_begins t)
  then have "wake_inv (shared t)" "sending t = []" by (auto simp: begin_timer_def calls_running_def one_call_def)
  then show ?case by (simp add: begin_timer_def one_call_def timer_ready_def)
next
  case (T_looper t m ms s)
  have idle: "wake_inv (shared t)" "sending t = []" "timing t = None"
    using T_looper(3,4) by (auto simp: one_call_def calls_running_def)
  then have "wake_inv ((shared t)\<lparr>messages := ms\<rparr>)" by (simp add: wake_inv_def)
  then have "wake_inv s" using message_wake [OF T_looper(2)] by blast
  then show ?case using idle by (simp add: one_call_def)
next
  case (T_initialize t cb)
  then show ?case using no_wake_change_call [OF initialize_no_change] by blast
next
  case (T_close t s)
  then show ?case using no_wake_change_call [OF close_no_change] by blast
next
  case (T_died t s)
  then show ?case using no_wake_change_call [OF died_no_change] by blast
next
  case (T_configured result t s)
  then show ?case using no_wake_change_call [OF configured_no_change] by blast
next
  case (T_event pkt t s)
  then show ?case using no_wake_change_call [OF event_no_change] by blast
qed

lemma threads_invariant: "threads_reachable e t \<Longrightarrow> \<not> overlapped t \<Longrightarrow> one_call t"
proof (induction rule: threads_reachable.induct)
  case T_start
  then show ?case by (simp add: one_call_def threads_start_def wake_inv_def bt_start_def)
next
  case (T_step t t')
  then show ?case using threads_step_one threads_step_overlapped by blast
qed

text \<open>
  C12. Low power: in every state the HAL can reach by any interleaving of the parts of its calls, as long as no call of
  \<open>Send\<close>, no time-out and no change of the power began while another of them was running, every packet that was handed to
  the protocol, the client's and the vendor library's, was handed over after the library was told to keep the
  controller awake, with no permission to sleep and no power cycle in between.
\<close>

theorem packets_sent_awake:
  assumes "threads_reachable e t" and "\<not> overlapped t"
  shows "sends_awake False (trace (shared t))"
proof -
  have "send_ready pc s \<Longrightarrow> sends_awake False (trace s)" for pc s by (cases pc) (simp_all add: wake_inv_alt)
  then show ?thesis
    using threads_invariant [OF assms] by (auto simp: one_call_def timer_ready_def wake_inv_alt)
qed

section \<open>A time-out that overlaps a packet\<close>

lemma send_moved:
  assumes "threads_reachable e \<lparr>shared = s, sending = [(ty, d, pc)], timing = tm, overlapped = b\<rparr>"
    and "send_step pc ty d s = Ok (nx, s')"
  shows "threads_reachable e
    \<lparr>shared = s', sending = (case nx of None \<Rightarrow> [] | Some pc' \<Rightarrow> [(ty, d, pc')]), timing = tm, overlapped = b\<rparr>"
  by (rule T_step [OF assms(1) T_send [where i = 0]]) (auto simp: send_moves_def assms(2) split: option.split)

lemma send_goes_on:
  assumes "threads_reachable e \<lparr>shared = s, sending = [(ty, d, pc)], timing = tm, overlapped = b\<rparr>"
    and "send_step pc ty d s = Ok (Some pc', s')"
  shows "threads_reachable e \<lparr>shared = s', sending = [(ty, d, pc')], timing = tm, overlapped = b\<rparr>"
  using send_moved [OF assms] by simp


text \<open>The controller is powered, configured, and the timer runs.\<close>

definition idle_vendor :: vendor where
  "idle_vendor = \<lparr>lib_handle = True, lib_interface = True, initialize_complete_cb = False, hci = Some H4_PROTOCOL,
     firmware_startup_timer = False, watching = True, timeout_cb = OnTimeoutCb, timeout_ms = 3000\<rparr>"

lemma idle_reachable:
  obtains s where "threads_reachable sample_bt_env \<lparr>shared = s, sending = [], timing = None, overlapped = False\<rparr>"
    "g_vendor_interface s = Some idle_vendor" "\<not> recent_activity_flag s" "lpm_timeout_ms s = 3000" "lpm_wake_deasserted s"
proof -
  let ?e = sample_bt_env
  let ?s1 = "initialize True bt_start"
  obtain s2 where on: "handleMessage ?e kOnMsg (?s1\<lparr>messages := []\<rparr>) = Ok s2"
    and v: "g_vendor_interface s2 = Some (idle_vendor\<lparr>initialize_complete_cb := True, firmware_startup_timer := True,
        timeout_cb := NoTimeout, timeout_ms := 0\<rparr>)" "\<not> recent_activity_flag s2" "lpm_wake_deasserted s2"
    by (simp add: handleMessage_def state_Handle_def initialize_def bt_start_def Transit_def TurnOn_def idle_vendor_def
        Initialize_def Open_def sample_bt_env_def valid_fds_def new_vendor_def set_vendor_def emit_def)
  obtain s3 where cfg: "OnFirmwareConfigured ?e 0 s2 = Ok s3" "g_vendor_interface s3 = Some idle_vendor"
      "\<not> recent_activity_flag s3" "lpm_timeout_ms s3 = 3000" "lpm_wake_deasserted s3"
    using v by (auto simp: OnFirmwareConfigured_def idle_vendor_def set_vendor_def emit_def sample_bt_env_def)
  have r1: "threads_reachable ?e (threads_start\<lparr>shared := ?s1\<rparr>)" by (rule initialize_reachable)
  have r2: "threads_reachable ?e (threads_start\<lparr>shared := s2\<rparr>)"
    using T_step [OF r1 T_looper [where m = kOnMsg and ms = "[]", OF _ ]] on
    by (simp add: threads_start_def initialize_def bt_start_def Transit_def calls_running_def)
  have r3: "threads_reachable ?e (threads_start\<lparr>shared := s3\<rparr>)"
    using T_step [OF r2 T_configured [of _ 0]] cfg(1) by (simp add: threads_start_def)
  show ?thesis using that [of s3] r3 cfg(2-5) by (simp add: threads_start_def)
qed


theorem packets_sent_awake_witness:
  "\<exists>t. threads_reachable sample_bt_env t \<and> HciSend 1 [3] \<in> set (trace (shared t)) \<and> sends_awake False (trace (shared t))"
proof -
  obtain s where r: "threads_reachable sample_bt_env \<lparr>shared = s, sending = [], timing = None, overlapped = False\<rparr>"
    and s: "g_vendor_interface s = Some idle_vendor" "lpm_timeout_ms s = 3000" "lpm_wake_deasserted s" by (rule idle_reachable)
  note defs = send_step_def idle_vendor_def set_vendor_def emit_def
  have r1: "threads_reachable sample_bt_env \<lparr>shared = s, sending = [(1, [3], Mark_activity)], timing = None, overlapped = False\<rparr>"
    using T_step [OF r T_client_sends [where type = 1 and data = "[3]"]] by (simp add: begin_send_def calls_running_def)
  have "\<exists>s'. threads_reachable sample_bt_env \<lparr>shared = s', sending = [], timing = None, overlapped = False\<rparr>
      \<and> HciSend 1 [3] \<in> set (trace s')"
    using send_moved [OF send_goes_on [OF send_goes_on [OF send_goes_on [OF send_goes_on [OF send_goes_on [OF r1]]]]]] s
    by (fastforce simp: defs)
  then show ?thesis using packets_sent_awake by (metis bt_threads.select_convs(1,4))
qed

end
