(* ===== verification/BtDebugProps.thy ===== *)
theory BtDebugProps
  imports BtDebug
begin

text \<open>
  What the archive of packets holds and in which order it is logged, and the text form of addresses.
\<close>

section \<open>The archive\<close>

lemma store_packet_fields:
  assumes "0 \<le> packet_count s" "packet_count s < INT32_MAX - 1"
  shows "packet_count (store_packet p s) = packet_count s + 1"
    "packets_info (store_packet p s) = (packets_info s)[nat (packet_count s) mod kCircularSize := p]"
    "head_index (store_packet p s) = nat (packet_count s) mod kCircularSize"
  using assms by (simp_all add: store_packet_def Let_def)

definition archived :: "debug_packet list \<Rightarrow> hci_debugger" where
  "archived ps = fold store_packet ps hci_debugger_start"

lemma archived_snoc: "archived (ps @ [p]) = store_packet p (archived ps)"
  by (simp add: archived_def)

lemma archived_count:
  "int (length ps) < INT32_MAX \<Longrightarrow>
     packet_count (archived ps) = int (length ps) \<and> length (packets_info (archived ps)) = kCircularSize"
proof (induction ps rule: rev_induct)
  case Nil
  then show ?case by (simp add: archived_def hci_debugger_start_def)
next
  case (snoc p ps)
  then have "packet_count (archived ps) = int (length ps)" "length (packets_info (archived ps)) = kCircularSize" by simp_all
  then show ?case using snoc.prems store_packet_fields [of "archived ps" p] by (simp add: archived_snoc)
qed

lemma archived_slot:
  "int (length ps) < INT32_MAX \<Longrightarrow> i < length ps \<Longrightarrow> length ps \<le> i + kCircularSize \<Longrightarrow>
     packets_info (archived ps) ! (i mod kCircularSize) = ps ! i"
proof (induction ps rule: rev_induct)
  case (snoc p ps)
  have c: "packet_count (archived ps) = int (length ps)" "length (packets_info (archived ps)) = kCircularSize"
    using archived_count [of ps] snoc.prems(1) by simp_all
  have upd: "packets_info (archived (ps @ [p])) = (packets_info (archived ps))[length ps mod kCircularSize := p]"
    using store_packet_fields [of "archived ps" p] c snoc.prems(1) by (simp add: archived_snoc)
  have pos: "0 < kCircularSize" by (simp add: kCircularSize_def)
  show ?case
  proof (cases "i = length ps")
    case True
    then show ?thesis using upd c pos by simp
  next
    case False
    then have i: "i < length ps" "length ps < i + kCircularSize" using snoc.prems by simp_all
    have "i mod kCircularSize \<noteq> length ps mod kCircularSize"
    proof
      assume "i mod kCircularSize = length ps mod kCircularSize"
      then have "kCircularSize dvd length ps - i" using i(1) by (metis mod_eq_dvd_iff_nat less_imp_le)
      then show False using i by (auto dest: dvd_imp_le)
    qed
    then have "packets_info (archived (ps @ [p])) ! (i mod kCircularSize) = packets_info (archived ps) ! (i mod kCircularSize)"
      unfolding upd by simp
    also have "\<dots> = ps ! i" using snoc.IH i snoc.prems(1) by simp
    finally show ?thesis using i(1) by (simp add: nth_append)
  qed
qed simp

text \<open>
  After more than 30 packets (and before the counter wraps) the archive holds exactly the last 30, and
  what is logged on a notification is the newest packet first, then the 29 before it from the oldest on: the
  dump starts at the slot written last, not behind it.
\<close>

theorem archive_keeps_last_packets:
  assumes "ps = older @ window @ [newest]" and "length window = 29" and "length ps < 2147483647"
  shows "OnNotify (archived ps) = newest # window"
proof -
  define n where "n = length ps"
  define h where "h = (n - 1) mod kCircularSize"
  let ?P = "packets_info (archived ps)"
  have n: "n = length older + 30" "1 \<le> n" using assms(1,2) by (simp_all add: n_def)
  have lim: "int (length ps) < INT32_MAX" using assms(3) by (simp add: INT32_MAX_def)
  have len: "length ?P = 30" using archived_count [OF lim] by (simp add: kCircularSize_def)
  have hd_ix: "head_index (archived ps) = h"
  proof -
    have "int (length (older @ window)) < INT32_MAX" using lim assms(1) by simp
    then have "packet_count (archived (older @ window)) = int (length (older @ window))" using archived_count by blast
    then have "head_index (archived ((older @ window) @ [newest])) = length (older @ window) mod kCircularSize"
      unfolding archived_snoc using lim assms(1) by (subst store_packet_fields(3)) (auto simp: nat_int_add)
    then show ?thesis using assms(1) by (simp add: h_def n_def nat_int_add)
  qed
  have h: "h < 30" by (simp add: h_def kCircularSize_def)
  have slot: "?P ! (i mod 30) = ps ! i" if "i < n" "n \<le> i + 30" for i
    using archived_slot [OF lim, of i] that by (simp add: n_def kCircularSize_def)
  have "OnNotify (archived ps) ! k = (newest # window) ! k" if k: "k < 30" for k
  proof (cases "k = 0")
    case True
    have "OnNotify (archived ps) ! 0 = ?P ! h" using h len by (simp add: OnNotify_def hd_ix nth_append)
    also have "\<dots> = ps ! (n - 1)" using slot [of "n - 1"] n by (simp add: h_def kCircularSize_def)
    finally show ?thesis using True assms(1,2) n by (simp add: nth_append)
  next
    case False
    have "OnNotify (archived ps) ! k = ?P ! ((h + k) mod 30)"
      using h len k by (auto simp: OnNotify_def hd_ix nth_append mod_if add.commute)
    also have "(h + k) mod 30 = (n - 1 + k) mod 30" by (simp add: h_def kCircularSize_def mod_simps)
    also have "\<dots> = (n + k - 31) mod 30"
    proof -
      have "n - 1 + k = (n + k - 31) + 30" using n False by linarith
      then show ?thesis by (metis mod_add_self2)
    qed
    also have "?P ! ((n + k - 31) mod 30) = ps ! (n + k - 31)" using slot [of "n + k - 31"] n k False by simp
    also have "n + k - 31 = length older + (k - 1)" using n False by simp
    also have "ps ! (length older + (k - 1)) = window ! (k - 1)" using assms(1,2) k False by (simp add: nth_append)
    finally show ?thesis using False by simp
  qed
  moreover have "length (OnNotify (archived ps)) = 30" using len h by (simp add: OnNotify_def)
  ultimately show ?thesis using assms(2) by (intro nth_equalityI) simp_all
qed

theorem archive_keeps_last_packets_witness:
  "OnNotify (archived ([no_packet] @ replicate 29 no_packet @ [no_packet\<lparr>packet_type := 4\<rparr>]))
     = (no_packet\<lparr>packet_type := 4\<rparr>) # replicate 29 no_packet"
  by (rule archive_keeps_last_packets [OF refl]) simp_all

section \<open>Addresses\<close>

definition plain_digit :: "nat \<Rightarrow> bool" where
  "plain_digit d \<longleftrightarrow> digit_val (lower_digit d) = d \<and> is_digit 16 (lower_digit d) \<and> \<not> c_isspace (lower_digit d)
     \<and> lower_digit d \<noteq> CHR ''-'' \<and> lower_digit d \<noteq> CHR ''+''"

lemma plain_digits: "list_all plain_digit [0..<16]"
  by code_simp

lemma lower_digit_facts:
  assumes "d < 16"
  shows "digit_val (lower_digit d) = d" "is_digit 16 (lower_digit d)" "\<not> c_isspace (lower_digit d)"
    "lower_digit d \<noteq> CHR ''-''" "lower_digit d \<noteq> CHR ''+''"
  using plain_digits assms by (auto simp: list_all_iff plain_digit_def)

lemma print_02x_digits: "print_02x b = [lower_digit (unat b div 16), lower_digit (unat b mod 16)]" "unat b div 16 < 16"
proof -
  have "unat b < 256" using unsigned_less [of b, where ?'a = nat] by simp
  then show "unat b div 16 < 16" by (simp add: less_mult_imp_div_less)
  then show "print_02x b = [lower_digit (unat b div 16), lower_digit (unat b mod 16)]"
    by (simp add: print_02x_def numeral_2_eq_2)
qed

lemma scan_hhx_print: "scan_hhx (print_02x b @ s) = Some (b, s)"
proof -
  have m: "unat b mod 16 < 16" by simp
  note h = lower_digit_facts [OF print_02x_digits(2) [of b]] and l = lower_digit_facts [OF m]
  have v: "unat b div 16 * 16 + unat b mod 16 = unat b" by simp
  show ?thesis
    using h l v by (simp add: scan_hhx_def print_02x_digits(1) strip_sign_def)
qed

lemma scan_address_steps:
  "scan_address (Suc n) (print_02x b @ s) [] = scan_address n s [b]"
  "scan_address (Suc n) (CHR '':'' # print_02x b @ s) (x # acc) = scan_address n s (x # acc @ [b])"
  "scan_address (Suc n) (CHR '':'' # print_02x b) (x # acc) = scan_address n [] (x # acc @ [b])"
  using scan_hhx_print [of b "[]"] by (simp_all add: scan_hhx_print)

text \<open>
  An address printed with \<open>bytes_to_string\<close> is read back unchanged by \<open>string_to_bytes\<close>, whatever the
  array held before.
\<close>

theorem address_roundtrip:
  "string_to_bytes (Some (bytes_to_string [a, b, c, d, e, f])) [x0, x1, x2, x3, x4, x5] = (True, [a, b, c, d, e, f])"
proof -
  have len: "length (bytes_to_string [a, b, c, d, e, f]) = 17"
    by (simp add: bytes_to_string_def print_02x_digits(1))
  have shown: "bytes_to_string [a, b, c, d, e, f] = print_02x a @ CHR '':'' # print_02x b @ CHR '':'' # print_02x c
      @ CHR '':'' # print_02x d @ CHR '':'' # print_02x e @ CHR '':'' # print_02x f"
    by (simp add: bytes_to_string_def)
  have six: "(6::nat) = Suc (Suc (Suc (Suc (Suc (Suc 0)))))" by simp
  have "scan_address 6 (bytes_to_string [a, b, c, d, e, f]) [] = (6, [a, b, c, d, e, f])"
    unfolding shown six by (simp only: scan_address_steps append_Cons append_Nil) simp
  then show ?thesis using len by (simp add: string_to_bytes_def kStringLength_def)
qed

end
