(* ===== verification/Camera.thy ===== *)
theory Camera
  imports CLib
begin

text \<open>
  \<open>src/proprietary/hardware/libcamera_parameters/CameraParameters.cpp\<close>: the parameters of a camera as
  a map from keys to texts, its flat form, and the sizes and formats in the texts. The
  platform's sorted map (\<open>KeyedVector\<close> of libutils) is a parameter: the operations the class uses,
  with the laws it relies on. Floating-point parameters and the dumps are left out.
\<close>

section \<open>The map\<close>

text \<open>\<open>kv_entries\<close> is \<open>keyAt(i)\<close> and \<open>valueAt(i)\<close> for all \<open>i\<close>; \<open>kv_put\<close> is \<open>add\<close> and \<open>replaceValueFor\<close>.\<close>

record 'm kv =
  kv_empty :: 'm
  kv_entries :: "'m \<Rightarrow> (string \<times> string) list"
  kv_put :: "string \<Rightarrow> string \<Rightarrow> 'm \<Rightarrow> 'm"
  kv_remove :: "string \<Rightarrow> 'm \<Rightarrow> 'm"

definition kv_lookup :: "'m kv \<Rightarrow> 'm \<Rightarrow> string \<Rightarrow> string option" where
  "kv_lookup kv m = map_of (kv_entries kv m)"

definition kv_laws :: "'m kv \<Rightarrow> bool" where
  "kv_laws kv \<longleftrightarrow> kv_entries kv (kv_empty kv) = []
     \<and> (\<forall>m. distinct (map fst (kv_entries kv m)))
     \<and> (\<forall>m k v. kv_lookup kv (kv_put kv k v m) = (kv_lookup kv m)(k \<mapsto> v))
     \<and> (\<forall>m k. kv_lookup kv (kv_remove kv k m) = (kv_lookup kv m)(k := None))"

section \<open>The flat form\<close>

fun flatten_entries :: "(string \<times> string) list \<Rightarrow> string" where
  "flatten_entries [] = []"
| "flatten_entries [(k, v)] = k @ ''='' @ v"
| "flatten_entries ((k, v) # es) = k @ ''='' @ v @ '';'' @ flatten_entries es"

definition flatten :: "'m kv \<Rightarrow> 'm \<Rightarrow> string" where
  "flatten kv m = flatten_entries (kv_entries kv m)"

lemma dropWhile_shorter: "dropWhile P xs = y # ys \<Longrightarrow> length ys < length xs"
  by (metis length_Cons length_dropWhile_le not_less_eq not_le)

function unflatten_from :: "'m kv \<Rightarrow> string \<Rightarrow> 'm \<Rightarrow> 'm" where
  "unflatten_from kv a m =
     (case dropWhile (\<lambda>c. c \<noteq> CHR ''='') a of
        [] \<Rightarrow> m
      | _ # a1 \<Rightarrow>
          let k = takeWhile (\<lambda>c. c \<noteq> CHR ''='') a;
              m1 = kv_put kv k (takeWhile (\<lambda>c. c \<noteq> CHR '';'') a1) m
          in (case dropWhile (\<lambda>c. c \<noteq> CHR '';'') a1 of
                [] \<Rightarrow> m1
              | _ # a2 \<Rightarrow> unflatten_from kv a2 m1))"
  by pat_completeness auto
termination
  by (relation "measure (\<lambda>(kv, a, m). length a)")
    (auto dest!: dropWhile_shorter intro: less_trans)

declare unflatten_from.simps [simp del]

definition unflatten :: "'m kv \<Rightarrow> string \<Rightarrow> 'm" where
  "unflatten kv params = unflatten_from kv params (kv_empty kv)"

section \<open>Setting and getting\<close>

definition has_separator :: "string \<Rightarrow> bool" where
  "has_separator s \<longleftrightarrow> CHR ''='' \<in> set s \<or> CHR '';'' \<in> set s"

definition set_value :: "'m kv \<Rightarrow> string \<Rightarrow> string \<Rightarrow> 'm \<Rightarrow> 'm" where
  "set_value kv key val m = (if has_separator key \<or> has_separator val then m else kv_put kv key val m)"

definition set_int :: "'m kv \<Rightarrow> string \<Rightarrow> int \<Rightarrow> 'm \<Rightarrow> 'm" where
  "set_int kv key val m = set_value kv key (sprintf_d val) m"

text \<open>An empty text counts as no value.\<close>

definition get_value :: "'m kv \<Rightarrow> string \<Rightarrow> 'm \<Rightarrow> string option" where
  "get_value kv key m =
     (let v = (case kv_lookup kv m key of None \<Rightarrow> [] | Some v \<Rightarrow> v) in if length v = 0 then None else Some v)"

definition getInt :: "'m kv \<Rightarrow> string \<Rightarrow> 'm \<Rightarrow> int" where
  "getInt kv key m = (case get_value kv key m of None \<Rightarrow> -1 | Some v \<Rightarrow> fst (strtol v 0))"

definition remove_key :: "'m kv \<Rightarrow> string \<Rightarrow> 'm \<Rightarrow> 'm" where
  "remove_key kv key m = kv_remove kv key m"

definition kv_isEmpty :: "'m kv \<Rightarrow> 'm \<Rightarrow> bool" where
  "kv_isEmpty kv m \<longleftrightarrow> kv_entries kv m = []"

section \<open>Pairs and lists of sizes\<close>

definition parse_pair :: "string \<Rightarrow> char \<Rightarrow> (int \<times> int \<times> string) option" where
  "parse_pair str delim =
     (let (w, rest) = strtol str 10
      in case rest of [] \<Rightarrow> None
         | c # rest1 \<Rightarrow> if c \<noteq> delim then None else let (h, rest2) = strtol rest1 10 in Some (w, h, rest2))"

lemma strtol_shorter: "length (snd (strtol s b)) \<le> length s"
proof -
  have strip: "length (snd (strip_sign r)) \<le> length r" for r by (cases r) (auto simp: strip_sign_def)
  obtain neg s2 where s2: "strip_sign (dropWhile c_isspace s) = (neg, s2)" by (cases "strip_sign (dropWhile c_isspace s)")
  obtain q s3 where s3: "pick_base b s2 = (q, s3)" by (cases "pick_base b s2")
  have "length (dropWhile c_isspace s) \<le> length s" by (rule length_dropWhile_le)
  moreover have "length s2 \<le> length (dropWhile c_isspace s)"
    using strip [of "dropWhile c_isspace s"] s2 by simp
  moreover have "length s3 \<le> length s2" using s3 by (auto simp: pick_base_def split: if_splits)
  moreover have "length (dropWhile (is_digit q) s3) \<le> length s3" by (rule length_dropWhile_le)
  ultimately show ?thesis using s2 s3 by (simp add: strtol_def Let_def)
qed

lemma parse_pair_shorter: "parse_pair s d = Some (w, h, rest) \<Longrightarrow> length rest < length s"
proof -
  assume a: "parse_pair s d = Some (w, h, rest)"
  obtain w1 c r1 where s: "strtol s 10 = (w1, c # r1)" and r: "rest = snd (strtol r1 10)"
    using a by (auto simp: parse_pair_def Let_def split: prod.splits list.splits if_splits)
  have "length (c # r1) \<le> length s" using strtol_shorter [of s 10] s by simp
  then show ?thesis using strtol_shorter [of r1 10] r by simp
qed

function parseSizesList :: "string \<Rightarrow> (int \<times> int) list" where
  "parseSizesList s =
     (case parse_pair s (CHR ''x'') of
        None \<Rightarrow> []
      | Some (width, height, rest) \<Rightarrow>
          (case rest of
             [] \<Rightarrow> [(width, height)]
           | c # rest' \<Rightarrow> if c \<noteq> CHR '','' then [] else (width, height) # parseSizesList rest'))"
  by pat_completeness auto
termination
  by (relation "measure length") (auto dest!: parse_pair_shorter)

declare parseSizesList.simps [simp del]

text \<open>A missing list leaves the vector as it was, empty.\<close>

definition sizes_of :: "string option \<Rightarrow> (int \<times> int) list" where
  "sizes_of s = (case s of None \<Rightarrow> [] | Some t \<Rightarrow> parseSizesList t)"

definition size_text :: "int \<Rightarrow> int \<Rightarrow> string" where
  "size_text width height = sprintf_d width @ ''x'' @ sprintf_d height"

text \<open>A pair from a value: \<open>-1\<close> twice when there is none or it does not parse.\<close>

definition pair_of :: "char \<Rightarrow> string option \<Rightarrow> int \<times> int" where
  "pair_of delim p =
     (case p of None \<Rightarrow> (-1, -1)
      | Some s \<Rightarrow> (case parse_pair s delim of None \<Rightarrow> (-1, -1) | Some (w, h, rest) \<Rightarrow> (w, h)))"

section \<open>Named parameters\<close>

definition KEY_PREVIEW_SIZE :: string where "KEY_PREVIEW_SIZE = ''preview-size''"
definition KEY_SUPPORTED_PREVIEW_SIZES :: string where "KEY_SUPPORTED_PREVIEW_SIZES = ''preview-size-values''"
definition KEY_PREVIEW_FORMAT :: string where "KEY_PREVIEW_FORMAT = ''preview-format''"
definition KEY_SUPPORTED_PREVIEW_FORMATS :: string where "KEY_SUPPORTED_PREVIEW_FORMATS = ''preview-format-values''"
definition KEY_PREVIEW_FRAME_RATE :: string where "KEY_PREVIEW_FRAME_RATE = ''preview-frame-rate''"
definition KEY_PREVIEW_FPS_RANGE :: string where "KEY_PREVIEW_FPS_RANGE = ''preview-fps-range''"
definition KEY_PICTURE_SIZE :: string where "KEY_PICTURE_SIZE = ''picture-size''"
definition KEY_SUPPORTED_PICTURE_SIZES :: string where "KEY_SUPPORTED_PICTURE_SIZES = ''picture-size-values''"
definition KEY_PICTURE_FORMAT :: string where "KEY_PICTURE_FORMAT = ''picture-format''"
definition KEY_VIDEO_SIZE :: string where "KEY_VIDEO_SIZE = ''video-size''"
definition KEY_SUPPORTED_VIDEO_SIZES :: string where "KEY_SUPPORTED_VIDEO_SIZES = ''video-size-values''"
definition KEY_PREFERRED_PREVIEW_SIZE_FOR_VIDEO :: string where
  "KEY_PREFERRED_PREVIEW_SIZE_FOR_VIDEO = ''preferred-preview-size-for-video''"

definition setPreviewSize :: "'m kv \<Rightarrow> int \<Rightarrow> int \<Rightarrow> 'm \<Rightarrow> 'm" where
  "setPreviewSize kv width height m = set_value kv KEY_PREVIEW_SIZE (size_text width height) m"

definition getPreviewSize :: "'m kv \<Rightarrow> 'm \<Rightarrow> int \<times> int" where
  "getPreviewSize kv m = pair_of (CHR ''x'') (get_value kv KEY_PREVIEW_SIZE m)"

definition getPreferredPreviewSizeForVideo :: "'m kv \<Rightarrow> 'm \<Rightarrow> int \<times> int" where
  "getPreferredPreviewSizeForVideo kv m = pair_of (CHR ''x'') (get_value kv KEY_PREFERRED_PREVIEW_SIZE_FOR_VIDEO m)"

definition getSupportedPreviewSizes :: "'m kv \<Rightarrow> 'm \<Rightarrow> (int \<times> int) list" where
  "getSupportedPreviewSizes kv m = sizes_of (get_value kv KEY_SUPPORTED_PREVIEW_SIZES m)"

definition setVideoSize :: "'m kv \<Rightarrow> int \<Rightarrow> int \<Rightarrow> 'm \<Rightarrow> 'm" where
  "setVideoSize kv width height m = set_value kv KEY_VIDEO_SIZE (size_text width height) m"

definition getVideoSize :: "'m kv \<Rightarrow> 'm \<Rightarrow> int \<times> int" where
  "getVideoSize kv m = pair_of (CHR ''x'') (get_value kv KEY_VIDEO_SIZE m)"

definition getSupportedVideoSizes :: "'m kv \<Rightarrow> 'm \<Rightarrow> (int \<times> int) list" where
  "getSupportedVideoSizes kv m = sizes_of (get_value kv KEY_SUPPORTED_VIDEO_SIZES m)"

definition setPreviewFrameRate :: "'m kv \<Rightarrow> int \<Rightarrow> 'm \<Rightarrow> 'm" where
  "setPreviewFrameRate kv fps m = set_int kv KEY_PREVIEW_FRAME_RATE fps m"

definition getPreviewFrameRate :: "'m kv \<Rightarrow> 'm \<Rightarrow> int" where
  "getPreviewFrameRate kv m = getInt kv KEY_PREVIEW_FRAME_RATE m"

definition getPreviewFpsRange :: "'m kv \<Rightarrow> 'm \<Rightarrow> int \<times> int" where
  "getPreviewFpsRange kv m = pair_of (CHR '','') (get_value kv KEY_PREVIEW_FPS_RANGE m)"

definition setPreviewFormat :: "'m kv \<Rightarrow> string \<Rightarrow> 'm \<Rightarrow> 'm" where
  "setPreviewFormat kv format m = set_value kv KEY_PREVIEW_FORMAT format m"

definition getPreviewFormat :: "'m kv \<Rightarrow> 'm \<Rightarrow> string option" where
  "getPreviewFormat kv m = get_value kv KEY_PREVIEW_FORMAT m"

definition setPictureSize :: "'m kv \<Rightarrow> int \<Rightarrow> int \<Rightarrow> 'm \<Rightarrow> 'm" where
  "setPictureSize kv width height m = set_value kv KEY_PICTURE_SIZE (size_text width height) m"

definition getPictureSize :: "'m kv \<Rightarrow> 'm \<Rightarrow> int \<times> int" where
  "getPictureSize kv m = pair_of (CHR ''x'') (get_value kv KEY_PICTURE_SIZE m)"

definition getSupportedPictureSizes :: "'m kv \<Rightarrow> 'm \<Rightarrow> (int \<times> int) list" where
  "getSupportedPictureSizes kv m = sizes_of (get_value kv KEY_SUPPORTED_PICTURE_SIZES m)"

definition setPictureFormat :: "'m kv \<Rightarrow> string \<Rightarrow> 'm \<Rightarrow> 'm" where
  "setPictureFormat kv format m = set_value kv KEY_PICTURE_FORMAT format m"

definition getPictureFormat :: "'m kv \<Rightarrow> 'm \<Rightarrow> string option" where
  "getPictureFormat kv m = get_value kv KEY_PICTURE_FORMAT m"

section \<open>Formats\<close>

datatype hal_pixel_format =
  HAL_PIXEL_FORMAT_YCbCr_422_SP | HAL_PIXEL_FORMAT_YCrCb_420_SP | HAL_PIXEL_FORMAT_YCbCr_422_I
| HAL_PIXEL_FORMAT_YV12 | HAL_PIXEL_FORMAT_RGB_565 | HAL_PIXEL_FORMAT_RGBA_8888 | HAL_PIXEL_FORMAT_RAW16

definition previewFormatToEnum :: "string option \<Rightarrow> hal_pixel_format option" where
  "previewFormatToEnum format =
     (case format of None \<Rightarrow> Some HAL_PIXEL_FORMAT_YCrCb_420_SP
      | Some f \<Rightarrow>
          if f = ''yuv422sp'' then Some HAL_PIXEL_FORMAT_YCbCr_422_SP
          else if f = ''yuv420sp'' then Some HAL_PIXEL_FORMAT_YCrCb_420_SP
          else if f = ''yuv422i-yuyv'' then Some HAL_PIXEL_FORMAT_YCbCr_422_I
          else if f = ''yuv420p'' then Some HAL_PIXEL_FORMAT_YV12
          else if f = ''rgb565'' then Some HAL_PIXEL_FORMAT_RGB_565
          else if f = ''rgba8888'' then Some HAL_PIXEL_FORMAT_RGBA_8888
          else if f = ''bayer-rggb'' then Some HAL_PIXEL_FORMAT_RAW16
          else None)"

text \<open>\<open>strtok_r\<close> with the separator comma: the words between commas that are not empty.\<close>

fun comma_words :: "string \<Rightarrow> string \<Rightarrow> string list" where
  "comma_words w [] = (if w = [] then [] else [w])"
| "comma_words w (c # cs) =
     (if c = CHR '','' then (if w = [] then comma_words [] cs else w # comma_words [] cs) else comma_words (w @ [c]) cs)"

definition getSupportedPreviewFormats :: "'m kv \<Rightarrow> 'm \<Rightarrow> hal_pixel_format list" where
  "getSupportedPreviewFormats kv m =
     (case get_value kv KEY_SUPPORTED_PREVIEW_FORMATS m of None \<Rightarrow> []
      | Some s \<Rightarrow> List.map_filter (\<lambda>w. previewFormatToEnum (Some w)) (comma_words [] s))"

end
