(* ===== verification/CameraProps.thy ===== *)
theory CameraProps
  imports Camera "HOL-Library.AList"
begin

text \<open>
  The flat form of the parameters loses nothing, and the numbers written into parameters are read back.
\<close>

section \<open>The flat form\<close>

definition clean :: "'m kv \<Rightarrow> 'm \<Rightarrow> bool" where
  "clean kv m \<longleftrightarrow> (\<forall>(k, v) \<in> set (kv_entries kv m). \<not> has_separator k \<and> \<not> has_separator v)"

lemma clean_lookup:
  assumes "kv_laws kv"
  shows "clean kv m \<longleftrightarrow> (\<forall>k v. kv_lookup kv m k = Some v \<longrightarrow> \<not> has_separator k \<and> \<not> has_separator v)"
proof -
  have "distinct (map fst (kv_entries kv m))" using assms by (simp add: kv_laws_def)
  then have "kv_lookup kv m k = Some v \<longleftrightarrow> (k, v) \<in> set (kv_entries kv m)" for k v
    by (simp add: kv_lookup_def)
  then show ?thesis by (auto simp: clean_def)
qed

lemma take_until:
  "c \<notin> set k \<Longrightarrow> takeWhile (\<lambda>x. x \<noteq> c) (k @ c # r) = k \<and> dropWhile (\<lambda>x. x \<noteq> c) (k @ c # r) = c # r"
  by (induction k) auto

lemma take_all: "c \<notin> set k \<Longrightarrow> takeWhile (\<lambda>x. x \<noteq> c) k = k \<and> dropWhile (\<lambda>x. x \<noteq> c) k = []"
  by (induction k) auto

lemma unflatten_entries:
  "(\<forall>(k, v) \<in> set es. \<not> has_separator k \<and> \<not> has_separator v) \<Longrightarrow>
    unflatten_from kv (flatten_entries es) m = fold (\<lambda>(k, v). kv_put kv k v) es m"
proof (induction es arbitrary: m rule: flatten_entries.induct)
  case 1
  then show ?case by (simp add: unflatten_from.simps)
next
  case (2 k v)
  have k: "CHR ''='' \<notin> set k" and v: "CHR '';'' \<notin> set v" using 2 by (auto simp: has_separator_def)
  show ?case
    by (subst unflatten_from.simps) (simp add: Let_def take_until [OF k] take_all [OF v])
next
  case (3 k v e es)
  have k: "CHR ''='' \<notin> set k" and v: "CHR '';'' \<notin> set v" using 3(2) by (auto simp: has_separator_def)
  have IH: "unflatten_from kv (flatten_entries (e # es)) (kv_put kv k v m) = fold (\<lambda>(k, v). kv_put kv k v) (e # es) (kv_put kv k v m)"
    using 3 by simp
  show ?case
    using IH by (subst unflatten_from.simps) (simp add: Let_def take_until [OF k] take_until [OF v])
qed

lemma lookup_fold_put:
  assumes "kv_laws kv"
  shows "kv_lookup kv (fold (\<lambda>(k, v). kv_put kv k v) es m) = kv_lookup kv m ++ map_of (rev es)"
proof (induction es rule: rev_induct)
  case Nil
  then show ?case by simp
next
  case (snoc e es)
  then show ?case using assms by (cases e) (auto simp: kv_laws_def map_add_def fun_eq_iff)
qed

text \<open>What a user of the class can do to the map.\<close>

datatype camera_op = SetText string string | SetInt string int | Remove string

fun run_camera :: "'m kv \<Rightarrow> camera_op list \<Rightarrow> 'm \<Rightarrow> 'm" where
  "run_camera kv [] m = m"
| "run_camera kv (SetText k v # ops) m = run_camera kv ops (set_value kv k v m)"
| "run_camera kv (SetInt k i # ops) m = run_camera kv ops (set_int kv k i m)"
| "run_camera kv (Remove k # ops) m = run_camera kv ops (remove_key kv k m)"

lemma clean_set_value:
  assumes "kv_laws kv" "clean kv m"
  shows "clean kv (set_value kv k v m)"
proof -
  have "kv_lookup kv (kv_put kv k v m) = (kv_lookup kv m)(k \<mapsto> v)" using assms(1) by (simp add: kv_laws_def)
  then show ?thesis using assms(2) unfolding clean_lookup [OF assms(1)] by (simp add: set_value_def)
qed

lemma clean_remove:
  assumes "kv_laws kv" "clean kv m"
  shows "clean kv (remove_key kv k m)"
proof -
  have "kv_lookup kv (kv_remove kv k m) = (kv_lookup kv m)(k := None)" using assms(1) by (simp add: kv_laws_def)
  then show ?thesis using assms(2) unfolding clean_lookup [OF assms(1)] by (simp add: remove_key_def)
qed

lemma run_camera_clean: "kv_laws kv \<Longrightarrow> clean kv m \<Longrightarrow> clean kv (run_camera kv ops m)"
  by (induction kv ops m rule: run_camera.induct) (simp_all add: clean_set_value clean_remove set_int_def)

text \<open>
  C15. Whatever parameters were set and removed, the flat text of the map, read back, gives a map with exactly
  the same values: the checks of \<open>set\<close> keep every text that would be cut wrongly out of the map.
\<close>

theorem unflatten_flatten:
  assumes "kv_laws kv"
  shows "kv_lookup kv (unflatten kv (flatten kv (run_camera kv ops (kv_empty kv)))) = kv_lookup kv (run_camera kv ops (kv_empty kv))"
proof -
  let ?m = "run_camera kv ops (kv_empty kv)"
  have empty: "kv_entries kv (kv_empty kv) = []" using assms by (simp add: kv_laws_def)
  have "clean kv ?m" using run_camera_clean [OF assms, of "kv_empty kv"] empty by (simp add: clean_def [of kv "kv_empty kv"])
  then have "unflatten kv (flatten kv ?m) = fold (\<lambda>(k, v). kv_put kv k v) (kv_entries kv ?m) (kv_empty kv)"
    unfolding unflatten_def flatten_def clean_def by (rule unflatten_entries)
  moreover have "distinct (map fst (kv_entries kv ?m))" using assms by (simp add: kv_laws_def)
  then have "map_of (rev (kv_entries kv ?m)) = map_of (kv_entries kv ?m)" by (subst map_of_inject_set) (simp_all add: rev_map [symmetric])
  ultimately show ?thesis using lookup_fold_put [OF assms] empty by (simp add: kv_lookup_def)
qed

definition alist_kv :: "(string \<times> string) list kv" where
  "alist_kv = \<lparr>kv_empty = [], kv_entries = (\<lambda>m. AList.clearjunk m), kv_put = AList.update, kv_remove = AList.delete\<rparr>"

lemma alist_kv_laws: "kv_laws alist_kv"
  by (simp add: kv_laws_def alist_kv_def kv_lookup_def distinct_clearjunk map_of_clearjunk update_conv' delete_conv')

theorem unflatten_flatten_witness:
  "kv_lookup alist_kv (unflatten alist_kv (flatten alist_kv (run_camera alist_kv
       [SetText ''mode'' ''a=b'', SetText ''zoom'' ''3'', SetInt ''rotation'' 90, Remove ''zoom''] (kv_empty alist_kv))))
     = kv_lookup alist_kv (run_camera alist_kv
       [SetText ''mode'' ''a=b'', SetText ''zoom'' ''3'', SetInt ''rotation'' 90, Remove ''zoom''] (kv_empty alist_kv))"
  by (rule unflatten_flatten [OF alist_kv_laws])

section \<open>Sizes\<close>

lemma parse_size_text:
  assumes "int32 w" "int32 h" "no_digit_first rest"
  shows "parse_pair (size_text w h @ rest) (CHR ''x'') = Some (w, h, rest)"
proof -
  have "no_digit_first (CHR ''x'' # sprintf_d h @ rest)" by (simp add: no_digit_first_def is_digit_def digit_val_def)
  then show ?thesis
    using strtol_sprintf_d [OF assms(1)] strtol_sprintf_d [OF assms(2,3)] by (simp add: parse_pair_def size_text_def)
qed

lemma size_text_clean: "\<not> has_separator (size_text w h)"
proof -
  have "c \<noteq> CHR ''='' \<and> c \<noteq> CHR '';''" if "c \<in> set (sprintf_d v)" for c v
  proof -
    have "c = CHR ''-'' \<or> is_digit 10 c" using that dec_nat_digits by (auto simp: sprintf_d_def split: if_splits)
    then show ?thesis by (auto simp: is_digit_def digit_val_def)
  qed
  then show ?thesis by (auto simp: has_separator_def size_text_def)
qed

lemma get_after_put:
  assumes "kv_laws kv" "v \<noteq> []"
  shows "get_value kv k (kv_put kv k v m) = Some v"
  using assms by (simp add: kv_laws_def get_value_def)

text \<open>
  The sizes of pictures, videos and previews are read back as they were set, for all 32-bit numbers,
  negative ones too.
\<close>

theorem sizes_roundtrip:
  assumes "kv_laws kv" and "int32 w" and "int32 h"
  shows "getPictureSize kv (setPictureSize kv w h m) = (w, h) \<and> getVideoSize kv (setVideoSize kv w h m) = (w, h)
     \<and> getPreviewSize kv (setPreviewSize kv w h m) = (w, h)"
proof -
  have key: "\<not> has_separator KEY_PICTURE_SIZE" "\<not> has_separator KEY_VIDEO_SIZE" "\<not> has_separator KEY_PREVIEW_SIZE"
    by (simp_all add: has_separator_def KEY_PICTURE_SIZE_def KEY_VIDEO_SIZE_def KEY_PREVIEW_SIZE_def)
  have "get_value kv k (set_value kv k (size_text w h) m) = Some (size_text w h)" if "\<not> has_separator k" for k
    using that size_text_clean get_after_put [OF assms(1), of "size_text w h" k m]
    by (simp add: set_value_def size_text_def)
  then show ?thesis
    using key parse_size_text [OF assms(2,3), of "[]"]
    by (simp add: getPictureSize_def setPictureSize_def getVideoSize_def setVideoSize_def getPreviewSize_def
        setPreviewSize_def pair_of_def)
qed

theorem sizes_roundtrip_witness:
  "getPictureSize alist_kv (setPictureSize alist_kv 640 480 []) = (640, 480)
     \<and> getVideoSize alist_kv (setVideoSize alist_kv 640 480 []) = (640, 480)
     \<and> getPreviewSize alist_kv (setPreviewSize alist_kv 640 480 []) = (640, 480)"
  by (rule sizes_roundtrip [OF alist_kv_laws]) (simp_all add: int32_def INT32_MIN_def INT32_MAX_def)

fun sizes_text :: "(int \<times> int) list \<Rightarrow> string" where
  "sizes_text [] = []"
| "sizes_text [(w, h)] = size_text w h"
| "sizes_text ((w, h) # sizes) = size_text w h @ '','' @ sizes_text sizes"

text \<open>
  A list of sizes in the documented form, such as \<open>640x480,320x240\<close>, is parsed to exactly its sizes.
\<close>

theorem parse_sizes_list:
  assumes "sizes \<noteq> []" and "list_all (\<lambda>(w, h). int32 w \<and> int32 h) sizes"
  shows "parseSizesList (sizes_text sizes) = sizes"
  using assms
proof (induction sizes rule: sizes_text.induct)
  case 1
  then show ?case by simp
next
  case (2 w h)
  then show ?case using parse_size_text [of w h "[]"] by (subst parseSizesList.simps) simp
next
  case (3 w h s sizes)
  then show ?case
    using parse_size_text [of w h "CHR '','' # sizes_text (s # sizes)"] by (subst parseSizesList.simps) simp
qed

theorem parse_sizes_list_witness: "parseSizesList (sizes_text [(640, 480), (-1, 0)]) = [(640, 480), (-1, 0)]"
  by (rule parse_sizes_list) (simp_all add: int32_def INT32_MIN_def INT32_MAX_def)

end
