(* ===== verification/SensorReader.thy ===== *)
theory SensorReader
  imports Prelude
begin

text \<open>
  \<open>src/proprietary/hardware/sensor/SensorEventReader.cpp\<close>: the ring of events between the descriptor of
  a sensor device (or a pipe) and the class that reports them. The array is twice as long as the ring: a
  read may run over the end and what ran over is copied to the front. The locale \<open>event_queue\<close> is what
  the sensor classes rely on; the ring is shown to be one.
\<close>

section \<open>The ring\<close>

text \<open>
  An event of the kernel: the integers at their value, the six words of the payload (its bytes are read
  by \<open>event_byte\<close>).
\<close>

record sensor_event =
  time_stamp :: int
  handle_of :: int
  flush_action :: int
  status :: int
  reserved :: int
  word :: "int list"

definition event_byte :: "sensor_event \<Rightarrow> nat \<Rightarrow> int" where
  "event_byte e k = (word e ! (k div 4) div 256 ^ (k mod 4) + 128) mod 256 - 128"

definition DATA_ACTION :: int where "DATA_ACTION = 0"
definition FLUSH_ACTION :: int where "FLUSH_ACTION = 1"
definition BIAS_ACTION :: int where "BIAS_ACTION = 2"
definition CALI_ACTION :: int where "CALI_ACTION = 3"
definition TEMP_ACTION :: int where "TEMP_ACTION = 4"

lemmas action_defs = DATA_ACTION_def FLUSH_ACTION_def BIAS_ACTION_def CALI_ACTION_def TEMP_ACTION_def

text \<open>
  Pointers into the array are indices. \<open>rd_queue\<close> is what the descriptor holds and has not been read;
  \<open>rd_writes\<close> is what the coming writes answer: \<open>False\<close> for one that fails, because the pipe is full (it
  does not block) or there is none. Writes behind the end of the list succeed.
\<close>

record reader =
  mBuffer :: "sensor_event list"
  rd_num :: nat \<comment> \<open>\<open>mBufferEnd - mBuffer\<close>\<close>
  mHead :: nat
  mCurr :: nat
  mFreeSpace :: nat
  rd_queue :: "sensor_event list"
  rd_writes :: "bool list"

definition no_event :: sensor_event where
  "no_event = \<lparr>time_stamp = 0, handle_of = 0, flush_action = 0, status = 0, reserved = 0, word = replicate 6 0\<rparr>"

definition new_reader :: "nat \<Rightarrow> reader" where
  "new_reader numEvents = \<lparr>mBuffer = replicate (numEvents * 2) no_event, rd_num = numEvents,
     mHead = 0, mCurr = 0, mFreeSpace = numEvents, rd_queue = [], rd_writes = []\<rparr>"

text \<open>
  What \<open>read\<close> answers: an error, bytes that are not whole events (they are dropped), or whole events, at
  most as many as asked for.
\<close>

datatype read_answer = ReadError | ReadTorn nat | ReadEvents nat

definition available :: "reader \<Rightarrow> nat" where
  "available r = rd_num r - mFreeSpace r"

definition store_events :: "sensor_event list \<Rightarrow> reader \<Rightarrow> reader" where
  "store_events evs r =
     (let buf = take (mHead r) (mBuffer r) @ evs @ drop (mHead r + length evs) (mBuffer r);
          head = mHead r + length evs;
          r1 = r\<lparr>mBuffer := buf, mHead := head, mFreeSpace := mFreeSpace r - length evs\<rparr>
      in if head > rd_num r then
           let s = head - rd_num r
           in r1\<lparr>mBuffer := take s (drop (rd_num r) buf) @ drop s buf, mHead := s\<rparr>
         else r1)"

definition fill :: "read_answer \<Rightarrow> reader \<Rightarrow> nat \<times> reader" where
  "fill a r =
     (if mFreeSpace r = 0 then (0, r)
      else case a of
        ReadError \<Rightarrow> (0, r)
      | ReadTorn k \<Rightarrow> (0, r\<lparr>rd_queue := drop k (rd_queue r)\<rparr>)
      | ReadEvents k \<Rightarrow>
          let n = min k (mFreeSpace r); evs = take n (rd_queue r)
          in if evs = [] then (0, r)
             else (length evs, store_events evs (r\<lparr>rd_queue := drop n (rd_queue r)\<rparr>)))"

definition readEvent :: "reader \<Rightarrow> sensor_event option" where
  "readEvent r = (if available r \<noteq> 0 then Some (mBuffer r ! mCurr r) else None)"

definition pendingEvent :: "reader \<Rightarrow> bool" where
  "pendingEvent r \<longleftrightarrow> available r \<noteq> 0"

definition next_event :: "reader \<Rightarrow> reader" where
  "next_event r =
     (let c = mCurr r + 1
      in r\<lparr>mCurr := (if c \<ge> rd_num r then 0 else c), mFreeSpace := mFreeSpace r + 1\<rparr>)"

text \<open>
  What is written arrives behind the rest; an event whose write fails is only logged, and lost. No caller
  looks at the result.
\<close>

definition writeEvent :: "sensor_event \<Rightarrow> reader \<Rightarrow> reader" where
  "writeEvent e r =
     (case rd_writes r of
        [] \<Rightarrow> r\<lparr>rd_queue := rd_queue r @ [e]\<rparr>
      | accepted # rest \<Rightarrow>
          (if accepted then r\<lparr>rd_queue := rd_queue r @ [e], rd_writes := rest\<rparr> else r\<lparr>rd_writes := rest\<rparr>))"

section \<open>The interface\<close>

text \<open>
  A queue that is looked at and popped at its front: \<open>items\<close> is what it holds, oldest first.
\<close>

locale event_queue =
  fixes ok :: "'r \<Rightarrow> bool" and items :: "'r \<Rightarrow> 'e list"
    and peek :: "'r \<Rightarrow> 'e option" and pop :: "'r \<Rightarrow> 'r"
  assumes peek_front: "ok r \<Longrightarrow> peek r = (case items r of [] \<Rightarrow> None | e # es \<Rightarrow> Some e)"
    and pop_ok: "ok r \<Longrightarrow> items r \<noteq> [] \<Longrightarrow> ok (pop r)"
    and pop_items: "ok r \<Longrightarrow> items r \<noteq> [] \<Longrightarrow> items (pop r) = tl (items r)"
begin

lemma peek_None: "ok r \<Longrightarrow> peek r = None \<longleftrightarrow> items r = []"
  by (simp add: peek_front split: list.splits)

lemma peek_Some: "ok r \<Longrightarrow> peek r = Some e \<Longrightarrow> items r = e # items (pop r) \<and> ok (pop r)"
  using peek_front [of r] pop_items [of r] pop_ok [of r] by (auto split: list.splits)

lemma pop_n:
  "ok r \<Longrightarrow> n \<le> length (items r) \<Longrightarrow> ok ((pop ^^ n) r) \<and> items ((pop ^^ n) r) = drop n (items r)"
proof (induction n)
  case (Suc n)
  then have IH: "ok ((pop ^^ n) r)" "items ((pop ^^ n) r) = drop n (items r)" by auto
  then have "items ((pop ^^ n) r) \<noteq> []" using Suc.prems(2) by simp
  then show ?case using IH pop_ok pop_items by (simp add: tl_drop drop_Suc)
qed simp

end

section \<open>The ring is a queue\<close>

definition reader_ok :: "reader \<Rightarrow> bool" where
  "reader_ok r \<longleftrightarrow> length (mBuffer r) = 2 * rd_num r \<and> mCurr r < rd_num r \<and> mFreeSpace r \<le> rd_num r
     \<and> mHead r \<le> rd_num r \<and> mHead r mod rd_num r = (mCurr r + available r) mod rd_num r"

definition contents :: "reader \<Rightarrow> sensor_event list" where
  "contents r = map (\<lambda>i. mBuffer r ! ((mCurr r + i) mod rd_num r)) [0..<available r]"

lemma new_reader_ok: "0 < n \<Longrightarrow> reader_ok (new_reader n) \<and> contents (new_reader n) = []"
  by (simp add: reader_ok_def contents_def new_reader_def available_def)

lemma contents_length [simp]: "length (contents r) = available r"
  by (simp add: contents_def)

lemma readEvent_contents:
  assumes "reader_ok r"
  shows "readEvent r = (case contents r of [] \<Rightarrow> None | e # es \<Rightarrow> Some e)"
proof (cases "available r")
  case 0
  then show ?thesis by (simp add: readEvent_def contents_def)
next
  case (Suc m)
  then show ?thesis using assms
    by (simp add: readEvent_def contents_def reader_ok_def upt_conv_Cons del: upt_Suc)
qed

lemma next_contents:
  assumes "reader_ok r" "contents r \<noteq> []"
  shows "reader_ok (next_event r) \<and> contents (next_event r) = tl (contents r)"
proof -
  let ?n = "rd_num r"
  obtain m where m: "available r = Suc m"
    using assms(2) by (metis contents_length length_0_conv not0_implies_Suc)
  have n0: "0 < ?n" and c: "mCurr r < ?n" using assms(1) by (auto simp: reader_ok_def)
  have free: "mFreeSpace r + 1 \<le> ?n" "available (next_event r) = m"
    using m by (auto simp: available_def next_event_def Let_def)
  have curr: "mCurr (next_event r) = Suc (mCurr r) mod ?n"
    using c by (auto simp: next_event_def Let_def mod_if)
  have step: "(Suc (mCurr r) mod ?n + i) mod ?n = (mCurr r + Suc i) mod ?n" for i
    by (simp add: mod_add_left_eq)
  have "contents (next_event r) = map (\<lambda>i. mBuffer r ! ((mCurr r + Suc i) mod ?n)) [0..<m]"
    using free curr step by (simp add: contents_def next_event_def Let_def)
  also have "\<dots> = tl (contents r)"
    by (simp add: contents_def m map_upt_Suc del: upt_Suc)
  finally have items: "contents (next_event r) = tl (contents r)" .
  have "mHead r mod ?n = (mCurr (next_event r) + m) mod ?n"
    using assms(1) m curr step [of m] by (simp add: reader_ok_def)
  then show ?thesis
    using assms(1) items free curr n0 by (simp add: reader_ok_def next_event_def Let_def)
qed

interpretation ring: event_queue reader_ok contents readEvent next_event
  by unfold_locales (auto simp: readEvent_contents next_contents)

lemma store_slot:
  assumes "length buf = 2 * n" "h \<le> n" "length evs \<le> n" "p < n"
    "buf1 = take h buf @ evs @ drop (h + length evs) buf" "s = h + length evs - n"
  shows "(take s (drop n buf1) @ drop s buf1) ! p
    = (if h \<le> p \<and> p < h + length evs then evs ! (p - h)
       else if p + n < h + length evs then evs ! (p + n - h) else buf ! p)"
proof -
  have len: "length buf1 = 2 * n" using assms by simp
  have at: "buf1 ! q = (if h \<le> q \<and> q < h + length evs then evs ! (q - h) else buf ! q)" if "q < 2 * n" for q
    using that assms by (auto simp: nth_append min_def)
  show ?thesis
  proof (cases "p < s")
    case True
    have "s \<le> n" using assms by simp
    then have "(take s (drop n buf1) @ drop s buf1) ! p = buf1 ! (n + p)"
      using len True by (simp add: nth_append)
    moreover have "h \<le> n + p" "n + p < h + length evs" "\<not> (h \<le> p)" using True assms by auto
    ultimately show ?thesis using at [of "n + p"] assms by (simp add: add.commute)
  next
    case False
    have "length (take s (drop n buf1)) = s" using len assms by simp
    then have "(take s (drop n buf1) @ drop s buf1) ! p = drop s buf1 ! (p - s)"
      using False by (simp add: nth_append)
    also have "\<dots> = buf1 ! p" using False len assms(1-4,6) by simp
    finally show ?thesis using at [of p] False assms by auto
  qed
qed

lemma ring_offset:
  fixes c a i n :: nat
  assumes "c < n" "a \<le> n" "h \<le> n" "h mod n = (c + a) mod n" "i < a + k" "a + k \<le> n"
  defines "p \<equiv> (c + i) mod n"
  shows "if i < a then \<not> (h \<le> p \<and> p < h + k) \<and> \<not> (p + n < h + k)
         else (if h \<le> p \<and> p < h + k then p - h = i - a else p + n < h + k \<and> p + n - h = i - a)"
proof -
  have p: "p = (if c + i < n then c + i else c + i - n)" using assms by (auto simp: mod_if)
  have h: "h = (if c + a < n then c + a else c + a - n) \<or> (h = n \<and> (c + a = n \<or> c + a = 0))"
    using assms by (auto simp: mod_if split: if_splits)
  show ?thesis using p h assms by (auto split: if_splits)
qed

lemma store_contents:
  assumes "reader_ok r" "length evs \<le> mFreeSpace r"
  shows "reader_ok (store_events evs r) \<and> contents (store_events evs r) = contents r @ evs
    \<and> rd_queue (store_events evs r) = rd_queue r"
proof -
  let ?n = "rd_num r" and ?r = "store_events evs r"
  define buf1 where "buf1 = take (mHead r) (mBuffer r) @ evs @ drop (mHead r + length evs) (mBuffer r)"
  define s where "s = mHead r + length evs - ?n"
  have ok: "length (mBuffer r) = 2 * ?n" "mCurr r < ?n" "mFreeSpace r \<le> ?n" "mHead r \<le> ?n"
    "mHead r mod ?n = (mCurr r + available r) mod ?n" using assms(1) by (auto simp: reader_ok_def)
  have fields: "mBuffer ?r = take s (drop ?n buf1) @ drop s buf1" "rd_num ?r = ?n" "mCurr ?r = mCurr r"
    "mFreeSpace ?r = mFreeSpace r - length evs"
    "mHead ?r = (if mHead r + length evs > ?n then s else mHead r + length evs)" "rd_queue ?r = rd_queue r"
    by (auto simp: store_events_def Let_def buf1_def [symmetric] s_def)
  have avail: "available ?r = available r + length evs" using fields assms ok by (simp add: available_def)
  have slot: "mBuffer ?r ! ((mCurr r + i) mod ?n)
      = (if i < available r then mBuffer r ! ((mCurr r + i) mod ?n) else evs ! (i - available r))"
    if "i < available r + length evs" for i
  proof -
    have "(mCurr r + i) mod ?n < ?n" using ok by simp
    then have "mBuffer ?r ! ((mCurr r + i) mod ?n) = (take s (drop ?n buf1) @ drop s buf1) ! ((mCurr r + i) mod ?n)"
      using fields by simp
    also have "\<dots> = (let p = (mCurr r + i) mod ?n in
        if mHead r \<le> p \<and> p < mHead r + length evs then evs ! (p - mHead r)
        else if p + ?n < mHead r + length evs then evs ! (p + ?n - mHead r) else mBuffer r ! p)"
      unfolding Let_def by (rule store_slot) (use ok assms in \<open>auto simp: buf1_def s_def\<close>)
    finally show ?thesis
      using ring_offset [of "mCurr r" ?n "available r" "mHead r" i "length evs"] ok that assms
      by (auto simp: Let_def available_def split: if_splits)
  qed
  have "contents ?r = contents r @ evs"
  proof (rule nth_equalityI)
    show "length (contents ?r) = length (contents r @ evs)" using avail by simp
    fix i assume "i < length (contents ?r)"
    then have "i < available r + length evs" using avail by simp
    then show "contents ?r ! i = (contents r @ evs) ! i"
      using slot [of i] avail unfolding nth_append [of "contents r"]
      by (simp add: contents_def fields(2,3) del: fields(1))
  qed
  moreover have "mHead ?r mod ?n = (mCurr r + available ?r) mod ?n"
  proof -
    have "mHead ?r mod ?n = (mHead r + length evs) mod ?n"
      using fields ok assms s_def by (auto simp: le_mod_geq)
    also have "\<dots> = (mCurr r + available r + length evs) mod ?n"
      using ok(5) by (metis mod_add_left_eq)
    finally show ?thesis using avail by (simp add: add.assoc)
  qed
  ultimately show ?thesis
    using ok fields assms s_def by (auto simp: reader_ok_def buf1_def)
qed

text \<open>What a read adds, at the back.\<close>

definition read_adds :: "read_answer \<Rightarrow> reader \<Rightarrow> sensor_event list" where
  "read_adds a r = (case a of ReadEvents k \<Rightarrow> take (min k (mFreeSpace r)) (rd_queue r) | _ \<Rightarrow> [])"

lemma fill_contents:
  assumes "reader_ok r"
  shows "reader_ok (snd (fill a r)) \<and> contents (snd (fill a r)) = contents r @ read_adds a r"
proof (cases "mFreeSpace r = 0 \<or> (\<forall>k. a = ReadEvents k \<longrightarrow> take (min k (mFreeSpace r)) (rd_queue r) = [])")
  case True
  then show ?thesis using assms
    by (auto simp: fill_def read_adds_def Let_def reader_ok_def contents_def available_def split: read_answer.splits)
next
  case False
  then obtain k where a: "a = ReadEvents k" "mFreeSpace r \<noteq> 0" "take (min k (mFreeSpace r)) (rd_queue r) \<noteq> []" by auto
  define m where "m = min k (mFreeSpace r)"
  let ?r = "r\<lparr>rd_queue := drop m (rd_queue r)\<rparr>"
  have m: "m \<le> mFreeSpace r" "take m (rd_queue r) \<noteq> []" using a by (auto simp: m_def)
  have "reader_ok ?r" "contents ?r = contents r"
    using assms by (auto simp: reader_ok_def contents_def available_def)
  moreover have "fill a r = (length (take m (rd_queue r)), store_events (take m (rd_queue r)) ?r)"
    using a m by (simp add: fill_def m_def [symmetric] Let_def)
  moreover have "read_adds a r = take m (rd_queue r)" by (simp add: a read_adds_def m_def)
  ultimately show ?thesis using store_contents [of ?r "take m (rd_queue r)"] m by simp
qed

end
