(* ===== verification/SensorBase.thy ===== *)
theory SensorBase
  imports SensorReader CLib
begin

text \<open>
  What the sensor classes of \<open>src/proprietary/hardware/sensor/\<close> have in common: the events they report,
  their attributes under sysfs, and the loop of \<open>readEvents\<close>, which every class has a copy of. The classes
  themselves are in SensorDrivers and SensorDrivers2.
\<close>

section \<open>Handles and events\<close>

text \<open>
  The handles of \<open>include/linux/hwmsensor.h\<close>; those of the standard types are the numbers of the
  platform's \<open>hardware/sensors.h\<close> less one. A type is its handle plus one, in the private range when
  the sensor is not a standard one.
\<close>

definition ID_ACCELEROMETER :: int where "ID_ACCELEROMETER = 0"
definition ID_MAGNETIC :: int where "ID_MAGNETIC = 1"
definition ID_ORIENTATION :: int where "ID_ORIENTATION = 2"
definition ID_GYROSCOPE :: int where "ID_GYROSCOPE = 3"
definition ID_LIGHT :: int where "ID_LIGHT = 4"
definition ID_PRESSURE :: int where "ID_PRESSURE = 5"
definition ID_PROXIMITY :: int where "ID_PROXIMITY = 7"
definition ID_GRAVITY :: int where "ID_GRAVITY = 8"
definition ID_LINEAR_ACCELERATION :: int where "ID_LINEAR_ACCELERATION = 9"
definition ID_ROTATION_VECTOR :: int where "ID_ROTATION_VECTOR = 10"
definition ID_RELATIVE_HUMIDITY :: int where "ID_RELATIVE_HUMIDITY = 11"
definition ID_MAGNETIC_UNCALIBRATED :: int where "ID_MAGNETIC_UNCALIBRATED = 13"
definition ID_GAME_ROTATION_VECTOR :: int where "ID_GAME_ROTATION_VECTOR = 14"
definition ID_GYROSCOPE_UNCALIBRATED :: int where "ID_GYROSCOPE_UNCALIBRATED = 15"
definition ID_SIGNIFICANT_MOTION :: int where "ID_SIGNIFICANT_MOTION = 16"
definition ID_STEP_DETECTOR :: int where "ID_STEP_DETECTOR = 17"
definition ID_STEP_COUNTER :: int where "ID_STEP_COUNTER = 18"
definition ID_GEOMAGNETIC_ROTATION_VECTOR :: int where "ID_GEOMAGNETIC_ROTATION_VECTOR = 19"
definition ID_TILT_DETECTOR :: int where "ID_TILT_DETECTOR = 21"
definition ID_WAKE_GESTURE :: int where "ID_WAKE_GESTURE = 22"
definition ID_GLANCE_GESTURE :: int where "ID_GLANCE_GESTURE = 23"
definition ID_PICK_UP_GESTURE :: int where "ID_PICK_UP_GESTURE = 24"
definition ID_DEVICE_ORIENTATION :: int where "ID_DEVICE_ORIENTATION = 26"
definition ID_STATIONARY_DETECT :: int where "ID_STATIONARY_DETECT = 28"
definition ID_MOTION_DETECT :: int where "ID_MOTION_DETECT = 29"
definition ID_ACCELEROMETER_UNCALIBRATED :: int where "ID_ACCELEROMETER_UNCALIBRATED = 34"
definition ID_PEDOMETER :: int where "ID_PEDOMETER = 54"
definition ID_IN_POCKET :: int where "ID_IN_POCKET = 55"
definition ID_ACTIVITY :: int where "ID_ACTIVITY = 56"
definition ID_PDR :: int where "ID_PDR = 57"
definition ID_FLAT :: int where "ID_FLAT = 59"
definition ID_FACE_DOWN :: int where "ID_FACE_DOWN = 60"
definition ID_SHAKE :: int where "ID_SHAKE = 61"
definition ID_ANSWER_CALL :: int where "ID_ANSWER_CALL = 63"
definition ID_FLOOR_COUNTER :: int where "ID_FLOOR_COUNTER = 65"
definition ID_EKG :: int where "ID_EKG = 66"
definition ID_PPG1 :: int where "ID_PPG1 = 67"
definition ID_PPG2 :: int where "ID_PPG2 = 68"
definition ID_RGBW :: int where "ID_RGBW = 69"
definition ID_GYRO_TEMPERATURE :: int where "ID_GYRO_TEMPERATURE = 70"
definition ID_SAR :: int where "ID_SAR = 71"
definition ID_STEP_DETECTOR_WAKEUP :: int where "ID_STEP_DETECTOR_WAKEUP = 100"
definition ID_OFFSET :: int where "ID_OFFSET = 1"

lemmas id_defs = ID_ACCELEROMETER_def ID_MAGNETIC_def ID_ORIENTATION_def ID_GYROSCOPE_def ID_LIGHT_def
  ID_PRESSURE_def ID_PROXIMITY_def ID_GRAVITY_def ID_LINEAR_ACCELERATION_def ID_ROTATION_VECTOR_def
  ID_RELATIVE_HUMIDITY_def ID_MAGNETIC_UNCALIBRATED_def ID_GAME_ROTATION_VECTOR_def
  ID_GYROSCOPE_UNCALIBRATED_def ID_SIGNIFICANT_MOTION_def ID_STEP_DETECTOR_def ID_STEP_COUNTER_def
  ID_GEOMAGNETIC_ROTATION_VECTOR_def ID_TILT_DETECTOR_def ID_WAKE_GESTURE_def ID_GLANCE_GESTURE_def
  ID_PICK_UP_GESTURE_def ID_DEVICE_ORIENTATION_def ID_STATIONARY_DETECT_def ID_MOTION_DETECT_def
  ID_ACCELEROMETER_UNCALIBRATED_def ID_PEDOMETER_def ID_IN_POCKET_def ID_ACTIVITY_def ID_PDR_def ID_FLAT_def
  ID_FACE_DOWN_def ID_SHAKE_def ID_ANSWER_CALL_def ID_FLOOR_COUNTER_def ID_EKG_def ID_PPG1_def ID_PPG2_def
  ID_RGBW_def ID_GYRO_TEMPERATURE_def ID_SAR_def ID_STEP_DETECTOR_WAKEUP_def

definition PRIVATE_BASE :: int where "PRIVATE_BASE = 65536"
definition SENSOR_TYPE_META_DATA :: int where "SENSOR_TYPE_META_DATA = 0"
definition META_DATA_FLUSH_COMPLETE :: u32 where "META_DATA_FLUSH_COMPLETE = 1"

definition std_type :: "int \<Rightarrow> int" where "std_type handle = handle + 1"

definition private_type :: "int \<Rightarrow> int" where "private_type handle = handle + 1 + PRIVATE_BASE"

text \<open>
  \<open>data\<close> is the union of the event: sixteen words, floats by their bits. A completed flush keeps what and
  sensor in the first two.
\<close>

datatype event_version = VERSION_0 | VERSION_EVENT | META_DATA_VERSION

record sensors_event =
  version :: event_version
  sensor :: int
  type_of :: int
  timestamp :: int
  data :: "u32 list"

definition blank_event :: "event_version \<Rightarrow> int \<Rightarrow> int \<Rightarrow> sensors_event" where
  "blank_event v i t = \<lparr>version = v, sensor = i, type_of = t, timestamp = 0, data = replicate 16 0\<rparr>"

section \<open>The outside world\<close>

text \<open>
  \<open>sysfs_open\<close> says which attributes can be opened, \<open>sysfs_read\<close> what reading one gives, \<open>clock\<close> the
  answer of each call of \<open>elapsedRealtimeNano\<close>, \<open>saved_floats\<close> and \<open>saved_ints\<close> the numbers that can be read
  from a calibration file before the first that cannot (none when there is no file). The
  arithmetic on \<open>float\<close> is a parameter: \<open>fl\<close> converts an integer, \<open>fl_div\<close> divides by one, \<open>fl_mul\<close>
  multiplies by one and truncates.
\<close>

record sensor_env =
  sysfs_open :: "string \<Rightarrow> bool"
  sysfs_read :: "string \<Rightarrow> string option"
  clock :: "nat \<Rightarrow> int"
  saved_floats :: "string \<Rightarrow> u32 list"
  saved_ints :: "string \<Rightarrow> int list"
  fl :: "int \<Rightarrow> u32"
  fl_div :: "u32 \<Rightarrow> int \<Rightarrow> u32"
  fl_mul :: "u32 \<Rightarrow> int \<Rightarrow> int"
  fl_add :: "u32 \<Rightarrow> u32 \<Rightarrow> u32"
  fl_not_negative :: "u32 \<Rightarrow> bool"

text \<open>What a class does to the world, in order; \<open>ManagerActivate\<close> and \<open>ManagerBatch\<close> are calls of SensorManager.\<close>

datatype effect =
  Wrote string string
| WroteInts string "int list"
| SavedFloats string "u32 list"
| SavedInts string "int list"
| ManagerActivate int bool
| ManagerBatch int int int

record base =
  mPendingEvent :: sensors_event
  mSensorReader :: reader
  sysfs_dir :: string
  effects :: "effect list"
  ticks :: nat

definition now :: "sensor_env \<Rightarrow> 'a base_scheme \<Rightarrow> int" where
  "now e s = clock e (ticks s)"

definition tick :: "'a base_scheme \<Rightarrow> 'a base_scheme" where
  "tick s = s\<lparr>ticks := Suc (ticks s)\<rparr>"

definition did :: "effect \<Rightarrow> 'a base_scheme \<Rightarrow> 'a base_scheme" where
  "did f s = s\<lparr>effects := effects s @ [f]\<rparr>"

definition attr_opens :: "sensor_env \<Rightarrow> string \<Rightarrow> 'a base_scheme \<Rightarrow> bool" where
  "attr_opens e attr s \<longleftrightarrow> sysfs_open e (sysfs_dir s @ attr)"

definition wrote :: "string \<Rightarrow> string \<Rightarrow> 'a base_scheme \<Rightarrow> 'a base_scheme" where
  "wrote attr text s = did (Wrote (sysfs_dir s @ attr) text) s"

text \<open>The operations that only write a text into an attribute.\<close>

definition write_attr :: "sensor_env \<Rightarrow> string \<Rightarrow> string \<Rightarrow> 'a base_scheme \<Rightarrow> int \<times> 'a base_scheme" where
  "write_attr e attr text s = (if \<not> attr_opens e attr s then (-1, s) else (0, wrote attr text s))"

definition batch_text :: "int \<Rightarrow> int \<Rightarrow> int \<Rightarrow> int \<Rightarrow> string" where
  "batch_text handle flags samplingPeriodNs maxBatchReportLatencyNs =
     sprintf_d handle @ '','' @ sprintf_d flags @ '','' @ sprintf_d samplingPeriodNs @ '','' @ sprintf_d maxBatchReportLatencyNs"

text \<open>The divisor a driver announces in its attribute; at most 63 characters are read.\<close>

definition read_div :: "sensor_env \<Rightarrow> string \<Rightarrow> int \<Rightarrow> int" where
  "read_div e path d =
     (case sysfs_read e path of None \<Rightarrow> d
      | Some t \<Rightarrow> (case scan_d (take 63 t) of None \<Rightarrow> d | Some (v, rest) \<Rightarrow> v))"

text \<open>
  \<open>SensorSaved::getCalibrationInt32\<close> and \<open>getCalibrationFloat\<close>: whether all numbers were there, and the
  array, zero before the call, with those that were.
\<close>

definition get_saved :: "nat \<Rightarrow> 'a list \<Rightarrow> 'a list \<Rightarrow> bool \<times> 'a list" where
  "get_saved n zeros v = (n \<le> length v, take n v @ drop (length v) zeros)"

text \<open>What a caller has that clears the array when the numbers were not all there.\<close>

definition saved_or_zero :: "nat \<Rightarrow> 'a :: zero list \<Rightarrow> 'a list" where
  "saved_or_zero n v =
     (let (ok, out) = get_saved n (replicate n 0) v in if ok then out else replicate n 0)"

text \<open>The calibration a constructor hands to the driver.\<close>

definition send_cali :: "sensor_env \<Rightarrow> string \<Rightarrow> int list \<Rightarrow> 'a base_scheme \<Rightarrow> 'a base_scheme" where
  "send_cali e attr vs s = (if attr_opens e attr s then did (WroteInts (sysfs_dir s @ attr) vs) s else s)"

section \<open>Filling in the pending event\<close>

definition flush_complete :: "sensor_env \<Rightarrow> int \<Rightarrow> 'a base_scheme \<Rightarrow> 'a base_scheme" where
  "flush_complete e handle s =
     tick (s\<lparr>mPendingEvent := (mPendingEvent s)\<lparr>version := META_DATA_VERSION, sensor := 0,
        type_of := SENSOR_TYPE_META_DATA, timestamp := now e s,
        data := META_DATA_FLUSH_COMPLETE # of_int handle # drop 2 (data (mPendingEvent s))\<rparr>\<rparr>)"

text \<open>\<open>words\<close> replace the first words of the union, what is behind them stays.\<close>

definition data_event :: "int \<Rightarrow> int \<Rightarrow> int \<Rightarrow> u32 list \<Rightarrow> 'a base_scheme \<Rightarrow> 'a base_scheme" where
  "data_event handle type time words s =
     s\<lparr>mPendingEvent := (mPendingEvent s)\<lparr>version := VERSION_EVENT, sensor := handle, type_of := type,
        timestamp := time, data := words @ drop (length words) (data (mPendingEvent s))\<rparr>\<rparr>"

text \<open>The same with the time of the call.\<close>

definition data_event_now :: "sensor_env \<Rightarrow> int \<Rightarrow> int \<Rightarrow> u32 list \<Rightarrow> 'a base_scheme \<Rightarrow> 'a base_scheme" where
  "data_event_now e handle type words s = tick (data_event handle type (now e s) words s)"

text \<open>The accuracy of a three-axis event is the byte behind its three floats.\<close>

definition set_status :: "int \<Rightarrow> 'a base_scheme \<Rightarrow> 'a base_scheme" where
  "set_status st s =
     s\<lparr>mPendingEvent := (mPendingEvent s)\<lparr>data :=
        (data (mPendingEvent s))[3 := (data (mPendingEvent s) ! 3 AND 0xffffff00) OR (of_int st AND 0xff)]\<rparr>\<rparr>"

definition scaled :: "sensor_env \<Rightarrow> sensor_event \<Rightarrow> int \<Rightarrow> nat list \<Rightarrow> u32 list" where
  "scaled e ev dv ks = map (\<lambda>k. fl_div e (fl e (word ev ! k)) dv) ks"

section \<open>readEvents\<close>

text \<open>
  What differs between the classes: \<open>hk_process\<close> is \<open>processEvent\<close>, \<open>hk_known\<close> the check of the event's
  handle behind it, \<open>hk_emit\<close> what the class reports for the event when there is room for that many.
\<close>

record 'd hooks =
  hk_process :: "sensor_event \<Rightarrow> 'd \<Rightarrow> 'd"
  hk_known :: "sensor_event \<Rightarrow> bool"
  hk_emit :: "sensor_event \<Rightarrow> nat \<Rightarrow> 'd \<Rightarrow> sensors_event list \<times> 'd"

definition EINVAL :: int where "EINVAL = 22"

function read_loop :: "'d hooks \<Rightarrow> nat \<Rightarrow> reader \<Rightarrow> 'd \<Rightarrow> sensors_event list \<Rightarrow> int \<times> sensors_event list \<times> reader \<times> 'd" where
  "read_loop hk count rd d out =
     (case readEvent rd of
        None \<Rightarrow> (int (length out), out, rd, d)
      | Some ev \<Rightarrow>
          if count = 0 then (int (length out), out, rd, d)
          else
            let d1 = hk_process hk ev d
            in if \<not> hk_known hk ev then (- EINVAL, out, rd, d1)
               else let (evs, d2) = hk_emit hk ev count d1
                    in read_loop hk (count - length evs) (next_event rd) d2 (out @ evs))"
  by pat_completeness auto
termination
  by (relation "measure (\<lambda>(hk, count, rd, d, out). available rd)")
    (auto simp: readEvent_def next_event_def available_def Let_def split: if_splits)

declare read_loop.simps [simp del]

definition read_events :: "'a base_scheme hooks \<Rightarrow> read_answer \<Rightarrow> int \<Rightarrow> 'a base_scheme
    \<Rightarrow> int \<times> sensors_event list \<times> 'a base_scheme" where
  "read_events hk a count s =
     (if count < 1 then (- EINVAL, [], s)
      else
        let (n, evs, rd, s1) = read_loop hk (nat count) (snd (fill a (mSensorReader s))) s []
        in (n, evs, s1\<lparr>mSensorReader := rd\<rparr>))"

text \<open>Data and completed flushes are reported, the other actions are not.\<close>

definition is_reported :: "sensor_event \<Rightarrow> bool" where
  "is_reported ev \<longleftrightarrow> flush_action ev \<le> FLUSH_ACTION"

definition emit_pending :: "sensor_event \<Rightarrow> nat \<Rightarrow> 'a base_scheme \<Rightarrow> sensors_event list \<times> 'a base_scheme" where
  "emit_pending ev count s = (if is_reported ev then ([mPendingEvent s], s) else ([], s))"

definition plain_hooks :: "(sensor_event \<Rightarrow> 'a base_scheme \<Rightarrow> 'a base_scheme) \<Rightarrow> 'a base_scheme hooks" where
  "plain_hooks process = \<lparr>hk_process = process, hk_known = (\<lambda>ev. True), hk_emit = emit_pending\<rparr>"

section \<open>Classes with one device\<close>

record hw_sensor = base +
  mEnabled :: int
  mEnabledTime :: int
  mDataDiv :: int

definition hw_enable :: "sensor_env \<Rightarrow> string \<Rightarrow> int \<Rightarrow> 'a hw_sensor_scheme \<Rightarrow> int \<times> 'a hw_sensor_scheme" where
  "hw_enable e attr en s =
     (if \<not> attr_opens e attr s then (-1, s)
      else if en \<noteq> 0 then (0, wrote attr ''1'' (tick (s\<lparr>mEnabled := 1, mEnabledTime := now e s\<rparr>)))
      else (0, wrote attr ''0'' (s\<lparr>mEnabled := 0\<rparr>)))"

definition hw_new :: "sensor_env \<Rightarrow> bool \<Rightarrow> nat \<Rightarrow> int \<Rightarrow> int \<Rightarrow> string \<Rightarrow> string \<Rightarrow> hw_sensor" where
  "hw_new e opened events handle type dir active =
     \<lparr>mPendingEvent = blank_event VERSION_EVENT handle type, mSensorReader = new_reader events,
      sysfs_dir = (if opened then dir else []), effects = [], ticks = 0,
      mEnabled = 0, mEnabledTime = 0, mDataDiv = read_div e (dir @ active) 1\<rparr>"

end
