(* ===== verification/SensorDrivers.thy ===== *)
theory SensorDrivers
  imports SensorBase
begin

text \<open>
  The sensor classes with one device and one handle, of \<open>src/proprietary/hardware/sensor/\<close>:
  \<open>Pressure.cpp\<close>, \<open>Pedometer.cpp\<close>, \<open>Activity.cpp\<close>, \<open>Proximity.cpp\<close>, \<open>Humidity.cpp\<close>, \<open>Acceleration.cpp\<close>,
  \<open>Magnetic.cpp\<close> and the hardware gyroscope of \<open>Gyroscope.cpp\<close>, in the build of \<open>Android.bp\<close>
  (\<open>ACC_GYRO_CALIBRATION_SUPPORT\<close>, \<open>MAG_CALIBRATION_IN_SENSORHUB\<close> and \<open>DEBUG_PERFORMANCE\<close> not defined).
  Each operation returns its result and the object. \<open>IGNORE_EVENT_TIME\<close> is 0 but in \<open>Humidity.cpp\<close>.
\<close>

section \<open>Pressure\<close>

definition PressureSensor :: "sensor_env \<Rightarrow> bool \<Rightarrow> hw_sensor" where
  "PressureSensor e opened =
     (let s = hw_new e opened 32 ID_PRESSURE (std_type ID_PRESSURE) ''/sys/class/sensor/m_baro_misc/'' ''baroactive''
      in if opened then s else s\<lparr>mDataDiv := 1\<rparr>)"

definition Pressure_enable :: "sensor_env \<Rightarrow> int \<Rightarrow> int \<Rightarrow> hw_sensor \<Rightarrow> int \<times> hw_sensor" where
  "Pressure_enable e handle en s = hw_enable e ''baroactive'' en s"

definition Pressure_setDelay :: "sensor_env \<Rightarrow> int \<Rightarrow> int \<Rightarrow> hw_sensor \<Rightarrow> int \<times> hw_sensor" where
  "Pressure_setDelay e handle ns s = write_attr e ''barodelay'' (sprintf_d ns) s"

definition Pressure_batch :: "sensor_env \<Rightarrow> int \<Rightarrow> int \<Rightarrow> int \<Rightarrow> int \<Rightarrow> hw_sensor \<Rightarrow> int \<times> hw_sensor" where
  "Pressure_batch e handle flags period latency s = write_attr e ''barobatch'' (batch_text handle flags period latency) s"

definition Pressure_flush :: "sensor_env \<Rightarrow> int \<Rightarrow> hw_sensor \<Rightarrow> int \<times> hw_sensor" where
  "Pressure_flush e handle s = write_attr e ''baroflush'' (sprintf_d handle) s"

definition Pressure_processEvent :: "sensor_env \<Rightarrow> sensor_event \<Rightarrow> hw_sensor \<Rightarrow> hw_sensor" where
  "Pressure_processEvent e ev s =
     (if flush_action ev = FLUSH_ACTION then flush_complete e ID_PRESSURE s
      else if flush_action ev = DATA_ACTION then
        data_event ID_PRESSURE (std_type ID_PRESSURE) (time_stamp ev) (scaled e ev (mDataDiv s) [0]) s
      else s)"

definition Pressure_readEvents :: "sensor_env \<Rightarrow> read_answer \<Rightarrow> int \<Rightarrow> hw_sensor \<Rightarrow> int \<times> sensors_event list \<times> hw_sensor" where
  "Pressure_readEvents e a count s = read_events (plain_hooks (Pressure_processEvent e)) a count s"

section \<open>Pedometer\<close>

definition PedometerSensor :: "sensor_env \<Rightarrow> bool \<Rightarrow> hw_sensor" where
  "PedometerSensor e opened =
     hw_new e opened 32 ID_PEDOMETER (private_type ID_PEDOMETER) ''/sys/class/sensor/m_pedo_misc/'' ''pedoactive''"

definition Pedometer_enable :: "sensor_env \<Rightarrow> int \<Rightarrow> int \<Rightarrow> hw_sensor \<Rightarrow> int \<times> hw_sensor" where
  "Pedometer_enable e handle en s = hw_enable e ''pedoactive'' en s"

definition Pedometer_setDelay :: "sensor_env \<Rightarrow> int \<Rightarrow> int \<Rightarrow> hw_sensor \<Rightarrow> int \<times> hw_sensor" where
  "Pedometer_setDelay e handle ns s = write_attr e ''pedodelay'' (sprintf_d ns) s"

definition Pedometer_batch :: "sensor_env \<Rightarrow> int \<Rightarrow> int \<Rightarrow> int \<Rightarrow> int \<Rightarrow> hw_sensor \<Rightarrow> int \<times> hw_sensor" where
  "Pedometer_batch e handle flags period latency s = write_attr e ''pedobatch'' (batch_text handle flags period latency) s"

definition Pedometer_flush :: "sensor_env \<Rightarrow> int \<Rightarrow> hw_sensor \<Rightarrow> int \<times> hw_sensor" where
  "Pedometer_flush e handle s = write_attr e ''pedoflush'' (sprintf_d handle) s"

definition Pedometer_processEvent :: "sensor_env \<Rightarrow> sensor_event \<Rightarrow> hw_sensor \<Rightarrow> hw_sensor" where
  "Pedometer_processEvent e ev s =
     (if flush_action ev = FLUSH_ACTION then flush_complete e ID_PEDOMETER s
      else if flush_action ev = DATA_ACTION then
        data_event ID_PEDOMETER (private_type ID_PEDOMETER) (time_stamp ev)
          [fl_div e (fl e (word ev ! 0)) 1000, fl_div e (fl e (word ev ! 1)) 1024, fl e (word ev ! 2),
           fl_div e (fl e (word ev ! 3)) 1000] s
      else s)"

definition Pedometer_readEvents :: "sensor_env \<Rightarrow> read_answer \<Rightarrow> int \<Rightarrow> hw_sensor \<Rightarrow> int \<times> sensors_event list \<times> hw_sensor" where
  "Pedometer_readEvents e a count s = read_events (plain_hooks (Pedometer_processEvent e)) a count s"

section \<open>Activity\<close>

definition ActivitySensor :: "sensor_env \<Rightarrow> bool \<Rightarrow> hw_sensor" where
  "ActivitySensor e opened =
     (let s = hw_new e opened 32 ID_ACTIVITY (private_type ID_ACTIVITY) ''/sys/class/sensor/m_act_misc/'' ''actactive''
      in if opened then s else s\<lparr>mDataDiv := 1\<rparr>)"

definition Activity_enable :: "sensor_env \<Rightarrow> int \<Rightarrow> int \<Rightarrow> hw_sensor \<Rightarrow> int \<times> hw_sensor" where
  "Activity_enable e handle en s = hw_enable e ''actactive'' en s"

definition Activity_setDelay :: "sensor_env \<Rightarrow> int \<Rightarrow> int \<Rightarrow> hw_sensor \<Rightarrow> int \<times> hw_sensor" where
  "Activity_setDelay e handle ns s = write_attr e ''actdelay'' (sprintf_d ns) s"

definition Activity_batch :: "sensor_env \<Rightarrow> int \<Rightarrow> int \<Rightarrow> int \<Rightarrow> int \<Rightarrow> hw_sensor \<Rightarrow> int \<times> hw_sensor" where
  "Activity_batch e handle flags period latency s = write_attr e ''actbatch'' (batch_text handle flags period latency) s"

definition Activity_flush :: "sensor_env \<Rightarrow> int \<Rightarrow> hw_sensor \<Rightarrow> int \<times> hw_sensor" where
  "Activity_flush e handle s = write_attr e ''actflush'' (sprintf_d handle) s"

definition Activity_processEvent :: "sensor_env \<Rightarrow> sensor_event \<Rightarrow> hw_sensor \<Rightarrow> hw_sensor" where
  "Activity_processEvent e ev s =
     (if flush_action ev = FLUSH_ACTION then flush_complete e ID_ACTIVITY s
      else if flush_action ev = DATA_ACTION then
        data_event ID_ACTIVITY (private_type ID_ACTIVITY) (time_stamp ev)
          (map (\<lambda>k. fl e (event_byte ev k)) [0..<12]) s
      else s)"

definition Activity_readEvents :: "sensor_env \<Rightarrow> read_answer \<Rightarrow> int \<Rightarrow> hw_sensor \<Rightarrow> int \<times> sensors_event list \<times> hw_sensor" where
  "Activity_readEvents e a count s = read_events (plain_hooks (Activity_processEvent e)) a count s"

section \<open>Proximity\<close>

text \<open>
  The distance is the first word; a negative one marks an event that must not be reported. A completed
  flush writes its code there, which read as a float is not negative.
\<close>

definition set_distance :: "sensor_env \<Rightarrow> int \<Rightarrow> 'a base_scheme \<Rightarrow> 'a base_scheme" where
  "set_distance e d s = s\<lparr>mPendingEvent := (mPendingEvent s)\<lparr>data := (data (mPendingEvent s))[0 := fl e d]\<rparr>\<rparr>"

definition ProximitySensor :: "sensor_env \<Rightarrow> bool \<Rightarrow> hw_sensor" where
  "ProximitySensor e opened =
     (let s = set_distance e (-1)
                (hw_new e opened 32 ID_PROXIMITY (std_type ID_PROXIMITY) ''/sys/class/sensor/m_ps_misc/'' ''psactive'')
      in if \<not> opened then s\<lparr>mDataDiv := 1\<rparr> else send_cali e ''pscali'' (saved_or_zero 2 (saved_ints e ''ps_cali'')) s)"

definition Proximity_enable :: "sensor_env \<Rightarrow> int \<Rightarrow> int \<Rightarrow> hw_sensor \<Rightarrow> int \<times> hw_sensor" where
  "Proximity_enable e handle en s =
     (if \<not> attr_opens e ''psactive'' s then (-1, s)
      else if en \<noteq> 0 then
        (0, wrote ''psactive'' ''1'' ((set_distance e (-1) (tick (s\<lparr>mEnabledTime := now e s\<rparr>)))\<lparr>mEnabled := 1\<rparr>))
      else (0, wrote ''psactive'' ''0'' (s\<lparr>mEnabled := 0\<rparr>)))"

definition Proximity_setDelay :: "sensor_env \<Rightarrow> int \<Rightarrow> int \<Rightarrow> hw_sensor \<Rightarrow> int \<times> hw_sensor" where
  "Proximity_setDelay e handle ns s = write_attr e ''psdelay'' (sprintf_d ns) s"

definition Proximity_batch :: "sensor_env \<Rightarrow> int \<Rightarrow> int \<Rightarrow> int \<Rightarrow> int \<Rightarrow> hw_sensor \<Rightarrow> int \<times> hw_sensor" where
  "Proximity_batch e handle flags period latency s = write_attr e ''psbatch'' (batch_text handle flags period latency) s"

definition Proximity_flush :: "sensor_env \<Rightarrow> int \<Rightarrow> hw_sensor \<Rightarrow> int \<times> hw_sensor" where
  "Proximity_flush e handle s = write_attr e ''psflush'' (sprintf_d handle) s"

definition Proximity_processEvent :: "sensor_env \<Rightarrow> sensor_event \<Rightarrow> hw_sensor \<Rightarrow> hw_sensor" where
  "Proximity_processEvent e ev s =
     (if flush_action ev = FLUSH_ACTION then flush_complete e ID_PROXIMITY s
      else if flush_action ev = DATA_ACTION then
        data_event_now e ID_PROXIMITY (std_type ID_PROXIMITY) [fl e (word ev ! 0 - 1)] s
      else if flush_action ev = CALI_ACTION then did (SavedInts ''ps_cali'' (take 2 (word ev))) s
      else s)"

definition Proximity_emit :: "sensor_env \<Rightarrow> sensor_event \<Rightarrow> nat \<Rightarrow> hw_sensor \<Rightarrow> sensors_event list \<times> hw_sensor" where
  "Proximity_emit e ev count s =
     (if fl_not_negative e (data (mPendingEvent s) ! 0) \<and> is_reported ev then ([mPendingEvent s], set_distance e (-1) s)
      else ([], s))"

definition Proximity_readEvents :: "sensor_env \<Rightarrow> read_answer \<Rightarrow> int \<Rightarrow> hw_sensor \<Rightarrow> int \<times> sensors_event list \<times> hw_sensor" where
  "Proximity_readEvents e a count s =
     read_events \<lparr>hk_process = Proximity_processEvent e, hk_known = (\<lambda>ev. True), hk_emit = Proximity_emit e\<rparr> a count s"

section \<open>Humidity\<close>

text \<open>
  The class repeats the last value for the time since it was reported, at the period that was set.
  \<open>loops\<close> is the number of periods, a float quotient cut to an integer. \<open>flush\<close> answers the
  negative of \<open>errno\<close>, whatever that is.
\<close>

record humidity = hw_sensor +
  m_hmdy_last_ts :: int
  m_hmdy_delay :: int

definition HumiditySensor :: "sensor_env \<Rightarrow> bool \<Rightarrow> humidity" where
  "HumiditySensor e opened =
     hw_sensor.extend
       ((hw_new e opened 32 ID_RELATIVE_HUMIDITY (std_type ID_RELATIVE_HUMIDITY) ''/sys/class/sensor/m_hmdy_misc/'' ''hmdyactive'')
          \<lparr>mDataDiv := (if opened then read_div e (''/sys/class/sensor/m_hmdy_misc/'' @ ''hmdyactive'') 1 else 1)\<rparr>)
       (humidity.fields 0 0)"

definition Humidity_enable :: "sensor_env \<Rightarrow> int \<Rightarrow> int \<Rightarrow> humidity \<Rightarrow> int \<times> humidity" where
  "Humidity_enable e handle en s =
     (if \<not> attr_opens e ''hmdyactive'' s then (-1, s)
      else if en \<noteq> 0 then
        (0, wrote ''hmdyactive'' ''1''
              ((tick (s\<lparr>mEnabled := 1, mEnabledTime := now e s + 350000000\<rparr>))\<lparr>m_hmdy_last_ts := 0\<rparr>))
      else (0, wrote ''hmdyactive'' ''0'' (s\<lparr>mEnabled := 0\<rparr>)))"

definition Humidity_setDelay :: "sensor_env \<Rightarrow> int \<Rightarrow> int \<Rightarrow> humidity \<Rightarrow> int \<times> humidity" where
  "Humidity_setDelay e handle ns s = write_attr e ''hmdydelay'' (sprintf_d ns) (s\<lparr>m_hmdy_delay := ns\<rparr>)"

text \<open>\<open>dry_run\<close>: the flag \<open>SENSORS_BATCH_DRY_RUN\<close> of the platform is set.\<close>

definition Humidity_batch :: "sensor_env \<Rightarrow> int \<Rightarrow> bool \<Rightarrow> int \<Rightarrow> int \<Rightarrow> humidity \<Rightarrow> int \<times> humidity" where
  "Humidity_batch e handle dry_run period latency s =
     (if dry_run then (0, s) else write_attr e ''hmdybatch'' (if latency = 0 then ''0'' else ''1'') s)"

definition Humidity_flush :: "int \<Rightarrow> int \<Rightarrow> humidity \<Rightarrow> int \<times> humidity" where
  "Humidity_flush errno handle s = (- errno, s)"

definition Humidity_processEvent :: "sensor_env \<Rightarrow> sensor_event \<Rightarrow> humidity \<Rightarrow> humidity" where
  "Humidity_processEvent e ev s =
     s\<lparr>mPendingEvent := (mPendingEvent s)\<lparr>data := scaled e ev (mDataDiv s) [0] @ drop 1 (data (mPendingEvent s))\<rparr>\<rparr>"

text \<open>The repetitions from the \<open>i\<close>-th on; the times of those reported and the last time tried.\<close>

fun repeats :: "nat \<Rightarrow> nat \<Rightarrow> int \<Rightarrow> int \<Rightarrow> int \<Rightarrow> int list \<times> nat \<times> int" where
  "repeats 0 count time delay prev = ([], count, prev)"
| "repeats (Suc k) count time delay prev =
     (let t = time - int (Suc k) * delay
      in if time - t < 450000000 then
           if count - 1 = 0 then ([t], 0, t)
           else (let (ts, c, l) = repeats k (count - 1) time delay t in (t # ts, c, l))
         else repeats k count time delay t)"

definition Humidity_emit :: "sensor_env \<Rightarrow> (int \<Rightarrow> int \<Rightarrow> int) \<Rightarrow> sensor_event \<Rightarrow> nat \<Rightarrow> humidity \<Rightarrow> sensors_event list \<times> humidity" where
  "Humidity_emit e loops ev count s =
     (if \<not> is_reported ev then ([], s)
      else
        let time = now e s;
            n = loops (time - m_hmdy_last_ts s) (m_hmdy_delay s);
            (ts, c, last) = (if n \<ge> 1 \<and> n < 100 then repeats (nat n) count time (m_hmdy_delay s) time else ([], count, time));
            at = (\<lambda>t. (mPendingEvent s)\<lparr>timestamp := t\<rparr>);
            last1 = (if c \<noteq> 0 then time else last)
        in (map at ts @ (if c \<noteq> 0 then [at time] else []),
            (tick s)\<lparr>mPendingEvent := at last1, m_hmdy_last_ts := last1\<rparr>))"

definition Humidity_readEvents :: "sensor_env \<Rightarrow> (int \<Rightarrow> int \<Rightarrow> int) \<Rightarrow> read_answer \<Rightarrow> int \<Rightarrow> humidity
    \<Rightarrow> int \<times> sensors_event list \<times> humidity" where
  "Humidity_readEvents e loops a count s =
     read_events \<lparr>hk_process = Humidity_processEvent e, hk_known = (\<lambda>ev. True), hk_emit = Humidity_emit e loops\<rparr> a count s"

section \<open>Acceleration\<close>

record flush_sensor = hw_sensor +
  mFlushCnt :: int

definition counted_flush :: "sensor_env \<Rightarrow> string \<Rightarrow> int \<Rightarrow> 'a flush_sensor_scheme \<Rightarrow> int \<times> 'a flush_sensor_scheme" where
  "counted_flush e attr handle s = write_attr e attr (sprintf_d handle) (s\<lparr>mFlushCnt := mFlushCnt s + 1\<rparr>)"

definition counted_complete :: "sensor_env \<Rightarrow> int \<Rightarrow> 'a flush_sensor_scheme \<Rightarrow> 'a flush_sensor_scheme" where
  "counted_complete e handle s = (flush_complete e handle s)\<lparr>mFlushCnt := mFlushCnt s - 1\<rparr>"

definition AccelerationSensor :: "sensor_env \<Rightarrow> bool \<Rightarrow> flush_sensor" where
  "AccelerationSensor e opened =
     (let s = hw_sensor.extend
                (hw_new e opened 32 ID_ACCELEROMETER (std_type ID_ACCELEROMETER) ''/sys/class/sensor/m_acc_misc/'' ''accactive'')
                (flush_sensor.fields 0);
          bias = saved_or_zero 3 (saved_floats e ''acc_bias'');
          cali = saved_or_zero 3 (saved_ints e ''acc_cali'')
      in send_cali e ''acccali'' (map (\<lambda>b. fl_mul e b (mDataDiv s)) bias @ cali) s)"

definition Acceleration_enable :: "sensor_env \<Rightarrow> int \<Rightarrow> int \<Rightarrow> flush_sensor \<Rightarrow> int \<times> flush_sensor" where
  "Acceleration_enable e handle en s = hw_enable e ''accactive'' en s"

definition Acceleration_setDelay :: "sensor_env \<Rightarrow> int \<Rightarrow> int \<Rightarrow> flush_sensor \<Rightarrow> int \<times> flush_sensor" where
  "Acceleration_setDelay e handle ns s = write_attr e ''accdelay'' (sprintf_d ns) s"

definition Acceleration_batch :: "sensor_env \<Rightarrow> int \<Rightarrow> int \<Rightarrow> int \<Rightarrow> int \<Rightarrow> flush_sensor \<Rightarrow> int \<times> flush_sensor" where
  "Acceleration_batch e handle flags period latency s = write_attr e ''accbatch'' (batch_text handle flags period latency) s"

definition Acceleration_flush :: "sensor_env \<Rightarrow> int \<Rightarrow> flush_sensor \<Rightarrow> int \<times> flush_sensor" where
  "Acceleration_flush e handle s = counted_flush e ''accflush'' handle s"

definition Acceleration_processEvent :: "sensor_env \<Rightarrow> sensor_event \<Rightarrow> flush_sensor \<Rightarrow> flush_sensor" where
  "Acceleration_processEvent e ev s =
     (if flush_action ev = DATA_ACTION then
        set_status (status ev)
          (data_event ID_ACCELEROMETER (std_type ID_ACCELEROMETER) (time_stamp ev) (scaled e ev (mDataDiv s) [0, 1, 2]) s)
      else if flush_action ev = FLUSH_ACTION then counted_complete e ID_ACCELEROMETER s
      else if flush_action ev = BIAS_ACTION then did (SavedFloats ''acc_bias'' (scaled e ev (mDataDiv s) [0, 1, 2])) s
      else if flush_action ev = CALI_ACTION then did (SavedInts ''acc_cali'' (take 3 (word ev))) s
      else s)"

definition Acceleration_readEvents :: "sensor_env \<Rightarrow> read_answer \<Rightarrow> int \<Rightarrow> flush_sensor \<Rightarrow> int \<times> sensors_event list \<times> flush_sensor" where
  "Acceleration_readEvents e a count s = read_events (plain_hooks (Acceleration_processEvent e)) a count s"

section \<open>The gyroscope\<close>

text \<open>When the temperature calibration is not there, the static calibration is cleared, not the temperature one.\<close>

definition HwGyroscopeSensor :: "sensor_env \<Rightarrow> bool \<Rightarrow> flush_sensor" where
  "HwGyroscopeSensor e opened =
     (let s = hw_sensor.extend
                (hw_new e opened 32 ID_GYROSCOPE (std_type ID_GYROSCOPE) ''/sys/class/sensor/m_gyro_misc/'' ''gyroactive'')
                (flush_sensor.fields 0);
          bias = saved_or_zero 3 (saved_floats e ''gyro_bias'');
          cali = saved_or_zero 3 (saved_ints e ''gyro_cali'');
          (ok, temp) = get_saved 6 (replicate 6 0) (saved_ints e ''gyro_temp'');
          cali1 = (if \<not> ok then replicate 3 0 else cali)
      in send_cali e ''gyrocali'' (map (\<lambda>b. fl_mul e b (mDataDiv s)) bias @ cali1 @ temp) s)"

definition HwGyroscope_enable :: "sensor_env \<Rightarrow> int \<Rightarrow> int \<Rightarrow> flush_sensor \<Rightarrow> int \<times> flush_sensor" where
  "HwGyroscope_enable e handle en s = hw_enable e ''gyroactive'' en s"

definition HwGyroscope_setDelay :: "sensor_env \<Rightarrow> int \<Rightarrow> int \<Rightarrow> flush_sensor \<Rightarrow> int \<times> flush_sensor" where
  "HwGyroscope_setDelay e handle ns s = write_attr e ''gyrodelay'' (sprintf_d ns) s"

definition HwGyroscope_batch :: "sensor_env \<Rightarrow> int \<Rightarrow> int \<Rightarrow> int \<Rightarrow> int \<Rightarrow> flush_sensor \<Rightarrow> int \<times> flush_sensor" where
  "HwGyroscope_batch e handle flags period latency s = write_attr e ''gyrobatch'' (batch_text handle flags period latency) s"

definition HwGyroscope_flush :: "sensor_env \<Rightarrow> int \<Rightarrow> flush_sensor \<Rightarrow> int \<times> flush_sensor" where
  "HwGyroscope_flush e handle s = counted_flush e ''gyroflush'' handle s"

definition HwGyroscope_processEvent :: "sensor_env \<Rightarrow> sensor_event \<Rightarrow> flush_sensor \<Rightarrow> flush_sensor" where
  "HwGyroscope_processEvent e ev s =
     (if flush_action ev = DATA_ACTION then
        set_status (status ev)
          (data_event ID_GYROSCOPE (std_type ID_GYROSCOPE) (time_stamp ev) (scaled e ev (mDataDiv s) [0, 1, 2]) s)
      else if flush_action ev = FLUSH_ACTION then counted_complete e ID_GYROSCOPE s
      else if flush_action ev = BIAS_ACTION then did (SavedFloats ''gyro_bias'' (scaled e ev (mDataDiv s) [0, 1, 2])) s
      else if flush_action ev = CALI_ACTION then did (SavedInts ''gyro_cali'' (take 3 (word ev))) s
      else if flush_action ev = TEMP_ACTION then did (SavedInts ''gyro_temp'' (take 6 (word ev))) s
      else s)"

definition HwGyroscope_readEvents :: "sensor_env \<Rightarrow> read_answer \<Rightarrow> int \<Rightarrow> flush_sensor \<Rightarrow> int \<times> sensors_event list \<times> flush_sensor" where
  "HwGyroscope_readEvents e a count s = read_events (plain_hooks (HwGyroscope_processEvent e)) a count s"

section \<open>The magnetometer\<close>

text \<open>
  It runs every sample through a calibration library that is not in the repository: \<open>'c\<close> is the state of
  the library, the functions of \<open>mag_lib\<close> its calls. A change of the accuracy saves the bias.
  \<open>mag_lastStatus\<close> is the static variable of \<open>processEvent\<close>.
\<close>

record 'c mag_lib =
  ml_init :: "'c \<Rightarrow> 'c"
  ml_set :: "u32 list \<Rightarrow> 'c \<Rightarrow> 'c"
  ml_enable :: "int \<Rightarrow> 'c \<Rightarrow> 'c"
  ml_run :: "u32 list \<Rightarrow> int \<Rightarrow> int \<Rightarrow> 'c \<Rightarrow> (u32 list \<times> int) \<times> 'c"
  ml_get :: "'c \<Rightarrow> u32 list"

record 'c magnetic = flush_sensor +
  mag_state :: 'c
  mag_lastStatus :: int

definition MagneticSensor :: "sensor_env \<Rightarrow> 'c mag_lib \<Rightarrow> 'c \<Rightarrow> bool \<Rightarrow> 'c magnetic" where
  "MagneticSensor e lib c opened =
     (let bias = saved_or_zero 3 (saved_floats e ''mag_bias'');
          param = saved_or_zero 6 (saved_ints e ''mag_cali'');
          s = flush_sensor.extend
                (hw_sensor.extend
                  (hw_new e opened 32 ID_MAGNETIC (std_type ID_MAGNETIC) ''/sys/class/sensor/m_mag_misc/'' ''magactive'')
                  (flush_sensor.fields 0))
                (magnetic.fields (ml_set lib bias (ml_init lib c)) 0)
      in send_cali e ''magcali'' (map (\<lambda>b. fl_mul e b (mDataDiv s)) bias @ param) s)"

text \<open>Only 0 and 1 switch; any other value writes an empty text.\<close>

definition Magnetic_enable :: "sensor_env \<Rightarrow> 'c mag_lib \<Rightarrow> int \<Rightarrow> int \<Rightarrow> 'c magnetic \<Rightarrow> int \<times> 'c magnetic" where
  "Magnetic_enable e lib handle en s =
     (if \<not> attr_opens e ''magactive'' s then (-1, s)
      else
        let s1 = (if en = 0 then wrote ''magactive'' ''0'' (s\<lparr>mEnabled := 0\<rparr>)
                  else if en = 1 then wrote ''magactive'' ''1'' (tick (s\<lparr>mEnabled := 1, mEnabledTime := now e s\<rparr>))
                  else wrote ''magactive'' [] s)
        in (0, s1\<lparr>mag_state := ml_enable lib en (mag_state s)\<rparr>))"

definition Magnetic_setDelay :: "sensor_env \<Rightarrow> int \<Rightarrow> int \<Rightarrow> 'c magnetic \<Rightarrow> int \<times> 'c magnetic" where
  "Magnetic_setDelay e handle ns s = write_attr e ''magdelay'' (sprintf_d ns) s"

definition Magnetic_batch :: "sensor_env \<Rightarrow> int \<Rightarrow> int \<Rightarrow> int \<Rightarrow> int \<Rightarrow> 'c magnetic \<Rightarrow> int \<times> 'c magnetic" where
  "Magnetic_batch e handle flags period latency s = write_attr e ''magbatch'' (batch_text handle flags period latency) s"

definition Magnetic_flush :: "sensor_env \<Rightarrow> int \<Rightarrow> 'c magnetic \<Rightarrow> int \<times> 'c magnetic" where
  "Magnetic_flush e handle s = counted_flush e ''magflush'' handle s"

definition Magnetic_processEvent :: "sensor_env \<Rightarrow> 'c mag_lib \<Rightarrow> sensor_event \<Rightarrow> 'c magnetic \<Rightarrow> 'c magnetic" where
  "Magnetic_processEvent e lib ev s =
     (if flush_action ev = DATA_ACTION then
        let ((out, st), c) = ml_run lib (scaled e ev (mDataDiv s) [0, 1, 2]) (status ev) (time_stamp ev) (mag_state s);
            s1 = set_status st (data_event ID_MAGNETIC (std_type ID_MAGNETIC) (time_stamp ev) (take 3 out) (s\<lparr>mag_state := c\<rparr>));
            s2 = (if st \<noteq> mag_lastStatus s then did (SavedFloats ''mag_bias'' (ml_get lib c)) s1 else s1)
        in s2\<lparr>mag_lastStatus := st\<rparr>
      else if flush_action ev = FLUSH_ACTION then counted_complete e ID_MAGNETIC s
      else if flush_action ev = BIAS_ACTION then did (SavedFloats ''mag_bias'' (scaled e ev (mDataDiv s) [0, 1, 2])) s
      else if flush_action ev = CALI_ACTION then did (SavedInts ''mag_cali'' (take 6 (word ev))) s
      else s)"

definition Magnetic_readEvents :: "sensor_env \<Rightarrow> 'c mag_lib \<Rightarrow> read_answer \<Rightarrow> int \<Rightarrow> 'c magnetic
    \<Rightarrow> int \<times> sensors_event list \<times> 'c magnetic" where
  "Magnetic_readEvents e lib a count s = read_events (plain_hooks (Magnetic_processEvent e lib)) a count s"

end
