(* ===== verification/SensorDrivers2.thy ===== *)
theory SensorDrivers2
  imports SensorBase
begin

text \<open>
  The sensor classes behind which several sensors share one device, of
  \<open>src/proprietary/hardware/sensor/\<close>: \<open>StepCounter.cpp\<close>, \<open>AmbienteLight.cpp\<close>, \<open>Situation.cpp\<close>,
  \<open>Biometric.cpp\<close>, and \<open>WakeUpSet.cpp\<close>, which has no device: it subscribes to another sensor at the
  SensorManager and reports what it is handed. (\<open>CUSTOM_KERNEL_FLAT_SENSOR\<close> and \<open>HAVE_AEE_FEATURE\<close> are not
  defined.) The divisor and the time of the last start of \<open>StepCounter.cpp\<close>, which nothing reads, are left
  out, and a pipe always has room for the next event.
\<close>

text \<open>What most of them do with an event for one of their handles.\<close>

definition flush_or_data_now :: "sensor_env \<Rightarrow> sensor_event \<Rightarrow> int \<Rightarrow> int \<Rightarrow> u32 list \<Rightarrow> 'a base_scheme \<Rightarrow> 'a base_scheme" where
  "flush_or_data_now e ev handle type words s =
     (if flush_action ev = FLUSH_ACTION then flush_complete e handle s
      else if flush_action ev = DATA_ACTION then data_event_now e handle type words s
      else s)"

definition data_only_now :: "sensor_env \<Rightarrow> sensor_event \<Rightarrow> int \<Rightarrow> int \<Rightarrow> u32 list \<Rightarrow> 'a base_scheme \<Rightarrow> 'a base_scheme" where
  "data_only_now e ev handle type words s =
     (if flush_action ev = DATA_ACTION then data_event_now e handle type words s else s)"

section \<open>Step counter, step detector, significant motion, floor counter\<close>

record step_counter = base +
  mEnabledBits :: u32

definition StepCounterSensor :: "bool \<Rightarrow> step_counter" where
  "StepCounterSensor opened =
     \<lparr>mPendingEvent = blank_event VERSION_EVENT ID_STEP_COUNTER (std_type ID_STEP_COUNTER), mSensorReader = new_reader 32,
      sysfs_dir = (if opened then ''/sys/class/sensor/m_step_c_misc/'' else []), effects = [], ticks = 0, mEnabledBits = 0\<rparr>"

definition StepCounter_enable :: "sensor_env \<Rightarrow> int \<Rightarrow> int \<Rightarrow> step_counter \<Rightarrow> int \<times> step_counter" where
  "StepCounter_enable e handle en s =
     (if \<not> attr_opens e ''step_cactive'' s then (-1, s)
      else
        let bit = push_bit (nat handle) 1;
            bits = (if en \<noteq> 0 then mEnabledBits s OR bit else mEnabledBits s AND NOT bit)
        in (0, wrote ''step_cactive'' (sprintf_d handle @ '','' @ sprintf_d en) (s\<lparr>mEnabledBits := bits\<rparr>)))"

definition StepCounter_setDelay :: "int \<Rightarrow> int \<Rightarrow> step_counter \<Rightarrow> int \<times> step_counter" where
  "StepCounter_setDelay handle ns s = (0, s)"

definition StepCounter_batch :: "sensor_env \<Rightarrow> int \<Rightarrow> int \<Rightarrow> int \<Rightarrow> int \<Rightarrow> step_counter \<Rightarrow> int \<times> step_counter" where
  "StepCounter_batch e handle flags period latency s = write_attr e ''step_cbatch'' (batch_text handle flags period latency) s"

definition StepCounter_flush :: "sensor_env \<Rightarrow> int \<Rightarrow> step_counter \<Rightarrow> int \<times> step_counter" where
  "StepCounter_flush e handle s = write_attr e ''step_cflush'' (sprintf_d handle) s"

text \<open>The step count is a 64-bit integer in the first two words; the others are floats. Other handles are ignored.\<close>

definition StepCounter_processEvent :: "sensor_env \<Rightarrow> sensor_event \<Rightarrow> step_counter \<Rightarrow> step_counter" where
  "StepCounter_processEvent e ev s =
     (let h = handle_of ev; w = word ev ! 0
      in if h = ID_STEP_COUNTER then
           flush_or_data_now e ev h (std_type h) [of_int w, if w < 0 then 0xffffffff else 0] s
         else if h = ID_STEP_DETECTOR then flush_or_data_now e ev h (std_type h) [fl e w] s
         else if h = ID_SIGNIFICANT_MOTION then flush_or_data_now e ev h (std_type h) [fl e w] s
         else if h = ID_FLOOR_COUNTER then flush_or_data_now e ev h (private_type h) [fl e w] s
         else s)"

text \<open>Significant motion is a one-shot sensor: reporting it switches it off.\<close>

definition StepCounter_emit :: "sensor_env \<Rightarrow> sensor_event \<Rightarrow> nat \<Rightarrow> step_counter \<Rightarrow> sensors_event list \<times> step_counter" where
  "StepCounter_emit e ev count s =
     (if is_reported ev then
        ([mPendingEvent s],
         if sensor (mPendingEvent s) = ID_SIGNIFICANT_MOTION then snd (StepCounter_enable e ID_SIGNIFICANT_MOTION 0 s) else s)
      else ([], s))"

definition StepCounter_readEvents :: "sensor_env \<Rightarrow> read_answer \<Rightarrow> int \<Rightarrow> step_counter \<Rightarrow> int \<times> sensors_event list \<times> step_counter" where
  "StepCounter_readEvents e a count s =
     read_events \<lparr>hk_process = StepCounter_processEvent e, hk_known = (\<lambda>ev. True), hk_emit = StepCounter_emit e\<rparr> a count s"

section \<open>Light and colour\<close>

definition AmbiLightSensor :: "sensor_env \<Rightarrow> bool \<Rightarrow> hw_sensor" where
  "AmbiLightSensor e opened =
     (let s = hw_new e opened 32 0 0 ''/sys/class/sensor/m_als_misc/'' ''alsactive''
      in if \<not> opened then s\<lparr>mDataDiv := 1\<rparr> else send_cali e ''alscali'' (saved_or_zero 1 (saved_ints e ''als_cali'')) s)"

definition AmbiLight_enable :: "sensor_env \<Rightarrow> int \<Rightarrow> int \<Rightarrow> hw_sensor \<Rightarrow> int \<times> hw_sensor" where
  "AmbiLight_enable e handle en s = write_attr e ''alsactive'' (sprintf_d handle @ '','' @ sprintf_d en) s"

definition AmbiLight_setDelay :: "int \<Rightarrow> int \<Rightarrow> hw_sensor \<Rightarrow> int \<times> hw_sensor" where
  "AmbiLight_setDelay handle ns s = (0, s)"

definition AmbiLight_batch :: "sensor_env \<Rightarrow> int \<Rightarrow> int \<Rightarrow> int \<Rightarrow> int \<Rightarrow> hw_sensor \<Rightarrow> int \<times> hw_sensor" where
  "AmbiLight_batch e handle flags period latency s = write_attr e ''alsbatch'' (batch_text handle flags period latency) s"

definition AmbiLight_flush :: "sensor_env \<Rightarrow> int \<Rightarrow> hw_sensor \<Rightarrow> int \<times> hw_sensor" where
  "AmbiLight_flush e handle s = write_attr e ''alsflush'' (sprintf_d handle) s"

definition AmbiLight_processEvent :: "sensor_env \<Rightarrow> sensor_event \<Rightarrow> hw_sensor \<Rightarrow> hw_sensor" where
  "AmbiLight_processEvent e ev s =
     (let h = handle_of ev
      in if h = ID_LIGHT then
           if flush_action ev = CALI_ACTION then did (SavedInts ''als_cali'' (take 1 (word ev))) s
           else flush_or_data_now e ev h (std_type h) [fl e (word ev ! 0)] s
         else if h = ID_RGBW then
           flush_or_data_now e ev h (private_type h) (map (\<lambda>k. fl e (word ev ! k)) [0, 1, 2, 3]) s
         else s)"

definition AmbiLight_readEvents :: "sensor_env \<Rightarrow> read_answer \<Rightarrow> int \<Rightarrow> hw_sensor \<Rightarrow> int \<times> sensors_event list \<times> hw_sensor" where
  "AmbiLight_readEvents e a count s = read_events (plain_hooks (AmbiLight_processEvent e)) a count s"

section \<open>Gestures and situations\<close>

text \<open>Per sensor, in the order of the enumeration: handle, type, whether it is a one-shot sensor.\<close>

record situation = base +
  situ_enabled :: "bool list"
  situ_enabledTime :: "int list"

definition situation_handles :: "int list" where
  "situation_handles = [ID_IN_POCKET, ID_STATIONARY_DETECT, ID_WAKE_GESTURE, ID_PICK_UP_GESTURE, ID_GLANCE_GESTURE,
     ID_ANSWER_CALL, ID_MOTION_DETECT, ID_DEVICE_ORIENTATION, ID_TILT_DETECTOR, ID_SAR]"

definition index_of :: "int list \<Rightarrow> int \<Rightarrow> int" where
  "index_of hs h = (if h \<in> set hs then int (length (takeWhile (\<lambda>x. x \<noteq> h) hs)) else -1)"

definition Situation_HandleToIndex :: "int \<Rightarrow> int" where
  "Situation_HandleToIndex h = index_of situation_handles h"

definition situation_one_shot :: "bool list" where
  "situation_one_shot = [True, True, True, True, True, True, True, False, False, False]"

definition SituationSensor :: "bool \<Rightarrow> situation" where
  "SituationSensor opened =
     \<lparr>mPendingEvent = blank_event VERSION_EVENT 0 0, mSensorReader = new_reader 32,
      sysfs_dir = (if opened then ''/sys/class/sensor/m_situ_misc/'' else []), effects = [], ticks = 0,
      situ_enabled = replicate 10 False, situ_enabledTime = replicate 10 0\<rparr>"

text \<open>The descriptor of the attribute is not closed when the handle is unknown.\<close>

definition Situation_enable :: "sensor_env \<Rightarrow> int \<Rightarrow> int \<Rightarrow> situation \<Rightarrow> int \<times> situation" where
  "Situation_enable e handle en s =
     (if \<not> attr_opens e ''situactive'' s then (-1, s)
      else
        let index = Situation_HandleToIndex handle; flags = (if en \<noteq> 0 then 1 else 0)
        in if index < 0 then (-1, s)
           else
             let s1 = (if en \<noteq> 0 then
                         tick (s\<lparr>situ_enabled := (situ_enabled s)[nat index := True],
                                 situ_enabledTime := (situ_enabledTime s)[nat index := now e s]\<rparr>)
                       else s\<lparr>situ_enabled := (situ_enabled s)[nat index := False]\<rparr>)
             in (0, wrote ''situactive'' (sprintf_d handle @ '' : '' @ sprintf_d flags) s1))"

definition Situation_setDelay :: "int \<Rightarrow> int \<Rightarrow> situation \<Rightarrow> int \<times> situation" where
  "Situation_setDelay handle ns s = (0, s)"

definition Situation_batch :: "sensor_env \<Rightarrow> int \<Rightarrow> int \<Rightarrow> int \<Rightarrow> int \<Rightarrow> situation \<Rightarrow> int \<times> situation" where
  "Situation_batch e handle flags period latency s = write_attr e ''situbatch'' (batch_text handle flags period latency) s"

definition Situation_flush :: "sensor_env \<Rightarrow> int \<Rightarrow> situation \<Rightarrow> int \<times> situation" where
  "Situation_flush e handle s = write_attr e ''situflush'' (sprintf_d handle) s"

text \<open>The sensors up to motion detection do not handle a completed flush.\<close>

definition Situation_processEvent :: "sensor_env \<Rightarrow> sensor_event \<Rightarrow> situation \<Rightarrow> situation" where
  "Situation_processEvent e ev s =
     (let h = handle_of ev; words = [fl e (word ev ! 0)]
      in if h = ID_IN_POCKET \<or> h = ID_ANSWER_CALL then data_only_now e ev h (private_type h) words s
         else if h = ID_STATIONARY_DETECT \<or> h = ID_WAKE_GESTURE \<or> h = ID_PICK_UP_GESTURE \<or> h = ID_GLANCE_GESTURE
           \<or> h = ID_MOTION_DETECT then data_only_now e ev h (std_type h) words s
         else if h = ID_DEVICE_ORIENTATION \<or> h = ID_TILT_DETECTOR then flush_or_data_now e ev h (std_type h) words s
         else if h = ID_SAR then flush_or_data_now e ev h (private_type h) words s
         else s)"

definition Situation_emit :: "sensor_env \<Rightarrow> sensor_event \<Rightarrow> nat \<Rightarrow> situation \<Rightarrow> sensors_event list \<times> situation" where
  "Situation_emit e ev count s =
     (if is_reported ev then
        ([mPendingEvent s],
         if situation_one_shot ! nat (Situation_HandleToIndex (handle_of ev))
         then snd (Situation_enable e (handle_of ev) 0 s) else s)
      else ([], s))"

definition Situation_readEvents :: "sensor_env \<Rightarrow> read_answer \<Rightarrow> int \<Rightarrow> situation \<Rightarrow> int \<times> sensors_event list \<times> situation" where
  "Situation_readEvents e a count s =
     read_events \<lparr>hk_process = Situation_processEvent e,
       hk_known = (\<lambda>ev. \<not> Situation_HandleToIndex (handle_of ev) < 0), hk_emit = Situation_emit e\<rparr> a count s"

section \<open>Biometric sensors\<close>

record biometric = base +
  bio_enabled :: "bool list"
  bio_enabledTime :: "int list"
  bio_flushCnt :: "u32 list"

definition biometric_handles :: "int list" where
  "biometric_handles = [ID_EKG, ID_PPG1, ID_PPG2]"

definition Biometric_HandleToIndex :: "int \<Rightarrow> int" where
  "Biometric_HandleToIndex h = index_of biometric_handles h"

definition BiometricSensor :: "bool \<Rightarrow> biometric" where
  "BiometricSensor opened =
     \<lparr>mPendingEvent = blank_event VERSION_0 0 0, mSensorReader = new_reader 32,
      sysfs_dir = (if opened then ''/sys/class/sensor/m_bio_misc/'' else []), effects = [], ticks = 0,
      bio_enabled = replicate 3 False, bio_enabledTime = replicate 3 0, bio_flushCnt = replicate 3 0\<rparr>"

definition Biometric_enable :: "sensor_env \<Rightarrow> int \<Rightarrow> int \<Rightarrow> biometric \<Rightarrow> int \<times> biometric" where
  "Biometric_enable e handle en s =
     (if \<not> attr_opens e ''bioactive'' s then (-1, s)
      else
        let index = Biometric_HandleToIndex handle; flags = (if en \<noteq> 0 then 1 else 0)
        in if index < 0 then (- EINVAL, s)
           else
             let s1 = (if en \<noteq> 0 then
                         tick (s\<lparr>bio_enabled := (bio_enabled s)[nat index := True],
                                 bio_enabledTime := (bio_enabledTime s)[nat index := now e s]\<rparr>)
                       else s\<lparr>bio_enabled := (bio_enabled s)[nat index := False]\<rparr>)
             in (0, wrote ''bioactive'' (sprintf_d handle @ '' : '' @ sprintf_d flags) s1))"

definition Biometric_setDelay :: "sensor_env \<Rightarrow> int \<Rightarrow> int \<Rightarrow> biometric \<Rightarrow> int \<times> biometric" where
  "Biometric_setDelay e handle ns s = write_attr e ''biodelay'' (sprintf_d handle @ '','' @ sprintf_d ns) s"

definition Biometric_batch :: "sensor_env \<Rightarrow> int \<Rightarrow> int \<Rightarrow> int \<Rightarrow> int \<Rightarrow> biometric \<Rightarrow> int \<times> biometric" where
  "Biometric_batch e handle flags period latency s = write_attr e ''biobatch'' (batch_text handle flags period latency) s"

definition bump_flush :: "nat \<Rightarrow> u32 \<Rightarrow> biometric \<Rightarrow> biometric" where
  "bump_flush i d s = s\<lparr>bio_flushCnt := (bio_flushCnt s)[i := bio_flushCnt s ! i + d]\<rparr>"

definition Biometric_flush :: "sensor_env \<Rightarrow> int \<Rightarrow> biometric \<Rightarrow> int \<times> biometric" where
  "Biometric_flush e handle s =
     (let index = Biometric_HandleToIndex handle
      in if index < 0 then (- EINVAL, s)
         else write_attr e ''bioflush'' (sprintf_d handle) (bump_flush (nat index) 1 s))"

text \<open>The accuracy goes into the fifth word, as a float; an electrocardiogram leaves the third and fourth alone.\<close>

definition Biometric_processEvent :: "sensor_env \<Rightarrow> sensor_event \<Rightarrow> biometric \<Rightarrow> biometric" where
  "Biometric_processEvent e ev s =
     (let h = handle_of ev; index = Biometric_HandleToIndex h; f = (\<lambda>k. fl e (word ev ! k));
          old = data (mPendingEvent s)
      in if index < 0 then s
         else if flush_action ev = FLUSH_ACTION then bump_flush (nat index) (-1) (flush_complete e h s)
         else if flush_action ev = DATA_ACTION then
           data_event h (private_type h) (time_stamp ev)
             (if h = ID_EKG then [f 0, f 1, old ! 2, old ! 3, fl e (status ev)]
              else [f 0, f 1, f 2, f 3, fl e (status ev)]) s
         else s)"

definition Biometric_readEvents :: "sensor_env \<Rightarrow> read_answer \<Rightarrow> int \<Rightarrow> biometric \<Rightarrow> int \<times> sensors_event list \<times> biometric" where
  "Biometric_readEvents e a count s =
     read_events \<lparr>hk_process = Biometric_processEvent e,
       hk_known = (\<lambda>ev. \<not> Biometric_HandleToIndex (handle_of ev) < 0), hk_emit = emit_pending\<rparr> a count s"

section \<open>The wake-up step detector\<close>

definition wakeUpToNonWakeUp :: "int \<Rightarrow> int" where
  "wakeUpToNonWakeUp h = (if h = ID_STEP_DETECTOR_WAKEUP then ID_STEP_DETECTOR else -1)"

definition nonWakeUpToWakeUp :: "int \<Rightarrow> int" where
  "nonWakeUpToWakeUp h = (if h = ID_STEP_DETECTOR then ID_STEP_DETECTOR_WAKEUP else -1)"

definition WakeUpSetSensor :: base where
  "WakeUpSetSensor =
     \<lparr>mPendingEvent = blank_event VERSION_0 0 0, mSensorReader = new_reader 32, sysfs_dir = [], effects = [], ticks = 0\<rparr>"

definition flush_event :: "int \<Rightarrow> sensor_event" where
  "flush_event handle = no_event\<lparr>handle_of := handle, flush_action := FLUSH_ACTION\<rparr>"

definition reportFlush :: "int \<Rightarrow> 'a base_scheme \<Rightarrow> 'a base_scheme" where
  "reportFlush handle s = s\<lparr>mSensorReader := writeEvent (flush_event handle) (mSensorReader s)\<rparr>"

definition WakeUpSet_reportData :: "sensor_env \<Rightarrow> int \<Rightarrow> sensors_event \<Rightarrow> base \<Rightarrow> base" where
  "WakeUpSet_reportData e handle d s =
     (let ev = no_event\<lparr>handle_of := handle, time_stamp := timestamp d, flush_action := DATA_ACTION,
                  word := (if handle = ID_STEP_DETECTOR_WAKEUP then (replicate 6 0)[0 := fl_mul e (data d ! 0) 1] else replicate 6 0)\<rparr>
      in s\<lparr>mSensorReader := writeEvent ev (mSensorReader s)\<rparr>)"

definition WakeUpSet_enable :: "int \<Rightarrow> int \<Rightarrow> base \<Rightarrow> int \<times> base" where
  "WakeUpSet_enable handle en s =
     (let h = wakeUpToNonWakeUp handle
      in if h < 0 then (0, s) else (0, did (ManagerActivate h (en \<noteq> 0)) s))"

definition WakeUpSet_setDelay :: "int \<Rightarrow> int \<Rightarrow> base \<Rightarrow> int \<times> base" where
  "WakeUpSet_setDelay handle ns s = (0, s)"

definition WakeUpSet_batch :: "int \<Rightarrow> int \<Rightarrow> int \<Rightarrow> int \<Rightarrow> base \<Rightarrow> int \<times> base" where
  "WakeUpSet_batch handle flags period latency s =
     (let h = wakeUpToNonWakeUp handle
      in if h < 0 then (0, s) else (0, did (ManagerBatch h period latency) s))"

definition WakeUpSet_flush :: "int \<Rightarrow> base \<Rightarrow> int \<times> base" where
  "WakeUpSet_flush handle s = (0, reportFlush handle s)"

definition WakeUpSet_setEvent :: "sensor_env \<Rightarrow> sensors_event \<Rightarrow> base \<Rightarrow> int \<times> base" where
  "WakeUpSet_setEvent e d s =
     (let h = nonWakeUpToWakeUp (sensor d)
      in if h < 0 then (0, s) else (0, WakeUpSet_reportData e h d s))"

definition WakeUpSet_processEvent :: "sensor_env \<Rightarrow> sensor_event \<Rightarrow> base \<Rightarrow> base" where
  "WakeUpSet_processEvent e ev s =
     (if handle_of ev = ID_STEP_DETECTOR_WAKEUP then
        flush_or_data_now e ev ID_STEP_DETECTOR_WAKEUP (std_type ID_STEP_DETECTOR) [fl e (word ev ! 0)] s
      else s)"

definition WakeUpSet_readEvents :: "sensor_env \<Rightarrow> read_answer \<Rightarrow> int \<Rightarrow> base \<Rightarrow> int \<times> sensors_event list \<times> base" where
  "WakeUpSet_readEvents e a count s = read_events (plain_hooks (WakeUpSet_processEvent e)) a count s"

end
