(* ===== verification/SensorFusion.thy ===== *)
theory SensorFusion
  imports SensorDrivers2
begin

text \<open>
  The fused sensors: \<open>Fusion.cpp\<close>, whose \<open>ScpFusionSensor\<close> reads them from the sensor hub and whose
  \<open>ApFusionSensor\<close> computes them from the samples of other sensors it subscribes to at the SensorManager,
  and the virtual gyroscope of \<open>Gyroscope.cpp\<close>. (\<open>FUSION_SUPPORT_9D_ALGORITHM\<close> and the minimal delays are
  not defined.) The library that fuses the samples is a parameter.
\<close>

section \<open>Handles\<close>

definition fusion_handles :: "int list" where
  "fusion_handles = [ID_ORIENTATION, ID_GAME_ROTATION_VECTOR, ID_GEOMAGNETIC_ROTATION_VECTOR, ID_ROTATION_VECTOR,
     ID_LINEAR_ACCELERATION, ID_GRAVITY, ID_ACCELEROMETER_UNCALIBRATED, ID_GYROSCOPE_UNCALIBRATED,
     ID_MAGNETIC_UNCALIBRATED, ID_PDR, ID_GYRO_TEMPERATURE]"

definition Fusion_HandleToIndex :: "int \<Rightarrow> int" where
  "Fusion_HandleToIndex h = index_of fusion_handles h"

text \<open>The data cases of both classes: three axes and an accuracy, four or six words.\<close>

definition fusion_data :: "sensor_env \<Rightarrow> sensor_event \<Rightarrow> int \<Rightarrow> 'a base_scheme \<Rightarrow> 'a base_scheme" where
  "fusion_data e ev dv s =
     (let h = handle_of ev; put = (\<lambda>ks. data_event h (std_type h) (time_stamp ev) (scaled e ev dv ks) s)
      in if h = ID_ORIENTATION \<or> h = ID_LINEAR_ACCELERATION \<or> h = ID_GRAVITY then set_status (status ev) (put [0, 1, 2])
         else if h = ID_GAME_ROTATION_VECTOR \<or> h = ID_GEOMAGNETIC_ROTATION_VECTOR \<or> h = ID_ROTATION_VECTOR then put [0, 1, 2, 3]
         else if h = ID_ACCELEROMETER_UNCALIBRATED \<or> h = ID_GYROSCOPE_UNCALIBRATED \<or> h = ID_MAGNETIC_UNCALIBRATED
         then put [0, 1, 2, 3, 4, 5]
         else s)"

section \<open>Fusion in the sensor hub\<close>

record scp_fusion = base +
  scp_enabled :: "bool list"
  scp_enabledTime :: "int list"
  scp_flushCnt :: "u32 list"
  scp_dataDiv :: "int list"

definition div_format :: "scan_item list" where
  "div_format = Field # concat (replicate 9 [Literal (CHR '',''), Field])"

definition ScpFusionSensor :: "sensor_env \<Rightarrow> bool \<Rightarrow> scp_fusion" where
  "ScpFusionSensor e opened =
     (let dir = ''/sys/class/sensor/m_fusion_misc/'';
          divs = (case sysfs_read e (dir @ ''fusionactive'') of None \<Rightarrow> [] | Some t \<Rightarrow> sscanf div_format (take 63 t))
      in \<lparr>mPendingEvent = blank_event VERSION_0 0 0, mSensorReader = new_reader 32,
          sysfs_dir = (if opened then dir else []), effects = [], ticks = 0,
          scp_enabled = replicate 11 False, scp_enabledTime = replicate 11 0, scp_flushCnt = replicate 11 0,
          scp_dataDiv = divs @ replicate (11 - length divs) 0\<rparr>)"

definition ScpFusion_enable :: "sensor_env \<Rightarrow> int \<Rightarrow> int \<Rightarrow> scp_fusion \<Rightarrow> int \<times> scp_fusion" where
  "ScpFusion_enable e handle en s =
     (if \<not> attr_opens e ''fusionactive'' s then (-1, s)
      else
        let index = Fusion_HandleToIndex handle; flags = (if en \<noteq> 0 then 1 else 0)
        in if index < 0 then (-1, s)
           else
             let s1 = (if en \<noteq> 0 then
                         tick (s\<lparr>scp_enabled := (scp_enabled s)[nat index := True],
                                 scp_enabledTime := (scp_enabledTime s)[nat index := now e s]\<rparr>)
                       else s\<lparr>scp_enabled := (scp_enabled s)[nat index := False]\<rparr>)
             in (0, wrote ''fusionactive'' (sprintf_d handle @ '','' @ sprintf_d flags) s1))"

definition ScpFusion_setDelay :: "sensor_env \<Rightarrow> int \<Rightarrow> int \<Rightarrow> scp_fusion \<Rightarrow> int \<times> scp_fusion" where
  "ScpFusion_setDelay e handle ns s = write_attr e ''fusiondelay'' (sprintf_d handle @ '','' @ sprintf_d ns) s"

definition ScpFusion_batch :: "sensor_env \<Rightarrow> int \<Rightarrow> int \<Rightarrow> int \<Rightarrow> int \<Rightarrow> scp_fusion \<Rightarrow> int \<times> scp_fusion" where
  "ScpFusion_batch e handle flags period latency s = write_attr e ''fusionbatch'' (batch_text handle flags period latency) s"

definition scp_bump :: "nat \<Rightarrow> u32 \<Rightarrow> scp_fusion \<Rightarrow> scp_fusion" where
  "scp_bump i d s = s\<lparr>scp_flushCnt := (scp_flushCnt s)[i := scp_flushCnt s ! i + d]\<rparr>"

definition ScpFusion_flush :: "sensor_env \<Rightarrow> int \<Rightarrow> scp_fusion \<Rightarrow> int \<times> scp_fusion" where
  "ScpFusion_flush e handle s =
     (let index = Fusion_HandleToIndex handle
      in if index < 0 then (-1, s) else write_attr e ''fusionflush'' (sprintf_d handle) (scp_bump (nat index) 1 s))"

text \<open>Dead reckoning has a handle and a divisor but no case: its events repeat the pending one.\<close>

definition ScpFusion_processEvent :: "sensor_env \<Rightarrow> sensor_event \<Rightarrow> scp_fusion \<Rightarrow> scp_fusion" where
  "ScpFusion_processEvent e ev s =
     (let h = handle_of ev; index = Fusion_HandleToIndex h
      in if index < 0 \<or> h = ID_PDR then s
         else if flush_action ev = DATA_ACTION then
           if h = ID_GYRO_TEMPERATURE then
             data_event h (private_type h) (time_stamp ev)
               [fl_div e (fl e (word ev ! 0)) 100, fl e (word ev ! 1), fl e (word ev ! 2)] s
           else fusion_data e ev (scp_dataDiv s ! nat index) s
         else if flush_action ev = FLUSH_ACTION then scp_bump (nat index) (-1) (flush_complete e h s)
         else s)"

definition ScpFusion_readEvents :: "sensor_env \<Rightarrow> read_answer \<Rightarrow> int \<Rightarrow> scp_fusion \<Rightarrow> int \<times> sensors_event list \<times> scp_fusion" where
  "ScpFusion_readEvents e a count s =
     read_events \<lparr>hk_process = ScpFusion_processEvent e,
       hk_known = (\<lambda>ev. \<not> Fusion_HandleToIndex (handle_of ev) < 0), hk_emit = emit_pending\<rparr> a count s"

section \<open>Fusion on the application processor\<close>

record sensor_info =
  si_enabled :: bool
  si_samplingPeriodNs :: int
  si_batchReportLatencyNs :: int
  si_flushCnt :: int
  useGyroData :: bool
  useAccData :: bool
  useMagData :: bool

text \<open>What goes in and comes out of the library.\<close>

record sensorData =
  sd_timeStamp :: int
  sd_data :: "u32 list"
  sd_status :: int

definition no_data :: sensorData where
  "no_data = \<lparr>sd_timeStamp = 0, sd_data = replicate 6 0, sd_status = 0\<rparr>"

record 'f fusion_lib =
  fu_set :: "int \<Rightarrow> sensorData \<Rightarrow> 'f \<Rightarrow> 'f"
  fu_get :: "int \<Rightarrow> 'f \<Rightarrow> sensorData \<Rightarrow> sensorData"
  fu_bias :: "int \<Rightarrow> 'f \<Rightarrow> u32 list"

record 'f ap_fusion = base +
  mSensorInfo :: "sensor_info list"
  bestSamplingPeriodNs :: int
  bestBatchReportLatencyNs :: int
  gyroEnabledCount :: int
  accEnabledCount :: int
  magEnabledCount :: int
  ap_lib :: 'f

definition FLOAT_TO_INTEGER :: int where "FLOAT_TO_INTEGER = 1000000"
definition MAX_SAMPLE_DELAY_NS :: int where "MAX_SAMPLE_DELAY_NS = 9223372036854775807"
definition MAX_REPORT_LETANCY_NS :: int where "MAX_REPORT_LETANCY_NS = 200000000"
definition MIN_MAG_SAMPLE_DELAY_NS :: int where "MIN_MAG_SAMPLE_DELAY_NS = 20000000"
definition MIN_ACC_SAMPLE_DELAY_NS :: int where "MIN_ACC_SAMPLE_DELAY_NS = 10000000"
definition MIN_GYRO_SAMPLE_DELAY_NS :: int where "MIN_GYRO_SAMPLE_DELAY_NS = 10000000"

lemmas delay_defs = MAX_SAMPLE_DELAY_NS_def MAX_REPORT_LETANCY_NS_def MIN_MAG_SAMPLE_DELAY_NS_def
  MIN_ACC_SAMPLE_DELAY_NS_def MIN_GYRO_SAMPLE_DELAY_NS_def

definition new_info :: "bool \<Rightarrow> bool \<Rightarrow> bool \<Rightarrow> sensor_info" where
  "new_info g a m = \<lparr>si_enabled = False, si_samplingPeriodNs = MAX_SAMPLE_DELAY_NS,
     si_batchReportLatencyNs = MAX_REPORT_LETANCY_NS, si_flushCnt = 0, useGyroData = g, useAccData = a, useMagData = m\<rparr>"

definition ApFusionSensor :: "'f \<Rightarrow> 'f ap_fusion" where
  "ApFusionSensor f =
     \<lparr>mPendingEvent = blank_event VERSION_0 0 0, mSensorReader = new_reader 32, sysfs_dir = [], effects = [], ticks = 0,
      mSensorInfo = replicate 6 (new_info False True True)
        @ [new_info False True False, new_info True False False, new_info False False True]
        @ replicate 2 (new_info False True True),
      bestSamplingPeriodNs = MAX_SAMPLE_DELAY_NS, bestBatchReportLatencyNs = MAX_REPORT_LETANCY_NS,
      gyroEnabledCount = 0, accEnabledCount = 0, magEnabledCount = 0, ap_lib = f\<rparr>"

definition ApFusion_reportData :: "sensor_env \<Rightarrow> int \<Rightarrow> sensorData \<Rightarrow> 'f ap_fusion \<Rightarrow> 'f ap_fusion" where
  "ApFusion_reportData e handle d s =
     (let ev = no_event\<lparr>handle_of := handle, time_stamp := sd_timeStamp d, flush_action := DATA_ACTION,
                  word := map (\<lambda>w. fl_mul e w FLOAT_TO_INTEGER) (take 6 (sd_data d)), status := sd_status d\<rparr>
      in s\<lparr>mSensorReader := writeEvent ev (mSensorReader s)\<rparr>)"

definition selectBestSampleLatency :: "'f ap_fusion \<Rightarrow> 'f ap_fusion" where
  "selectBestSampleLatency s =
     (let on = filter si_enabled (mSensorInfo s);
          period = fold (\<lambda>i b. if b > si_samplingPeriodNs i then si_samplingPeriodNs i else b) on (bestSamplingPeriodNs s);
          latency = fold (\<lambda>i b. if b > si_batchReportLatencyNs i then si_batchReportLatencyNs i else b) on (bestBatchReportLatencyNs s);
          latency1 = (if latency < 0 then 0 else latency)
      in s\<lparr>bestSamplingPeriodNs := (if period < 0 then 0 else period),
           bestBatchReportLatencyNs := (if latency1 > MAX_REPORT_LETANCY_NS then MAX_REPORT_LETANCY_NS else latency1)\<rparr>)"

definition uncalibrated :: "sensor_env \<Rightarrow> u32 list \<Rightarrow> sensors_event \<Rightarrow> sensorData" where
  "uncalibrated e bias d =
     \<lparr>sd_timeStamp = timestamp d,
      sd_data = map (\<lambda>k. fl_add e (data d ! k) (bias ! k)) [0, 1, 2] @ take 3 bias, sd_status = 0\<rparr>"

definition getUncaliAndReport :: "sensor_env \<Rightarrow> 'f fusion_lib \<Rightarrow> int \<Rightarrow> int \<Rightarrow> sensors_event \<Rightarrow> 'f ap_fusion \<Rightarrow> 'f ap_fusion" where
  "getUncaliAndReport e lib raw handle d s =
     (if si_enabled (mSensorInfo s ! nat (Fusion_HandleToIndex handle))
      then ApFusion_reportData e handle (uncalibrated e (fu_bias lib raw (ap_lib s)) d) s else s)"

definition getUncaliAccAndReport :: "sensor_env \<Rightarrow> 'f fusion_lib \<Rightarrow> sensors_event \<Rightarrow> 'f ap_fusion \<Rightarrow> 'f ap_fusion" where
  "getUncaliAccAndReport e lib d s = getUncaliAndReport e lib ID_ACCELEROMETER ID_ACCELEROMETER_UNCALIBRATED d s"

definition getUncaliGyroAndReport :: "sensor_env \<Rightarrow> 'f fusion_lib \<Rightarrow> sensors_event \<Rightarrow> 'f ap_fusion \<Rightarrow> 'f ap_fusion" where
  "getUncaliGyroAndReport e lib d s = getUncaliAndReport e lib ID_GYROSCOPE ID_GYROSCOPE_UNCALIBRATED d s"

definition getUncaliMagAndReport :: "sensor_env \<Rightarrow> 'f fusion_lib \<Rightarrow> sensors_event \<Rightarrow> 'f ap_fusion \<Rightarrow> 'f ap_fusion" where
  "getUncaliMagAndReport e lib d s = getUncaliAndReport e lib ID_MAGNETIC ID_MAGNETIC_UNCALIBRATED d s"

text \<open>One structure is handed to the library for every sensor, in this order.\<close>

definition fused_handles :: "int list" where
  "fused_handles = [ID_ORIENTATION, ID_GAME_ROTATION_VECTOR, ID_GEOMAGNETIC_ROTATION_VECTOR, ID_ROTATION_VECTOR,
     ID_LINEAR_ACCELERATION, ID_GRAVITY]"

definition getFusionAndReport :: "sensor_env \<Rightarrow> 'f fusion_lib \<Rightarrow> 'f ap_fusion \<Rightarrow> 'f ap_fusion" where
  "getFusionAndReport e lib s =
     snd (fold (\<lambda>h (d, s).
            if si_enabled (mSensorInfo s ! nat (Fusion_HandleToIndex h))
            then let d1 = fu_get lib h (ap_lib s) d in (d1, ApFusion_reportData e h d1 s)
            else (d, s)) fused_handles (no_data, s))"

section \<open>Subscribing\<close>

definition at_least :: "int \<Rightarrow> int \<Rightarrow> int" where
  "at_least m p = (if p < m then m else p)"

text \<open>
  A source of samples that is used: it is batched again, and activated when it is the first user. The
  count is post-incremented.
\<close>

definition subscribe :: "int \<Rightarrow> int \<Rightarrow> int \<Rightarrow> 'f ap_fusion \<Rightarrow> 'f ap_fusion" where
  "subscribe source min_delay count s =
     (let s1 = did (ManagerBatch source (at_least min_delay (bestSamplingPeriodNs s)) (bestBatchReportLatencyNs s)) s
      in if count = 0 then did (ManagerActivate source True) s1 else s1)"

text \<open>The new count and what happens when a user leaves.\<close>

definition unsubscribe :: "int \<Rightarrow> int \<Rightarrow> int \<Rightarrow> 'f ap_fusion \<Rightarrow> int \<times> 'f ap_fusion" where
  "unsubscribe source min_delay count s =
     (let c = count - 1
      in if c = 0 then (c, did (ManagerActivate source False) s)
         else if c > 0 then
           (c, did (ManagerBatch source (at_least min_delay (bestSamplingPeriodNs s)) (bestBatchReportLatencyNs s)) s)
         else (0, s))"

definition ap_turn_on :: "nat \<Rightarrow> 'f ap_fusion \<Rightarrow> 'f ap_fusion" where
  "ap_turn_on i s =
     (let info = mSensorInfo s ! i;
          s1 = selectBestSampleLatency (s\<lparr>mSensorInfo := (mSensorInfo s)[i := info\<lparr>si_enabled := True\<rparr>]\<rparr>);
          s2 = (if useGyroData info then
                  (subscribe ID_GYROSCOPE MIN_GYRO_SAMPLE_DELAY_NS (gyroEnabledCount s1) s1)\<lparr>gyroEnabledCount := gyroEnabledCount s1 + 1\<rparr>
                else s1);
          s3 = (if useAccData info then
                  (subscribe ID_ACCELEROMETER MIN_ACC_SAMPLE_DELAY_NS (accEnabledCount s2) s2)\<lparr>accEnabledCount := accEnabledCount s2 + 1\<rparr>
                else s2)
      in if useMagData info then
           (subscribe ID_MAGNETIC MIN_MAG_SAMPLE_DELAY_NS (magEnabledCount s3) s3)\<lparr>magEnabledCount := magEnabledCount s3 + 1\<rparr>
         else s3)"

definition ap_turn_off :: "nat \<Rightarrow> 'f ap_fusion \<Rightarrow> 'f ap_fusion" where
  "ap_turn_off i s =
     (let info = mSensorInfo s ! i;
          s1 = selectBestSampleLatency
                 (s\<lparr>mSensorInfo := (mSensorInfo s)[i := info\<lparr>si_enabled := False, si_samplingPeriodNs := MAX_SAMPLE_DELAY_NS,
                      si_batchReportLatencyNs := MAX_REPORT_LETANCY_NS\<rparr>]\<rparr>);
          s2 = (if useGyroData info then
                  let (c, t) = unsubscribe ID_GYROSCOPE MIN_GYRO_SAMPLE_DELAY_NS (gyroEnabledCount s1) s1 in t\<lparr>gyroEnabledCount := c\<rparr>
                else s1);
          s3 = (if useAccData info then
                  let (c, t) = unsubscribe ID_ACCELEROMETER MIN_ACC_SAMPLE_DELAY_NS (accEnabledCount s2) s2 in t\<lparr>accEnabledCount := c\<rparr>
                else s2);
          s4 = (if useMagData info then
                  let (c, t) = unsubscribe ID_MAGNETIC MIN_MAG_SAMPLE_DELAY_NS (magEnabledCount s3) s3 in t\<lparr>magEnabledCount := c\<rparr>
                else s3)
      in if \<not> list_ex si_enabled (mSensorInfo s4) then
           s4\<lparr>bestSamplingPeriodNs := MAX_SAMPLE_DELAY_NS, bestBatchReportLatencyNs := MAX_REPORT_LETANCY_NS\<rparr>
         else s4)"

definition ApFusion_enable :: "int \<Rightarrow> int \<Rightarrow> 'f ap_fusion \<Rightarrow> int \<times> 'f ap_fusion" where
  "ApFusion_enable handle en s =
     (let index = Fusion_HandleToIndex handle
      in if index < 0 then (-1, s)
         else (0, if en \<noteq> 0 then ap_turn_on (nat index) s else ap_turn_off (nat index) s))"

definition ApFusion_setDelay :: "int \<Rightarrow> int \<Rightarrow> 'f ap_fusion \<Rightarrow> int \<times> 'f ap_fusion" where
  "ApFusion_setDelay handle ns s = (0, s)"

definition rebatch :: "int \<Rightarrow> int \<Rightarrow> int \<Rightarrow> 'f ap_fusion \<Rightarrow> 'f ap_fusion" where
  "rebatch source min_delay count s =
     (if count \<noteq> 0 then did (ManagerBatch source (at_least min_delay (bestSamplingPeriodNs s)) (bestBatchReportLatencyNs s)) s else s)"

definition ApFusion_batch :: "int \<Rightarrow> int \<Rightarrow> int \<Rightarrow> int \<Rightarrow> 'f ap_fusion \<Rightarrow> int \<times> 'f ap_fusion" where
  "ApFusion_batch handle flags period latency s =
     (let index = Fusion_HandleToIndex handle
      in if index < 0 then (-1, s)
         else
           let info = mSensorInfo s ! nat index;
               s1 = selectBestSampleLatency
                      (s\<lparr>mSensorInfo := (mSensorInfo s)[nat index := info\<lparr>si_samplingPeriodNs := period, si_batchReportLatencyNs := latency\<rparr>]\<rparr>);
               s2 = (if useGyroData info then rebatch ID_GYROSCOPE MIN_GYRO_SAMPLE_DELAY_NS (gyroEnabledCount s1) s1 else s1);
               s3 = (if useAccData info then rebatch ID_ACCELEROMETER MIN_ACC_SAMPLE_DELAY_NS (accEnabledCount s2) s2 else s2);
               s4 = (if useMagData info then rebatch ID_MAGNETIC MIN_MAG_SAMPLE_DELAY_NS (magEnabledCount s3) s3 else s3)
           in (0, s4))"

definition ap_bump :: "nat \<Rightarrow> int \<Rightarrow> 'f ap_fusion \<Rightarrow> 'f ap_fusion" where
  "ap_bump i d s = s\<lparr>mSensorInfo := (mSensorInfo s)[i := (mSensorInfo s ! i)\<lparr>si_flushCnt := si_flushCnt (mSensorInfo s ! i) + d\<rparr>]\<rparr>"

definition ApFusion_flush :: "int \<Rightarrow> 'f ap_fusion \<Rightarrow> int \<times> 'f ap_fusion" where
  "ApFusion_flush handle s =
     (let index = Fusion_HandleToIndex handle
      in if index < 0 then (-1, s) else (0, reportFlush handle (ap_bump (nat index) 1 s)))"

definition ApFusion_setEvent :: "sensor_env \<Rightarrow> 'f fusion_lib \<Rightarrow> (u32 \<Rightarrow> int) \<Rightarrow> sensors_event \<Rightarrow> 'f ap_fusion \<Rightarrow> int \<times> 'f ap_fusion" where
  "ApFusion_setEvent e lib status_of d s =
     (let input = no_data\<lparr>sd_timeStamp := timestamp d, sd_data := take 3 (data d) @ replicate 3 0, sd_status := status_of (data d ! 3)\<rparr>;
          feed = (\<lambda>h. s\<lparr>ap_lib := fu_set lib h input (ap_lib s)\<rparr>)
      in if sensor d = ID_ACCELEROMETER then (0, getFusionAndReport e lib (getUncaliAccAndReport e lib d (feed ID_ACCELEROMETER)))
         else if sensor d = ID_GYROSCOPE then (0, getUncaliGyroAndReport e lib d (feed ID_GYROSCOPE))
         else if sensor d = ID_MAGNETIC then (0, getUncaliMagAndReport e lib d (feed ID_MAGNETIC))
         else (0, s))"

text \<open>No case for dead reckoning and the gyroscope's temperature. Every event is reported, whatever its action.\<close>

definition ApFusion_processEvent :: "sensor_env \<Rightarrow> sensor_event \<Rightarrow> 'f ap_fusion \<Rightarrow> 'f ap_fusion" where
  "ApFusion_processEvent e ev s =
     (let h = handle_of ev; index = Fusion_HandleToIndex h
      in if index < 0 \<or> h = ID_PDR \<or> h = ID_GYRO_TEMPERATURE then s
         else if flush_action ev = DATA_ACTION then fusion_data e ev FLOAT_TO_INTEGER s
         else if flush_action ev = FLUSH_ACTION then ap_bump (nat index) (-1) (flush_complete e h s)
         else s)"

definition ApFusion_readEvents :: "sensor_env \<Rightarrow> read_answer \<Rightarrow> int \<Rightarrow> 'f ap_fusion \<Rightarrow> int \<times> sensors_event list \<times> 'f ap_fusion" where
  "ApFusion_readEvents e a count s =
     read_events \<lparr>hk_process = ApFusion_processEvent e,
       hk_known = (\<lambda>ev. \<not> Fusion_HandleToIndex (handle_of ev) < 0),
       hk_emit = (\<lambda>ev count s. ([mPendingEvent s], s))\<rparr> a count s"

section \<open>The virtual gyroscope\<close>

record 'f virt_gyro = base +
  mSamplingPeriodNs :: int
  mBatchReportLatencyNs :: int
  vg_accEnabled :: bool
  vg_magEnabled :: bool
  vg_flushCnt :: int
  vg_lib :: 'f

definition VirtGyroscopeSensor :: "'f \<Rightarrow> 'f virt_gyro" where
  "VirtGyroscopeSensor f =
     \<lparr>mPendingEvent = blank_event VERSION_EVENT ID_GYROSCOPE (std_type ID_GYROSCOPE), mSensorReader = new_reader 32,
      sysfs_dir = [], effects = [], ticks = 0, mSamplingPeriodNs = MAX_SAMPLE_DELAY_NS,
      mBatchReportLatencyNs = MAX_REPORT_LETANCY_NS, vg_accEnabled = False, vg_magEnabled = False, vg_flushCnt = 0, vg_lib = f\<rparr>"

definition vg_latency :: "'f virt_gyro \<Rightarrow> int" where
  "vg_latency s = (if mBatchReportLatencyNs s < MAX_REPORT_LETANCY_NS then mBatchReportLatencyNs s else MAX_REPORT_LETANCY_NS)"

definition vg_acc_batch :: "'f virt_gyro \<Rightarrow> 'f virt_gyro" where
  "vg_acc_batch s = did (ManagerBatch ID_ACCELEROMETER (at_least MIN_ACC_SAMPLE_DELAY_NS (mSamplingPeriodNs s)) (vg_latency s)) s"

definition vg_mag_batch :: "'f virt_gyro \<Rightarrow> 'f virt_gyro" where
  "vg_mag_batch s = did (ManagerBatch ID_MAGNETIC (at_least MIN_MAG_SAMPLE_DELAY_NS (mSamplingPeriodNs s)) (vg_latency s)) s"

definition VirtGyroscope_enable :: "int \<Rightarrow> int \<Rightarrow> 'f virt_gyro \<Rightarrow> int \<times> 'f virt_gyro" where
  "VirtGyroscope_enable handle en s =
     (if en \<noteq> 0 then
        let s1 = vg_acc_batch s;
            s2 = (if \<not> vg_accEnabled s1 then did (ManagerActivate ID_ACCELEROMETER True) (s1\<lparr>vg_accEnabled := True\<rparr>) else s1);
            s3 = vg_mag_batch s2
        in (0, if \<not> vg_magEnabled s3 then did (ManagerActivate ID_MAGNETIC True) (s3\<lparr>vg_magEnabled := True\<rparr>) else s3)
      else
        let s1 = s\<lparr>mSamplingPeriodNs := MAX_SAMPLE_DELAY_NS, mBatchReportLatencyNs := MAX_REPORT_LETANCY_NS\<rparr>;
            s2 = (if vg_accEnabled s1 then did (ManagerActivate ID_ACCELEROMETER False) (s1\<lparr>vg_accEnabled := False\<rparr>) else s1)
        in (0, if vg_magEnabled s2 then did (ManagerActivate ID_MAGNETIC False) (s2\<lparr>vg_magEnabled := False\<rparr>) else s2))"

definition VirtGyroscope_setDelay :: "int \<Rightarrow> int \<Rightarrow> 'f virt_gyro \<Rightarrow> int \<times> 'f virt_gyro" where
  "VirtGyroscope_setDelay handle ns s = (0, s)"

definition VirtGyroscope_batch :: "int \<Rightarrow> int \<Rightarrow> int \<Rightarrow> int \<Rightarrow> 'f virt_gyro \<Rightarrow> int \<times> 'f virt_gyro" where
  "VirtGyroscope_batch handle flags period latency s =
     (let s1 = s\<lparr>mSamplingPeriodNs := period, mBatchReportLatencyNs := latency\<rparr>;
          s2 = (if vg_accEnabled s1 then vg_acc_batch s1 else s1)
      in (0, if vg_magEnabled s2 then vg_mag_batch s2 else s2))"

definition VirtGyroscope_flush :: "int \<Rightarrow> 'f virt_gyro \<Rightarrow> int \<times> 'f virt_gyro" where
  "VirtGyroscope_flush handle s = (0, reportFlush ID_GYROSCOPE (s\<lparr>vg_flushCnt := vg_flushCnt s + 1\<rparr>))"

definition VirtGyroscope_reportData :: "sensor_env \<Rightarrow> sensorData \<Rightarrow> 'f virt_gyro \<Rightarrow> 'f virt_gyro" where
  "VirtGyroscope_reportData e d s =
     (let ev = no_event\<lparr>handle_of := ID_GYROSCOPE, time_stamp := sd_timeStamp d, flush_action := DATA_ACTION,
                  word := map (\<lambda>w. fl_mul e w FLOAT_TO_INTEGER) (take 3 (sd_data d)) @ replicate 3 0, status := sd_status d\<rparr>
      in s\<lparr>mSensorReader := writeEvent ev (mSensorReader s)\<rparr>)"

definition VirtGyroscope_setEvent :: "sensor_env \<Rightarrow> 'f fusion_lib \<Rightarrow> (u32 \<Rightarrow> int) \<Rightarrow> sensors_event \<Rightarrow> 'f virt_gyro \<Rightarrow> int \<times> 'f virt_gyro" where
  "VirtGyroscope_setEvent e lib status_of d s =
     (let input = no_data\<lparr>sd_timeStamp := timestamp d, sd_data := take 3 (data d) @ replicate 3 0, sd_status := status_of (data d ! 3)\<rparr>;
          feed = (\<lambda>h. s\<lparr>vg_lib := fu_set lib h input (vg_lib s)\<rparr>)
      in if sensor d = ID_ACCELEROMETER then
           let s1 = feed ID_ACCELEROMETER
           in (0, VirtGyroscope_reportData e (fu_get lib ID_GYROSCOPE (vg_lib s1) no_data) s1)
         else if sensor d = ID_MAGNETIC then (0, feed ID_MAGNETIC)
         else (0, s))"

definition VirtGyroscope_processEvent :: "sensor_env \<Rightarrow> sensor_event \<Rightarrow> 'f virt_gyro \<Rightarrow> 'f virt_gyro" where
  "VirtGyroscope_processEvent e ev s =
     (if flush_action ev = DATA_ACTION then
        set_status (status ev)
          (data_event ID_GYROSCOPE (std_type ID_GYROSCOPE) (time_stamp ev) (scaled e ev FLOAT_TO_INTEGER [0, 1, 2]) s)
      else if flush_action ev = FLUSH_ACTION then
        (flush_complete e ID_GYROSCOPE s)\<lparr>vg_flushCnt := vg_flushCnt s - 1\<rparr>
      else s)"

definition VirtGyroscope_readEvents :: "sensor_env \<Rightarrow> read_answer \<Rightarrow> int \<Rightarrow> 'f virt_gyro \<Rightarrow> int \<times> sensors_event list \<times> 'f virt_gyro" where
  "VirtGyroscope_readEvents e a count s = read_events (plain_hooks (VirtGyroscope_processEvent e)) a count s"

end
