(* ===== verification/SensorContext.thy ===== *)
theory SensorContext
  imports SensorDrivers SensorFusion
begin

text \<open>
  \<open>src/proprietary/hardware/sensor/SensorContext.cpp\<close>: the table of sensor classes behind one \<open>poll\<close>. The
  calls through the table are the functions of a \<open>vtable\<close> over the state of all classes; \<open>class_table\<close> is
  the one the constructor fills in. (\<open>MAG_CALIBRATION_IN_SENSORHUB\<close> is not defined.)
\<close>

section \<open>Which class has a handle\<close>

definition accel :: int where "accel = 0"
definition magnetic_index :: int where "magnetic_index = 1"
definition gyro :: int where "gyro = 2"
definition light :: int where "light = 3"
definition proximity :: int where "proximity = 4"
definition pressure :: int where "pressure = 5"
definition humidity_index :: int where "humidity_index = 6"
definition stepcounter :: int where "stepcounter = 7"
definition pedometer :: int where "pedometer = 8"
definition activity :: int where "activity = 9"
definition situation_index :: int where "situation_index = 10"
definition scpfusion :: int where "scpfusion = 11"
definition apfusion :: int where "apfusion = 12"
definition bio :: int where "bio = 13"
definition wakeupset :: int where "wakeupset = 14"
definition numFds :: int where "numFds = 15"

lemmas index_defs = accel_def magnetic_index_def gyro_def light_def proximity_def pressure_def humidity_index_def
  stepcounter_def pedometer_def activity_def situation_index_def scpfusion_def apfusion_def bio_def wakeupset_def

definition dynamicFusionSelect :: int where
  "dynamicFusionSelect = apfusion"

definition dynamicUncaliGyroSelect :: "bool \<Rightarrow> int" where
  "dynamicUncaliGyroSelect hwGyroSupported = (if hwGyroSupported then scpfusion else apfusion)"

definition dynamicUncaliMagSelect :: int where
  "dynamicUncaliMagSelect = apfusion"

definition handleToDriver :: "bool \<Rightarrow> int \<Rightarrow> int" where
  "handleToDriver hwGyro handle =
     (if handle = ID_ACCELEROMETER then accel
      else if handle = ID_MAGNETIC then magnetic_index
      else if handle = ID_PROXIMITY then proximity
      else if handle = ID_LIGHT \<or> handle = ID_RGBW then light
      else if handle = ID_GYROSCOPE then gyro
      else if handle = ID_PRESSURE then pressure
      else if handle = ID_RELATIVE_HUMIDITY then humidity_index
      else if handle \<in> {ID_STEP_COUNTER, ID_STEP_DETECTOR, ID_SIGNIFICANT_MOTION, ID_FLOOR_COUNTER} then stepcounter
      else if handle = ID_PEDOMETER then pedometer
      else if handle = ID_ACTIVITY then activity
      else if handle \<in> {ID_LINEAR_ACCELERATION, ID_ROTATION_VECTOR, ID_GAME_ROTATION_VECTOR, ID_GRAVITY,
                       ID_GEOMAGNETIC_ROTATION_VECTOR, ID_ORIENTATION, ID_PDR} then dynamicFusionSelect
      else if handle = ID_ACCELEROMETER_UNCALIBRATED then scpfusion
      else if handle = ID_GYROSCOPE_UNCALIBRATED \<or> handle = ID_GYRO_TEMPERATURE then dynamicUncaliGyroSelect hwGyro
      else if handle = ID_MAGNETIC_UNCALIBRATED then dynamicUncaliMagSelect
      else if handle \<in> {ID_FACE_DOWN, ID_SHAKE, ID_ANSWER_CALL, ID_IN_POCKET, ID_STATIONARY_DETECT, ID_MOTION_DETECT,
                       ID_DEVICE_ORIENTATION, ID_WAKE_GESTURE, ID_PICK_UP_GESTURE, ID_GLANCE_GESTURE, ID_TILT_DETECTOR,
                       ID_FLAT, ID_SAR} then situation_index
      else if handle \<in> {ID_EKG, ID_PPG1, ID_PPG2} then bio
      else if handle = ID_STEP_DETECTOR_WAKEUP then wakeupset
      else - EINVAL)"

section \<open>Calls through the table\<close>

record 'w vtable =
  vt_enable :: "int \<Rightarrow> int \<Rightarrow> int \<Rightarrow> 'w \<Rightarrow> int \<times> 'w"
  vt_batch :: "int \<Rightarrow> int \<Rightarrow> int \<Rightarrow> int \<Rightarrow> int \<Rightarrow> 'w \<Rightarrow> int \<times> 'w"
  vt_flush :: "int \<Rightarrow> int \<Rightarrow> 'w \<Rightarrow> int \<times> 'w"
  vt_setEvent :: "int \<Rightarrow> sensors_event \<Rightarrow> 'w \<Rightarrow> int \<times> 'w"
  vt_readEvents :: "int \<Rightarrow> int \<Rightarrow> 'w \<Rightarrow> int \<times> sensors_event list \<times> 'w"
  vt_pending :: "int \<Rightarrow> 'w \<Rightarrow> bool"

definition dispatch :: "int \<Rightarrow> ('w \<Rightarrow> int \<times> 'w) \<Rightarrow> 'w \<Rightarrow> int \<times> 'w" where
  "dispatch index call w = (if index \<ge> numFds \<or> index < 0 then (0, w) else call w)"

definition activate :: "'w vtable \<Rightarrow> bool \<Rightarrow> int \<Rightarrow> int \<Rightarrow> 'w \<Rightarrow> int \<times> 'w" where
  "activate v hwGyro handle enabled w =
     dispatch (handleToDriver hwGyro handle) (vt_enable v (handleToDriver hwGyro handle) handle enabled) w"

definition setDelay :: "'w vtable \<Rightarrow> bool \<Rightarrow> int \<Rightarrow> int \<Rightarrow> 'w \<Rightarrow> int \<times> 'w" where
  "setDelay v hwGyro handle ns w =
     dispatch (handleToDriver hwGyro handle) (vt_batch v (handleToDriver hwGyro handle) handle 0 ns 0) w"

definition batch :: "'w vtable \<Rightarrow> bool \<Rightarrow> int \<Rightarrow> int \<Rightarrow> int \<Rightarrow> int \<Rightarrow> 'w \<Rightarrow> int \<times> 'w" where
  "batch v hwGyro handle flags period latency w =
     dispatch (handleToDriver hwGyro handle) (vt_batch v (handleToDriver hwGyro handle) handle flags period latency) w"

definition flush :: "'w vtable \<Rightarrow> bool \<Rightarrow> int \<Rightarrow> 'w \<Rightarrow> int \<times> 'w" where
  "flush v hwGyro handle w = dispatch (handleToDriver hwGyro handle) (vt_flush v (handleToDriver hwGyro handle) handle) w"

definition setEvent :: "'w vtable \<Rightarrow> sensors_event \<Rightarrow> int \<Rightarrow> 'w \<Rightarrow> int \<times> 'w" where
  "setEvent v d module w = dispatch module (vt_setEvent v module d) w"

section \<open>Polling\<close>

text \<open>\<open>ready\<close> is \<open>revents & POLLIN\<close> of each descriptor.\<close>

definition has_data :: "'w vtable \<Rightarrow> (int \<Rightarrow> bool) \<Rightarrow> 'w \<Rightarrow> int \<Rightarrow> bool" where
  "has_data v ready w i \<longleftrightarrow> ready i \<or> vt_pending v i w"

definition all_indices :: "int list" where
  "all_indices = map int [0..<15]"

definition computeCountForEachFd :: "'w vtable \<Rightarrow> (int \<Rightarrow> bool) \<Rightarrow> 'w \<Rightarrow> int \<Rightarrow> int \<times> int" where
  "computeCountForEachFd v ready w count =
     (let pendingFd = int (length (filter (has_data v ready w) all_indices));
          temp = (if pendingFd \<noteq> 0 then count div pendingFd else count)
      in (if temp \<noteq> 0 then temp else count, if count < pendingFd then 1 else pendingFd))"

text \<open>The framework counts handles from one; a completed flush has its handle in the second word.\<close>

definition offset_event :: "sensors_event \<Rightarrow> sensors_event" where
  "offset_event d =
     (if type_of d = SENSOR_TYPE_META_DATA then d\<lparr>data := (data d)[1 := data d ! 1 + 1]\<rparr>
      else d\<lparr>sensor := sensor d + ID_OFFSET\<rparr>)"

text \<open>One pass over the classes; \<open>None\<close> is \<open>abort\<close>.\<close>

primrec poll_pass :: "int list \<Rightarrow> 'w vtable \<Rightarrow> (int \<Rightarrow> bool) \<Rightarrow> int \<Rightarrow> int \<Rightarrow> int \<Rightarrow> sensors_event list \<Rightarrow> 'w
    \<Rightarrow> (int \<times> sensors_event list \<times> 'w) option" where
  "poll_pass [] v ready average count loop out w = Some (count, out, w)"
| "poll_pass (i # is) v ready average count loop out w =
     (if count = 0 \<or> loop = 0 then Some (count, out, w)
      else if has_data v ready w i then
        let (nb, evs, w1) = vt_readEvents v i average w
        in if nb < 0 \<or> nb > average then None
           else if count - nb < 0 then None
           else poll_pass is v ready average (count - nb) (loop - 1) (out @ map offset_event (take (nat nb) evs)) w1
      else poll_pass is v ready average count loop out w)"

text \<open>
  The answers of \<open>poll\<close>: how many descriptors are ready and which, or an error. \<open>Blocked\<close> is the call
  that has not returned.
\<close>

datatype poll_answer = PollReady int "int \<Rightarrow> bool" | PollError

datatype 'w polled = Returned int "sensors_event list" "int \<Rightarrow> bool" 'w | Aborted | Blocked

primrec poll_loop :: "poll_answer list \<Rightarrow> 'w vtable \<Rightarrow> int \<Rightarrow> (int \<Rightarrow> bool) \<Rightarrow> int \<Rightarrow> sensors_event list \<Rightarrow> 'w \<Rightarrow> 'w polled" where
  "poll_loop [] v errno ready count out w =
     (let (average, loop) = computeCountForEachFd v ready w count
      in case poll_pass all_indices v ready average count loop out w of None \<Rightarrow> Aborted | Some r \<Rightarrow> Blocked)"
| "poll_loop (p # ps) v errno ready count out w =
     (let (average, loop) = computeCountForEachFd v ready w count
      in case poll_pass all_indices v ready average count loop out w of None \<Rightarrow> Aborted
         | Some (count1, out1, w1) \<Rightarrow>
             (case p of PollError \<Rightarrow> Returned (- errno) out1 ready w1
              | PollReady n ready1 \<Rightarrow>
                  if n \<noteq> 0 \<and> count1 \<noteq> 0 then poll_loop ps v errno ready1 count1 out1 w1
                  else Returned (int (length out1)) out1 ready1 w1))"

definition pollEvent :: "poll_answer list \<Rightarrow> 'w vtable \<Rightarrow> int \<Rightarrow> (int \<Rightarrow> bool) \<Rightarrow> int \<Rightarrow> 'w \<Rightarrow> 'w polled" where
  "pollEvent polls v errno ready count w = poll_loop polls v errno ready count [] w"

section \<open>The classes of the table\<close>

datatype 'f gyroscope = HwGyro flush_sensor | VirtGyro "'f virt_gyro"

text \<open>\<open>answers\<close> are the answers of the \<open>read\<close>s that follow, \<open>ReadError\<close> when the list ends.\<close>

record ('c, 'f) classes =
  s_accel :: flush_sensor
  s_magnetic :: "'c magnetic"
  s_gyro :: "'f gyroscope"
  s_light :: hw_sensor
  s_proximity :: hw_sensor
  s_pressure :: hw_sensor
  s_humidity :: humidity
  s_stepcounter :: step_counter
  s_pedometer :: hw_sensor
  s_activity :: hw_sensor
  s_situation :: situation
  s_scpfusion :: scp_fusion
  s_apfusion :: "'f ap_fusion"
  s_bio :: biometric
  s_wakeupset :: base
  answers :: "read_answer list"

record ('c, 'f) libs =
  lib_env :: sensor_env
  lib_mag :: "'c mag_lib"
  lib_fusion :: "'f fusion_lib"
  lib_loops :: "int \<Rightarrow> int \<Rightarrow> int"
  lib_status :: "u32 \<Rightarrow> int"
  lib_dry_run :: "int \<Rightarrow> bool"
  lib_errno :: int

definition contextInstance :: "('c, 'f) libs \<Rightarrow> bool \<Rightarrow> (int \<Rightarrow> bool) \<Rightarrow> 'c \<Rightarrow> 'f \<Rightarrow> ('c, 'f) classes" where
  "contextInstance l hwGyro opened c f =
     (let e = lib_env l
      in \<lparr>s_accel = AccelerationSensor e (opened accel), s_magnetic = MagneticSensor e (lib_mag l) c (opened magnetic_index),
          s_gyro = (if hwGyro then HwGyro (HwGyroscopeSensor e (opened gyro)) else VirtGyro (VirtGyroscopeSensor f)),
          s_light = AmbiLightSensor e (opened light), s_proximity = ProximitySensor e (opened proximity),
          s_pressure = PressureSensor e (opened pressure), s_humidity = HumiditySensor e (opened humidity_index),
          s_stepcounter = StepCounterSensor (opened stepcounter), s_pedometer = PedometerSensor e (opened pedometer),
          s_activity = ActivitySensor e (opened activity), s_situation = SituationSensor (opened situation_index),
          s_scpfusion = ScpFusionSensor e (opened scpfusion), s_apfusion = ApFusionSensor f,
          s_bio = BiometricSensor (opened bio), s_wakeupset = WakeUpSetSensor, answers = []\<rparr>)"

definition result1 :: "(('c, 'f) classes \<Rightarrow> 's \<Rightarrow> ('c, 'f) classes) \<Rightarrow> ('c, 'f) classes \<Rightarrow> int \<times> 's \<Rightarrow> int \<times> ('c, 'f) classes" where
  "result1 put w r = (fst r, put w (snd r))"

definition class_enable :: "('c, 'f) libs \<Rightarrow> int \<Rightarrow> int \<Rightarrow> int \<Rightarrow> ('c, 'f) classes \<Rightarrow> int \<times> ('c, 'f) classes" where
  "class_enable l i handle en w =
     (let e = lib_env l
      in if i = accel then result1 (\<lambda>w s. w\<lparr>s_accel := s\<rparr>) w (Acceleration_enable e handle en (s_accel w))
         else if i = magnetic_index then result1 (\<lambda>w s. w\<lparr>s_magnetic := s\<rparr>) w (Magnetic_enable e (lib_mag l) handle en (s_magnetic w))
         else if i = gyro then
           (case s_gyro w of
              HwGyro g \<Rightarrow> result1 (\<lambda>w s. w\<lparr>s_gyro := HwGyro s\<rparr>) w (HwGyroscope_enable e handle en g)
            | VirtGyro g \<Rightarrow> result1 (\<lambda>w s. w\<lparr>s_gyro := VirtGyro s\<rparr>) w (VirtGyroscope_enable handle en g))
         else if i = light then result1 (\<lambda>w s. w\<lparr>s_light := s\<rparr>) w (AmbiLight_enable e handle en (s_light w))
         else if i = proximity then result1 (\<lambda>w s. w\<lparr>s_proximity := s\<rparr>) w (Proximity_enable e handle en (s_proximity w))
         else if i = pressure then result1 (\<lambda>w s. w\<lparr>s_pressure := s\<rparr>) w (Pressure_enable e handle en (s_pressure w))
         else if i = humidity_index then result1 (\<lambda>w s. w\<lparr>s_humidity := s\<rparr>) w (Humidity_enable e handle en (s_humidity w))
         else if i = stepcounter then result1 (\<lambda>w s. w\<lparr>s_stepcounter := s\<rparr>) w (StepCounter_enable e handle en (s_stepcounter w))
         else if i = pedometer then result1 (\<lambda>w s. w\<lparr>s_pedometer := s\<rparr>) w (Pedometer_enable e handle en (s_pedometer w))
         else if i = activity then result1 (\<lambda>w s. w\<lparr>s_activity := s\<rparr>) w (Activity_enable e handle en (s_activity w))
         else if i = situation_index then result1 (\<lambda>w s. w\<lparr>s_situation := s\<rparr>) w (Situation_enable e handle en (s_situation w))
         else if i = scpfusion then result1 (\<lambda>w s. w\<lparr>s_scpfusion := s\<rparr>) w (ScpFusion_enable e handle en (s_scpfusion w))
         else if i = apfusion then result1 (\<lambda>w s. w\<lparr>s_apfusion := s\<rparr>) w (ApFusion_enable handle en (s_apfusion w))
         else if i = bio then result1 (\<lambda>w s. w\<lparr>s_bio := s\<rparr>) w (Biometric_enable e handle en (s_bio w))
         else result1 (\<lambda>w s. w\<lparr>s_wakeupset := s\<rparr>) w (WakeUpSet_enable handle en (s_wakeupset w)))"

definition class_batch :: "('c, 'f) libs \<Rightarrow> int \<Rightarrow> int \<Rightarrow> int \<Rightarrow> int \<Rightarrow> int \<Rightarrow> ('c, 'f) classes \<Rightarrow> int \<times> ('c, 'f) classes" where
  "class_batch l i h flags p t w =
     (let e = lib_env l
      in if i = accel then result1 (\<lambda>w s. w\<lparr>s_accel := s\<rparr>) w (Acceleration_batch e h flags p t (s_accel w))
         else if i = magnetic_index then result1 (\<lambda>w s. w\<lparr>s_magnetic := s\<rparr>) w (Magnetic_batch e h flags p t (s_magnetic w))
         else if i = gyro then
           (case s_gyro w of
              HwGyro g \<Rightarrow> result1 (\<lambda>w s. w\<lparr>s_gyro := HwGyro s\<rparr>) w (HwGyroscope_batch e h flags p t g)
            | VirtGyro g \<Rightarrow> result1 (\<lambda>w s. w\<lparr>s_gyro := VirtGyro s\<rparr>) w (VirtGyroscope_batch h flags p t g))
         else if i = light then result1 (\<lambda>w s. w\<lparr>s_light := s\<rparr>) w (AmbiLight_batch e h flags p t (s_light w))
         else if i = proximity then result1 (\<lambda>w s. w\<lparr>s_proximity := s\<rparr>) w (Proximity_batch e h flags p t (s_proximity w))
         else if i = pressure then result1 (\<lambda>w s. w\<lparr>s_pressure := s\<rparr>) w (Pressure_batch e h flags p t (s_pressure w))
         else if i = humidity_index then result1 (\<lambda>w s. w\<lparr>s_humidity := s\<rparr>) w (Humidity_batch e h (lib_dry_run l flags) p t (s_humidity w))
         else if i = stepcounter then result1 (\<lambda>w s. w\<lparr>s_stepcounter := s\<rparr>) w (StepCounter_batch e h flags p t (s_stepcounter w))
         else if i = pedometer then result1 (\<lambda>w s. w\<lparr>s_pedometer := s\<rparr>) w (Pedometer_batch e h flags p t (s_pedometer w))
         else if i = activity then result1 (\<lambda>w s. w\<lparr>s_activity := s\<rparr>) w (Activity_batch e h flags p t (s_activity w))
         else if i = situation_index then result1 (\<lambda>w s. w\<lparr>s_situation := s\<rparr>) w (Situation_batch e h flags p t (s_situation w))
         else if i = scpfusion then result1 (\<lambda>w s. w\<lparr>s_scpfusion := s\<rparr>) w (ScpFusion_batch e h flags p t (s_scpfusion w))
         else if i = apfusion then result1 (\<lambda>w s. w\<lparr>s_apfusion := s\<rparr>) w (ApFusion_batch h flags p t (s_apfusion w))
         else if i = bio then result1 (\<lambda>w s. w\<lparr>s_bio := s\<rparr>) w (Biometric_batch e h flags p t (s_bio w))
         else result1 (\<lambda>w s. w\<lparr>s_wakeupset := s\<rparr>) w (WakeUpSet_batch h flags p t (s_wakeupset w)))"

definition class_flush :: "('c, 'f) libs \<Rightarrow> int \<Rightarrow> int \<Rightarrow> ('c, 'f) classes \<Rightarrow> int \<times> ('c, 'f) classes" where
  "class_flush l i h w =
     (let e = lib_env l
      in if i = accel then result1 (\<lambda>w s. w\<lparr>s_accel := s\<rparr>) w (Acceleration_flush e h (s_accel w))
         else if i = magnetic_index then result1 (\<lambda>w s. w\<lparr>s_magnetic := s\<rparr>) w (Magnetic_flush e h (s_magnetic w))
         else if i = gyro then
           (case s_gyro w of
              HwGyro g \<Rightarrow> result1 (\<lambda>w s. w\<lparr>s_gyro := HwGyro s\<rparr>) w (HwGyroscope_flush e h g)
            | VirtGyro g \<Rightarrow> result1 (\<lambda>w s. w\<lparr>s_gyro := VirtGyro s\<rparr>) w (VirtGyroscope_flush h g))
         else if i = light then result1 (\<lambda>w s. w\<lparr>s_light := s\<rparr>) w (AmbiLight_flush e h (s_light w))
         else if i = proximity then result1 (\<lambda>w s. w\<lparr>s_proximity := s\<rparr>) w (Proximity_flush e h (s_proximity w))
         else if i = pressure then result1 (\<lambda>w s. w\<lparr>s_pressure := s\<rparr>) w (Pressure_flush e h (s_pressure w))
         else if i = humidity_index then result1 (\<lambda>w s. w\<lparr>s_humidity := s\<rparr>) w (Humidity_flush (lib_errno l) h (s_humidity w))
         else if i = stepcounter then result1 (\<lambda>w s. w\<lparr>s_stepcounter := s\<rparr>) w (StepCounter_flush e h (s_stepcounter w))
         else if i = pedometer then result1 (\<lambda>w s. w\<lparr>s_pedometer := s\<rparr>) w (Pedometer_flush e h (s_pedometer w))
         else if i = activity then result1 (\<lambda>w s. w\<lparr>s_activity := s\<rparr>) w (Activity_flush e h (s_activity w))
         else if i = situation_index then result1 (\<lambda>w s. w\<lparr>s_situation := s\<rparr>) w (Situation_flush e h (s_situation w))
         else if i = scpfusion then result1 (\<lambda>w s. w\<lparr>s_scpfusion := s\<rparr>) w (ScpFusion_flush e h (s_scpfusion w))
         else if i = apfusion then result1 (\<lambda>w s. w\<lparr>s_apfusion := s\<rparr>) w (ApFusion_flush h (s_apfusion w))
         else if i = bio then result1 (\<lambda>w s. w\<lparr>s_bio := s\<rparr>) w (Biometric_flush e h (s_bio w))
         else result1 (\<lambda>w s. w\<lparr>s_wakeupset := s\<rparr>) w (WakeUpSet_flush h (s_wakeupset w)))"

text \<open>Only the classes that subscribe to others override \<open>setEvent\<close>; the rest logs and returns 0.\<close>

definition class_setEvent :: "('c, 'f) libs \<Rightarrow> int \<Rightarrow> sensors_event \<Rightarrow> ('c, 'f) classes \<Rightarrow> int \<times> ('c, 'f) classes" where
  "class_setEvent l i d w =
     (let e = lib_env l
      in if i = gyro then
           (case s_gyro w of HwGyro g \<Rightarrow> (0, w)
            | VirtGyro g \<Rightarrow> result1 (\<lambda>w s. w\<lparr>s_gyro := VirtGyro s\<rparr>) w (VirtGyroscope_setEvent e (lib_fusion l) (lib_status l) d g))
         else if i = apfusion then
           result1 (\<lambda>w s. w\<lparr>s_apfusion := s\<rparr>) w (ApFusion_setEvent e (lib_fusion l) (lib_status l) d (s_apfusion w))
         else if i = wakeupset then result1 (\<lambda>w s. w\<lparr>s_wakeupset := s\<rparr>) w (WakeUpSet_setEvent e d (s_wakeupset w))
         else (0, w))"

definition next_answer :: "('c, 'f) classes \<Rightarrow> read_answer" where
  "next_answer w = (case answers w of [] \<Rightarrow> ReadError | a # as \<Rightarrow> a)"

definition result2 :: "(('c, 'f) classes \<Rightarrow> 's \<Rightarrow> ('c, 'f) classes) \<Rightarrow> ('c, 'f) classes \<Rightarrow> int \<times> sensors_event list \<times> 's
    \<Rightarrow> int \<times> sensors_event list \<times> ('c, 'f) classes" where
  "result2 put w r = (fst r, fst (snd r), (put w (snd (snd r)))\<lparr>answers := tl (answers w)\<rparr>)"

definition class_readEvents :: "('c, 'f) libs \<Rightarrow> int \<Rightarrow> int \<Rightarrow> ('c, 'f) classes \<Rightarrow> int \<times> sensors_event list \<times> ('c, 'f) classes" where
  "class_readEvents l i count w =
     (let e = lib_env l; a = next_answer w
      in if i = accel then result2 (\<lambda>w s. w\<lparr>s_accel := s\<rparr>) w (Acceleration_readEvents e a count (s_accel w))
         else if i = magnetic_index then result2 (\<lambda>w s. w\<lparr>s_magnetic := s\<rparr>) w (Magnetic_readEvents e (lib_mag l) a count (s_magnetic w))
         else if i = gyro then
           (case s_gyro w of
              HwGyro g \<Rightarrow> result2 (\<lambda>w s. w\<lparr>s_gyro := HwGyro s\<rparr>) w (HwGyroscope_readEvents e a count g)
            | VirtGyro g \<Rightarrow> result2 (\<lambda>w s. w\<lparr>s_gyro := VirtGyro s\<rparr>) w (VirtGyroscope_readEvents e a count g))
         else if i = light then result2 (\<lambda>w s. w\<lparr>s_light := s\<rparr>) w (AmbiLight_readEvents e a count (s_light w))
         else if i = proximity then result2 (\<lambda>w s. w\<lparr>s_proximity := s\<rparr>) w (Proximity_readEvents e a count (s_proximity w))
         else if i = pressure then result2 (\<lambda>w s. w\<lparr>s_pressure := s\<rparr>) w (Pressure_readEvents e a count (s_pressure w))
         else if i = humidity_index then
           result2 (\<lambda>w s. w\<lparr>s_humidity := s\<rparr>) w (Humidity_readEvents e (lib_loops l) a count (s_humidity w))
         else if i = stepcounter then result2 (\<lambda>w s. w\<lparr>s_stepcounter := s\<rparr>) w (StepCounter_readEvents e a count (s_stepcounter w))
         else if i = pedometer then result2 (\<lambda>w s. w\<lparr>s_pedometer := s\<rparr>) w (Pedometer_readEvents e a count (s_pedometer w))
         else if i = activity then result2 (\<lambda>w s. w\<lparr>s_activity := s\<rparr>) w (Activity_readEvents e a count (s_activity w))
         else if i = situation_index then result2 (\<lambda>w s. w\<lparr>s_situation := s\<rparr>) w (Situation_readEvents e a count (s_situation w))
         else if i = scpfusion then result2 (\<lambda>w s. w\<lparr>s_scpfusion := s\<rparr>) w (ScpFusion_readEvents e a count (s_scpfusion w))
         else if i = apfusion then result2 (\<lambda>w s. w\<lparr>s_apfusion := s\<rparr>) w (ApFusion_readEvents e a count (s_apfusion w))
         else if i = bio then result2 (\<lambda>w s. w\<lparr>s_bio := s\<rparr>) w (Biometric_readEvents e a count (s_bio w))
         else result2 (\<lambda>w s. w\<lparr>s_wakeupset := s\<rparr>) w (WakeUpSet_readEvents e a count (s_wakeupset w)))"

text \<open>Humidity does not override \<open>pendingEvent\<close>.\<close>

definition class_pending :: "int \<Rightarrow> ('c, 'f) classes \<Rightarrow> bool" where
  "class_pending i w =
     (if i = accel then pendingEvent (mSensorReader (s_accel w))
      else if i = magnetic_index then pendingEvent (mSensorReader (s_magnetic w))
      else if i = gyro then (case s_gyro w of HwGyro g \<Rightarrow> pendingEvent (mSensorReader g) | VirtGyro g \<Rightarrow> pendingEvent (mSensorReader g))
      else if i = light then pendingEvent (mSensorReader (s_light w))
      else if i = proximity then pendingEvent (mSensorReader (s_proximity w))
      else if i = pressure then pendingEvent (mSensorReader (s_pressure w))
      else if i = humidity_index then False
      else if i = stepcounter then pendingEvent (mSensorReader (s_stepcounter w))
      else if i = pedometer then pendingEvent (mSensorReader (s_pedometer w))
      else if i = activity then pendingEvent (mSensorReader (s_activity w))
      else if i = situation_index then pendingEvent (mSensorReader (s_situation w))
      else if i = scpfusion then pendingEvent (mSensorReader (s_scpfusion w))
      else if i = apfusion then pendingEvent (mSensorReader (s_apfusion w))
      else if i = bio then pendingEvent (mSensorReader (s_bio w))
      else pendingEvent (mSensorReader (s_wakeupset w)))"

definition class_table :: "('c, 'f) libs \<Rightarrow> ('c, 'f) classes vtable" where
  "class_table l = \<lparr>vt_enable = class_enable l, vt_batch = class_batch l, vt_flush = class_flush l,
     vt_setEvent = class_setEvent l, vt_readEvents = class_readEvents l, vt_pending = class_pending\<rparr>"

end
