(* ===== verification/SensorManager.thy ===== *)
theory SensorManager
  imports SensorContext "HOL-Library.AList"
begin

text \<open>
  \<open>src/proprietary/hardware/sensor/SensorManager.cpp\<close>: who uses which sensor and at which rate. The
  framework, the direct channels and the classes that compute one sensor from others are connections; per
  sensor the manager keeps what each has asked for and passes the fastest request on to the table of
  SensorContext. A pointer to a connection is a number; the vectors of the platform that are sorted by a
  key are association lists and sorted lists.
\<close>

section \<open>State\<close>

record batch_params =
  bp_flags :: int
  batchDelay :: int
  batchTimeout :: int

record info =
  bestBatchParams :: batch_params
  batchParams :: "(nat \<times> batch_params) list"

definition no_batch :: batch_params where
  "no_batch = \<lparr>bp_flags = 0, batchDelay = -1, batchTimeout = -1\<rparr>"

definition new_manager_info :: info where
  "new_manager_info = \<lparr>bestBatchParams = no_batch, batchParams = []\<rparr>"

record connection =
  mActiveHandles :: "int list"
  mMoudle :: int

definition addActiveHandle :: "int \<Rightarrow> connection \<Rightarrow> bool \<times> connection" where
  "addActiveHandle h c =
     (if h \<notin> set (mActiveHandles c) then (True, c\<lparr>mActiveHandles := insort h (mActiveHandles c)\<rparr>) else (False, c))"

definition removeActiveHandle :: "int \<Rightarrow> connection \<Rightarrow> bool \<times> connection" where
  "removeActiveHandle h c =
     (let c1 = (if h \<in> set (mActiveHandles c) then c\<lparr>mActiveHandles := remove1 h (mActiveHandles c)\<rparr> else c)
      in (mActiveHandles c1 = [], c1))"

definition hasHandleIndexOf :: "int \<Rightarrow> connection \<Rightarrow> bool" where
  "hasHandleIndexOf h c \<longleftrightarrow> h \<in> set (mActiveHandles c)"

text \<open>
  What the manager calls: the operations of the sensor context over its state \<open>'w\<close>. \<open>op_poll\<close> is
  \<open>None\<close> when the call does not return.
\<close>

record 'w hw_ops =
  op_activate :: "int \<Rightarrow> bool \<Rightarrow> 'w \<Rightarrow> int \<times> 'w"
  op_batch :: "int \<Rightarrow> int \<Rightarrow> int \<Rightarrow> int \<Rightarrow> 'w \<Rightarrow> int \<times> 'w"
  op_flush :: "int \<Rightarrow> 'w \<Rightarrow> int \<times> 'w"
  op_setEvent :: "sensors_event \<Rightarrow> int \<Rightarrow> 'w \<Rightarrow> int \<times> 'w"
  op_poll :: "int \<Rightarrow> 'w \<Rightarrow> (int \<times> sensors_event list \<times> 'w) option"

text \<open>The calls that were made, with their results.\<close>

datatype hw_call = HwActivate int bool int | HwBatch int int int int

record 'w manager =
  connections :: "(nat \<times> connection) list"
  mActiveConnections :: "nat list"
  mNativeConnection :: "nat option"
  mDirectConnection :: "nat option"
  mActivationCount :: "(int \<times> info) list"
  mDisabledClients :: "nat list"
  mSensorList :: "(int \<times> int) list" \<comment> \<open>handle and minimal delay in microseconds\<close>
  context_state :: 'w
  direct_reports :: "sensors_event list"
  hw_calls :: "hw_call list"

definition newSensorManager :: "'w \<Rightarrow> 'w manager" where
  "newSensorManager w =
     \<lparr>connections = [], mActiveConnections = [], mNativeConnection = None, mDirectConnection = None, mActivationCount = [],
      mDisabledClients = [], mSensorList = [], context_state = w, direct_reports = [], hw_calls = []\<rparr>"

definition isClientDisabledLocked :: "nat \<Rightarrow> 'w manager \<Rightarrow> bool" where
  "isClientDisabledLocked c m \<longleftrightarrow> c \<in> set (mDisabledClients m)"

definition cleanupConnection :: "nat \<Rightarrow> 'w manager \<Rightarrow> 'w manager" where
  "cleanupConnection c m = m\<lparr>mDisabledClients := remove1 c (mDisabledClients m)\<rparr>"

definition setNativeConnection :: "nat \<Rightarrow> 'w manager \<Rightarrow> 'w manager" where
  "setNativeConnection c m = m\<lparr>mNativeConnection := Some c\<rparr>"

definition setDirectConnection :: "nat \<Rightarrow> 'w manager \<Rightarrow> 'w manager" where
  "setDirectConnection c m = m\<lparr>mDirectConnection := Some c\<rparr>"

section \<open>Connections\<close>

text \<open>The object is new, so its pointer is that of no other connection.\<close>

definition fresh_connection :: "'w manager \<Rightarrow> nat" where
  "fresh_connection m = Suc (Max (insert 0 (fst ` set (connections m))))"

definition createSensorConnection :: "int \<Rightarrow> 'w manager \<Rightarrow> nat \<times> 'w manager" where
  "createSensorConnection module m =
     (let c = fresh_connection m
      in (c, m\<lparr>connections := AList.update c \<lparr>mActiveHandles = [], mMoudle = module\<rparr> (connections m),
               mActiveConnections := insort c (mActiveConnections m)\<rparr>))"

definition removeSensorConnection :: "nat \<Rightarrow> 'w manager \<Rightarrow> 'w manager" where
  "removeSensorConnection c m =
     (cleanupConnection c (m\<lparr>mActiveConnections := remove1 c (mActiveConnections m)\<rparr>))
        \<lparr>connections := AList.delete c (connections m)\<rparr>"

definition the_connection :: "nat \<Rightarrow> 'w manager \<Rightarrow> connection" where
  "the_connection c m =
     (case map_of (connections m) c of None \<Rightarrow> \<lparr>mActiveHandles = [], mMoudle = -1\<rparr> | Some x \<Rightarrow> x)"

definition put_connection :: "nat \<Rightarrow> connection \<Rightarrow> 'w manager \<Rightarrow> 'w manager" where
  "put_connection c x m = m\<lparr>connections := AList.update c x (connections m)\<rparr>"

section \<open>Requests of one sensor\<close>

definition enabled_requests :: "nat list \<Rightarrow> info \<Rightarrow> batch_params list" where
  "enabled_requests disabled i = map snd (filter (\<lambda>(c, p). c \<notin> set disabled) (batchParams i))"

definition numActiveClients :: "nat list \<Rightarrow> info \<Rightarrow> nat" where
  "numActiveClients disabled i = length (enabled_requests disabled i)"

definition setBatchParamsForIdent :: "nat \<Rightarrow> int \<Rightarrow> int \<Rightarrow> int \<Rightarrow> info \<Rightarrow> int \<times> info" where
  "setBatchParamsForIdent c flags period latency i =
     (if map_of (batchParams i) c = None then (-1, i)
      else (0, i\<lparr>batchParams := AList.update c \<lparr>bp_flags = flags, batchDelay = period, batchTimeout = latency\<rparr> (batchParams i)\<rparr>))"

text \<open>One step of the loop that looks for the smallest delay and the smallest time-out, \<open>-1\<close> being none yet.\<close>

definition better :: "batch_params \<Rightarrow> batch_params \<Rightarrow> batch_params" where
  "better p b =
     b\<lparr>batchDelay := (if batchDelay b = -1 \<or> batchDelay p < batchDelay b then batchDelay p else batchDelay b),
       batchTimeout := (if batchTimeout b = -1 \<or> batchTimeout p < batchTimeout b then batchTimeout p else batchTimeout b)\<rparr>"

definition best_of :: "batch_params list \<Rightarrow> batch_params" where
  "best_of ps = fold better ps no_batch"

definition selectBatchParams :: "nat list \<Rightarrow> info \<Rightarrow> info" where
  "selectBatchParams disabled i = i\<lparr>bestBatchParams := best_of (enabled_requests disabled i)\<rparr>"

definition removeBatchParamsForIdent :: "nat list \<Rightarrow> nat \<Rightarrow> info \<Rightarrow> bool \<times> info" where
  "removeBatchParamsForIdent disabled c i =
     (if map_of (batchParams i) c = None then (False, i)
      else (True, selectBatchParams disabled (i\<lparr>batchParams := AList.delete c (batchParams i)\<rparr>)))"

section \<open>Calling the context\<close>

definition call_activate :: "'w hw_ops \<Rightarrow> int \<Rightarrow> bool \<Rightarrow> 'w manager \<Rightarrow> int \<times> 'w manager" where
  "call_activate hw h en m =
     (let (err, w) = op_activate hw h en (context_state m)
      in (err, m\<lparr>context_state := w, hw_calls := hw_calls m @ [HwActivate h en err]\<rparr>))"

definition call_batch :: "'w hw_ops \<Rightarrow> int \<Rightarrow> batch_params \<Rightarrow> 'w manager \<Rightarrow> int \<times> 'w manager" where
  "call_batch hw h p m =
     (let (err, w) = op_batch hw h 0 (batchDelay p) (batchTimeout p) (context_state m)
      in (err, m\<lparr>context_state := w, hw_calls := hw_calls m @ [HwBatch h (batchDelay p) (batchTimeout p) err]\<rparr>))"

definition addSensorsList :: "'w hw_ops \<Rightarrow> (int \<times> int) list \<Rightarrow> 'w manager \<Rightarrow> 'w manager" where
  "addSensorsList hw list m =
     fold (\<lambda>(handle, minDelay) m.
        let h = handle - ID_OFFSET;
            m1 = m\<lparr>mActivationCount := AList.update h new_manager_info (mActivationCount m)\<rparr>
        in (snd (call_activate hw h False m1))\<lparr>mSensorList := mSensorList m @ [(handle, minDelay)]\<rparr>) list m"

definition getSensorMinDelayNs :: "int \<Rightarrow> 'w manager \<Rightarrow> int" where
  "getSensorMinDelayNs h m =
     (case map_of (mSensorList m) (h + ID_OFFSET) of None \<Rightarrow> -1 | Some d \<Rightarrow> d * 1000)"

definition put_info :: "int \<Rightarrow> info \<Rightarrow> 'w manager \<Rightarrow> 'w manager" where
  "put_info h i m = m\<lparr>mActivationCount := AList.update h i (mActivationCount m)\<rparr>"

section \<open>activate and batch\<close>

definition note_active :: "nat \<Rightarrow> int \<Rightarrow> bool \<Rightarrow> 'w manager \<Rightarrow> 'w manager" where
  "note_active c h enabled m =
     put_connection c (snd (if enabled then addActiveHandle h (the_connection c m) else removeActiveHandle h (the_connection c m))) m"

definition actuate :: "'w hw_ops \<Rightarrow> nat \<Rightarrow> int \<Rightarrow> bool \<Rightarrow> info \<Rightarrow> 'w manager \<Rightarrow> int \<times> 'w manager" where
  "actuate hw c h enabled i m =
     (let (err, m1) = call_activate hw h enabled m
      in if err \<noteq> 0 \<and> enabled
         then (err, put_info h (snd (removeBatchParamsForIdent (mDisabledClients m) c i)) m1) else (err, m1))"

definition manager_activate :: "'w hw_ops \<Rightarrow> nat \<Rightarrow> int \<Rightarrow> bool \<Rightarrow> 'w manager \<Rightarrow> int \<times> 'w manager" where
  "manager_activate hw c h enabled m0 =
     (let m = note_active c h enabled m0; dis = mDisabledClients m
      in case map_of (mActivationCount m) h of
           None \<Rightarrow> (-1, m)
         | Some i \<Rightarrow>
             if enabled then
               if isClientDisabledLocked c m then (-1, m)
               else if map_of (batchParams i) c \<noteq> None \<and> numActiveClients dis i = 1 then actuate hw c h True i m
               else (0, m)
             else
               let (removed, i1) = removeBatchParamsForIdent dis c i; m1 = put_info h i1 m;
                   idle = (removed \<and> numActiveClients dis i1 = 0);
                   m2 = (if removed \<and> \<not> idle then snd (call_batch hw h (bestBatchParams i1) m1) else m1)
               in if isClientDisabledLocked c m then (0, m2)
                  else if idle then actuate hw c h False i1 m2
                  else (0, m2))"

definition manager_batch :: "'w hw_ops \<Rightarrow> nat \<Rightarrow> int \<Rightarrow> int \<Rightarrow> int \<Rightarrow> 'w manager \<Rightarrow> int \<times> 'w manager" where
  "manager_batch hw c h period0 latency m =
     (let mindelay = getSensorMinDelayNs h m;
          period = (if mindelay > 0 \<and> period0 < mindelay then mindelay else period0);
          dis = mDisabledClients m
      in case map_of (mActivationCount m) h of
           None \<Rightarrow> (-1, m)
         | Some i \<Rightarrow>
             let p = \<lparr>bp_flags = 0, batchDelay = period, batchTimeout = latency\<rparr>;
                 i1 = (if map_of (batchParams i) c = None then i\<lparr>batchParams := AList.update c p (batchParams i)\<rparr>
                       else snd (setBatchParamsForIdent c 0 period latency i));
                 i2 = selectBatchParams dis i1;
                 m1 = put_info h i2 m
             in if bestBatchParams i \<noteq> bestBatchParams i2 then
                  let (err, m2) = call_batch hw h (bestBatchParams i2) m1
                  in if err < 0 then (err, put_info h (snd (removeBatchParamsForIdent dis c i2)) m2) else (err, m2)
                else (0, m1))"

definition manager_flush :: "'w hw_ops \<Rightarrow> nat \<Rightarrow> int \<Rightarrow> 'w manager \<Rightarrow> int \<times> 'w manager" where
  "manager_flush hw c h m =
     (let (err, w) = op_flush hw h (context_state m) in (err, m\<lparr>context_state := w\<rparr>))"

section \<open>Handing out events\<close>

definition native_events :: "connection \<Rightarrow> sensors_event list \<Rightarrow> sensors_event list" where
  "native_events x evs =
     filter (\<lambda>d. type_of d = SENSOR_TYPE_META_DATA \<or> hasHandleIndexOf (sensor d - ID_OFFSET) x) evs"

definition samples_for :: "connection \<Rightarrow> sensors_event list \<Rightarrow> sensors_event list" where
  "samples_for x evs =
     filter (\<lambda>d. type_of d \<noteq> SENSOR_TYPE_META_DATA \<and> hasHandleIndexOf (sensor d - ID_OFFSET) x) evs"

definition manager_setEvent :: "'w hw_ops \<Rightarrow> int \<Rightarrow> sensors_event \<Rightarrow> 'w manager \<Rightarrow> 'w manager" where
  "manager_setEvent hw module d m = m\<lparr>context_state := snd (op_setEvent hw d module (context_state m))\<rparr>"

definition hand_to :: "'w hw_ops \<Rightarrow> sensors_event list \<Rightarrow> nat \<Rightarrow> sensors_event list \<times> 'w manager \<Rightarrow> sensors_event list \<times> 'w manager" where
  "hand_to hw evs c s =
     (let (out, m) = s; x = the_connection c m
      in if mNativeConnection m = Some c then (out @ native_events x evs, m)
         else if mDirectConnection m = Some c then (out, m\<lparr>direct_reports := direct_reports m @ samples_for x evs\<rparr>)
         else (out, fold (\<lambda>d. manager_setEvent hw (mMoudle x) (d\<lparr>sensor := sensor d - ID_OFFSET\<rparr>)) (samples_for x evs) m))"

definition parsePollData :: "'w hw_ops \<Rightarrow> sensors_event list \<Rightarrow> 'w manager \<Rightarrow> sensors_event list \<times> 'w manager" where
  "parsePollData hw evs m = (if evs = [] then ([], m) else fold (hand_to hw evs) (mActiveConnections m) ([], m))"

definition pollMaxBufferSize :: int where "pollMaxBufferSize = 128"

text \<open>\<open>None\<close>: the loop goes on for ever, or a \<open>poll\<close> of the context does not return.\<close>

partial_function (option) manager_pollEvent :: "'w hw_ops \<Rightarrow> int \<Rightarrow> 'w manager \<Rightarrow> (int \<times> sensors_event list \<times> 'w manager) option" where
  "manager_pollEvent hw count m =
     (case op_poll hw (if count \<le> pollMaxBufferSize then count else pollMaxBufferSize) (context_state m) of
        None \<Rightarrow> None
      | Some (err, evs, w) \<Rightarrow>
          let m1 = m\<lparr>context_state := w\<rparr>
          in if err < 0 then Some (0, [], m1)
             else
               let (out, m2) = parsePollData hw (take (nat err) evs) m1
               in if out \<noteq> [] then Some (int (length out), out, m2) else manager_pollEvent hw count m2)"

section \<open>The context behind the manager\<close>

text \<open>The sensor context as it is called, with the answers of the \<open>poll\<close>s to come.\<close>

record 'w polled_context =
  pc_state :: 'w
  pc_ready :: "int \<Rightarrow> bool"
  pc_polls :: "poll_answer list list"

definition lift_call :: "('w \<Rightarrow> int \<times> 'w) \<Rightarrow> 'w polled_context \<Rightarrow> int \<times> 'w polled_context" where
  "lift_call f p = (let (err, w) = f (pc_state p) in (err, p\<lparr>pc_state := w\<rparr>))"

definition context_ops :: "'w vtable \<Rightarrow> bool \<Rightarrow> int \<Rightarrow> 'w polled_context hw_ops" where
  "context_ops v hwGyro errno =
     \<lparr>op_activate = (\<lambda>h en. lift_call (activate v hwGyro h (if en then 1 else 0))),
      op_batch = (\<lambda>h flags period latency. lift_call (batch v hwGyro h flags period latency)),
      op_flush = (\<lambda>h. lift_call (flush v hwGyro h)),
      op_setEvent = (\<lambda>d module. lift_call (setEvent v d module)),
      op_poll = (\<lambda>count p. case pc_polls p of [] \<Rightarrow> None
        | ps # rest \<Rightarrow> (case pollEvent ps v errno (pc_ready p) count (pc_state p) of
              Returned n evs r w \<Rightarrow> Some (n, evs, \<lparr>pc_state = w, pc_ready = r, pc_polls = rest\<rparr>)
            | _ \<Rightarrow> None))\<rparr>"

end
