(* ===== verification/SensorProps.thy ===== *)
theory SensorProps
  imports SensorContext
begin

text \<open>
  What the sensor classes promise the poll loop, and what the poll loop promises on top of it: the locale
  \<open>sensor_table\<close> is the contract of \<open>readEvents\<close>, the table of the constructor is shown to keep it.
\<close>

section \<open>The read loop\<close>

text \<open>\<open>I\<close> is an invariant of the reader under which every event has a known handle.\<close>

definition hooks_ok :: "'d hooks \<Rightarrow> (reader \<Rightarrow> bool) \<Rightarrow> bool" where
  "hooks_ok hk I \<longleftrightarrow>
     (\<forall>rd ev. I rd \<longrightarrow> readEvent rd = Some ev \<longrightarrow> hk_known hk ev \<and> I (next_event rd))
     \<and> (\<forall>ev c d. 0 < c \<longrightarrow> length (fst (hk_emit hk ev c d)) \<le> c)"

lemma read_loop_contract:
  "hooks_ok hk I \<Longrightarrow> I rd \<Longrightarrow> read_loop hk count rd d out = (n, evs, rd', d')
    \<Longrightarrow> n = int (length evs) \<and> length evs \<le> length out + count \<and> I rd'"
proof (induction hk count rd d out arbitrary: n evs rd' d' rule: read_loop.induct)
  case (1 hk count rd d out)
  show ?case
  proof (cases "readEvent rd = None \<or> count = 0")
    case True
    then show ?thesis using "1.prems" by (subst (asm) read_loop.simps) (auto split: option.splits)
  next
    case False
    then obtain ev where ev: "readEvent rd = Some ev" "0 < count" by auto
    obtain es d2 where e: "hk_emit hk ev count (hk_process hk ev d) = (es, d2)" by fastforce
    have known: "hk_known hk ev" "I (next_event rd)" and le: "length es \<le> count"
      using "1.prems"(1,2) ev e unfolding hooks_ok_def by (blast, blast, metis fst_conv)
    have "read_loop hk (count - length es) (next_event rd) d2 (out @ es) = (n, evs, rd', d')"
      using "1.prems"(3) ev e known by (subst (asm) read_loop.simps) simp
    then have "n = int (length evs) \<and> length evs \<le> length (out @ es) + (count - length es) \<and> I rd'"
      using "1.IH" [of ev "hk_process hk ev d" "(es, d2)" es d2] "1.prems"(1) ev e known by simp
    then show ?thesis using le by simp
  qed
qed

lemma read_events_contract:
  assumes "hooks_ok hk I" "I (snd (fill a (mSensorReader s)))" "1 \<le> count" "read_events hk a count s = (n, evs, s')"
  shows "n = int (length evs) \<and> n \<le> count \<and> I (mSensorReader s')"
proof -
  obtain m es rd d where l: "read_loop hk (nat count) (snd (fill a (mSensorReader s))) s [] = (m, es, rd, d)"
    by (metis prod_cases4)
  then have "n = m" "evs = es" "s' = d\<lparr>mSensorReader := rd\<rparr>"
    using assms(3,4) by (auto simp: read_events_def)
  then show ?thesis using read_loop_contract [OF assms(1,2) l] assms(3) by (simp add: nat_le_eq_zle le_nat_iff)
qed

lemma emit_pending_length: "0 < c \<Longrightarrow> length (fst (emit_pending ev c d)) \<le> c"
  by (simp add: emit_pending_def)

lemma plain_hooks_ok: "hooks_ok (plain_hooks p) (\<lambda>rd. True)"
  by (simp add: hooks_ok_def plain_hooks_def emit_pending_length)

lemma repeats_count: "0 < count \<Longrightarrow> repeats k count time delay prev = (ts, c, l) \<Longrightarrow> length ts + c = count"
proof (induction k arbitrary: count prev ts c l)
  case (Suc k)
  let ?t = "time - int (Suc k) * delay"
  show ?case
  proof (cases "time - ?t < 450000000 \<and> count - 1 \<noteq> 0")
    case True
    obtain ts1 c1 l1 where r: "repeats k (count - 1) time delay ?t = (ts1, c1, l1)" by (metis prod_cases3)
    have "length ts1 + c1 = count - 1" using Suc.IH [OF _ r] True by simp
    then show ?thesis using Suc.prems True r by (auto simp: Let_def)
  next
    case False
    then show ?thesis using Suc.prems Suc.IH [OF Suc.prems(1), of ?t] by (auto simp: Let_def split: if_splits)
  qed
qed simp

lemma humidity_hooks_ok:
  "hooks_ok \<lparr>hk_process = p, hk_known = (\<lambda>ev. True), hk_emit = Humidity_emit e loops\<rparr> (\<lambda>rd. True)"
proof -
  have "length (fst (Humidity_emit e loops ev c d)) \<le> c" if c: "0 < c" for ev c d
  proof -
    obtain ts k l where r: "(if loops (now e d - m_hmdy_last_ts d) (m_hmdy_delay d) \<ge> 1 \<and> loops (now e d - m_hmdy_last_ts d) (m_hmdy_delay d) < 100
        then repeats (nat (loops (now e d - m_hmdy_last_ts d) (m_hmdy_delay d))) c (now e d) (m_hmdy_delay d) (now e d)
        else ([], c, now e d)) = (ts, k, l)" by (metis prod_cases3)
    then have "length ts + k = c" using repeats_count [OF c] by (auto split: if_splits)
    then show ?thesis using r by (simp add: Humidity_emit_def Let_def)
  qed
  then show ?thesis by (simp add: hooks_ok_def)
qed

text \<open>For the classes that check the handle: every event that is there or will be read has a known one.\<close>

definition only_known :: "(int \<Rightarrow> int) \<Rightarrow> reader \<Rightarrow> bool" where
  "only_known index rd \<longleftrightarrow> reader_ok rd \<and> (\<forall>ev \<in> set (contents rd) \<union> set (rd_queue rd). 0 \<le> index (handle_of ev))"

lemma rd_queue_next [simp]: "rd_queue (next_event r) = rd_queue r"
  by (simp add: next_event_def Let_def)

lemma rd_queue_fill: "set (rd_queue (snd (fill a r))) \<subseteq> set (rd_queue r)"
  by (auto simp: fill_def Let_def store_events_def dest: in_set_dropD split: read_answer.splits)

lemma read_adds_subset: "set (read_adds a r) \<subseteq> set (rd_queue r)"
  by (auto simp: read_adds_def dest: in_set_takeD split: read_answer.splits)

lemma only_known_fill: "only_known f r \<Longrightarrow> only_known f (snd (fill a r))"
  using fill_contents [of r a] rd_queue_fill [of a r] read_adds_subset [of a r] unfolding only_known_def by auto

lemma only_known_hooks:
  assumes "\<And>ev. hk_known hk ev \<longleftrightarrow> \<not> f (handle_of ev) < 0" "\<And>ev c d. 0 < c \<Longrightarrow> length (fst (hk_emit hk ev c d)) \<le> c"
  shows "hooks_ok hk (only_known f)"
proof -
  have "hk_known hk ev \<and> only_known f (next_event rd)" if I: "only_known f rd" and ev: "readEvent rd = Some ev" for rd ev
  proof -
    have "contents rd = ev # contents (next_event rd) \<and> reader_ok (next_event rd)"
      using ring.peek_Some ev I by (simp add: only_known_def)
    then show ?thesis using I assms(1) [of ev] by (auto simp: only_known_def)
  qed
  then show ?thesis using assms(2) by (simp add: hooks_ok_def)
qed

section \<open>The contract of the table\<close>

locale sensor_table =
  fixes v :: "'w vtable" and good :: "'w \<Rightarrow> bool"
  assumes read_contract:
    "good w \<Longrightarrow> 1 \<le> c \<Longrightarrow> i \<in> set all_indices \<Longrightarrow> vt_readEvents v i c w = (n, evs, w')
      \<Longrightarrow> n = int (length evs) \<and> n \<le> c \<and> good w'"
begin

lemma poll_pass_ok:
  assumes "1 \<le> avg"
  shows "set is \<subseteq> set all_indices \<Longrightarrow> good w \<Longrightarrow> 0 \<le> loop \<Longrightarrow> avg * loop \<le> count
    \<Longrightarrow> \<exists>c' out' w'. poll_pass is v ready avg count loop out w = Some (c', out', w') \<and> good w' \<and> 0 \<le> c'
        \<and> int (length out') + c' = int (length out) + count"
proof (induction "is" arbitrary: w loop count out)
  case Nil
  have "0 \<le> avg * loop" using assms Nil.prems by simp
  then show ?case using Nil.prems by simp
next
  case (Cons i "is")
  have c0: "0 \<le> count" using Cons.prems assms by (meson mult_nonneg_nonneg order_trans zero_le_one)
  consider (stop) "count = 0 \<or> loop = 0" | (skip) "\<not> (count = 0 \<or> loop = 0)" "\<not> has_data v ready w i"
    | (read) "\<not> (count = 0 \<or> loop = 0)" "has_data v ready w i" by blast
  then show ?case
  proof cases
    case stop
    then show ?thesis using Cons.prems c0 by auto
  next
    case skip
    then show ?thesis using Cons.IH [of w loop count out] Cons.prems by auto
  next
    case read
    obtain nb evs w1 where r: "vt_readEvents v i avg w = (nb, evs, w1)" by (metis prod_cases3)
    have nb: "nb = int (length evs)" "nb \<le> avg" "good w1"
      using read_contract [OF Cons.prems(2) assms _ r] Cons.prems(1) by auto
    have "avg * (loop - 1) \<le> count - nb" using Cons.prems(4) nb(2) by (simp add: right_diff_distrib)
    moreover have "0 \<le> loop - 1" using read Cons.prems(3) by simp
    ultimately have "0 \<le> count - nb" using assms by (meson mult_nonneg_nonneg order_trans zero_le_one)
    then show ?thesis
      using Cons.IH [of w1 "loop - 1" "count - nb" "out @ map offset_event (take (nat nb) evs)"] read r nb Cons.prems(1)
        \<open>avg * (loop - 1) \<le> count - nb\<close> \<open>0 \<le> loop - 1\<close> by auto
  qed
qed

lemma counts_ok:
  assumes "1 \<le> count" "computeCountForEachFd v ready w count = (avg, loop)"
  shows "1 \<le> avg \<and> 0 \<le> loop \<and> avg * loop \<le> count"
proof -
  define p where "p = int (length (filter (has_data v ready w) all_indices))"
  have p0: "0 \<le> p" by (simp add: p_def)
  have d: "(count div p) * p \<le> count" if "p > 0"
    using div_mult_mod_eq [of count p] pos_mod_sign [OF that, of count] by linarith
  have r: "avg = (let t = if p \<noteq> 0 then count div p else count in if t \<noteq> 0 then t else count)"
    "loop = (if count < p then 1 else p)"
    using assms(2) by (auto simp: computeCountForEachFd_def p_def Let_def)
  consider "p = 0" | "0 < p" "count < p" | "0 < p" "p \<le> count" using p0 by linarith
  then show ?thesis
  proof cases
    case 3
    then have "1 \<le> count div p" by (metis div_self div_by_1 less_irrefl zdiv_mono1)
    then show ?thesis using r d 3 by simp
  qed (use r assms(1) in auto)
qed

lemma poll_loop_ok:
  "good w \<Longrightarrow> 1 \<le> count \<Longrightarrow> poll_loop ps v errno ready count out w \<noteq> Aborted
    \<and> (\<forall>n evs r w'. poll_loop ps v errno ready count out w = Returned n evs r w'
        \<longrightarrow> int (length evs) \<le> int (length out) + count \<and> (n = int (length evs) \<or> n = - errno) \<and> good w')"
proof (induction ps arbitrary: w count ready out)
  case Nil
  obtain avg loop where c: "computeCountForEachFd v ready w count = (avg, loop)" by fastforce
  then show ?case
    using poll_pass_ok [of avg all_indices w loop count ready out] counts_ok [OF Nil.prems(2) c] Nil.prems(1) by auto
next
  case (Cons p ps)
  obtain avg loop where c: "computeCountForEachFd v ready w count = (avg, loop)" by fastforce
  obtain c1 out1 w1 where pass: "poll_pass all_indices v ready avg count loop out w = Some (c1, out1, w1)" "good w1" "0 \<le> c1"
    "int (length out1) + c1 = int (length out) + count"
    using poll_pass_ok [of avg all_indices w loop count ready out] counts_ok [OF Cons.prems(2) c] Cons.prems(1) by auto
  show ?case
  proof (cases p)
    case PollError
    then show ?thesis using c pass by simp
  next
    case (PollReady n ready1)
    show ?thesis
    proof (cases "n \<noteq> 0 \<and> c1 \<noteq> 0")
      case True
      then show ?thesis using Cons.IH [OF pass(2), of c1 ready1 out1] PollReady c pass by simp
    next
      case False
      then have "poll_loop (p # ps) v errno ready count out w = Returned (int (length out1)) out1 ready1 w1"
        using PollReady c pass by auto
      then show ?thesis using pass by simp
    qed
  qed
qed

end

section \<open>The classes keep it\<close>

definition classes_ok :: "('c, 'f) classes \<Rightarrow> bool" where
  "classes_ok w \<longleftrightarrow> only_known Situation_HandleToIndex (mSensorReader (s_situation w))
     \<and> only_known Fusion_HandleToIndex (mSensorReader (s_scpfusion w))
     \<and> only_known Fusion_HandleToIndex (mSensorReader (s_apfusion w))
     \<and> only_known Biometric_HandleToIndex (mSensorReader (s_bio w))"

lemma read_known:
  assumes "hooks_ok hk (\<lambda>rd. True)" "1 \<le> c" "read_events hk a c s = (n, evs, s')"
  shows "n = int (length evs) \<and> n \<le> c"
  using read_events_contract [OF assms(1) _ assms(2,3)] by simp

lemmas plain_read = read_known [OF plain_hooks_ok]

lemma simple_classes:
  "1 \<le> c \<Longrightarrow> Acceleration_readEvents e a c s1 = (n, evs, s1') \<Longrightarrow> n = int (length evs) \<and> n \<le> c"
  "1 \<le> c \<Longrightarrow> Magnetic_readEvents e lib a c s2 = (n, evs, s2') \<Longrightarrow> n = int (length evs) \<and> n \<le> c"
  "1 \<le> c \<Longrightarrow> HwGyroscope_readEvents e a c s1 = (n, evs, s1') \<Longrightarrow> n = int (length evs) \<and> n \<le> c"
  "1 \<le> c \<Longrightarrow> VirtGyroscope_readEvents e a c s3 = (n, evs, s3') \<Longrightarrow> n = int (length evs) \<and> n \<le> c"
  "1 \<le> c \<Longrightarrow> AmbiLight_readEvents e a c s4 = (n, evs, s4') \<Longrightarrow> n = int (length evs) \<and> n \<le> c"
  "1 \<le> c \<Longrightarrow> Pressure_readEvents e a c s4 = (n, evs, s4') \<Longrightarrow> n = int (length evs) \<and> n \<le> c"
  "1 \<le> c \<Longrightarrow> Pedometer_readEvents e a c s4 = (n, evs, s4') \<Longrightarrow> n = int (length evs) \<and> n \<le> c"
  "1 \<le> c \<Longrightarrow> Activity_readEvents e a c s4 = (n, evs, s4') \<Longrightarrow> n = int (length evs) \<and> n \<le> c"
  "1 \<le> c \<Longrightarrow> WakeUpSet_readEvents e a c s5 = (n, evs, s5') \<Longrightarrow> n = int (length evs) \<and> n \<le> c"
  unfolding Acceleration_readEvents_def Magnetic_readEvents_def HwGyroscope_readEvents_def VirtGyroscope_readEvents_def
    AmbiLight_readEvents_def Pressure_readEvents_def Pedometer_readEvents_def Activity_readEvents_def WakeUpSet_readEvents_def
  by (rule plain_read; assumption)+

lemma one_each_hooks:
  "hooks_ok \<lparr>hk_process = p1, hk_known = (\<lambda>ev. True), hk_emit = Proximity_emit e\<rparr> (\<lambda>rd. True)"
  "hooks_ok \<lparr>hk_process = p2, hk_known = (\<lambda>ev. True), hk_emit = StepCounter_emit e\<rparr> (\<lambda>rd. True)"
  by (auto simp: hooks_ok_def Proximity_emit_def StepCounter_emit_def)

lemma other_classes:
  "1 \<le> c \<Longrightarrow> Proximity_readEvents e a c s1 = (n, evs, s1') \<Longrightarrow> n = int (length evs) \<and> n \<le> c"
  "1 \<le> c \<Longrightarrow> StepCounter_readEvents e a c s2 = (n, evs, s2') \<Longrightarrow> n = int (length evs) \<and> n \<le> c"
  "1 \<le> c \<Longrightarrow> Humidity_readEvents e loops a c s3 = (n, evs, s3') \<Longrightarrow> n = int (length evs) \<and> n \<le> c"
  unfolding Proximity_readEvents_def StepCounter_readEvents_def Humidity_readEvents_def
  by (rule read_known [OF one_each_hooks(1)] read_known [OF one_each_hooks(2)] read_known [OF humidity_hooks_ok]; assumption)+

lemma checked_hooks:
  "hooks_ok \<lparr>hk_process = p1, hk_known = (\<lambda>ev. \<not> Situation_HandleToIndex (handle_of ev) < 0), hk_emit = Situation_emit e\<rparr>
     (only_known Situation_HandleToIndex)"
  "hooks_ok \<lparr>hk_process = p2, hk_known = (\<lambda>ev. \<not> Biometric_HandleToIndex (handle_of ev) < 0), hk_emit = emit_pending\<rparr>
     (only_known Biometric_HandleToIndex)"
  "hooks_ok \<lparr>hk_process = p3, hk_known = (\<lambda>ev. \<not> Fusion_HandleToIndex (handle_of ev) < 0), hk_emit = emit_pending\<rparr>
     (only_known Fusion_HandleToIndex)"
  "hooks_ok \<lparr>hk_process = p4, hk_known = (\<lambda>ev. \<not> Fusion_HandleToIndex (handle_of ev) < 0),
       hk_emit = (\<lambda>ev count s. ([mPendingEvent s], s))\<rparr> (only_known Fusion_HandleToIndex)"
  by (rule only_known_hooks; auto simp: Situation_emit_def emit_pending_def)+

lemma checked_classes:
  "1 \<le> c \<Longrightarrow> only_known Situation_HandleToIndex (mSensorReader s1) \<Longrightarrow> Situation_readEvents e a c s1 = (n, evs, s1')
    \<Longrightarrow> n = int (length evs) \<and> n \<le> c \<and> only_known Situation_HandleToIndex (mSensorReader s1')"
  "1 \<le> c \<Longrightarrow> only_known Biometric_HandleToIndex (mSensorReader s2) \<Longrightarrow> Biometric_readEvents e a c s2 = (n, evs, s2')
    \<Longrightarrow> n = int (length evs) \<and> n \<le> c \<and> only_known Biometric_HandleToIndex (mSensorReader s2')"
  "1 \<le> c \<Longrightarrow> only_known Fusion_HandleToIndex (mSensorReader s3) \<Longrightarrow> ScpFusion_readEvents e a c s3 = (n, evs, s3')
    \<Longrightarrow> n = int (length evs) \<and> n \<le> c \<and> only_known Fusion_HandleToIndex (mSensorReader s3')"
  "1 \<le> c \<Longrightarrow> only_known Fusion_HandleToIndex (mSensorReader s4) \<Longrightarrow> ApFusion_readEvents e a c s4 = (n, evs, s4')
    \<Longrightarrow> n = int (length evs) \<and> n \<le> c \<and> only_known Fusion_HandleToIndex (mSensorReader s4')"
  unfolding Situation_readEvents_def Biometric_readEvents_def ScpFusion_readEvents_def ApFusion_readEvents_def
  by (rule read_events_contract [OF checked_hooks(1) only_known_fill] read_events_contract [OF checked_hooks(2) only_known_fill]
      read_events_contract [OF checked_hooks(3) only_known_fill] read_events_contract [OF checked_hooks(4) only_known_fill]; assumption)+

lemma result2D: "result2 put w r = (n, evs, w') \<Longrightarrow> \<exists>s'. r = (n, evs, s') \<and> w' = (put w s')\<lparr>answers := tl (answers w)\<rparr>"
  by (cases r) (auto simp: result2_def)

lemma class_read_contract:
  assumes "classes_ok w" "1 \<le> c" "class_readEvents l i c w = (n, evs, w')"
  shows "n = int (length evs) \<and> n \<le> c \<and> classes_ok w'"
  using assms unfolding class_readEvents_def Let_def
  by (auto simp: classes_ok_def split: if_splits gyroscope.splits
      dest!: result2D dest: simple_classes [rotated] other_classes [rotated] checked_classes [rotated 2])

interpretation sensors: sensor_table "class_table l" classes_ok for l
  by unfold_locales (auto simp: class_table_def dest: class_read_contract)

section \<open>Polling\<close>

text \<open>
  C32. As long as the drivers send events of sensors they have, \<open>poll\<close> on the whole sensor HAL never
  aborts the process, whatever the descriptors and the reads answer: every class keeps to the share of
  the buffer it is given. The events fit the caller's buffer and the result is their number, or the
  negative error number of a failed \<open>poll\<close>.
\<close>

theorem pollEvent_never_aborts:
  assumes "classes_ok w" "1 \<le> count"
  shows "pollEvent polls (class_table l) errno ready count w \<noteq> Aborted
    \<and> (\<forall>n evs r w'. pollEvent polls (class_table l) errno ready count w = Returned n evs r w'
        \<longrightarrow> int (length evs) \<le> count \<and> (n = int (length evs) \<or> n = - errno) \<and> classes_ok w')"
  using sensors.poll_loop_ok [OF assms, of polls l errno ready "[]"] by (simp add: pollEvent_def)

definition still_env :: sensor_env where
  "still_env = \<lparr>sysfs_open = (\<lambda>p. True), sysfs_read = (\<lambda>p. None), clock = int, saved_floats = (\<lambda>t. []), saved_ints = (\<lambda>t. []),
     fl = of_int, fl_div = (\<lambda>w d. of_int (sint w div d)), fl_mul = (\<lambda>w k. sint w * k), fl_add = (+), fl_not_negative = (\<lambda>w. 0 \<le> sint w)\<rparr>"

definition no_libs :: "(unit, unit) libs" where
  "no_libs = \<lparr>lib_env = still_env,
     lib_mag = \<lparr>ml_init = (\<lambda>c. c), ml_set = (\<lambda>b c. c), ml_enable = (\<lambda>n c. c), ml_run = (\<lambda>v st t c. ((v, st), c)), ml_get = (\<lambda>c. [])\<rparr>,
     lib_fusion = \<lparr>fu_set = (\<lambda>h d f. f), fu_get = (\<lambda>h f d. d), fu_bias = (\<lambda>h f. [0, 0, 0])\<rparr>,
     lib_loops = (\<lambda>a b. a div b), lib_status = sint, lib_dry_run = (\<lambda>f. False), lib_errno = 0\<rparr>"

definition fresh_classes :: "(unit, unit) classes" where
  "fresh_classes = contextInstance no_libs True (\<lambda>i. True) () ()"

lemma only_known_new: "0 < n \<Longrightarrow> only_known f (new_reader n)"
  using new_reader_ok [of n] by (simp add: only_known_def) (simp add: new_reader_def)

lemma fresh_classes_ok: "classes_ok fresh_classes"
  by (simp add: classes_ok_def fresh_classes_def contextInstance_def Let_def SituationSensor_def ScpFusionSensor_def
      ApFusionSensor_def BiometricSensor_def only_known_new)

theorem pollEvent_never_aborts_witness:
  "pollEvent [PollReady 0 (\<lambda>i. False)] (class_table no_libs) 4 (\<lambda>i. True) 16 fresh_classes \<noteq> Aborted"
  using pollEvent_never_aborts [OF fresh_classes_ok, of 16] by simp

section \<open>Events of a sensor the class does not know\<close>

lemma read_loop_unknown:
  assumes "readEvent rd = Some ev" "\<not> hk_known hk ev" "0 < count"
  shows "fst (read_loop hk count rd d out) = - EINVAL"
  using assms by (subst read_loop.simps) (simp add: Let_def)

lemma only_situation:
  assumes "\<And>i. has_data v ready w i \<longleftrightarrow> i = situation_index" "vt_readEvents v situation_index count w = (- EINVAL, evs, w')" "1 \<le> count"
  shows "poll_loop ps v errno ready count out w = Aborted"
proof -
  have f: "filter (has_data v ready w) all_indices = [situation_index]"
    by (simp add: assms(1) all_indices_def situation_index_def upt_rec)
  have pass: "poll_pass all_indices v ready count count 1 out w = None"
    using assms(2,3) by (simp add: all_indices_def upt_rec assms(1) situation_index_def EINVAL_def)
  have "computeCountForEachFd v ready w count = (count, 1)"
    using assms(3) f by (auto simp: computeCountForEachFd_def Let_def)
  then show ?thesis using pass by (cases ps) auto
qed

text \<open>
  One event of a handle the gesture class does not know, at the front of its device, ends the
  process: \<open>readEvents\<close> answers an error for it and \<open>pollEvent\<close> takes every negative number for a broken
  class and aborts.
\<close>

theorem unknown_gesture_aborts:
  assumes "\<And>i. ready i \<or> class_pending i w \<longleftrightarrow> i = situation_index" "1 \<le> count"
    "readEvent (snd (fill (next_answer w) (mSensorReader (s_situation w)))) = Some ev"
    "Situation_HandleToIndex (handle_of ev) < 0"
  shows "pollEvent polls (class_table l) errno ready count w = Aborted"
proof -
  have "fst (Situation_readEvents (lib_env l) (next_answer w) count (s_situation w)) = - EINVAL"
    using assms(2) read_loop_unknown [OF assms(3), of "\<lparr>hk_process = Situation_processEvent (lib_env l),
        hk_known = (\<lambda>ev. \<not> Situation_HandleToIndex (handle_of ev) < 0), hk_emit = Situation_emit (lib_env l)\<rparr>" "nat count"
        "s_situation w" "[]"] assms(4)
    by (auto simp: Situation_readEvents_def read_events_def split: prod.splits)
  then obtain evs w' where "class_readEvents l situation_index count w = (- EINVAL, evs, w')"
    by (simp add: class_readEvents_def index_defs Let_def result2_def)
  then show ?thesis
    unfolding pollEvent_def
    by (intro only_situation) (use assms(1,2) in \<open>auto simp: class_table_def has_data_def\<close>)
qed

text \<open>The gesture device hands over an event of a handle of another class.\<close>

definition stray_event :: sensor_event where
  "stray_event = no_event\<lparr>handle_of := ID_ACCELEROMETER\<rparr>"

definition stray_classes :: "(unit, unit) classes" where
  "stray_classes = fresh_classes\<lparr>s_situation := (SituationSensor True)\<lparr>mSensorReader := writeEvent stray_event (new_reader 32)\<rparr>,
     answers := [ReadEvents 32]\<rparr>"

lemma fresh_pending: "\<not> class_pending i fresh_classes"
  by (simp add: class_pending_def fresh_classes_def contextInstance_def Let_def pendingEvent_def available_def
      writeEvent_def new_reader_def AccelerationSensor_def MagneticSensor_def HwGyroscopeSensor_def AmbiLightSensor_def
      ProximitySensor_def PressureSensor_def HumiditySensor_def StepCounterSensor_def PedometerSensor_def ActivitySensor_def
      SituationSensor_def ScpFusionSensor_def ApFusionSensor_def BiometricSensor_def WakeUpSetSensor_def hw_new_def
      send_cali_def did_def set_distance_def hw_sensor.defs flush_sensor.defs magnetic.defs split: prod.splits)

text \<open>What \<open>writeEvent\<close> puts into the descriptor is not pending before it is read.\<close>

lemma pending_write [simp]: "pendingEvent (writeEvent ev r) = pendingEvent r"
  by (simp add: pendingEvent_def writeEvent_def available_def split: list.split)

lemma pending_new [simp]: "\<not> pendingEvent (new_reader n)"
  by (simp add: pendingEvent_def new_reader_def available_def)

lemma pending_other:
  "class_pending i (w\<lparr>s_situation := s, answers := as\<rparr>) =
     (if i = situation_index then pendingEvent (mSensorReader s) else class_pending i w)"
  "class_pending i (w\<lparr>s_accel := t, answers := as\<rparr>) =
     (if i = accel then pendingEvent (mSensorReader t) else class_pending i w)"
  by (simp_all add: class_pending_def index_defs)

lemma stray_pending: "\<not> class_pending i stray_classes"
  by (simp add: stray_classes_def pending_other fresh_pending)

lemma stray_front:
  "readEvent (snd (fill (next_answer stray_classes) (mSensorReader (s_situation stray_classes)))) = Some stray_event"
  by (simp add: stray_classes_def next_answer_def writeEvent_def new_reader_def fill_def Let_def store_events_def
      readEvent_def available_def)

theorem unknown_gesture_aborts_witness:
  "pollEvent [] (class_table no_libs) 4 (\<lambda>i. i = situation_index) 16 stray_classes = Aborted"
  by (rule unknown_gesture_aborts [OF _ _ stray_front])
    (simp_all add: stray_pending stray_event_def Situation_HandleToIndex_def index_of_def situation_handles_def id_defs)

section \<open>The ring\<close>

text \<open>What happens to a reader: the descriptor gets an event, a read, the class takes an event.\<close>

datatype ring_op = Write sensor_event | Fill read_answer | Take

primrec run_ring :: "ring_op list \<Rightarrow> reader \<Rightarrow> sensor_event list \<Rightarrow> reader \<times> sensor_event list" where
  "run_ring [] r got = (r, got)"
| "run_ring (x # xs) r got =
     (case x of Write ev \<Rightarrow> run_ring xs (writeEvent ev r) got
      | Fill a \<Rightarrow> run_ring xs (snd (fill a r)) got
      | Take \<Rightarrow> (case readEvent r of None \<Rightarrow> run_ring xs r got | Some ev \<Rightarrow> run_ring xs (next_event r) (got @ [ev])))"

text \<open>The events whose write succeeds, given what the writes answer.\<close>

primrec events_written :: "ring_op list \<Rightarrow> bool list \<Rightarrow> sensor_event list" where
  "events_written [] writes = []"
| "events_written (x # xs) writes =
     (case x of Write ev \<Rightarrow> (if writes = [] \<or> hd writes then [ev] else []) @ events_written xs (tl writes)
      | _ \<Rightarrow> events_written xs writes)"

lemma fill_queue: "(\<forall>k. a \<noteq> ReadTorn k) \<Longrightarrow> read_adds a r @ rd_queue (snd (fill a r)) = rd_queue r"
  by (cases a) (auto simp: read_adds_def fill_def Let_def store_events_def)

lemma write_contents: "reader_ok (writeEvent ev r) = reader_ok r" "contents (writeEvent ev r) = contents r"
  "rd_queue (writeEvent ev r) = rd_queue r @ (if rd_writes r = [] \<or> hd (rd_writes r) then [ev] else [])"
  "rd_writes (writeEvent ev r) = tl (rd_writes r)"
  by (simp_all add: writeEvent_def reader_ok_def contents_def available_def split: list.split)

lemma fill_writes [simp]: "rd_writes (snd (fill a r)) = rd_writes r" "rd_writes (next_event r) = rd_writes r"
  by (simp_all add: fill_def store_events_def next_event_def Let_def split: read_answer.split)

lemma run_ring_inv:
  "reader_ok r \<Longrightarrow> (\<forall>k. Fill (ReadTorn k) \<notin> set xs) \<Longrightarrow> run_ring xs r got = (r', got')
    \<Longrightarrow> reader_ok r' \<and> got' @ contents r' @ rd_queue r' = got @ contents r @ rd_queue r @ events_written xs (rd_writes r)"
proof (induction xs arbitrary: r got)
  case (Cons x xs)
  show ?case
  proof (cases x)
    case (Write ev)
    then show ?thesis using Cons.IH [of "writeEvent ev r" got] Cons.prems by (simp add: write_contents)
  next
    case (Fill a)
    then have "(\<forall>k. a \<noteq> ReadTorn k)" using Cons.prems(2) by auto
    then show ?thesis
      using Cons.IH [of "snd (fill a r)" got] Cons.prems Fill fill_contents [OF Cons.prems(1), of a] fill_queue [of a r] by simp
  next
    case Take
    show ?thesis
    proof (cases "readEvent r")
      case None
      then show ?thesis using Cons.IH [of r got] Cons.prems Take by simp
    next
      case (Some ev)
      then show ?thesis
        using Cons.IH [of "next_event r" "got @ [ev]"] Cons.prems Take ring.peek_Some [OF Cons.prems(1) Some] by simp
    qed
  qed
qed simp

text \<open>
  C33. The ring of events is a queue: whatever the sequence of writes to the descriptor, reads of any
  number of events (of which at most as many as there is room for are asked) and takes, the events taken,
  followed by those in the ring and those still in the descriptor, are the events whose write succeeded, in
  order -- across the wrap of the double-length array; an event is lost only by a failing write.
\<close>

theorem ring_is_a_queue:
  assumes "0 < numEvents" "\<forall>k. Fill (ReadTorn k) \<notin> set xs"
    "run_ring xs ((new_reader numEvents)\<lparr>rd_writes := writes\<rparr>) [] = (r, got)"
  shows "reader_ok r \<and> got @ contents r @ rd_queue r = events_written xs writes"
proof -
  have "reader_ok ((new_reader numEvents)\<lparr>rd_writes := writes\<rparr>) \<and> contents ((new_reader numEvents)\<lparr>rd_writes := writes\<rparr>) = []"
    using new_reader_ok [OF assms(1)] by (simp add: reader_ok_def contents_def available_def)
  then show ?thesis using run_ring_inv [OF _ assms(2,3)] by (simp add: new_reader_def)
qed

theorem ring_is_a_queue_witness:
  "\<exists>r got. run_ring [Write no_event, Fill (ReadEvents 5), Take, Write no_event, Write stray_event]
        ((new_reader 2)\<lparr>rd_writes := [True, False]\<rparr>) [] = (r, got)
    \<and> got @ contents r @ rd_queue r = [no_event, stray_event]"
proof -
  obtain r got where g: "run_ring [Write no_event, Fill (ReadEvents 5), Take, Write no_event, Write stray_event]
      ((new_reader 2)\<lparr>rd_writes := [True, False]\<rparr>) [] = (r, got)" by fastforce
  then show ?thesis using ring_is_a_queue [OF _ _ g] by simp
qed

section \<open>What is reported\<close>

text \<open>What a class with plain hooks reports for a list of events.\<close>

primrec reports :: "(sensor_event \<Rightarrow> 'a base_scheme \<Rightarrow> 'a base_scheme) \<Rightarrow> 'a base_scheme \<Rightarrow> sensor_event list \<Rightarrow> sensors_event list" where
  "reports p d [] = []"
| "reports p d (ev # evs) = (if is_reported ev then [mPendingEvent (p ev d)] else []) @ reports p (p ev d) evs"

lemma plain_loop:
  "reader_ok rd \<Longrightarrow> length (filter is_reported (contents rd)) < count
    \<Longrightarrow> \<exists>rd'. read_loop (plain_hooks p) count rd d out
        = (int (length out + length (filter is_reported (contents rd))), out @ reports p d (contents rd), rd', fold p (contents rd) d)
      \<and> reader_ok rd' \<and> contents rd' = []"
proof (induction "contents rd" arbitrary: rd count d out)
  case Nil
  then have "readEvent rd = None" using ring.peek_None by simp
  then show ?case using Nil by (subst read_loop.simps) (auto simp: Nil(1) [symmetric])
next
  case (Cons ev evs)
  have ev: "readEvent rd = Some ev" using ring.peek_front [OF Cons.prems(1)] Cons.hyps(2) by (simp split: list.splits)
  have nxt: "reader_ok (next_event rd)" "contents (next_event rd) = evs"
    using next_contents [OF Cons.prems(1)] Cons.hyps(2) by (metis list.distinct(1) list.sel(3))+
  let ?c = "if is_reported ev then count - 1 else count" and ?o = "out @ (if is_reported ev then [mPendingEvent (p ev d)] else [])"
  have step: "read_loop (plain_hooks p) count rd d out = read_loop (plain_hooks p) ?c (next_event rd) (p ev d) ?o"
    using ev Cons.prems(2) by (subst read_loop.simps) (simp add: plain_hooks_def emit_pending_def Let_def)
  have "length (filter is_reported (contents (next_event rd))) < ?c"
    using Cons.prems(2) unfolding nxt(2) Cons.hyps(2) [symmetric] by (simp split: if_splits)
  from Cons.hyps(1) [OF nxt(2) [symmetric] nxt(1) this, of "p ev d" ?o] obtain rd' where
    "read_loop (plain_hooks p) ?c (next_event rd) (p ev d) ?o
       = (int (length ?o + length (filter is_reported evs)), ?o @ reports p (p ev d) evs, rd', fold p evs (p ev d))"
    "reader_ok rd'" "contents rd' = []" unfolding nxt(2) by blast
  then show ?case using step unfolding Cons.hyps(2) [symmetric] by auto
qed

text \<open>The report a client of the accelerometer expects for an event.\<close>

definition accel_report :: "sensor_env \<Rightarrow> int \<Rightarrow> sensor_event \<Rightarrow> sensors_event \<Rightarrow> bool" where
  "accel_report e dv ev d \<longleftrightarrow>
     (if flush_action ev = FLUSH_ACTION
      then type_of d = SENSOR_TYPE_META_DATA \<and> take 2 (data d) = [META_DATA_FLUSH_COMPLETE, of_int ID_ACCELEROMETER]
      else type_of d = std_type ID_ACCELEROMETER \<and> sensor d = ID_ACCELEROMETER \<and> timestamp d = time_stamp ev
        \<and> take 3 (data d) = scaled e ev dv [0, 1, 2])"

lemma accel_reports_all:
  "(\<forall>ev \<in> set evs. 0 \<le> flush_action ev) \<Longrightarrow>
    list_all2 (accel_report e (mDataDiv s)) (filter is_reported evs) (reports (Acceleration_processEvent e) s evs)
    \<and> mFlushCnt (fold (Acceleration_processEvent e) evs s)
        = mFlushCnt s - int (length (filter (\<lambda>ev. flush_action ev = FLUSH_ACTION) evs))"
proof (induction evs arbitrary: s)
  case (Cons ev evs)
  let ?s = "Acceleration_processEvent e ev s"
  have dv: "mDataDiv ?s = mDataDiv s"
    by (simp add: Acceleration_processEvent_def set_status_def data_event_def counted_complete_def flush_complete_def tick_def did_def)
  have cnt: "mFlushCnt ?s = mFlushCnt s - (if flush_action ev = FLUSH_ACTION then 1 else 0)"
    by (simp add: Acceleration_processEvent_def set_status_def data_event_def counted_complete_def flush_complete_def tick_def
        did_def action_defs)
  have "is_reported ev \<Longrightarrow> accel_report e (mDataDiv s) ev (mPendingEvent ?s)"
    using Cons.prems
    by (auto simp: accel_report_def Acceleration_processEvent_def set_status_def data_event_def counted_complete_def
        flush_complete_def tick_def is_reported_def action_defs scaled_def take_Cons')
  then show ?case using Cons.IH [of ?s] Cons.prems dv cnt by simp
qed simp

text \<open>
  C34. The accelerometer reports what the driver sent, nothing twice and nothing lost: when the caller has
  room for more than the data and flush events there are, reading once reports exactly these in their
  order -- a sample with the driver's time and its values divided by the driver's scale, a completed
  flush as such -- leaves the ring empty and counts the completed flushes down.
\<close>

theorem accelerometer_reports_in_order:
  assumes "reader_ok (mSensorReader s)" "q = contents (mSensorReader s) @ read_adds a (mSensorReader s)"
    "\<forall>ev \<in> set q. 0 \<le> flush_action ev" "int (length (filter is_reported q)) < count"
  shows "\<exists>evs s'. Acceleration_readEvents e a count s = (int (length evs), evs, s')
    \<and> list_all2 (accel_report e (mDataDiv s)) (filter is_reported q) evs
    \<and> contents (mSensorReader s') = []
    \<and> mFlushCnt s' = mFlushCnt s - int (length (filter (\<lambda>ev. flush_action ev = FLUSH_ACTION) q))"
proof -
  let ?rd = "snd (fill a (mSensorReader s))" and ?p = "Acceleration_processEvent e"
  have rd: "reader_ok ?rd" "contents ?rd = q" using fill_contents [OF assms(1), of a] assms(2) by auto
  obtain rd' where l: "read_loop (plain_hooks ?p) (nat count) ?rd s []
      = (int (length (filter is_reported q)), reports ?p s q, rd', fold ?p q s)" "contents rd' = []"
  proof -
    have "length (filter is_reported (contents ?rd)) < nat count" using rd(2) assms(4) by (simp add: zless_nat_eq_int_zless)
    from plain_loop [OF rd(1) this, of ?p s "[]"] show ?thesis unfolding rd(2) using that by auto
  qed
  have all: "list_all2 (accel_report e (mDataDiv s)) (filter is_reported q) (reports ?p s q)"
    "mFlushCnt (fold ?p q s) = mFlushCnt s - int (length (filter (\<lambda>ev. flush_action ev = FLUSH_ACTION) q))"
    using accel_reports_all [OF assms(3), of e s] by auto
  have "length (reports ?p s q) = length (filter is_reported q)" using list_all2_lengthD [OF all(1)] by simp
  then have "Acceleration_readEvents e a count s
      = (int (length (reports ?p s q)), reports ?p s q, (fold ?p q s)\<lparr>mSensorReader := rd'\<rparr>)"
    using l assms(4) by (simp add: Acceleration_readEvents_def read_events_def)
  then show ?thesis using all l(2) by auto
qed

definition sample_of :: "int \<Rightarrow> int \<Rightarrow> sensor_event" where
  "sample_of t x = no_event\<lparr>time_stamp := t, word := [x, 0, 0, 0, 0, 0]\<rparr>"

definition accel_waiting :: flush_sensor where
  "accel_waiting = (AccelerationSensor still_env True)
     \<lparr>mSensorReader := writeEvent (flush_event ID_ACCELEROMETER) (writeEvent (sample_of 7 3) (new_reader 32)), mFlushCnt := 1\<rparr>"

theorem accelerometer_reports_in_order_witness:
  "\<exists>evs s'. Acceleration_readEvents still_env (ReadEvents 32) 8 accel_waiting = (int (length evs), evs, s')
    \<and> list_all2 (accel_report still_env (mDataDiv accel_waiting)) [sample_of 7 3, flush_event ID_ACCELEROMETER] evs
    \<and> contents (mSensorReader s') = [] \<and> mFlushCnt s' = 0"
  using accelerometer_reports_in_order [of accel_waiting "[sample_of 7 3, flush_event ID_ACCELEROMETER]" "ReadEvents 32" 8 still_env]
    new_reader_ok [of 32]
  by (simp add: accel_waiting_def writeEvent_def reader_ok_def contents_def available_def read_adds_def new_reader_def
      sample_of_def flush_event_def no_event_def is_reported_def action_defs)

section \<open>Deviations\<close>

text \<open>
  A completed flush of a one-shot gesture is not handled: the class reports the last gesture again, as
  if it had been made, and switches the sensor off.
\<close>

lemma gesture_flush_replays:
  assumes "flush_action ev = FLUSH_ACTION" "handle_of ev = ID_PICK_UP_GESTURE"
    "d1 = Situation_processEvent e ev s"
  shows "fst (Situation_emit e ev n d1) = [mPendingEvent s]
    \<and> (attr_opens e ''situactive'' s \<longrightarrow>
          effects (snd (Situation_emit e ev n d1)) = effects s @ [Wrote (sysfs_dir s @ ''situactive'') ''24 : 0''])"
proof -
  have i: "Situation_HandleToIndex ID_PICK_UP_GESTURE = 3"
    by (simp add: Situation_HandleToIndex_def index_of_def situation_handles_def id_defs)
  have d: "d1 = s"
    using assms by (simp add: Situation_processEvent_def Let_def id_defs data_only_now_def action_defs)
  have "sprintf_d ID_PICK_UP_GESTURE = ''24''" "sprintf_d 0 = ''0''" 
    by (simp_all add: id_defs sprintf_d_def dec_nat.simps char_of_eq_iff)
  then show ?thesis
    using assms(1,2) i d
    by (simp add: Situation_emit_def is_reported_def situation_one_shot_def Situation_enable_def Let_def wrote_def did_def nth_list_update)
qed

text \<open>
  When no temperature calibration was saved, the constructor of the gyroscope clears the static one it has
  just read instead, and the driver gets zeros.
\<close>

lemma gyro_calibration_lost:
  assumes "length (saved_ints e ''gyro_temp'') < 6" "sysfs_open e ''/sys/class/sensor/m_gyro_misc/gyrocali''"
  shows "\<exists>vs. effects (HwGyroscopeSensor e True) = [WroteInts ''/sys/class/sensor/m_gyro_misc/gyrocali'' vs]
    \<and> take 3 (drop (length (saved_or_zero 3 (saved_floats e ''gyro_bias''))) vs) = [0, 0, 0]"
  using assms
  by (auto simp: HwGyroscopeSensor_def Let_def get_saved_def send_cali_def attr_opens_def hw_new_def hw_sensor.defs flush_sensor.defs
      did_def numeral_3_eq_3)

text \<open>The period the fused sensors ask for never grows while one of them is on.\<close>

lemma fold_min_le: "fold (\<lambda>i b. if b > f i then f i else b) xs b \<le> (b :: int)"
proof (induction xs arbitrary: b)
  case (Cons x xs)
  then show ?case using Cons [of "f x"] Cons [of b] by (cases "b > f x") (auto intro: order_trans [OF _ less_imp_le])
qed simp

lemma best_period_never_grows:
  assumes "0 \<le> bestSamplingPeriodNs s"
  shows "bestSamplingPeriodNs (selectBestSampleLatency s) \<le> bestSamplingPeriodNs s"
  using fold_min_le [of si_samplingPeriodNs "filter si_enabled (mSensorInfo s)" "bestSamplingPeriodNs s"] assms
  by (simp add: selectBestSampleLatency_def Let_def)

end
