(* ===== verification/SensorManagerProps.thy ===== *)
theory SensorManagerProps
  imports SensorManager SensorProps
begin

text \<open>
  What the clients of the manager get: the hardware is on exactly while somebody wants it, at the fastest rate
  anybody wants (for every order of requests that the framework makes), what is kept per sensor whatever the
  hardware answers, and which events reach the framework.
\<close>

section \<open>The best of a list of requests\<close>

definition lower :: "int \<Rightarrow> int \<Rightarrow> int" where
  "lower x b = (if b = -1 \<or> x < b then x else b)"

lemma better_lower:
  "better p b = b\<lparr>batchDelay := lower (batchDelay p) (batchDelay b), batchTimeout := lower (batchTimeout p) (batchTimeout b)\<rparr>"
  by (simp add: better_def lower_def)

lemma fold_better:
  "fold better ps b = b\<lparr>batchDelay := fold lower (map batchDelay ps) (batchDelay b),
     batchTimeout := fold lower (map batchTimeout ps) (batchTimeout b)\<rparr>"
  by (induction ps arbitrary: b) (simp_all add: better_lower)

lemma fold_lower_Min:
  "0 \<le> b \<Longrightarrow> \<forall>x \<in> set xs. 0 \<le> x \<Longrightarrow> fold lower xs b = Min (insert b (set xs))"
proof (induction xs arbitrary: b)
  case (Cons x xs)
  have "lower x b = min x b" using Cons.prems by (auto simp: lower_def)
  then have "fold lower (x # xs) b = Min (insert (min x b) (set xs))" using Cons by simp
  also have "\<dots> = Min (insert b (set (x # xs)))"
    by (cases "xs = []") (simp_all add: insert_commute Min_insert min.assoc min.left_commute min.commute)
  finally show ?case .
qed simp

lemma fold_lower_none:
  assumes "\<forall>x \<in> set xs. 0 \<le> x" "xs \<noteq> []"
  shows "fold lower xs (-1) = Min (set xs)"
proof (cases xs)
  case (Cons x ys)
  then show ?thesis using assms fold_lower_Min [of x ys] by (simp add: lower_def)
qed (use assms in simp)

lemma best_of_Nil [simp]: "best_of [] = no_batch"
  by (simp add: best_of_def)

lemma best_of_Min:
  assumes "\<forall>p \<in> set ps. 0 \<le> batchDelay p \<and> 0 \<le> batchTimeout p" "ps \<noteq> []"
  shows "batchDelay (best_of ps) = Min (batchDelay ` set ps)" "batchTimeout (best_of ps) = Min (batchTimeout ` set ps)"
    and "best_of ps \<noteq> no_batch"
proof -
  have d: "batchDelay (best_of ps) = Min (batchDelay ` set ps)"
    using fold_lower_none [of "map batchDelay ps"] assms by (simp add: best_of_def fold_better no_batch_def)
  then have "0 \<le> batchDelay (best_of ps)" using assms by simp
  then show "best_of ps \<noteq> no_batch" by (auto simp: no_batch_def)
  show "batchDelay (best_of ps) = Min (batchDelay ` set ps)" by (rule d)
  show "batchTimeout (best_of ps) = Min (batchTimeout ` set ps)"
    using fold_lower_none [of "map batchTimeout ps"] assms by (simp add: best_of_def fold_better no_batch_def)
qed

section \<open>What holds of one sensor\<close>

text \<open>
  One request per client, none negative, and the best of them, as long as no client is disabled (the code
  disables none).
\<close>

definition clients_ok :: "info \<Rightarrow> bool" where
  "clients_ok i \<longleftrightarrow> distinct (map fst (batchParams i))
     \<and> (\<forall>c p. map_of (batchParams i) c = Some p \<longrightarrow> 0 \<le> batchDelay p \<and> 0 \<le> batchTimeout p)"

definition info_ok :: "info \<Rightarrow> bool" where
  "info_ok i \<longleftrightarrow> clients_ok i \<and> bestBatchParams i = best_of (map snd (batchParams i))"

lemma enabled_requests_all [simp]: "enabled_requests [] i = map snd (batchParams i)"
  by (simp add: enabled_requests_def case_prod_beta)

lemma select_best [simp]: "bestBatchParams (selectBatchParams dis i) = best_of (enabled_requests dis i)"
  by (simp add: selectBatchParams_def)

lemma select_params [simp]: "batchParams (selectBatchParams dis i) = batchParams i"
  by (simp add: selectBatchParams_def)

lemma info_ok_new: "info_ok new_manager_info"
  by (simp add: info_ok_def clients_ok_def new_manager_info_def)

lemma info_ok_select: "clients_ok i \<Longrightarrow> info_ok (selectBatchParams [] i)"
  by (simp add: info_ok_def clients_ok_def)

lemma clients_ok_update:
  "clients_ok i \<Longrightarrow> 0 \<le> batchDelay p \<Longrightarrow> 0 \<le> batchTimeout p
    \<Longrightarrow> clients_ok (i\<lparr>batchParams := AList.update c p (batchParams i)\<rparr>)"
  by (auto simp: clients_ok_def distinct_update update_conv' split: if_splits)

lemma clients_ok_delete: "clients_ok i \<Longrightarrow> clients_ok (i\<lparr>batchParams := AList.delete c (batchParams i)\<rparr>)"
  by (auto simp: clients_ok_def distinct_delete delete_conv' split: if_splits)

text \<open>The manager's choice is the fastest of the requests.\<close>

lemma info_ok_best:
  assumes "info_ok i" "batchParams i \<noteq> []"
  shows "batchDelay (bestBatchParams i) = Min (batchDelay ` ran (map_of (batchParams i)))"
    and "batchTimeout (bestBatchParams i) = Min (batchTimeout ` ran (map_of (batchParams i)))"
    and "bestBatchParams i \<noteq> no_batch"
proof -
  have r: "ran (map_of (batchParams i)) = set (map snd (batchParams i))"
    using assms(1) by (simp add: info_ok_def clients_ok_def ran_distinct)
  then have "\<forall>p \<in> set (map snd (batchParams i)). 0 \<le> batchDelay p \<and> 0 \<le> batchTimeout p"
    using assms(1) unfolding r [symmetric] by (auto simp: info_ok_def clients_ok_def ran_def)
  note b = best_of_Min [OF this]
  show "batchDelay (bestBatchParams i) = Min (batchDelay ` ran (map_of (batchParams i)))"
    "batchTimeout (bestBatchParams i) = Min (batchTimeout ` ran (map_of (batchParams i)))"
    "bestBatchParams i \<noteq> no_batch"
    using assms b r by (simp_all add: info_ok_def)
qed

lemma removed_info:
  "info_ok i \<Longrightarrow> batchParams (snd (removeBatchParamsForIdent [] c i)) = AList.delete c (batchParams i)"
  "fst (removeBatchParamsForIdent dis c i) \<longleftrightarrow> c \<in> fst ` set (batchParams i)"
  by (auto simp: removeBatchParamsForIdent_def map_of_eq_None_iff delete_id)

lemma removed_ok: "info_ok i \<Longrightarrow> info_ok (snd (removeBatchParamsForIdent [] c i))"
  by (simp add: removeBatchParamsForIdent_def info_ok_select clients_ok_delete info_ok_def [of i])

definition clamped :: "int \<Rightarrow> int \<Rightarrow> 'w manager \<Rightarrow> int" where
  "clamped h period m =
     (if getSensorMinDelayNs h m > 0 \<and> period < getSensorMinDelayNs h m then getSensorMinDelayNs h m else period)"

definition asked :: "nat \<Rightarrow> int \<Rightarrow> int \<Rightarrow> info \<Rightarrow> info" where
  "asked c period latency i =
     selectBatchParams [] (i\<lparr>batchParams := AList.update c \<lparr>bp_flags = 0, batchDelay = period, batchTimeout = latency\<rparr> (batchParams i)\<rparr>)"

lemma asked_ok: "info_ok i \<Longrightarrow> 0 \<le> p \<Longrightarrow> 0 \<le> l \<Longrightarrow> info_ok (asked c p l i)"
  unfolding asked_def by (rule info_ok_select, rule clients_ok_update) (simp_all add: info_ok_def)

lemma asked_params [simp]:
  "batchParams (asked c p l i) = AList.update c \<lparr>bp_flags = 0, batchDelay = p, batchTimeout = l\<rparr> (batchParams i)"
  by (simp add: asked_def)

section \<open>What holds of the manager\<close>

definition manager_ok :: "'w manager \<Rightarrow> bool" where
  "manager_ok m \<longleftrightarrow> mDisabledClients m = [] \<and> (\<forall>h i. map_of (mActivationCount m) h = Some i \<longrightarrow> info_ok i)"

lemma put_info_simps [simp]:
  "mDisabledClients (put_info h i m) = mDisabledClients m"
  "map_of (mActivationCount (put_info h i m)) = (map_of (mActivationCount m))(h \<mapsto> i)"
  "hw_calls (put_info h i m) = hw_calls m"
  "mSensorList (put_info h i m) = mSensorList m"
  by (simp_all add: put_info_def update_conv')

lemma call_simps [simp]:
  "mDisabledClients (snd (call_activate hw h en m)) = mDisabledClients m"
  "mActivationCount (snd (call_activate hw h en m)) = mActivationCount m"
  "mSensorList (snd (call_activate hw h en m)) = mSensorList m"
  "hw_calls (snd (call_activate hw h en m)) = hw_calls m @ [HwActivate h en (fst (call_activate hw h en m))]"
  "mDisabledClients (snd (call_batch hw h p m)) = mDisabledClients m"
  "mActivationCount (snd (call_batch hw h p m)) = mActivationCount m"
  "mSensorList (snd (call_batch hw h p m)) = mSensorList m"
  "hw_calls (snd (call_batch hw h p m)) = hw_calls m @ [HwBatch h (batchDelay p) (batchTimeout p) (fst (call_batch hw h p m))]"
  by (simp_all add: call_activate_def call_batch_def split: prod.split)

lemma note_active_simps [simp]:
  "mDisabledClients (note_active c h en m) = mDisabledClients m"
  "mActivationCount (note_active c h en m) = mActivationCount m"
  "mSensorList (note_active c h en m) = mSensorList m"
  "hw_calls (note_active c h en m) = hw_calls m"
  by (simp_all add: note_active_def put_connection_def)

lemma manager_ok_put: "manager_ok m \<Longrightarrow> info_ok i \<Longrightarrow> manager_ok (put_info h i m)"
  by (simp add: manager_ok_def)

lemma manager_ok_calls:
  "manager_ok m \<Longrightarrow> manager_ok (snd (call_activate hw h en m))"
  "manager_ok m \<Longrightarrow> manager_ok (snd (call_batch hw h p m))"
  "manager_ok m \<Longrightarrow> manager_ok (note_active c h en m)"
  by (simp_all add: manager_ok_def)

lemma batch_known:
  assumes "mDisabledClients m = []" "map_of (mActivationCount m) h = Some i"
  shows "manager_batch hw c h period latency m =
    (let i2 = asked c (clamped h period m) latency i; m1 = put_info h i2 m
     in if bestBatchParams i \<noteq> bestBatchParams i2
        then let (err, m2) = call_batch hw h (bestBatchParams i2) m1
             in if err < 0 then (err, put_info h (snd (removeBatchParamsForIdent [] c i2)) m2) else (err, m2)
        else (0, m1))"
  using assms
  by (simp add: manager_batch_def setBatchParamsForIdent_def asked_def clamped_def Let_def cong: if_cong split del: if_split)

lemma clamped_nonneg: "0 \<le> period \<Longrightarrow> 0 \<le> clamped h period m"
  by (simp add: clamped_def)

lemma batch_ok:
  assumes "manager_ok m" "0 \<le> period" "0 \<le> latency"
  shows "manager_ok (snd (manager_batch hw c h period latency m))"
proof (cases "map_of (mActivationCount m) h")
  case None
  then show ?thesis using assms(1) by (simp add: manager_batch_def Let_def)
next
  case (Some i)
  have dis: "mDisabledClients m = []" and i: "info_ok i" using assms(1) Some by (auto simp: manager_ok_def)
  note a = asked_ok [OF i clamped_nonneg [OF assms(2)] assms(3)]
  let ?i = "asked c (clamped h period m) latency i"
  have p: "manager_ok (put_info h ?i m)" by (rule manager_ok_put [OF assms(1) a])
  obtain err m2 where b: "call_batch hw h (bestBatchParams ?i) (put_info h ?i m) = (err, m2)" by fastforce
  have "manager_ok m2" using manager_ok_calls(2) [OF p, of hw h "bestBatchParams ?i"] b by simp
  moreover have "manager_ok (put_info h (snd (removeBatchParamsForIdent [] c ?i)) m2)"
    by (rule manager_ok_put [OF calculation removed_ok [OF a]])
  ultimately show ?thesis using p b by (simp add: batch_known [OF dis Some] Let_def)
qed

lemma actuate_ok: "manager_ok m \<Longrightarrow> info_ok i \<Longrightarrow> manager_ok (snd (actuate hw c h en i m))"
  using manager_ok_calls(1) [of m hw h en] removed_ok [of i c]
  by (auto simp: actuate_def Let_def manager_ok_def case_prod_beta)

lemma activate_ok:
  assumes "manager_ok m0"
  shows "manager_ok (snd (manager_activate hw c h en m0))"
proof -
  let ?m = "note_active c h en m0"
  have m: "manager_ok ?m" by (rule manager_ok_calls(3) [OF assms])
  show ?thesis
  proof (cases "map_of (mActivationCount ?m) h")
    case None
    then show ?thesis using m by (simp add: manager_activate_def Let_def)
  next
    case (Some i)
    have dis: "mDisabledClients m0 = []" using assms by (simp add: manager_ok_def)
    have i: "info_ok i" using Some m by (auto simp: manager_ok_def)
    obtain r i1 where r: "removeBatchParamsForIdent [] c i = (r, i1)" by fastforce
    have i1: "info_ok i1" using removed_ok [OF i, of c] r by simp
    note p = manager_ok_put [OF m i1, of h]
    show ?thesis
      using Some dis r m p actuate_ok [OF m i] actuate_ok [OF p i1] manager_ok_calls(2) [OF p]
      by (cases en) (simp_all add: manager_activate_def Let_def isClientDisabledLocked_def)
  qed
qed

lemma fold_setEvent_kept:
  "mDisabledClients (fold (\<lambda>d. manager_setEvent hw k (f d)) ds m) = mDisabledClients m
   \<and> mActivationCount (fold (\<lambda>d. manager_setEvent hw k (f d)) ds m) = mActivationCount m
   \<and> mSensorList (fold (\<lambda>d. manager_setEvent hw k (f d)) ds m) = mSensorList m
   \<and> hw_calls (fold (\<lambda>d. manager_setEvent hw k (f d)) ds m) = hw_calls m
   \<and> connections (fold (\<lambda>d. manager_setEvent hw k (f d)) ds m) = connections m
   \<and> mActiveConnections (fold (\<lambda>d. manager_setEvent hw k (f d)) ds m) = mActiveConnections m
   \<and> mNativeConnection (fold (\<lambda>d. manager_setEvent hw k (f d)) ds m) = mNativeConnection m
   \<and> mDirectConnection (fold (\<lambda>d. manager_setEvent hw k (f d)) ds m) = mDirectConnection m"
  by (induction ds arbitrary: m) (simp_all add: manager_setEvent_def)

text \<open>What handing out events leaves alone.\<close>

definition kept :: "'w manager \<Rightarrow> 'w manager \<Rightarrow> bool" where
  "kept m' m \<longleftrightarrow> mDisabledClients m' = mDisabledClients m \<and> mActivationCount m' = mActivationCount m
     \<and> mSensorList m' = mSensorList m \<and> hw_calls m' = hw_calls m \<and> connections m' = connections m
     \<and> mActiveConnections m' = mActiveConnections m \<and> mNativeConnection m' = mNativeConnection m
     \<and> mDirectConnection m' = mDirectConnection m"

lemma kept_trans: "kept m2 m1 \<Longrightarrow> kept m1 m \<Longrightarrow> kept m2 m"
  by (simp add: kept_def)

lemma hand_to_kept: "kept (snd (hand_to hw evs c (out, m))) m"
  using fold_setEvent_kept [of hw "mMoudle (the_connection c m)" "\<lambda>d. d\<lparr>sensor := sensor d - ID_OFFSET\<rparr>" "samples_for (the_connection c m) evs" m]
  by (simp add: hand_to_def Let_def kept_def)

lemma hand_all_kept: "kept (snd (fold (hand_to hw evs) cs (out, m))) m"
proof (induction cs arbitrary: out m)
  case Nil
  then show ?case by (simp add: kept_def)
next
  case (Cons c cs)
  obtain out1 m1 where h: "hand_to hw evs c (out, m) = (out1, m1)" by fastforce
  then show ?case using Cons [of out1 m1] hand_to_kept [of hw evs c out m] by (auto intro: kept_trans)
qed

lemma parsePollData_kept: "kept (snd (parsePollData hw evs m)) m"
  using hand_all_kept [of hw evs "mActiveConnections m" "[]" m] by (simp add: parsePollData_def kept_def)

lemma pollEvent_kept: "manager_pollEvent hw count m = Some r \<Longrightarrow> kept (snd (snd r)) m"
proof (induction rule: manager_pollEvent.raw_induct [rotated, consumes 1])
  case (1 f hw count m r)
  obtain err evs w where p: "op_poll hw (if count \<le> pollMaxBufferSize then count else pollMaxBufferSize) (context_state m) = Some (err, evs, w)"
    using 1(2) by (auto split: option.splits)
  have m1: "kept (m\<lparr>context_state := w\<rparr>) m" by (simp add: kept_def)
  obtain out m2 where o: "parsePollData hw (take (nat err) evs) (m\<lparr>context_state := w\<rparr>) = (out, m2)" by fastforce
  have m2: "kept m2 m"
    using parsePollData_kept [of hw "take (nat err) evs" "m\<lparr>context_state := w\<rparr>"] o m1 by (auto intro: kept_trans)
  have "f hw count m2 = Some r" if "0 \<le> err" "out = []" using 1(2) that p o by simp
  from 1(1) [OF this] show ?case using 1(2) m1 m2 p o by (auto simp: Let_def intro: kept_trans split: if_splits)
qed

section \<open>Any sequence of requests\<close>

datatype request = Activate nat int bool | Batch nat int int int | Flush nat int | Poll int
  | Connect int | Disconnect nat | SetNative nat | SetDirect nat

fun manager_op :: "'w hw_ops \<Rightarrow> request \<Rightarrow> 'w manager \<Rightarrow> 'w manager option" where
  "manager_op hw (Activate c h en) m = Some (snd (manager_activate hw c h en m))"
| "manager_op hw (Batch c h period latency) m = Some (snd (manager_batch hw c h period latency m))"
| "manager_op hw (Flush c h) m = Some (snd (manager_flush hw c h m))"
| "manager_op hw (Poll count) m = map_option (\<lambda>(n, out, m'). m') (manager_pollEvent hw count m)"
| "manager_op hw (Connect module) m = Some (snd (createSensorConnection module m))"
| "manager_op hw (Disconnect c) m = Some (removeSensorConnection c m)"
| "manager_op hw (SetNative c) m = Some (setNativeConnection c m)"
| "manager_op hw (SetDirect c) m = Some (setDirectConnection c m)"

primrec manager_run :: "'w hw_ops \<Rightarrow> request list \<Rightarrow> 'w manager \<Rightarrow> 'w manager option" where
  "manager_run hw [] m = Some m"
| "manager_run hw (r # rs) m = Option.bind (manager_op hw r m) (manager_run hw rs)"

definition sane :: "request \<Rightarrow> bool" where
  "sane r \<longleftrightarrow> (case r of Batch c h period latency \<Rightarrow> 0 \<le> period \<and> 0 \<le> latency | _ \<Rightarrow> True)"

lemma manager_op_ok: 
  assumes "manager_ok m" "sane r" "manager_op hw r m = Some m'"
  shows "manager_ok m'"
proof (cases r)
  case (Activate c h en)
  then show ?thesis using assms activate_ok by auto
next
  case (Batch c h period latency)
  then show ?thesis using assms batch_ok by (auto simp: sane_def)
qed (use assms in \<open>auto simp: manager_flush_def createSensorConnection_def removeSensorConnection_def
      cleanupConnection_def setNativeConnection_def setDirectConnection_def manager_ok_def Let_def kept_def
      split: prod.splits dest!: pollEvent_kept\<close>)

lemma manager_run_ok:
  "manager_ok m \<Longrightarrow> \<forall>r \<in> set rs. sane r \<Longrightarrow> manager_run hw rs m = Some m' \<Longrightarrow> manager_ok m'"
  by (induction rs arbitrary: m) (auto simp: bind_eq_Some_conv intro: manager_op_ok)

lemma addSensorsList_ok: "manager_ok m \<Longrightarrow> manager_ok (addSensorsList hw list m)"
proof (induction list arbitrary: m)
  case (Cons s list)
  have "manager_ok (m\<lparr>mActivationCount := AList.update (fst s - ID_OFFSET) new_manager_info (mActivationCount m)\<rparr>)"
    using Cons.prems info_ok_new by (auto simp: manager_ok_def update_conv' split: if_splits)
  from manager_ok_calls(1) [OF this, of hw "fst s - ID_OFFSET" False]
  have "manager_ok ((snd (call_activate hw (fst s - ID_OFFSET) False
      (m\<lparr>mActivationCount := AList.update (fst s - ID_OFFSET) new_manager_info (mActivationCount m)\<rparr>)))
        \<lparr>mSensorList := mSensorList m @ [s]\<rparr>)"
    by (simp add: manager_ok_def)
  from Cons.IH [OF this] show ?case by (simp add: addSensorsList_def Let_def case_prod_beta)
qed (simp add: addSensorsList_def)

lemma new_manager_ok: "manager_ok (addSensorsList hw list (newSensorManager w))"
  by (rule addSensorsList_ok) (simp add: manager_ok_def newSensorManager_def)

text \<open>
  C37. Whatever the hardware answers and in whatever order clients connect, ask, start, stop, flush and poll:
  the manager holds at most one request of every client for a sensor, and the rate it has chosen for the
  sensor is the smallest delay and the smallest time-out of the requests it holds, or none when it holds
  none.
\<close>

theorem best_rate_of_all_clients:
  assumes "manager_run hw rs (addSensorsList hw list (newSensorManager w)) = Some m" "\<forall>r \<in> set rs. sane r"
    "map_of (mActivationCount m) h = Some i"
  shows "distinct (map fst (batchParams i))
    \<and> (if batchParams i = [] then bestBatchParams i = no_batch
       else batchDelay (bestBatchParams i) = Min (batchDelay ` ran (map_of (batchParams i)))
         \<and> batchTimeout (bestBatchParams i) = Min (batchTimeout ` ran (map_of (batchParams i))))"
proof -
  have i: "info_ok i" using manager_run_ok [OF new_manager_ok assms(2,1)] assms(3) by (auto simp: manager_ok_def)
  then have "distinct (map fst (batchParams i))" "batchParams i = [] \<Longrightarrow> bestBatchParams i = no_batch"
    by (simp_all add: info_ok_def clients_ok_def)
  then show ?thesis using info_ok_best [OF i] by simp
qed

section \<open>The hardware follows the clients\<close>

text \<open>What the accepted calls have made of a sensor: on or off, and the delay and time-out it was last given.\<close>

definition hw_on :: "int \<Rightarrow> hw_call list \<Rightarrow> bool" where
  "hw_on h cs = fold (\<lambda>x on. case x of HwActivate h' en r \<Rightarrow> if h' = h then en else on | _ \<Rightarrow> on) cs False"

definition hw_rate :: "int \<Rightarrow> hw_call list \<Rightarrow> (int \<times> int) option" where
  "hw_rate h cs = fold (\<lambda>x rate. case x of HwBatch h' d t r \<Rightarrow> if h' = h then Some (d, t) else rate | _ \<Rightarrow> rate) cs None"

lemma hw_append [simp]:
  "hw_on h (cs @ [HwActivate h' en r]) = (if h' = h then en else hw_on h cs)"
  "hw_on h (cs @ [HwBatch h' d t r]) = hw_on h cs"
  "hw_rate h (cs @ [HwActivate h' en r]) = hw_rate h cs"
  "hw_rate h (cs @ [HwBatch h' d t r]) = (if h' = h then Some (d, t) else hw_rate h cs)"
  by (simp_all add: hw_on_def hw_rate_def)

definition call_accepted :: "hw_call \<Rightarrow> bool" where
  "call_accepted x \<longleftrightarrow> (case x of HwActivate h en r \<Rightarrow> r = 0 | HwBatch h d t r \<Rightarrow> 0 \<le> r)"

definition all_accepted :: "'w manager \<Rightarrow> bool" where
  "all_accepted m \<longleftrightarrow> (\<forall>x \<in> set (hw_calls m). call_accepted x)"

text \<open>How the framework uses the manager: it asks for a rate right before it starts a sensor.\<close>

datatype client_op = Start nat int int int | Stop nat int

fun client_step :: "'w hw_ops \<Rightarrow> client_op \<Rightarrow> 'w manager \<Rightarrow> 'w manager" where
  "client_step hw (Start c h period latency) m =
     snd (manager_activate hw c h True (snd (manager_batch hw c h period latency m)))"
| "client_step hw (Stop c h) m = snd (manager_activate hw c h False m)"

text \<open>The specification: who wants which sensor, and how fast.\<close>

fun want_step :: "(int \<times> int) list \<Rightarrow> client_op \<Rightarrow> (int \<Rightarrow> nat \<rightharpoonup> int \<times> int) \<Rightarrow> int \<Rightarrow> nat \<rightharpoonup> int \<times> int" where
  "want_step list (Start c h period latency) W =
     W(h := (W h)(c \<mapsto> (case map_of list (h + ID_OFFSET) of None \<Rightarrow> period | Some d \<Rightarrow> max period (1000 * d), latency)))"
| "want_step list (Stop c h) W = W(h := (W h)(c := None))"

definition requests_of :: "info \<Rightarrow> nat \<rightharpoonup> int \<times> int" where
  "requests_of i = map_option (\<lambda>p. (batchDelay p, batchTimeout p)) \<circ> map_of (batchParams i)"

definition follows :: "int \<Rightarrow> hw_call list \<Rightarrow> info \<Rightarrow> bool" where
  "follows h cs i \<longleftrightarrow> (hw_on h cs \<longleftrightarrow> batchParams i \<noteq> [])
     \<and> (batchParams i \<noteq> [] \<longrightarrow> hw_rate h cs = Some (batchDelay (bestBatchParams i), batchTimeout (bestBatchParams i)))"

lemma update_not_Nil [simp]: "AList.update k v xs \<noteq> []"
  by (cases xs) auto

lemma known_batch:
  assumes m: "manager_ok m" and i: "map_of (mActivationCount m) h = Some i" and "0 \<le> period" "0 \<le> latency"
    and acc: "all_accepted (snd (manager_batch hw c h period latency m))"
  defines "i2 \<equiv> asked c (clamped h period m) latency i" and "m2 \<equiv> snd (manager_batch hw c h period latency m)"
  shows "map_of (mActivationCount m2) = (map_of (mActivationCount m))(h \<mapsto> i2)
    \<and> (\<forall>h'. hw_on h' (hw_calls m2) = hw_on h' (hw_calls m))
    \<and> (\<forall>h'. h' \<noteq> h \<longrightarrow> hw_rate h' (hw_calls m2) = hw_rate h' (hw_calls m))
    \<and> (follows h (hw_calls m) i \<longrightarrow>
         hw_rate h (hw_calls m2) = Some (batchDelay (bestBatchParams i2), batchTimeout (bestBatchParams i2)))"
proof -
  have dis: "mDisabledClients m = []" and io: "info_ok i" using m i by (auto simp: manager_ok_def)
  have i2: "info_ok i2" unfolding i2_def using asked_ok [OF io] clamped_nonneg assms(3,4) by blast
  have best2: "bestBatchParams i2 \<noteq> no_batch" using info_ok_best(3) [OF i2] by (simp add: i2_def)
  let ?cb = "call_batch hw h (bestBatchParams i2) (put_info h i2 m)"
  have b: "manager_batch hw c h period latency m =
    (if bestBatchParams i = bestBatchParams i2 then (0, put_info h i2 m)
     else if fst ?cb < 0 then (fst ?cb, put_info h (snd (removeBatchParamsForIdent [] c i2)) (snd ?cb)) else ?cb)"
    unfolding batch_known [OF dis i] i2_def by (simp add: Let_def case_prod_beta del: asked_params)
  show ?thesis
  proof (cases "bestBatchParams i = bestBatchParams i2")
    case True
    then have "batchParams i \<noteq> []" using best2 io by (auto simp: info_ok_def)
    moreover have "m2 = put_info h i2 m" using True b by (simp add: m2_def)
    ultimately show ?thesis using True by (simp add: follows_def)
  next
    case False
    have "HwBatch h (batchDelay (bestBatchParams i2)) (batchTimeout (bestBatchParams i2)) (fst ?cb) \<in> set (hw_calls m2)"
      unfolding m2_def b using False by simp
    then have "\<not> fst ?cb < 0" using acc by (fastforce simp: all_accepted_def call_accepted_def m2_def)
    then have "m2 = snd ?cb" unfolding m2_def b using False by simp
    then show ?thesis by auto
  qed
qed

lemma known_activate:
  assumes m: "manager_ok m" and i: "map_of (mActivationCount m) h = Some i" and c: "map_of (batchParams i) c \<noteq> None"
    and acc: "all_accepted (snd (manager_activate hw c h True m))"
  defines "m2 \<equiv> snd (manager_activate hw c h True m)"
  shows "mActivationCount m2 = mActivationCount m
    \<and> (\<forall>h'. hw_rate h' (hw_calls m2) = hw_rate h' (hw_calls m))
    \<and> (\<forall>h'. hw_on h' (hw_calls m2) = (if h' = h \<and> length (batchParams i) = 1 then True else hw_on h' (hw_calls m)))"
proof -
  let ?m = "note_active c h True m"
  have dis: "mDisabledClients m = []" using m by (simp add: manager_ok_def)
  let ?ca = "call_activate hw h True ?m"
  have step: "manager_activate hw c h True m = (if length (batchParams i) = 1 then actuate hw c h True i ?m else (0, ?m))"
    using i c dis by (auto simp: manager_activate_def isClientDisabledLocked_def numActiveClients_def Let_def)
  have act: "snd (actuate hw c h True i ?m) =
      (if fst ?ca \<noteq> 0 then put_info h (snd (removeBatchParamsForIdent [] c i)) (snd ?ca) else snd ?ca)"
    using dis by (simp add: actuate_def Let_def case_prod_beta)
  show ?thesis
  proof (cases "length (batchParams i) = 1")
    case True
    have "HwActivate h True (fst ?ca) \<in> set (hw_calls m2)" unfolding m2_def step using True act by simp
    then have "fst ?ca = 0" using acc by (fastforce simp: all_accepted_def call_accepted_def m2_def)
    then have "m2 = snd ?ca" unfolding m2_def step using True act by simp
    then show ?thesis using True by auto
  next
    case False
    then show ?thesis using step by (simp add: m2_def)
  qed
qed

lemma known_stop:
  fixes hw :: "'w hw_ops" and c :: nat
  assumes m: "manager_ok m" and i: "map_of (mActivationCount m) h = Some i"
  defines "m2 \<equiv> snd (manager_activate hw c h False m)" and "i1 \<equiv> snd (removeBatchParamsForIdent [] c i)"
  shows "map_of (mActivationCount m2) = (map_of (mActivationCount m))(h \<mapsto> i1)
    \<and> (\<forall>h'. h' \<noteq> h \<longrightarrow> hw_on h' (hw_calls m2) = hw_on h' (hw_calls m) \<and> hw_rate h' (hw_calls m2) = hw_rate h' (hw_calls m))
    \<and> (follows h (hw_calls m) i \<longrightarrow> follows h (hw_calls m2) i1)"
proof -
  let ?m = "note_active c h False m"
  have dis: "mDisabledClients m = []" using m by (simp add: manager_ok_def)
  obtain r where r: "removeBatchParamsForIdent [] c i = (r, i1)" by (metis i1_def prod.collapse)
  have r_iff: "r \<longleftrightarrow> c \<in> fst ` set (batchParams i)" using removed_info(2) [of "[]" c i] r by simp
  have same: "\<not> r \<Longrightarrow> i1 = i" and non: "r \<Longrightarrow> batchParams i \<noteq> []"
    using r r_iff by (auto simp: removeBatchParamsForIdent_def split: if_splits)
  consider (no) "\<not> r" | (idle) "r" "batchParams i1 = []" | (more) "r" "batchParams i1 \<noteq> []" by blast
  then show ?thesis
  proof cases
    case no
    then have "m2 = put_info h i1 ?m"
      using i dis r by (simp add: m2_def manager_activate_def Let_def isClientDisabledLocked_def)
    then show ?thesis using same no by simp
  next
    case idle
    then have "m2 = snd (call_activate hw h False (put_info h i1 ?m))"
      using i dis r by (simp add: m2_def manager_activate_def Let_def isClientDisabledLocked_def numActiveClients_def actuate_def case_prod_beta)
    then show ?thesis using idle by (auto simp: follows_def)
  next
    case more
    then have "m2 = snd (call_batch hw h (bestBatchParams i1) (put_info h i1 ?m))"
      using i dis r by (simp add: m2_def manager_activate_def Let_def isClientDisabledLocked_def numActiveClients_def)
    then show ?thesis using more non by (auto simp: follows_def)
  qed
qed

lemma unknown_ops:
  assumes "map_of (mActivationCount m) h = None"
  shows "snd (manager_batch hw c h period latency m) = m" "snd (manager_activate hw c h en m) = note_active c h en m"
  using assms by (simp_all add: manager_batch_def manager_activate_def Let_def)

text \<open>The manager and the hardware are in step with what is wanted.\<close>

definition in_step :: "(int \<times> int) list \<Rightarrow> (int \<Rightarrow> nat \<rightharpoonup> int \<times> int) \<Rightarrow> 'w manager \<Rightarrow> bool" where
  "in_step list W m \<longleftrightarrow> manager_ok m \<and> mSensorList m = list
     \<and> dom (map_of (mActivationCount m)) = (\<lambda>(x, d). x - ID_OFFSET) ` set list
     \<and> (\<forall>h \<in> (\<lambda>(x, d). x - ID_OFFSET) ` set list. \<exists>i. map_of (mActivationCount m) h = Some i \<and> requests_of i = W h \<and> follows h (hw_calls m) i)"

definition sane_op :: "client_op \<Rightarrow> bool" where
  "sane_op x \<longleftrightarrow> (case x of Start c h period latency \<Rightarrow> 0 \<le> period \<and> 0 \<le> latency | Stop c h \<Rightarrow> True)"

lemma requests_of_asked: "requests_of (asked c p l i) = (requests_of i)(c \<mapsto> (p, l))"
  by (auto simp: requests_of_def update_conv')

lemma requests_of_removed: "info_ok i \<Longrightarrow> requests_of (snd (removeBatchParamsForIdent [] c i)) = (requests_of i)(c := None)"
  by (auto simp: requests_of_def removed_info(1) delete_conv')

lemma clamped_spec:
  "0 \<le> period \<Longrightarrow> clamped h period m = (case map_of (mSensorList m) (h + ID_OFFSET) of None \<Rightarrow> period | Some d \<Rightarrow> max period (1000 * d))"
  by (auto simp: clamped_def getSensorMinDelayNs_def split: option.splits)

lemma mSensorList_ops [simp]:
  "mSensorList (snd (manager_batch hw c h period latency m)) = mSensorList m"
  "mSensorList (snd (manager_activate hw c h en m)) = mSensorList m"
  by (auto simp: manager_batch_def manager_activate_def actuate_def Let_def case_prod_beta split: option.splits)

lemma calls_grow:
  "set (hw_calls m) \<subseteq> set (hw_calls (snd (manager_batch hw c h period latency m)))"
  "set (hw_calls m) \<subseteq> set (hw_calls (snd (manager_activate hw c h en m)))"
  by (auto simp: manager_batch_def manager_activate_def actuate_def Let_def case_prod_beta split: option.splits)

lemma earlier_accepted:
  "all_accepted (snd (manager_batch hw c h period latency m)) \<Longrightarrow> all_accepted m"
  "all_accepted (snd (manager_activate hw c h en m)) \<Longrightarrow> all_accepted m"
  using calls_grow unfolding all_accepted_def by (meson subsetD)+

lemma client_calls_grow: "all_accepted (client_step hw x m) \<Longrightarrow> all_accepted m"
  by (cases x) (auto dest: earlier_accepted)

lemma start_in_step:
  fixes hw :: "'w hw_ops" and c :: nat
  assumes s: "in_step list W m" and p: "0 \<le> period" "0 \<le> latency" and h: "h \<in> (\<lambda>(x, d). x - ID_OFFSET) ` set list"
  defines "m2 \<equiv> client_step hw (Start c h period latency) m"
  assumes acc: "all_accepted m2"
  shows "in_step list (want_step list (Start c h period latency) W) m2"
proof -
  have m: "manager_ok m" and l: "mSensorList m = list" using s by (simp_all add: in_step_def)
  obtain i where i: "map_of (mActivationCount m) h = Some i" "requests_of i = W h" "follows h (hw_calls m) i"
    using s h by (auto simp: in_step_def)
  define i2 where "i2 = asked c (clamped h period m) latency i"
  define m1 where "m1 = snd (manager_batch hw c h period latency m)"
  have ok1: "manager_ok m1" unfolding m1_def by (rule batch_ok [OF m p])
  have m2: "m2 = snd (manager_activate hw c h True m1)" by (simp add: m2_def m1_def)
  have ok2: "manager_ok m2" unfolding m2 by (rule activate_ok [OF ok1])
  have acc1: "all_accepted m1" using acc unfolding m2 by (rule earlier_accepted(2))
  note b = known_batch [OF m i(1) p acc1 [unfolded m1_def], folded m1_def i2_def]
  have i2: "map_of (mActivationCount m1) h = Some i2" "map_of (batchParams i2) c \<noteq> None"
    using b by (auto simp: i2_def update_conv')
  note a = known_activate [OF ok1 i2 acc [unfolded m2], folded m2]
  have on: "length (batchParams i2) = 1 \<or> batchParams i \<noteq> []" by (auto simp: i2_def)
  have f: "follows h (hw_calls m2) i2"
    using a b i(3) on by (auto simp: follows_def i2_def)
  have r: "requests_of i2 = want_step list (Start c h period latency) W h"
    unfolding i2_def requests_of_asked clamped_spec [OF p(1)] using i(2) l by simp
  have "\<exists>j. map_of (mActivationCount m2) k = Some j \<and> requests_of j = want_step list (Start c h period latency) W k
      \<and> follows k (hw_calls m2) j" if k: "k \<in> (\<lambda>(x, d). x - ID_OFFSET) ` set list" for k
  proof (cases "k = h")
    case True
    then show ?thesis using f r a i2 by simp
  next
    case False
    then show ?thesis using s k a b by (auto simp: in_step_def follows_def)
  qed
  moreover have "dom (map_of (mActivationCount m2)) = (\<lambda>(x, d). x - ID_OFFSET) ` set list"
    using s h a b by (auto simp: in_step_def)
  moreover have "mSensorList m2 = list" unfolding m2 m1_def using l by simp
  ultimately show ?thesis using ok2 by (simp add: in_step_def)
qed

lemma stop_in_step:
  assumes s: "in_step list W m" and h: "h \<in> (\<lambda>(x, d). x - ID_OFFSET) ` set list"
  shows "in_step list (want_step list (Stop c h) W) (client_step hw (Stop c h) m)"
proof -
  have m: "manager_ok m" and l: "mSensorList m = list" using s by (simp_all add: in_step_def)
  obtain i where i: "map_of (mActivationCount m) h = Some i" "requests_of i = W h" "follows h (hw_calls m) i"
    using s h by (auto simp: in_step_def)
  note a = known_stop [OF m i(1), of hw c]
  have r: "requests_of (snd (removeBatchParamsForIdent [] c i)) = want_step list (Stop c h) W h"
    using requests_of_removed i m by (auto simp: manager_ok_def)
  have "\<exists>j. map_of (mActivationCount (client_step hw (Stop c h) m)) k = Some j \<and> requests_of j = want_step list (Stop c h) W k
      \<and> follows k (hw_calls (client_step hw (Stop c h) m)) j" if k: "k \<in> (\<lambda>(x, d). x - ID_OFFSET) ` set list" for k
  proof (cases "k = h")
    case True
    then show ?thesis using r a i(3) by simp
  next
    case False
    then show ?thesis using s k a by (auto simp: in_step_def follows_def)
  qed
  moreover have "dom (map_of (mActivationCount (client_step hw (Stop c h) m))) = (\<lambda>(x, d). x - ID_OFFSET) ` set list"
    using s h a by (auto simp: in_step_def)
  ultimately show ?thesis using m l activate_ok [of m hw c h False] by (simp add: in_step_def)
qed

lemma unknown_in_step:
  assumes s: "in_step list W m" and u: "map_of (mActivationCount m) h = None" and x: "x = Start c h period latency \<or> x = Stop c h"
  shows "in_step list (want_step list x W) (client_step hw x m)"
proof -
  have step: "client_step hw x m = note_active c h (x \<noteq> Stop c h) m" using x u by (auto simp: unknown_ops)
  have "h \<notin> (\<lambda>(x, d). x - ID_OFFSET) ` set list" using s u by (auto simp: in_step_def)
  then have "\<forall>k \<in> (\<lambda>(x, d). x - ID_OFFSET) ` set list. want_step list x W k = W k" using x by auto
  then show ?thesis using s manager_ok_calls(3) [of m c h] unfolding step by (simp add: in_step_def)
qed

lemma step_in_step:
  assumes "in_step list W m" "sane_op x" "all_accepted (client_step hw x m)"
  shows "in_step list (want_step list x W) (client_step hw x m)"
proof -
  obtain c h where x: "(\<exists>p l. x = Start c h p l) \<or> x = Stop c h" by (cases x) auto
  show ?thesis
  proof (cases "h \<in> (\<lambda>(x, d). x - ID_OFFSET) ` set list")
    case True
    from x show ?thesis
    proof
      assume "\<exists>p l. x = Start c h p l"
      then obtain p l where s: "x = Start c h p l" by blast
      then have "0 \<le> p" "0 \<le> l" using assms(2) by (simp_all add: sane_op_def)
      then show ?thesis unfolding s by (rule start_in_step [OF assms(1) _ _ True assms(3) [unfolded s]])
    next
      assume "x = Stop c h"
      then show ?thesis using stop_in_step [OF assms(1) True] by simp
    qed
  next
    case False
    then have "map_of (mActivationCount m) h = None" using assms(1) by (auto simp: in_step_def)
    then show ?thesis using x unknown_in_step [OF assms(1)] by blast
  qed
qed

lemma run_in_step:
  "in_step list W m \<Longrightarrow> \<forall>x \<in> set ops. sane_op x \<Longrightarrow> all_accepted (fold (client_step hw) ops m)
    \<Longrightarrow> in_step list (fold (want_step list) ops W) (fold (client_step hw) ops m)"
proof (induction ops rule: rev_induct)
  case (snoc x ops)
  have "all_accepted (fold (client_step hw) ops m)" using snoc.prems(3) client_calls_grow by auto
  then have "in_step list (fold (want_step list) ops W) (fold (client_step hw) ops m)" using snoc by simp
  then have "in_step list (want_step list x (fold (want_step list) ops W)) (client_step hw x (fold (client_step hw) ops m))"
    by (rule step_in_step) (use snoc.prems in auto)
  then show ?case by simp
qed simp

text \<open>The start: every sensor of the list is known, nobody wants it and it is switched off.\<close>

lemma added_in_step:
  assumes "in_step list (\<lambda>_. Map.empty) m"
  shows "in_step (list @ [s]) (\<lambda>_. Map.empty) (addSensorsList hw [s] m)"
proof -
  let ?h = "fst s - ID_OFFSET"
  have r: "requests_of new_manager_info = Map.empty" "batchParams new_manager_info = []"
    by (simp_all add: requests_of_def new_manager_info_def)
  have a: "map_of (mActivationCount (addSensorsList hw [s] m)) = (map_of (mActivationCount m))(?h \<mapsto> new_manager_info)"
    "hw_on h (hw_calls (addSensorsList hw [s] m)) = (if h = ?h then False else hw_on h (hw_calls m))"
    "hw_rate h (hw_calls (addSensorsList hw [s] m)) = hw_rate h (hw_calls m)"
    "mSensorList (addSensorsList hw [s] m) = mSensorList m @ [s]" for h
    by (simp_all add: addSensorsList_def case_prod_beta Let_def update_conv')
  have "\<exists>i. map_of (mActivationCount (addSensorsList hw [s] m)) h = Some i \<and> requests_of i = Map.empty
      \<and> follows h (hw_calls (addSensorsList hw [s] m)) i" if "h \<in> (\<lambda>(x, d). x - ID_OFFSET) ` set (list @ [s])" for h
    using assms that r a by (auto simp: in_step_def follows_def case_prod_beta)
  then show ?thesis using assms addSensorsList_ok [of m hw "[s]"] a by (auto simp: in_step_def case_prod_beta)
qed

lemma addSensorsList_append: "addSensorsList hw (xs @ ys) m = addSensorsList hw ys (addSensorsList hw xs m)"
  by (simp add: addSensorsList_def)

lemma new_in_step: "in_step list (\<lambda>_. Map.empty) (addSensorsList hw list (newSensorManager w))"
proof (induction list rule: rev_induct)
  case Nil
  then show ?case using new_manager_ok [of hw "[]" w] by (simp add: in_step_def addSensorsList_def newSensorManager_def)
next
  case (snoc s list)
  then show ?case unfolding addSensorsList_append by (rule added_in_step)
qed

text \<open>
  C31. When the calls to the hardware succeed, then after any starts and stops by any clients a sensor is on
  exactly when some client has started it last, and it runs at the smallest delay and time-out that those
  clients ask for, no delay being below the minimal one of the sensor.
\<close>

theorem hardware_follows_clients:
  assumes "m = fold (client_step hw) ops (addSensorsList hw list (newSensorManager w))"
    and "W = fold (want_step list) ops (\<lambda>_. Map.empty)"
    and "\<forall>x \<in> set ops. sane_op x" "all_accepted m" "h + ID_OFFSET \<in> fst ` set list"
  shows "(hw_on h (hw_calls m) \<longleftrightarrow> W h \<noteq> Map.empty)
    \<and> (W h \<noteq> Map.empty \<longrightarrow> hw_rate h (hw_calls m) = Some (Min (fst ` ran (W h)), Min (snd ` ran (W h))))"
proof -
  have "h \<in> (\<lambda>(x, d). x - ID_OFFSET) ` set list" using assms(5) by force
  moreover have s: "in_step list W m" using run_in_step [OF new_in_step [of list hw w] assms(3)] assms(1,2,4) by simp
  ultimately obtain i where i: "map_of (mActivationCount m) h = Some i" "requests_of i = W h" "follows h (hw_calls m) i"
    unfolding in_step_def by blast
  have "manager_ok m" using s by (simp add: in_step_def)
  then have ok: "info_ok i" using i(1) by (auto simp: manager_ok_def)
  have e: "W h = Map.empty \<longleftrightarrow> batchParams i = []"
    unfolding i(2) [symmetric] requests_of_def by (cases "batchParams i") (auto simp: fun_eq_iff)
  then have on: "hw_on h (hw_calls m) \<longleftrightarrow> W h \<noteq> Map.empty" using i(3) by (simp add: follows_def)
  have "ran (W h) = (\<lambda>p. (batchDelay p, batchTimeout p)) ` ran (map_of (batchParams i))"
    unfolding i(2) [symmetric] requests_of_def by (auto simp: ran_def)
  then have "W h \<noteq> Map.empty \<Longrightarrow> hw_rate h (hw_calls m) = Some (Min (fst ` ran (W h)), Min (snd ` ran (W h)))"
    using e i(3) info_ok_best [OF ok] by (simp add: follows_def image_image)
  then show ?thesis using on by simp
qed

section \<open>Who gets which events\<close>

lemma the_connection_kept: "kept m' m \<Longrightarrow> the_connection c m' = the_connection c m"
  by (simp add: kept_def the_connection_def)

lemma hand_to_out:
  "hand_to hw evs c (out, m) = (out1, m1)
    \<Longrightarrow> out1 = out @ (if mNativeConnection m = Some c then native_events (the_connection c m) evs else [])"
  by (auto simp: hand_to_def Let_def split: if_splits)

lemma fold_setEvent_reports: "direct_reports (fold (\<lambda>d. manager_setEvent hw k (f d)) ds m) = direct_reports m"
  by (induction ds arbitrary: m) (simp_all add: manager_setEvent_def)

lemma hand_to_reports:
  "hand_to hw evs c (out, m) = (out1, m1)
    \<Longrightarrow> direct_reports m1 = direct_reports m @
      (if mDirectConnection m = Some c \<and> mNativeConnection m \<noteq> Some c then samples_for (the_connection c m) evs else [])"
  by (auto simp: hand_to_def Let_def fold_setEvent_reports split: if_splits)

lemma hand_all_both:
  "distinct cs \<Longrightarrow> fst (fold (hand_to hw evs) cs (out, m)) =
      out @ (case mNativeConnection m of None \<Rightarrow> [] | Some n \<Rightarrow> if n \<in> set cs then native_events (the_connection n m) evs else [])
   \<and> direct_reports (snd (fold (hand_to hw evs) cs (out, m))) = direct_reports m @
      (case mDirectConnection m of None \<Rightarrow> []
       | Some n \<Rightarrow> if n \<in> set cs \<and> mNativeConnection m \<noteq> Some n then samples_for (the_connection n m) evs else [])"
proof (induction cs arbitrary: out m)
  case (Cons c cs)
  obtain out1 m1 where h: "hand_to hw evs c (out, m) = (out1, m1)" by fastforce
  have k: "kept m1 m" using hand_to_kept [of hw evs c out m] h by simp
  note e = the_connection_kept [OF k]
  have n: "mNativeConnection m1 = mNativeConnection m" "mDirectConnection m1 = mDirectConnection m" using k by (simp_all add: kept_def)
  have f: "fold (hand_to hw evs) (c # cs) (out, m) = fold (hand_to hw evs) cs (out1, m1)" by (simp add: h)
  show ?case
    unfolding f using Cons.IH [of out1 m1] Cons.prems hand_to_out [OF h] hand_to_reports [OF h] n e by (auto split: option.splits)
qed (auto split: option.splits)

lemmas hand_all = hand_all_both [THEN conjunct1] hand_all_both [THEN conjunct2]

text \<open>
  The calls of \<open>setEvent\<close> on the sensor context that a batch asks for: for each active connection but the
  framework's and the direct channels', in order, its samples with the context's own sensor numbers, for its module.
\<close>

definition module_events :: "'w manager \<Rightarrow> sensors_event list \<Rightarrow> (sensors_event \<times> int) list" where
  "module_events m evs =
     concat (map (\<lambda>c. map (\<lambda>d. (d\<lparr>sensor := sensor d - ID_OFFSET\<rparr>, mMoudle (the_connection c m)))
         (filter (\<lambda>d. type_of d \<noteq> SENSOR_TYPE_META_DATA \<and> sensor d - ID_OFFSET \<in> set (mActiveHandles (the_connection c m))) evs))
       (filter (\<lambda>c. mNativeConnection m \<noteq> Some c \<and> mDirectConnection m \<noteq> Some c) (mActiveConnections m)))"

definition set_events :: "'w hw_ops \<Rightarrow> (sensors_event \<times> int) list \<Rightarrow> 'w \<Rightarrow> 'w" where
  "set_events hw ds = fold (\<lambda>(d, module) w. snd (op_setEvent hw d module w)) ds"

lemma setEvent_context:
  "context_state (fold (\<lambda>d. manager_setEvent hw k (f d)) ds m) = set_events hw (map (\<lambda>d. (f d, k)) ds) (context_state m)"
  by (induction ds arbitrary: m) (simp_all add: manager_setEvent_def set_events_def)

lemma set_events_append: "set_events hw (xs @ ys) w = set_events hw ys (set_events hw xs w)"
  by (simp add: set_events_def)

lemma hand_all_context:
  "context_state (snd (fold (hand_to hw evs) cs (out, m))) =
     set_events hw (module_events (m\<lparr>mActiveConnections := cs\<rparr>) evs) (context_state m)"
proof (induction cs arbitrary: out m)
  case Nil
  then show ?case by (simp add: module_events_def set_events_def)
next
  case (Cons c cs)
  obtain out1 m1 where h: "hand_to hw evs c (out, m) = (out1, m1)" by fastforce
  have k: "kept m1 m" using hand_to_kept [of hw evs c out m] h by simp
  have one: "context_state m1 = set_events hw (module_events (m\<lparr>mActiveConnections := [c]\<rparr>) evs) (context_state m)"
    using h by (auto simp: hand_to_def Let_def module_events_def setEvent_context samples_for_def hasHandleIndexOf_def
        the_connection_def set_events_def split: if_splits)
  have same: "module_events (m1\<lparr>mActiveConnections := cs\<rparr>) evs = module_events (m\<lparr>mActiveConnections := cs\<rparr>) evs"
    using k by (simp add: module_events_def kept_def the_connection_def)
  have split: "module_events (m\<lparr>mActiveConnections := c # cs\<rparr>) evs
      = module_events (m\<lparr>mActiveConnections := [c]\<rparr>) evs @ module_events (m\<lparr>mActiveConnections := cs\<rparr>) evs"
    by (simp add: module_events_def the_connection_def)
  show ?case using Cons.IH [of out1 m1] one same split h by (simp add: set_events_append)
qed

text \<open>
  C36. One batch of polled events is handed out like this: the framework gets, in order and once, every
  completed flush and every event of a sensor that it has active, if its connection is there; the direct
  channels get every event of a sensor that their connection has active, and no flush; for each of the
  other active connections, in order, the sensor context gets every event of a sensor that it has active,
  and no flush, with the context's sensor number and the connection's module; the requests to the
  hardware and the connections stay as they are.
\<close>

theorem events_reach_their_connections:
  assumes "distinct (mActiveConnections m)" "mNativeConnection m = Some n" "n \<in> set (mActiveConnections m)"
    "parsePollData hw evs m = (out, m')"
  shows "out = filter (\<lambda>d. type_of d = SENSOR_TYPE_META_DATA \<or> sensor d - ID_OFFSET \<in> set (mActiveHandles (the_connection n m))) evs
    \<and> (\<forall>k. mDirectConnection m = Some k \<and> k \<in> set (mActiveConnections m) \<and> k \<noteq> n \<longrightarrow>
      direct_reports m' = direct_reports m @
        filter (\<lambda>d. type_of d \<noteq> SENSOR_TYPE_META_DATA \<and> sensor d - ID_OFFSET \<in> set (mActiveHandles (the_connection k m))) evs)
    \<and> context_state m' = set_events hw (module_events m evs) (context_state m)
    \<and> hw_calls m' = hw_calls m \<and> connections m' = connections m"
proof (intro conjI allI impI)
  have o: "out = fst (parsePollData hw evs m)" "m' = snd (parsePollData hw evs m)" using assms(4) by simp_all
  show "out = filter (\<lambda>d. type_of d = SENSOR_TYPE_META_DATA \<or> sensor d - ID_OFFSET \<in> set (mActiveHandles (the_connection n m))) evs"
    unfolding o using assms(2,3)
    by (simp add: parsePollData_def hand_all(1) [OF assms(1)] native_events_def hasHandleIndexOf_def)
  show "direct_reports m' = direct_reports m @
        filter (\<lambda>d. type_of d \<noteq> SENSOR_TYPE_META_DATA \<and> sensor d - ID_OFFSET \<in> set (mActiveHandles (the_connection k m))) evs"
    if "mDirectConnection m = Some k \<and> k \<in> set (mActiveConnections m) \<and> k \<noteq> n" for k
    unfolding o using assms(2,3) that
    by (simp add: parsePollData_def hand_all(2) [OF assms(1)] samples_for_def hasHandleIndexOf_def)
  have none: "set_events hw (module_events m []) w = w" for w
  proof -
    have "module_events m [] = []" by (simp add: module_events_def concat_eq_Nil_conv)
    then show ?thesis by (simp add: set_events_def)
  qed
  show "context_state m' = set_events hw (module_events m evs) (context_state m)"
    unfolding o using hand_all_context [of hw evs "mActiveConnections m" "[]" m] none by (simp add: parsePollData_def)
  show "hw_calls m' = hw_calls m" "connections m' = connections m"
    unfolding o using parsePollData_kept [of hw evs m] by (simp_all add: kept_def)
qed

section \<open>Polling through the manager\<close>

text \<open>What the manager needs of the context it polls.\<close>

locale polled_source =
  fixes hw :: "'w hw_ops" and good :: "'w \<Rightarrow> bool"
  assumes poll_contract:
    "good w \<Longrightarrow> 1 \<le> k \<Longrightarrow> op_poll hw k w = Some (n, evs, w') \<Longrightarrow> n \<le> k \<and> n \<le> int (length evs) \<and> good w'"
    and setEvent_contract: "good w \<Longrightarrow> good (snd (op_setEvent hw d k w))"
begin

lemma setEvents_good:
  "good (context_state m) \<Longrightarrow> good (context_state (fold (\<lambda>d. manager_setEvent hw k (f d)) ds m))"
  by (induction ds arbitrary: m) (simp_all add: manager_setEvent_def setEvent_contract)

lemma hand_to_good: "good (context_state m) \<Longrightarrow> good (context_state (snd (hand_to hw evs c (out, m))))"
  by (simp add: hand_to_def Let_def setEvents_good)

lemma hand_all_good: "good (context_state m) \<Longrightarrow> good (context_state (snd (fold (hand_to hw evs) cs (out, m))))"
proof (induction cs arbitrary: out m)
  case (Cons c cs)
  obtain out1 m1 where h: "hand_to hw evs c (out, m) = (out1, m1)" by fastforce
  then show ?case using Cons.IH [of m1 out1] hand_to_good [OF Cons.prems, of evs c out] by simp
qed simp

lemma parse_good: "good (context_state m) \<Longrightarrow> good (context_state (snd (parsePollData hw evs m)))"
  by (simp add: parsePollData_def hand_all_good)

text \<open>The rule of the loop ranges over every argument, hence the second name for the operations.\<close>

lemma pollEvent_good:
  assumes "manager_pollEvent hw1 count m = Some r" "hw1 = hw" "good (context_state m)" "1 \<le> count" "distinct (mActiveConnections m)"
  shows "fst r = int (length (fst (snd r))) \<and> fst r \<le> min count pollMaxBufferSize \<and> good (context_state (snd (snd r)))
    \<and> (\<forall>d \<in> set (fst (snd r)). \<exists>c. mNativeConnection m = Some c
         \<and> (type_of d = SENSOR_TYPE_META_DATA \<or> hasHandleIndexOf (sensor d - ID_OFFSET) (the_connection c m)))"
  using assms
proof (induction rule: manager_pollEvent.raw_induct [rotated, consumes 1])
  case (1 f hw1 count m r)
  define k where "k = (if count \<le> pollMaxBufferSize then count else pollMaxBufferSize)"
  have k: "1 \<le> k" "k = min count pollMaxBufferSize" using 1(5) by (auto simp: k_def pollMaxBufferSize_def)
  obtain err evs w where p: "op_poll hw k (context_state m) = Some (err, evs, w)"
    using 1(2,3) by (auto simp: k_def split: option.splits)
  note c = poll_contract [OF 1(4) k(1) p]
  define m1 where "m1 = m\<lparr>context_state := w\<rparr>"
  obtain out m2 where o: "parsePollData hw (take (nat err) evs) m1 = (out, m2)" by fastforce
  have good2: "good (context_state m2)" using parse_good [of m1 "take (nat err) evs"] o c by (simp add: m1_def)
  have kept: "kept m1 m" "kept m2 m1"
    using parsePollData_kept [of hw "take (nat err) evs" m1] o by (simp_all add: m1_def kept_def)
  have same: "mActiveConnections m2 = mActiveConnections m" "mNativeConnection m2 = mNativeConnection m"
    "the_connection n m2 = the_connection n m" "the_connection n m1 = the_connection n m" for n
    using kept the_connection_kept by (auto simp: kept_def)
  have out: "set out \<subseteq> {d. \<exists>c. mNativeConnection m = Some c \<and> (type_of d = SENSOR_TYPE_META_DATA
      \<or> hasHandleIndexOf (sensor d - ID_OFFSET) (the_connection c m))} \<and> length out \<le> nat err"
    using hand_all(1) [of "mActiveConnections m" hw "take (nat err) evs" "[]" m1] o 1(6) same(4)
    by (auto simp: parsePollData_def m1_def native_events_def split: if_splits option.splits intro: order_trans [OF length_filter_le])
  have body: "(if err < 0 then Some (0, [], m1) else if out \<noteq> [] then Some (int (length out), out, m2) else f hw count m2) = Some r"
    using 1(2,3) p o unfolding k_def m1_def by (simp add: Let_def split: if_splits)
  consider (fail) "err < 0" "r = (0, [], m1)" | (got) "\<not> err < 0" "out \<noteq> []" "r = (int (length out), out, m2)"
    | (again) "\<not> err < 0" "out = []" "f hw count m2 = Some r" using body by (auto split: if_splits)
  then show ?case
  proof cases
    case fail
    then show ?thesis using c k by (simp add: m1_def)
  next
    case got
    then show ?thesis using c k out good2 by auto
  next
    case again
    then show ?thesis using 1(1) [OF again(3) refl good2 1(5)] 1(6) same by auto
  qed
qed

end

lemma only_known_write:
  "only_known f r \<Longrightarrow> 0 \<le> f (handle_of ev) \<Longrightarrow> only_known f (writeEvent ev r)"
  using write_contents [of ev r] by (auto simp: only_known_def split: if_splits)

lemma known_fused: "\<forall>h \<in> set fused_handles \<union> {ID_ACCELEROMETER_UNCALIBRATED, ID_GYROSCOPE_UNCALIBRATED, ID_MAGNETIC_UNCALIBRATED}.
    0 \<le> Fusion_HandleToIndex h"
  by (simp add: fused_handles_def Fusion_HandleToIndex_def index_of_def fusion_handles_def id_defs)

abbreviation "ap_known s \<equiv> only_known Fusion_HandleToIndex (mSensorReader s)"

lemma ApFusion_reportData_known:
  "0 \<le> Fusion_HandleToIndex h \<Longrightarrow> ap_known s \<Longrightarrow> ap_known (ApFusion_reportData e h d s)"
  by (simp add: ApFusion_reportData_def only_known_write no_event_def)

lemma getFusionAndReport_known:
  assumes "ap_known s"
  shows "ap_known (getFusionAndReport e lib s)"
proof -
  define step where "step = (\<lambda>h (d, s). if si_enabled (mSensorInfo s ! nat (Fusion_HandleToIndex h))
            then let d1 = fu_get lib h (ap_lib s) d in (d1, ApFusion_reportData e h d1 s) else (d, s))"
  have "\<forall>h \<in> set hs. 0 \<le> Fusion_HandleToIndex h \<Longrightarrow> ap_known (snd x) \<Longrightarrow> ap_known (snd (fold step hs x))" for hs x
  proof (induction hs arbitrary: x)
    case (Cons h hs)
    have "ap_known (snd (step h x))"
      using Cons.prems ApFusion_reportData_known [of h "snd x"] by (auto simp: step_def Let_def case_prod_beta)
    then show ?case using Cons by simp
  qed simp
  from this [of fused_handles "(no_data, s)"] show ?thesis
    using known_fused assms by (simp add: getFusionAndReport_def step_def)
qed

lemma ApFusion_setEvent_known: "ap_known s \<Longrightarrow> ap_known (snd (ApFusion_setEvent e lib st d s))"
  using known_fused
  by (simp add: ApFusion_setEvent_def Let_def getFusionAndReport_known getUncaliAccAndReport_def getUncaliGyroAndReport_def
      getUncaliMagAndReport_def getUncaliAndReport_def ApFusion_reportData_known)

lemma class_setEvent_ok: "classes_ok w \<Longrightarrow> classes_ok (snd (class_setEvent l i d w))"
  by (auto simp: class_setEvent_def Let_def result1_def classes_ok_def ApFusion_setEvent_known split: gyroscope.splits)

interpretation context_source: polled_source "context_ops (class_table l) hwGyro (int (Suc errno))" "\<lambda>p. classes_ok (pc_state p)"
  for l hwGyro errno
proof
  fix p p' :: "('a, 'b) classes polled_context" and k n evs
  assume w: "classes_ok (pc_state p)" and k: "1 \<le> k" and r: "op_poll (context_ops (class_table l) hwGyro (int (Suc errno))) k p = Some (n, evs, p')"
  obtain ps rest where "pc_polls p = ps # rest" using r by (auto simp: context_ops_def split: list.splits)
  then show "n \<le> k \<and> n \<le> int (length evs) \<and> classes_ok (pc_state p')"
    using r sensors.poll_loop_ok [OF w k, of ps l "int (Suc errno)" "pc_ready p" "[]"]
    by (auto simp: context_ops_def pollEvent_def split: polled.splits)
next
  fix p :: "('a, 'b) classes polled_context" and d k
  assume "classes_ok (pc_state p)"
  then show "classes_ok (pc_state (snd (op_setEvent (context_ops (class_table l) hwGyro (int (Suc errno))) d k p)))"
    using class_setEvent_ok [of "pc_state p" l k d]
    by (simp add: context_ops_def lift_call_def case_prod_beta setEvent_def dispatch_def class_table_def)
qed

text \<open>
  C35. Polling through the manager with the sensor classes behind it: the number the framework gets back is
  the number of events it is given, at most what it asked for and at most 128, and each is a completed flush
  or an event of a sensor that it has active. The classes stay such that the next poll does not abort.
\<close>

theorem manager_poll_delivers:
  assumes "classes_ok (pc_state (context_state m))" "distinct (mActiveConnections m)" "1 \<le> count"
    "manager_pollEvent (context_ops (class_table l) hwGyro (int (Suc errno))) count m = Some (n, out, m')"
  shows "n = int (length out) \<and> n \<le> min count 128 \<and> classes_ok (pc_state (context_state m'))
    \<and> (\<forall>d \<in> set out. \<exists>c. mNativeConnection m = Some c
       \<and> (type_of d = SENSOR_TYPE_META_DATA \<or> sensor d - ID_OFFSET \<in> set (mActiveHandles (the_connection c m))))"
  using context_source.pollEvent_good [OF assms(4) refl assms(1,3,2)] by (simp_all add: pollMaxBufferSize_def hasHandleIndexOf_def)

section \<open>Witnesses\<close>

text \<open>A sensor hub that accepts everything and reports nothing.\<close>

definition quiet_hw :: "unit hw_ops" where
  "quiet_hw = \<lparr>op_activate = (\<lambda>h en w. (0, w)), op_batch = (\<lambda>h f p t w. (0, w)), op_flush = (\<lambda>h w. (0, w)),
     op_setEvent = (\<lambda>d k w. (0, w)), op_poll = (\<lambda>k w. Some (0, [], w))\<rparr>"

text \<open>One accelerometer with a minimal delay of 10 ms.\<close>

definition one_sensor :: "(int \<times> int) list" where
  "one_sensor = [(1, 10000)]"

lemmas manager_eval = one_sensor_def quiet_hw_def addSensorsList_def newSensorManager_def call_activate_def call_batch_def manager_batch_def
  manager_activate_def actuate_def getSensorMinDelayNs_def note_active_def put_connection_def the_connection_def addActiveHandle_def
  removeActiveHandle_def put_info_def removeBatchParamsForIdent_def selectBatchParams_def enabled_requests_def numActiveClients_def
  setBatchParamsForIdent_def best_of_def better_def no_batch_def new_manager_info_def isClientDisabledLocked_def ID_OFFSET_def

theorem best_rate_of_all_clients_witness:
  "\<exists>m i. manager_run quiet_hw [Batch 1 0 20000000 0, Batch 2 0 5000000 7] (addSensorsList quiet_hw one_sensor (newSensorManager ())) = Some m
    \<and> map_of (mActivationCount m) 0 = Some i
    \<and> batchDelay (bestBatchParams i) = Min (batchDelay ` ran (map_of (batchParams i)))"
proof -
  obtain m i where r: "manager_run quiet_hw [Batch 1 0 20000000 0, Batch 2 0 5000000 7]
      (addSensorsList quiet_hw one_sensor (newSensorManager ())) = Some m"
    and i: "map_of (mActivationCount m) 0 = Some i" and ne: "batchParams i \<noteq> []"
    by (simp add: manager_eval Let_def)
  have s: "\<forall>r \<in> set [Batch 1 0 20000000 0, Batch 2 0 5000000 7]. sane r" by (simp add: sane_def)
  show ?thesis using r i best_rate_of_all_clients [OF r s i] ne by auto
qed

theorem hardware_follows_clients_witness:
  "hw_rate 0 (hw_calls (fold (client_step quiet_hw) [Start 1 0 20000000 0, Start 2 0 5000000 7, Stop 1 0]
     (addSensorsList quiet_hw one_sensor (newSensorManager ())))) = Some (10000000, 7)"
proof -
  let ?ops = "[Start 1 0 20000000 0, Start 2 0 5000000 7, Stop 1 0]"
  have W: "fold (want_step one_sensor) ?ops (\<lambda>_. Map.empty) 0 = [2 \<mapsto> (10000000, 7)]"
    by (auto simp: one_sensor_def ID_OFFSET_def)
  have "all_accepted (fold (client_step quiet_hw) ?ops (addSensorsList quiet_hw one_sensor (newSensorManager ())))"
    by (simp add: manager_eval all_accepted_def call_accepted_def Let_def)
  then show ?thesis
    using hardware_follows_clients [of _ quiet_hw ?ops one_sensor "()" _ 0] W
    by (simp add: sane_op_def one_sensor_def ID_OFFSET_def)
qed

text \<open>A manager with the framework and a direct channel, both with the accelerometer.\<close>

definition two_connections :: "'w \<Rightarrow> 'w manager" where
  "two_connections w = (newSensorManager w)
     \<lparr>connections := [(1, \<lparr>mActiveHandles = [0], mMoudle = -1\<rparr>), (2, \<lparr>mActiveHandles = [0, 1], mMoudle = -1\<rparr>)],
      mActiveConnections := [1, 2], mNativeConnection := Some 1, mDirectConnection := Some 2\<rparr>"

definition sample :: "int \<Rightarrow> int \<Rightarrow> sensors_event" where
  "sample h t = blank_event VERSION_EVENT h 1 \<lparr>timestamp := t\<rparr>"

text \<open>A context that keeps the events it is told of, and a third connection, of module 4.\<close>

definition noting_hw :: "(sensors_event \<times> int) list hw_ops" where
  "noting_hw = \<lparr>op_activate = (\<lambda>h en w. (0, w)), op_batch = (\<lambda>h f p t w. (0, w)), op_flush = (\<lambda>h w. (0, w)),
     op_setEvent = (\<lambda>d k w. (0, w @ [(d, k)])), op_poll = (\<lambda>k w. Some (0, [], w))\<rparr>"

definition three_connections :: "(sensors_event \<times> int) list manager" where
  "three_connections = (two_connections [])
     \<lparr>connections := [(1, \<lparr>mActiveHandles = [0], mMoudle = -1\<rparr>), (2, \<lparr>mActiveHandles = [0, 1], mMoudle = -1\<rparr>),
        (3, \<lparr>mActiveHandles = [2], mMoudle = 4\<rparr>)], mActiveConnections := [1, 2, 3]\<rparr>"

theorem events_reach_their_connections_witness:
  "\<exists>m'. parsePollData noting_hw [sample 1 5, sample 2 6, sample 3 7] three_connections = ([sample 1 5], m')
    \<and> direct_reports m' = [sample 1 5, sample 2 6] \<and> context_state m' = [((sample 3 7)\<lparr>sensor := 2\<rparr>, 4)]"
proof -
  obtain out m' where r: "parsePollData noting_hw [sample 1 5, sample 2 6, sample 3 7] three_connections = (out, m')" by fastforce
  have c: "the_connection 1 three_connections = \<lparr>mActiveHandles = [0], mMoudle = -1\<rparr>"
    "the_connection 2 three_connections = \<lparr>mActiveHandles = [0, 1], mMoudle = -1\<rparr>"
    "the_connection 3 three_connections = \<lparr>mActiveHandles = [2], mMoudle = 4\<rparr>"
    by (simp_all add: the_connection_def three_connections_def)
  have l: "mActiveConnections three_connections = [1, 2, 3]" "mNativeConnection three_connections = Some 1"
    "mDirectConnection three_connections = Some 2" "context_state three_connections = []" "direct_reports three_connections = []"
    by (simp_all add: three_connections_def two_connections_def newSensorManager_def)
  have t: "type_of (sample h k) = 1" "sensor (sample h k) = h" for h k by (simp_all add: sample_def blank_event_def)
  show ?thesis
    using events_reach_their_connections [OF _ l(2) _ r] r c l
    by (simp add: t module_events_def set_events_def noting_hw_def ID_OFFSET_def SENSOR_TYPE_META_DATA_def)
qed

text \<open>A sample and a completed flush wait in the accelerometer's device.\<close>

definition waiting_classes :: "(unit, unit) classes" where
  "waiting_classes = fresh_classes\<lparr>s_accel := accel_waiting, answers := [ReadEvents 32]\<rparr>"

lemma waiting_ok: "classes_ok waiting_classes"
  using fresh_classes_ok by (simp add: waiting_classes_def classes_ok_def)

lemma waiting_pending: "\<not> class_pending i waiting_classes"
  by (simp add: waiting_classes_def pending_other fresh_pending accel_waiting_def)

lemma waiting_reads:
  "\<exists>evs s'. Acceleration_readEvents still_env (ReadEvents 32) 16 accel_waiting = (2, evs, s') \<and> evs \<noteq> []
    \<and> length evs = 2 \<and> type_of (evs ! 1) = SENSOR_TYPE_META_DATA"
proof -
  let ?rd = "snd (fill (ReadEvents 32) (mSensorReader accel_waiting))"
  have c: "contents ?rd = [sample_of 7 3, flush_event ID_ACCELEROMETER]" "reader_ok ?rd"
    using fill_contents [of "mSensorReader accel_waiting" "ReadEvents 32"] new_reader_ok [of 32]
    by (simp_all add: accel_waiting_def writeEvent_def reader_ok_def contents_def available_def read_adds_def new_reader_def)
  obtain rd' where "read_loop (plain_hooks (Acceleration_processEvent still_env)) 16 ?rd accel_waiting []
     = (2, reports (Acceleration_processEvent still_env) accel_waiting [sample_of 7 3, flush_event ID_ACCELEROMETER], rd',
        fold (Acceleration_processEvent still_env) [sample_of 7 3, flush_event ID_ACCELEROMETER] accel_waiting)"
    using plain_loop [OF c(2), of 16 "Acceleration_processEvent still_env" accel_waiting "[]"] c(1)
    by (auto simp: is_reported_def sample_of_def flush_event_def no_event_def action_defs)
  then show ?thesis
    by (simp add: Acceleration_readEvents_def read_events_def is_reported_def sample_of_def flush_event_def no_event_def action_defs
        Acceleration_processEvent_def counted_complete_def flush_complete_def tick_def)
qed

lemma waiting_poll:
  "\<exists>evs r w d. pollEvent [PollReady 0 (\<lambda>i. False)] (class_table no_libs) 4 (\<lambda>i. i = accel) 16 waiting_classes = Returned 2 evs r w
    \<and> evs = [d, evs ! 1] \<and> type_of (evs ! 1) = SENSOR_TYPE_META_DATA"
proof -
  obtain d0 d1 s' where r: "Acceleration_readEvents still_env (ReadEvents 32) 16 accel_waiting = (2, [d0, d1], s')"
    "type_of d1 = SENSOR_TYPE_META_DATA"
    using waiting_reads by (auto simp: length_Suc_conv numeral_2_eq_2)
  have h: "has_data (class_table no_libs) (\<lambda>i. i = accel) waiting_classes = (\<lambda>i. i = accel)"
    by (simp add: fun_eq_iff has_data_def class_table_def waiting_pending)
  have f: "[i\<leftarrow>all_indices. i = accel] = [accel]" by (simp add: all_indices_def upt_rec accel_def)
  have c: "computeCountForEachFd (class_table no_libs) (\<lambda>i. i = accel) waiting_classes 16 = (16, 1)"
    by (simp add: computeCountForEachFd_def h f)
  obtain is' where a: "all_indices = accel # is'" by (simp add: all_indices_def upt_rec accel_def)
  have rd: "class_readEvents no_libs accel 16 waiting_classes = (2, [d0, d1], waiting_classes\<lparr>s_accel := s', answers := []\<rparr>)"
    using r by (simp add: class_readEvents_def result2_def next_answer_def waiting_classes_def no_libs_def Let_def)
  have "poll_pass all_indices (class_table no_libs) (\<lambda>i. i = accel) 16 16 1 [] waiting_classes
      = Some (14, map offset_event [d0, d1], waiting_classes\<lparr>s_accel := s', answers := []\<rparr>)"
    unfolding a using h rd by (cases is') (simp_all add: class_table_def Let_def)
  then show ?thesis using c r(2) by (simp add: pollEvent_def offset_event_def)
qed

theorem manager_poll_delivers_witness:
  "\<exists>n out m'. manager_pollEvent (context_ops (class_table no_libs) True (int (Suc 3))) 16
      (two_connections \<lparr>pc_state = waiting_classes, pc_ready = (\<lambda>i. i = accel), pc_polls = [[PollReady 0 (\<lambda>i. False)]]\<rparr>) = Some (n, out, m')
    \<and> n = int (length out) \<and> out \<noteq> [] \<and> classes_ok (pc_state (context_state m'))"
proof -
  let ?m = "two_connections \<lparr>pc_state = waiting_classes, pc_ready = (\<lambda>i. i = accel), pc_polls = [[PollReady 0 (\<lambda>i. False)]]\<rparr>"
  let ?hw = "context_ops (class_table no_libs) True (int (Suc 3))"
  have st: "context_state ?m = \<lparr>pc_state = waiting_classes, pc_ready = (\<lambda>i. i = accel), pc_polls = [[PollReady 0 (\<lambda>i. False)]]\<rparr>"
    "distinct (mActiveConnections ?m)" "mNativeConnection ?m = Some 1" "1 \<in> set (mActiveConnections ?m)"
    by (simp_all add: two_connections_def newSensorManager_def)
  obtain d1 d2 r w where p: "pollEvent [PollReady 0 (\<lambda>i. False)] (class_table no_libs) 4 (\<lambda>i. i = accel) 16 waiting_classes
      = Returned 2 [d1, d2] r w" "type_of d2 = SENSOR_TYPE_META_DATA"
    using waiting_poll by (metis nth_Cons_0 nth_Cons_Suc One_nat_def)
  let ?m1 = "?m\<lparr>context_state := \<lparr>pc_state = w, pc_ready = r, pc_polls = []\<rparr>\<rparr>"
  obtain out m2 where o: "parsePollData ?hw [d1, d2] ?m1 = (out, m2)" by fastforce
  have "out \<noteq> []"
    using hand_all(1) [OF st(2), of ?hw "[d1, d2]" "[]" ?m1] o p(2) st(3,4) by (auto simp: parsePollData_def native_events_def)
  then have "manager_pollEvent ?hw 16 ?m = Some (int (length out), out, m2)"
    using o p by (subst manager_pollEvent.simps) (simp add: st context_ops_def pollMaxBufferSize_def)
  then show ?thesis
    using manager_poll_delivers [of ?m 16 no_libs True 3] st waiting_ok \<open>out \<noteq> []\<close> by auto
qed

section \<open>A deviation\<close>

text \<open>
  When two clients ask for a rate before either starts the sensor, the first start sees two requests and
  leaves the switching on to the other, and so does the second: the hardware stays off.
\<close>

lemma two_batches_never_on:
  "\<exists>m. manager_run quiet_hw [Batch 1 0 20000000 0, Batch 2 0 20000000 0, Activate 1 0 True, Activate 2 0 True]
      (addSensorsList quiet_hw one_sensor (newSensorManager ())) = Some m
    \<and> hw_calls m = [HwActivate 0 False 0, HwBatch 0 20000000 0 0]"
  by (simp add: manager_eval Let_def)

text \<open>
  Starting a fused sensor again counts its sources once more; stopping it once then leaves them on.
\<close>

lemma selectBest_kept [simp]:
  "mSensorInfo (selectBestSampleLatency s) = mSensorInfo s" "accEnabledCount (selectBestSampleLatency s) = accEnabledCount s"
  by (simp_all add: selectBestSampleLatency_def Let_def)

lemma subscribe_kept [simp]:
  "mSensorInfo (subscribe h d n s) = mSensorInfo s" "accEnabledCount (subscribe h d n s) = accEnabledCount s"
  by (simp_all add: subscribe_def did_def Let_def)

lemma unsubscribe_kept [simp]:
  "mSensorInfo (snd (unsubscribe h d n s)) = mSensorInfo s" "accEnabledCount (snd (unsubscribe h d n s)) = accEnabledCount s"
  "1 \<le> n \<Longrightarrow> fst (unsubscribe h d n s) = n - 1"
  by (simp_all add: unsubscribe_def did_def Let_def)

lemma turn_on_counts:
  assumes "useAccData (mSensorInfo s ! i)" "i < length (mSensorInfo s)"
  shows "accEnabledCount (ap_turn_on i s) = accEnabledCount s + 1" "useAccData (mSensorInfo (ap_turn_on i s) ! i)"
    "length (mSensorInfo (ap_turn_on i s)) = length (mSensorInfo s)"
  using assms by (simp_all add: ap_turn_on_def Let_def)

lemma turn_off_counts:
  assumes "useAccData (mSensorInfo s ! i)" "1 \<le> accEnabledCount s"
  shows "accEnabledCount (ap_turn_off i s) = accEnabledCount s - 1"
  using assms by (simp add: ap_turn_off_def Let_def case_prod_beta)

lemma restart_keeps_source_on:
  assumes "useAccData (mSensorInfo s ! i)" "i < length (mSensorInfo s)" "accEnabledCount s = 0"
  shows "accEnabledCount (ap_turn_off i (ap_turn_on i (ap_turn_on i s))) = 1"
  using turn_off_counts [of "ap_turn_on i (ap_turn_on i s)" i] turn_on_counts [of "ap_turn_on i s" i] turn_on_counts [of s i] assms
  by simp

end
