(* ===== verification/FdLeak.thy ===== *)
theory FdLeak
  imports UbrdSafe CLib
begin

text \<open>
  \<open>src/proprietary/external/libudf/fdleak_debug/fdleak_debug.cpp\<close>: the debugger of leaked file
  descriptors, 32-bit build without MTK_USE_RESERVED_EXT_MEM. It wraps the functions of the C library that
  open and close descriptors, keeps for every descriptor from a threshold on the back trace that opened it,
  with one entry for the descriptors of a trace, and raises an exception with the trace that holds most
  descriptors when they run out. \<open>None\<close> is a fault: a bad pointer, an index before the table, the mutex
  taken twice, \<open>abort\<close>. Parameters: the C library, the unwinder, the heap, the exception library.
\<close>

section \<open>State\<close>

definition FD_BACKTRACE_SIZE :: nat where "FD_BACKTRACE_SIZE = 10"
definition FD_RECORD_THD :: int where "FD_RECORD_THD = 256"
definition FD_TABLE_SIZE :: int where "FD_TABLE_SIZE = 1000"
definition FD_MAX_SIZE :: nat where "FD_MAX_SIZE = 1024"
definition FD_BIT_MAP_SIZE :: nat where "FD_BIT_MAP_SIZE = FD_MAX_SIZE div 4"
definition FD_HASH_TABLE_SIZE :: nat where "FD_HASH_TABLE_SIZE = 10"

text \<open>\<open>FdBtEntry\<close>; its size without the trace is that of six words and the bit map.\<close>

record fd_entry =
  fe_slot :: nat
  fe_allocations :: u32
  fe_prev :: u32
  fe_next :: u32
  fe_numEntries :: nat
  fe_fd_bit :: u32
  fe_fd_bit_map :: "nat \<Rightarrow> u32"
  fe_backtrace :: "u32 list"

definition sizeof_FdBtEntry :: nat where "sizeof_FdBtEntry = 4 * (6 + FD_BIT_MAP_SIZE)"

text \<open>\<open>FDBACKTRACETable\<close>: one element of the table.\<close>

record fd_slot =
  fs_flag :: u32
  fs_pbtentry :: u32

datatype fd_sym = S_fdsanclose | S_openat | S_pipe2 | S_socket | S_accept4 | S_socketpair | S_dup | S_dup3
  | S_fcntl | S_eventfd | S_epoll_create1

text \<open>What is logged: a trace (true: of an opened descriptor), the text of an exception.\<close>

datatype fd_report = BtLog bool int string | SystemException string

text \<open>
  The static variables. The two tables are their base addresses and their contents. The mutex is its depth
  and whether it is recursive. The disable flag is the one of the calling thread, \<open>disable_key\<close> whether its
  key was created: without, it reads as \<open>NULL\<close> and cannot be set. \<open>fd_atfork\<close>: the fork handlers are
  registered.
\<close>

record fdleak =
  gFDBtMspace :: u32
  gFDMspace :: u32
  gFDMspaceBackup :: u32
  gPFDBACKTRACETable :: u32
  fd_slots :: "nat \<Rightarrow> fd_slot"
  gPFDBtEntryTable :: u32
  gPMaxFdBtEntry :: u32
  pbtentry_list :: "nat \<Rightarrow> u32"
  fd_entries :: "u32 \<Rightarrow> fd_entry option"
  gFDLeakMutex :: nat
  mutex_recursive :: bool
  fd_record_thd :: int
  rlimit_flag :: bool
  aee_flag :: bool
  fd_bt2log :: int
  disable_key :: bool
  disable_flag :: bool
  fdleak_libc_handle :: bool
  real_fd :: "fd_sym \<Rightarrow> bool"
  fd_atfork :: bool
  fdleak_inti_flag :: bool
  fdleak_init_error_msg :: string
  fd_log :: "fd_report list"

definition fdleak_start :: fdleak where
  "fdleak_start = \<lparr>gFDBtMspace = 0, gFDMspace = 0, gFDMspaceBackup = 0, gPFDBACKTRACETable = 0,
     fd_slots = (\<lambda>_. \<lparr>fs_flag = 0, fs_pbtentry = 0\<rparr>), gPFDBtEntryTable = 0, gPMaxFdBtEntry = 0,
     pbtentry_list = (\<lambda>_. 0), fd_entries = Map.empty, gFDLeakMutex = 0, mutex_recursive = False,
     fd_record_thd = FD_RECORD_THD, rlimit_flag = False, aee_flag = False, fd_bt2log = 0,
     disable_key = False, disable_flag = False, fdleak_libc_handle = False, real_fd = (\<lambda>_. False),
     fd_atfork = False, fdleak_inti_flag = False, fdleak_init_error_msg = [], fd_log = []\<rparr>"

definition fd_live :: "fdleak \<Rightarrow> u32 set" where
  "fd_live d = dom (fd_entries d) \<union> {gPFDBACKTRACETable d, gPFDBtEntryTable d}"

text \<open>
  What a call relies on: the heap, the \<open>k\<close>-th trace that is taken during the call, the words in memory
  behind an entry, \<open>getrlimit\<close>, the pc relative to its file, the path of the program, and the exception
  library (\<open>None\<close>: it cannot be loaded, \<open>Some None\<close>: it lacks the function).
\<close>

record fd_env =
  ev_malloc :: "u32 set \<Rightarrow> nat \<Rightarrow> u32"
  ev_trace :: "nat \<Rightarrow> u32 list"
  ev_behind :: "u32 \<Rightarrow> nat \<Rightarrow> u32"
  ev_getrlimit :: bool
  ev_relpc :: "u32 \<Rightarrow> u32"
  ev_exe :: "string option"
  ev_aee :: "string \<Rightarrow> (string \<Rightarrow> int) option option"

section \<open>The lists of entries\<close>

definition unlink_entry :: "u32 \<Rightarrow> fdleak \<Rightarrow> fdleak option" where
  "unlink_entry p d = do {
     e \<leftarrow> fd_entries d p;
     (if fe_prev e = 0 then
        let d1 = d\<lparr>pbtentry_list := (pbtentry_list d)(fe_slot e := fe_next e)\<rparr>
        in if fe_slot e \<ge> FD_HASH_TABLE_SIZE then None
           else if fe_next e \<noteq> 0 then do {
             h \<leftarrow> store (fd_entries d1) (fe_next e) (fe_prev_update (\<lambda>_. 0));
             Some (d1\<lparr>fd_entries := h\<rparr>) }
           else Some d1
      else if fe_next e = 0 then do {
        h \<leftarrow> store (fd_entries d) (fe_prev e) (fe_next_update (\<lambda>_. 0));
        Some (d\<lparr>fd_entries := h\<rparr>) }
      else do {
        h1 \<leftarrow> store (fd_entries d) (fe_prev e) (fe_next_update (\<lambda>_. fe_next e));
        h2 \<leftarrow> store h1 (fe_next e) (fe_prev_update (\<lambda>_. fe_prev e));
        Some (d\<lparr>fd_entries := h2\<rparr>) })
   }"

definition insert_entry :: "u32 \<Rightarrow> nat \<Rightarrow> fdleak \<Rightarrow> fdleak option" where
  "insert_entry p slot d = do {
     h1 \<leftarrow> store (fd_entries d) p (fe_prev_update (\<lambda>_. 0));
     h3 \<leftarrow> (if pbtentry_list d slot = 0 then store h1 p (fe_next_update (\<lambda>_. 0))
            else do {
              h2 \<leftarrow> store h1 (pbtentry_list d slot) (fe_prev_update (\<lambda>_. p));
              store h2 p (fe_next_update (\<lambda>_. pbtentry_list d slot)) });
     Some (d\<lparr>fd_entries := h3, pbtentry_list := (pbtentry_list d)(slot := p)\<rparr>)
   }"

text \<open>
  The comparison takes as many words as the new trace has, whatever the entry holds: behind a shorter trace
  it reads on. Its loop is that of the recorder (\<open>descend_memcmp\<close>), from the last byte down.
\<close>

definition fd_words :: "(u32 \<Rightarrow> nat \<Rightarrow> u32) \<Rightarrow> u32 \<Rightarrow> fd_entry \<Rightarrow> nat \<Rightarrow> u32 list" where
  "fd_words behind p e n = take n (fe_backtrace e @ map (behind p) [0..<n])"

definition fd_matches :: "(u32 \<Rightarrow> nat \<Rightarrow> u32) \<Rightarrow> u32 list \<Rightarrow> u32 \<Rightarrow> fd_entry \<Rightarrow> bool" where
  "fd_matches behind bt p e \<longleftrightarrow>
     descend_memcmp (bt_bytes bt) (bt_bytes (fd_words behind p e (length bt))) (length bt * 4) 0 = 0"

partial_function (option) search_entry ::
    "(u32 \<Rightarrow> fd_entry option) \<Rightarrow> (u32 \<Rightarrow> nat \<Rightarrow> u32) \<Rightarrow> u32 list \<Rightarrow> u32 \<Rightarrow> u32 option" where
  "search_entry h behind bt entry =
     (if entry = 0 then Some 0
      else do {
        e \<leftarrow> h entry;
        (if fd_matches behind bt entry e then Some entry
         else search_entry h behind bt (fe_next e))
      })"

definition fd_find_entry :: "fdleak \<Rightarrow> (u32 \<Rightarrow> nat \<Rightarrow> u32) \<Rightarrow> u32 list \<Rightarrow> nat \<Rightarrow> u32 option" where
  "fd_find_entry d behind bt slot = search_entry (fd_entries d) behind bt (pbtentry_list d slot)"

section \<open>Recording and removing a descriptor\<close>

text \<open>Element \<open>fd\<close> of the table: before its start or without a table there is none.\<close>

definition fd_slot_at :: "fdleak \<Rightarrow> int \<Rightarrow> nat option" where
  "fd_slot_at d fd = (if gPFDBACKTRACETable d = 0 \<or> fd < 0 \<or> int FD_MAX_SIZE \<le> fd then None else Some (nat fd))"

definition put_slot :: "nat \<Rightarrow> fd_slot \<Rightarrow> fdleak \<Rightarrow> fdleak" where
  "put_slot i s d = d\<lparr>fd_slots := (fd_slots d)(i := s)\<rparr>"

definition fd_mask :: "nat \<Rightarrow> u32" where
  "fd_mask i = push_bit (i mod 32) 1"

definition fd_word_mask :: "nat \<Rightarrow> u32" where
  "fd_word_mask i = push_bit (i div 32) 1"

definition mark_fd :: "nat \<Rightarrow> fd_entry \<Rightarrow> fd_entry" where
  "mark_fd i e = e\<lparr>fe_fd_bit := fe_fd_bit e OR fd_word_mask i,
     fe_fd_bit_map := (fe_fd_bit_map e)(i div 32 := fe_fd_bit_map e (i div 32) OR fd_mask i)\<rparr>"

definition unmark_fd :: "nat \<Rightarrow> fd_entry \<Rightarrow> fd_entry" where
  "unmark_fd i e =
     (let m = fe_fd_bit_map e (i div 32) AND NOT (fd_mask i);
          e1 = e\<lparr>fe_fd_bit_map := (fe_fd_bit_map e)(i div 32 := m)\<rparr>
      in if m = 0 then e1\<lparr>fe_fd_bit := fe_fd_bit e1 AND NOT (fd_word_mask i)\<rparr> else e1)"

text \<open>An entry loses a descriptor; the last one takes the entry with it.\<close>

definition drop_allocation :: "u32 \<Rightarrow> fdleak \<Rightarrow> (bool \<times> fdleak) option" where
  "drop_allocation p d = do {
     h \<leftarrow> store (fd_entries d) p (\<lambda>e. e\<lparr>fe_allocations := fe_allocations e - 1\<rparr>);
     e \<leftarrow> h p;
     (if fe_allocations e \<le> 0 then do {
        d1 \<leftarrow> unlink_entry p (d\<lparr>fd_entries := h\<rparr>);
        let d2 = (if p = gPMaxFdBtEntry d1 then d1\<lparr>gPMaxFdBtEntry := 0\<rparr> else d1);
        h2 \<leftarrow> free_block (fd_entries d2) p;
        Some (True, d2\<lparr>fd_entries := h2\<rparr>) }
      else Some (False, d\<lparr>fd_entries := h\<rparr>))
   }"

text \<open>What a slot still refers to when its descriptor is recorded again (it was closed unseen).\<close>

definition release_old :: "nat \<Rightarrow> fdleak \<Rightarrow> fdleak option" where
  "release_old i d =
     (let s = fd_slots d i in
      if fs_flag s \<noteq> 0 \<and> fs_pbtentry s \<noteq> 0 then do {
        (freed, d1) \<leftarrow> drop_allocation (fs_pbtentry s) d;
        Some (if freed then put_slot i (s\<lparr>fs_pbtentry := 0\<rparr>) d1 else d1) }
      else Some d)"

definition new_entry :: "nat \<Rightarrow> u32 list \<Rightarrow> nat \<Rightarrow> fd_entry" where
  "new_entry slot bt i = mark_fd i
     \<lparr>fe_slot = slot, fe_allocations = 1, fe_prev = 0, fe_next = 0, fe_numEntries = length bt,
      fe_fd_bit = 0, fe_fd_bit_map = (\<lambda>_. 0), fe_backtrace = bt\<rparr>"

definition note_max :: "u32 \<Rightarrow> fd_entry \<Rightarrow> fdleak \<Rightarrow> fdleak option" where
  "note_max p e d =
     (if gPMaxFdBtEntry d = 0 then Some (d\<lparr>gPMaxFdBtEntry := p\<rparr>)
      else do {
        b \<leftarrow> fd_entries d (gPMaxFdBtEntry d);
        Some (if fe_allocations b < fe_allocations e then d\<lparr>gPMaxFdBtEntry := p\<rparr> else d) })"

definition record_fd_info :: "fd_env \<Rightarrow> u32 list \<Rightarrow> int \<Rightarrow> fdleak \<Rightarrow> fdleak option" where
  "record_fd_info ev bt fd d = do {
     i \<leftarrow> fd_slot_at d fd;
     d1 \<leftarrow> release_old i d;
     let d2 = put_slot i ((fd_slots d1 i)\<lparr>fs_flag := 1\<rparr>) d1;
     (if length bt \<le> 0 then Some (put_slot i ((fd_slots d2 i)\<lparr>fs_pbtentry := 0\<rparr>) d2)
      else
        let slot = unat (get_hash 0 bt) mod FD_HASH_TABLE_SIZE in do {
          p \<leftarrow> fd_find_entry d2 (ev_behind ev) bt slot;
          (if p \<noteq> 0 then do {
             h \<leftarrow> store (fd_entries d2) p (\<lambda>e. e\<lparr>fe_allocations := fe_allocations e + 1\<rparr>);
             e \<leftarrow> h p;
             (if fe_allocations e \<ge> 1024 then None
              else do {
                h2 \<leftarrow> store h p (mark_fd i);
                d3 \<leftarrow> note_max p e (d2\<lparr>fd_entries := h2\<rparr>);
                Some (put_slot i ((fd_slots d3 i)\<lparr>fs_pbtentry := p\<rparr>) d3) }) }
           else if gFDMspace d2 = 0 then Some d2
           else
             let n = ev_malloc ev (fd_live d2) (sizeof_FdBtEntry + length bt * 4) in
             if n = 0 then Some (put_slot i ((fd_slots d2 i)\<lparr>fs_pbtentry := 0\<rparr>) d2)
             else do {
               d3 \<leftarrow> insert_entry n slot (d2\<lparr>fd_entries := (fd_entries d2)(n \<mapsto> new_entry slot bt i)\<rparr>);
               Some (put_slot i ((fd_slots d3 i)\<lparr>fs_pbtentry := n\<rparr>) d3) }) })
   }"

definition remove_fd_info :: "int \<Rightarrow> fdleak \<Rightarrow> fdleak option" where
  "remove_fd_info fd d = do {
     i \<leftarrow> fd_slot_at d fd;
     (if fs_flag (fd_slots d i) = 0 then Some d
      else
        let d1 = put_slot i ((fd_slots d i)\<lparr>fs_flag := 0\<rparr>) d;
            p = fs_pbtentry (fd_slots d1 i)
        in if p = 0 then Some d1
           else do {
             h \<leftarrow> store (fd_entries d1) p (unmark_fd i);
             (freed, d2) \<leftarrow> drop_allocation p (d1\<lparr>fd_entries := h\<rparr>);
             Some (put_slot i ((fd_slots d2 i)\<lparr>fs_pbtentry := 0\<rparr>) d2) })
   }"

section \<open>Reports\<close>

definition hex_nat :: "u32 \<Rightarrow> string" where
  "hex_nat w = (let ds = dropWhile (\<lambda>x. x = 0) (hex_digits 8 (unat w)) in map lower_digit (if ds = [] then [0] else ds))"

definition print_p :: "u32 \<Rightarrow> string" where
  "print_p w = ''0x'' @ hex_nat w"

definition strlcat :: "string \<Rightarrow> string \<Rightarrow> nat \<Rightarrow> string" where
  "strlcat dst src sz = (if length dst < sz then dst @ take (sz - length dst - 1) src else dst)"

definition dump_bt2log :: "u32 list \<Rightarrow> int \<Rightarrow> bool \<Rightarrow> fdleak \<Rightarrow> fdleak" where
  "dump_bt2log bt fd alloc d =
     (let line = (\<lambda>(i, pc). take 31 (dec_nat i @ '': '' @ print_p pc @ ''\<newline>''));
          tmp = fold (\<lambda>x t. strlcat t (line x) (32 * FD_BACKTRACE_SIZE)) (enumerate 0 bt) []
      in d\<lparr>fd_log := fd_log d @ [BtLog alloc fd tmp]\<rparr>)"

text \<open>
  \<open>ev_exe\<close> is the buffer after \<open>readlink\<close>. Without the library or its function the code writes to address 0
  on purpose, when the exception cannot be raised it aborts.
\<close>

definition fdleak_aee_system_exception :: "fd_env \<Rightarrow> string \<Rightarrow> fdleak \<Rightarrow> fdleak option" where
  "fdleak_aee_system_exception ev message d = do {
     exe \<leftarrow> ev_exe ev;
     func \<leftarrow> ev_aee ev (if strncmp_eq ''/vendor/'' exe 8 then ''libaedv.so'' else ''libaed.so'');
     raise_aee \<leftarrow> func;
     (if raise_aee message = -1 then None else Some (d\<lparr>fd_log := fd_log d @ [SystemException message]\<rparr>))
   }"

definition exception_text :: "fd_env \<Rightarrow> fd_entry \<Rightarrow> string" where
  "exception_text ev e =
     (let sz = 64 * (FD_BACKTRACE_SIZE + 1);
          first = take 63 (''Max fd_bt backtrace use '' @ dec_nat (unat (fe_allocations e)) @ '' fd\<newline>'');
          line = (\<lambda>(i, pc). take 63 (''  #0'' @ dec_nat i @ '' fd '' @ print_p pc @ '' '' @ print_p (ev_relpc ev pc) @ ''\<newline>''))
      in fold (\<lambda>x t. strlcat t (line x) sz) (enumerate 0 (take (fe_numEntries e) (fe_backtrace e))) (strlcat [] first sz))"

section \<open>Recording and removing under the mutex\<close>

definition fd_lock :: "fdleak \<Rightarrow> fdleak option" where
  "fd_lock d = (if gFDLeakMutex d = 0 \<or> mutex_recursive d then Some (d\<lparr>gFDLeakMutex := gFDLeakMutex d + 1\<rparr>) else None)"

definition fd_unlock :: "fdleak \<Rightarrow> fdleak" where
  "fd_unlock d = d\<lparr>gFDLeakMutex := gFDLeakMutex d - 1\<rparr>"

definition fdleak_record_backtrace :: "fd_env \<Rightarrow> nat \<Rightarrow> int \<Rightarrow> fdleak \<Rightarrow> fdleak option" where
  "fdleak_record_backtrace ev k fd d =
     (if gFDMspace d \<noteq> 0 \<and> fd_record_thd d \<le> fd \<and> fd < FD_TABLE_SIZE then
        let bt = ev_trace ev k in do {
          d1 \<leftarrow> fd_lock d;
          d2 \<leftarrow> record_fd_info ev bt fd d1;
          let d3 = fd_unlock d2;
          Some (if fd_bt2log d3 \<noteq> 0 \<and> 0 < length bt then dump_bt2log bt fd True d3 else d3) }
      else if gFDMspace d \<noteq> 0 \<and> FD_TABLE_SIZE \<le> fd then
        if \<not> rlimit_flag d then Some (if ev_getrlimit ev then d\<lparr>rlimit_flag := True\<rparr> else d)
        else if 1024 \<le> fd \<and> \<not> aee_flag d then
          let d1 = d\<lparr>aee_flag := True\<rparr> in
          if gPFDBtEntryTable d1 = 0 then None
          else if gPMaxFdBtEntry d1 = 0 then Some d1
          else do {
            e \<leftarrow> fd_entries d1 (gPMaxFdBtEntry d1);
            fdleak_aee_system_exception ev (exception_text ev e) d1 }
        else Some d
      else Some d)"

definition fdleak_remove_backtrace :: "fd_env \<Rightarrow> nat \<Rightarrow> int \<Rightarrow> fdleak \<Rightarrow> fdleak option" where
  "fdleak_remove_backtrace ev k fd d =
     (if gFDMspace d \<noteq> 0 \<and> fd_record_thd d \<le> fd \<and> fd < FD_TABLE_SIZE then do {
        d1 \<leftarrow> fd_lock d;
        d2 \<leftarrow> remove_fd_info fd d1;
        let d3 = fd_unlock d2;
        Some (if fd_bt2log d3 \<noteq> 0 \<and> 0 < length (ev_trace ev k) then dump_bt2log (ev_trace ev k) fd False d3 else d3) }
      else Some d)"

section \<open>The switch of the calling thread\<close>

definition DisableDebugCalls :: "fdleak \<Rightarrow> bool" where
  "DisableDebugCalls d \<longleftrightarrow> disable_key d \<and> disable_flag d"

definition SetDebugDisable :: "bool \<Rightarrow> fdleak \<Rightarrow> fdleak" where
  "SetDebugDisable b d = (if disable_key d then d\<lparr>disable_flag := b\<rparr> else d)"

text \<open>\<open>ScopedDisableDebug\<close>: constructor, the rest of the scope, destructor.\<close>

definition scoped_disable :: "(fdleak \<Rightarrow> fdleak option) \<Rightarrow> fdleak \<Rightarrow> fdleak option" where
  "scoped_disable body d =
     (let disabled = DisableDebugCalls d; d1 = (if \<not> disabled then SetDebugDisable True d else d)
      in do { d2 \<leftarrow> body d1; Some (if \<not> disabled then SetDebugDisable False d2 else d2) })"

definition fdleak_record_backtrace_safe :: "fd_env \<Rightarrow> int \<Rightarrow> fdleak \<Rightarrow> fdleak option" where
  "fdleak_record_backtrace_safe ev fd d = scoped_disable (fdleak_record_backtrace ev 0 fd) d"

section \<open>The wrappers\<close>

text \<open>The C library: which functions \<open>dlsym\<close> finds in it, and the functions.\<close>

record fd_libc =
  lc_handle :: bool
  lc_has :: "fd_sym \<Rightarrow> bool"
  lc_fdsanclose :: "int \<Rightarrow> u64 \<Rightarrow> int"
  lc_openat :: "int \<Rightarrow> string \<Rightarrow> int \<Rightarrow> int \<Rightarrow> int"
  lc_pipe2 :: "int \<Rightarrow> int \<times> int \<times> int"
  lc_socket :: "int \<Rightarrow> int \<Rightarrow> int \<Rightarrow> int"
  lc_accept4 :: "int \<Rightarrow> u32 \<Rightarrow> u32 \<Rightarrow> int \<Rightarrow> int"
  lc_socketpair :: "int \<Rightarrow> int \<Rightarrow> int \<Rightarrow> int \<times> int \<times> int"
  lc_dup :: "int \<Rightarrow> int"
  lc_dup3 :: "int \<Rightarrow> int \<Rightarrow> int \<Rightarrow> int"
  lc_fcntl :: "int \<Rightarrow> int \<Rightarrow> u32 \<Rightarrow> int"
  lc_eventfd :: "u32 \<Rightarrow> int \<Rightarrow> int"
  lc_epoll_create1 :: "int \<Rightarrow> int"

definition fd_func_rehook :: "fd_libc \<Rightarrow> fdleak \<Rightarrow> fdleak" where
  "fd_func_rehook lc d =
     (if \<not> fdleak_libc_handle d \<and> \<not> lc_handle lc then d
      else d\<lparr>fdleak_libc_handle := True, real_fd := (\<lambda>s. real_fd d s \<or> lc_has lc s)\<rparr>)"

text \<open>A function pointer, bound when it is not yet; calling \<open>NULL\<close> is a fault.\<close>

definition hooked :: "fd_libc \<Rightarrow> fd_sym \<Rightarrow> fdleak \<Rightarrow> fdleak option" where
  "hooked lc s d =
     (let d1 = (if \<not> real_fd d s then fd_func_rehook lc d else d)
      in if real_fd d1 s then Some d1 else None)"

text \<open>What the wrappers do with a descriptor they got: nothing on a thread that is switched off.\<close>

definition record_result :: "fd_env \<Rightarrow> int \<Rightarrow> fdleak \<Rightarrow> (int \<times> fdleak) option" where
  "record_result ev fd d =
     (if DisableDebugCalls d then Some (fd, d)
      else do { d1 \<leftarrow> scoped_disable (fdleak_record_backtrace ev 0 fd) d; Some (fd, d1) })"

definition android_fdsan_close_with_tag :: "fd_libc \<Rightarrow> fd_env \<Rightarrow> int \<Rightarrow> u64 \<Rightarrow> fdleak \<Rightarrow> (int \<times> fdleak) option" where
  "android_fdsan_close_with_tag lc ev fd tag d =
     (if DisableDebugCalls d then do { d1 \<leftarrow> hooked lc S_fdsanclose d; Some (lc_fdsanclose lc fd tag, d1) }
      else do {
        d1 \<leftarrow> scoped_disable (\<lambda>d. do { d1 \<leftarrow> fdleak_remove_backtrace ev 0 fd d; hooked lc S_fdsanclose d1 }) d;
        Some (lc_fdsanclose lc fd tag, d1) })"

definition wrap_openat :: "fd_libc \<Rightarrow> fd_env \<Rightarrow> int \<Rightarrow> string \<Rightarrow> int \<Rightarrow> int \<Rightarrow> fdleak \<Rightarrow> (int \<times> fdleak) option" where
  "wrap_openat lc ev dirfd pathname flags mode d = do {
     d1 \<leftarrow> hooked lc S_openat d;
     record_result ev (lc_openat lc dirfd pathname flags mode) d1 }"

text \<open>\<open>pipe2\<close> and \<open>socketpair\<close>: the result, and the two descriptors the array holds afterwards.\<close>

definition record_pair :: "fd_env \<Rightarrow> int \<times> int \<times> int \<Rightarrow> fdleak \<Rightarrow> ((int \<times> int \<times> int) \<times> fdleak) option" where
  "record_pair ev r d =
     (case r of (ret, a, b) \<Rightarrow>
        if DisableDebugCalls d then Some (r, d)
        else do {
          d1 \<leftarrow> scoped_disable (\<lambda>d.
            if ret = 0 then do {
              d1 \<leftarrow> fdleak_record_backtrace ev 0 a d;
              fdleak_record_backtrace ev 1 b d1 }
            else Some d) d;
          Some (r, d1) })"

definition wrap_pipe2 :: "fd_libc \<Rightarrow> fd_env \<Rightarrow> int \<Rightarrow> fdleak \<Rightarrow> ((int \<times> int \<times> int) \<times> fdleak) option" where
  "wrap_pipe2 lc ev flag d = do { d1 \<leftarrow> hooked lc S_pipe2 d; record_pair ev (lc_pipe2 lc flag) d1 }"

definition wrap_socket :: "fd_libc \<Rightarrow> fd_env \<Rightarrow> int \<Rightarrow> int \<Rightarrow> int \<Rightarrow> fdleak \<Rightarrow> (int \<times> fdleak) option" where
  "wrap_socket lc ev domain type protocol d = do {
     d1 \<leftarrow> hooked lc S_socket d; record_result ev (lc_socket lc domain type protocol) d1 }"

definition wrap_accept4 :: "fd_libc \<Rightarrow> fd_env \<Rightarrow> int \<Rightarrow> u32 \<Rightarrow> u32 \<Rightarrow> int \<Rightarrow> fdleak \<Rightarrow> (int \<times> fdleak) option" where
  "wrap_accept4 lc ev serverfd addr addrlen flags d = do {
     d1 \<leftarrow> hooked lc S_accept4 d; record_result ev (lc_accept4 lc serverfd addr addrlen flags) d1 }"

definition wrap_socketpair :: "fd_libc \<Rightarrow> fd_env \<Rightarrow> int \<Rightarrow> int \<Rightarrow> int \<Rightarrow> fdleak \<Rightarrow> ((int \<times> int \<times> int) \<times> fdleak) option" where
  "wrap_socketpair lc ev domain type protocol d = do {
     d1 \<leftarrow> hooked lc S_socketpair d; record_pair ev (lc_socketpair lc domain type protocol) d1 }"

definition wrap_dup :: "fd_libc \<Rightarrow> fd_env \<Rightarrow> int \<Rightarrow> fdleak \<Rightarrow> (int \<times> fdleak) option" where
  "wrap_dup lc ev oldfd d = do { d1 \<leftarrow> hooked lc S_dup d; record_result ev (lc_dup lc oldfd) d1 }"

text \<open>The target is removed before the call, whether it succeeds, and on a thread that is switched off too.\<close>

definition wrap_dup3 :: "fd_libc \<Rightarrow> fd_env \<Rightarrow> int \<Rightarrow> int \<Rightarrow> int \<Rightarrow> fdleak \<Rightarrow> (int \<times> fdleak) option" where
  "wrap_dup3 lc ev oldfd targetfd flags d = do {
     d1 \<leftarrow> hooked lc S_dup3 d;
     d2 \<leftarrow> fdleak_remove_backtrace ev 1 targetfd d1;
     record_result ev (lc_dup3 lc oldfd targetfd flags) d2 }"

definition F_DUPFD :: int where "F_DUPFD = 0"
definition F_DUPFD_CLOEXEC :: int where "F_DUPFD_CLOEXEC = 1030"

definition wrap_fcntl :: "fd_libc \<Rightarrow> fd_env \<Rightarrow> int \<Rightarrow> int \<Rightarrow> u32 \<Rightarrow> fdleak \<Rightarrow> (int \<times> fdleak) option" where
  "wrap_fcntl lc ev fd cmd arg d = do {
     d1 \<leftarrow> hooked lc S_fcntl d;
     let ret = lc_fcntl lc fd cmd arg;
     (if DisableDebugCalls d1 then Some (ret, d1)
      else do {
        d2 \<leftarrow> scoped_disable (\<lambda>d. if cmd = F_DUPFD \<or> cmd = F_DUPFD_CLOEXEC then fdleak_record_backtrace ev 0 ret d
                                 else Some d) d1;
        Some (ret, d2) }) }"

definition wrap_eventfd :: "fd_libc \<Rightarrow> fd_env \<Rightarrow> u32 \<Rightarrow> int \<Rightarrow> fdleak \<Rightarrow> (int \<times> fdleak) option" where
  "wrap_eventfd lc ev initval flags d = do {
     d1 \<leftarrow> hooked lc S_eventfd d; record_result ev (lc_eventfd lc initval flags) d1 }"

definition wrap_epoll_create1 :: "fd_libc \<Rightarrow> fd_env \<Rightarrow> int \<Rightarrow> fdleak \<Rightarrow> (int \<times> fdleak) option" where
  "wrap_epoll_create1 lc ev flags d = do {
     d1 \<leftarrow> hooked lc S_epoll_create1 d; record_result ev (lc_epoll_create1 lc flags) d1 }"

section \<open>Fork\<close>

definition fdleak_debug_prepare :: "fdleak \<Rightarrow> fdleak option" where
  "fdleak_debug_prepare d = do {
     d1 \<leftarrow> fd_lock d;
     Some (d1\<lparr>gFDMspaceBackup := gFDMspace d1, gFDMspace := 0\<rparr>) }"

definition fdleak_debug_parent :: "fdleak \<Rightarrow> fdleak" where
  "fdleak_debug_parent d = fd_unlock (d\<lparr>gFDMspace := gFDMspaceBackup d\<rparr>)"

text \<open>The child's mutex is made anew, as a recursive one.\<close>

definition fdleak_debug_child :: "fdleak \<Rightarrow> fdleak" where
  "fdleak_debug_child d = d\<lparr>gFDMspace := gFDMspaceBackup d, gFDLeakMutex := 0, mutex_recursive := True\<rparr>"

section \<open>Start up\<close>

text \<open>The system properties (\<open>None\<close> when not set), the program's name and the build.\<close>

record fd_props =
  fp_fdleak :: "string option"
  fp_program :: "string option"
  fp_bt2log :: "string option"
  fp_thd :: "string option"
  fp_progname :: "string option"
  fp_eng :: bool

definition fdleak_wanted :: "fd_props \<Rightarrow> string \<Rightarrow> bool" where
  "fdleak_wanted p progname =
     (let listed = \<not> (strstr progname ''system/bin/aee'' \<or> strstr progname ''/system/bin/logd'')
      in case fp_program p of None \<Rightarrow> listed | Some prog \<Rightarrow> strstr progname prog)"

definition fdleak_enabled :: "fd_props \<Rightarrow> bool" where
  "fdleak_enabled p = ((case fp_fdleak p of None \<Rightarrow> (if fp_eng p then 1 else 0) | Some v \<Rightarrow> atoi v) \<noteq> 0)"

definition fdleak_mspace_size :: u32 where
  "fdleak_mspace_size = ALIGN_UP_TO_PAGE_SIZE (of_nat ((sizeof_FdBtEntry + FD_BACKTRACE_SIZE * 4) * (FD_MAX_SIZE div 2)))"

definition init_failed :: "string \<Rightarrow> fdleak \<Rightarrow> fdleak" where
  "init_failed message d = (if fdleak_inti_flag d then d\<lparr>fdleak_init_error_msg := take 127 message\<rparr> else d)"

text \<open>
  The tables, once the mspace is mapped and cleared: \<open>table\<close> is what the block of the descriptor table
  holds, which is not cleared again.
\<close>

definition fdleak_tables ::
    "(u32 set \<Rightarrow> nat \<Rightarrow> u32) \<Rightarrow> (nat \<Rightarrow> fd_slot) \<Rightarrow> bool \<Rightarrow> bool \<Rightarrow> fdleak \<Rightarrow> fdleak" where
  "fdleak_tables malloc table atfork_ok key_ok d =
     (let t = malloc (fd_live d) (FD_MAX_SIZE * 8); d1 = d\<lparr>gPFDBACKTRACETable := t, fd_slots := table\<rparr>
      in if t = 0 then init_failed ''[ERROR]gPFDBACKTRACETable mspace_malloc fails, entry\<newline>'' d1
         else
           let b = malloc (fd_live d1) (4 * (1 + FD_HASH_TABLE_SIZE)); d2 = d1\<lparr>gPFDBtEntryTable := b\<rparr>
           in if b = 0 then init_failed ''[ERROR]gPFDBtEntryTable mspace_malloc fails, entry\<newline>'' d2
              else
                let d3 = d2\<lparr>gPMaxFdBtEntry := 0, pbtentry_list := (\<lambda>_. 0)\<rparr>;
                    d4 = (if atfork_ok then d3\<lparr>fd_atfork := True\<rparr> else init_failed ''[FDLEAK_DEBUG] logd pthread_atfork fail\<newline>'' d3)
                in if key_ok then d4\<lparr>disable_key := True, disable_flag := False\<rparr> else d4)"

definition fdleak_debug_initialize ::
    "fd_libc \<Rightarrow> fd_props \<Rightarrow> (u32 \<Rightarrow> u32) \<Rightarrow> (u32 \<Rightarrow> u32 \<Rightarrow> u32) \<Rightarrow> (u32 set \<Rightarrow> nat \<Rightarrow> u32)
     \<Rightarrow> (nat \<Rightarrow> fd_slot) \<Rightarrow> bool \<Rightarrow> bool \<Rightarrow> fdleak \<Rightarrow> fdleak" where
  "fdleak_debug_initialize lc p map_mspace create_mspace malloc table atfork_ok key_ok d0 =
     (let d = fd_func_rehook lc d0 in
      if \<not> fdleak_enabled p then d
      else case fp_progname p of None \<Rightarrow> d
      | Some progname \<Rightarrow>
          let d1 = (if strstr progname ''/system/bin/logd'' then d\<lparr>fdleak_inti_flag := True\<rparr> else d) in
          if \<not> fdleak_wanted p progname then d1
          else
            let d2 = (case fp_bt2log p of None \<Rightarrow> d1 | Some v \<Rightarrow> d1\<lparr>fd_bt2log := atoi v\<rparr>);
                d3 = (case fp_thd p of None \<Rightarrow> d2 | Some v \<Rightarrow> d2\<lparr>fd_record_thd := atoi v\<rparr>);
                base = map_mspace fdleak_mspace_size
            in if base = -1 then (init_failed ''[FDLEAK_DEBUG] logd map anon mem fail!\<newline>'' d3)\<lparr>gFDMspace := 0\<rparr>
               else fdleak_tables malloc table atfork_ok key_ok
                 (d3\<lparr>gFDMspace := base, gFDBtMspace := create_mspace base fdleak_mspace_size\<rparr>))"

end
