(* ===== verification/FdLeakInv.thy ===== *)
theory FdLeakInv
  imports FdLeak
begin

text \<open>
  The invariant of the descriptor debugger and its preservation by the two operations on its tables: the
  lists are proper, every entry counts exactly the descriptors that refer to it and has their bits, no two
  entries hold the same trace. A descriptor's trace is the one that \<open>A\<close> gives it, as far as the comparison of
  the code can tell (equal up to the length of the shorter).
\<close>

interpretation fe: dll_node fe_prev fe_next "\<lambda>p. fe_prev_update (\<lambda>_. p)" "\<lambda>p. fe_next_update (\<lambda>_. p)"
    "\<lambda>n. n\<lparr>fe_prev := 0, fe_next := 0\<rparr>"
  by unfold_locales simp_all

section \<open>Finding an entry\<close>

lemma fd_words_length [simp]: "length (fd_words behind p e n) = n"
  by (simp add: fd_words_def)

lemma fd_matches_iff: "fd_matches behind bt p e \<longleftrightarrow> fd_words behind p e (length bt) = bt"
proof -
  let ?w = "fd_words behind p e (length bt)"
  have "fd_matches behind bt p e \<longleftrightarrow> bt_bytes bt = bt_bytes ?w"
    unfolding fd_matches_def by (subst descend_memcmp_zero) simp_all
  then show ?thesis using bt_bytes_inj [of bt ?w] by auto
qed

lemma search_entry_chain:
  assumes "chain fe_prev fe_next h q p xs"
  shows "search_entry h behind bt p =
    Some (case filter (\<lambda>x. fd_matches behind bt x (the (h x))) xs of [] \<Rightarrow> 0 | x # _ \<Rightarrow> x)"
  using assms
proof (induction xs arbitrary: q p)
  case Nil
  then show ?case by (subst search_entry.simps) simp
next
  case (Cons x xs)
  then obtain n where n: "p = x" "x \<noteq> 0" "h x = Some n" "chain fe_prev fe_next h x (fe_next n) xs"
    by (auto split: option.splits)
  then show ?case using Cons.IH [OF n(4)] by (subst search_entry.simps) simp
qed

text \<open>The two agree on the length of the shorter.\<close>

definition agrees :: "u32 list \<Rightarrow> u32 list \<Rightarrow> bool" where
  "agrees a b \<longleftrightarrow> take (length b) a = take (length a) b"

lemma agrees_same_length: "length a = length b \<Longrightarrow> agrees a b \<longleftrightarrow> a = b"
  by (simp add: agrees_def)

lemma words_agree: "fd_words behind p e (length bt) = bt \<Longrightarrow> agrees (fe_backtrace e) bt"
proof -
  assume e: "fd_words behind p e (length bt) = bt"
  let ?n = "length bt" and ?m = "length (fe_backtrace e)"
  have "take ?m (fd_words behind p e ?n) = take ?n (fe_backtrace e)"
    by (cases "?m \<le> ?n") (simp_all add: fd_words_def min_def take_map)
  then show ?thesis by (simp add: agrees_def e)
qed

lemma words_of_itself: "fe_backtrace e = bt \<Longrightarrow> fd_words behind p e (length bt) = bt"
  by (simp add: fd_words_def)

section \<open>The bits of an entry\<close>

definition marked :: "nat \<Rightarrow> fd_entry \<Rightarrow> bool" where
  "marked i e \<longleftrightarrow> bit (fe_fd_bit_map e (i div 32)) (i mod 32) \<and> bit (fe_fd_bit e) (i div 32)"

lemma mark_fields [simp]:
  "fe_slot (mark_fd i e) = fe_slot e" "fe_allocations (mark_fd i e) = fe_allocations e"
  "fe_prev (mark_fd i e) = fe_prev e" "fe_next (mark_fd i e) = fe_next e"
  "fe_numEntries (mark_fd i e) = fe_numEntries e" "fe_backtrace (mark_fd i e) = fe_backtrace e"
  "fe_slot (unmark_fd i e) = fe_slot e" "fe_allocations (unmark_fd i e) = fe_allocations e"
  "fe_prev (unmark_fd i e) = fe_prev e" "fe_next (unmark_fd i e) = fe_next e"
  "fe_numEntries (unmark_fd i e) = fe_numEntries e" "fe_backtrace (unmark_fd i e) = fe_backtrace e"
  by (simp_all add: mark_fd_def unmark_fd_def Let_def)

lemma bit_fd_mask: "bit (fd_mask i) n \<longleftrightarrow> n = i mod 32" "i < 1000 \<Longrightarrow> bit (fd_word_mask i) n \<longleftrightarrow> n = i div 32"
  by (auto simp: fd_mask_def fd_word_mask_def push_bit_eq_mult bit_exp_iff possible_bit_def)

lemma mark_marks: "i < 1000 \<Longrightarrow> marked i (mark_fd i e)"
  by (simp add: marked_def mark_fd_def bit_or_iff bit_fd_mask)

lemma mark_keeps: "marked j e \<Longrightarrow> marked j (mark_fd i e)"
  by (auto simp: marked_def mark_fd_def bit_or_iff)

lemma unmark_keeps:
  assumes "marked j e" "j \<noteq> i" "i < 1000" "j < 1000"
  shows "marked j (unmark_fd i e)"
proof (cases "j div 32 = i div 32")
  case True
  then have "j mod 32 \<noteq> i mod 32" using assms(2) by (metis div_mult_mod_eq)
  then have b: "bit (fe_fd_bit_map e (i div 32) AND NOT (fd_mask i)) (j mod 32)"
    using assms(1) True by (simp add: marked_def bit_and_iff bit_not_iff_eq bit_fd_mask)
  then have "fe_fd_bit_map e (i div 32) AND NOT (fd_mask i) \<noteq> 0" by fastforce
  then show ?thesis using assms(1) b True by (simp add: marked_def unmark_fd_def Let_def)
next
  case False
  have "j div 32 < 32" using assms(4) by simp
  then show ?thesis using assms(1,3) False
    by (simp add: marked_def unmark_fd_def Let_def bit_and_iff bit_not_iff_eq bit_fd_mask)
qed

lemma marked_links [simp]:
  "marked i (e\<lparr>fe_prev := p, fe_next := q\<rparr>) = marked i e" "marked i (e\<lparr>fe_allocations := n\<rparr>) = marked i e"
  "marked i (e\<lparr>fe_prev := p\<rparr>) = marked i e" "marked i (e\<lparr>fe_next := q\<rparr>) = marked i e"
  by (simp_all add: marked_def)

section \<open>The invariant\<close>

definition bt_slot :: "u32 list \<Rightarrow> nat" where
  "bt_slot bt = unat (get_hash 0 bt) mod FD_HASH_TABLE_SIZE"

lemma bt_slot_less: "bt_slot bt < FD_HASH_TABLE_SIZE"
  by (simp add: bt_slot_def FD_HASH_TABLE_SIZE_def)

definition holders :: "(nat \<Rightarrow> u32) \<Rightarrow> u32 \<Rightarrow> nat set" where
  "holders R p = {i. R i = p}"

text \<open>\<open>R\<close> says which entry a descriptor counts for.\<close>

definition entry_ok :: "(nat \<Rightarrow> u32) \<Rightarrow> fd_entry \<Rightarrow> u32 \<Rightarrow> bool" where
  "entry_ok R e p \<longleftrightarrow> fe_slot e = bt_slot (fe_backtrace e) \<and> fe_numEntries e = length (fe_backtrace e)
     \<and> fe_allocations e = of_nat (card (holders R p)) \<and> holders R p \<noteq> {}"

definition ref_ok :: "(nat \<Rightarrow> u32 list option) \<Rightarrow> nat \<Rightarrow> fd_entry \<Rightarrow> bool" where
  "ref_ok A i e \<longleftrightarrow> marked i e \<and> (\<exists>bt. A i = Some bt \<and> bt \<noteq> [] \<and> agrees (fe_backtrace e) bt)"

definition lists_ok :: "fdleak \<Rightarrow> (nat \<Rightarrow> u32 list) \<Rightarrow> bool" where
  "lists_ok d L \<longleftrightarrow>
     buckets fe_prev fe_next FD_HASH_TABLE_SIZE (fd_entries d) (pbtentry_list d) L
     \<and> members FD_HASH_TABLE_SIZE L = dom (fd_entries d)
     \<and> (\<forall>p e. fd_entries d p = Some e \<longrightarrow> p \<in> set (L (fe_slot e)) \<and> fe_slot e < FD_HASH_TABLE_SIZE)
     \<and> (gPMaxFdBtEntry d = 0 \<or> gPMaxFdBtEntry d \<in> dom (fd_entries d))"

definition content_ok :: "(nat \<Rightarrow> u32 list option) \<Rightarrow> (nat \<Rightarrow> u32) \<Rightarrow> (u32 \<Rightarrow> fd_entry option) \<Rightarrow> bool" where
  "content_ok A R h \<longleftrightarrow> (\<forall>p e. h p = Some e \<longrightarrow> entry_ok R e p)
     \<and> (\<forall>p q e f. h p = Some e \<longrightarrow> h q = Some f \<longrightarrow> fe_backtrace e = fe_backtrace f \<longrightarrow> p = q)
     \<and> (\<forall>i. R i \<noteq> 0 \<longrightarrow> i < 1000 \<and> (\<exists>e. h (R i) = Some e \<and> ref_ok A i e))"

definition fd_inv :: "(nat \<Rightarrow> u32 list option) \<Rightarrow> (nat \<Rightarrow> u32) \<Rightarrow> fdleak \<Rightarrow> (nat \<Rightarrow> u32 list) \<Rightarrow> bool" where
  "fd_inv A R d L \<longleftrightarrow> lists_ok d L \<and> content_ok A R (fd_entries d)"

lemma content_okD:
  assumes "content_ok A R h"
  shows "h p = Some e \<Longrightarrow> entry_ok R e p" "R i \<noteq> 0 \<Longrightarrow> i < 1000" "R i \<noteq> 0 \<Longrightarrow> \<exists>e. h (R i) = Some e \<and> ref_ok A i e"
    "h p = Some e \<Longrightarrow> h q = Some f \<Longrightarrow> fe_backtrace e = fe_backtrace f \<Longrightarrow> p = q"
  using assms unfolding content_ok_def by blast+

lemma lists_okD:
  assumes "lists_ok d L"
  shows "buckets fe_prev fe_next FD_HASH_TABLE_SIZE (fd_entries d) (pbtentry_list d) L"
    "members FD_HASH_TABLE_SIZE L = dom (fd_entries d)"
    "fd_entries d p = Some e \<Longrightarrow> p \<in> set (L (fe_slot e))" "fd_entries d p = Some e \<Longrightarrow> fe_slot e < FD_HASH_TABLE_SIZE"
    "gPMaxFdBtEntry d = 0 \<or> gPMaxFdBtEntry d \<in> dom (fd_entries d)"
    "fd_entries d p = Some e \<Longrightarrow> p \<noteq> 0"
  using assms buckets_mem unfolding lists_ok_def by blast+

lemma holders_bound:
  assumes "\<And>i. R i \<noteq> 0 \<Longrightarrow> i < 1000" "p \<noteq> (0 :: u32)"
  shows "finite (holders R p)" "card (holders R p) \<le> 1000"
proof -
  have s: "holders R p \<subseteq> {..<1000}" using assms by (auto simp: holders_def)
  then show "finite (holders R p)" by (rule finite_subset) simp
  show "card (holders R p) \<le> 1000" using card_mono [OF _ s] by simp
qed

lemma holders_upd: "holders (R(i := q)) p = (if p = q then insert i (holders R p) else holders R p - {i})"
  by (auto simp: holders_def)

section \<open>Overwriting what an entry says\<close>

lemma lists_payload:
  assumes "lists_ok d L" "fd_entries d p = Some e" "fe_prev e' = fe_prev e" "fe_next e' = fe_next e" "fe_slot e' = fe_slot e"
  shows "lists_ok (d\<lparr>fd_entries := (fd_entries d)(p \<mapsto> e')\<rparr>) L"
  using assms fe.buckets_update_payload [of FD_HASH_TABLE_SIZE "fd_entries d" "pbtentry_list d" L p e e']
  by (auto simp: lists_ok_def)

text \<open>The links of the entries do not matter for what they say.\<close>

definition said :: "fd_entry \<Rightarrow> fd_entry" where
  "said e = e\<lparr>fe_prev := 0, fe_next := 0\<rparr>"

lemma said_ok: "entry_ok R (said e) p = entry_ok R e p" "ref_ok A i (said e) = ref_ok A i e"
  "fe_backtrace (said e) = fe_backtrace e" "fe_slot (said e) = fe_slot e"
  by (simp_all add: said_def entry_ok_def ref_ok_def)

lemma pays_said: "fe.pays h p = map_option said (h p)"
  by (simp add: fe.pays_def said_def [abs_def])

lemma content_said: "content_ok A R h = content_ok A R (fe.pays h)"
proof -
  have s: "(\<forall>p e. h p = Some e \<longrightarrow> P p (said e)) = (\<forall>p e. fe.pays h p = Some e \<longrightarrow> P p e)" for P
    by (auto simp: pays_said)
  have x: "(\<exists>e. h p = Some e \<and> P (said e)) = (\<exists>e. fe.pays h p = Some e \<and> P e)" for P p
    by (auto simp: pays_said)
  have "content_ok A R h = ((\<forall>p e. h p = Some e \<longrightarrow> entry_ok R (said e) p)
     \<and> (\<forall>p q e f. h p = Some e \<longrightarrow> h q = Some f \<longrightarrow> fe_backtrace (said e) = fe_backtrace (said f) \<longrightarrow> p = q)
     \<and> (\<forall>i. R i \<noteq> 0 \<longrightarrow> i < 1000 \<and> (\<exists>e. h (R i) = Some e \<and> ref_ok A i (said e))))"
    by (simp add: content_ok_def said_ok)
  also have "\<dots> = content_ok A R (fe.pays h)"
    unfolding content_ok_def x s [of "\<lambda>p e. entry_ok R e p"]
    by (auto simp: pays_said)
  finally show ?thesis .
qed

lemma content_same_pays: "fe.pays h' = fe.pays h \<Longrightarrow> content_ok A R h \<Longrightarrow> content_ok A R h'"
  by (simp add: content_said [of _ _ h] content_said [of _ _ h'])

section \<open>Taking an entry out\<close>

lemma content_remove:
  assumes c: "content_ok A R h" and R: "R i = p" "holders R p = {i}" and h': "h' = (fe.pays h)(p := None)" "h' 0 = None"
  shows "content_ok A (R(i := 0)) h'"
proof -
  have c': "content_ok A R (fe.pays h)" using c content_said by blast
  have e: "entry_ok (R(i := 0)) e q = entry_ok R e q" if "q \<noteq> p" "q \<noteq> 0" for e q
  proof -
    have "holders (R(i := 0)) q = holders R q" using that R(1) by (auto simp: holders_def)
    then show ?thesis by (simp add: entry_ok_def)
  qed
  show ?thesis
    unfolding content_ok_def
  proof (intro conjI allI impI)
    fix q f assume q: "h' q = Some f"
    then have "q \<noteq> 0" "q \<noteq> p" using h' by (cases "q = 0"; cases "q = p"; simp)+
    then show "entry_ok (R(i := 0)) f q" using content_okD(1) [OF c'] q h'(1) e by simp
  next
    fix q r f g assume "h' q = Some f" "h' r = Some g" "fe_backtrace f = fe_backtrace g"
    then show "q = r" using content_okD(4) [OF c', of q f r g] h'(1) by (simp split: if_splits)
  next
    fix j assume j: "(R(i := 0)) j \<noteq> 0"
    then have ji: "j \<noteq> i" and rj: "R j \<noteq> 0" by (auto split: if_splits)
    then have "R j \<noteq> p" using R(2) by (auto simp: holders_def)
    then show "j < 1000" "\<exists>e. h' ((R(i := 0)) j) = Some e \<and> ref_ok A j e"
      using content_okD(2,3) [OF c' rj] ji h'(1) by auto
  qed
qed

lemma content_drop:
  assumes c: "content_ok A R h" and R: "R i = p" "holders R p \<noteq> {i}" and h: "h p = Some e" "h 0 = None"
    and e': "fe_slot e' = fe_slot e" "fe_numEntries e' = fe_numEntries e" "fe_backtrace e' = fe_backtrace e"
      "fe_allocations e' = fe_allocations e - 1" "\<And>j. j \<noteq> i \<Longrightarrow> j < 1000 \<Longrightarrow> marked j e \<Longrightarrow> marked j e'"
  shows "content_ok A (R(i := 0)) (h(p \<mapsto> e'))"
proof -
  have p0: "p \<noteq> 0" using h by auto
  have fin: "finite (holders R p)" by (rule holders_bound(1) [OF _ p0]) (rule content_okD(2) [OF c])
  have i: "i \<in> holders R p" using R(1) by (simp add: holders_def)
  have hp: "holders (R(i := 0)) p = holders R p - {i}" using p0 by (simp add: holders_upd)
  have n: "card (holders R p) = Suc (card (holders R p - {i}))"
    by (rule card.remove [OF fin i])
  have ep: "entry_ok (R(i := 0)) e' p"
  proof -
    have e: "entry_ok R e p" by (rule content_okD(1) [OF c h(1)])
    have "holders R p - {i} \<noteq> {}" using R(2) i by blast
    moreover have "fe_allocations e = of_nat (Suc (card (holders R p - {i})))" using e n by (simp only: entry_ok_def)
    then have "fe_allocations e' = of_nat (card (holders R p - {i}))" using e'(4) by simp
    ultimately show ?thesis using e e'(1-3) by (simp only: entry_ok_def hp) simp
  qed
  have ok: "entry_ok (R(i := 0)) f q" if "h q = Some f" "q \<noteq> p" for f q
  proof -
    have "q \<noteq> 0" using that(1) h(2) by auto
    then have "holders (R(i := 0)) q = holders R q" using that(2) R(1) by (auto simp: holders_def)
    then show ?thesis using content_okD(1) [OF c that(1)] by (simp add: entry_ok_def)
  qed
  have m: "\<exists>f. (h(p \<mapsto> e')) (R j) = Some f \<and> ref_ok A j f" if j: "j \<noteq> i" "R j \<noteq> 0" for j
  proof -
    obtain f where f: "h (R j) = Some f" "ref_ok A j f" using content_okD(3) [OF c j(2)] by blast
    have "ref_ok A j e'" if "R j = p"
      using f that h(1) e'(3,5) content_okD(2) [OF c j(2)] j(1) by (auto simp: ref_ok_def)
    then show ?thesis using f by (cases "R j = p") auto
  qed
  show ?thesis
    unfolding content_ok_def
  proof (intro conjI allI impI)
    fix q f assume "(h(p \<mapsto> e')) q = Some f"
    then show "entry_ok (R(i := 0)) f q" using ep ok by (cases "q = p") auto
  next
    fix q r f g assume "(h(p \<mapsto> e')) q = Some f" "(h(p \<mapsto> e')) r = Some g" "fe_backtrace f = fe_backtrace g"
    then show "q = r" using content_okD(4) [OF c] h(1) e'(3) by (auto split: if_splits)
  next
    fix j assume "(R(i := 0)) j \<noteq> 0"
    then have j: "j \<noteq> i" "R j \<noteq> 0" by (auto split: if_splits)
    then show "j < 1000" "\<exists>e. (h(p \<mapsto> e')) ((R(i := 0)) j) = Some e \<and> ref_ok A j e"
      using content_okD(2) [OF c j(2)] m [OF j] by auto
  qed
qed

text \<open>Unlinking and freeing an entry, whatever it says.\<close>

lemma unlink_ok:
  assumes l: "lists_ok d L" and e: "fd_entries d p = Some e"
  obtains H S where "unlink_entry p d = Some (d\<lparr>fd_entries := H, pbtentry_list := S\<rparr>)" "fe.pays H = fe.pays (fd_entries d)"
    "buckets fe_prev fe_next FD_HASH_TABLE_SIZE H S (L(fe_slot e := remove1 p (L (fe_slot e))))"
proof -
  note D = lists_okD [OF l]
  note U = fe.buckets_unlink [OF D(1) D(4) [OF e] D(3) [OF e] e]
  let ?H = "fe.unlink_heap (fd_entries d) (fe_prev e) (fe_next e)"
  let ?S = "(pbtentry_list d)(fe_slot e := if fe_prev e = 0 then fe_next e else pbtentry_list d (fe_slot e))"
  have "unlink_entry p d = Some (d\<lparr>fd_entries := ?H, pbtentry_list := ?S\<rparr>)"
    using U(1-3) e D(4) [OF e] unfolding unlink_entry_def fe.unlink_heap_def Let_def
    by (auto simp: not_le)
  moreover have "fe.pays ?H = fe.pays (fd_entries d)" by (rule fe.pays_unlink) (use U(1-3) in auto)
  ultimately show ?thesis using U(5) that by blast
qed

lemma drop_allocation_ok:
  assumes l: "lists_ok d L" and e: "fd_entries d p = Some e" and n: "fe_allocations e = of_nat n" "1 \<le> n" "n \<le> 1000"
  obtains (freed) H S m L' where "n = 1" "lists_ok (d\<lparr>fd_entries := H, pbtentry_list := S, gPMaxFdBtEntry := m\<rparr>) L'"
      "drop_allocation p d = Some (True, d\<lparr>fd_entries := H, pbtentry_list := S, gPMaxFdBtEntry := m\<rparr>)"
      "fe.pays H = (fe.pays (fd_entries d))(p := None)"
  | (kept) "n \<noteq> 1" "drop_allocation p d = Some (False, d\<lparr>fd_entries := (fd_entries d)(p \<mapsto> e\<lparr>fe_allocations := fe_allocations e - 1\<rparr>)\<rparr>)"
proof -
  let ?e = "e\<lparr>fe_allocations := fe_allocations e - 1\<rparr>"
  let ?h = "(fd_entries d)(p \<mapsto> ?e)"
  let ?d = "d\<lparr>fd_entries := ?h\<rparr>"
  have al: "fe_allocations ?e = of_nat (n - 1)" using n by (simp add: of_nat_diff)
  have z: "fe_allocations ?e \<le> 0 \<longleftrightarrow> n = 1"
  proof -
    have "unat (of_nat (n - 1) :: u32) = n - 1" using n(3) by (simp add: unat_of_nat)
    then have "(of_nat (n - 1) :: u32) = 0 \<longleftrightarrow> n - 1 = 0" by (metis unat_eq_0)
    then show ?thesis using al n(2) by auto
  qed
  have l': "lists_ok ?d L" by (rule lists_payload [OF l e]) simp_all
  have ep: "fd_entries ?d p = Some ?e" by simp
  show ?thesis
  proof (cases "n = 1")
    case False
    then show ?thesis using kept z e by (simp add: drop_allocation_def)
  next
    case True
    obtain H S where u: "unlink_entry p ?d = Some (?d\<lparr>fd_entries := H, pbtentry_list := S\<rparr>)"
      "fe.pays H = fe.pays ?h" "buckets fe_prev fe_next FD_HASH_TABLE_SIZE H S (L(fe_slot e := remove1 p (L (fe_slot e))))"
      by (rule unlink_ok [OF l' ep]) simp
    define L' where "L' = L(fe_slot e := remove1 p (L (fe_slot e)))"
    define m where "m = (if p = gPMaxFdBtEntry d then 0 else gPMaxFdBtEntry d)"
    note D = lists_okD [OF l]
    have domH: "dom H = dom (fd_entries d)"
      using fe.dom_pays [of H] fe.dom_pays [of ?h] u(2) e by auto
    have mem: "members FD_HASH_TABLE_SIZE L' = dom (fd_entries d) - {p}"
      using fe.members_unlink [OF D(1) D(4) [OF e] D(3) [OF e]] D(2) by (simp add: L'_def)
    have hp: "H p \<noteq> None" using domH e by blast
    have fr: "free_block H p = Some (H(p := None))" using hp D(6) [OF e] by (auto simp: free_block_def)
    have b: "buckets fe_prev fe_next FD_HASH_TABLE_SIZE (H(p := None)) S L'"
      by (rule fe.buckets_outside) (use u(3) mem in \<open>simp_all add: L'_def\<close>)
    have in_list: "q \<in> set (L' (fe_slot f)) \<and> fe_slot f < FD_HASH_TABLE_SIZE" if f: "(H(p := None)) q = Some f" for q f
    proof -
      have q: "q \<noteq> p" "H q = Some f" using f by (auto split: if_splits)
      have "fe.pays H q = Some (said f)" using q(2) by (simp add: pays_said)
      then have "map_option said (fd_entries d q) = Some (said f)" using u(2) q(1) by (simp add: pays_said)
      then obtain g where g: "fd_entries d q = Some g" "said g = said f" by auto
      then have "fe_slot g = fe_slot f" by (metis said_ok(4))
      then show ?thesis using D(3,4) [OF g(1)] q(1) by (auto simp: L'_def)
    qed
    have r: "drop_allocation p d = Some (True, d\<lparr>fd_entries := H(p := None), pbtentry_list := S, gPMaxFdBtEntry := m\<rparr>)"
      using z True e u(1) fr by (cases "p = gPMaxFdBtEntry d") (auto simp: drop_allocation_def m_def Let_def)
    have "lists_ok (d\<lparr>fd_entries := H(p := None), pbtentry_list := S, gPMaxFdBtEntry := m\<rparr>) L'"
      using b mem domH in_list D(5) unfolding lists_ok_def m_def by auto
    moreover have "fe.pays (H(p := None)) = (fe.pays (fd_entries d))(p := None)" using u(2) by simp
    ultimately show ?thesis using freed [OF True _ r] by blast
  qed
qed

section \<open>Giving a descriptor to an entry\<close>

lemma content_A: "content_ok A R h \<Longrightarrow> R i = 0 \<Longrightarrow> content_ok (A(i := x)) R h"
  by (auto simp: content_ok_def ref_ok_def)

lemma content_bump:
  assumes c: "content_ok A R h" and i: "R i = 0" "i < 1000" and h: "h p = Some e" "h 0 = None" and bt: "agrees (fe_backtrace e) bt" "bt \<noteq> []"
    and e': "fe_slot e' = fe_slot e" "fe_numEntries e' = fe_numEntries e" "fe_backtrace e' = fe_backtrace e"
      "fe_allocations e' = fe_allocations e + 1" "marked i e'" "\<And>j. marked j e \<Longrightarrow> marked j e'"
  shows "content_ok (A(i \<mapsto> bt)) (R(i := p)) (h(p \<mapsto> e'))"
proof -
  have p0: "p \<noteq> 0" using h by auto
  note c' = content_A [OF c i(1), of "Some bt"]
  have fin: "finite (holders R p)" by (rule holders_bound(1) [OF _ p0]) (rule content_okD(2) [OF c])
  have ni: "i \<notin> holders R p" using i p0 by (simp add: holders_def)
  have hp: "holders (R(i := p)) p = insert i (holders R p)" by (simp add: holders_upd)
  have ep: "entry_ok (R(i := p)) e' p"
    using content_okD(1) [OF c h(1)] e' fin ni by (simp add: entry_ok_def hp)
  have ok: "entry_ok (R(i := p)) f q" if "h q = Some f" "q \<noteq> p" for f q
  proof -
    have "q \<noteq> 0" using that(1) h(2) by auto
    then have "holders (R(i := p)) q = holders R q" using that(2) i(1) by (auto simp: holders_def)
    then show ?thesis using content_okD(1) [OF c that(1)] by (simp add: entry_ok_def)
  qed
  have m: "\<exists>f. (h(p \<mapsto> e')) (R j) = Some f \<and> ref_ok (A(i \<mapsto> bt)) j f" if j: "j \<noteq> i" "R j \<noteq> 0" for j
  proof -
    obtain f where f: "h (R j) = Some f" "ref_ok (A(i \<mapsto> bt)) j f" using content_okD(3) [OF c' j(2)] by blast
    then have "ref_ok (A(i \<mapsto> bt)) j e'" if "R j = p" using that h(1) e'(3,6) by (auto simp: ref_ok_def)
    then show ?thesis using f by (cases "R j = p") auto
  qed
  show ?thesis
    unfolding content_ok_def
  proof (intro conjI allI impI)
    fix q f assume "(h(p \<mapsto> e')) q = Some f"
    then show "entry_ok (R(i := p)) f q" using ep ok by (cases "q = p") auto
  next
    fix q r f g assume "(h(p \<mapsto> e')) q = Some f" "(h(p \<mapsto> e')) r = Some g" "fe_backtrace f = fe_backtrace g"
    then show "q = r" using content_okD(4) [OF c] h(1) e'(3) by (auto split: if_splits)
  next
    fix j assume j: "(R(i := p)) j \<noteq> 0"
    show "j < 1000" using j i(2) content_okD(2) [OF c, of j] by (cases "j = i") auto
    show "\<exists>e. (h(p \<mapsto> e')) ((R(i := p)) j) = Some e \<and> ref_ok (A(i \<mapsto> bt)) j e"
      using j m [of j] e'(3,5) bt by (cases "j = i") (auto simp: ref_ok_def)
  qed
qed

lemma content_new:
  assumes c: "content_ok A R h" and i: "R i = 0" "i < 1000" and n: "h n = None" "n \<noteq> 0" "h 0 = None"
    and new: "\<And>p e. h p = Some e \<Longrightarrow> fe_backtrace e \<noteq> bt" and ne: "bt \<noteq> []"
  shows "content_ok (A(i \<mapsto> bt)) (R(i := n)) (h(n \<mapsto> new_entry (bt_slot bt) bt i))"
proof -
  let ?e = "new_entry (bt_slot bt) bt i"
  note c' = content_A [OF c i(1), of "Some bt"]
  have none: "holders R n = {}" using content_okD(3) [OF c] n by (fastforce simp: holders_def)
  have fields: "fe_backtrace ?e = bt" "fe_slot ?e = bt_slot bt" "fe_numEntries ?e = length bt" "fe_allocations ?e = 1" "marked i ?e"
    using i(2) by (simp_all add: new_entry_def mark_marks)
  have en: "entry_ok (R(i := n)) ?e n" by (simp add: entry_ok_def fields holders_upd none)
  have ok: "entry_ok (R(i := n)) f q" if "h q = Some f" for f q
  proof -
    have "q \<noteq> 0" "q \<noteq> n" using that n by auto
    then have "holders (R(i := n)) q = holders R q" using i(1) by (auto simp: holders_def)
    then show ?thesis using content_okD(1) [OF c that(1)] by (simp add: entry_ok_def)
  qed
  show ?thesis
    unfolding content_ok_def
  proof (intro conjI allI impI)
    fix q f assume "(h(n \<mapsto> ?e)) q = Some f"
    then show "entry_ok (R(i := n)) f q" using en ok by (cases "q = n") auto
  next
    fix q r f g assume "(h(n \<mapsto> ?e)) q = Some f" "(h(n \<mapsto> ?e)) r = Some g" "fe_backtrace f = fe_backtrace g"
    then show "q = r" using content_okD(4) [OF c] new fields(1) by (auto split: if_splits)
  next
    fix j assume j: "(R(i := n)) j \<noteq> 0"
    show "j < 1000" using j i(2) content_okD(2) [OF c, of j] by (cases "j = i") auto
    show "\<exists>e. (h(n \<mapsto> ?e)) ((R(i := n)) j) = Some e \<and> ref_ok (A(i \<mapsto> bt)) j e"
    proof (cases "j = i")
      case True
      then show ?thesis using fields ne by (simp add: ref_ok_def agrees_same_length)
    next
      case False
      then obtain f where "h (R j) = Some f" "ref_ok (A(i \<mapsto> bt)) j f" using content_okD(3) [OF c', of j] j by auto
      then show ?thesis using False n(1) by (cases "R j = n") auto
    qed
  qed
qed

lemma insert_ok:
  assumes l: "lists_ok d L" and n: "fd_entries d n = None" "n \<noteq> 0" and e: "fe_slot e = slot" "slot < FD_HASH_TABLE_SIZE"
  obtains H where "insert_entry n slot (d\<lparr>fd_entries := (fd_entries d)(n \<mapsto> e)\<rparr>)
      = Some (d\<lparr>fd_entries := H, pbtentry_list := (pbtentry_list d)(slot := n)\<rparr>)"
    "fe.pays H = (fe.pays (fd_entries d))(n \<mapsto> said e)"
    "lists_ok (d\<lparr>fd_entries := H, pbtentry_list := (pbtentry_list d)(slot := n)\<rparr>) (L(slot := n # L slot))"
proof -
  note D = lists_okD [OF l]
  note goal = that
  let ?h = "fd_entries d" and ?S = "pbtentry_list d"
  let ?e = "e\<lparr>fe_prev := 0, fe_next := ?S slot\<rparr>"
  have nm: "n \<notin> members FD_HASH_TABLE_SIZE L" using D(2) n(1) by auto
  note P = fe.buckets_push [OF D(1) e(2) n(2) nm, of ?e]
  have lists: "lists_ok (d\<lparr>fd_entries := H, pbtentry_list := ?S(slot := n)\<rparr>) (L(slot := n # L slot))"
    if b: "buckets fe_prev fe_next FD_HASH_TABLE_SIZE H (?S(slot := n)) (L(slot := n # L slot))"
      and p: "fe.pays H = (fe.pays ?h)(n \<mapsto> said e)" for H
  proof -
    have dm: "dom H = insert n (dom ?h)" using fe.dom_pays [of H] fe.dom_pays [of ?h] p by auto
    have m: "members FD_HASH_TABLE_SIZE (L(slot := n # L slot)) = dom H"
      using members_upd_push [OF e(2)] D(2) dm by simp
    have s: "q \<in> set ((L(slot := n # L slot)) (fe_slot f)) \<and> fe_slot f < FD_HASH_TABLE_SIZE" if f: "H q = Some f" for q f
    proof -
      have "((fe.pays ?h)(n \<mapsto> said e)) q = Some (said f)" using f p by (simp add: pays_said flip: p)
      then consider "q = n" "said e = said f" | g where "?h q = Some g" "said g = said f" "q \<noteq> n"
        by (auto simp: pays_said split: if_splits)
      then show ?thesis
      proof cases
        case 1
        then have "fe_slot f = slot" using e(1) by (metis said_ok(4))
        then show ?thesis using 1 e(2) by simp
      next
        case 2
        then have "fe_slot f = fe_slot g" by (metis said_ok(4))
        then show ?thesis using D(3,4) [OF 2(1)] by auto
      qed
    qed
    show ?thesis using b m s D(5) dm by (auto simp: lists_ok_def)
  qed
  show ?thesis
  proof (cases "?S slot = 0")
    case True
    let ?H = "?h(n \<mapsto> ?e)"
    have p: "fe.pays ?H = (fe.pays ?h)(n \<mapsto> said e)" by (simp add: said_def)
    have "insert_entry n slot (d\<lparr>fd_entries := ?h(n \<mapsto> e)\<rparr>) = Some (d\<lparr>fd_entries := ?H, pbtentry_list := ?S(slot := n)\<rparr>)"
      using True by (simp add: insert_entry_def)
    then show ?thesis using goal p lists [OF _ p] P(1) True by simp
  next
    case False
    then obtain m where m: "?h (?S slot) = Some m" "?S slot \<noteq> n"
      "buckets fe_prev fe_next FD_HASH_TABLE_SIZE (?h(n \<mapsto> ?e, ?S slot \<mapsto> m\<lparr>fe_prev := n\<rparr>)) (?S(slot := n)) (L(slot := n # L slot))"
      using P(2) by auto
    let ?H = "?h(n \<mapsto> ?e, ?S slot \<mapsto> m\<lparr>fe_prev := n\<rparr>)"
    have "fe.pays ?H = (fe.pays (?h(n \<mapsto> ?e)))(?S slot \<mapsto> said m)" by (simp add: said_def)
    also have "\<dots> = (fe.pays ?h)(n \<mapsto> said e)" using m(1,2) by (auto simp: fun_eq_iff pays_said said_def)
    finally have p: "fe.pays ?H = (fe.pays ?h)(n \<mapsto> said e)" .
    have "insert_entry n slot (d\<lparr>fd_entries := ?h(n \<mapsto> e)\<rparr>) = Some (d\<lparr>fd_entries := ?H, pbtentry_list := ?S(slot := n)\<rparr>)"
      using False m(1,2) by (auto simp: insert_entry_def fun_upd_twist)
    then show ?thesis using goal p lists [OF m(3) p] by simp
  qed
qed

end
