(* ===== verification/FdLeakProps.thy ===== *)
theory FdLeakProps
  imports FdLeakInv
begin

text \<open>
  What the descriptor debugger promises: recording and removing never fault and implement a map from the
  open descriptors to the traces that opened them; the wrappers give their callers what the C library gives
  alone, through any sequence of calls and forks; the entries count the descriptors of each trace.
\<close>

section \<open>The tables implement a map\<close>

definition refs :: "fdleak \<Rightarrow> nat \<Rightarrow> u32" where
  "refs d i = fs_pbtentry (fd_slots d i)"

text \<open>\<open>K\<close> holds the depths that traces may have.\<close>

definition depths_ok :: "nat set \<Rightarrow> fdleak \<Rightarrow> bool" where
  "depths_ok K d \<longleftrightarrow> (\<forall>p e. fd_entries d p = Some e \<longrightarrow> length (fe_backtrace e) \<in> K)"

definition fd_table_ok :: "nat set \<Rightarrow> (nat \<Rightarrow> u32 list option) \<Rightarrow> fdleak \<Rightarrow> bool" where
  "fd_table_ok K A d \<longleftrightarrow> (\<exists>L. fd_inv A (refs d) d L) \<and> (\<forall>i. fs_flag (fd_slots d i) \<noteq> 0 \<longleftrightarrow> A i \<noteq> None) \<and> depths_ok K d
     \<and> (\<forall>i bt. A i = Some bt \<longrightarrow> bt = [] \<or> length bt \<in> K)"

text \<open>Only the tables differ.\<close>

definition untabled :: "fdleak \<Rightarrow> fdleak" where
  "untabled d = d\<lparr>fd_entries := Map.empty, pbtentry_list := (\<lambda>_. 0), gPMaxFdBtEntry := 0,
     fd_slots := (\<lambda>_. \<lparr>fs_flag = 0, fs_pbtentry = 0\<rparr>)\<rparr>"

definition tables_differ :: "fdleak \<Rightarrow> fdleak \<Rightarrow> bool" where
  "tables_differ d d' \<longleftrightarrow> untabled d' = untabled d"

lemma tables_differ_rules [intro, simp]:
  "tables_differ d d"
  "tables_differ d (put_slot i s d)"
  "tables_differ d (d\<lparr>fd_entries := H\<rparr>)"
  "tables_differ d (d\<lparr>gPMaxFdBtEntry := m\<rparr>)"
  "tables_differ d (d\<lparr>fd_entries := H, pbtentry_list := S\<rparr>)"
  "tables_differ d (d\<lparr>fd_entries := H, pbtentry_list := S, gPMaxFdBtEntry := m\<rparr>)"
  by (simp_all add: tables_differ_def untabled_def put_slot_def)

lemma tables_differ_trans: "tables_differ d e \<Longrightarrow> tables_differ e f \<Longrightarrow> tables_differ d f"
  by (simp add: tables_differ_def)

lemma put_slot_simps [simp]:
  "fd_entries (put_slot i s d) = fd_entries d" "pbtentry_list (put_slot i s d) = pbtentry_list d"
  "gPMaxFdBtEntry (put_slot i s d) = gPMaxFdBtEntry d" "fd_slots (put_slot i s d) = (fd_slots d)(i := s)"
  "gFDMspace (put_slot i s d) = gFDMspace d"
  "lists_ok (put_slot i s d) L = lists_ok d L" "fd_inv A R (put_slot i s d) L = fd_inv A R d L"
  "depths_ok K (put_slot i s d) = depths_ok K d"
  by (simp_all add: put_slot_def lists_ok_def fd_inv_def depths_ok_def)

lemma depths_pays: "depths_ok K d \<longleftrightarrow> (\<forall>p e. fe.pays (fd_entries d) p = Some e \<longrightarrow> length (fe_backtrace e) \<in> K)"
proof -
  have "(\<forall>e. h p = Some e \<longrightarrow> length (fe_backtrace e) \<in> K) = (\<forall>e. fe.pays h p = Some e \<longrightarrow> length (fe_backtrace e) \<in> K)" for h :: "u32 \<Rightarrow> fd_entry option" and p
    by (auto simp: pays_said said_ok)
  then show ?thesis by (simp add: depths_ok_def)
qed

lemma depths_upd:
  "depths_ok K d \<Longrightarrow> length (fe_backtrace f) \<in> K \<Longrightarrow> fe.pays H = (fe.pays (fd_entries d))(p \<mapsto> f)
    \<Longrightarrow> fd_entries d' = H \<Longrightarrow> depths_ok K d'"
  "depths_ok K d \<Longrightarrow> fe.pays H = (fe.pays (fd_entries d))(p := None) \<Longrightarrow> fd_entries d' = H \<Longrightarrow> depths_ok K d'"
  unfolding depths_pays by auto

lemma refs_put [simp]: "refs (put_slot i s d) = (refs d)(i := fs_pbtentry s)"
  by (rule ext) (simp add: refs_def)

lemma refs_tables [simp]: "refs (d\<lparr>fd_entries := H\<rparr>) = refs d" "refs (d\<lparr>fd_entries := H, pbtentry_list := S\<rparr>) = refs d"
  "refs (d\<lparr>gPMaxFdBtEntry := m\<rparr>) = refs d" "refs (d\<lparr>fd_entries := H, pbtentry_list := S, gPMaxFdBtEntry := m\<rparr>) = refs d"
  by (simp_all add: refs_def fun_eq_iff)

lemma fd_table_ok_I:
  "fd_inv A (refs d) d L \<Longrightarrow> (\<And>i. fs_flag (fd_slots d i) \<noteq> 0 \<longleftrightarrow> A i \<noteq> None) \<Longrightarrow> depths_ok K d
    \<Longrightarrow> (\<And>i bt. A i = Some bt \<Longrightarrow> bt = [] \<or> length bt \<in> K) \<Longrightarrow> fd_table_ok K A d"
  by (auto simp: fd_table_ok_def)

text \<open>A descriptor lets go of its entry, before it is recorded again or after its bit is cleared.\<close>

lemma drop_ref:
  assumes inv: "fd_inv A (refs d) d L" and p: "refs d i = p" "p \<noteq> 0" and e: "fd_entries d p = Some e"
    and f: "fe_prev f = fe_prev e" "fe_next f = fe_next e" "fe_slot f = fe_slot e" "fe_numEntries f = fe_numEntries e"
      "fe_backtrace f = fe_backtrace e" "fe_allocations f = fe_allocations e"
      "\<And>j. j \<noteq> i \<Longrightarrow> j < 1000 \<Longrightarrow> marked j e \<Longrightarrow> marked j f"
  obtains freed d1 L1 where "drop_allocation p (d\<lparr>fd_entries := (fd_entries d)(p \<mapsto> f)\<rparr>) = Some (freed, d1)"
    "fd_inv A ((refs d)(i := 0)) d1 L1" "tables_differ d d1" "fd_slots d1 = fd_slots d" "\<And>K. depths_ok K d \<Longrightarrow> depths_ok K d1"
proof -
  let ?h = "fd_entries d" and ?R = "refs d"
  let ?d = "d\<lparr>fd_entries := ?h(p \<mapsto> f)\<rparr>"
  note goal = that
  have l: "lists_ok d L" and c: "content_ok A ?R ?h" using inv by (simp_all add: fd_inv_def)
  have l': "lists_ok ?d L" by (rule lists_payload [OF l e f(1-3)])
  have h0: "?h 0 = None" using lists_okD(6) [OF l] by (cases "?h 0") auto
  let ?n = "card (holders ?R p)"
  have al: "fe_allocations f = of_nat ?n" and ne: "holders ?R p \<noteq> {}"
    using content_okD(1) [OF c e] f(6) by (simp_all add: entry_ok_def)
  have fin: "finite (holders ?R p)" and n2: "?n \<le> 1000"
    using holders_bound [of ?R p] content_okD(2) [OF c] p(2) by blast+
  have n1: "1 \<le> ?n" using fin ne by (simp add: Suc_leI card_gt_0_iff)
  have i: "i \<in> holders ?R p" using p(1) by (simp add: holders_def)
  have ef: "fd_entries ?d p = Some f" by simp
  show ?thesis
  proof (rule drop_allocation_ok [OF l' ef al n1 n2])
    fix H S m L'
    assume A: "?n = 1" "lists_ok (?d\<lparr>fd_entries := H, pbtentry_list := S, gPMaxFdBtEntry := m\<rparr>) L'"
      "drop_allocation p ?d = Some (True, ?d\<lparr>fd_entries := H, pbtentry_list := S, gPMaxFdBtEntry := m\<rparr>)"
      "fe.pays H = (fe.pays (fd_entries ?d))(p := None)"
    let ?d1 = "?d\<lparr>fd_entries := H, pbtentry_list := S, gPMaxFdBtEntry := m\<rparr>"
    have hi: "holders ?R p = {i}" using A(1) i by (metis card_1_singletonE singletonD)
    have pay: "fe.pays H = (fe.pays ?h)(p := None)" using A(4) by (simp add: fun_eq_iff)
    have H0: "H 0 = None" using lists_okD(6) [OF A(2), of 0] by (cases "H 0") auto
    have "content_ok A (?R(i := 0)) (fe.pays H)"
      by (rule content_remove [OF c p(1) hi pay]) (simp add: pays_said H0)
    then have "fd_inv A (?R(i := 0)) ?d1 L'" using A(2) by (simp add: fd_inv_def content_said [of _ _ H])
    then show ?thesis using A(3) depths_upd(2) [OF _ pay, of _ ?d1] by (intro goal [of True ?d1 L']) simp_all
  next
    assume A: "?n \<noteq> 1" "drop_allocation p ?d
      = Some (False, ?d\<lparr>fd_entries := (fd_entries ?d)(p \<mapsto> f\<lparr>fe_allocations := fe_allocations f - 1\<rparr>)\<rparr>)"
    let ?f = "f\<lparr>fe_allocations := fe_allocations f - 1\<rparr>"
    have hi: "holders ?R p \<noteq> {i}" using A(1) by auto
    have "content_ok A (?R(i := 0)) (?h(p \<mapsto> ?f))"
      by (rule content_drop [OF c p(1) hi e h0]) (use f in simp_all)
    moreover have "lists_ok (d\<lparr>fd_entries := ?h(p \<mapsto> ?f)\<rparr>) L" by (rule lists_payload [OF l e]) (use f in simp_all)
    ultimately have "fd_inv A (?R(i := 0)) (d\<lparr>fd_entries := ?h(p \<mapsto> ?f)\<rparr>) L" by (simp add: fd_inv_def)
    moreover have "depths_ok K (d\<lparr>fd_entries := ?h(p \<mapsto> ?f)\<rparr>)" if "depths_ok K d" for K
      using that e f(5) by (auto simp: depths_ok_def)
    ultimately show ?thesis using A(2) by (intro goal [of False "d\<lparr>fd_entries := ?h(p \<mapsto> ?f)\<rparr>" L]) simp_all
  qed
qed

lemma release_old_ok:
  assumes inv: "fd_inv A (refs d) d L" and flag: "fs_flag (fd_slots d i) = 0 \<Longrightarrow> refs d i = 0"
  obtains d1 L1 where "release_old i d = Some d1" "fd_inv A ((refs d)(i := 0)) d1 L1" "tables_differ d d1"
    "\<And>j. j \<noteq> i \<Longrightarrow> fd_slots d1 j = fd_slots d j" "\<And>K. depths_ok K d \<Longrightarrow> depths_ok K d1"
proof (cases "refs d i = 0")
  case True
  then have "(refs d)(i := 0) = refs d" by auto
  then show ?thesis using that [of d L] inv True by (simp add: release_old_def Let_def refs_def)
next
  case False
  note goal = that
  obtain e where e: "fd_entries d (refs d i) = Some e"
    using content_okD(3) [of A "refs d" "fd_entries d" i] inv False by (auto simp: fd_inv_def)
  have same: "d\<lparr>fd_entries := (fd_entries d)(refs d i \<mapsto> e)\<rparr> = d" using e by (simp add: fun_upd_idem)
  show ?thesis
  proof (rule drop_ref [OF inv refl False e, of e], simp_all add: same del: fun_upd_apply)
    fix freed d1 L1
    assume A: "drop_allocation (refs d i) d = Some (freed, d1)" "fd_inv A ((refs d)(i := 0)) d1 L1"
      "tables_differ d d1" "fd_slots d1 = fd_slots d" "\<And>K. depths_ok K d \<Longrightarrow> depths_ok K d1"
    let ?d2 = "if freed then put_slot i ((fd_slots d i)\<lparr>fs_pbtentry := 0\<rparr>) d1 else d1"
    have "release_old i d = Some ?d2" using A(1) flag False by (auto simp: release_old_def Let_def refs_def)
    moreover have "tables_differ d ?d2" using A(3) tables_differ_trans [OF A(3)] by simp
    ultimately show ?thesis using A(2,4,5) by (intro goal [of ?d2 L1]) simp_all
  qed
qed

text \<open>The outcome of looking for the trace.\<close>

lemma fd_find_entry_ok:
  assumes "lists_ok d L" "slot = bt_slot bt"
  obtains (found) p e where "fd_find_entry d behind bt slot = Some p" "p \<noteq> 0" "fd_entries d p = Some e" "agrees (fe_backtrace e) bt"
  | (missing) "fd_find_entry d behind bt slot = Some 0" "\<And>p e. fd_entries d p = Some e \<Longrightarrow> fe_slot e = slot \<Longrightarrow> fe_backtrace e \<noteq> bt"
proof -
  note D = lists_okD [OF assms(1)]
  have s: "slot < FD_HASH_TABLE_SIZE" using assms(2) bt_slot_less by simp
  have c: "chain fe_prev fe_next (fd_entries d) 0 (pbtentry_list d slot) (L slot)" by (rule bucketsD(1) [OF D(1) s])
  let ?P = "\<lambda>x. fd_matches behind bt x (the (fd_entries d x))"
  have r: "fd_find_entry d behind bt slot = Some (case filter ?P (L slot) of [] \<Rightarrow> 0 | x # _ \<Rightarrow> x)"
    unfolding fd_find_entry_def by (rule search_entry_chain [OF c])
  show ?thesis
  proof (rule filter_head_cases [of ?P "L slot"])
    assume n: "filter ?P (L slot) = []" "(case filter ?P (L slot) of [] \<Rightarrow> 0 | x # _ \<Rightarrow> x) = 0"
    have "fe_backtrace e \<noteq> bt" if "fd_entries d p = Some e" "fe_slot e = slot" for p e
    proof
      assume "fe_backtrace e = bt"
      then have "?P p" using that(1) by (simp add: fd_matches_iff words_of_itself)
      moreover have "p \<in> set (L slot)" using D(3) [OF that(1)] that(2) by simp
      ultimately show False using n(1) by (simp add: filter_empty_conv)
    qed
    then show ?thesis using missing r n(2) by simp
  next
    fix x assume x: "x \<in> set (L slot)" "?P x" "(case filter ?P (L slot) of [] \<Rightarrow> 0 | x # _ \<Rightarrow> x) = x"
    obtain e where e: "fd_entries d x = Some e" "x \<noteq> 0" using chain_mem [OF c x(1)] by auto
    then have "agrees (fe_backtrace e) bt" using x(2) by (simp add: fd_matches_iff words_agree)
    then show ?thesis using found r x(3) e by simp
  qed
qed

lemma lists_max: "lists_ok d L \<Longrightarrow> p \<in> dom (fd_entries d) \<Longrightarrow> lists_ok (d\<lparr>gPMaxFdBtEntry := p\<rparr>) L"
  by (simp add: lists_ok_def)

lemma note_max_ok:
  assumes l: "lists_ok d L" and p: "p \<in> dom (fd_entries d)"
  obtains m where "note_max p e d = Some (d\<lparr>gPMaxFdBtEntry := m\<rparr>)" "lists_ok (d\<lparr>gPMaxFdBtEntry := m\<rparr>) L"
proof (cases "gPMaxFdBtEntry d = 0")
  case True
  then show ?thesis using that [of p] lists_max [OF l p] by (simp add: note_max_def)
next
  case False
  then obtain b where b: "fd_entries d (gPMaxFdBtEntry d) = Some b" using lists_okD(5) [OF l] by auto
  show ?thesis
  proof (cases "fe_allocations b < fe_allocations e")
    case True
    then show ?thesis using that [of p] lists_max [OF l p] False b by (simp add: note_max_def)
  next
    case no: False
    then show ?thesis using that [of "gPMaxFdBtEntry d"] l False b by (simp add: note_max_def)
  qed
qed

lemma lists_finite: "lists_ok d L \<Longrightarrow> finite (dom (fd_entries d))"
proof -
  assume "lists_ok d L"
  then have "dom (fd_entries d) = (\<Union>s < FD_HASH_TABLE_SIZE. set (L s))"
    using lists_okD(2) [of d L] by (auto simp: members_def)
  then show ?thesis by simp
qed

lemma live_card: "lists_ok d L \<Longrightarrow> card (fd_live d) \<le> card (dom (fd_entries d)) + 2"
proof -
  assume "lists_ok d L"
  have "card {gPFDBACKTRACETable d, gPFDBtEntryTable d} \<le> 2" by (simp add: card_insert_if)
  then show ?thesis using card_Un_le [of "dom (fd_entries d)" "{gPFDBACKTRACETable d, gPFDBtEntryTable d}"]
    by (simp add: fd_live_def)
qed

text \<open>One more descriptor for an entry that is there.\<close>

lemma fd_bump_ok:
  assumes inv: "fd_inv A R d L" and i: "R i = 0" "i < 1000" and p: "fd_entries d p = Some e" and bt: "agrees (fe_backtrace e) bt" "bt \<noteq> []"
  obtains m where
    "\<not> 1024 \<le> fe_allocations (e\<lparr>fe_allocations := fe_allocations e + 1\<rparr>)"
    "note_max p (e\<lparr>fe_allocations := fe_allocations e + 1\<rparr>)
       (d\<lparr>fd_entries := (fd_entries d)(p \<mapsto> mark_fd i (e\<lparr>fe_allocations := fe_allocations e + 1\<rparr>))\<rparr>)
     = Some (d\<lparr>fd_entries := (fd_entries d)(p \<mapsto> mark_fd i (e\<lparr>fe_allocations := fe_allocations e + 1\<rparr>)), gPMaxFdBtEntry := m\<rparr>)"
    "fd_inv (A(i \<mapsto> bt)) (R(i := p))
       (d\<lparr>fd_entries := (fd_entries d)(p \<mapsto> mark_fd i (e\<lparr>fe_allocations := fe_allocations e + 1\<rparr>)), gPMaxFdBtEntry := m\<rparr>) L"
proof -
  let ?e = "mark_fd i (e\<lparr>fe_allocations := fe_allocations e + 1\<rparr>)"
  have l: "lists_ok d L" and c: "content_ok A R (fd_entries d)" using inv by (simp_all add: fd_inv_def)
  have h0: "fd_entries d 0 = None" using lists_okD(6) [OF l] by (cases "fd_entries d 0") auto
  have p0: "p \<noteq> 0" by (rule lists_okD(6) [OF l p])
  have n: "card (holders R p) \<le> 1000" by (rule holders_bound(2) [OF _ p0]) (rule content_okD(2) [OF c])
  have "fe_allocations e + 1 = of_nat (Suc (card (holders R p)))"
    using content_okD(1) [OF c p] by (simp add: entry_ok_def)
  moreover have "unat (of_nat (Suc (card (holders R p))) :: u32) = Suc (card (holders R p))"
    using n by (simp only: unat_of_nat) simp
  ultimately have u: "unat (fe_allocations e + 1) = Suc (card (holders R p))" by (simp only:)
  have small: "\<not> 1024 \<le> fe_allocations (e\<lparr>fe_allocations := fe_allocations e + 1\<rparr>)"
    using n by (simp add: word_le_nat_alt u)
  have "content_ok (A(i \<mapsto> bt)) (R(i := p)) ((fd_entries d)(p \<mapsto> ?e))"
  proof (rule content_bump [OF c i p h0 bt])
    show "marked i ?e" by (rule mark_marks [OF i(2)])
    show "marked j ?e" if "marked j e" for j using that by (intro mark_keeps) simp
  qed simp_all
  moreover have l': "lists_ok (d\<lparr>fd_entries := (fd_entries d)(p \<mapsto> ?e)\<rparr>) L" by (rule lists_payload [OF l p]) simp_all
  moreover have "p \<in> dom (fd_entries (d\<lparr>fd_entries := (fd_entries d)(p \<mapsto> ?e)\<rparr>))" by simp
  ultimately show ?thesis using small that note_max_ok [OF l', of p "e\<lparr>fe_allocations := fe_allocations e + 1\<rparr>"]
    by (auto simp: fd_inv_def)
qed

text \<open>
  Recording a descriptor: never a fault. It refers to an entry afterwards unless there was no trace or the heap
  is used up.
\<close>

lemma record_fd_info_ok:
  assumes t: "fd_table_ok K A d" and k: "bt \<noteq> [] \<Longrightarrow> length bt \<in> K" and fm: "fresh_malloc (ev_malloc ev)" and ms: "gFDMspace d \<noteq> 0" and tb: "gPFDBACKTRACETable d \<noteq> 0"
    and fd: "0 \<le> fd" "fd < 1000"
  obtains d' where "record_fd_info ev bt fd d = Some d'" "fd_table_ok K (A(nat fd \<mapsto> bt)) d'" "tables_differ d d'"
    "\<And>j. j \<noteq> nat fd \<Longrightarrow> refs d' j = refs d j"
    "refs d' (nat fd) \<noteq> 0 \<or> bt = [] \<or> (\<exists>X n. ev_malloc ev X n = 0 \<and> card X \<le> card (dom (fd_entries d')) + 2)"
proof -
  note goal = that
  define i where "i = nat fd"
  have i: "i < 1000" using fd by (simp add: i_def)
  have at: "fd_slot_at d fd = Some i" using tb fd by (simp add: fd_slot_at_def FD_MAX_SIZE_def i_def)
  obtain L where inv: "fd_inv A (refs d) d L" and flags: "\<And>j. fs_flag (fd_slots d j) \<noteq> 0 \<longleftrightarrow> A j \<noteq> None" and dep: "depths_ok K d"
      and lens: "\<And>j bt. A j = Some bt \<Longrightarrow> bt = [] \<or> length bt \<in> K"
    using t unfolding fd_table_ok_def by blast
  have flag: "refs d i = 0" if "fs_flag (fd_slots d i) = 0"
  proof (rule ccontr)
    assume "refs d i \<noteq> 0"
    then have "A i \<noteq> None" using inv unfolding fd_inv_def content_ok_def ref_ok_def by blast
    then show False using flags that by blast
  qed
  obtain d1 L1 where r: "release_old i d = Some d1" and inv1: "fd_inv A ((refs d)(i := 0)) d1 L1"
    and td: "tables_differ d d1" and s1: "\<And>j. j \<noteq> i \<Longrightarrow> fd_slots d1 j = fd_slots d j" and dep1: "depths_ok K d1"
    using release_old_ok [OF inv flag] dep by metis
  define d2 where "d2 = put_slot i ((fd_slots d1 i)\<lparr>fs_flag := 1\<rparr>) d1"
  let ?R = "(refs d)(i := 0)"
  have inv2: "fd_inv A ?R d2 L1" and td2: "tables_differ d d2"
    using inv1 tables_differ_trans [OF td] by (simp_all add: d2_def)
  have dep2: "depths_ok K d2" using dep1 by (simp add: d2_def)
  have l2: "lists_ok d2 L1" and c2: "content_ok A ?R (fd_entries d2)" using inv2 by (simp_all add: fd_inv_def)
  have ms2: "gFDMspace d2 \<noteq> 0"
    using ms arg_cong [OF td2 [unfolded tables_differ_def], of gFDMspace] by (simp add: untabled_def)
  have refs2: "refs d2 j = refs d j" if "j \<noteq> i" for j using s1 [OF that] that by (simp add: d2_def refs_def)
  text \<open>The last step: the slot gets its entry.\<close>
  have final: ?thesis
    if run: "record_fd_info ev bt fd d = Some (put_slot i ((fd_slots dd i)\<lparr>fs_pbtentry := p\<rparr>) dd)"
      and inv3: "fd_inv (A(i \<mapsto> bt)) (?R(i := p)) dd LL" and s3: "fd_slots dd = fd_slots d2" and td3: "tables_differ d2 dd" and dep3: "depths_ok K dd"
      and heap: "p \<noteq> 0 \<or> bt = [] \<or> (\<exists>X n. ev_malloc ev X n = 0 \<and> card X \<le> card (dom (fd_entries dd)) + 2)"
    for dd p LL
  proof -
    let ?d = "put_slot i ((fd_slots dd i)\<lparr>fs_pbtentry := p\<rparr>) dd"
    have ri: "refs ?d = ?R(i := p)"
      using refs2 s3 by (auto simp: fun_eq_iff refs_def)
    have fl: "fs_flag (fd_slots ?d j) \<noteq> 0 \<longleftrightarrow> (A(i \<mapsto> bt)) j \<noteq> None" for j
      using flags s1 s3 by (cases "j = i") (simp_all add: d2_def)
    have "fd_inv (A(i \<mapsto> bt)) (refs ?d) ?d LL" unfolding ri using inv3 by simp
    then have ok: "fd_table_ok K (A(i \<mapsto> bt)) ?d" using fl
      by (rule fd_table_ok_I) (use dep3 k lens in \<open>auto split: if_splits\<close>)
    have td': "tables_differ d ?d" by (rule tables_differ_trans [OF tables_differ_trans [OF td2 td3]]) simp
    show ?thesis
    proof (rule goal [of ?d])
      show "refs ?d j = refs d j" if "j \<noteq> nat fd" for j unfolding ri using that by (simp add: i_def)
      show "refs ?d (nat fd) \<noteq> 0 \<or> bt = [] \<or> (\<exists>X n. ev_malloc ev X n = 0 \<and> card X \<le> card (dom (fd_entries ?d)) + 2)"
        unfolding ri i_def [symmetric] using heap by simp
    qed (use run ok td' in \<open>simp_all add: i_def\<close>)
  qed
  have none: "fd_inv (A(i \<mapsto> bt)) (?R(i := 0)) d2 L1"
    using inv2 content_A [OF c2, of i "Some bt"] by (simp add: fd_inv_def)
  define slot where "slot = unat (get_hash 0 bt) mod FD_HASH_TABLE_SIZE"
  have slot: "slot = bt_slot bt" by (simp add: slot_def bt_slot_def)
  have s2: "fd_slots d2 i = (fd_slots d1 i)\<lparr>fs_flag := 1\<rparr>" by (simp add: d2_def)
  note run = record_fd_info_def at r s2 d2_def [symmetric] slot_def [symmetric] Let_def
  show ?thesis
  proof (cases "bt = []")
    case True
    then show ?thesis by (intro final [where dd = d2 and p = 0 and LL = L1]) (use none dep2 in \<open>simp_all add: run\<close>)
  next
    case ne: False
    show ?thesis
    proof (rule fd_find_entry_ok [OF l2 slot, of "ev_behind ev"])
      fix p e assume p: "fd_find_entry d2 (ev_behind ev) bt slot = Some p" "p \<noteq> 0" "fd_entries d2 p = Some e" "agrees (fe_backtrace e) bt"
      let ?e = "e\<lparr>fe_allocations := fe_allocations e + 1\<rparr>"
      have ri: "?R i = 0" by simp
      show ?thesis
      proof (rule fd_bump_ok [OF inv2 ri i p(3,4) ne])
        fix m
        let ?d3 = "d2\<lparr>fd_entries := (fd_entries d2)(p \<mapsto> mark_fd i ?e), gPMaxFdBtEntry := m\<rparr>"
        assume B: "\<not> 1024 \<le> fe_allocations ?e"
          "note_max p ?e (d2\<lparr>fd_entries := (fd_entries d2)(p \<mapsto> mark_fd i ?e)\<rparr>) = Some ?d3"
          "fd_inv (A(i \<mapsto> bt)) (?R(i := p)) ?d3 L1"
        have "tables_differ d2 ?d3" by (simp add: tables_differ_def untabled_def)
        moreover have dep3: "depths_ok K ?d3" using dep2 p(3) by (auto simp: depths_ok_def)
        ultimately show ?thesis by (intro final [where dd = ?d3 and p = p and LL = L1]) (use B p ne dep3 in \<open>simp_all add: run\<close>)
      qed
    next
      assume f: "fd_find_entry d2 (ev_behind ev) bt slot = Some 0"
        "\<And>p e. fd_entries d2 p = Some e \<Longrightarrow> fe_slot e = slot \<Longrightarrow> fe_backtrace e \<noteq> bt"
      define n where "n = ev_malloc ev (fd_live d2) (sizeof_FdBtEntry + length bt * 4)"
      show ?thesis
      proof (cases "n = 0")
        case True
        have "\<exists>X k. ev_malloc ev X k = 0 \<and> card X \<le> card (dom (fd_entries d2)) + 2"
          using True live_card [OF l2] by (auto simp: n_def)
        then show ?thesis
          by (intro final [where dd = d2 and p = 0 and LL = L1]) (use none ne f(1) ms2 True dep2 in \<open>simp_all add: run n_def [symmetric]\<close>)
      next
        case False
        have "n \<notin> fd_live d2" using fm False by (auto simp: fresh_malloc_def n_def)
        then have nn: "fd_entries d2 n = None" by (auto simp: fd_live_def)
        have h0: "fd_entries d2 0 = None" using lists_okD(6) [OF l2] by (cases "fd_entries d2 0") auto
        let ?n = "new_entry slot bt i"
        have new: "fe_backtrace e \<noteq> bt" if "fd_entries d2 p = Some e" for p e
          using f(2) [OF that] content_okD(1) [OF c2 that] slot by (auto simp: entry_ok_def)
        have cn: "content_ok (A(i \<mapsto> bt)) (?R(i := n)) ((fd_entries d2)(n \<mapsto> ?n))"
          unfolding slot by (rule content_new [OF c2 _ i nn False h0 new ne]) simp
        have sn: "fe_slot ?n = slot" "slot < FD_HASH_TABLE_SIZE" using slot bt_slot_less by (simp_all add: new_entry_def)
        obtain H where H: "insert_entry n slot (d2\<lparr>fd_entries := (fd_entries d2)(n \<mapsto> ?n)\<rparr>)
            = Some (d2\<lparr>fd_entries := H, pbtentry_list := (pbtentry_list d2)(slot := n)\<rparr>)"
          "fe.pays H = (fe.pays (fd_entries d2))(n \<mapsto> said ?n)"
          "lists_ok (d2\<lparr>fd_entries := H, pbtentry_list := (pbtentry_list d2)(slot := n)\<rparr>) (L1(slot := n # L1 slot))"
          by (rule insert_ok [OF l2 nn False sn])
        let ?d3 = "d2\<lparr>fd_entries := H, pbtentry_list := (pbtentry_list d2)(slot := n)\<rparr>"
        have dep3: "depths_ok K ?d3"
          by (rule depths_upd(1) [OF dep2 _ H(2)]) (use k ne in \<open>simp_all add: said_ok new_entry_def\<close>)
        have "fe.pays H = fe.pays ((fd_entries d2)(n \<mapsto> ?n))" using H(2) by (simp add: said_def)
        then have "fd_inv (A(i \<mapsto> bt)) (?R(i := n)) ?d3 (L1(slot := n # L1 slot))"
          using content_same_pays [OF _ cn] H(3) by (simp add: fd_inv_def)
        then show ?thesis
          by (intro final [where dd = ?d3 and p = n]) (use ne f(1) ms2 False H(1) dep3 in \<open>simp_all add: run n_def [symmetric]\<close>)
      qed
    qed
  qed
qed

text \<open>Removing a descriptor, recorded or not.\<close>

lemma remove_fd_info_ok:
  assumes t: "fd_table_ok K A d" and tb: "gPFDBACKTRACETable d \<noteq> 0" and fd: "0 \<le> fd" "fd < 1000"
  obtains d' where "remove_fd_info fd d = Some d'" "fd_table_ok K (A(nat fd := None)) d'" "tables_differ d d'"
    "\<And>j. j \<noteq> nat fd \<Longrightarrow> refs d' j = refs d j"
proof -
  note goal = that
  define i where "i = nat fd"
  have i: "i < 1000" using fd by (simp add: i_def)
  have at: "fd_slot_at d fd = Some i" using tb fd by (simp add: fd_slot_at_def FD_MAX_SIZE_def i_def)
  obtain L where inv: "fd_inv A (refs d) d L" and flags: "\<And>j. fs_flag (fd_slots d j) \<noteq> 0 \<longleftrightarrow> A j \<noteq> None" and dep: "depths_ok K d"
      and lens: "\<And>j bt. A j = Some bt \<Longrightarrow> bt = [] \<or> length bt \<in> K"
    using t unfolding fd_table_ok_def by blast
  have c: "content_ok A (refs d) (fd_entries d)" using inv by (simp add: fd_inv_def)
  have final: ?thesis
    if run: "remove_fd_info fd d = Some d'" and inv3: "fd_inv A ((refs d)(i := 0)) d' L'" and ri: "refs d' = (refs d)(i := 0)"
      and fl: "fs_flag (fd_slots d' i) = 0" "\<And>j. j \<noteq> i \<Longrightarrow> fs_flag (fd_slots d' j) = fs_flag (fd_slots d j)"
      and td: "tables_differ d d'" and dep': "depths_ok K d'" for d' L'
  proof (rule goal [OF run _ td])
    have "content_ok (A(i := None)) ((refs d)(i := 0)) (fd_entries d')"
      using inv3 by (intro content_A) (simp_all add: fd_inv_def)
    then have "fd_inv (A(i := None)) (refs d') d' L'" using inv3 by (simp add: fd_inv_def ri)
    moreover have "fs_flag (fd_slots d' j) \<noteq> 0 \<longleftrightarrow> (A(i := None)) j \<noteq> None" for j using fl flags by (cases "j = i") simp_all
    ultimately show "fd_table_ok K (A(nat fd := None)) d'" using dep' lens by (auto simp: fd_table_ok_def i_def)
    show "refs d' j = refs d j" if "j \<noteq> nat fd" for j using that by (simp add: ri i_def)
  qed
  show ?thesis
  proof (cases "fs_flag (fd_slots d i) = 0")
    case True
    then have "A i = None" using flags by blast
    then have "refs d i = 0" using content_okD(3) [OF c, of i] by (auto simp: ref_ok_def)
    then have ri: "refs d = (refs d)(i := 0)" by auto
    then show ?thesis using True at inv dep by (intro final [of d L]) (simp_all add: remove_fd_info_def)
  next
    case flag: False
    define d1 where "d1 = put_slot i ((fd_slots d i)\<lparr>fs_flag := 0\<rparr>) d"
    have ri1: "refs d1 = refs d" by (simp add: d1_def refs_def fun_eq_iff)
    have inv1: "fd_inv A (refs d1) d1 L" using inv ri1 by (simp add: d1_def)
    have dep1: "depths_ok K d1" using dep by (simp add: d1_def)
    note run = remove_fd_info_def at flag d1_def [symmetric] Let_def
    have pe: "fs_pbtentry (fd_slots d1 i) = refs d i" by (simp add: d1_def refs_def)
    show ?thesis
    proof (cases "refs d i = 0")
      case True
      then have "refs d = (refs d)(i := 0)" by auto
      then show ?thesis using True inv1 ri1 pe dep1 by (intro final [of d1 L]) (simp_all add: run, simp_all add: d1_def)
    next
      case False
      obtain e where e: "fd_entries d1 (refs d i) = Some e"
        using content_okD(3) [OF c False] by (auto simp: d1_def)
      have ri': "refs d1 i = refs d i" by (simp add: ri1)
      show ?thesis
      proof (rule drop_ref [OF inv1 ri' False e, of "unmark_fd i e"], simp_all add: unmark_keeps i ri1 del: fun_upd_apply)
        fix freed d2 L2
        assume D: "drop_allocation (refs d i) (d1\<lparr>fd_entries := (fd_entries d1)(refs d i \<mapsto> unmark_fd i e)\<rparr>) = Some (freed, d2)"
          "fd_inv A ((refs d)(i := 0)) d2 L2" "tables_differ d1 d2" "fd_slots d2 = fd_slots d1"
          "\<And>K. depths_ok K d1 \<Longrightarrow> depths_ok K d2"
        let ?d = "put_slot i ((fd_slots d2 i)\<lparr>fs_pbtentry := 0\<rparr>) d2"
        have rd: "refs ?d = (refs d)(i := 0)" using D(4) ri1 by (simp add: refs_def fun_eq_iff)
        have td: "tables_differ d ?d"
          by (rule tables_differ_trans [OF tables_differ_trans [of d d1, OF _ D(3)]]) (simp_all add: d1_def)
        have "remove_fd_info fd d = Some ?d" using e D(1) pe False by (simp add: run)
        then show ?thesis using D(2,4) D(5) [OF dep1] rd td by (intro final [of ?d L2]) (simp_all add: d1_def del: refs_put)
      qed
    qed
  qed
qed

end
