(* ===== verification/FdLeakMain.thy ===== *)
theory FdLeakMain
  imports FdLeakProps
begin

text \<open>
  The descriptor debugger as its program sees it: sequences of calls of the wrapped functions, with forks
  between them, from start up on.
\<close>

section \<open>Calls and what they do to descriptors\<close>

datatype fd_call =
  Close int u64
| Openat int string int int
| Pipe2 int
| Socket int int int
| Accept4 int u32 u32 int
| Socketpair int int int
| Dup int
| Dup3 int int int
| Fcntl int int u32
| Eventfd u32 int
| Epoll_create1 int

abbreviation one_result :: "(int \<times> fdleak) option \<Rightarrow> (int list \<times> fdleak) option" where
  "one_result r \<equiv> map_option (map_prod (\<lambda>x. [x]) id) r"

abbreviation three_results :: "((int \<times> int \<times> int) \<times> fdleak) option \<Rightarrow> (int list \<times> fdleak) option" where
  "three_results r \<equiv> map_option (map_prod (\<lambda>(x, a, b). [x, a, b]) id) r"

fun run_fd_call :: "fd_libc \<Rightarrow> fd_env \<Rightarrow> fd_call \<Rightarrow> fdleak \<Rightarrow> (int list \<times> fdleak) option" where
  "run_fd_call lc ev (Close fd tag) d = one_result (android_fdsan_close_with_tag lc ev fd tag d)"
| "run_fd_call lc ev (Openat dirfd path flags mode) d = one_result (wrap_openat lc ev dirfd path flags mode d)"
| "run_fd_call lc ev (Pipe2 flag) d = three_results (wrap_pipe2 lc ev flag d)"
| "run_fd_call lc ev (Socket a b c) d = one_result (wrap_socket lc ev a b c d)"
| "run_fd_call lc ev (Accept4 fd a l flags) d = one_result (wrap_accept4 lc ev fd a l flags d)"
| "run_fd_call lc ev (Socketpair a b c) d = three_results (wrap_socketpair lc ev a b c d)"
| "run_fd_call lc ev (Dup fd) d = one_result (wrap_dup lc ev fd d)"
| "run_fd_call lc ev (Dup3 fd target flags) d = one_result (wrap_dup3 lc ev fd target flags d)"
| "run_fd_call lc ev (Fcntl fd cmd arg) d = one_result (wrap_fcntl lc ev fd cmd arg d)"
| "run_fd_call lc ev (Eventfd v flags) d = one_result (wrap_eventfd lc ev v flags d)"
| "run_fd_call lc ev (Epoll_create1 flags) d = one_result (wrap_epoll_create1 lc ev flags d)"

text \<open>What the C library alone answers.\<close>

fun plain_call :: "fd_libc \<Rightarrow> fd_call \<Rightarrow> int list" where
  "plain_call lc (Close fd tag) = [lc_fdsanclose lc fd tag]"
| "plain_call lc (Openat dirfd path flags mode) = [lc_openat lc dirfd path flags mode]"
| "plain_call lc (Pipe2 flag) = (case lc_pipe2 lc flag of (r, a, b) \<Rightarrow> [r, a, b])"
| "plain_call lc (Socket a b c) = [lc_socket lc a b c]"
| "plain_call lc (Accept4 fd a l flags) = [lc_accept4 lc fd a l flags]"
| "plain_call lc (Socketpair a b c) = (case lc_socketpair lc a b c of (r, a, b) \<Rightarrow> [r, a, b])"
| "plain_call lc (Dup fd) = [lc_dup lc fd]"
| "plain_call lc (Dup3 fd target flags) = [lc_dup3 lc fd target flags]"
| "plain_call lc (Fcntl fd cmd arg) = [lc_fcntl lc fd cmd arg]"
| "plain_call lc (Eventfd v flags) = [lc_eventfd lc v flags]"
| "plain_call lc (Epoll_create1 flags) = [lc_epoll_create1 lc flags]"

text \<open>The descriptors a call opens (with the \<open>k\<close>-th trace of the call) and gives up, failures included.\<close>

datatype fd_touch = Opened nat int | Closed int

fun touches :: "fd_libc \<Rightarrow> fd_call \<Rightarrow> fd_touch list" where
  "touches lc (Close fd tag) = [Closed fd]"
| "touches lc (Openat dirfd path flags mode) = [Opened 0 (lc_openat lc dirfd path flags mode)]"
| "touches lc (Pipe2 flag) = (case lc_pipe2 lc flag of (r, a, b) \<Rightarrow> if r = 0 then [Opened 0 a, Opened 1 b] else [])"
| "touches lc (Socket a b c) = [Opened 0 (lc_socket lc a b c)]"
| "touches lc (Accept4 fd a l flags) = [Opened 0 (lc_accept4 lc fd a l flags)]"
| "touches lc (Socketpair a b c) = (case lc_socketpair lc a b c of (r, a, b) \<Rightarrow> if r = 0 then [Opened 0 a, Opened 1 b] else [])"
| "touches lc (Dup fd) = [Opened 0 (lc_dup lc fd)]"
| "touches lc (Dup3 fd target flags) = [Closed target, Opened 0 (lc_dup3 lc fd target flags)]"
| "touches lc (Fcntl fd cmd arg) = (if cmd = F_DUPFD \<or> cmd = F_DUPFD_CLOEXEC then [Opened 0 (lc_fcntl lc fd cmd arg)] else [])"
| "touches lc (Eventfd v flags) = [Opened 0 (lc_eventfd lc v flags)]"
| "touches lc (Epoll_create1 flags) = [Opened 0 (lc_epoll_create1 lc flags)]"

text \<open>The map from descriptors to the traces that opened them, from the threshold on.\<close>

type_synonym opened = "nat \<Rightarrow> u32 list option"

definition watched :: "bool \<Rightarrow> int \<Rightarrow> int \<Rightarrow> bool" where
  "watched on thd fd \<longleftrightarrow> on \<and> thd \<le> fd \<and> fd < FD_TABLE_SIZE"

fun note_touch :: "fd_env \<Rightarrow> bool \<Rightarrow> int \<Rightarrow> fd_touch \<Rightarrow> opened \<Rightarrow> opened" where
  "note_touch ev on thd (Opened k fd) A = (if watched on thd fd then A(nat fd \<mapsto> ev_trace ev k) else A)"
| "note_touch ev on thd (Closed fd) A = (if watched on thd fd then A(nat fd := None) else A)"

section \<open>Programs that run to their end\<close>

text \<open>What a call must not change.\<close>

definition cfg :: "fdleak \<Rightarrow> u32 \<times> u32 \<times> int \<times> u32 \<times> u32 \<times> bool \<times> bool \<times> nat \<times> bool" where
  "cfg d = (gFDMspace d, gFDMspaceBackup d, fd_record_thd d, gPFDBACKTRACETable d, gPFDBtEntryTable d,
     disable_key d, disable_flag d, gFDLeakMutex d, fd_atfork d)"

definition fd_good :: "nat set \<Rightarrow> opened \<Rightarrow> fdleak \<Rightarrow> bool" where
  "fd_good K A d \<longleftrightarrow> fd_table_ok K A d \<and> 0 \<le> fd_record_thd d
     \<and> (gFDMspace d \<noteq> 0 \<longrightarrow> gPFDBACKTRACETable d \<noteq> 0 \<and> gPFDBtEntryTable d \<noteq> 0 \<and> gFDLeakMutex d = 0)"

text \<open>
  The environment of a call: the heap hands out fresh blocks, and when the exception is raised its library is
  there and reports success. \<open>K\<close> holds the depths of its traces.
\<close>

definition env_ok :: "nat set \<Rightarrow> fd_env \<Rightarrow> bool" where
  "env_ok K ev \<longleftrightarrow> fresh_malloc (ev_malloc ev) \<and> (\<forall>k. ev_trace ev k = [] \<or> length (ev_trace ev k) \<in> K) \<and> ev_exe ev \<noteq> None
     \<and> (\<forall>lib. \<exists>f. ev_aee ev lib = Some (Some f) \<and> (\<forall>m. f m \<noteq> -1))"

definition libc_ok :: "fd_libc \<Rightarrow> bool" where
  "libc_ok lc \<longleftrightarrow> lc_handle lc \<and> (\<forall>s. lc_has lc s)"

text \<open>\<open>body\<close> never faults, implements the touches \<open>T\<close> and leaves the configuration alone.\<close>

definition acts :: "nat set \<Rightarrow> fd_env \<Rightarrow> (fdleak \<Rightarrow> fdleak option) \<Rightarrow> fd_touch list \<Rightarrow> bool" where
  "acts K ev body T \<longleftrightarrow> (\<forall>d A. fd_good K A d \<longrightarrow> (\<exists>d'. body d = Some d'
     \<and> fd_good K (fold (note_touch ev (gFDMspace d \<noteq> 0) (fd_record_thd d)) T A) d' \<and> cfg d' = cfg d))"

lemma actsD:
  assumes "acts K ev body T" "fd_good K A d"
  obtains d' where "body d = Some d'" "fd_good K (fold (note_touch ev (gFDMspace d \<noteq> 0) (fd_record_thd d)) T A) d'" "cfg d' = cfg d"
  using assms unfolding acts_def by blast

lemma cfg_same: "cfg d' = cfg d \<Longrightarrow> gFDMspace d' = gFDMspace d" "cfg d' = cfg d \<Longrightarrow> fd_record_thd d' = fd_record_thd d"
  "cfg d' = cfg d \<Longrightarrow> disable_key d' = disable_key d" "cfg d' = cfg d \<Longrightarrow> disable_flag d' = disable_flag d"
  "cfg d' = cfg d \<Longrightarrow> gFDLeakMutex d' = gFDLeakMutex d" "cfg d' = cfg d \<Longrightarrow> DisableDebugCalls d' = DisableDebugCalls d"
  "cfg d' = cfg d \<Longrightarrow> gFDMspaceBackup d' = gFDMspaceBackup d" "cfg d' = cfg d \<Longrightarrow> fd_atfork d' = fd_atfork d"
  by (simp_all add: cfg_def DisableDebugCalls_def)

lemma acts_skip: "acts K ev Some []"
  by (simp add: acts_def)

lemma acts_seq:
  assumes "acts K ev b1 T1" "acts K ev b2 T2"
  shows "acts K ev (\<lambda>d. b1 d \<bind> b2) (T1 @ T2)"
  unfolding acts_def
proof (intro allI impI)
  fix d A assume "fd_good K A d"
  then obtain d1 where 1: "b1 d = Some d1" "fd_good K (fold (note_touch ev (gFDMspace d \<noteq> 0) (fd_record_thd d)) T1 A) d1" "cfg d1 = cfg d"
    by (rule actsD [OF assms(1)])
  obtain d2 where "b2 d1 = Some d2" "fd_good K (fold (note_touch ev (gFDMspace d \<noteq> 0) (fd_record_thd d)) (T1 @ T2) A) d2" "cfg d2 = cfg d1"
    using actsD [OF assms(2) 1(2)] cfg_same(1,2) [OF 1(3)] by (metis comp_apply fold_append)
  then show "\<exists>d'. b1 d \<bind> b2 = Some d' \<and> fd_good K (fold (note_touch ev (gFDMspace d \<noteq> 0) (fd_record_thd d)) (T1 @ T2) A) d' \<and> cfg d' = cfg d"
    using 1 by simp
qed

text \<open>Fields that no property of the tables reads.\<close>

lemma fd_table_ok_frame:
  "fd_entries d' = fd_entries d \<Longrightarrow> pbtentry_list d' = pbtentry_list d \<Longrightarrow> gPMaxFdBtEntry d' = gPMaxFdBtEntry d
   \<Longrightarrow> fd_slots d' = fd_slots d \<Longrightarrow> fd_table_ok K A d' = fd_table_ok K A d"
  by (simp add: fd_table_ok_def fd_inv_def lists_ok_def refs_def [abs_def] depths_ok_def)

lemma fd_table_ok_fields [simp]:
  "fd_table_ok K A (d\<lparr>disable_flag := b\<rparr>) = fd_table_ok K A d" "fd_table_ok K A (d\<lparr>gFDLeakMutex := n\<rparr>) = fd_table_ok K A d"
  "fd_table_ok K A (d\<lparr>fd_log := l\<rparr>) = fd_table_ok K A d" "fd_table_ok K A (d\<lparr>rlimit_flag := b\<rparr>) = fd_table_ok K A d"
  "fd_table_ok K A (d\<lparr>aee_flag := b\<rparr>) = fd_table_ok K A d" "fd_table_ok K A (d\<lparr>aee_flag := b, fd_log := l\<rparr>) = fd_table_ok K A d"
  "fd_table_ok K A (d\<lparr>fdleak_libc_handle := b, real_fd := r\<rparr>) = fd_table_ok K A d"
  by (rule fd_table_ok_frame; simp)+

lemma acts_hooked: "libc_ok lc \<Longrightarrow> acts K ev (hooked lc s) []"
  by (auto simp: acts_def hooked_def fd_func_rehook_def libc_ok_def fd_good_def cfg_def Let_def)

lemma acts_scoped:
  assumes b: "acts K ev body T"
  shows "acts K ev (scoped_disable body) T"
  unfolding acts_def
proof (intro allI impI)
  fix d A assume g: "fd_good K A d"
  show "\<exists>d'. scoped_disable body d = Some d'
    \<and> fd_good K (fold (note_touch ev (gFDMspace d \<noteq> 0) (fd_record_thd d)) T A) d' \<and> cfg d' = cfg d"
  proof (cases "disable_key d \<and> \<not> disable_flag d")
    case True
    have "fd_good K A (d\<lparr>disable_flag := True\<rparr>)" using g by (simp add: fd_good_def)
    then obtain d2 where "body (d\<lparr>disable_flag := True\<rparr>) = Some d2"
      "fd_good K (fold (note_touch ev (gFDMspace d \<noteq> 0) (fd_record_thd d)) T A) d2" "cfg d2 = cfg (d\<lparr>disable_flag := True\<rparr>)"
      using actsD [OF b, of A "d\<lparr>disable_flag := True\<rparr>"] by auto
    then show ?thesis using True
      by (auto simp: scoped_disable_def DisableDebugCalls_def SetDebugDisable_def Let_def fd_good_def cfg_def)
  next
    case False
    obtain d2 where d2: "body d = Some d2"
      "fd_good K (fold (note_touch ev (gFDMspace d \<noteq> 0) (fd_record_thd d)) T A) d2" "cfg d2 = cfg d"
      using actsD [OF b g] by blast
    then show ?thesis using False cfg_same(3) [OF d2(3)]
      by (auto simp: scoped_disable_def DisableDebugCalls_def SetDebugDisable_def Let_def)
  qed
qed

section \<open>Recording and removing\<close>

lemma untabled_cfg: "tables_differ d d' \<Longrightarrow> cfg d' = cfg d"
  unfolding tables_differ_def
  by (drule arg_cong [where f = cfg]) (simp add: cfg_def untabled_def)

lemma fd_locked:
  assumes "fd_good K A d" "gFDMspace d \<noteq> 0"
  shows "fd_lock d = Some (d\<lparr>gFDLeakMutex := 1\<rparr>)" "fd_table_ok K A (d\<lparr>gFDLeakMutex := 1\<rparr>)" "gPFDBACKTRACETable d \<noteq> 0"
  using assms by (simp_all add: fd_lock_def fd_good_def)

lemma fd_unlocked:
  assumes g: "fd_good K A d" "gFDMspace d \<noteq> 0" and t: "fd_table_ok K A' d2" "tables_differ (d\<lparr>gFDLeakMutex := 1\<rparr>) d2"
  shows "fd_good K A' (fd_unlock d2)" "cfg (fd_unlock d2) = cfg d"
    "fd_good K A' (dump_bt2log bt fd alloc (fd_unlock d2))" "cfg (dump_bt2log bt fd alloc (fd_unlock d2)) = cfg d"
  using g t(1) untabled_cfg [OF t(2)] by (simp_all add: fd_good_def fd_unlock_def cfg_def dump_bt2log_def Let_def)

lemma exception_ok:
  assumes "env_ok K ev"
  shows "fdleak_aee_system_exception ev m d = Some (d\<lparr>fd_log := fd_log d @ [SystemException m]\<rparr>)"
proof -
  obtain exe where exe: "ev_exe ev = Some exe" using assms by (auto simp: env_ok_def)
  define lib where "lib = (if strncmp_eq ''/vendor/'' exe 8 then ''libaedv.so'' else ''libaed.so'')"
  obtain f where "ev_aee ev lib = Some (Some f)" "\<forall>m. f m \<noteq> -1" using assms unfolding env_ok_def by blast
  then show ?thesis by (simp add: fdleak_aee_system_exception_def exe lib_def [symmetric])
qed

lemma acts_record:
  assumes ev: "env_ok K ev"
  shows "acts K ev (fdleak_record_backtrace ev k fd) [Opened k fd]"
  unfolding acts_def
proof (intro allI impI)
  fix d A assume g: "fd_good K A d"
  show "\<exists>d'. fdleak_record_backtrace ev k fd d = Some d'
    \<and> fd_good K (fold (note_touch ev (gFDMspace d \<noteq> 0) (fd_record_thd d)) [Opened k fd] A) d' \<and> cfg d' = cfg d"
  proof (cases "watched (gFDMspace d \<noteq> 0) (fd_record_thd d) fd")
    case True
    then have w: "gFDMspace d \<noteq> 0" "fd_record_thd d \<le> fd" "fd < FD_TABLE_SIZE" "0 \<le> fd" "fd < 1000"
      using g by (auto simp: watched_def fd_good_def FD_TABLE_SIZE_def)
    note L = fd_locked [OF g w(1)]
    have fm: "fresh_malloc (ev_malloc ev)" and k: "ev_trace ev k \<noteq> [] \<Longrightarrow> length (ev_trace ev k) \<in> K"
      using ev by (auto simp: env_ok_def)
    obtain d2 where "record_fd_info ev (ev_trace ev k) fd (d\<lparr>gFDLeakMutex := 1\<rparr>) = Some d2"
      "fd_table_ok K (A(nat fd \<mapsto> ev_trace ev k)) d2" "tables_differ (d\<lparr>gFDLeakMutex := 1\<rparr>) d2"
      using record_fd_info_ok [OF L(2) k fm _ _ w(4,5)] w(1) L(3) by auto
    then show ?thesis using w(1-3) L(1) True fd_unlocked [OF g w(1)] by (simp add: fdleak_record_backtrace_def Let_def)
  next
    case False
    have "fd_entries d (gPMaxFdBtEntry d) \<noteq> None" if "gPMaxFdBtEntry d \<noteq> 0"
      using g that by (auto simp: fd_good_def fd_table_ok_def fd_inv_def lists_ok_def)
    then have "\<exists>d'. fdleak_record_backtrace ev k fd d = Some d' \<and> fd_good K A d' \<and> cfg d' = cfg d"
      using False g exception_ok [OF ev]
      by (auto simp: fdleak_record_backtrace_def watched_def Let_def fd_good_def cfg_def split: if_splits)
    then show ?thesis using False by simp
  qed
qed

lemma acts_remove: "acts K ev (fdleak_remove_backtrace ev k fd) [Closed fd]"
  unfolding acts_def
proof (intro allI impI)
  fix d A assume g: "fd_good K A d"
  show "\<exists>d'. fdleak_remove_backtrace ev k fd d = Some d'
    \<and> fd_good K (fold (note_touch ev (gFDMspace d \<noteq> 0) (fd_record_thd d)) [Closed fd] A) d' \<and> cfg d' = cfg d"
  proof (cases "watched (gFDMspace d \<noteq> 0) (fd_record_thd d) fd")
    case True
    then have w: "gFDMspace d \<noteq> 0" "fd_record_thd d \<le> fd" "fd < FD_TABLE_SIZE" "0 \<le> fd" "fd < 1000"
      using g by (auto simp: watched_def fd_good_def FD_TABLE_SIZE_def)
    note L = fd_locked [OF g w(1)]
    obtain d2 where "remove_fd_info fd (d\<lparr>gFDLeakMutex := 1\<rparr>) = Some d2"
      "fd_table_ok K (A(nat fd := None)) d2" "tables_differ (d\<lparr>gFDLeakMutex := 1\<rparr>) d2"
      using remove_fd_info_ok [OF L(2) _ w(4,5)] L(3) by auto
    then show ?thesis using w(1-3) L(1) True fd_unlocked [OF g w(1)] by (simp add: fdleak_remove_backtrace_def Let_def)
  qed (use g in \<open>auto simp: fdleak_remove_backtrace_def watched_def\<close>)
qed

section \<open>The wrappers\<close>

text \<open>What a wrapper promises on a thread that is not switched off.\<close>

definition wraps :: "nat set \<Rightarrow> fd_env \<Rightarrow> (fdleak \<Rightarrow> ('r \<times> fdleak) option) \<Rightarrow> 'r \<Rightarrow> fd_touch list \<Rightarrow> bool" where
  "wraps K ev w r T \<longleftrightarrow> (\<forall>d A. fd_good K A d \<longrightarrow> \<not> DisableDebugCalls d \<longrightarrow> (\<exists>d'. w d = Some (r, d')
     \<and> fd_good K (fold (note_touch ev (gFDMspace d \<noteq> 0) (fd_record_thd d)) T A) d' \<and> cfg d' = cfg d))"

lemma acts_wraps: "acts K ev body T \<Longrightarrow> wraps K ev (\<lambda>d. do { d1 \<leftarrow> body d; Some (r, d1) }) r T"
  unfolding acts_def wraps_def by fastforce

lemma wraps_cong: "wraps K ev w r T \<Longrightarrow> (\<And>d. \<not> DisableDebugCalls d \<Longrightarrow> w' d = w d) \<Longrightarrow> wraps K ev w' r T"
  unfolding wraps_def by metis

lemma wraps_after:
  assumes "acts K ev body T1" "wraps K ev w r T2"
  shows "wraps K ev (\<lambda>d. do { d1 \<leftarrow> body d; w d1 }) r (T1 @ T2)"
  unfolding wraps_def
proof (intro allI impI)
  fix d A assume g: "fd_good K A d" "\<not> DisableDebugCalls d"
  obtain d1 where 1: "body d = Some d1" "fd_good K (fold (note_touch ev (gFDMspace d \<noteq> 0) (fd_record_thd d)) T1 A) d1" "cfg d1 = cfg d"
    using actsD [OF assms(1) g(1)] by blast
  have "\<not> DisableDebugCalls d1" using cfg_same(6) [OF 1(3)] g(2) by simp
  then obtain d2 where "w d1 = Some (r, d2)" "cfg d2 = cfg d1"
    "fd_good K (fold (note_touch ev (gFDMspace d1 \<noteq> 0) (fd_record_thd d1)) T2 (fold (note_touch ev (gFDMspace d \<noteq> 0) (fd_record_thd d)) T1 A)) d2"
    using assms(2) [unfolded wraps_def, rule_format, OF 1(2)] by blast
  then show "\<exists>d'. (do { d1 \<leftarrow> body d; w d1 }) = Some (r, d')
    \<and> fd_good K (fold (note_touch ev (gFDMspace d \<noteq> 0) (fd_record_thd d)) (T1 @ T2) A) d' \<and> cfg d' = cfg d"
    using 1 cfg_same(1,2) [OF 1(3)] by simp
qed

lemma record_result_wraps: "env_ok K ev \<Longrightarrow> wraps K ev (record_result ev fd) fd [Opened 0 fd]"
  by (rule wraps_cong [OF acts_wraps [OF acts_scoped [OF acts_record]]]) (simp_all add: record_result_def)

lemma record_pair_wraps:
  assumes "env_ok K ev"
  shows "wraps K ev (record_pair ev (ret, a, b)) (ret, a, b) (if ret = 0 then [Opened 0 a, Opened 1 b] else [])"
proof -
  have "acts K ev (\<lambda>d. if ret = 0 then do { d1 \<leftarrow> fdleak_record_backtrace ev 0 a d; fdleak_record_backtrace ev 1 b d1 } else Some d)
      (if ret = 0 then [Opened 0 a, Opened 1 b] else [])"
    using acts_seq [OF acts_record [OF assms, of 0 a] acts_record [OF assms, of 1 b]] acts_skip by simp
  then show ?thesis
    by (rule wraps_cong [OF acts_wraps [OF acts_scoped]]) (simp add: record_pair_def)
qed

text \<open>The wrappers that open one descriptor first bind their function.\<close>

lemma hooked_wraps:
  assumes "libc_ok lc" "wraps K ev w r T" "\<And>d. w' d = do { d1 \<leftarrow> hooked lc s d; w d1 }"
  shows "wraps K ev w' r T"
  using wraps_cong [OF wraps_after [OF acts_hooked [OF assms(1)] assms(2)]] assms(3) by simp

lemma wrappers:
  assumes lc: "libc_ok lc" and ev: "env_ok K ev"
  shows "wraps K ev (android_fdsan_close_with_tag lc ev fd tag) (lc_fdsanclose lc fd tag) [Closed fd]"
    and "wraps K ev (wrap_dup3 lc ev fd target flags) (lc_dup3 lc fd target flags) [Closed target, Opened 0 (lc_dup3 lc fd target flags)]"
    and "wraps K ev (wrap_fcntl lc ev fd cmd arg) (lc_fcntl lc fd cmd arg)
      (if cmd = F_DUPFD \<or> cmd = F_DUPFD_CLOEXEC then [Opened 0 (lc_fcntl lc fd cmd arg)] else [])"
proof -
  have "acts K ev (\<lambda>d. do { d1 \<leftarrow> fdleak_remove_backtrace ev 0 fd d; hooked lc S_fdsanclose d1 }) [Closed fd]"
    using acts_seq [OF acts_remove acts_hooked [OF lc]] by simp
  then show "wraps K ev (android_fdsan_close_with_tag lc ev fd tag) (lc_fdsanclose lc fd tag) [Closed fd]"
    by (rule wraps_cong [OF acts_wraps [OF acts_scoped]]) (simp add: android_fdsan_close_with_tag_def)
  show "wraps K ev (wrap_dup3 lc ev fd target flags) (lc_dup3 lc fd target flags) [Closed target, Opened 0 (lc_dup3 lc fd target flags)]"
    by (rule hooked_wraps [OF lc wraps_after [OF acts_remove record_result_wraps [OF ev], simplified]]) (simp add: wrap_dup3_def)
  let ?body = "\<lambda>d. if cmd = F_DUPFD \<or> cmd = F_DUPFD_CLOEXEC then fdleak_record_backtrace ev 0 (lc_fcntl lc fd cmd arg) d else Some d"
  have "acts K ev ?body (if cmd = F_DUPFD \<or> cmd = F_DUPFD_CLOEXEC then [Opened 0 (lc_fcntl lc fd cmd arg)] else [])"
    using acts_record [OF ev] acts_skip by simp
  then have "wraps K ev (\<lambda>d. if DisableDebugCalls d then Some (lc_fcntl lc fd cmd arg, d)
        else do { d2 \<leftarrow> scoped_disable ?body d; Some (lc_fcntl lc fd cmd arg, d2) }) (lc_fcntl lc fd cmd arg)
      (if cmd = F_DUPFD \<or> cmd = F_DUPFD_CLOEXEC then [Opened 0 (lc_fcntl lc fd cmd arg)] else [])"
    by (rule wraps_cong [OF acts_wraps [OF acts_scoped]]) simp
  then show "wraps K ev (wrap_fcntl lc ev fd cmd arg) (lc_fcntl lc fd cmd arg)
      (if cmd = F_DUPFD \<or> cmd = F_DUPFD_CLOEXEC then [Opened 0 (lc_fcntl lc fd cmd arg)] else [])"
    by (rule hooked_wraps [OF lc]) (simp add: wrap_fcntl_def Let_def)
qed

lemma one_wrap: "wraps K ev w r T \<Longrightarrow> wraps K ev (\<lambda>d. one_result (w d)) [r] T"
  unfolding wraps_def by fastforce

lemma three_wrap: "wraps K ev w (r, a, b) T \<Longrightarrow> wraps K ev (\<lambda>d. three_results (w d)) [r, a, b] T"
  unfolding wraps_def by fastforce

lemma run_call_wraps:
  assumes lc: "libc_ok lc" and ev: "env_ok K ev"
  shows "wraps K ev (run_fd_call lc ev c) (plain_call lc c) (touches lc c)"
proof -
  note one = one_wrap [OF hooked_wraps [OF lc record_result_wraps [OF ev]]]
  have three: "wraps K ev (\<lambda>d. three_results (w d)) (case r of (r, a, b) \<Rightarrow> [r, a, b])
      (case r of (r, a, b) \<Rightarrow> if r = 0 then [Opened 0 a, Opened 1 b] else [])"
    if "\<And>d. w d = do { d1 \<leftarrow> hooked lc s d; record_pair ev r d1 }" for w r s
    using three_wrap [OF hooked_wraps [OF lc record_pair_wraps [OF ev, of "fst r" "fst (snd r)" "snd (snd r)"], of w s]] that
    by (simp add: case_prod_beta)
  show ?thesis
  proof (cases c)
    case (Close fd tag)
    then show ?thesis by (simp only: plain_call.simps touches.simps) (rule wraps_cong [OF one_wrap [OF wrappers(1) [OF lc ev]]], simp)
  next
    case (Openat dirfd path flags mode)
    then show ?thesis by (simp only: plain_call.simps touches.simps) (rule wraps_cong [OF one [OF wrap_openat_def]], simp)
  next
    case (Pipe2 flag)
    then show ?thesis by (simp only: plain_call.simps touches.simps) (rule wraps_cong [OF three [OF wrap_pipe2_def]], simp)
  next
    case (Socket a b c)
    then show ?thesis by (simp only: plain_call.simps touches.simps) (rule wraps_cong [OF one [OF wrap_socket_def]], simp)
  next
    case (Accept4 fd a l flags)
    then show ?thesis by (simp only: plain_call.simps touches.simps) (rule wraps_cong [OF one [OF wrap_accept4_def]], simp)
  next
    case (Socketpair a b c)
    then show ?thesis by (simp only: plain_call.simps touches.simps) (rule wraps_cong [OF three [OF wrap_socketpair_def]], simp)
  next
    case (Dup fd)
    then show ?thesis by (simp only: plain_call.simps touches.simps) (rule wraps_cong [OF one [OF wrap_dup_def]], simp)
  next
    case (Dup3 fd target flags)
    then show ?thesis by (simp only: plain_call.simps touches.simps) (rule wraps_cong [OF one_wrap [OF wrappers(2) [OF lc ev]]], simp)
  next
    case (Fcntl fd cmd arg)
    then show ?thesis by (simp only: plain_call.simps touches.simps) (rule wraps_cong [OF one_wrap [OF wrappers(3) [OF lc ev]]], simp)
  next
    case (Eventfd v flags)
    then show ?thesis by (simp only: plain_call.simps touches.simps) (rule wraps_cong [OF one [OF wrap_eventfd_def]], simp)
  next
    case (Epoll_create1 flags)
    then show ?thesis by (simp only: plain_call.simps touches.simps) (rule wraps_cong [OF one [OF wrap_epoll_create1_def]], simp)
  qed
qed

section \<open>Sequences of calls, and forks\<close>

text \<open>
  A fork runs the handlers when they are registered, with the calls that other threads make between the first
  and the last of them; \<open>child\<close> says in which of the two processes the program goes on.
\<close>

type_synonym fd_env_call = "fd_libc \<times> fd_env \<times> fd_call"

datatype fd_step = Call fd_env_call | Fork bool "fd_env_call list"

fun run_fd_calls :: "fd_env_call list \<Rightarrow> fdleak \<Rightarrow> (int list list \<times> fdleak) option" where
  "run_fd_calls [] d = Some ([], d)"
| "run_fd_calls ((lc, ev, c) # cs) d = do {
     (r, d1) \<leftarrow> run_fd_call lc ev c d;
     (rs, d2) \<leftarrow> run_fd_calls cs d1;
     Some (r # rs, d2) }"

fun run_fd_step :: "fd_step \<Rightarrow> fdleak \<Rightarrow> (int list list \<times> fdleak) option" where
  "run_fd_step (Call x) d = run_fd_calls [x] d"
| "run_fd_step (Fork child cs) d =
     (if fd_atfork d then do {
        d1 \<leftarrow> fdleak_debug_prepare d;
        (rs, d2) \<leftarrow> run_fd_calls cs d1;
        Some (rs, if child then fdleak_debug_child d2 else fdleak_debug_parent d2) }
      else run_fd_calls cs d)"

fun run_fd_steps :: "fd_step list \<Rightarrow> fdleak \<Rightarrow> (int list list \<times> fdleak) option" where
  "run_fd_steps [] d = Some ([], d)"
| "run_fd_steps (x # xs) d = do {
     (rs, d1) \<leftarrow> run_fd_step x d;
     (rs', d2) \<leftarrow> run_fd_steps xs d1;
     Some (rs @ rs', d2) }"

fun step_calls :: "fd_step \<Rightarrow> fd_env_call list" where
  "step_calls (Call x) = [x]" | "step_calls (Fork child cs) = cs"

definition plain_steps :: "fd_step list \<Rightarrow> int list list" where
  "plain_steps xs = map (\<lambda>(lc, ev, c). plain_call lc c) (concat (map step_calls xs))"

text \<open>What the debugger notices: the calls of other threads during a fork are lost on it.\<close>

definition note_call :: "bool \<Rightarrow> int \<Rightarrow> fd_env_call \<Rightarrow> opened \<Rightarrow> opened" where
  "note_call on thd x A = (case x of (lc, ev, c) \<Rightarrow> fold (note_touch ev on thd) (touches lc c) A)"

definition note_step :: "bool \<Rightarrow> int \<Rightarrow> bool \<Rightarrow> fd_step \<Rightarrow> opened \<Rightarrow> opened" where
  "note_step on thd atfork x A =
     (case x of Fork child cs \<Rightarrow> (if atfork then A else fold (note_call on thd) cs A) | Call y \<Rightarrow> note_call on thd y A)"

definition step_ok :: "nat set \<Rightarrow> fd_step \<Rightarrow> bool" where
  "step_ok K x \<longleftrightarrow> (\<forall>(lc, ev, c) \<in> set (step_calls x). libc_ok lc \<and> env_ok K ev)"

lemma run_fd_calls_ok:
  assumes "fd_good K A d" "\<not> DisableDebugCalls d" "\<forall>(lc, ev, c) \<in> set cs. libc_ok lc \<and> env_ok K ev"
  shows "\<exists>d'. run_fd_calls cs d = Some (map (\<lambda>(lc, ev, c). plain_call lc c) cs, d')
    \<and> fd_good K (fold (note_call (gFDMspace d \<noteq> 0) (fd_record_thd d)) cs A) d' \<and> cfg d' = cfg d"
  using assms
proof (induction cs arbitrary: A d)
  case (Cons x cs)
  obtain lc ev c where x: "x = (lc, ev, c)" by (cases x) auto
  have "wraps K ev (run_fd_call lc ev c) (plain_call lc c) (touches lc c)" using run_call_wraps Cons.prems(3) x by auto
  then obtain d1 where 1: "run_fd_call lc ev c d = Some (plain_call lc c, d1)"
    "fd_good K (note_call (gFDMspace d \<noteq> 0) (fd_record_thd d) x A) d1" "cfg d1 = cfg d"
    using Cons.prems(1,2) unfolding wraps_def by (auto simp: note_call_def x)
  then obtain d2 where "run_fd_calls cs d1 = Some (map (\<lambda>(lc, ev, c). plain_call lc c) cs, d2)"
    "fd_good K (fold (note_call (gFDMspace d \<noteq> 0) (fd_record_thd d)) cs (note_call (gFDMspace d \<noteq> 0) (fd_record_thd d) x A)) d2"
    "cfg d2 = cfg d1"
    using Cons.IH [OF 1(2)] Cons.prems(2,3) cfg_same(1,2,6) [OF 1(3)] by auto
  then show ?case using 1 by (simp add: x)
qed (simp add: note_call_def)

text \<open>What holds between the steps.\<close>

definition fd_between :: "nat set \<Rightarrow> opened \<Rightarrow> fdleak \<Rightarrow> bool" where
  "fd_between K A d \<longleftrightarrow> fd_good K A d \<and> \<not> DisableDebugCalls d \<and> gFDLeakMutex d = 0 \<and> (fd_atfork d \<longrightarrow> gFDMspace d \<noteq> 0)"

lemma touch_off: "note_touch ev False thd t A = A"
  by (cases t) (simp_all add: watched_def)

lemma calls_off: "fold (note_call False thd) cs A = A"
proof -
  have "fold (note_touch ev False thd) T A = A" for ev T A by (induction T arbitrary: A) (simp_all add: touch_off)
  then show ?thesis by (induction cs) (simp_all add: note_call_def case_prod_beta)
qed

lemma run_fd_step_ok:
  assumes b: "fd_between K A d" and s: "step_ok K x"
  shows "\<exists>d'. run_fd_step x d = Some (map (\<lambda>(lc, ev, c). plain_call lc c) (step_calls x), d')
    \<and> fd_between K (note_step (gFDMspace d \<noteq> 0) (fd_record_thd d) (fd_atfork d) x A) d'
    \<and> gFDMspace d' = gFDMspace d \<and> fd_record_thd d' = fd_record_thd d \<and> fd_atfork d' = fd_atfork d"
proof -
  have plain: "\<exists>d'. run_fd_calls (step_calls x) d = Some (map (\<lambda>(lc, ev, c). plain_call lc c) (step_calls x), d')
    \<and> fd_between K (fold (note_call (gFDMspace d \<noteq> 0) (fd_record_thd d)) (step_calls x) A) d'
    \<and> gFDMspace d' = gFDMspace d \<and> fd_record_thd d' = fd_record_thd d \<and> fd_atfork d' = fd_atfork d"
  proof -
    obtain d' where "run_fd_calls (step_calls x) d = Some (map (\<lambda>(lc, ev, c). plain_call lc c) (step_calls x), d')"
      "fd_good K (fold (note_call (gFDMspace d \<noteq> 0) (fd_record_thd d)) (step_calls x) A) d'" "cfg d' = cfg d"
      using run_fd_calls_ok [of K A d "step_calls x"] b s by (auto simp: fd_between_def step_ok_def)
    then show ?thesis using b cfg_same [of d' d] by (auto simp: fd_between_def)
  qed
  show ?thesis
  proof (cases x)
    case (Call y)
    then show ?thesis using plain by (simp add: note_step_def)
  next
    case (Fork child cs)
    show ?thesis
    proof (cases "fd_atfork d")
      case False
      then show ?thesis using plain by (simp add: Fork note_step_def)
    next
      case True
      let ?d1 = "d\<lparr>gFDLeakMutex := 1, gFDMspaceBackup := gFDMspace d, gFDMspace := 0\<rparr>"
      have p: "fdleak_debug_prepare d = Some ?d1" using b by (simp add: fdleak_debug_prepare_def fd_lock_def fd_between_def)
      have g: "fd_good K A ?d1" "\<not> DisableDebugCalls ?d1"
        using b fd_table_ok_frame [of ?d1 d K A] by (simp_all add: fd_between_def fd_good_def DisableDebugCalls_def)
      obtain d2 where r: "run_fd_calls cs ?d1 = Some (map (\<lambda>(lc, ev, c). plain_call lc c) cs, d2)"
        "fd_good K A d2" "cfg d2 = cfg ?d1"
        using run_fd_calls_ok [OF g, of cs] s Fork by (auto simp: step_ok_def calls_off)
      let ?d3 = "if child then fdleak_debug_child d2 else fdleak_debug_parent d2"
      have "fd_table_ok K A ?d3"
        using r(2) fd_table_ok_frame [of "fdleak_debug_child d2" d2 K A] fd_table_ok_frame [of "fdleak_debug_parent d2" d2 K A]
        by (simp add: fd_good_def fdleak_debug_child_def fdleak_debug_parent_def fd_unlock_def)
      then have "fd_between K A ?d3 \<and> gFDMspace ?d3 = gFDMspace d \<and> fd_record_thd ?d3 = fd_record_thd d \<and> fd_atfork ?d3 = fd_atfork d"
        using b r(3) by (auto simp: fd_between_def fd_good_def DisableDebugCalls_def cfg_def fdleak_debug_child_def
            fdleak_debug_parent_def fd_unlock_def)
      then show ?thesis using True p r(1) by (simp add: Fork note_step_def)
    qed
  qed
qed

lemma run_fd_steps_ok:
  assumes "fd_between K A d" "\<forall>x \<in> set xs. step_ok K x"
  shows "\<exists>d'. run_fd_steps xs d = Some (plain_steps xs, d')
    \<and> fd_between K (fold (note_step (gFDMspace d \<noteq> 0) (fd_record_thd d) (fd_atfork d)) xs A) d'"
  using assms
proof (induction xs arbitrary: A d)
  case (Cons x xs)
  let ?n = "note_step (gFDMspace d \<noteq> 0) (fd_record_thd d) (fd_atfork d)"
  obtain d1 where 1: "run_fd_step x d = Some (map (\<lambda>(lc, ev, c). plain_call lc c) (step_calls x), d1)"
    "fd_between K (?n x A) d1"
    "gFDMspace d1 = gFDMspace d" "fd_record_thd d1 = fd_record_thd d" "fd_atfork d1 = fd_atfork d"
    using run_fd_step_ok [OF Cons.prems(1), of x] Cons.prems(2) by auto
  obtain d2 where "run_fd_steps xs d1 = Some (plain_steps xs, d2)" "fd_between K (fold ?n xs (?n x A)) d2"
    using Cons.IH [OF 1(2)] Cons.prems(2) 1(3-5) by auto
  then show ?case using 1(1) by (simp add: plain_steps_def)
qed (simp add: plain_steps_def)

section \<open>Start up\<close>

text \<open>
  What start up relies on: the threshold property is no negative number (see below), the new heap has room for
  the two tables, and its memory is the cleared mapping.
\<close>

definition start_ok :: "fd_props \<Rightarrow> (u32 set \<Rightarrow> nat \<Rightarrow> u32) \<Rightarrow> (nat \<Rightarrow> fd_slot) \<Rightarrow> bool" where
  "start_ok p malloc table \<longleftrightarrow> (\<forall>v. fp_thd p = Some v \<longrightarrow> 0 \<le> atoi v) \<and> (\<forall>X n. card X \<le> 2 \<longrightarrow> malloc X n \<noteq> 0)
     \<and> (\<forall>i. table i = \<lparr>fs_flag = 0, fs_pbtentry = 0\<rparr>)"

lemma empty_fd_table_ok:
  assumes "fd_entries d = Map.empty" "pbtentry_list d = (\<lambda>_. 0)" "gPMaxFdBtEntry d = 0"
    "\<And>i. fd_slots d i = \<lparr>fs_flag = 0, fs_pbtentry = 0\<rparr>"
  shows "fd_table_ok K Map.empty d"
  using assms unfolding fd_table_ok_def fd_inv_def depths_ok_def lists_ok_def content_ok_def buckets_def members_def refs_def
  by (auto intro!: exI [of _ "\<lambda>_. []"])

lemma init_failed_simps [simp]:
  "fd_record_thd (init_failed m d) = fd_record_thd d" "gFDLeakMutex (init_failed m d) = gFDLeakMutex d"
  "disable_flag (init_failed m d) = disable_flag d" "disable_key (init_failed m d) = disable_key d"
  "gPFDBACKTRACETable (init_failed m d) = gPFDBACKTRACETable d" "gPFDBtEntryTable (init_failed m d) = gPFDBtEntryTable d"
  "fd_atfork (init_failed m d) = fd_atfork d" "gFDMspace (init_failed m d) = gFDMspace d"
  "fd_entries (init_failed m d) = fd_entries d" "pbtentry_list (init_failed m d) = pbtentry_list d"
  "gPMaxFdBtEntry (init_failed m d) = gPMaxFdBtEntry d" "fd_slots (init_failed m d) = fd_slots d"
  by (simp_all add: init_failed_def)

text \<open>Before the tables are there.\<close>

definition unstarted :: "fdleak \<Rightarrow> bool" where
  "unstarted d \<longleftrightarrow> fd_entries d = Map.empty \<and> pbtentry_list d = (\<lambda>_. 0) \<and> gPMaxFdBtEntry d = 0
     \<and> fd_slots d = (\<lambda>_. \<lparr>fs_flag = 0, fs_pbtentry = 0\<rparr>) \<and> gPFDBACKTRACETable d = 0 \<and> gPFDBtEntryTable d = 0
     \<and> gFDLeakMutex d = 0 \<and> \<not> disable_flag d \<and> 0 \<le> fd_record_thd d \<and> \<not> fd_atfork d \<and> \<not> disable_key d"

lemma unstarted_rehook: "unstarted (fd_func_rehook lc fdleak_start)" "gFDMspace (fd_func_rehook lc fdleak_start) = 0"
  by (simp_all add: unstarted_def fd_func_rehook_def fdleak_start_def FD_RECORD_THD_def)

lemma unstarted_simps [simp]:
  "unstarted (d\<lparr>fdleak_inti_flag := b\<rparr>) = unstarted d" "unstarted (d\<lparr>fd_bt2log := n\<rparr>) = unstarted d"
  "unstarted (d\<lparr>gFDMspace := x\<rparr>) = unstarted d" "unstarted (d\<lparr>gFDMspace := x, gFDBtMspace := y\<rparr>) = unstarted d"
  "unstarted (init_failed m d) = unstarted d" "unstarted d \<Longrightarrow> 0 \<le> t \<Longrightarrow> unstarted (d\<lparr>fd_record_thd := t\<rparr>)"
  by (simp_all add: unstarted_def)

lemma unstarted_between: "unstarted d \<Longrightarrow> gFDMspace d = 0 \<Longrightarrow> fd_between K Map.empty d"
  using empty_fd_table_ok [of d] by (simp add: unstarted_def fd_between_def fd_good_def DisableDebugCalls_def)

lemma tables_start:
  assumes s: "start_ok p malloc table" and d: "unstarted d" "gFDMspace d \<noteq> 0"
  shows "fd_between K Map.empty (fdleak_tables malloc table atfork_ok key_ok d)"
proof -
  define t where "t = malloc (fd_live d) (FD_MAX_SIZE * 8)"
  define d1 where "d1 = d\<lparr>gPFDBACKTRACETable := t, fd_slots := table\<rparr>"
  define b where "b = malloc (fd_live d1) (4 * (1 + FD_HASH_TABLE_SIZE))"
  have "card (fd_live d) \<le> 2" "card (fd_live d1) \<le> 2" using d(1) by (simp_all add: unstarted_def fd_live_def d1_def card_insert_if)
  then have tb: "t \<noteq> 0" "b \<noteq> 0" using s by (simp_all only: start_ok_def t_def b_def) simp_all
  have tab: "table = (\<lambda>_. \<lparr>fs_flag = 0, fs_pbtentry = 0\<rparr>)" using s by (auto simp: start_ok_def)
  define D where "D = fdleak_tables malloc table atfork_ok key_ok d"
  have D: "D = (let d3 = d1\<lparr>gPFDBtEntryTable := b, gPMaxFdBtEntry := 0, pbtentry_list := (\<lambda>_. 0)\<rparr>;
        d4 = (if atfork_ok then d3\<lparr>fd_atfork := True\<rparr> else init_failed ''[FDLEAK_DEBUG] logd pthread_atfork fail\<newline>'' d3)
      in if key_ok then d4\<lparr>disable_key := True, disable_flag := False\<rparr> else d4)"
    unfolding D_def fdleak_tables_def Let_def t_def [symmetric] d1_def [symmetric] b_def [symmetric] using tb by simp
  have f: "fd_entries D = Map.empty" "pbtentry_list D = (\<lambda>_. 0)" "gPMaxFdBtEntry D = 0" "fd_slots D = table"
    using d(1) by (simp_all add: D d1_def Let_def unstarted_def)
  have "fd_table_ok K Map.empty D" by (rule empty_fd_table_ok) (simp_all add: f tab)
  then show ?thesis
    using tb d unfolding D_def [symmetric] fd_between_def fd_good_def unstarted_def
    by (auto simp: D d1_def Let_def DisableDebugCalls_def)
qed

lemma initialize_between:
  assumes s: "start_ok p malloc table" and m: "map_mspace fdleak_mspace_size \<noteq> 0"
  shows "fd_between K Map.empty (fdleak_debug_initialize lc p map_mspace create_mspace malloc table atfork_ok key_ok fdleak_start)"
proof -
  have thd: "\<And>v. fp_thd p = Some v \<Longrightarrow> 0 \<le> atoi v" using s by (simp add: start_ok_def)
  define d where "d = fd_func_rehook lc fdleak_start"
  define d1 where "d1 q = (if strstr q ''/system/bin/logd'' then d\<lparr>fdleak_inti_flag := True\<rparr> else d)" for q
  define d2 where "d2 q = (case fp_bt2log p of None \<Rightarrow> d1 q | Some v \<Rightarrow> (d1 q)\<lparr>fd_bt2log := atoi v\<rparr>)" for q
  define d3 where "d3 q = (case fp_thd p of None \<Rightarrow> d2 q | Some v \<Rightarrow> (d2 q)\<lparr>fd_record_thd := atoi v\<rparr>)" for q
  have u: "unstarted d" "gFDMspace d = 0" by (simp_all add: d_def unstarted_rehook)
  have u1: "unstarted (d1 q)" "gFDMspace (d1 q) = 0" for q using u by (simp_all add: d1_def)
  have u2: "unstarted (d2 q)" for q using u1 by (simp add: d2_def split: option.split)
  have u3: "unstarted (d3 q)" for q using u2 thd by (simp add: d3_def split: option.split)
  have on: "fd_between K Map.empty (fdleak_tables malloc table atfork_ok key_ok (d3 q\<lparr>gFDMspace := x, gFDBtMspace := y\<rparr>))"
    if "x \<noteq> 0" for q x y
    by (rule tables_start [OF s]) (use that u3 in simp_all)
  have off: "fd_between K Map.empty ((init_failed t (d3 q))\<lparr>gFDMspace := 0\<rparr>)" for t q
    by (rule unstarted_between) (use u3 in simp_all)
  show ?thesis
    unfolding fdleak_debug_initialize_def Let_def d_def [symmetric] d1_def [symmetric] d2_def [symmetric] d3_def [symmetric]
    using on [OF m] off unstarted_between [OF u] unstarted_between [OF u1] by (simp split: option.split)
qed

end
