(* ===== verification/FdLeakReports.thy ===== *)
theory FdLeakReports
  imports FdLeakMain UbrdMain
begin

text \<open>
  The properties of the descriptor debugger over whole runs of its program, and where its reports go astray.
\<close>

section \<open>Properties\<close>

text \<open>
  C25. The debugger is transparent, as long as four things hold: the threshold property is not negative, the two tables
  could be allocated at start up, the C library has the functions that are wrapped, and an exception can be raised (the program's
  path can be read, the exception library loads and its function succeeds; the code ends the process on purpose when not). Then,
  whatever mmap answers, every sequence of calls of the wrapped functions, none of them made by the unwinder while a
  descriptor is being recorded, with forks anywhere (other threads calling meanwhile, the program going on in
  the parent or in the child), runs to its end: no bad pointer, no mutex taken twice, no abort for a trace with too
  many descriptors. Every call returns what the C library's function returns. (Lemmas below show that a
  negative threshold, a table that was not allocated and a nested \<open>dup3\<close> do end the process.)
\<close>

theorem fdleak_transparent:
  assumes "start_ok p malloc table" and "map_mspace fdleak_mspace_size \<noteq> 0" and "\<forall>x \<in> set steps. step_ok UNIV x"
    and "d = fdleak_debug_initialize lc p map_mspace create_mspace malloc table atfork_ok key_ok fdleak_start"
  shows "\<exists>d'. run_fd_steps steps d = Some (plain_steps steps, d')"
  using run_fd_steps_ok [OF initialize_between [where map_mspace = map_mspace, OF assms(1,2), of UNIV] assms(3)] assms(4) by blast

text \<open>What holds of the state after any run.\<close>

lemma run_between:
  assumes "start_ok p malloc table" "map_mspace fdleak_mspace_size \<noteq> 0" "\<forall>x \<in> set steps. step_ok K x"
    "d = fdleak_debug_initialize lc p map_mspace create_mspace malloc table atfork_ok key_ok fdleak_start"
    "run_fd_steps steps d = Some (rs, d')"
    "A = fold (note_step (gFDMspace d \<noteq> 0) (fd_record_thd d) (fd_atfork d)) steps (\<lambda>_. None)"
  shows "fd_table_ok K A d'"
proof -
  have "fd_between K (\<lambda>_. None) d" unfolding assms(4) by (rule initialize_between) (use assms(1,2) in simp_all)
  then show ?thesis using run_fd_steps_ok [OF _ assms(3)] assms(5,6) by (fastforce simp: fd_between_def fd_good_def)
qed

text \<open>
  C26. What the table tells after any run that satisfies the hypotheses of C25. The map \<open>A\<close> is what the calls that are recorded
  say of the descriptors from the threshold on: it takes a descriptor to the trace of the last \<open>open\<close>, \<open>socket\<close>, ... that
  gave it out, a \<open>close\<close> takes it away, and so does a \<open>dup3\<close> onto it even when it fails and the descriptor stays
  open; calls that other threads make during a fork are not in it. Exactly the descriptors of the map are in use in the
  table. A descriptor in use refers to no entry (its trace was empty, or the heap was used up), or to one that is
  allocated, whose trace agrees with the descriptor's on the length of the shorter (the search compares no more), and that
  has the descriptor in its bit map. The entry to report, when there is one, is allocated.
\<close>

theorem fdleak_table_tells_open_descriptors:
  assumes "start_ok p malloc table" and "map_mspace fdleak_mspace_size \<noteq> 0" and "\<forall>x \<in> set steps. step_ok UNIV x"
    and "d = fdleak_debug_initialize lc p map_mspace create_mspace malloc table atfork_ok key_ok fdleak_start"
    and "run_fd_steps steps d = Some (rs, d')"
    and "A = fold (note_step (gFDMspace d \<noteq> 0) (fd_record_thd d) (fd_atfork d)) steps (\<lambda>_. None)"
  shows "(\<forall>i. (fs_flag (fd_slots d' i) \<noteq> 0 \<longleftrightarrow> A i \<noteq> None)
      \<and> (fs_pbtentry (fd_slots d' i) = 0
         \<or> (\<exists>e bt. fd_entries d' (fs_pbtentry (fd_slots d' i)) = Some e \<and> A i = Some bt \<and> agrees (fe_backtrace e) bt \<and> marked i e)))
    \<and> (gPMaxFdBtEntry d' = 0 \<or> gPMaxFdBtEntry d' \<in> dom (fd_entries d'))"
proof -
  obtain L where inv: "fd_inv A (refs d') d' L" and flags: "\<forall>i. fs_flag (fd_slots d' i) \<noteq> 0 \<longleftrightarrow> A i \<noteq> None"
    using run_between [OF assms] unfolding fd_table_ok_def by blast
  then have "gPMaxFdBtEntry d' = 0 \<or> gPMaxFdBtEntry d' \<in> dom (fd_entries d')" by (simp add: fd_inv_def lists_ok_def)
  moreover have "\<exists>e bt. fd_entries d' (refs d' i) = Some e \<and> A i = Some bt \<and> agrees (fe_backtrace e) bt \<and> marked i e"
    if "refs d' i \<noteq> 0" for i
    using inv that unfolding fd_inv_def content_ok_def ref_ok_def by blast
  ultimately show ?thesis using flags unfolding refs_def by blast
qed

text \<open>
  C27. When the unwinder gives traces of one depth (as it does for stacks deeper than ten frames), the counts
  are exact for the map \<open>A\<close> of C26: the number that an entry reports is, without wrap-around and never 0, the number of
  descriptors that the map takes to the entry's trace and that refer to an entry (those recorded when the heap was
  used up refer to none and are missing), and no two entries hold the same trace.
\<close>

theorem fdleak_counts_exact:
  assumes "start_ok p malloc table" and "map_mspace fdleak_mspace_size \<noteq> 0" and "\<forall>x \<in> set steps. step_ok {k} x"
    and "d = fdleak_debug_initialize lc p map_mspace create_mspace malloc table atfork_ok key_ok fdleak_start"
    and "run_fd_steps steps d = Some (rs, d')"
    and "A = fold (note_step (gFDMspace d \<noteq> 0) (fd_record_thd d) (fd_atfork d)) steps (\<lambda>_. None)"
    and "fd_entries d' q = Some e"
  shows "unat (fe_allocations e) = card {i. A i = Some (fe_backtrace e) \<and> fs_pbtentry (fd_slots d' i) \<noteq> 0}
    \<and> 0 < unat (fe_allocations e)
    \<and> (\<forall>r f. fd_entries d' r = Some f \<and> fe_backtrace f = fe_backtrace e \<longrightarrow> r = q)"
proof -
  have t: "fd_table_ok {k} A d'" by (rule run_between [OF assms(1-6)])
  then obtain L where l: "lists_ok d' L" and c: "content_ok A (refs d') (fd_entries d')"
    unfolding fd_table_ok_def fd_inv_def by blast
  have depth: "length (fe_backtrace f) = k" if "fd_entries d' r = Some f" for r f
    using t that unfolding fd_table_ok_def depths_ok_def by blast
  have len: "bt = [] \<or> length bt = k" if "A i = Some bt" for i bt using t that unfolding fd_table_ok_def by blast
  have q0: "q \<noteq> 0" by (rule lists_okD(6) [OF l assms(7)])
  have same: "holders (refs d') q = {i. A i = Some (fe_backtrace e) \<and> refs d' i \<noteq> 0}"
  proof (rule set_eqI, unfold holders_def mem_Collect_eq, rule iffI)
    fix i assume i: "refs d' i = q"
    then obtain bt where "A i = Some bt" "bt \<noteq> []" "agrees (fe_backtrace e) bt"
      using content_okD(3) [OF c, of i] q0 assms(7) by (auto simp: ref_ok_def)
    then show "A i = Some (fe_backtrace e) \<and> refs d' i \<noteq> 0"
      using i q0 depth [OF assms(7)] len [of i bt] agrees_same_length [of "fe_backtrace e" bt] by auto
  next
    fix i assume i: "A i = Some (fe_backtrace e) \<and> refs d' i \<noteq> 0"
    then obtain f where f: "fd_entries d' (refs d' i) = Some f" "agrees (fe_backtrace f) (fe_backtrace e)"
      using content_okD(3) [OF c, of i] by (auto simp: ref_ok_def)
    then have "fe_backtrace f = fe_backtrace e"
      using depth [OF f(1)] depth [OF assms(7)] agrees_same_length [of "fe_backtrace f" "fe_backtrace e"] by simp
    then show "refs d' i = q" by (rule content_okD(4) [OF c f(1) assms(7)])
  qed
  have n: "finite (holders (refs d') q)" "card (holders (refs d') q) \<le> 1000"
    by (rule holders_bound [OF content_okD(2) [OF c] q0]; assumption)+
  have e: "fe_allocations e = of_nat (card (holders (refs d') q))" "holders (refs d') q \<noteq> {}"
    using content_okD(1) [OF c assms(7)] by (simp_all add: entry_ok_def)
  have u: "unat (fe_allocations e) = card (holders (refs d') q)"
    using n(2) unfolding e(1) by (simp add: unat_of_nat)
  have "unat (fe_allocations e) = card {i. A i = Some (fe_backtrace e) \<and> fs_pbtentry (fd_slots d' i) \<noteq> 0}"
    unfolding u same by (simp add: refs_def)
  moreover have "0 < unat (fe_allocations e)" using u e(2) n(1) by (simp add: card_gt_0_iff)
  ultimately show ?thesis using content_okD(4) [OF c _ assms(7)] by blast
qed

section \<open>Where reports go astray\<close>

text \<open>
  A negative threshold property switches the filter of failed calls off: the first failing \<open>open\<close> or \<open>socket\<close>
  indexes the table with -1.
\<close>

lemma negative_threshold_faults:
  "gFDMspace d \<noteq> 0 \<Longrightarrow> fd_record_thd d < 0 \<Longrightarrow> fdleak_record_backtrace ev k (-1) d = None"
  by (auto simp: fdleak_record_backtrace_def FD_TABLE_SIZE_def record_fd_info_def fd_slot_at_def Let_def fd_lock_def)

text \<open>A failed allocation of the table leaves the debugger switched on: the next recorded descriptor faults.\<close>

lemma no_table_faults:
  assumes "gFDMspace d \<noteq> 0" "fd_record_thd d \<le> fd" "fd < 1000" "malloc (fd_live d) (FD_MAX_SIZE * 8) = 0"
  shows "fdleak_record_backtrace ev k fd (fdleak_tables malloc table atfork_ok key_ok d) = None"
  using assms by (simp add: fdleak_tables_def Let_def fdleak_record_backtrace_def FD_TABLE_SIZE_def fd_lock_def
      record_fd_info_def fd_slot_at_def)

text \<open>A shorter trace is taken for any longer one that starts with it.\<close>

lemma prefix_matches: "fe_backtrace e = bt @ ys \<Longrightarrow> fd_matches behind bt p e"
  by (simp add: fd_matches_iff fd_words_def)

text \<open>A failed \<open>dup3\<close> forgets its target, which stays open.\<close>

lemma failed_dup3_forgets:
  assumes "libc_ok lc" "env_ok K ev" "fd_between K A d" "watched (gFDMspace d \<noteq> 0) (fd_record_thd d) target"
    "lc_dup3 lc oldfd target flags = -1"
  shows "\<exists>d'. wrap_dup3 lc ev oldfd target flags d = Some (-1, d') \<and> fd_good K (A(nat target := None)) d'"
proof -
  have "0 \<le> fd_record_thd d" using assms(3) by (simp add: fd_between_def fd_good_def)
  then have "\<not> watched (gFDMspace d \<noteq> 0) (fd_record_thd d) (-1)" by (simp add: watched_def)
  moreover have "fd_good K A d" "\<not> DisableDebugCalls d" using assms(3) by (simp_all add: fd_between_def)
  ultimately show ?thesis
    using wrappers(2) [OF assms(1,2), of oldfd target flags, unfolded wraps_def, rule_format, of A d] assms(4,5) by auto
qed

text \<open>
  Removing outside the scope of the switch: a \<open>dup3\<close> that the thread makes while it records (its switch is off,
  the mutex is held) takes the mutex again.
\<close>

lemma nested_dup3_deadlocks:
  assumes "libc_ok lc" "gFDMspace d \<noteq> 0" "fd_record_thd d \<le> target" "target < 1000" "gFDLeakMutex d \<noteq> 0" "\<not> mutex_recursive d"
  shows "wrap_dup3 lc ev oldfd target flags d = None"
  using assms by (auto simp: wrap_dup3_def hooked_def libc_ok_def fd_func_rehook_def Let_def fdleak_remove_backtrace_def
      FD_TABLE_SIZE_def fd_lock_def)

text \<open>The other wrappers leave a thread that is switched off alone.\<close>

lemma switched_off: "DisableDebugCalls d \<Longrightarrow> record_result ev fd d = Some (fd, d)"
  "DisableDebugCalls d \<Longrightarrow> record_pair ev r d = Some (r, d)"
  by (simp_all add: record_result_def record_pair_def case_prod_beta)

text \<open>
  When the descriptors run out before any trace was seen twice there is no entry to report, and the flag that
  allows one report is used up.
\<close>

lemma lost_report:
  assumes "gFDMspace d \<noteq> 0" "gPFDBtEntryTable d \<noteq> 0" "rlimit_flag d" "\<not> aee_flag d" "gPMaxFdBtEntry d = 0" "1024 \<le> fd"
  shows "fdleak_record_backtrace ev k fd d = Some (d\<lparr>aee_flag := True\<rparr>)"
  using assms by (simp add: fdleak_record_backtrace_def FD_TABLE_SIZE_def Let_def)

text \<open>
  Removing a descriptor never looks for a new maximum: the entry to report stays the one that was largest once,
  or none, however many descriptors other traces hold.
\<close>

lemma removal_keeps_maximum:
  assumes "remove_fd_info fd d = Some d'"
  shows "gPMaxFdBtEntry d' = gPMaxFdBtEntry d \<or> gPMaxFdBtEntry d' = 0"
proof -
  have u: "gPMaxFdBtEntry d2 = gPMaxFdBtEntry d1" if "unlink_entry p d1 = Some d2" for p d1 d2
    using that by (auto simp: unlink_entry_def Let_def split: option.splits bind_splits if_splits)
  have "gPMaxFdBtEntry d2 = gPMaxFdBtEntry d1 \<or> gPMaxFdBtEntry d2 = 0" if "drop_allocation p d1 = Some (freed, d2)" for p d1 freed d2
    using that by (auto simp: drop_allocation_def Let_def dest: u split: bind_splits if_splits)
  then show ?thesis using assms
    by (fastforce simp: remove_fd_info_def Let_def put_slot_def split: bind_splits if_splits)
qed

section \<open>Witnesses\<close>

lemma toy_malloc_room: "card X \<le> 2 \<Longrightarrow> toy_malloc X n \<noteq> 0"
proof -
  assume X: "card X \<le> 2"
  have "\<not> {0x1000, 0x2000, 0x3000} \<subseteq> X"
  proof
    assume "{0x1000, 0x2000, 0x3000} \<subseteq> X"
    then have "card {0x1000 :: u32, 0x2000, 0x3000} \<le> card X" by (intro card_mono) simp_all
    then show False using X by simp
  qed
  then show ?thesis by (auto simp: toy_malloc_def)
qed

definition sample_fd_props :: fd_props where
  "sample_fd_props = \<lparr>fp_fdleak = Some ''1'', fp_program = None, fp_bt2log = None, fp_thd = Some ''300'',
     fp_progname = Some ''/system/bin/app'', fp_eng = False\<rparr>"

text \<open>A C library whose \<open>socket\<close> returns its third argument.\<close>

definition sample_libc :: fd_libc where
  "sample_libc = \<lparr>lc_handle = True, lc_has = (\<lambda>_. True), lc_fdsanclose = (\<lambda>fd tag. 0),
     lc_openat = (\<lambda>a path b c. -1), lc_pipe2 = (\<lambda>f. (0, 310, 311)), lc_socket = (\<lambda>a b c. c), lc_accept4 = (\<lambda>a b c f. -1),
     lc_socketpair = (\<lambda>a b c. (-1, 0, 0)), lc_dup = (\<lambda>a. -1), lc_dup3 = (\<lambda>a t f. t), lc_fcntl = (\<lambda>a b c. 0),
     lc_eventfd = (\<lambda>v f. -1), lc_epoll_create1 = (\<lambda>f. -1)\<rparr>"

definition sample_fd_env :: "u32 list \<Rightarrow> fd_env" where
  "sample_fd_env bt = \<lparr>ev_malloc = toy_malloc, ev_trace = (\<lambda>_. bt), ev_behind = (\<lambda>p n. 0), ev_getrlimit = True,
     ev_relpc = id, ev_exe = Some ''/system/bin/app'', ev_aee = (\<lambda>lib. Some (Some (\<lambda>m. 0)))\<rparr>"

abbreviation sample_call :: "fd_call \<Rightarrow> fd_env_call" where
  "sample_call c \<equiv> (sample_libc, sample_fd_env [0x8000, 0x9000], c)"

definition sample_steps :: "fd_step list" where
  "sample_steps = [Call (sample_call (Socket 1 1 300)), Call (sample_call (Socket 1 1 301)),
     Fork False [sample_call (Close 301 0)], Call (sample_call (Close 300 0)), Call (sample_call (Openat 1 ''x'' 0 0))]"

definition sample_start :: fdleak where
  "sample_start = fdleak_debug_initialize sample_libc sample_fd_props (\<lambda>_. 0x40000000) (\<lambda>b n. b) toy_malloc
     (\<lambda>_. \<lparr>fs_flag = 0, fs_pbtentry = 0\<rparr>) True True fdleak_start"

lemma sample_ok:
  "start_ok sample_fd_props toy_malloc (\<lambda>_. \<lparr>fs_flag = 0, fs_pbtentry = 0\<rparr>)" "\<forall>x \<in> set sample_steps. step_ok UNIV x"
  "\<forall>x \<in> set sample_steps. step_ok {2} x"
proof -
  have "atoi ''300'' = 300" by code_simp
  then show "start_ok sample_fd_props toy_malloc (\<lambda>_. \<lparr>fs_flag = 0, fs_pbtentry = 0\<rparr>)"
    using toy_malloc_room by (simp add: start_ok_def sample_fd_props_def)
  show "\<forall>x \<in> set sample_steps. step_ok UNIV x" "\<forall>x \<in> set sample_steps. step_ok {2} x"
    using toy_malloc_fresh
    by (simp_all add: sample_steps_def step_ok_def libc_ok_def env_ok_def sample_libc_def sample_fd_env_def)
qed

theorem fdleak_transparent_witness:
  "\<exists>d'. run_fd_steps sample_steps sample_start = Some ([[300], [301], [0], [0], [-1]], d')"
  using fdleak_transparent [OF sample_ok(1) _ sample_ok(2), of "\<lambda>_. 0x40000000" sample_start sample_libc "\<lambda>b n. b" True True]
  by (simp add: sample_start_def sample_steps_def plain_steps_def sample_libc_def)

lemma sample_started:
  "sample_start = fdleak_start\<lparr>fdleak_libc_handle := True, real_fd := (\<lambda>_. True), fd_record_thd := 300, gFDMspace := 0x40000000,
     gFDBtMspace := 0x40000000, gPFDBACKTRACETable := 0x1000, gPFDBtEntryTable := 0x2000, fd_atfork := True, disable_key := True\<rparr>"
proof -
  have c: "\<not> strstr ''/system/bin/app'' ''system/bin/aee''" "\<not> strstr ''/system/bin/app'' ''/system/bin/logd''"
    "atoi ''300'' = 300" "atoi ''1'' = 1"
    by code_simp+
  show ?thesis
    by (simp add: sample_start_def fdleak_debug_initialize_def sample_fd_props_def fdleak_enabled_def fdleak_wanted_def c
        fd_func_rehook_def fdleak_start_def sample_libc_def Let_def fdleak_tables_def fd_live_def toy_malloc_def)
qed

theorem fdleak_table_tells_open_descriptors_witness:
  "\<exists>d'. run_fd_steps sample_steps sample_start = Some ([[300], [301], [0], [0], [-1]], d')
    \<and> fs_flag (fd_slots d' 300) = 0 \<and> fs_flag (fd_slots d' 301) \<noteq> 0"
proof -
  define A where "A = fold (note_step (gFDMspace sample_start \<noteq> 0) (fd_record_thd sample_start) (fd_atfork sample_start)) sample_steps (\<lambda>_. None)"
  have between: "fd_between UNIV (\<lambda>_. None) sample_start"
    unfolding sample_start_def by (rule initialize_between [OF sample_ok(1)]) simp
  obtain d' where d': "run_fd_steps sample_steps sample_start = Some ([[300], [301], [0], [0], [-1]], d')"
    using run_fd_steps_ok [OF between sample_ok(2)] by (auto simp: sample_steps_def plain_steps_def sample_libc_def)
  have "A = [301 \<mapsto> [0x8000, 0x9000]]"
    by (simp add: A_def sample_started fdleak_start_def sample_steps_def note_step_def note_call_def sample_libc_def
        sample_fd_env_def watched_def FD_TABLE_SIZE_def fun_eq_iff)
  moreover have "(0x40000000 :: u32) \<noteq> 0" by simp
  then have "fs_flag (fd_slots d' i) = 0 \<longleftrightarrow> A i = None" for i
    using fdleak_table_tells_open_descriptors [OF sample_ok(1) _ sample_ok(2) sample_start_def d' A_def] by blast
  ultimately have "fs_flag (fd_slots d' 300) = 0" "fs_flag (fd_slots d' 301) \<noteq> 0" by simp_all
  then show ?thesis using d' by blast
qed

lemma sample_run:
  "\<exists>d' e. run_fd_steps [Call (sample_call (Socket 1 1 300))] sample_start = Some ([[300]], d') \<and> fd_entries d' 0x3000 = Some e
    \<and> fe_backtrace e = [0x8000, 0x9000]"
  by (simp add: sample_started fdleak_start_def wrap_socket_def hooked_def sample_libc_def record_result_def scoped_disable_def
      DisableDebugCalls_def SetDebugDisable_def fdleak_record_backtrace_def fd_lock_def FD_TABLE_SIZE_def FD_HASH_TABLE_SIZE_def
      sample_fd_env_def record_fd_info_def fd_slot_at_def FD_MAX_SIZE_def release_old_def put_slot_def fd_find_entry_def
      search_entry.simps fd_live_def toy_malloc_def insert_entry_def new_entry_def fd_unlock_def Let_def)

theorem fdleak_counts_exact_witness:
  "\<exists>d' e. run_fd_steps [Call (sample_call (Socket 1 1 300))] sample_start = Some ([[300]], d') \<and> fd_entries d' 0x3000 = Some e
    \<and> unat (fe_allocations e) = card {i. (if i = 300 then Some [0x8000, 0x9000] else None) = Some (fe_backtrace e)
        \<and> fs_pbtentry (fd_slots d' i) \<noteq> 0} \<and> 0 < unat (fe_allocations e)"
proof -
  obtain d' e where r: "run_fd_steps [Call (sample_call (Socket 1 1 300))] sample_start = Some ([[300]], d')" "fd_entries d' 0x3000 = Some e"
    using sample_run by blast
  define A where "A = fold (note_step (gFDMspace sample_start \<noteq> 0) (fd_record_thd sample_start) (fd_atfork sample_start))
    [Call (sample_call (Socket 1 1 300))] (\<lambda>_. None)"
  have A: "A i = (if i = 300 then Some [0x8000, 0x9000] else None)" for i
    by (simp add: A_def sample_started fdleak_start_def note_step_def note_call_def sample_libc_def sample_fd_env_def
        watched_def FD_TABLE_SIZE_def)
  have ok: "\<forall>x \<in> set [Call (sample_call (Socket 1 1 300))]. step_ok {2} x"
    using toy_malloc_fresh by (simp add: step_ok_def libc_ok_def env_ok_def sample_libc_def sample_fd_env_def)
  have "unat (fe_allocations e) = card {i. A i = Some (fe_backtrace e) \<and> fs_pbtentry (fd_slots d' i) \<noteq> 0} \<and> 0 < unat (fe_allocations e)"
    using fdleak_counts_exact [OF sample_ok(1) _ ok sample_start_def r(1) A_def r(2)] by simp
  then show ?thesis using r unfolding A by blast
qed

end
