(* ===== verification/UbrdDump.thy ===== *)
theory UbrdDump
  imports UbrdMain
begin

text \<open>
  \<open>src/proprietary/external/libudf/ubrd_core/dump.c\<close> and \<open>sighandler.c\<close>: what a recorder prints of its tables
  when its process gets SIGUSR2. The lines are values, one constructor per format; the name of the module,
  which starts every line, is left out. \<open>None\<close> is a fault: a pointer that leads nowhere, an index out of an array.
\<close>

section \<open>The lines\<close>

datatype ubrd_line =
  Mspace_line u32 | Mspace_size_line u32 | His_size_line u32
| Bt_count_line u32 | Bt_entry_line u32 u32 u32 u32 \<comment> \<open>pointer, size, allocations, free references\<close>
| Bt_line u32
| Hash_count_line u32 | Hash_entry_line u32 u32 u32 u32 \<comment> \<open>pointer, address, size, pointer of the trace\<close>
| Extra_line u32 "u8 list" | Ring_size_line u32 | Malloc_bt_line | Free_bt_line

text \<open>The pointers of one kind of line.\<close>

fun bt_of_line :: "ubrd_line \<Rightarrow> u32 list" where
  "bt_of_line (Bt_entry_line p sz al fr) = [p]" | "bt_of_line l = []"

fun hash_of_line :: "ubrd_line \<Rightarrow> u32 list" where
  "hash_of_line (Hash_entry_line p a sz b) = [p]" | "hash_of_line l = []"

definition bts_of :: "ubrd_line list \<Rightarrow> u32 list" where
  "bts_of ls = concat (map bt_of_line ls)"

definition hashes_of :: "ubrd_line list \<Rightarrow> u32 list" where
  "hashes_of ls = concat (map hash_of_line ls)"

section \<open>The tables\<close>

text \<open>The \<open>n\<close> lines of a trace.\<close>

definition trace_lines :: "nat \<Rightarrow> u32 list \<Rightarrow> ubrd_line list option" where
  "trace_lines n bt = (if n \<le> length bt then Some (map Bt_line (take n bt)) else None)"

partial_function (option) dump_bt_list :: "(u32 \<Rightarrow> bt_entry option) \<Rightarrow> u32 \<Rightarrow> ubrd_line list option" where
  "dump_bt_list h p =
     (if p = 0 then Some []
      else do {
        n \<leftarrow> h p;
        ls \<leftarrow> trace_lines (be_numEntries n) (be_backtrace n);
        rest \<leftarrow> dump_bt_list h (be_next n);
        Some (Bt_entry_line p (be_size n) (be_allocations n) (be_free_referenced n) # ls @ rest)
      })"

text \<open>One after the other, up to the first fault.\<close>

fun dump_each :: "('i \<Rightarrow> 'l list option) \<Rightarrow> 'i list \<Rightarrow> 'l list option" where
  "dump_each f [] = Some []"
| "dump_each f (i # is) = do { ls \<leftarrow> f i; rest \<leftarrow> dump_each f is; Some (ls @ rest) }"

definition dumpBtTable :: "ubrd \<Rightarrow> ubrd_line list option" where
  "dumpBtTable st = do {
     ls \<leftarrow> dump_each (\<lambda>i. dump_bt_list (bts st) (bt_slots st i)) [0..<BT_HASH_TABLE_SIZE];
     Some (Bt_count_line (bt_count st) # ls) }"

text \<open>
  The extra information is printed as a string: up to its first 0, wherever that is in the memory behind it
  (\<open>behind\<close>, up to the next 0).
\<close>

definition extra_lines :: "(u32 \<Rightarrow> u8 list) \<Rightarrow> u32 \<Rightarrow> entry_info \<Rightarrow> ubrd_line list" where
  "extra_lines behind p i =
     (case mExtraInfo i of
        Some xs \<Rightarrow> if mExtraInfoLen i \<noteq> 0 then [Extra_line (mExtraInfoLen i) (takeWhile (\<lambda>b. b \<noteq> 0) (xs @ behind p))] else []
      | None \<Rightarrow> [])"

definition entry_lines :: "(u32 \<Rightarrow> u8 list) \<Rightarrow> ubrd \<Rightarrow> u32 \<Rightarrow> hash_entry \<Rightarrow> ubrd_line list option" where
  "entry_lines behind st p n = do {
     i \<leftarrow> infos st (he_mPEntryInfo n);
     Some (Hash_entry_line p (mAddr i) (mBytes i) (he_mPBtEntry n) # extra_lines behind (he_mPEntryInfo n) i) }"

partial_function (option) dump_hash_list :: "(u32 \<Rightarrow> u8 list) \<Rightarrow> ubrd \<Rightarrow> u32 \<Rightarrow> ubrd_line list option" where
  "dump_hash_list behind st p =
     (if p = 0 then Some []
      else do {
        n \<leftarrow> hes st p;
        ls \<leftarrow> entry_lines behind st p n;
        rest \<leftarrow> dump_hash_list behind st (he_next n);
        Some (ls @ rest)
      })"

definition dumpHashTable :: "(u32 \<Rightarrow> u8 list) \<Rightarrow> ubrd \<Rightarrow> ubrd_line list option" where
  "dumpHashTable behind st =
     (if mRecordWithRingBuf (mConfig st) = 0 then
        if hash_base st = 0 then None
        else do {
          ls \<leftarrow> dump_each (\<lambda>i. dump_hash_list behind st (hash_slots st i)) [0..<HASH_TABLE_SIZE];
          Some (Hash_count_line (hash_count st) # ls) }
      else Some [])"

definition dump_ring_slot :: "(u32 \<Rightarrow> u8 list) \<Rightarrow> ubrd \<Rightarrow> nat \<Rightarrow> ubrd_line list option" where
  "dump_ring_slot behind st i =
     (if ring_size st \<le> i then None
      else if ring_slots st i = 0 then Some []
      else do {
        n \<leftarrow> hes st (ring_slots st i);
        ls \<leftarrow> entry_lines behind st (ring_slots st i) n;
        ms \<leftarrow> (if he_mPBtEntry n = 0 then Some []
               else do {
                 b \<leftarrow> bts st (he_mPBtEntry n);
                 t \<leftarrow> trace_lines (be_numEntries b) (be_backtrace b);
                 Some (Malloc_bt_line # t) });
        fs \<leftarrow> (if he_mBt n = 0 then Some []
               else do { f \<leftarrow> free_bts st (he_mBt n); Some (Free_bt_line # map Bt_line f) });
        Some (ls @ ms @ fs) })"

definition dumpRingBuffer :: "(u32 \<Rightarrow> u8 list) \<Rightarrow> ubrd \<Rightarrow> ubrd_line list option" where
  "dumpRingBuffer behind st =
     (if mRingBufferSize (mConfig st) = 0 then Some []
      else if ring_base st = 0 then None
      else do {
        ls \<leftarrow> dump_each (dump_ring_slot behind st) [0..<unat (mRingBufferSize (mConfig st))];
        Some (Ring_size_line (mRingBufferSize (mConfig st)) # ls) })"

definition dumpUBRD :: "(u32 \<Rightarrow> u8 list) \<Rightarrow> ubrd \<Rightarrow> ubrd_line list option" where
  "dumpUBRD behind st = do {
     bt \<leftarrow> dumpBtTable st;
     h \<leftarrow> dumpHashTable behind st;
     r \<leftarrow> dumpRingBuffer behind st;
     Some ([Mspace_line (mMspace st), Mspace_size_line (mDebugMspaceSize (mConfig st)), His_size_line (mRingBufferSize (mConfig st))]
       @ bt @ h @ r) }"

text \<open>\<open>pDUMPUBRD\<close> is the recorder that was installed last, \<open>None\<close> when there is none.\<close>

definition ubrd_signal_handler :: "(u32 \<Rightarrow> u8 list) \<Rightarrow> ubrd option \<Rightarrow> ubrd_line list option" where
  "ubrd_signal_handler behind pDUMPUBRD = (case pDUMPUBRD of None \<Rightarrow> Some [] | Some st \<Rightarrow> dumpUBRD behind st)"

definition ubrd_install_signal :: "ubrd \<Rightarrow> ubrd option \<Rightarrow> ubrd option" where
  "ubrd_install_signal st old = Some st"

section \<open>Dumps of lists\<close>

lemma bts_of_simps [simp]:
  "bts_of [] = []" "bts_of (l # ls) = bt_of_line l @ bts_of ls" "bts_of (ls @ ks) = bts_of ls @ bts_of ks"
  "hashes_of [] = []" "hashes_of (l # ls) = hash_of_line l @ hashes_of ls" "hashes_of (ls @ ks) = hashes_of ls @ hashes_of ks"
  by (simp_all add: bts_of_def hashes_of_def)

lemma of_bt_lines [simp]: "bts_of (map Bt_line bt) = []" "hashes_of (map Bt_line bt) = []"
  by (induction bt) simp_all

lemma of_extra [simp]: "bts_of (extra_lines behind p i) = []" "hashes_of (extra_lines behind p i) = []"
  by (simp_all add: extra_lines_def split: option.split)

lemma of_entry:
  "entry_lines behind st p n = Some ls \<Longrightarrow> bts_of ls = [] \<and> hashes_of ls = [p]"
  by (auto simp: entry_lines_def split: bind_splits)

lemma dump_bt_list_chain:
  assumes "chain be_prev be_next h q p xs" "\<And>x n. x \<in> set xs \<Longrightarrow> h x = Some n \<Longrightarrow> be_numEntries n = length (be_backtrace n)"
  shows "\<exists>ls. dump_bt_list h p = Some ls \<and> bts_of ls = xs \<and> hashes_of ls = []"
  using assms
proof (induction xs arbitrary: q p)
  case Nil
  then show ?case by (subst dump_bt_list.simps) simp
next
  case (Cons x xs)
  then obtain n where n: "p = x" "x \<noteq> 0" "h x = Some n" "chain be_prev be_next h x (be_next n) xs"
    by (auto split: option.splits)
  obtain ls where "dump_bt_list h (be_next n) = Some ls" "bts_of ls = xs" "hashes_of ls = []"
    using Cons.IH [OF n(4)] Cons.prems(2) by auto
  then show ?case using n Cons.prems(2) [of x n] by (subst dump_bt_list.simps) (simp add: trace_lines_def)
qed

lemma dump_hash_list_chain:
  assumes "chain he_prev he_next (hes st) q p xs" "\<And>x n. hes st x = Some n \<Longrightarrow> infos st (he_mPEntryInfo n) \<noteq> None"
  shows "\<exists>ls. dump_hash_list behind st p = Some ls \<and> bts_of ls = [] \<and> hashes_of ls = xs"
  using assms
proof (induction xs arbitrary: q p)
  case Nil
  then show ?case by (subst dump_hash_list.simps) simp
next
  case (Cons x xs)
  then obtain n where n: "p = x" "x \<noteq> 0" "hes st x = Some n" "chain he_prev he_next (hes st) x (he_next n) xs"
    by (auto split: option.splits)
  obtain ls where ls: "dump_hash_list behind st (he_next n) = Some ls" "bts_of ls = [] \<and> hashes_of ls = xs"
    using Cons.IH [OF n(4)] Cons.prems(2) by auto
  obtain ks where ks: "entry_lines behind st x n = Some ks" using Cons.prems(2) [OF n(3)] by (auto simp: entry_lines_def)
  then show ?case using n ls of_entry [OF ks] by (subst dump_hash_list.simps) simp
qed

lemma dump_each_lists:
  assumes "\<And>i. i \<in> set is \<Longrightarrow> \<exists>ls. f i = Some ls \<and> bts_of ls = B i \<and> hashes_of ls = H i"
  shows "\<exists>ls. dump_each f is = Some ls \<and> bts_of ls = concat (map B is) \<and> hashes_of ls = concat (map H is)"
  using assms
proof (induction "is")
  case (Cons i "is")
  obtain ls where "f i = Some ls" "bts_of ls = B i" "hashes_of ls = H i" using Cons.prems [of i] by auto
  moreover obtain ks where "dump_each f is = Some ks" "bts_of ks = concat (map B is)" "hashes_of ks = concat (map H is)"
    using Cons.IH Cons.prems by auto
  ultimately show ?case by simp
qed simp

text \<open>The buckets one after the other are the members, each once.\<close>

lemma buckets_listed:
  assumes "buckets pv nx N h S L"
  shows "distinct (concat (map L [0..<N]))" "set (concat (map L [0..<N])) = members N L"
proof -
  have "distinct (concat (map L [0..<M]))" if "M \<le> N" for M
    using that
  proof (induction M)
    case (Suc M)
    have "set (L s) \<inter> set (L M) = {}" if "s < M" for s
    proof -
      have "s < N" "M < N" "s \<noteq> M" using Suc.prems that by simp_all
      then show ?thesis using assms unfolding buckets_def by blast
    qed
    then have "set (concat (map L [0..<M])) \<inter> set (L M) = {}" by fastforce
    moreover have "distinct (concat (map L [0..<M]))" "distinct (L M)" using Suc bucketsD(2) [OF assms, of M] by simp_all
    ultimately show ?case by (simp only: upt_Suc_append map_append concat_append distinct_append) simp
  qed simp
  then show "distinct (concat (map L [0..<N]))" by simp
  show "set (concat (map L [0..<N])) = members N L" by (auto simp: members_def)
qed

section \<open>Properties\<close>

text \<open>The configuration and the ring do not change once the recorder runs.\<close>

definition ring_ready :: "ubrd \<Rightarrow> bool" where
  "ring_ready st \<longleftrightarrow> (ring_base st \<noteq> 0 \<or> mRingBufferSize (mConfig st) = 0)"

lemma dump_bts:
  assumes "bt_table_ok st bl"
  shows "\<exists>ls. dumpBtTable st = Some ls \<and> bts_of ls = concat (map bl [0..<BT_HASH_TABLE_SIZE]) \<and> hashes_of ls = []"
proof -
  have b: "buckets be_prev be_next BT_HASH_TABLE_SIZE (bts st) (bt_slots st) bl" using assms by (simp add: bt_table_ok_def)
  have "\<exists>ls. dump_bt_list (bts st) (bt_slots st i) = Some ls \<and> bts_of ls = bl i \<and> hashes_of ls = []"
    if "i \<in> set [0..<BT_HASH_TABLE_SIZE]" for i
    by (rule dump_bt_list_chain [OF bucketsD(1) [OF b]]) (use that bt_table_member(3) [OF assms] in auto)
  then obtain ls where "dump_each (\<lambda>i. dump_bt_list (bts st) (bt_slots st i)) [0..<BT_HASH_TABLE_SIZE] = Some ls"
    "bts_of ls = concat (map bl [0..<BT_HASH_TABLE_SIZE])" "hashes_of ls = concat (map (\<lambda>i. []) [0..<BT_HASH_TABLE_SIZE])"
    using dump_each_lists [of "[0..<BT_HASH_TABLE_SIZE]" "\<lambda>i. dump_bt_list (bts st) (bt_slots st i)" bl "\<lambda>i. []"] by blast
  then show ?thesis by (simp add: dumpBtTable_def)
qed

lemma dump_hashes:
  assumes "hash_ok st hl" "own_ok st" "mode_ok st"
  shows "\<exists>ls. dumpHashTable behind st = Some ls \<and> bts_of ls = []
    \<and> hashes_of ls = (if hash_mode st then concat (map hl [0..<HASH_TABLE_SIZE]) else [])"
proof (cases "hash_mode st")
  case True
  then have b: "buckets he_prev he_next HASH_TABLE_SIZE (hes st) (hash_slots st) hl" and z: "hash_base st \<noteq> 0"
    using assms(1,3) by (simp_all add: hash_ok_def mode_ok_def)
  have "\<exists>ls. dump_hash_list behind st (hash_slots st i) = Some ls \<and> bts_of ls = [] \<and> hashes_of ls = hl i"
    if "i \<in> set [0..<HASH_TABLE_SIZE]" for i
    by (rule dump_hash_list_chain [OF bucketsD(1) [OF b]]) (use that own_node(3) [OF assms(2)] in auto)
  then obtain ls where "dump_each (\<lambda>i. dump_hash_list behind st (hash_slots st i)) [0..<HASH_TABLE_SIZE] = Some ls"
    "bts_of ls = concat (map (\<lambda>i. []) [0..<HASH_TABLE_SIZE])" "hashes_of ls = concat (map hl [0..<HASH_TABLE_SIZE])"
    using dump_each_lists [of "[0..<HASH_TABLE_SIZE]" "\<lambda>i. dump_hash_list behind st (hash_slots st i)" "\<lambda>i. []" hl] by blast
  then show ?thesis using True z by (simp add: dumpHashTable_def hash_mode_def)
qed (simp add: dumpHashTable_def hash_mode_def)

text \<open>The entries of the ring, in the order of its slots.\<close>

definition ring_list :: "ubrd \<Rightarrow> u32 list" where
  "ring_list st = filter (\<lambda>x. x \<noteq> 0) (map (ring_slots st) [0..<ring_size st])"

lemma ring_listed:
  assumes "ring_inj (ring_slots st) (ring_size st)"
  shows "distinct (ring_list st)" "set (ring_list st) = ring_set st"
proof -
  have "distinct (filter (\<lambda>x. x \<noteq> 0) (map (ring_slots st) [0..<M]))" if "M \<le> ring_size st" for M
    using that
  proof (induction M)
    case (Suc M)
    have "ring_slots st i \<noteq> ring_slots st M" if "i < M" "ring_slots st i \<noteq> 0" for i
    proof -
      have "i < ring_size st" "M < ring_size st" "i \<noteq> M" using Suc.prems that by simp_all
      then show ?thesis using assms that(2) unfolding ring_inj_def by blast
    qed
    then have "ring_slots st M \<notin> ring_slots st ` ({i. i < M \<and> ring_slots st i \<noteq> 0})" by fastforce
    then show ?case using Suc by auto
  qed simp
  then show "distinct (ring_list st)" by (simp add: ring_list_def)
  show "set (ring_list st) = ring_set st" by (auto simp: ring_list_def ring_set_def)
qed

lemma concat_single: "concat (map (\<lambda>i. if P i then [] else [f i]) xs) = map f (filter (\<lambda>i. \<not> P i) xs)"
  by (induction xs) simp_all

lemma dump_ring:
  assumes "ring_ok st" "own_ok st" "bt_table_ok st bl" "ring_ready st"
  shows "\<exists>ls. dumpRingBuffer behind st = Some ls \<and> bts_of ls = []
    \<and> hashes_of ls = (if mRingBufferSize (mConfig st) = 0 then [] else ring_list st)"
proof (cases "mRingBufferSize (mConfig st) = 0")
  case False
  then have z: "ring_base st \<noteq> 0" using assms(4) by (simp add: ring_ready_def)
  then have n: "ring_size st = unat (mRingBufferSize (mConfig st))" using assms(1) by (simp add: ring_ok_def)
  have "\<exists>ls. dump_ring_slot behind st i = Some ls \<and> bts_of ls = []
      \<and> hashes_of ls = (if ring_slots st i = 0 then [] else [ring_slots st i])" if i: "i \<in> set [0..<ring_size st]" for i
  proof (cases "ring_slots st i = 0")
    case True
    then show ?thesis using i by (simp add: dump_ring_slot_def)
  next
    case nz: False
    then have "ring_slots st i \<in> ring_set st" using i by (auto simp: ring_set_def)
    then obtain n where e: "hes st (ring_slots st i) = Some n" using assms(1) by (auto simp: ring_ok_def)
    note N = own_node [OF assms(2) e]
    obtain ls where ls: "entry_lines behind st (ring_slots st i) n = Some ls" using N(3) by (auto simp: entry_lines_def)
    obtain b where b: "bts st (he_mPBtEntry n) = Some b" using N(2) by auto
    have t: "trace_lines (be_numEntries b) (be_backtrace b) = Some (map Bt_line (be_backtrace b))"
      using bt_table_member(3) [OF assms(3) b] by (simp add: trace_lines_def)
    show ?thesis using N(4) i nz e ls b t of_entry [OF ls] by (auto simp: dump_ring_slot_def)
  qed
  then obtain ls where "dump_each (dump_ring_slot behind st) [0..<ring_size st] = Some ls"
    "bts_of ls = concat (map (\<lambda>i. []) [0..<ring_size st])"
    "hashes_of ls = concat (map (\<lambda>i. if ring_slots st i = 0 then [] else [ring_slots st i]) [0..<ring_size st])"
    using dump_each_lists [of "[0..<ring_size st]" "dump_ring_slot behind st" "\<lambda>i. []"
      "\<lambda>i. if ring_slots st i = 0 then [] else [ring_slots st i]"] by blast
  then show ?thesis using False z by (simp add: dumpRingBuffer_def n ring_list_def concat_single filter_map comp_def)
qed (simp add: dumpRingBuffer_def)

text \<open>What no operation changes.\<close>

definition fixed :: "ubrd \<Rightarrow> ubrd_config \<times> u32" where
  "fixed st = (mConfig st, ring_base st)"

lemma fixed_simps [simp]: "fixed (st\<lparr>mMutex := b\<rparr>) = fixed st" "fixed (st\<lparr>mMspace := p\<rparr>) = fixed st"
  "fixed (st\<lparr>bts := B\<rparr>) = fixed st" "fixed (st\<lparr>hes := H\<rparr>) = fixed st" "fixed (st\<lparr>infos := I\<rparr>) = fixed st"
  "fixed (unlock st) = fixed st" "fixed (ubrd_clean_exit st) = fixed st"
  by (simp_all add: fixed_def unlock_def ubrd_clean_exit_def)

lemma fixed_lock: "lock st = Some s \<Longrightarrow> fixed s = fixed st"
  by (auto simp: lock_def split: if_splits)

lemma fixed_push: "push_bt e n st = Some s \<Longrightarrow> fixed s = fixed st"
  by (auto simp: push_bt_def Let_def fixed_def split: bind_splits if_splits)

lemma fixed_recordBacktrace: "recordBacktrace malloc bt st sz = Some (b, s) \<Longrightarrow> fixed s = fixed st"
  by (auto simp: recordBacktrace_def Let_def dest: fixed_push split: bind_splits if_splits)

lemma fixed_recordToHashTable: "recordToHashTable malloc st k i b = Some (e, s) \<Longrightarrow> fixed s = fixed st"
  by (auto simp: recordToHashTable_def Let_def fixed_def split: bind_splits if_splits)

lemma fixed_unlink_bt: "unlink_bt b n st = Some s \<Longrightarrow> fixed s = fixed st"
  by (auto simp: unlink_bt_def Let_def fixed_def split: bind_splits if_splits)

lemma fixed_decBtEntry: "decBtEntry st b = Some s \<Longrightarrow> fixed s = fixed st"
  by (auto simp: decBtEntry_def dest: fixed_unlink_bt split: bind_splits if_splits)

lemma fixed_free_entry: "free_entry st e n = Some s \<Longrightarrow> fixed s = fixed st"
  by (auto simp: free_entry_def fixed_def split: bind_splits if_splits)

lemma fixed_ring_put [simp]: "fixed (ring_put he st) = fixed st"
  by (simp add: ring_put_def Let_def fixed_def)

lemma fixed_insertToRingBuffer:
  "insertToRingBuffer st he mode = Some s \<Longrightarrow> fixed s = fixed st"
  unfolding insertToRingBuffer_def Let_def
  by (auto dest!: fixed_free_entry fixed_decBtEntry split: bind_splits if_splits)

lemma fixed_recordToRingBuffer: "recordToRingBuffer malloc st b i f = Some (r, s) \<Longrightarrow> fixed s = fixed st"
  unfolding recordToRingBuffer_def Let_def
  by (auto dest!: fixed_insertToRingBuffer simp: fixed_def split: bind_splits if_splits)

lemma fixed_record_entry: "record_entry malloc st a i b = Some s \<Longrightarrow> fixed s = fixed st"
  unfolding record_entry_def
  by (auto dest!: fixed_recordToRingBuffer fixed_recordToHashTable split: bind_splits if_splits)

lemma fixed_record:
  "ubrd_btrace_record malloc bt st addr n extra len = Some (r, s) \<Longrightarrow> fixed s = fixed st"
  unfolding ubrd_btrace_record_def Let_def
  by (auto dest!: fixed_lock fixed_recordBacktrace fixed_record_entry split: bind_splits if_splits)

lemma fixed_unlink_hash: "unlink_hash slot e n st = Some s \<Longrightarrow> fixed s = fixed st"
  unfolding unlink_hash_def Let_def by (auto simp: fixed_def split: bind_splits if_splits)

lemma fixed_removeFromHashTable: "removeFromHashTable st k i = Some (e, s) \<Longrightarrow> fixed s = fixed st"
  unfolding removeFromHashTable_def Let_def
  by (auto dest!: fixed_unlink_hash simp: fixed_def split: bind_splits if_splits)

lemma fixed_free_bts [simp]: "fixed (st\<lparr>free_bts := F\<rparr>) = fixed st"
  by (simp add: fixed_def)

lemma fixed_move: "move malloc bt st k i = Some (r, s) \<Longrightarrow> fixed s = fixed st"
  unfolding move_def Let_def
  by (auto dest!: fixed_removeFromHashTable fixed_insertToRingBuffer fixed_decBtEntry fixed_free_entry
      split: bind_splits if_splits)

lemma fixed_remove_locked: "remove_locked malloc bt st addr n extra len = Some (r, s) \<Longrightarrow> fixed s = fixed st"
  unfolding remove_locked_def by (auto dest!: fixed_move split: if_splits)

lemma fixed_run_op: "run_ubrd_op op st = Some (r, s) \<Longrightarrow> fixed s = fixed st"
  by (cases op) (auto simp: ubrd_btrace_remove_def ubrd_btrace_remove_nolock_def
      dest!: fixed_record fixed_lock fixed_remove_locked split: bind_splits if_splits)

lemma fixed_run: "run_ubrd ops st = Some s \<Longrightarrow> fixed s = fixed st"
proof (induction ops arbitrary: st)
  case (Cons op ops)
  then show ?case by (auto dest!: fixed_run_op split: bind_splits)
qed simp

lemma init_ring_ready:
  "ubrd_init mmap create malloc raw name config cmp = Some st \<Longrightarrow> ring_ready st"
  by (auto simp: ubrd_init_def initTables_def Let_def ring_ready_def split: if_splits prod.splits)

lemma run_ring_ready:
  assumes "ubrd_init mmap create malloc raw name config cmp = Some st0" "run_ubrd ops st0 = Some st"
  shows "ring_ready st"
  using init_ring_ready [OF assms(1)] fixed_run [OF assms(2)] by (simp add: ring_ready_def fixed_def)

lemma dump_inv:
  assumes inv: "ubrd_inv 0 st bl hl" and rr: "ring_ready st"
  shows "\<exists>ls. dumpUBRD behind st = Some ls \<and> distinct (bts_of ls) \<and> set (bts_of ls) = dom (bts st)
    \<and> distinct (hashes_of ls) \<and> set (hashes_of ls) = members HASH_TABLE_SIZE hl \<union> ring_set st"
proof -
  have t: "bt_table_ok st bl" and r: "ring_ok st" and h: "hash_ok st hl" and w: "own_ok st" and m: "mode_ok st"
    using inv by (simp_all add: ubrd_inv_def)
  obtain tl where tl: "dumpBtTable st = Some tl" "bts_of tl = concat (map bl [0..<BT_HASH_TABLE_SIZE])" "hashes_of tl = []"
    using dump_bts [OF t] by auto
  obtain kl where kl: "dumpHashTable behind st = Some kl" "bts_of kl = []"
      "hashes_of kl = (if hash_mode st then concat (map hl [0..<HASH_TABLE_SIZE]) else [])"
    using dump_hashes [OF h w m, of behind] by auto
  obtain rl where rl: "dumpRingBuffer behind st = Some rl" "bts_of rl = []"
      "hashes_of rl = (if mRingBufferSize (mConfig st) = 0 then [] else ring_list st)"
    using dump_ring [OF r w t rr, of behind] by auto
  have ri: "ring_inj (ring_slots st) (ring_size st)" using r by (simp add: ring_ok_def)
  have ring: "distinct (hashes_of rl)" "set (hashes_of rl) = ring_set st"
    using ring_listed [OF ri] rl(3) r by (auto simp: ring_ok_def ring_set_def split: if_splits)
  have hash: "distinct (hashes_of kl) \<and> set (hashes_of kl) = members HASH_TABLE_SIZE hl"
    using buckets_listed [of he_prev he_next HASH_TABLE_SIZE "hes st" "hash_slots st" hl] h kl(3)
    by (cases "hash_mode st") (simp_all add: hash_ok_def)
  have "members HASH_TABLE_SIZE hl \<inter> ring_set st = {}" using h by (simp add: hash_ok_def)
  moreover have "distinct (bts_of tl)" "set (bts_of tl) = dom (bts st)"
    using buckets_listed [of be_prev be_next BT_HASH_TABLE_SIZE "bts st" "bt_slots st" bl] t tl(2)
    by (simp_all add: bt_table_ok_def)
  moreover define ls where "ls = [Mspace_line (mMspace st), Mspace_size_line (mDebugMspaceSize (mConfig st)),
    His_size_line (mRingBufferSize (mConfig st))] @ tl @ kl @ rl"
  have d: "dumpUBRD behind st = Some ls" by (simp add: dumpUBRD_def tl kl rl ls_def)
  have "bts_of ls = bts_of tl" "hashes_of ls = hashes_of kl @ hashes_of rl" by (simp_all only: ls_def bts_of_simps append.simps
        bt_of_line.simps hash_of_line.simps append_Nil append_Nil2 tl(3) kl(2) rl(2))
  ultimately show ?thesis using ring hash d by (intro exI [of _ ls]) (simp only: distinct_append set_append)
qed

section \<open>The theorems\<close>

text \<open>
  The dump after SIGUSR2, between two calls on any history, follows no bad pointer while the recorder is
  enabled and tells the tables exactly: it prints every back-trace entry once, and every current and every
  historical entry once, and nothing else.
\<close>

theorem ubrd_dump_tells_tables:
  assumes "ubrd_init mmap create malloc (\<lambda>_. 0) name config cmp = Some st0"
    and "\<forall>op \<in> set ops. call_ok (op_call op)" and "run_ubrd ops st0 = Some st" and "mMspace st \<noteq> 0"
  shows "\<exists>ls hl. ubrd_signal_handler behind (ubrd_install_signal st old) = Some ls \<and> hash_ok st hl
    \<and> distinct (bts_of ls) \<and> set (bts_of ls) = dom (bts st)
    \<and> distinct (hashes_of ls) \<and> set (hashes_of ls) = members HASH_TABLE_SIZE hl \<union> ring_set st"
proof -
  obtain bl hl where inv: "ubrd_inv 0 st bl hl"
    using history_ok [OF assms(1-3)] assms(4) by (auto simp: recorder_ok_def)
  then have "hash_ok st hl" by (simp add: ubrd_inv_def)
  then show ?thesis using dump_inv [OF inv run_ring_ready [OF assms(1,3)], of behind]
    by (auto simp: ubrd_signal_handler_def ubrd_install_signal_def)
qed

theorem ubrd_dump_tells_tables_witness:
  "\<exists>st1 ls. run_ubrd [Record (toy_call 0x100)] toy_state = Some st1
     \<and> ubrd_signal_handler (\<lambda>_. []) (ubrd_install_signal st1 None) = Some ls \<and> 0x3000 \<in> set (bts_of ls)"
proof -
  obtain st1 where st1: "ubrd_btrace_record toy_malloc [0x8000, 0x9000] toy_state 0x100 64 None 0 = Some (0, st1)"
      "mMspace st1 \<noteq> 0" "bts st1 0x3000 \<noteq> None"
    using toy_record by blast
  have run: "run_ubrd [Record (toy_call 0x100)] toy_state = Some st1"
    using st1(1) by (simp add: toy_call_def)
  have "\<forall>op \<in> set [Record (toy_call 0x100)]. call_ok (op_call op)" by (simp add: toy_call_ok)
  from ubrd_dump_tells_tables [OF toy_init this run st1(2), of "\<lambda>_. []" None] show ?thesis using run st1(3) by blast
qed

end
