(* ===== verification/UbrdBackTrace.thy ===== *)
theory UbrdBackTrace
  imports UbrdMain BackTrace ArmLoop
begin

text \<open>
  \<open>src/proprietary/external/libudf/ubrd_core/backtrace.cpp\<close>: where the recorder's back traces come from. The
  32-bit build has three sources, chosen by the configuration: frame pointers, the unwinder of libudf and the C++
  unwinder; the 64-bit build follows frame pointers only. A read outside the image is a fault.
\<close>

section \<open>The bounds of the stack\<close>

text \<open>\<open>ubrd_get_main_thread_stack\<close> of this file: start and size.\<close>

definition recorder_main_thread_stack :: "proc_env \<Rightarrow> (u32 \<times> u32) outcome" where
  "recorder_main_thread_stack pe =
     (if \<not> pe_libc pe then Fail
      else case pe_maps pe of None \<Rightarrow> Fail
      | Some maps \<Rightarrow> bindo (scan_maps maps (pe_line pe) 0) (\<lambda>(line, found).
          case found of Some start \<Rightarrow> Ok (start, 8 * 1024 * 1024)
          | None \<Rightarrow>
            (case pe_stat pe of None \<Rightarrow> Fail
             | Some stat \<Rightarrow> bindo (scan_stat stat (line[0 := NUL]) 0 0) (\<lambda>line'.
                 if line' ! 0 = NUL then Fail
                 else Ok (fst (strtoul (c_str_at line' 0) 10), 8 * 1024 * 1024)))))"

text \<open>\<open>ubrd_get_stack\<close> of this file with its three static variables; \<open>None\<close> is the return value -1.\<close>

definition recorder_get_stack :: "proc_env \<Rightarrow> stack_cache \<Rightarrow> (stack_bounds option \<times> stack_cache) outcome" where
  "recorder_get_stack pe st =
     (if pe_tid pe = pe_pid pe then
        let st1 = reset_for_process pe st;
            bounds = (\<lambda>s. Some \<lparr>sb_start = main_start s, sb_end = main_start s - main_size s\<rparr>)
        in if main_start st1 \<noteq> 0 then Ok (bounds st1, st1)
           else (case recorder_main_thread_stack pe of
                   Ok (a, sz) \<Rightarrow> let st2 = st1\<lparr>main_start := a, main_size := sz\<rparr> in Ok (bounds st2, st2)
                 | Fail \<Rightarrow> Ok (None, st1)
                 | Fault \<Rightarrow> Fault)
      else Ok (Some \<lparr>sb_start = pe_attr_base pe + pe_attr_size pe, sb_end = pe_attr_base pe\<rparr>, st))"

section \<open>Frame pointers, 32 bit\<close>

definition inside :: "stack_bounds \<Rightarrow> u32 \<Rightarrow> bool" where
  "inside sb p \<longleftrightarrow> p > sb_end sb \<and> p < sb_start sb"

definition walk_frame :: "memory_image \<Rightarrow> stack_bounds \<Rightarrow> u32 \<Rightarrow> (u32 \<times> u32) option outcome" where
  "walk_frame img sb fp =
     bindo (read_word img fp) (\<lambda>lr.
       if lr > sb_end sb \<and> lr < sb_start sb - 4 then
         (if fp + 4 > sb_start sb - 4 then Ok None
          else bindo (read_word img (fp + 4)) (\<lambda>lr'. Ok (Some (lr', lr))))
       else bindo (read_word img (fp - 4)) (\<lambda>next_fp. Ok (Some (lr, next_fp))))"

fun walk_frames :: "memory_image \<Rightarrow> stack_bounds \<Rightarrow> nat \<Rightarrow> u32 \<Rightarrow> u32 list outcome" where
  "walk_frames img sb 0 fp = Ok []"
| "walk_frames img sb (Suc room) fp =
     (if \<not> inside sb fp then Ok []
      else bindo (walk_frame img sb fp) (\<lambda>fr.
        case fr of None \<Rightarrow> Ok []
        | Some (lr, next_fp) \<Rightarrow>
           (if lr < 0x10000000 then Ok []
            else if next_fp \<le> fp then Ok [lr - 4]
            else bindo (walk_frames img sb room next_fp) (\<lambda>addrs. Ok ((lr - 4) # addrs)))))"

definition ubrd_get_backtrace_fp ::
    "memory_image \<Rightarrow> proc_env \<Rightarrow> stack_cache \<Rightarrow> u32 \<Rightarrow> nat \<Rightarrow> (u32 list \<times> stack_cache) outcome" where
  "ubrd_get_backtrace_fp img pe st fp max_entries =
     bindo (recorder_get_stack pe st) (\<lambda>(r, st').
       case r of None \<Rightarrow> Ok ([], st')
       | Some sb \<Rightarrow> bindo (walk_frames img sb max_entries fp) (\<lambda>addrs. Ok (addrs, st')))"

section \<open>Frame pointers, 64 bit\<close>

text \<open>\<open>skipped\<close> is \<open>have_skipped_self\<close>; \<open>room\<close> is \<open>max_entries - k\<close>. The three 64-bit entry points return this.\<close>

function internal_get_backtrace_fp ::
    "memory_image64 \<Rightarrow> u64 \<Rightarrow> u64 \<Rightarrow> bool \<Rightarrow> nat \<Rightarrow> u64 \<Rightarrow> u64 list outcome" where
  "internal_get_backtrace_fp img s e skipped room fp_tmp =
     (if room = 0 \<or> \<not> (fp_tmp > e \<and> fp_tmp < s) then Ok []
      else if fp_tmp AND 0xf \<noteq> 0 then Ok []
      else if \<not> skipped then bindo (read_dword img fp_tmp) (internal_get_backtrace_fp img s e True room)
      else bindo (read_dword img (fp_tmp + 8)) (\<lambda>lr.
        if lr < 0xfffffffff then Ok []
        else bindo (read_dword img fp_tmp) (\<lambda>next_fp.
          if next_fp \<le> fp_tmp then Ok [lr - 4]
          else bindo (internal_get_backtrace_fp img s e True (room - 1) next_fp) (\<lambda>addrs. Ok ((lr - 4) # addrs)))))"
  by pat_completeness auto
termination
  by (relation "measure (\<lambda>(img, s, e, skipped, room, fp). 2 * room + (if skipped then 0 else 1))") auto

declare internal_get_backtrace_fp.simps [simp del]

definition ubrd_get_backtrace_common64 :: "memory_image64 \<Rightarrow> (u64 \<times> u64) option \<Rightarrow> u64 \<Rightarrow> nat \<Rightarrow> u64 list outcome" where
  "ubrd_get_backtrace_common64 img bounds frame_address max_entries =
     (case bounds of None \<Rightarrow> Ok []
      | Some (s, e) \<Rightarrow> internal_get_backtrace_fp img s e False max_entries frame_address)"

section \<open>The C++ unwinder\<close>

record ubrd_crawl =
  crawl_frames :: "u32 list"
  crawl_depth :: nat
  crawl_skip :: nat
  crawl_skipped_self :: bool

text \<open>The call before the return address \<open>ip\<close>: the half word below it tells a Thumb BLX from the longer calls.\<close>

definition call_site :: "(u32 \<Rightarrow> 16 word option) \<Rightarrow> u32 \<Rightarrow> u32 outcome" where
  "call_site code ip =
     (if ip = 0 then Ok 0
      else case code (ip - 2) of None \<Rightarrow> Fault
      | Some h \<Rightarrow> Ok (if h AND 0xff80 = 0x4780 then ip - 2 else ip - 4))"

definition ubrd_trace_function ::
    "(u32 \<Rightarrow> 16 word option) \<Rightarrow> u32 \<Rightarrow> ubrd_crawl \<Rightarrow> (unwind_reason \<times> ubrd_crawl) outcome" where
  "ubrd_trace_function code ip s =
     (if ip \<noteq> 0 \<and> \<not> crawl_skipped_self s then Ok (URC_NO_REASON, s\<lparr>crawl_skipped_self := True\<rparr>)
      else if crawl_skip s > 0 then Ok (URC_NO_REASON, s\<lparr>crawl_skip := crawl_skip s - 1\<rparr>)
      else bindo (call_site code ip) (\<lambda>a.
        let s' = s\<lparr>crawl_frames := crawl_frames s @ [a]\<rparr> in
        Ok (if length (crawl_frames s') \<ge> crawl_depth s' then URC_END_OF_STACK else URC_NO_REASON, s')))"

text \<open>\<open>_Unwind_Backtrace\<close> is a parameter, as in the malloc debugger's back traces.\<close>

type_synonym crawl_step = "u32 \<Rightarrow> ubrd_crawl \<Rightarrow> (unwind_reason \<times> ubrd_crawl) outcome"
type_synonym crawl_unwinder = "crawl_step \<Rightarrow> ubrd_crawl \<Rightarrow> ubrd_crawl outcome"

definition ubrd_get_backtrace ::
    "crawl_unwinder \<Rightarrow> (u32 \<Rightarrow> 16 word option) \<Rightarrow> nat \<Rightarrow> nat \<Rightarrow> u32 list outcome" where
  "ubrd_get_backtrace unwind_backtrace code max_entries skip =
     bindo (unwind_backtrace (ubrd_trace_function code)
        \<lparr>crawl_frames = [], crawl_depth = max_entries, crawl_skip = skip, crawl_skipped_self = False\<rparr>)
       (\<lambda>s. Ok (crawl_frames s))"

fun crawl_frames_in_order :: "u32 list \<Rightarrow> crawl_step \<Rightarrow> ubrd_crawl \<Rightarrow> ubrd_crawl outcome" where
  "crawl_frames_in_order [] f s = Ok s"
| "crawl_frames_in_order (ip # ips) f s =
     bindo (f ip s) (\<lambda>(r, s'). if r = URC_NO_REASON then crawl_frames_in_order ips f s' else Ok s')"

definition crawls_in_order :: "crawl_unwinder \<Rightarrow> u32 list \<Rightarrow> bool" where
  "crawls_in_order unwind_backtrace ips \<longleftrightarrow> (\<forall>f s. unwind_backtrace f s = crawl_frames_in_order ips f s)"

section \<open>The choice\<close>

text \<open>What a trace is taken from: the stack, the process, the code, the two unwinders' surroundings, the frame pointer.\<close>

record trace_env =
  te_image :: memory_image
  te_proc :: proc_env
  te_code :: "u32 \<Rightarrow> 16 word option"
  te_unwinder :: crawl_unwinder
  te_udf :: unwind_env
  te_regs :: "u32 list"
  te_fp :: u32

definition UBRD_GCC_UNWIND_BACKTRACE :: u32 where "UBRD_GCC_UNWIND_BACKTRACE = 1"
definition UBRD_CORKSCREW_UNWIND_BACKTRACE :: u32 where "UBRD_CORKSCREW_UNWIND_BACKTRACE = 2"

text \<open>\<open>Fail\<close> is an unwinder that does not come back.\<close>

definition ubrd_get_backtrace_common ::
    "trace_env \<Rightarrow> stack_cache \<Rightarrow> nat \<Rightarrow> u32 \<Rightarrow> (u32 list \<times> stack_cache) outcome" where
  "ubrd_get_backtrace_common te st max_entries btmethod =
     (if btmethod = UBRD_FP_BACKTRACE then
        ubrd_get_backtrace_fp (te_image te) (te_proc te) st (te_fp te) max_entries
      else if btmethod = UBRD_GCC_UNWIND_BACKTRACE \<or> btmethod = UBRD_CORKSCREW_UNWIND_BACKTRACE then
        (case libudf_unwind_backtrace (te_udf te) (te_regs te) 4 max_entries of
           UwFrames fb \<Rightarrow> Ok (bt_frames fb, st)
         | UwFault \<Rightarrow> Fault
         | UwNonterm \<Rightarrow> Fail)
      else bindo (ubrd_get_backtrace (te_unwinder te) (te_code te) max_entries 0) (\<lambda>addrs. Ok (addrs, st)))"

section \<open>The walks stay on the stack\<close>

text \<open>
  Every word that starts strictly inside the stack is mapped, and so is the word before each. The top of the stack
  is not within three bytes of the end of the address space.
\<close>

definition walk_ready :: "memory_image \<Rightarrow> stack_bounds \<Rightarrow> bool" where
  "walk_ready img sb \<longleftrightarrow> (\<forall>p. inside sb p \<longrightarrow> img p \<noteq> None \<and> img (p - 4) \<noteq> None) \<and> 4 \<le> sb_start sb \<and> sb_start sb \<le> 0xFFFFFFFC"

lemma inside_above:
  assumes "inside sb fp" "\<not> fp + 4 > sb_start sb - 4" "4 \<le> sb_start sb" "sb_start sb \<le> 0xFFFFFFFC"
  shows "inside sb (fp + 4)"
proof -
  have a: "unat (sb_start sb - 4) = unat (sb_start sb) - 4" using assms(3) by (simp add: unat_sub_if' word_le_nat_alt)
  have b: "unat (sb_start sb) \<le> 4294967292" "4 \<le> unat (sb_start sb)" using assms(3,4) by (simp_all add: word_le_nat_alt)
  have "unat fp < unat (sb_start sb)" using assms(1) by (simp add: inside_def word_less_nat_alt)
  then have f: "unat (fp + 4) = unat fp + 4" using b by (simp add: unat_add_u32)
  show ?thesis using assms(1,2) a b f by (simp add: inside_def word_less_nat_alt not_less word_le_nat_alt)
qed

lemma walk_frame_ok:
  assumes "walk_ready img sb" "inside sb fp"
  shows "\<exists>fr. walk_frame img sb fp = Ok fr"
proof -
  have m: "\<And>p. inside sb p \<Longrightarrow> img p \<noteq> None \<and> img (p - 4) \<noteq> None" and t: "4 \<le> sb_start sb" "sb_start sb \<le> 0xFFFFFFFC"
    using assms(1) by (simp_all add: walk_ready_def)
  obtain w v where w: "img fp = Some w" "img (fp - 4) = Some v" using m [OF assms(2)] by blast
  show ?thesis
  proof (cases "fp + 4 > sb_start sb - 4")
    case True
    then show ?thesis using w by (simp add: walk_frame_def read_word_def)
  next
    case False
    obtain u where "img (fp + 4) = Some u" using m [OF inside_above [OF assms(2) False t]] by blast
    then show ?thesis using w by (simp add: walk_frame_def read_word_def)
  qed
qed

lemma walk_frames_ok:
  assumes "walk_ready img sb"
  shows "\<exists>addrs. walk_frames img sb room fp = Ok addrs \<and> length addrs \<le> room"
proof (induction room arbitrary: fp)
  case (Suc room)
  show ?case
  proof (cases "inside sb fp")
    case True
    obtain fr where fr: "walk_frame img sb fp = Ok fr" using walk_frame_ok [OF assms True] by blast
    show ?thesis
    proof (cases fr)
      case (Some r)
      obtain lr nx where "r = (lr, nx)" by (cases r)
      then show ?thesis using True fr Some Suc.IH [of nx] by auto
    qed (use True fr in simp)
  qed simp
qed simp

text \<open>The 64-bit walk is that of the malloc debugger.\<close>

lemma internal_loop:
  "internal_get_backtrace_fp img s e True room fp = fp64_loop img s e room fp"
proof (induction room arbitrary: fp)
  case 0
  then show ?case by (simp add: internal_get_backtrace_fp.simps)
next
  case (Suc room)
  show ?case
    by (subst internal_get_backtrace_fp.simps) (simp add: on_stack64_def Suc.IH cong: if_cong)
qed

lemma ubrd_walk64_is_malloc_walk:
  "ubrd_get_backtrace_common64 img (Some (s, e)) frame_address max_entries = get_backtrace64 img s e frame_address max_entries"
proof -
  have "bindo m (internal_get_backtrace_fp img s e True max_entries) = bindo m (fp64_loop img s e max_entries)" for m
    by (cases m) (simp_all add: internal_loop)
  then show ?thesis
    by (simp add: ubrd_get_backtrace_common64_def get_backtrace64_def internal_get_backtrace_fp.simps [of _ _ _ False]
        on_stack64_def)
qed

section \<open>The C++ unwinder stores call sites\<close>

definition code_readable :: "(u32 \<Rightarrow> 16 word option) \<Rightarrow> u32 list \<Rightarrow> bool" where
  "code_readable code ips \<longleftrightarrow> (\<forall>ip \<in> set ips. ip \<noteq> 0 \<longrightarrow> code (ip - 2) \<noteq> None)"

definition site_of :: "(u32 \<Rightarrow> 16 word option) \<Rightarrow> u32 \<Rightarrow> u32" where
  "site_of code ip = (if ip = 0 then 0 else if the (code (ip - 2)) AND 0xff80 = 0x4780 then ip - 2 else ip - 4)"

lemma call_site_readable: "code_readable code (ip # ips) \<Longrightarrow> call_site code ip = Ok (site_of code ip)"
  by (auto simp: code_readable_def call_site_def site_of_def)

lemma crawl_stores:
  assumes "code_readable code ips" "crawl_skipped_self s" "crawl_skip s = 0" "length (crawl_frames s) < crawl_depth s"
  shows "crawl_frames_in_order ips (ubrd_trace_function code) s =
    Ok (s\<lparr>crawl_frames := crawl_frames s @ map (site_of code) (take (crawl_depth s - length (crawl_frames s)) ips)\<rparr>)"
  using assms
proof (induction ips arbitrary: s)
  case (Cons ip ips)
  let ?s = "s\<lparr>crawl_frames := crawl_frames s @ [site_of code ip]\<rparr>"
  obtain n where n: "crawl_depth s - length (crawl_frames s) = Suc n" using Cons.prems(4) by (metis Suc_diff_Suc)
  have f: "ubrd_trace_function code ip s =
      Ok (if crawl_depth s \<le> Suc (length (crawl_frames s)) then URC_END_OF_STACK else URC_NO_REASON, ?s)"
    using Cons.prems by (simp add: ubrd_trace_function_def call_site_readable)
  show ?case
  proof (cases "crawl_depth s \<le> Suc (length (crawl_frames s))")
    case True
    then have "n = 0" using n by simp
    then show ?thesis using f n True by simp
  next
    case False
    have "code_readable code ips" using Cons.prems(1) by (simp add: code_readable_def)
    then have "crawl_frames_in_order ips (ubrd_trace_function code) ?s =
        Ok (?s\<lparr>crawl_frames := crawl_frames ?s @ map (site_of code) (take (crawl_depth ?s - length (crawl_frames ?s)) ips)\<rparr>)"
      using Cons.prems False by (intro Cons.IH) simp_all
    moreover have "crawl_depth s - Suc (length (crawl_frames s)) = n" using n by simp
    ultimately show ?thesis using f n False by simp
  qed
qed simp

text \<open>All frames but the first, as many as there is room for, each moved back to the call before it.\<close>

lemma ubrd_get_backtrace_stores:
  assumes "crawls_in_order uw (ip # ips)" "ip \<noteq> 0" "code_readable code ips" "0 < max_entries"
  shows "ubrd_get_backtrace uw code max_entries 0 = Ok (map (site_of code) (take max_entries ips))"
  using assms by (simp add: ubrd_get_backtrace_def crawls_in_order_def ubrd_trace_function_def crawl_stores)

text \<open>There is no test before the first store.\<close>

lemma ubrd_get_backtrace_overruns_empty:
  assumes "crawls_in_order uw [ip, ip']" "ip \<noteq> 0" "code_readable code [ip']"
  shows "ubrd_get_backtrace uw code 0 0 = Ok [site_of code ip']"
  using assms by (simp add: ubrd_get_backtrace_def crawls_in_order_def ubrd_trace_function_def call_site_readable Let_def)

section \<open>A trace fits the recorder's array\<close>

text \<open>
  What taking a trace relies on: mapped stacks, the unwinder's tables of less than 2^31 entries, readable code, and
  a C++ unwinder that reports frames, the first one not null.
\<close>

definition trace_ready :: "trace_env \<Rightarrow> stack_cache \<Rightarrow> bool" where
  "trace_ready te st \<longleftrightarrow>
     (\<exists>r st'. recorder_get_stack (te_proc te) st = Ok (r, st') \<and> (\<forall>sb. r = Some sb \<longrightarrow> walk_ready (te_image te) sb)) \<and>
     (let e = local_env (te_udf te) acquire_my_map_info_list in stack_known e \<and> exidx_bounded e) \<and>
     (\<exists>ip ips. crawls_in_order (te_unwinder te) (ip # ips) \<and> ip \<noteq> 0 \<and> code_readable (te_code te) ips)"

lemma initConfig_depth:
  "1 \<le> unat (mMaxBtDepth (initConfig name w)) \<and> unat (mMaxBtDepth (initConfig name w)) \<le> 32"
proof -
  have "Suc 0 \<le> unat x" if "x \<noteq> 0" for x :: u32 using that by (metis One_nat_def Suc_leI neq0_conv unat_eq_zero)
  then show ?thesis
    by (auto simp: initConfig_def Let_def DEFAULT_MAX_BACKTRACE_DEPTH_def MAX_BACKTRACE_SIZE_def word_less_nat_alt not_less)
qed

text \<open>
  Whatever configuration a recorder is started with, whichever of the three sources it selects, a back trace is
  taken without a bad read and fits the array of 32 addresses the recorder keeps for it on its own stack.
\<close>

theorem ubrd_trace_fits:
  assumes "trace_ready te st" and "c = initConfig name w"
  shows "\<exists>addrs st'. ubrd_get_backtrace_common te st (unat (mMaxBtDepth c)) (mBtMethod c) = Ok (addrs, st')
    \<and> length addrs \<le> unat (mMaxBtDepth c) \<and> length addrs \<le> 32"
proof -
  let ?n = "unat (mMaxBtDepth c)"
  have n: "1 \<le> ?n" "?n \<le> 32" using initConfig_depth by (simp_all add: assms(2))
  have fp: "\<exists>addrs st'. ubrd_get_backtrace_fp (te_image te) (te_proc te) st (te_fp te) ?n = Ok (addrs, st') \<and> length addrs \<le> ?n"
  proof -
    obtain r st' where r: "recorder_get_stack (te_proc te) st = Ok (r, st')" "\<And>sb. r = Some sb \<Longrightarrow> walk_ready (te_image te) sb"
      using assms(1) by (auto simp: trace_ready_def)
    show ?thesis
    proof (cases r)
      case (Some sb)
      obtain addrs where "walk_frames (te_image te) sb ?n (te_fp te) = Ok addrs" "length addrs \<le> ?n"
        using walk_frames_ok [OF r(2) [OF Some]] by blast
      then show ?thesis using r(1) Some by (simp add: ubrd_get_backtrace_fp_def)
    qed (use r(1) in \<open>simp add: ubrd_get_backtrace_fp_def\<close>)
  qed
  obtain fb where fb: "libudf_unwind_backtrace (te_udf te) (te_regs te) 4 ?n = UwFrames fb" "length (bt_frames fb) \<le> ?n"
    using assms(1) unwind_backtrace_common_ok [of "local_env (te_udf te) acquire_my_map_info_list" "regs_of_list (te_regs te)" 4 ?n]
    unfolding trace_ready_def libudf_unwind_backtrace_def unwind_backtrace_signal_arch_selfnogcc_def Let_def by blast
  have cpp: "\<exists>addrs. ubrd_get_backtrace (te_unwinder te) (te_code te) ?n 0 = Ok addrs \<and> length addrs \<le> ?n"
    using assms(1) ubrd_get_backtrace_stores n(1) by (fastforce simp: trace_ready_def)
  show ?thesis
    using fp fb cpp n(2) by (fastforce simp: ubrd_get_backtrace_common_def)
qed

definition sample_trace_env :: trace_env where
  "sample_trace_env = \<lparr>te_image = (\<lambda>_. Some 0), te_proc = sample_thread, te_code = (\<lambda>_. Some 0x4780),
     te_unwinder = crawl_frames_in_order [0x8000, 0x9000, 0xA000], te_udf = sample_env\<lparr>ue_self := (\<lambda>_. Some 0)\<rparr>,
     te_regs = replicate 16 0, te_fp = 0x1100\<rparr>"

theorem ubrd_trace_fits_witness:
  "\<exists>addrs st'. ubrd_get_backtrace_common sample_trace_env sample_cache (unat (mMaxBtDepth (initConfig ''m'' 0x24002020)))
      (mBtMethod (initConfig ''m'' 0x24002020)) = Ok (addrs, st') \<and> length addrs \<le> 32"
proof -
  have "trace_ready sample_trace_env sample_cache"
  proof -
    have "recorder_get_stack sample_thread sample_cache = Ok (Some sample_bounds, sample_cache)"
      by (simp add: recorder_get_stack_def sample_thread_def sample_bounds_def)
    moreover have "walk_ready (\<lambda>_. Some 0) sample_bounds" by (simp add: walk_ready_def sample_bounds_def)
    moreover have "crawls_in_order (crawl_frames_in_order [0x8000, 0x9000, 0xA000]) [0x8000, 0x9000, 0xA000]"
      by (simp add: crawls_in_order_def)
    moreover have "code_readable (\<lambda>_. Some 0x4780) [0x9000, 0xA000]" by (simp add: code_readable_def)
    moreover have "exidx_bounded (local_env (sample_env\<lparr>ue_self := (\<lambda>_. Some 0)\<rparr>) acquire_my_map_info_list)"
      by (simp add: exidx_bounded_def exidx_section_def find_exidx_def sample_env_def init_memory_def local_env_def)
    moreover have "stack_known (local_env (sample_env\<lparr>ue_self := (\<lambda>_. Some 0)\<rparr>) acquire_my_map_info_list)"
      using stack_mapped_sample by (simp add: stack_known_def local_env_def proc_fits_def sample_env_def thread_at_def)
    ultimately show ?thesis
      unfolding trace_ready_def sample_trace_env_def Let_def
      by (intro conjI exI [of _ "0x8000"] exI [of _ "[0x9000, 0xA000]"]) auto
  qed
  from ubrd_trace_fits [OF this refl, of "''m''" "0x24002020"] show ?thesis by blast
qed

end
