(* ===== verification/Spec2Isabelle.thy ===== *)
theory Spec2Isabelle
  imports ArmLoop BackTrace Lights MmapDebug ThermalHal ThermalProps MdGuardProps MdInitProps MdConfigProps WifiProps HciProps BtRace BtDebugProps CameraProps SensorManagerProps FdLeakReports UbrdDump UbrdBackTrace
begin

text \<open>
  The native services of the platform, under \<open>src/proprietary/\<close>: the debugging libraries of libudf
  (\<open>external/libudf\<close>), the thermal daemon and module, the lights, the Bluetooth and the sensor HAL, the
  vendor commands of the Wi-Fi supplicant and the parameters of the camera. Every definition follows one
  function, class or type of the code; the builds that are modelled are the 32-bit ARM ones of the
  \<open>Android.mk\<close> and \<open>Android.bp\<close> files.

  \<^bold>\<open>How the code is modelled.\<close> A struct is a record, an enum a datatype or a constant, a machine word a
  \<open>32 word\<close> (or \<open>int\<close> with the wrap-around written out), a C string the list of its characters before the
  terminator. Code that keeps state is a function on an explicit state; the memory of a recorder is one
  partial map per kind of struct, from addresses to values, so that aliasing and dangling pointers are
  there. A result \<open>None\<close> (or \<open>Fault\<close> of the type \<open>outcome\<close> in Prelude) is a fault: a bad pointer, an index out
  of an array, a lock taken twice, an \<open>abort\<close>. Threads are step relations or lists of steps, whatever their
  order. What the repository does not hold (the kernel's answers, dlmalloc, libc, the unwinder below a
  recorder, the sensor libraries, floating-point arithmetic) is a parameter: a record of functions, an
  argument, or a list of answers. Prelude and CLib hold what all share: the outcome type and its rules,
  words, and the functions of libc on strings (\<open>atoi\<close>, \<open>strtoul\<close>, \<open>sscanf\<close> and \<open>sprintf\<close> of the formats used).

  \<^bold>\<open>The ARM unwinder\<close> (\<open>libudf/unwind\<close>). UnwindMem: \<open>ptrace.c\<close> and \<open>map_info.c\<close>, what can be read of the
  unwound task. ArmUnwind: \<open>arch-arm/backtrace-arm.c\<close>, from the search in the exception index through the
  instructions to the collection loop. ArmProps: offsets of 31 bits, the binary search finds the entry that
  covers the pc. ArmInsns: one executed instruction does what the table of the exception handling ABI says
  (an independent reading of the table is the specification, but for two first bytes and one workaround).
  ArmLoop: the loop ends, stays inside the caller's array and never faults while the bounds of the stack can
  be read without overrunning the line buffer and the words between them are mapped. The fuel of the instruction loop is the number of bytes
  of a table entry, that of the collection loop the number of frames asked for plus those ignored; both are
  shown to be enough. BackTrace: \<open>malloc_debug/back_trace.c\<close>, the frame-pointer walk, with a proof that it
  reads no word but those of the stack and the ones below them, and returns exactly the chain of frames.

  \<^bold>\<open>The back-trace recorder\<close> (\<open>libudf/ubrd_core/recorder.c\<close>). Dll: the doubly linked lists in buckets that
  all recorders use, with the locale \<open>dll_node\<close> for the two link fields of a struct; it is interpreted for
  each kind of node. Ubrd: the configuration word, the tables, the ring of historical entries and the
  exported operations. UbrdBase: hashing and comparing traces. UbrdInv: the invariant (proper lists, exact
  counters, ownership). UbrdTable, UbrdSafe: every operation keeps it. UbrdProps, UbrdMain: no history of
  calls faults, deadlocks or breaks the tables; the counters are the numbers of references; what is recorded
  is what the next remove takes out. UbrdDump: \<open>dump.c\<close> and \<open>sighandler.c\<close>, the tables printed between two
  calls are exactly the entries. UbrdBackTrace: \<open>backtrace.cpp\<close>, the choice among the unwinders; a trace fits
  the recorder's array. MmapDebug: \<open>mmap_debug/mmap_debug.c\<close>, the wrappers of \<open>mmap\<close> and \<open>munmap\<close> on top
  of it, transparent to their caller.

  \<^bold>\<open>The descriptor debugger\<close> (\<open>libudf/fdleak_debug\<close>). FdLeak: the table of descriptors, the lists of traces,
  the wrappers of the functions that open and close descriptors, start up, forks and the exception it raises.
  FdLeakInv, FdLeakProps: recording and removing keep the invariant and implement a map from the recorded
  descriptors to their traces. FdLeakMain: the wrappers, by two contracts (\<open>acts\<close> for what has no result,
  \<open>wraps\<close> for what has one), calls and forks. FdLeakReports: whole runs are transparent, the table tells what the
  recorded calls say of the descriptors, the counts are exact for that, and where the reports go astray.

  \<^bold>\<open>The malloc debugger\<close> (\<open>libudf/malloc_debug\<close>). MdRecorder: \<open>recorder.c\<close>, the tables of allocations.
  MdGuard: \<open>malloc_debug_mtk.c\<close>, headers, guards, poison and the exported allocation functions over the
  bytes of the process. MdMem, MdFrame: facts on bytes and on what the recorder leaves alone. MdGuardProps:
  a block is what its caller asked for, between intact guards; writing over a guard aborts, and so does freeing
  twice while libc has not written over the mark (what libc's \<open>free\<close> does to the memory is a parameter);
  \<open>realloc\<close> keeps the contents; \<open>memalign\<close> aligns within bounds. MdConfig, MdConfigProps:
  \<open>config.c\<close>, the table of process configurations as a finite map, the option parser (when its loop ends,
  and for which input it does not) and the reader of files, with its 4095 characters and 255 words. MdInit, MdInitProps: start up, the
  configuration word, and the copy of the debug memory across a fork, to wherever the kernel maps it.

  \<^bold>\<open>Lights and thermal\<close> (\<open>hardware/liblights/lights.c\<close>, \<open>external/thermal/thermal.c\<close>,
  \<open>hardware/thermal/thermal_hal.c\<close>). Lights: requests, the state machines of the LEDs and the writes to
  sysfs; after any history each LED shows what the two stored requests ask for, triggers and delays included. Thermal, ThermalProps: the daemon between kernel
  and modem; its thresholds are those it read last and rild is sent the changed ones, and the modem's answer
  reaches the kernel; its duty cycle never starts, for want of the timers. ThermalHal: temperatures and CPU usages as the module reads them.

  \<^bold>\<open>Wi-Fi\<close> (\<open>wpa_supplicant_8_lib/mediatek_driver_cmd_nl80211.c\<close>). WifiCmd: the handlers of the text
  commands; WifiStats: the station statistics; WifiDriver: the dispatcher. WifiProps: what is printed for the
  driver is parsed back to the same numbers, and text that is no command passes unchanged.

  \<^bold>\<open>Bluetooth\<close> (\<open>hardware/interfaces/bluetooth\<close>). HciStream: packets out of a byte stream and into it
  (\<open>hci_packetizer.cc\<close>, \<open>h4_protocol.cc\<close>, \<open>mct_protocol.cc\<close>). HciProps: the packets are a parse of the stream
  however the reads cut it, and they all arrive. BtHal: \<open>vendor_interface.cc\<close> and
  \<open>bluetooth_hci.cc\<close>, the power state machine and the low-power protocol. BtThreads: \<open>Send\<close> and \<open>OnTimeout\<close> in their parts and
  every interleaving of the threads. BtProps: the machine implements the switch its client sees. BtRace: no
  packet is sent to a sleeping chip while the calls do not overlap, and an overlap after which one is. BtDebug, BtDebugProps:
  the archive of packets, addresses and properties.

  \<^bold>\<open>Camera\<close> (\<open>hardware/libcamera_parameters\<close>). Camera, CameraProps: the parameters as a map over the
  platform's sorted map (its laws are the locale of Camera), their flat form and its round trip.

  \<^bold>\<open>Sensors\<close> (\<open>hardware/sensor\<close>). SensorReader: the ring of \<open>SensorEventReader.cpp\<close>, whose writes may fail. SensorBase,
  SensorDrivers, SensorDrivers2, SensorFusion: one definition per method of the sensor classes, those with
  one sensor, those that share a device, and the fused ones. SensorContext: the table of classes behind one
  \<open>poll\<close>. SensorProps: the ring is a queue, the contract of \<open>readEvents\<close> (locale \<open>sensor_table\<close>) holds for
  the table that the constructor builds, so a poll never aborts as long as the events come from known
  sensors; an unknown gesture aborts. SensorManager, SensorManagerProps: the manager above the table; the
  hardware is on exactly while a client wants it and at the fastest rate asked for, and events go to the
  connections that have their sensor active. The fuel of \<open>poll\<close> is the number of rounds its list of
  answers allows; no result is claimed where it is used up.

  \<^bold>\<open>Not modelled\<close>: \<open>malloc_debug/malloc.c\<close> (dlmalloc, third party; its functions are parameters), the code of
  libudf that prints tables into files, the Wi-Fi HAL over libnl, the table of sensor
  descriptions and the shared-memory channels, the audio submix over the NBAIO pipe of another repository,
  the HIDL services, the power and thermal-manager loaders of libraries that are not here, the tools that
  only call other programs, and the OpenMAX headers. Left out of modelled parts: logging, code that the
  builds do not compile, and what is named where a theory opens.
\<close>

end
